(* ===== verification/Prelude.thy ===== *)
theory Prelude
  imports Main "HOL-Library.List_Lexorder" "HOL-Library.Product_Lexorder" "HOL-Library.Char_ord"
begin

text \<open>
  Shared vocabulary of the development: the named collections of facts, the error monad in which
  every transactional service function is written, Python's list idioms, ASCII string helpers, the
  table operations that stand for Django querysets, and the two generic interfaces (a keyed table,
  a transition system with an invariant) that the component theories interpret.
\<close>

named_theorems effect \<open>what an operation does to the tables it writes\<close>
named_theorems frame \<open>which tables an operation leaves alone\<close>

section \<open>Errors as values\<close>

text \<open>
  A service function that may raise returns \<open>Inl e\<close> for the exception and \<open>Inr r\<close> otherwise.
  Under \<open>transaction.atomic\<close> a raised exception rolls the transaction back, so the \<open>Inl\<close>
  branch carries no database.
\<close>

definition bindE :: "'e + 'a \<Rightarrow> ('a \<Rightarrow> 'e + 'b) \<Rightarrow> 'e + 'b" where
  "bindE m f = (case m of Inl e \<Rightarrow> Inl e | Inr a \<Rightarrow> f a)"

definition guardE :: "bool \<Rightarrow> 'e \<Rightarrow> 'e + unit" where
  "guardE ok e = (if ok then Inr () else Inl e)"

definition or_raise :: "'a option \<Rightarrow> 'e \<Rightarrow> 'e + 'a" where
  "or_raise r e = (case r of None \<Rightarrow> Inl e | Some a \<Rightarrow> Inr a)"

lemma bindE_simps [simp]: "bindE (Inl e) f = Inl e" "bindE (Inr a) f = f a"
  by (simp_all add: bindE_def)

lemma bindE_eq_Inr [simp]: "bindE m f = Inr b \<longleftrightarrow> (\<exists>a. m = Inr a \<and> f a = Inr b)"
  by (cases m) auto

lemma Inr_eq_bindE: "Inr b = bindE m f \<longleftrightarrow> (\<exists>a. m = Inr a \<and> f a = Inr b)"
  by (cases m) auto

lemma guardE_eq_Inr [simp]: "guardE ok e = Inr u \<longleftrightarrow> ok"
  by (simp add: guardE_def)

lemma guardE_simps [simp]: "guardE True e = Inr ()" "guardE False e = Inl e"
  by (simp_all add: guardE_def)

lemma guardE_eq_Inl [simp]: "guardE ok e = Inl e' \<longleftrightarrow> \<not> ok \<and> e' = e"
  by (auto simp: guardE_def)

lemma or_raise_eq_Inr [simp]: "or_raise r e = Inr a \<longleftrightarrow> r = Some a"
  by (cases r) (simp_all add: or_raise_def)

lemma or_raise_simps [simp]: "or_raise (Some a) e = Inr a" "or_raise None e = Inl e"
  by (simp_all add: or_raise_def)

section \<open>Python list idioms\<close>

text \<open>\<open>list(dict.fromkeys(xs))\<close>: duplicates dropped, first occurrences kept in order.\<close>

fun fromkeys :: "'a list \<Rightarrow> 'a list" where
  "fromkeys [] = []"
| "fromkeys (x # xs) = x # fromkeys (filter (\<lambda>y. y \<noteq> x) xs)"

lemma set_fromkeys [simp]: "set (fromkeys xs) = set xs"
  by (induction xs rule: fromkeys.induct) auto

lemma distinct_fromkeys [simp]: "distinct (fromkeys xs)"
  by (induction xs rule: fromkeys.induct) auto

lemma fromkeys_distinct: "distinct xs \<Longrightarrow> fromkeys xs = xs"
proof (induction xs)
  case (Cons x xs)
  then have "filter (\<lambda>y. y \<noteq> x) xs = xs" by (auto intro: filter_True)
  with Cons show ?case by simp
qed simp

lemma fromkeys_eq_Nil [simp]: "fromkeys xs = [] \<longleftrightarrow> xs = []"
  by (cases xs) simp_all

text \<open>\<open>s.split(c)\<close> on a one-character separator: always at least one chunk.\<close>

fun split_on :: "char \<Rightarrow> string \<Rightarrow> string list" where
  "split_on c [] = [[]]"
| "split_on c (x # xs) =
     (if x = c then [] # split_on c xs
      else (case split_on c xs of [] \<Rightarrow> [[x]] | y # ys \<Rightarrow> (x # y) # ys))"

lemma split_on_no_sep: "c \<notin> set xs \<Longrightarrow> split_on c xs = [xs]"
  by (induction xs) auto

lemma split_on_append: "c \<notin> set xs \<Longrightarrow> split_on c (xs @ c # ys) = xs # split_on c ys"
  by (induction xs) auto

section \<open>ASCII strings\<close>

text \<open>
  Strings are lists of ASCII characters. \<open>str.strip\<close> removes the characters for which
  \<open>str.isspace\<close> holds (code points 9 to 13 and 28 to 32 in ASCII); \<open>str.upper\<close> and
  \<open>str.lower\<close> shift the 26 letters.
\<close>

definition code_pt :: "char \<Rightarrow> nat" where
  "code_pt c = of_char c"

definition is_space :: "char \<Rightarrow> bool" where
  "is_space c = ((9 \<le> code_pt c \<and> code_pt c \<le> 13) \<or> (28 \<le> code_pt c \<and> code_pt c \<le> 32))"

definition strip :: "string \<Rightarrow> string" where
  "strip s = rev (dropWhile is_space (rev (dropWhile is_space s)))"

definition upper_char :: "char \<Rightarrow> char" where
  "upper_char c = (if 97 \<le> code_pt c \<and> code_pt c \<le> 122 then char_of (code_pt c - 32) else c)"

definition lower_char :: "char \<Rightarrow> char" where
  "lower_char c = (if 65 \<le> code_pt c \<and> code_pt c \<le> 90 then char_of (code_pt c + 32) else c)"

definition upper :: "string \<Rightarrow> string" where
  "upper s = map upper_char s"

definition lower :: "string \<Rightarrow> string" where
  "lower s = map lower_char s"

lemma code_pt_char_of: "n < 256 \<Longrightarrow> code_pt (char_of n) = n"
  by (simp add: code_pt_def)

lemma upper_char_idem [simp]: "upper_char (upper_char c) = upper_char c"
  by (auto simp: upper_char_def code_pt_char_of)

lemma lower_char_idem [simp]: "lower_char (lower_char c) = lower_char c"
  by (auto simp: lower_char_def code_pt_char_of)

lemma upper_idem [simp]: "upper (upper s) = upper s"
  by (simp add: upper_def)

lemma lower_idem [simp]: "lower (lower s) = lower s"
  by (simp add: lower_def)

lemma is_space_upper [simp]: "is_space (upper_char c) = is_space c"
  by (auto simp: is_space_def upper_char_def code_pt_char_of)

lemma is_space_lower [simp]: "is_space (lower_char c) = is_space c"
  by (auto simp: is_space_def lower_char_def code_pt_char_of)

lemma strip_upper: "strip (upper s) = upper (strip s)"
  by (simp add: strip_def upper_def dropWhile_map rev_map o_def)

lemma strip_lower: "strip (lower s) = lower (strip s)"
  by (simp add: strip_def lower_def dropWhile_map rev_map o_def)

lemma strip_idem [simp]: "strip (strip s) = strip s"
proof -
  let ?d = "dropWhile is_space"
  have key: "?d (rev (?d (rev t))) = rev (?d (rev t))" if "?d t = t" for t
  proof (cases t)
    case (Cons c cs)
    with that have c: "\<not> is_space c"
      by (metis dropWhile_eq_self_iff list.sel(1) neq_Nil_conv)
    have "\<exists>ys. rev (?d (rev (c # cs))) = c # ys"
      using c by (auto simp: dropWhile_append intro: rev_rev_ident [symmetric])
    with c Cons show ?thesis by auto
  qed simp
  show ?thesis
    by (simp add: strip_def key)
qed

section \<open>Tables\<close>

text \<open>
  A table is the list of its rows in primary-key order, which is the order in which they were
  inserted. A queryset is a filtered table; \<open>.first()\<close> of an unordered queryset is its first row
  by primary key, \<open>.order_by(k)\<close> a stable sort.
\<close>

definition first_row :: "'r list \<Rightarrow> 'r option" where
  "first_row rs = (case rs of [] \<Rightarrow> None | r # _ \<Rightarrow> Some r)"

definition get_row :: "('r \<Rightarrow> nat) \<Rightarrow> nat \<Rightarrow> 'r list \<Rightarrow> 'r option" where
  "get_row pk k rs = first_row (filter (\<lambda>r. pk r = k) rs)"

definition update_rows :: "('r \<Rightarrow> bool) \<Rightarrow> ('r \<Rightarrow> 'r) \<Rightarrow> 'r list \<Rightarrow> 'r list" where
  "update_rows P f rs = map (\<lambda>r. if P r then f r else r) rs"

definition delete_rows :: "('r \<Rightarrow> bool) \<Rightarrow> 'r list \<Rightarrow> 'r list" where
  "delete_rows P rs = filter (\<lambda>r. \<not> P r) rs"

definition order_by :: "('r \<Rightarrow> 'k::linorder) \<Rightarrow> 'r list \<Rightarrow> 'r list" where
  "order_by k rs = sort_key k rs"

definition qs_exists :: "('r \<Rightarrow> bool) \<Rightarrow> 'r list \<Rightarrow> bool" where
  "qs_exists P rs = list_ex P rs"

lemma first_row_simps [simp]: "first_row [] = None" "first_row (r # rs) = Some r"
  by (simp_all add: first_row_def)

lemma first_row_Some: "first_row rs = Some r \<Longrightarrow> r \<in> set rs"
  by (cases rs) auto

lemma first_row_None [simp]: "first_row rs = None \<longleftrightarrow> rs = []"
  by (cases rs) auto

lemma get_row_Some: "get_row pk k rs = Some r \<Longrightarrow> r \<in> set rs \<and> pk r = k"
  by (auto simp: get_row_def dest: first_row_Some)

lemma get_row_None: "get_row pk k rs = None \<longleftrightarrow> (\<forall>r\<in>set rs. pk r \<noteq> k)"
  by (auto simp: get_row_def filter_empty_conv)

lemma set_delete_rows [simp]: "set (delete_rows P rs) = {r \<in> set rs. \<not> P r}"
  by (auto simp: delete_rows_def)

lemma delete_rows_append [simp]: "delete_rows P (xs @ ys) = delete_rows P xs @ delete_rows P ys"
  by (simp add: delete_rows_def)

lemma length_update_rows [simp]: "length (update_rows P f rs) = length rs"
  by (simp add: update_rows_def)

lemma set_update_rows: "set (update_rows P f rs) = (\<lambda>r. if P r then f r else r) ` set rs"
  by (simp add: update_rows_def)

lemma qs_exists_iff [simp]: "qs_exists P rs \<longleftrightarrow> (\<exists>r\<in>set rs. P r)"
  by (simp add: qs_exists_def list_ex_iff)

text \<open>A table is well keyed below \<open>n\<close> when its keys increase and all lie below \<open>n\<close>.\<close>

definition well_keyed :: "('r \<Rightarrow> nat) \<Rightarrow> nat \<Rightarrow> 'r list \<Rightarrow> bool" where
  "well_keyed pk n rs \<longleftrightarrow> sorted_wrt (<) (map pk rs) \<and> (\<forall>r\<in>set rs. pk r < n)"

text \<open>
  The interface of a Django model's table: a key and the way \<open>objects.create\<close> stamps a fresh key
  on a row. The only law a provider owes is that the stamped key is read back; the clients' lemmas
  are the facts every component uses about inserting, deleting and updating rows.
\<close>

locale model_table =
  fixes pk :: "'r \<Rightarrow> nat" and with_pk :: "nat \<Rightarrow> 'r \<Rightarrow> 'r"
  assumes pk_with_pk [simp]: "pk (with_pk k r) = k"
begin

lemma empty_keyed: "well_keyed pk n []"
  by (simp add: well_keyed_def)

lemma insert_keyed: "well_keyed pk n rs \<Longrightarrow> well_keyed pk (Suc n) (rs @ [with_pk n r])"
  by (auto simp: well_keyed_def sorted_wrt_append less_Suc_eq)

lemma keyed_mono: "well_keyed pk n rs \<Longrightarrow> n \<le> m \<Longrightarrow> well_keyed pk m rs"
  by (auto simp: well_keyed_def)

lemma delete_keyed: "well_keyed pk n rs \<Longrightarrow> well_keyed pk n (delete_rows P rs)"
  by (auto simp: well_keyed_def delete_rows_def sorted_wrt_map sorted_wrt_filter)

lemma update_keyed:
  assumes "\<And>r. pk (f r) = pk r" and "well_keyed pk n rs"
  shows "well_keyed pk n (update_rows P f rs)"
proof -
  have "map pk (update_rows P f rs) = map pk rs"
    using assms(1) by (auto simp: update_rows_def)
  with assms show ?thesis
    by (auto simp: well_keyed_def set_update_rows)
qed

lemma keyed_distinct: "well_keyed pk n rs \<Longrightarrow> distinct (map pk rs)"
  by (simp add: well_keyed_def strict_sorted_iff)

lemma keyed_inj: "well_keyed pk n rs \<Longrightarrow> r \<in> set rs \<Longrightarrow> s \<in> set rs \<Longrightarrow> pk r = pk s \<Longrightarrow> r = s"
  using keyed_distinct by (meson distinct_map inj_onD)

lemma get_row_keyed: "well_keyed pk n rs \<Longrightarrow> r \<in> set rs \<Longrightarrow> get_row pk (pk r) rs = Some r"
proof -
  assume wk: "well_keyed pk n rs" and r: "r \<in> set rs"
  obtain s where s: "get_row pk (pk r) rs = Some s"
    using r by (cases "get_row pk (pk r) rs") (auto simp: get_row_None)
  from get_row_Some [OF s] keyed_inj [OF wk _ r] s show ?thesis by auto
qed

lemma get_row_fresh: "well_keyed pk n rs \<Longrightarrow> get_row pk n rs = None"
  by (auto simp: get_row_None well_keyed_def)

lemma fresh_key: "well_keyed pk n rs \<Longrightarrow> r \<in> set rs \<Longrightarrow> pk r \<noteq> n"
  by (auto simp: well_keyed_def)

end

section \<open>Transition systems\<close>

text \<open>The states a system can reach from its initial states.\<close>

inductive reachable :: "('s \<Rightarrow> bool) \<Rightarrow> ('s \<Rightarrow> 's \<Rightarrow> bool) \<Rightarrow> 's \<Rightarrow> bool"
  for init :: "'s \<Rightarrow> bool" and step :: "'s \<Rightarrow> 's \<Rightarrow> bool"
where
  start: "init s \<Longrightarrow> reachable init step s"
| move: "reachable init step s \<Longrightarrow> step s t \<Longrightarrow> reachable init step t"

text \<open>
  An inductive invariant: what a component owes is that it holds initially and that every step
  keeps it; what the client gets is that it holds in every reachable state, along every run.
\<close>

locale inductive_invariant =
  fixes init :: "'s \<Rightarrow> bool" and step :: "'s \<Rightarrow> 's \<Rightarrow> bool" and inv :: "'s \<Rightarrow> bool"
  assumes inv_init: "init s \<Longrightarrow> inv s"
    and inv_step: "inv s \<Longrightarrow> step s t \<Longrightarrow> inv t"
begin

lemma reachable_inv: "reachable init step s \<Longrightarrow> inv s"
  by (induction rule: reachable.induct) (auto intro: inv_init inv_step)

lemma steps_inv: "step\<^sup>*\<^sup>* s t \<Longrightarrow> inv s \<Longrightarrow> inv t"
  by (induction rule: rtranclp_induct) (auto intro: inv_step)

end

end
