(* ===== verification/Money.thy ===== *)
theory Money
  imports Prelude
begin

text \<open>
  Money. Every price column is a \<open>DecimalField(max_digits=10, decimal_places=2)\<close>, so an amount
  of major units is the \<open>int\<close> number of hundredths ("cents") and sums and comparisons are exact.
  The theory holds the two rounding modes the code uses, the conversion to Stripe's minor units
  (payments/services.py), and the part of Python's \<open>decimal\<close> module the code calls on buyer
  input: construction from a string, \<open>quantize(Decimal("0.01"))\<close> and \<open>str\<close>.
\<close>

type_synonym cents = int

section \<open>Rounding\<close>

text \<open>\<open>ROUND_HALF_UP\<close>: to nearest, ties away from zero, of the quotient \<open>n / d\<close>.\<close>

definition round_half_up :: "int \<Rightarrow> int \<Rightarrow> int" where
  "round_half_up n d = (if 0 \<le> n then (2 * n + d) div (2 * d) else - ((2 * (- n) + d) div (2 * d)))"

text \<open>\<open>ROUND_HALF_EVEN\<close>, the decimal context's default: ties to the even neighbour.\<close>

definition round_half_even :: "int \<Rightarrow> int \<Rightarrow> int" where
  "round_half_even n d =
     (let q = n div d; r = n mod d
      in if 2 * r < d then q else if d < 2 * r then q + 1 else if even q then q else q + 1)"

lemma round_half_up_exact: "0 < d \<Longrightarrow> round_half_up (k * d) d = k"
proof -
  assume d: "0 < d"
  have "(2 * (j * d) + d) div (2 * d) = j" for j
  proof -
    have "(2 * (j * d) + d) div (2 * d) = (d + j * (2 * d)) div (2 * d)"
      by (simp add: algebra_simps)
    also have "\<dots> = j + d div (2 * d)" using d by (simp add: div_mult_self1)
    finally show ?thesis using d by simp
  qed
  from this [of k] this [of "- k"] show ?thesis
    by (simp add: round_half_up_def)
qed

lemma round_half_up_bounds:
  assumes "0 < d" and "0 \<le> n"
  shows "2 * n - d < 2 * d * round_half_up n d" "2 * d * round_half_up n d \<le> 2 * n + d"
proof -
  let ?q = "(2 * n + d) div (2 * d)"
  have "2 * n + d = 2 * d * ?q + (2 * n + d) mod (2 * d)"
    by (simp only: mult_div_mod_eq)
  moreover have "0 \<le> (2 * n + d) mod (2 * d)" "(2 * n + d) mod (2 * d) < 2 * d"
    using assms by simp_all
  ultimately have "2 * n - d < 2 * d * ?q \<and> 2 * d * ?q \<le> 2 * n + d" by linarith
  then show "2 * n - d < 2 * d * round_half_up n d"
    and "2 * d * round_half_up n d \<le> 2 * n + d"
    using assms by (simp_all add: round_half_up_def)
qed

lemma round_half_up_nonneg: "0 < d \<Longrightarrow> 0 \<le> n \<Longrightarrow> 0 \<le> round_half_up n d"
  by (simp add: round_half_up_def pos_imp_zdiv_nonneg_iff)

lemma round_half_up_mono:
  "0 < d \<Longrightarrow> 0 \<le> m \<Longrightarrow> m \<le> n \<Longrightarrow> round_half_up m d \<le> round_half_up n d"
  by (auto simp: round_half_up_def intro!: zdiv_mono1)

lemma round_half_up_le_bound: "0 < d \<Longrightarrow> 0 \<le> n \<Longrightarrow> n \<le> k * d \<Longrightarrow> round_half_up n d \<le> k"
  using round_half_up_mono [of d n "k * d"] round_half_up_exact [of d k] by simp

lemma round_half_even_exact: "0 < d \<Longrightarrow> round_half_even (k * d) d = k"
  by (simp add: round_half_even_def)

lemma round_half_even_bounds:
  assumes "0 < d"
  shows "2 * n - d \<le> 2 * d * round_half_even n d" "2 * d * round_half_even n d \<le> 2 * n + d"
proof -
  have n: "2 * n = 2 * (d * (n div d)) + 2 * (n mod d)"
    by (metis distrib_left mult_div_mod_eq)
  have r: "0 \<le> n mod d" "n mod d < d" using assms by simp_all
  have r3: "2 * (n mod d) \<le> d * 3" using r assms by linarith
  show "2 * n - d \<le> 2 * d * round_half_even n d"
    and "2 * d * round_half_even n d \<le> 2 * n + d"
    using n r r3 assms unfolding round_half_even_def Let_def by (auto simp: algebra_simps)
qed

lemma round_half_even_one [simp]: "round_half_even n 1 = n"
  by (simp add: round_half_even_def)

section \<open>Stripe minor units\<close>

text \<open>
  \<open>_ZERO_DECIMAL_CURRENCIES\<close> and \<open>_THREE_DECIMAL_CURRENCIES\<close>, and \<open>_to_minor_units\<close>:
  \<open>int(amount.to_integral_value())\<close> rounds half to even (the default context), then three-decimal
  amounts lose their last digit with Python's floor division.
\<close>

definition zero_decimal_currencies :: "string list" where
  "zero_decimal_currencies =
     [''BIF'', ''CLP'', ''DJF'', ''GNF'', ''JPY'', ''KMF'', ''KRW'', ''MGA'', ''PYG'', ''RWF'',
      ''UGX'', ''VND'', ''VUV'', ''XAF'', ''XOF'', ''XPF'']"

definition three_decimal_currencies :: "string list" where
  "three_decimal_currencies = [''BHD'', ''JOD'', ''KWD'', ''OMR'', ''TND'']"

definition to_minor_units :: "cents \<Rightarrow> string \<Rightarrow> int" where
  "to_minor_units amount currency =
     (let code = upper currency
      in if code \<in> set zero_decimal_currencies then round_half_even amount 100
         else if code \<in> set three_decimal_currencies
           then (round_half_even (amount * 10) 1 div 10) * 10
         else round_half_even amount 1)"

text \<open>A two-decimal currency is one Stripe lists in neither table.\<close>

definition two_decimal :: "string \<Rightarrow> bool" where
  "two_decimal currency \<longleftrightarrow>
     upper currency \<notin> set zero_decimal_currencies \<and> upper currency \<notin> set three_decimal_currencies"

definition zero_decimal :: "string \<Rightarrow> bool" where
  "zero_decimal currency \<longleftrightarrow> upper currency \<in> set zero_decimal_currencies"

lemma currency_tables_disjoint: "set zero_decimal_currencies \<inter> set three_decimal_currencies = {}"
  by (simp add: zero_decimal_currencies_def three_decimal_currencies_def)

lemma to_minor_units_two [simp]: "two_decimal c \<Longrightarrow> to_minor_units a c = a"
  by (simp add: to_minor_units_def two_decimal_def)

lemma to_minor_units_three:
  "\<not> two_decimal c \<Longrightarrow> \<not> zero_decimal c \<Longrightarrow> to_minor_units a c = a * 10"
  by (simp add: to_minor_units_def two_decimal_def zero_decimal_def)

lemma to_minor_units_zero: "zero_decimal c \<Longrightarrow> to_minor_units a c = round_half_even a 100"
  by (simp add: to_minor_units_def zero_decimal_def)

lemma to_minor_units_upper [simp]: "to_minor_units a (upper c) = to_minor_units a c"
  by (simp add: to_minor_units_def)

section \<open>Decimal input\<close>

text \<open>
  \<open>Fin c e\<close> is the number \<open>c * 10 ^ e\<close>. The special values matter: a NaN passes
  \<open>quantize\<close> and only the comparison that follows raises.
\<close>

datatype decimal = Fin int int | Infinity bool | NaN | SNaN

definition is_digit :: "char \<Rightarrow> bool" where
  "is_digit c = (48 \<le> code_pt c \<and> code_pt c \<le> 57)"

definition digits_val :: "string \<Rightarrow> int" where
  "digits_val ds = foldl (\<lambda>a c. 10 * a + (int (code_pt c) - 48)) 0 ds"

definition take_sign :: "string \<Rightarrow> bool \<times> string" where
  "take_sign s =
     (case s of
        c # r \<Rightarrow> (if c = CHR ''-'' then (True, r) else if c = CHR ''+'' then (False, r) else (False, s))
      | [] \<Rightarrow> (False, s))"

definition parse_exponent :: "string \<Rightarrow> int option" where
  "parse_exponent s =
     (case s of
        [] \<Rightarrow> Some 0
      | c # r \<Rightarrow>
          (let (neg, ds) = take_sign r
           in if c = CHR ''e'' \<and> ds \<noteq> [] \<and> list_all is_digit ds
              then Some (if neg then - digits_val ds else digits_val ds) else None))"

definition parse_number :: "bool \<Rightarrow> string \<Rightarrow> decimal option" where
  "parse_number neg s =
     (let ip = takeWhile is_digit s;
          r1 = dropWhile is_digit s;
          fp = (case r1 of c # r \<Rightarrow> (if c = CHR ''.'' then takeWhile is_digit r else []) | [] \<Rightarrow> []);
          r2 = (case r1 of c # r \<Rightarrow> (if c = CHR ''.'' then dropWhile is_digit r else r1) | [] \<Rightarrow> r1);
          v = digits_val (ip @ fp)
      in if ip = [] \<and> fp = [] then None
         else map_option (\<lambda>e. Fin (if neg then - v else v) (e - int (length fp)))
                (parse_exponent r2))"

text \<open>\<open>Decimal(s)\<close>; \<open>None\<close> is the \<open>InvalidOperation\<close> an unparseable string raises.\<close>

definition parse_decimal :: "string \<Rightarrow> decimal option" where
  "parse_decimal s =
     (let (neg, t) = take_sign (filter (\<lambda>c. c \<noteq> CHR ''_'') (strip s)); l = lower t
      in if l = ''inf'' \<or> l = ''infinity'' then Some (Infinity neg)
         else if take 3 l = ''nan'' \<and> list_all is_digit (drop 3 l) then Some NaN
         else if take 4 l = ''snan'' \<and> list_all is_digit (drop 4 l) then Some SNaN
         else parse_number neg l)"

text \<open>\<open>int(text)\<close> on ASCII text: surrounding space, one sign, digits with single underscores between.\<close>

fun int_digits :: "string \<Rightarrow> bool" where
  "int_digits [] = False"
| "int_digits [c] = is_digit c"
| "int_digits (c # d # r) = (is_digit c \<and> (if d = CHR ''_'' then int_digits r else int_digits (d # r)))"

definition py_int :: "string \<Rightarrow> int option" where
  "py_int text =
     (let t = strip text; neg = (take 1 t = ''-'');
          body = (if take 1 t = ''-'' \<or> take 1 t = ''+'' then drop 1 t else t);
          n = digits_val (filter is_digit body)
      in if int_digits body then Some (if neg then - n else n) else None)"

text \<open>
  \<open>d.quantize(Decimal("0.01"))\<close> under the default context (28 digits, half even): the \<open>cents\<close> of
  a finite number, a quiet NaN for a quiet NaN, and \<open>None\<close> for the \<open>InvalidOperation\<close> raised on
  an infinity, a signalling NaN and a result of more than 28 digits.
\<close>

datatype quantized = Cents cents | QuietNaN

definition quantize_cents :: "decimal \<Rightarrow> quantized option" where
  "quantize_cents d =
     (case d of
        Fin c e \<Rightarrow>
          (let q = (if -2 \<le> e then c * 10 ^ nat (e + 2) else round_half_even c (10 ^ nat (- 2 - e)))
           in if \<bar>q\<bar> < 10 ^ 28 then Some (Cents q) else None)
      | Infinity _ \<Rightarrow> None
      | NaN \<Rightarrow> Some QuietNaN
      | SNaN \<Rightarrow> None)"

text \<open>\<open>str\<close> of a non-negative two-place Decimal.\<close>

fun show_nat :: "nat \<Rightarrow> string" where
  "show_nat n = (if n < 10 then [char_of (48 + n)] else show_nat (n div 10) @ [char_of (48 + n mod 10)])"

declare show_nat.simps [simp del]

definition show_cents :: "cents \<Rightarrow> string" where
  "show_cents a =
     (let n = nat a
      in show_nat (n div 100) @ [CHR ''.'', char_of (48 + n mod 100 div 10), char_of (48 + n mod 10)])"

lemma digit_char [simp]: "n < 10 \<Longrightarrow> is_digit (char_of (48 + n))"
  "n < 10 \<Longrightarrow> code_pt (char_of (48 + n)) = 48 + n"
  by (simp_all add: is_digit_def code_pt_char_of)

lemma digits_val_append: "digits_val (xs @ [c]) = 10 * digits_val xs + (int (code_pt c) - 48)"
  by (simp add: digits_val_def)

lemma show_nat_digits: "list_all is_digit (show_nat n) \<and> show_nat n \<noteq> []"
proof (induction n rule: show_nat.induct)
  case (1 n)
  then show ?case
    by (cases "n < 10") (simp_all add: show_nat.simps [of n])
qed

lemma digits_val_show_nat: "digits_val (show_nat n) = int n"
proof (induction n rule: show_nat.induct)
  case (1 n)
  show ?case
  proof (cases "n < 10")
    case True
    then show ?thesis by (simp add: show_nat.simps [of n] digits_val_def)
  next
    case False
    with 1 have "digits_val (show_nat n) = 10 * int (n div 10) + int (n mod 10)"
      by (simp add: show_nat.simps [of n] digits_val_append)
    then show ?thesis by presburger
  qed
qed

lemma show_nat_inj [simp]: "show_nat m = show_nat n \<longleftrightarrow> m = n"
  by (metis digits_val_show_nat of_nat_eq_iff)

text \<open>The amount a donation session carries as text is read back exactly.\<close>

lemma strip_no_space: "list_all (\<lambda>c. \<not> is_space c) s \<Longrightarrow> strip s = s"
proof -
  have id: "dropWhile is_space t = t" if "list_all (\<lambda>c. \<not> is_space c) t" for t
    using that by (cases t) simp_all
  assume "list_all (\<lambda>c. \<not> is_space c) s"
  then show ?thesis by (simp add: strip_def id)
qed

definition plain :: "char \<Rightarrow> bool" where
  "plain c = (is_digit c \<or> c = CHR ''.'')"

lemma plain_char: "plain c \<Longrightarrow> \<not> is_space c \<and> c \<noteq> CHR ''_'' \<and> lower_char c = c \<and> c \<noteq> CHR ''-'' \<and> c \<noteq> CHR ''+''"
  by (auto simp: plain_def is_digit_def is_space_def lower_char_def code_pt_def)

lemma parse_decimal_plain:
  assumes "list_all plain s" and "s = c # r" and "is_digit c"
  shows "parse_decimal s = parse_number False s"
proof -
  have ns: "list_all (\<lambda>c. \<not> is_space c) s" "filter (\<lambda>c. c \<noteq> CHR ''_'') s = s" "lower s = s"
    using assms(1) plain_char by (auto simp: list_all_iff lower_def intro!: filter_True map_idI)
  have "take_sign s = (False, s)"
    using assms plain_char by (auto simp: take_sign_def)
  moreover have "c \<noteq> CHR ''i''" "c \<noteq> CHR ''n''" "c \<noteq> CHR ''s''"
    using assms(3) by (auto simp: is_digit_def code_pt_def)
  ultimately show ?thesis
    using assms(2) ns strip_no_space [OF ns(1)] by (simp add: parse_decimal_def)
qed

lemma digits_val_two:
  "i < 10 \<Longrightarrow> j < 10 \<Longrightarrow>
     digits_val (xs @ [char_of (48 + i), char_of (48 + j)]) = 10 * (10 * digits_val xs + int i) + int j"
  by (simp add: digits_val_def)

lemma takeWhile_digits:
  "list_all is_digit ip \<Longrightarrow> takeWhile is_digit (ip @ CHR ''.'' # fp) = ip"
  "list_all is_digit ip \<Longrightarrow> dropWhile is_digit (ip @ CHR ''.'' # fp) = CHR ''.'' # fp"
  by (induction ip) (simp_all add: is_digit_def code_pt_def)

lemma parse_number_point:
  assumes "list_all is_digit ip" "ip \<noteq> []" "list_all is_digit fp"
  shows "parse_number False (ip @ CHR ''.'' # fp) = Some (Fin (digits_val (ip @ fp)) (- int (length fp)))"
proof -
  have tw: "takeWhile is_digit fp = fp" "dropWhile is_digit fp = []"
    using assms(3) by (simp_all add: list_all_iff)
  show ?thesis
    using assms(1,2) by (simp add: parse_number_def takeWhile_digits parse_exponent_def Let_def tw)
qed

lemma parse_show_cents:
  assumes "0 \<le> a"
  shows "parse_decimal (show_cents a) = Some (Fin a (-2))"
proof -
  define n where "n = nat a"
  let ?ip = "show_nat (n div 100)"
  let ?fp = "[char_of (48 + n mod 100 div 10), char_of (48 + n mod 10)]"
  have d: "list_all is_digit ?ip" "?ip \<noteq> []" using show_nat_digits by auto
  have b: "n mod 100 div 10 < 10" "n mod 10 < 10" by auto
  have "n mod 100 mod 10 = n mod 10" by (rule mod_mod_cancel) simp
  then have split: "int n = 100 * int (n div 100) + 10 * int (n mod 100 div 10) + int (n mod 10)"
    using div_mult_mod_eq [of n 100] div_mult_mod_eq [of "n mod 100" 10] by linarith
  have f: "list_all is_digit ?fp" using b by simp
  have s: "show_cents a = ?ip @ CHR ''.'' # ?fp"
    by (simp add: show_cents_def n_def Let_def)
  have pl: "list_all plain (show_cents a)"
    using d(1) f by (simp add: s plain_def list_all_iff)
  have "parse_decimal (show_cents a) = parse_number False (show_cents a)"
    using d by (intro parse_decimal_plain [OF pl, of "hd ?ip" "tl ?ip @ CHR ''.'' # ?fp"])
      (simp_all add: s list_all_iff)
  also have "\<dots> = Some (Fin (digits_val (?ip @ ?fp)) (-2))"
    using parse_number_point [OF d f] by (simp add: s)
  also have "digits_val (?ip @ ?fp) = 10 * (10 * int (n div 100) + int (n mod 100 div 10)) + int (n mod 10)"
    by (simp only: digits_val_two [OF b] digits_val_show_nat)
  also have "\<dots> = int n" using split by simp
  also have "int n = a" using assms by (simp add: n_def)
  finally show ?thesis .
qed

lemma quantize_cents_exact: "\<bar>a\<bar> < 10 ^ 28 \<Longrightarrow> quantize_cents (Fin a (-2)) = Some (Cents a)"
  by (simp add: quantize_cents_def)

end
