(* ===== verification/Schema.thy ===== *)
theory Schema
  imports Complex_Main Money
begin

text \<open>
  The data model: one record per Django model, in the order of the apps (tenants, venues, events,
  orders, promotions, donations, guests, passes), and the database as the record of their tables.
  A foreign key holds the primary key of the row it points at, \<open>None\<close> where the column is
  nullable; a timestamp is a number of microseconds; an amount is in cents (theory Money). Columns
  that only the templates read (logo, colours, descriptions, notes) are left out.

  The \<open>create_*\<close> functions are \<open>objects.create\<close>: they stamp the next primary key, fill
  \<open>auto_now_add\<close> columns and raise \<open>IntegrityError\<close> for each constraint of the model's Meta.
\<close>

type_synonym time = int

definition seconds :: "int \<Rightarrow> time" where "seconds n = n * 1000000"
definition minutes :: "int \<Rightarrow> time" where "minutes n = seconds (60 * n)"
definition hours :: "int \<Rightarrow> time" where "hours n = minutes (60 * n)"

section \<open>Exceptions\<close>

datatype hold_error =
    SoldOut
  | OnlyAvailable int
  | SeatsNotInPerformance
  | SeatsJustTaken "nat list"
  | SeatsWithoutPrice
  | SelectionExpired
  | DonationInvalid
  | DonationNotPositive
  | DonationOverCap

datatype promo_error =
    PromoSelectionExpired
  | PromoUnknown
  | PromoInactive
  | PromoNotYetActive
  | PromoExpired
  | PromoLimitReached
  | PromoUnderMinimum cents string
  | PromoWrongCurrency
  | PromoSwallowsOrder

datatype redemption_reason =
    RemovePromoFirst
  | RemoveDonationFirst
  | PassOtherTenant
  | PassNotActive
  | PassDoesNotCover
  | NothingToRedeem
  | NotEnoughCredits
  | SeasonOneSeatPerShow
  | AlreadyUsedForShow

datatype fulfillment_error =
    HoldGoneError
  | AvailabilityChangedError
  | DonationDataError
  | PassDataError
  | PassRedemptionError redemption_reason
  | TenantMismatchError

datatype checkout_error = CheckoutHoldExpired | NothingToCheckOut

datatype refund_error = PassHasBeenUsed | NoPaymentIntent | StripeRejected

datatype db_constraint =
    HoldGAFieldsTogether
  | UniqueSeatPerHold
  | UniqueToken
  | UniqueStripeSession
  | UniqueLiveTicket
  | GASoldLteCapacity
  | PassProductShape
  | UniqueSeasonRedemption
  | UniqueGuestEmail
  | UniquePromoCode
  | PromoValueNonnegative
  | UniqueZoneTemplateName
  | UniqueSeatPerZone
  | UniqueSeatBlock
  | UniqueEventSlug
  | OneAllocation
  | UniqueChartNamePerVenue
  | UniqueSectionNamePerChart
  | UniqueHelpSlug

datatype py_error =
    DoesNotExist | MultipleObjectsReturned | ProtectedError | ValueError | KeyError | AttributeError | InvalidOperation | IntegrityError db_constraint

datatype error =
    HoldErr hold_error
  | PromoErr promo_error
  | FulfillErr fulfillment_error
  | CheckoutErr checkout_error
  | RefundErr refund_error
  | PricingErr
  | ZoneErr
  | PyErr py_error

section \<open>Tenants, venues\<close>

record organization =
  org_pk :: nat
  org_name :: string
  org_subdomain :: string
  org_timezone :: string
  org_currency :: string
  org_stripe_account_id :: string
  org_stripe_charges_enabled :: bool
  org_stripe_details_submitted :: bool
  org_platform_fee_percent :: "int option"
  org_contact_email :: string
  org_is_active :: bool

record venue =
  venue_pk :: nat
  venue_organization :: nat
  venue_name :: string
  venue_timezone :: string

record seating_chart =
  chart_pk :: nat
  chart_organization :: nat
  chart_venue :: nat
  chart_name :: string

record section_row =
  section_pk :: nat
  section_organization :: nat
  section_chart :: nat
  section_name :: string
  section_ordering :: int

record seat =
  seat_pk :: nat
  seat_organization :: nat
  seat_section :: nat
  seat_row_label :: string
  seat_number :: string
  seat_x :: real
  seat_y :: real
  seat_is_accessible :: bool

section \<open>Events\<close>

datatype event_status = EVENT_DRAFT | EVENT_PUBLISHED

record event =
  event_pk :: nat
  event_organization :: nat
  event_title :: string
  event_slug :: string
  event_status :: event_status

datatype seating_mode = GA | RESERVED

datatype performance_status = PERF_DRAFT | PERF_PUBLISHED | PERF_CANCELLED

record performance =
  perf_pk :: nat
  perf_organization :: nat
  perf_event :: nat
  perf_venue :: nat
  perf_starts_at :: time
  perf_seating_mode :: seating_mode
  perf_status :: performance_status
  perf_seating_chart :: "nat option"

record price_tier =
  tier_pk :: nat
  tier_organization :: nat
  tier_name :: string
  tier_amount :: cents
  tier_currency :: string
  tier_performance :: "nat option"
  tier_section :: "nat option"

record ga_allocation =
  alloc_pk :: nat
  alloc_organization :: nat
  alloc_performance :: nat
  alloc_capacity :: int
  alloc_sold :: int

record zone_template =
  ztpl_pk :: nat
  ztpl_organization :: nat
  ztpl_name :: string
  ztpl_color :: string

record pricing_zone =
  zone_pk :: nat
  zone_organization :: nat
  zone_performance :: nat
  zone_template :: "nat option"
  zone_name :: string
  zone_color :: string
  zone_amount :: cents

record pricing_zone_seat =
  pzs_pk :: nat
  pzs_organization :: nat
  pzs_zone :: nat
  pzs_seat :: nat

section \<open>Orders\<close>

record hold =
  hold_pk :: nat
  hold_organization :: nat
  hold_performance :: nat
  hold_session_key :: string
  hold_user :: "nat option"
  hold_expires_at :: time
  hold_price_tier :: "nat option"
  hold_quantity :: "int option"
  hold_ga_unit_amount :: "cents option"
  hold_promo_code :: "nat option"
  hold_promo_code_text :: string
  hold_discount_amount :: "cents option"
  hold_donation_amount :: "cents option"
  hold_donation_campaign :: "nat option"
  hold_created_at :: time

record hold_seat =
  hs_pk :: nat
  hs_organization :: nat
  hs_hold :: nat
  hs_seat :: nat
  hs_price_tier :: "nat option"
  hs_pricing_zone :: "nat option"
  hs_unit_amount :: cents

record seat_block =
  block_pk :: nat
  block_organization :: nat
  block_performance :: nat
  block_seat :: nat
  block_reason :: string

datatype order_status = PENDING | PAID | CANCELLED | REFUNDED

record order =
  order_pk :: nat
  order_organization :: nat
  order_performance :: "nat option"
  order_buyer_email :: string
  order_buyer_name :: string
  order_guest :: "nat option"
  order_promo_code_text :: string
  order_discount_amount :: cents
  order_total :: cents
  order_status :: order_status
  order_token :: string
  order_stripe_checkout_session_id :: "string option"

datatype item_kind = TICKET | DONATION | PASS

record order_item =
  item_pk :: nat
  item_organization :: nat
  item_order :: nat
  item_kind :: item_kind
  item_price_tier :: "nat option"
  item_pricing_zone :: "nat option"
  item_donation_campaign :: "nat option"
  item_pass_product :: "nat option"
  item_seat :: "nat option"
  item_quantity :: int
  item_unit_amount :: cents

datatype ticket_status = VALID | USED | VOID

record ticket =
  tkt_pk :: nat
  tkt_organization :: nat
  tkt_order :: nat
  tkt_performance :: nat
  tkt_seat :: "nat option"
  tkt_holder_name :: string
  tkt_token :: string
  tkt_status :: ticket_status
  tkt_used_at :: "time option"
  tkt_scanned_by :: "nat option"

record payment =
  pay_pk :: nat
  pay_organization :: nat
  pay_order :: nat
  pay_provider :: string
  pay_amount :: cents
  pay_status :: string
  pay_provider_ref :: string

section \<open>Promotions, donations, guests\<close>

datatype promo_kind = PERCENT | FIXED

record promo_code =
  promo_pk :: nat
  promo_organization :: nat
  promo_code_text :: string
  promo_kind :: promo_kind
  promo_value :: int
  promo_currency :: string
  promo_starts_at :: "time option"
  promo_ends_at :: "time option"
  promo_max_redemptions :: "int option"
  promo_redemption_count :: int
  promo_min_order_amount :: "cents option"
  promo_is_active :: bool

record donation_campaign =
  camp_pk :: nat
  camp_organization :: nat
  camp_name :: string
  camp_acknowledgment :: string
  camp_suggested_amounts :: string
  camp_is_active :: bool
  camp_created_at :: time

record guest_account =
  guest_pk :: nat
  guest_organization :: nat
  guest_email :: string
  guest_name :: string
  guest_marketing_opt_in :: bool
  guest_marketing_opt_in_at :: "time option"
  guest_tags :: string

section \<open>Passes\<close>

datatype pass_kind = SEASON | FLEX

record pass_product =
  prod_pk :: nat
  prod_organization :: nat
  prod_name :: string
  prod_kind :: pass_kind
  prod_price :: cents
  prod_credit_count :: "int option"
  prod_valid_from :: "time option"
  prod_valid_until :: "time option"
  prod_events :: "nat list"
  prod_is_active :: bool

datatype pass_status = PASS_ACTIVE | PASS_EXHAUSTED | PASS_REFUNDED

record pass_purchase =
  pp_pk :: nat
  pp_organization :: nat
  pp_product :: nat
  pp_guest :: "nat option"
  pp_order :: nat
  pp_kind :: pass_kind
  pp_credit_count :: "int option"
  pp_credits_remaining :: "int option"
  pp_valid_from :: "time option"
  pp_valid_until :: "time option"
  pp_covered_events :: "nat list"
  pp_status :: pass_status

record pass_redemption =
  red_pk :: nat
  red_organization :: nat
  red_pass_purchase :: nat
  red_order :: nat
  red_ticket :: nat
  red_performance :: nat
  red_event :: nat
  red_seat :: "nat option"
  red_face_value :: cents
  red_credits_used :: int

section \<open>The database\<close>

text \<open>
  \<open>db_next\<close> is the next primary key: keys are drawn from one sequence, so a key names at most one
  row of one table. \<open>db_entropy\<close> is the outcome of \<open>secrets.choice\<close>: the token \<open>new_token()\<close>
  returns for the row that will get that key.
\<close>

record db =
  db_next :: nat
  db_entropy :: "nat \<Rightarrow> string"
  db_orgs :: "organization list"
  db_venues :: "venue list"
  db_charts :: "seating_chart list"
  db_sections :: "section_row list"
  db_seats :: "seat list"
  db_events :: "event list"
  db_performances :: "performance list"
  db_tiers :: "price_tier list"
  db_allocations :: "ga_allocation list"
  db_templates :: "zone_template list"
  db_zones :: "pricing_zone list"
  db_zone_seats :: "pricing_zone_seat list"
  db_holds :: "hold list"
  db_hold_seats :: "hold_seat list"
  db_blocks :: "seat_block list"
  db_orders :: "order list"
  db_items :: "order_item list"
  db_tickets :: "ticket list"
  db_payments :: "payment list"
  db_promos :: "promo_code list"
  db_campaigns :: "donation_campaign list"
  db_guests :: "guest_account list"
  db_products :: "pass_product list"
  db_purchases :: "pass_purchase list"
  db_redemptions :: "pass_redemption list"

interpretation hold_rows: model_table hold_pk "\<lambda>k r. r\<lparr>hold_pk := k\<rparr>"
  by unfold_locales simp
interpretation hold_seat_rows: model_table hs_pk "\<lambda>k r. r\<lparr>hs_pk := k\<rparr>"
  by unfold_locales simp
interpretation order_rows: model_table order_pk "\<lambda>k r. r\<lparr>order_pk := k\<rparr>"
  by unfold_locales simp
interpretation item_rows: model_table item_pk "\<lambda>k r. r\<lparr>item_pk := k\<rparr>"
  by unfold_locales simp
interpretation ticket_rows: model_table tkt_pk "\<lambda>k r. r\<lparr>tkt_pk := k\<rparr>"
  by unfold_locales simp
interpretation guest_rows: model_table guest_pk "\<lambda>k r. r\<lparr>guest_pk := k\<rparr>"
  by unfold_locales simp
interpretation purchase_rows: model_table pp_pk "\<lambda>k r. r\<lparr>pp_pk := k\<rparr>"
  by unfold_locales simp
interpretation redemption_rows: model_table red_pk "\<lambda>k r. r\<lparr>red_pk := k\<rparr>"
  by unfold_locales simp
interpretation zone_rows: model_table zone_pk "\<lambda>k r. r\<lparr>zone_pk := k\<rparr>"
  by unfold_locales simp
interpretation zone_seat_rows: model_table pzs_pk "\<lambda>k r. r\<lparr>pzs_pk := k\<rparr>"
  by unfold_locales simp

section \<open>Creating rows\<close>

definition ga_fields_together :: "hold \<Rightarrow> bool" where
  "ga_fields_together h \<longleftrightarrow> (hold_quantity h = None) = (hold_price_tier h = None)"

definition create_hold :: "hold \<Rightarrow> db \<Rightarrow> error + (hold \<times> db)" where
  "create_hold h s =
     (if \<not> ga_fields_together h then Inl (PyErr (IntegrityError HoldGAFieldsTogether))
      else let h' = h\<lparr>hold_pk := db_next s\<rparr>
           in Inr (h', s\<lparr>db_holds := db_holds s @ [h'], db_next := Suc (db_next s)\<rparr>))"

definition create_hold_seat :: "hold_seat \<Rightarrow> db \<Rightarrow> error + db" where
  "create_hold_seat r s =
     (if \<exists>x\<in>set (db_hold_seats s). hs_hold x = hs_hold r \<and> hs_seat x = hs_seat r
      then Inl (PyErr (IntegrityError UniqueSeatPerHold))
      else Inr (s\<lparr>db_hold_seats := db_hold_seats s @ [r\<lparr>hs_pk := db_next s\<rparr>],
                  db_next := Suc (db_next s)\<rparr>))"

fun create_hold_seats :: "hold_seat list \<Rightarrow> db \<Rightarrow> error + db" where
  "create_hold_seats [] s = Inr s"
| "create_hold_seats (r # rs) s = bindE (create_hold_seat r s) (create_hold_seats rs)"

text \<open>
  \<open>Order.token\<close> is unique over all orders; a Stripe session id that is neither null nor empty is
  unique per organization.
\<close>

definition create_order :: "order \<Rightarrow> db \<Rightarrow> error + (order \<times> db)" where
  "create_order r s =
     (let r' = r\<lparr>order_pk := db_next s, order_token := db_entropy s (db_next s)\<rparr>
      in if \<exists>x\<in>set (db_orders s). order_token x = order_token r'
           then Inl (PyErr (IntegrityError UniqueToken))
         else if order_stripe_checkout_session_id r \<noteq> None \<and>
                 order_stripe_checkout_session_id r \<noteq> Some '''' \<and>
                 (\<exists>x\<in>set (db_orders s). order_organization x = order_organization r \<and>
                    order_stripe_checkout_session_id x = order_stripe_checkout_session_id r)
           then Inl (PyErr (IntegrityError UniqueStripeSession))
         else Inr (r', s\<lparr>db_orders := db_orders s @ [r'], db_next := Suc (db_next s)\<rparr>))"

definition create_item :: "order_item \<Rightarrow> db \<Rightarrow> db" where
  "create_item r s =
     s\<lparr>db_items := db_items s @ [r\<lparr>item_pk := db_next s\<rparr>], db_next := Suc (db_next s)\<rparr>"

text \<open>A ticket is live while it is not void; a seat backs at most one live ticket per performance.\<close>

definition live :: "ticket \<Rightarrow> bool" where
  "live t \<longleftrightarrow> tkt_status t \<noteq> VOID"

definition same_live_seat :: "ticket \<Rightarrow> ticket \<Rightarrow> bool" where
  "same_live_seat t u \<longleftrightarrow>
     live t \<and> live u \<and> tkt_seat t \<noteq> None \<and> tkt_seat t = tkt_seat u \<and>
     tkt_performance t = tkt_performance u"

definition create_ticket :: "ticket \<Rightarrow> db \<Rightarrow> error + db" where
  "create_ticket r s =
     (let r' = r\<lparr>tkt_pk := db_next s, tkt_token := db_entropy s (db_next s)\<rparr>
      in if \<exists>x\<in>set (db_tickets s). tkt_token x = tkt_token r'
           then Inl (PyErr (IntegrityError UniqueToken))
         else if \<exists>x\<in>set (db_tickets s). same_live_seat r' x
           then Inl (PyErr (IntegrityError UniqueLiveTicket))
         else Inr (s\<lparr>db_tickets := db_tickets s @ [r'], db_next := Suc (db_next s)\<rparr>))"

fun create_tickets :: "ticket list \<Rightarrow> db \<Rightarrow> error + db" where
  "create_tickets [] s = Inr s"
| "create_tickets (r # rs) s = bindE (create_ticket r s) (create_tickets rs)"

definition create_payment :: "payment \<Rightarrow> db \<Rightarrow> db" where
  "create_payment r s =
     s\<lparr>db_payments := db_payments s @ [r\<lparr>pay_pk := db_next s\<rparr>], db_next := Suc (db_next s)\<rparr>"

text \<open>\<open>allocation.save(update_fields=["sold"])\<close> under the \<open>ga_sold_lte_capacity\<close> check.\<close>

definition save_sold :: "ga_allocation \<Rightarrow> int \<Rightarrow> db \<Rightarrow> error + db" where
  "save_sold a n s =
     (if alloc_capacity a < n then Inl (PyErr (IntegrityError GASoldLteCapacity))
      else Inr (s\<lparr>db_allocations :=
                    update_rows (\<lambda>x. alloc_pk x = alloc_pk a) (\<lambda>x. x\<lparr>alloc_sold := n\<rparr>) (db_allocations s)\<rparr>))"

text \<open>\<open>hold.delete()\<close> and queryset deletes: the hold's seat rows go with it (\<open>CASCADE\<close>).\<close>

definition delete_holds :: "(hold \<Rightarrow> bool) \<Rightarrow> db \<Rightarrow> db" where
  "delete_holds P s =
     (let gone = map hold_pk (filter P (db_holds s))
      in s\<lparr>db_holds := delete_rows P (db_holds s),
           db_hold_seats := delete_rows (\<lambda>r. hs_hold r \<in> set gone) (db_hold_seats s)\<rparr>)"

section \<open>Following foreign keys\<close>

definition seats_of_hold :: "hold \<Rightarrow> db \<Rightarrow> hold_seat list" where
  "seats_of_hold h s = filter (\<lambda>r. hs_hold r = hold_pk h) (db_hold_seats s)"

definition hold_of_seat :: "hold_seat \<Rightarrow> db \<Rightarrow> hold option" where
  "hold_of_seat r s = get_row hold_pk (hs_hold r) (db_holds s)"

definition tickets_of :: "order \<Rightarrow> db \<Rightarrow> ticket list" where
  "tickets_of o' s = filter (\<lambda>t. tkt_order t = order_pk o') (db_tickets s)"

definition items_of :: "order \<Rightarrow> db \<Rightarrow> order_item list" where
  "items_of o' s = filter (\<lambda>i. item_order i = order_pk o') (db_items s)"

definition gross_total :: "order \<Rightarrow> cents" where
  "gross_total o' = order_total o' + order_discount_amount o'"

section \<open>What the table operations write\<close>

lemma create_hold_effect:
  "create_hold h s = Inr (h', s') \<longleftrightarrow>
     ga_fields_together h \<and> h' = h\<lparr>hold_pk := db_next s\<rparr> \<and>
     s' = s\<lparr>db_holds := db_holds s @ [h'], db_next := Suc (db_next s)\<rparr>"
  by (auto simp: create_hold_def Let_def)

lemma create_order_effect:
  assumes "create_order r s = Inr (r', s')"
  shows "r' = r\<lparr>order_pk := db_next s, order_token := db_entropy s (db_next s)\<rparr>"
    and "s' = s\<lparr>db_orders := db_orders s @ [r'], db_next := Suc (db_next s)\<rparr>"
  using assms by (auto simp: create_order_def Let_def split: if_splits)

lemma create_ticket_effect:
  assumes "create_ticket r s = Inr s'"
  shows "s' = s\<lparr>db_tickets := db_tickets s @
      [r\<lparr>tkt_pk := db_next s, tkt_token := db_entropy s (db_next s)\<rparr>], db_next := Suc (db_next s)\<rparr>"
  using assms by (auto simp: create_ticket_def Let_def split: if_splits)

text \<open>The rows a bulk insert stamps: consecutive keys, each row with the token drawn for its key.\<close>

fun stamp_tickets :: "nat \<Rightarrow> (nat \<Rightarrow> string) \<Rightarrow> ticket list \<Rightarrow> ticket list" where
  "stamp_tickets k ent [] = []"
| "stamp_tickets k ent (r # rs) = r\<lparr>tkt_pk := k, tkt_token := ent k\<rparr> # stamp_tickets (Suc k) ent rs"

fun stamp_hold_seats :: "nat \<Rightarrow> hold_seat list \<Rightarrow> hold_seat list" where
  "stamp_hold_seats k [] = []"
| "stamp_hold_seats k (r # rs) = r\<lparr>hs_pk := k\<rparr> # stamp_hold_seats (Suc k) rs"

lemma create_tickets_effect:
  "create_tickets rs s = Inr s' \<Longrightarrow>
     s' = s\<lparr>db_tickets := db_tickets s @ stamp_tickets (db_next s) (db_entropy s) rs,
            db_next := db_next s + length rs\<rparr>"
proof (induction rs arbitrary: s)
  case (Cons r rs)
  then obtain s1 where s1: "create_ticket r s = Inr s1" and s': "create_tickets rs s1 = Inr s'"
    by auto
  from Cons.IH [OF s'] create_ticket_effect [OF s1] show ?case by simp
qed simp

lemma create_hold_seats_effect:
  "create_hold_seats rs s = Inr s' \<Longrightarrow>
     s' = s\<lparr>db_hold_seats := db_hold_seats s @ stamp_hold_seats (db_next s) rs,
            db_next := db_next s + length rs\<rparr>"
proof (induction rs arbitrary: s)
  case (Cons r rs)
  then obtain s1 where s1: "create_hold_seat r s = Inr s1" and s': "create_hold_seats rs s1 = Inr s'"
    by auto
  from s1 have "s1 = s\<lparr>db_hold_seats := db_hold_seats s @ [r\<lparr>hs_pk := db_next s\<rparr>],
      db_next := Suc (db_next s)\<rparr>"
    by (auto simp: create_hold_seat_def split: if_splits)
  with Cons.IH [OF s'] show ?case by simp
qed simp

lemma length_stamp_tickets [simp]: "length (stamp_tickets k ent rs) = length rs"
  by (induction rs arbitrary: k) auto

lemma stamp_tickets_fields:
  "t \<in> set (stamp_tickets k ent rs) \<Longrightarrow>
     \<exists>r\<in>set rs. t = r\<lparr>tkt_pk := tkt_pk t, tkt_token := tkt_token t\<rparr> \<and> k \<le> tkt_pk t \<and> tkt_pk t < k + length rs"
proof (induction rs arbitrary: k)
  case (Cons r rs)
  show ?case
  proof (cases "t \<in> set (stamp_tickets (Suc k) ent rs)")
    case True
    from Cons.IH [OF True] show ?thesis by fastforce
  next
    case False
    with Cons.prems show ?thesis by auto
  qed
qed simp

lemma stamp_hold_seats_fields:
  "r' \<in> set (stamp_hold_seats k rs) \<Longrightarrow> \<exists>r\<in>set rs. r' = r\<lparr>hs_pk := hs_pk r'\<rparr> \<and> k \<le> hs_pk r'"
proof (induction rs arbitrary: k)
  case (Cons r rs)
  show ?case
  proof (cases "r' \<in> set (stamp_hold_seats (Suc k) rs)")
    case True
    from Cons.IH [OF True] show ?thesis by fastforce
  next
    case False
    with Cons.prems show ?thesis by auto
  qed
qed simp

lemma stamp_hold_seats_map:
  "(\<And>r k. f (r\<lparr>hs_pk := k\<rparr>) = f r) \<Longrightarrow> map f (stamp_hold_seats k rs) = map f rs"
  by (induction rs arbitrary: k) auto

lemma stamp_tickets_map:
  "(\<And>r k v. f (r\<lparr>tkt_pk := k, tkt_token := v\<rparr>) = f r) \<Longrightarrow> map f (stamp_tickets k ent rs) = map f rs"
  by (induction rs arbitrary: k) auto

lemma delete_holds_simps [simp]:
  "db_holds (delete_holds P s) = delete_rows P (db_holds s)"
  "db_hold_seats (delete_holds P s) =
     delete_rows (\<lambda>r. \<exists>h\<in>set (db_holds s). P h \<and> hold_pk h = hs_hold r) (db_hold_seats s)"
  "db_next (delete_holds P s) = db_next s"
  "db_entropy (delete_holds P s) = db_entropy s"
  "db_tickets (delete_holds P s) = db_tickets s"
  "db_orders (delete_holds P s) = db_orders s"
  "db_items (delete_holds P s) = db_items s"
  "db_payments (delete_holds P s) = db_payments s"
  "db_allocations (delete_holds P s) = db_allocations s"
  "db_performances (delete_holds P s) = db_performances s"
  "db_purchases (delete_holds P s) = db_purchases s"
  "db_redemptions (delete_holds P s) = db_redemptions s"
  "db_promos (delete_holds P s) = db_promos s"
  "db_guests (delete_holds P s) = db_guests s"
  "db_tiers (delete_holds P s) = db_tiers s"
  "db_orgs (delete_holds P s) = db_orgs s"
  "db_seats (delete_holds P s) = db_seats s"
  "db_sections (delete_holds P s) = db_sections s"
  "db_charts (delete_holds P s) = db_charts s"
  "db_zones (delete_holds P s) = db_zones s"
  "db_zone_seats (delete_holds P s) = db_zone_seats s"
  "db_blocks (delete_holds P s) = db_blocks s"
  "db_products (delete_holds P s) = db_products s"
  by (simp_all add: delete_holds_def Let_def delete_rows_def)
    (rule filter_cong, simp, force)

end
