(* ===== verification/Fixture.thy ===== *)
theory Fixture
  imports Schema
begin

text \<open>
  A small concrete box office on which the witnesses of the other theories evaluate the model: two
  theaters, one chart of three seats, a general-admission show, two reserved-seating performances,
  their prices, a promo code, and two pass products.
\<close>

definition roxy :: organization where
  "roxy = \<lparr>org_pk = 1, org_name = ''Roxy'', org_subdomain = ''roxy'', org_timezone = ''UTC'',
     org_currency = ''USD'', org_stripe_account_id = ''acct_1'', org_stripe_charges_enabled = True,
     org_stripe_details_submitted = True, org_platform_fee_percent = Some 250,
     org_contact_email = ''box@roxy.example'', org_is_active = True\<rparr>"

definition lyric :: organization where
  "lyric = \<lparr>org_pk = 2, org_name = ''Lyric'', org_subdomain = ''lyric'', org_timezone = ''UTC'',
     org_currency = ''JPY'', org_stripe_account_id = '''', org_stripe_charges_enabled = False,
     org_stripe_details_submitted = False, org_platform_fee_percent = None,
     org_contact_email = ''box@lyric.example'', org_is_active = True\<rparr>"

definition house_chart :: seating_chart where
  "house_chart = \<lparr>chart_pk = 10, chart_organization = 1, chart_venue = 5, chart_name = ''Main''\<rparr>"

definition stalls :: section_row where
  "stalls = \<lparr>section_pk = 11, section_organization = 1, section_chart = 10,
     section_name = ''Stalls'', section_ordering = 0\<rparr>"

definition demo_seat :: "nat \<Rightarrow> string \<Rightarrow> seat" where
  "demo_seat k n = \<lparr>seat_pk = k, seat_organization = 1, seat_section = 11, seat_row_label = ''A'',
     seat_number = n, seat_x = 0, seat_y = 0, seat_is_accessible = False\<rparr>"

definition ga_show :: performance where
  "ga_show = \<lparr>perf_pk = 31, perf_organization = 1, perf_event = 41, perf_venue = 5,
     perf_starts_at = hours 100, perf_seating_mode = GA, perf_status = PERF_PUBLISHED,
     perf_seating_chart = None\<rparr>"

definition matinee :: performance where
  "matinee = \<lparr>perf_pk = 32, perf_organization = 1, perf_event = 42, perf_venue = 5,
     perf_starts_at = hours 100, perf_seating_mode = RESERVED, perf_status = PERF_PUBLISHED,
     perf_seating_chart = None\<rparr>"

definition evening :: performance where
  "evening = \<lparr>perf_pk = 33, perf_organization = 1, perf_event = 42, perf_venue = 5,
     perf_starts_at = hours 106, perf_seating_mode = RESERVED, perf_status = PERF_PUBLISHED,
     perf_seating_chart = Some 10\<rparr>"

definition ga_tier :: price_tier where
  "ga_tier = \<lparr>tier_pk = 51, tier_organization = 1, tier_name = ''General'', tier_amount = 2500,
     tier_currency = ''USD'', tier_performance = Some 31, tier_section = None\<rparr>"

definition stalls_tier :: price_tier where
  "stalls_tier = \<lparr>tier_pk = 52, tier_organization = 1, tier_name = ''Stalls'', tier_amount = 4000,
     tier_currency = ''USD'', tier_performance = None, tier_section = Some 11\<rparr>"

definition evening_tier :: price_tier where
  "evening_tier = \<lparr>tier_pk = 53, tier_organization = 1, tier_name = ''Evening'', tier_amount = 5050,
     tier_currency = ''USD'', tier_performance = Some 33, tier_section = Some 11\<rparr>"

definition ga_room :: ga_allocation where
  "ga_room = \<lparr>alloc_pk = 61, alloc_organization = 1, alloc_performance = 31, alloc_capacity = 3,
     alloc_sold = 0\<rparr>"

definition ten_percent :: promo_code where
  "ten_percent = \<lparr>promo_pk = 7, promo_organization = 1, promo_code_text = ''SUMMER'',
     promo_kind = PERCENT, promo_value = 1000, promo_currency = '''', promo_starts_at = None,
     promo_ends_at = Some (hours 90), promo_max_redemptions = Some 2, promo_redemption_count = 1,
     promo_min_order_amount = Some 500, promo_is_active = True\<rparr>"

definition general_fund :: donation_campaign where
  "general_fund = \<lparr>camp_pk = 81, camp_organization = 1, camp_name = ''General Fund'',
     camp_acknowledgment = '''', camp_suggested_amounts = ''10,25,50,100'', camp_is_active = True,
     camp_created_at = 0\<rparr>"

definition flex_pass :: pass_product where
  "flex_pass = \<lparr>prod_pk = 71, prod_organization = 1, prod_name = ''Flex two'', prod_kind = FLEX,
     prod_price = 6000, prod_credit_count = Some 2, prod_valid_from = None, prod_valid_until = None,
     prod_events = [], prod_is_active = True\<rparr>"

definition season_pass :: pass_product where
  "season_pass = \<lparr>prod_pk = 72, prod_organization = 1, prod_name = ''Season'', prod_kind = SEASON,
     prod_price = 9000, prod_credit_count = None, prod_valid_from = None,
     prod_valid_until = Some (hours 200), prod_events = [42], prod_is_active = True\<rparr>"

definition main_hall :: venue where
  "main_hall = \<lparr>venue_pk = 5, venue_organization = 1, venue_name = ''Main hall'', venue_timezone = ''UTC''\<rparr>"

definition hamlet :: event where
  "hamlet = \<lparr>event_pk = 41, event_organization = 1, event_title = ''Hamlet'', event_slug = ''hamlet'',
     event_status = EVENT_PUBLISHED\<rparr>"

definition macbeth :: event where
  "macbeth = \<lparr>event_pk = 42, event_organization = 1, event_title = ''Macbeth'', event_slug = ''macbeth'',
     event_status = EVENT_PUBLISHED\<rparr>"

definition demo :: db where
  "demo = \<lparr>db_next = 100, db_entropy = show_nat,
     db_orgs = [roxy, lyric], db_venues = [main_hall], db_charts = [house_chart], db_sections = [stalls],
     db_seats = [demo_seat 21 ''1'', demo_seat 22 ''2'', demo_seat 23 ''3''],
     db_events = [hamlet, macbeth], db_performances = [ga_show, matinee, evening],
     db_tiers = [ga_tier, stalls_tier, evening_tier],
     db_allocations = [ga_room], db_templates = [], db_zones = [], db_zone_seats = [],
     db_holds = [], db_hold_seats = [], db_blocks = [], db_orders = [], db_items = [],
     db_tickets = [], db_payments = [], db_promos = [ten_percent], db_campaigns = [general_fund],
     db_guests = [], db_products = [flex_pass, season_pass], db_purchases = [],
     db_redemptions = []\<rparr>"

lemmas catalog_defs =
  roxy_def lyric_def house_chart_def stalls_def demo_seat_def ga_show_def matinee_def evening_def
  ga_tier_def stalls_tier_def evening_tier_def ga_room_def ten_percent_def general_fund_def
  flex_pass_def season_pass_def

lemmas fixture_defs = demo_def catalog_defs

lemmas time_defs = seconds_def minutes_def hours_def

end
