(* ===== verification/Pricing.thy ===== *)
theory Pricing
  imports Fixture
begin

text \<open>
  events/pricing.py and the chart and price lookups of orders/services.py: which chart, seats,
  tiers and zones a performance has, and the price of a seat: the pricing zone it is in, else the
  performance's own tier for its section, else the section's default. The bulk form used by the
  seat map and by hold creation is shown to agree with the one-seat form.
\<close>

section \<open>The chart of a performance (orders/services.py)\<close>

definition get_seating_chart :: "performance \<Rightarrow> db \<Rightarrow> seating_chart option" where
  "get_seating_chart performance s =
     (case perf_seating_chart performance of
        Some k \<Rightarrow> get_row chart_pk k (db_charts s)
      | None \<Rightarrow> first_row (filter (\<lambda>c. chart_venue c = perf_venue performance) (db_charts s)))"

definition section_of :: "seat \<Rightarrow> db \<Rightarrow> section_row option" where
  "section_of seat s = get_row section_pk (seat_section seat) (db_sections s)"

definition in_chart :: "seating_chart \<Rightarrow> db \<Rightarrow> seat \<Rightarrow> bool" where
  "in_chart chart s seat =
     (case section_of seat s of None \<Rightarrow> False | Some sec \<Rightarrow> section_chart sec = chart_pk chart)"

definition seat_sort_key :: "db \<Rightarrow> seat \<Rightarrow> int \<times> string \<times> string" where
  "seat_sort_key s seat =
     ((case section_of seat s of None \<Rightarrow> 0 | Some sec \<Rightarrow> section_ordering sec),
      seat_row_label seat, seat_number seat)"

definition performance_seats :: "performance \<Rightarrow> db \<Rightarrow> seat list" where
  "performance_seats performance s =
     (case get_seating_chart performance s of
        None \<Rightarrow> []
      | Some chart \<Rightarrow>
          order_by (seat_sort_key s)
            (filter (\<lambda>seat. seat_organization seat = perf_organization performance \<and> in_chart chart s seat)
               (db_seats s)))"

section \<open>Resolving a price (events/pricing.py)\<close>

text \<open>\<open>.first()\<close> on a price tier or a zone follows the model's ordering: by name.\<close>

definition resolve_seat_tier :: "performance \<Rightarrow> nat \<Rightarrow> db \<Rightarrow> error + price_tier" where
  "resolve_seat_tier performance sect s =
     (case first_row (order_by tier_name (filter (\<lambda>t.
             tier_organization t = perf_organization performance \<and>
             tier_performance t = Some (perf_pk performance) \<and> tier_section t = Some sect) (db_tiers s))) of
        Some override \<Rightarrow> Inr override
      | None \<Rightarrow>
          or_raise (first_row (order_by tier_name (filter (\<lambda>t.
             tier_organization t = perf_organization performance \<and>
             tier_performance t = None \<and> tier_section t = Some sect) (db_tiers s)))) PricingErr)"

definition resolve_ga_tier :: "performance \<Rightarrow> db \<Rightarrow> error + price_tier" where
  "resolve_ga_tier performance s =
     or_raise (first_row (order_by tier_name (filter (\<lambda>t.
        tier_organization t = perf_organization performance \<and>
        tier_performance t = Some (perf_pk performance) \<and> tier_section t = None) (db_tiers s)))) PricingErr"

record resolved_price =
  rp_amount :: cents
  rp_label :: string
  rp_color :: "string option"
  rp_zone :: "pricing_zone option"
  rp_tier :: "price_tier option"

definition zone_price :: "pricing_zone \<Rightarrow> resolved_price" where
  "zone_price z = \<lparr>rp_amount = zone_amount z, rp_label = zone_name z, rp_color = Some (zone_color z),
     rp_zone = Some z, rp_tier = None\<rparr>"

definition tier_price :: "price_tier \<Rightarrow> resolved_price" where
  "tier_price t = \<lparr>rp_amount = tier_amount t, rp_label = tier_name t, rp_color = None,
     rp_zone = None, rp_tier = Some t\<rparr>"

text \<open>\<open>zone.seats\<close>, through the \<open>PricingZoneSeat\<close> rows; the zones of a performance.\<close>

definition zone_seat_ids :: "pricing_zone \<Rightarrow> db \<Rightarrow> nat list" where
  "zone_seat_ids z s = map pzs_seat (filter (\<lambda>r. pzs_zone r = zone_pk z) (db_zone_seats s))"

definition zones_of :: "performance \<Rightarrow> db \<Rightarrow> pricing_zone list" where
  "zones_of performance s =
     order_by zone_name (filter (\<lambda>z. zone_organization z = perf_organization performance \<and>
        zone_performance z = perf_pk performance) (db_zones s))"

definition resolve_seat_price :: "performance \<Rightarrow> seat \<Rightarrow> db \<Rightarrow> error + resolved_price" where
  "resolve_seat_price performance seat s =
     (case first_row (filter (\<lambda>z. seat_pk seat \<in> set (zone_seat_ids z s)) (zones_of performance s)) of
        Some z \<Rightarrow> Inr (zone_price z)
      | None \<Rightarrow>
          bindE (resolve_seat_tier performance (seat_section seat) s) (\<lambda>t. Inr (tier_price t)))"

text \<open>Later zones overwrite earlier ones in the dictionary.\<close>

definition zones_by_seat_id :: "performance \<Rightarrow> db \<Rightarrow> nat \<rightharpoonup> pricing_zone" where
  "zones_by_seat_id performance s =
     foldl (\<lambda>m z. foldl (\<lambda>m k. m(k \<mapsto> z)) m (zone_seat_ids z s)) Map.empty (zones_of performance s)"

section \<open>Bulk prices (orders/services.py)\<close>

definition price_tiers_by_section :: "performance \<Rightarrow> db \<Rightarrow> nat \<rightharpoonup> price_tier" where
  "price_tiers_by_section performance s =
     (case get_seating_chart performance s of
        None \<Rightarrow> Map.empty
      | Some chart \<Rightarrow>
          foldl (\<lambda>m sec. case resolve_seat_tier performance (section_pk sec) s of
                    Inl _ \<Rightarrow> m | Inr t \<Rightarrow> m(section_pk sec \<mapsto> t))
            Map.empty
            (filter (\<lambda>sec. section_organization sec = perf_organization performance \<and>
                           section_chart sec = chart_pk chart) (db_sections s)))"

definition resolve_reserved_prices :: "performance \<Rightarrow> db \<Rightarrow> nat \<rightharpoonup> resolved_price" where
  "resolve_reserved_prices performance s =
     (let tiers = price_tiers_by_section performance s; zones = zones_by_seat_id performance s
      in foldl (\<lambda>m seat.
            case zones (seat_pk seat) of
              Some z \<Rightarrow> m(seat_pk seat \<mapsto> zone_price z)
            | None \<Rightarrow> (case tiers (seat_section seat) of
                Some t \<Rightarrow> m(seat_pk seat \<mapsto> tier_price t)
              | None \<Rightarrow> m))
          Map.empty (performance_seats performance s))"

section \<open>Lemmas\<close>

text \<open>A dictionary filled in a loop: the last writer of a key decides its value.\<close>

lemma foldl_const_upd: "foldl (\<lambda>m k. m(k \<mapsto> z)) m ks x = (if x \<in> set ks then Some z else m x)"
  by (induction ks arbitrary: m) auto

lemma foldl_last_writer:
  "foldl (\<lambda>m z. foldl (\<lambda>m k. m(k \<mapsto> z)) m (f z)) m zs x =
     (case first_row (filter (\<lambda>z. x \<in> set (f z)) (rev zs)) of Some z \<Rightarrow> Some z | None \<Rightarrow> m x)"
proof (induction zs rule: rev_induct)
  case (snoc z zs)
  then show ?case by (simp add: foldl_const_upd del: fun_upd_apply)
qed simp

lemma foldl_keyed_upd:
  assumes "\<And>y. y \<in> set xs \<Longrightarrow> key y = x \<Longrightarrow> g y = v"
  shows "foldl (\<lambda>m y. case g y of None \<Rightarrow> m | Some w \<Rightarrow> m(key y \<mapsto> w)) m xs x =
     (if \<exists>y\<in>set xs. key y = x then (case v of None \<Rightarrow> m x | Some w \<Rightarrow> Some w) else m x)"
  using assms by (induction xs arbitrary: m) (auto split: option.splits)

lemma option_case_id: "(case v of None \<Rightarrow> None | Some w \<Rightarrow> Some w) = v"
  by (cases v) simp_all

lemma zones_by_seat_last:
  "zones_by_seat_id performance s k =
     first_row (filter (\<lambda>z. k \<in> set (zone_seat_ids z s)) (rev (zones_of performance s)))"
  by (simp add: zones_by_seat_id_def foldl_last_writer split: option.splits)

lemma set_zones_of: "set (zones_of performance s) = {z \<in> set (db_zones s).
    zone_organization z = perf_organization performance \<and> zone_performance z = perf_pk performance}"
  by (auto simp: zones_of_def order_by_def)

lemma distinct_zones_of: "distinct (db_zones s) \<Longrightarrow> distinct (zones_of performance s)"
  by (simp add: zones_of_def order_by_def)

text \<open>A seat belongs to at most one zone of a performance (events/zones.py).\<close>

definition one_zone_per_seat :: "db \<Rightarrow> bool" where
  "one_zone_per_seat s \<longleftrightarrow>
     (\<forall>z\<in>set (db_zones s). \<forall>w\<in>set (db_zones s).
        zone_performance z = zone_performance w \<longrightarrow> z \<noteq> w \<longrightarrow>
        set (zone_seat_ids z s) \<inter> set (zone_seat_ids w s) = {})"

lemma distinct_all_equal:
  assumes "distinct l" and "\<And>x y. x \<in> set l \<Longrightarrow> y \<in> set l \<Longrightarrow> x = y"
  shows "length l \<le> 1"
proof (cases l)
  case (Cons x xs)
  then have "y = x" if "y \<in> set xs" for y using that assms(2) [of y x] by simp
  with Cons assms(1) show ?thesis by (cases xs) auto
qed simp

lemma zones_with_seat_unique:
  assumes "one_zone_per_seat s" "distinct (db_zones s)"
  shows "length (filter (\<lambda>z. k \<in> set (zone_seat_ids z s)) (zones_of performance s)) \<le> 1"
proof -
  let ?l = "filter (\<lambda>z. k \<in> set (zone_seat_ids z s)) (zones_of performance s)"
  have "distinct ?l" using distinct_zones_of [OF assms(2)] by simp
  moreover have "z = w" if "z \<in> set ?l" "w \<in> set ?l" for z w
  proof (rule ccontr)
    assume "z \<noteq> w"
    with that assms(1) have "set (zone_seat_ids z s) \<inter> set (zone_seat_ids w s) = {}"
      by (simp add: set_zones_of one_zone_per_seat_def)
    with that show False by auto
  qed
  ultimately show ?thesis by (rule distinct_all_equal)
qed

lemma short_rev: "length xs \<le> 1 \<Longrightarrow> rev xs = xs"
  by (cases xs) auto

lemma zones_by_seat_unique:
  assumes "one_zone_per_seat s" "distinct (db_zones s)"
  shows "zones_by_seat_id performance s k =
    first_row (filter (\<lambda>z. k \<in> set (zone_seat_ids z s)) (zones_of performance s))"
  using short_rev [OF zones_with_seat_unique [OF assms]]
  by (simp add: zones_by_seat_last rev_filter [symmetric])

lemma price_tiers_by_section_eq:
  assumes "get_seating_chart performance s = Some chart"
  shows "price_tiers_by_section performance s k =
    (if \<exists>sec\<in>set (db_sections s). section_organization sec = perf_organization performance \<and>
          section_chart sec = chart_pk chart \<and> section_pk sec = k
     then (case resolve_seat_tier performance k s of Inl _ \<Rightarrow> None | Inr t \<Rightarrow> Some t) else None)"
proof -
  let ?v = "case resolve_seat_tier performance k s of Inl _ \<Rightarrow> None | Inr t \<Rightarrow> Some t"
  let ?g = "\<lambda>sec. case resolve_seat_tier performance (section_pk sec) s of Inl _ \<Rightarrow> None | Inr t \<Rightarrow> Some t"
  have eq: "(\<lambda>m sec. case resolve_seat_tier performance (section_pk sec) s of
          Inl _ \<Rightarrow> m | Inr t \<Rightarrow> m(section_pk sec \<mapsto> t)) =
      (\<lambda>m sec. case ?g sec of None \<Rightarrow> m | Some w \<Rightarrow> m(section_pk sec \<mapsto> w))"
    by (auto simp: fun_eq_iff split: sum.splits)
  have "price_tiers_by_section performance s k =
      foldl (\<lambda>m sec. case ?g sec of None \<Rightarrow> m | Some w \<Rightarrow> m(section_pk sec \<mapsto> w)) Map.empty
        (filter (\<lambda>sec. section_organization sec = perf_organization performance \<and>
                       section_chart sec = chart_pk chart) (db_sections s)) k"
    unfolding price_tiers_by_section_def assms option.case eq ..
  also have "\<dots> = (if \<exists>sec\<in>set (filter (\<lambda>sec. section_organization sec = perf_organization performance \<and>
                       section_chart sec = chart_pk chart) (db_sections s)). section_pk sec = k
      then (case ?v of None \<Rightarrow> None | Some w \<Rightarrow> Some w) else None)"
    by (subst foldl_keyed_upd [where v = ?v]) simp_all
  finally show ?thesis by (auto simp: option_case_id)
qed

text \<open>The seats of a performance: its own theater's, in its chart.\<close>

lemma performance_seats_iff:
  "seat \<in> set (performance_seats performance s) \<longleftrightarrow>
     (\<exists>chart. get_seating_chart performance s = Some chart \<and> seat \<in> set (db_seats s) \<and>
        seat_organization seat = perf_organization performance \<and> in_chart chart s seat)"
  by (cases "get_seating_chart performance s") (auto simp: performance_seats_def order_by_def)

text \<open>Rows that reference each other share their organization (\<open>TenantScopedModel\<close>).\<close>

definition seats_in_tenant :: "db \<Rightarrow> bool" where
  "seats_in_tenant s \<longleftrightarrow>
     (\<forall>seat\<in>set (db_seats s). \<forall>sec\<in>set (db_sections s).
        section_pk sec = seat_section seat \<longrightarrow> section_organization sec = seat_organization seat)"

lemma seat_has_priced_section:
  assumes "seat \<in> set (performance_seats performance s)" "seats_in_tenant s"
    and "get_seating_chart performance s = Some chart"
  shows "price_tiers_by_section performance s (seat_section seat) =
    (case resolve_seat_tier performance (seat_section seat) s of Inl _ \<Rightarrow> None | Inr t \<Rightarrow> Some t)"
proof -
  from assms(1,3) obtain sec where sec: "section_of seat s = Some sec" "section_chart sec = chart_pk chart"
    and st: "seat \<in> set (db_seats s)" "seat_organization seat = perf_organization performance"
    by (auto simp: performance_seats_iff in_chart_def split: option.splits)
  with get_row_Some [OF sec(1) [unfolded section_of_def]] assms(2)
  have "\<exists>sec\<in>set (db_sections s). section_organization sec = perf_organization performance \<and>
          section_chart sec = chart_pk chart \<and> section_pk sec = seat_section seat"
    by (fastforce simp: seats_in_tenant_def)
  then show ?thesis by (simp add: price_tiers_by_section_eq [OF assms(3)])
qed

section \<open>Properties\<close>

text \<open>
  The seat map and the box office quote one price: while no seat is in two zones of a
  performance, the bulk dictionary behind the seat map and hold creation holds, for every seat of
  the performance, exactly the price \<open>resolve_seat_price\<close> gives that seat, and no price for a seat
  that resolves to none or is not part of the performance.
\<close>

theorem bulk_prices_agree:
  assumes "one_zone_per_seat s" and "distinct (db_zones s)" and "well_keyed seat_pk n (db_seats s)"
    and "seats_in_tenant s"
  shows "resolve_reserved_prices performance s k =
     (case filter (\<lambda>seat. seat_pk seat = k) (performance_seats performance s) of
        [] \<Rightarrow> None
      | seat # _ \<Rightarrow> (case resolve_seat_price performance seat s of Inl _ \<Rightarrow> None | Inr p \<Rightarrow> Some p))"
proof (cases "get_seating_chart performance s")
  case None
  then show ?thesis by (simp add: resolve_reserved_prices_def performance_seats_def)
next
  case (Some chart)
  let ?seats = "performance_seats performance s"
  let ?price = "\<lambda>seat. case resolve_seat_price performance seat s of Inl _ \<Rightarrow> None | Inr p \<Rightarrow> Some p"
  have inj: "x = y" if "x \<in> set ?seats" "y \<in> set ?seats" "seat_pk x = seat_pk y" for x y
    using that assms(3) by (auto simp: performance_seats_iff well_keyed_def strict_sorted_iff distinct_map inj_on_def)
  have step: "(case zones_by_seat_id performance s (seat_pk seat) of
            Some z \<Rightarrow> m(seat_pk seat \<mapsto> zone_price z)
          | None \<Rightarrow> (case price_tiers_by_section performance s (seat_section seat) of
              Some t \<Rightarrow> m(seat_pk seat \<mapsto> tier_price t) | None \<Rightarrow> m)) =
      (case ?price seat of None \<Rightarrow> m | Some p \<Rightarrow> m(seat_pk seat \<mapsto> p))"
    if "seat \<in> set ?seats" for seat m
    using seat_has_priced_section [OF that assms(4) Some]
    by (auto simp: resolve_seat_price_def zones_by_seat_unique [OF assms(1,2)] bindE_def
        split: option.splits sum.splits)
  have "resolve_reserved_prices performance s k =
      foldl (\<lambda>m seat. case ?price seat of None \<Rightarrow> m | Some p \<Rightarrow> m(seat_pk seat \<mapsto> p)) Map.empty ?seats k"
    unfolding resolve_reserved_prices_def Let_def
    by (rule arg_cong [where f = "\<lambda>f. f k"], rule foldl_cong) (use step in auto)
  also have "\<dots> = (case filter (\<lambda>seat. seat_pk seat = k) ?seats of [] \<Rightarrow> None | seat # _ \<Rightarrow> ?price seat)"
  proof (cases "filter (\<lambda>seat. seat_pk seat = k) ?seats")
    case Nil
    then have "\<not> (\<exists>y\<in>set ?seats. seat_pk y = k)" by (auto simp: filter_empty_conv)
    then show ?thesis
      by (subst foldl_keyed_upd [where v = None]) (auto simp: Nil)
  next
    case (Cons seat rest)
    then have seat: "seat \<in> set ?seats" "seat_pk seat = k"
      using Cons_eq_filterD [OF Cons [symmetric]] by auto
    have same: "?price y = ?price seat" if "y \<in> set ?seats" "seat_pk y = k" for y
      using inj [OF that(1) seat(1)] that(2) seat(2) by simp
    have ex: "\<exists>y\<in>set ?seats. seat_pk y = k" using seat by blast
    show ?thesis
      using foldl_keyed_upd [where key = seat_pk and g = ?price and m = Map.empty, OF same] ex
      by (simp only: if_P Cons list.case option_case_id)
  qed
  finally show ?thesis .
qed

theorem bulk_prices_agree_witness:
  "map_option rp_amount (resolve_reserved_prices evening demo 22) = Some 5050 \<and>
   map_option rp_amount (resolve_reserved_prices matinee demo 22) = Some 4000 \<and>
   resolve_reserved_prices matinee demo 99 = None"
proof -
  have h: "one_zone_per_seat demo" "distinct (db_zones demo)" "well_keyed seat_pk 100 (db_seats demo)"
    "seats_in_tenant demo"
    by (simp_all add: one_zone_per_seat_def seats_in_tenant_def well_keyed_def fixture_defs)
  have ch: "get_seating_chart evening demo = Some house_chart" "get_seating_chart matinee demo = Some house_chart"
    by (simp_all add: get_seating_chart_def get_row_def fixture_defs)
  have sec: "section_of (demo_seat i n) demo = Some stalls" for i n
    by (simp add: section_of_def get_row_def fixture_defs)
  have st: "performance_seats p demo = [demo_seat 21 ''1'', demo_seat 22 ''2'', demo_seat 23 ''3'']"
    if "get_seating_chart p demo = Some house_chart" "perf_organization p = 1" for p
  proof -
    have "db_seats demo = [demo_seat 21 ''1'', demo_seat 22 ''2'', demo_seat 23 ''3'']"
      by (simp add: demo_def)
    then show ?thesis
      using that by (simp add: performance_seats_def in_chart_def sec order_by_def seat_sort_key_def)
        (simp add: demo_seat_def house_chart_def stalls_def)
  qed
  have org: "perf_organization evening = 1" "perf_organization matinee = 1"
    by (simp_all add: fixture_defs)
  have pk: "seat_pk (demo_seat i n) = i" for i n by (simp add: demo_seat_def)
  note r = bulk_prices_agree [OF h] st [OF ch(1) org(1)] st [OF ch(2) org(2)] pk
  show ?thesis
    by (simp add: r, simp add: resolve_seat_price_def zones_of_def resolve_seat_tier_def fixture_defs
        order_by_def tier_price_def)
qed

end
