(* ===== verification/Zones.thy ===== *)
theory Zones
  imports Pricing
begin

text \<open>
  events/zones.py: painting pricing zones on a performance. The rule "a seat belongs to at most one
  zone per performance" is not a database constraint; it holds because painting pulls a seat out of
  every other zone first. Cloning zones from another performance does not.
\<close>

section \<open>The code\<close>

definition zone_on :: "nat \<Rightarrow> db \<Rightarrow> nat \<Rightarrow> bool" where
  "zone_on perf s k = (case get_row zone_pk k (db_zones s) of None \<Rightarrow> False | Some z \<Rightarrow> zone_performance z = perf)"

fun create_zone_seats :: "nat \<Rightarrow> nat \<Rightarrow> nat list \<Rightarrow> db \<Rightarrow> error + db" where
  "create_zone_seats organization zone [] s = Inr s"
| "create_zone_seats organization zone (k # ks) s =
     (if \<exists>r\<in>set (db_zone_seats s). pzs_zone r = zone \<and> pzs_seat r = k
        then Inl (PyErr (IntegrityError UniqueSeatPerZone))
      else create_zone_seats organization zone ks
        (s\<lparr>db_zone_seats := db_zone_seats s @
             [\<lparr>pzs_pk = db_next s, pzs_organization = organization, pzs_zone = zone, pzs_seat = k\<rparr>],
           db_next := Suc (db_next s)\<rparr>))"

definition create_zone :: "pricing_zone \<Rightarrow> db \<Rightarrow> pricing_zone \<times> db" where
  "create_zone z s =
     (let z' = z\<lparr>zone_pk := db_next s\<rparr>
      in (z', s\<lparr>db_zones := db_zones s @ [z'], db_next := Suc (db_next s)\<rparr>))"

text \<open>The zone of this template on this performance, created or updated (\<open>get_or_create\<close>).\<close>

definition obtain_zone ::
    "nat \<Rightarrow> performance \<Rightarrow> cents \<Rightarrow> zone_template \<Rightarrow> db \<Rightarrow> error + (pricing_zone \<times> db)" where
  "obtain_zone organization performance amount template s =
     (case filter (\<lambda>z. zone_organization z = organization \<and> zone_performance z = perf_pk performance \<and>
             zone_template z = Some (ztpl_pk template)) (db_zones s) of
        [] \<Rightarrow> Inr (create_zone \<lparr>zone_pk = 0, zone_organization = organization,
              zone_performance = perf_pk performance, zone_template = Some (ztpl_pk template),
              zone_name = ztpl_name template, zone_color = ztpl_color template, zone_amount = amount\<rparr> s)
      | [z] \<Rightarrow>
          (let snap = (\<lambda>x. x\<lparr>zone_name := ztpl_name template, zone_color := ztpl_color template,
                             zone_amount := amount\<rparr>)
           in Inr (snap z, s\<lparr>db_zones := update_rows (\<lambda>x. zone_pk x = zone_pk z) snap (db_zones s)\<rparr>))
      | _ \<Rightarrow> Inl (PyErr MultipleObjectsReturned))"

definition pull_from_other_zones :: "nat \<Rightarrow> nat \<Rightarrow> nat list \<Rightarrow> db \<Rightarrow> db" where
  "pull_from_other_zones perf zone seat_ids s =
     s\<lparr>db_zone_seats := delete_rows (\<lambda>r. zone_on perf s (pzs_zone r) \<and> pzs_seat r \<in> set seat_ids \<and>
                                         pzs_zone r \<noteq> zone) (db_zone_seats s)\<rparr>"

definition apply_zone ::
    "nat \<Rightarrow> performance \<Rightarrow> nat list \<Rightarrow> cents \<Rightarrow> zone_template \<Rightarrow> db \<Rightarrow> error + (pricing_zone \<times> db)" where
  "apply_zone organization performance seat_ids amount template s =
     (if seat_ids = [] then Inl ZoneErr
      else bindE (obtain_zone organization performance amount template s) (\<lambda>(zone, s1).
        let s2 = pull_from_other_zones (perf_pk performance) (zone_pk zone) seat_ids s1;
            already_in_zone = map pzs_seat (filter (\<lambda>r. pzs_zone r = zone_pk zone \<and>
                                 pzs_seat r \<in> set seat_ids) (db_zone_seats s2));
            to_add = filter (\<lambda>k. k \<notin> set already_in_zone) seat_ids
        in bindE (create_zone_seats organization (zone_pk zone) to_add s2) (\<lambda>s3. Inr (zone, s3))))"

definition remove_seats_from_zone :: "nat \<Rightarrow> pricing_zone \<Rightarrow> nat list \<Rightarrow> db \<Rightarrow> db" where
  "remove_seats_from_zone organization zone seat_ids s =
     s\<lparr>db_zone_seats := delete_rows (\<lambda>r. pzs_organization r = organization \<and> pzs_zone r = zone_pk zone \<and>
                                         pzs_seat r \<in> set seat_ids) (db_zone_seats s)\<rparr>"

text \<open>\<open>zone.delete()\<close>: its seat rows cascade; hold seats and order items keep their price.\<close>

definition delete_zone :: "pricing_zone \<Rightarrow> db \<Rightarrow> db" where
  "delete_zone zone s =
     s\<lparr>db_zones := delete_rows (\<lambda>z. zone_pk z = zone_pk zone) (db_zones s),
       db_zone_seats := delete_rows (\<lambda>r. pzs_zone r = zone_pk zone) (db_zone_seats s),
       db_hold_seats := update_rows (\<lambda>r. hs_pricing_zone r = Some (zone_pk zone))
                          (\<lambda>r. r\<lparr>hs_pricing_zone := None\<rparr>) (db_hold_seats s),
       db_items := update_rows (\<lambda>i. item_pricing_zone i = Some (zone_pk zone))
                          (\<lambda>i. i\<lparr>item_pricing_zone := None\<rparr>) (db_items s)\<rparr>"

text \<open>The source zones and their seats are prefetched before the first clone is created.\<close>

fun clone_zones ::
    "nat \<Rightarrow> performance \<Rightarrow> nat set \<Rightarrow> (pricing_zone \<times> nat list) list \<Rightarrow> db \<Rightarrow>
       error + (pricing_zone list \<times> db)" where
  "clone_zones organization target target_seats [] s = Inr ([], s)"
| "clone_zones organization target target_seats ((z, seats) # rest) s =
     (let (z', s1) = create_zone (z\<lparr>zone_organization := organization, zone_performance := perf_pk target\<rparr>) s
      in bindE (create_zone_seats organization (zone_pk z') (filter (\<lambda>k. k \<in> target_seats) seats) s1) (\<lambda>s2.
         bindE (clone_zones organization target target_seats rest s2) (\<lambda>(zs, s3). Inr (z' # zs, s3))))"

definition clone_zones_from_performance ::
    "nat \<Rightarrow> performance \<Rightarrow> performance \<Rightarrow> db \<Rightarrow> error + (pricing_zone list \<times> db)" where
  "clone_zones_from_performance organization target source s =
     clone_zones organization target (set (map seat_pk (performance_seats target s)))
       (map (\<lambda>z. (z, zone_seat_ids z s))
         (order_by zone_name (filter (\<lambda>z. zone_organization z = organization \<and>
            zone_performance z = perf_pk source) (db_zones s)))) s"

definition get_or_create_template :: "nat \<Rightarrow> string \<Rightarrow> string \<Rightarrow> db \<Rightarrow> zone_template \<times> db" where
  "get_or_create_template organization name color s =
     (case first_row (filter (\<lambda>t. ztpl_organization t = organization \<and> ztpl_name t = name) (db_templates s)) of
        None \<Rightarrow>
          (let t = \<lparr>ztpl_pk = db_next s, ztpl_organization = organization, ztpl_name = name, ztpl_color = color\<rparr>
           in (t, s\<lparr>db_templates := db_templates s @ [t], db_next := Suc (db_next s)\<rparr>))
      | Some t \<Rightarrow>
          (if ztpl_color t \<noteq> color
           then (t\<lparr>ztpl_color := color\<rparr>,
                 s\<lparr>db_templates := update_rows (\<lambda>x. ztpl_pk x = ztpl_pk t) (\<lambda>x. x\<lparr>ztpl_color := color\<rparr>)
                     (db_templates s)\<rparr>)
           else (t, s)))"

section \<open>Lemmas\<close>

text \<open>The well-formedness zones rely on: keys are unique and below the next, and seat rows point at
  existing keys (\<open>ForeignKey\<close>).\<close>

definition zones_wf :: "db \<Rightarrow> bool" where
  "zones_wf s \<longleftrightarrow> well_keyed zone_pk (db_next s) (db_zones s) \<and>
     (\<forall>r\<in>set (db_zone_seats s). pzs_zone r < db_next s) \<and>
     well_keyed pzs_pk (db_next s) (db_zone_seats s)"

text \<open>The seats of a zone as a set of rows; it only depends on the zone's key.\<close>

definition seats_at :: "nat \<Rightarrow> db \<Rightarrow> nat set" where
  "seats_at k s = pzs_seat ` set (filter (\<lambda>r. pzs_zone r = k) (db_zone_seats s))"

lemma set_zone_seat_ids: "set (zone_seat_ids z s) = seats_at (zone_pk z) s"
  by (auto simp: zone_seat_ids_def seats_at_def)

lemma one_zone_iff:
  assumes "well_keyed zone_pk n (db_zones s)"
  shows "one_zone_per_seat s \<longleftrightarrow>
    (\<forall>z\<in>set (db_zones s). \<forall>w\<in>set (db_zones s). zone_performance z = zone_performance w \<longrightarrow>
       zone_pk z \<noteq> zone_pk w \<longrightarrow> seats_at (zone_pk z) s \<inter> seats_at (zone_pk w) s = {})"
  using zone_rows.keyed_inj [OF assms] by (simp add: one_zone_per_seat_def set_zone_seat_ids) metis

lemma create_zone_seats_effect:
  assumes "create_zone_seats org zk ks s = Inr s'"
  shows "db_zones s' = db_zones s \<and> db_next s' = db_next s + length ks \<and>
    (\<forall>k. seats_at k s' = seats_at k s \<union> (if k = zk then set ks else {})) \<and>
    (zk < db_next s \<longrightarrow> zones_wf s \<longrightarrow> zones_wf s')"
  using assms
proof (induction ks arbitrary: s)
  case (Cons c cs)
  let ?s = "s\<lparr>db_zone_seats := db_zone_seats s @
             [\<lparr>pzs_pk = db_next s, pzs_organization = org, pzs_zone = zk, pzs_seat = c\<rparr>],
           db_next := Suc (db_next s)\<rparr>"
  from Cons.prems have r: "create_zone_seats org zk cs ?s = Inr s'" by (auto split: if_splits)
  have at: "seats_at k ?s = seats_at k s \<union> (if k = zk then {c} else {})" for k
    by (auto simp: seats_at_def)
  have "zones_wf ?s" if "zk < db_next s" "zones_wf s"
    using that zone_rows.keyed_mono [of "db_next s" "db_zones s" "Suc (db_next s)"]
      zone_seat_rows.insert_keyed [of "db_next s" "db_zone_seats s"
        "\<lparr>pzs_pk = 0, pzs_organization = org, pzs_zone = zk, pzs_seat = c\<rparr>"]
    by (auto simp: zones_wf_def less_Suc_eq)
  with Cons.IH [OF r] at show ?case by auto
qed auto

lemma keyed_filter_one:
  assumes "filter P rs = [z]"
  shows "z \<in> set rs \<and> P z" and "y \<in> set rs \<Longrightarrow> P y \<Longrightarrow> y = z"
proof -
  have "set (filter P rs) = {z}" using assms by simp
  then have eq: "{x \<in> set rs. P x} = {z}" by simp
  from eq show "z \<in> set rs \<and> P z" by blast
  from eq show "y \<in> set rs \<Longrightarrow> P y \<Longrightarrow> y = z" by blast
qed

lemma none_one_many [case_names 1 2 3]:
  assumes "xs = [] \<Longrightarrow> P" "\<And>x. xs = [x] \<Longrightarrow> P" "\<And>x y ys. xs = x # y # ys \<Longrightarrow> P"
  shows P
  using assms by (cases xs; cases "tl xs") auto

lemma obtain_zone_effect:
  assumes "obtain_zone org perf amount tpl s = Inr (z, s')" and "zones_wf s"
  shows "zones_wf s' \<and> z \<in> set (db_zones s') \<and> zone_performance z = perf_pk perf \<and>
    zone_organization z = org \<and> zone_amount z = amount \<and>
    (\<forall>k. seats_at k s' = seats_at k s) \<and> zone_pk z < db_next s' \<and>
    (\<forall>w'\<in>set (db_zones s'). zone_pk w' \<noteq> zone_pk z \<longrightarrow> w' \<in> set (db_zones s)) \<and>
    (\<forall>w\<in>set (db_zones s). zone_pk w \<noteq> zone_pk z \<longrightarrow> w \<in> set (db_zones s')) \<and>
    ((\<exists>z0\<in>set (db_zones s). zone_pk z0 = zone_pk z \<and> zone_performance z0 = perf_pk perf) \<or>
       zone_pk z = db_next s \<and> seats_at (zone_pk z) s = {})"
proof -
  let ?P = "\<lambda>z. zone_organization z = org \<and> zone_performance z = perf_pk perf \<and>
             zone_template z = Some (ztpl_pk tpl)"
  show ?thesis
  proof (cases "filter ?P (db_zones s)" rule: none_one_many)
    case 1
    let ?z = "\<lparr>zone_pk = db_next s, zone_organization = org, zone_performance = perf_pk perf,
        zone_template = Some (ztpl_pk tpl), zone_name = ztpl_name tpl, zone_color = ztpl_color tpl,
        zone_amount = amount\<rparr>"
    from 1 assms(1) have z: "z = ?z" and s': "s' = s\<lparr>db_zones := db_zones s @ [?z], db_next := Suc (db_next s)\<rparr>"
      by (auto simp: obtain_zone_def create_zone_def Let_def)
    have "seats_at (db_next s) s = {}" using assms(2) by (auto simp: zones_wf_def seats_at_def)
    moreover have "zones_wf s'"
      using assms(2) zone_rows.insert_keyed [of "db_next s" "db_zones s" "?z"]
        zone_seat_rows.keyed_mono [of "db_next s" "db_zone_seats s" "Suc (db_next s)"]
      by (auto simp: s' zones_wf_def less_Suc_eq)
    ultimately show ?thesis by (auto simp: z s' seats_at_def)
  next
    case (2 z0)
    note z0 = keyed_filter_one(1) [OF 2]
    let ?f = "\<lambda>x. x\<lparr>zone_name := ztpl_name tpl, zone_color := ztpl_color tpl, zone_amount := amount\<rparr>"
    from 2 assms(1) have z: "z = ?f z0"
      and s': "s' = s\<lparr>db_zones := update_rows (\<lambda>x. zone_pk x = zone_pk z0) ?f (db_zones s)\<rparr>"
      by (auto simp: obtain_zone_def Let_def)
    have "zones_wf s'"
      using assms(2) zone_rows.update_keyed [of ?f] by (auto simp: s' zones_wf_def)
    moreover have "zone_pk z0 < db_next s" using z0 assms(2) by (auto simp: zones_wf_def well_keyed_def)
    ultimately show ?thesis
      using z0 by (auto simp: z s' seats_at_def set_update_rows)
  next
    case 3
    then show ?thesis using assms(1) by (simp add: obtain_zone_def)
  qed
qed

lemma zone_on_row:
  assumes "zones_wf s" "w \<in> set (db_zones s)"
  shows "zone_on perf s (zone_pk w) \<longleftrightarrow> zone_performance w = perf"
  using zone_rows.get_row_keyed [of "db_next s" "db_zones s" w] assms by (simp add: zone_on_def zones_wf_def)

lemma pull_effect:
  "seats_at k (pull_from_other_zones perf zk ks s) =
     seats_at k s - (if k \<noteq> zk \<and> zone_on perf s k then set ks else {})"
  by (auto simp: pull_from_other_zones_def seats_at_def)

lemma pull_wf: "zones_wf s \<Longrightarrow> zones_wf (pull_from_other_zones perf zk ks s)"
  using zone_seat_rows.delete_keyed by (auto simp: pull_from_other_zones_def zones_wf_def)

text \<open>What painting does to the seats of every zone.\<close>

lemma apply_zone_effect:
  assumes "apply_zone org perf ks amount tpl s = Inr (z, s')" and "zones_wf s"
  shows "zones_wf s' \<and> z \<in> set (db_zones s') \<and> zone_performance z = perf_pk perf \<and>
    zone_organization z = org \<and> zone_amount z = amount \<and>
    (\<forall>w\<in>set (db_zones s'). zone_pk w \<noteq> zone_pk z \<longrightarrow> w \<in> set (db_zones s)) \<and>
    (\<forall>w\<in>set (db_zones s). zone_pk w \<noteq> zone_pk z \<longrightarrow> w \<in> set (db_zones s')) \<and>
    seats_at (zone_pk z) s' = seats_at (zone_pk z) s \<union> set ks \<and>
    (\<forall>w\<in>set (db_zones s'). zone_pk w \<noteq> zone_pk z \<longrightarrow> seats_at (zone_pk w) s' =
       seats_at (zone_pk w) s - (if zone_performance w = perf_pk perf then set ks else {})) \<and>
    ((\<exists>z0\<in>set (db_zones s). zone_pk z0 = zone_pk z \<and> zone_performance z0 = perf_pk perf) \<or>
       zone_pk z = db_next s \<and> seats_at (zone_pk z) s = {})"
proof -
  from assms(1) obtain s1 where o: "obtain_zone org perf amount tpl s = Inr (z, s1)"
    and c: "create_zone_seats org (zone_pk z)
      (filter (\<lambda>k. k \<notin> set (map pzs_seat (filter (\<lambda>r. pzs_zone r = zone_pk z \<and> pzs_seat r \<in> set ks)
          (db_zone_seats (pull_from_other_zones (perf_pk perf) (zone_pk z) ks s1))))) ks)
      (pull_from_other_zones (perf_pk perf) (zone_pk z) ks s1) = Inr s'"
    by (auto simp: apply_zone_def Let_def split: if_splits)
  let ?s2 = "pull_from_other_zones (perf_pk perf) (zone_pk z) ks s1"
  note oe = obtain_zone_effect [OF o assms(2)]
  have zs: "db_zones ?s2 = db_zones s1" "db_next ?s2 = db_next s1"
    by (simp_all add: pull_from_other_zones_def)
  note ce = create_zone_seats_effect [OF c]
  have at2: "seats_at (zone_pk z) ?s2 = seats_at (zone_pk z) s" using oe by (simp add: pull_effect)
  have wf: "zones_wf s'" using ce oe pull_wf zs by auto
  have mine: "seats_at (zone_pk z) s' = seats_at (zone_pk z) s \<union> set ks"
    using ce at2 by (auto simp: seats_at_def)
  have others: "seats_at (zone_pk w) s' =
       seats_at (zone_pk w) s - (if zone_performance w = perf_pk perf then set ks else {})"
    if "w \<in> set (db_zones s')" "zone_pk w \<noteq> zone_pk z" for w
  proof -
    have "w \<in> set (db_zones s1)" using that ce zs by simp
    then have "zone_on (perf_pk perf) s1 (zone_pk w) \<longleftrightarrow> zone_performance w = perf_pk perf"
      using zone_on_row oe by blast
    then show ?thesis using that ce oe by (simp add: pull_effect)
  qed
  have "db_zones s' = db_zones s1" using ce zs by simp
  then show ?thesis using oe wf mine others by auto
qed

lemma apply_zone_one_zone:
  assumes "apply_zone org perf ks amount tpl s = Inr (z, s')" and "zones_wf s" and "one_zone_per_seat s"
  shows "one_zone_per_seat s'"
proof -
  note e = apply_zone_effect [OF assms(1,2)]
  have wk: "well_keyed zone_pk (db_next s) (db_zones s)" "well_keyed zone_pk (db_next s') (db_zones s')"
    using assms(2) e by (auto simp: zones_wf_def)
  note inv = assms(3) [unfolded one_zone_iff [OF wk(1)], rule_format]
  have key: "seats_at (zone_pk z) s' \<inter> seats_at (zone_pk w) s' = {}"
    if "w \<in> set (db_zones s')" "zone_pk w \<noteq> zone_pk z" "zone_performance w = perf_pk perf" for w
  proof -
    have "w \<in> set (db_zones s)" using that e by blast
    then have "seats_at (zone_pk z) s \<inter> seats_at (zone_pk w) s = {}"
      using e inv that by (metis Int_empty_left)
    then show ?thesis using that e by auto
  qed
  show ?thesis
    unfolding one_zone_iff [OF wk(2)]
  proof (intro ballI impI)
    fix a b assume ab: "a \<in> set (db_zones s')" "b \<in> set (db_zones s')"
      "zone_performance a = zone_performance b" "zone_pk a \<noteq> zone_pk b"
    show "seats_at (zone_pk a) s' \<inter> seats_at (zone_pk b) s' = {}"
    proof (cases "zone_pk a = zone_pk z \<or> zone_pk b = zone_pk z")
      case True
      have z: "x = z" if "x \<in> set (db_zones s')" "zone_pk x = zone_pk z" for x
        using zone_rows.keyed_inj [OF wk(2)] that e by blast
      from True show ?thesis
      proof
        assume "zone_pk a = zone_pk z"
        then show ?thesis using key [OF ab(2)] ab z [OF ab(1)] e by auto
      next
        assume "zone_pk b = zone_pk z"
        then show ?thesis using key [OF ab(1)] ab z [OF ab(2)] e by (auto simp: Int_commute)
      qed
    next
      case False
      with ab e have "seats_at (zone_pk a) s \<inter> seats_at (zone_pk b) s = {}" by (intro inv) auto
      then show ?thesis using False ab e by auto
    qed
  qed
qed

text \<open>The price of a seat only depends on the zones that hold it.\<close>

lemma resolve_in_zone:
  assumes "zones_wf s" "one_zone_per_seat s" "z \<in> set (db_zones s)" "zone_performance z = perf_pk perf"
    and "zone_organization z = perf_organization perf" "seat_pk seat \<in> seats_at (zone_pk z) s"
  shows "resolve_seat_price perf seat s = Inr (zone_price z)"
proof -
  let ?l = "filter (\<lambda>z. seat_pk seat \<in> set (zone_seat_ids z s)) (zones_of perf s)"
  have z: "z \<in> set ?l" using assms by (simp add: set_zones_of set_zone_seat_ids)
  have "distinct (db_zones s)"
    using zone_rows.keyed_distinct [of "db_next s" "db_zones s"] assms(1)
    by (auto simp: zones_wf_def distinct_map)
  from zones_with_seat_unique [OF assms(2) this, of "seat_pk seat" perf] z have "?l = [z]"
    by (cases ?l; cases "tl ?l") auto
  then show ?thesis by (simp add: resolve_seat_price_def)
qed

lemma remove_seats_at:
  "seats_at k (remove_seats_from_zone org z ks s) \<subseteq> seats_at k s"
  by (auto simp: remove_seats_from_zone_def seats_at_def)

section \<open>Properties\<close>

text \<open>
  Property C23. Painting seats keeps every seat in at most one zone of its performance and sets
  their price: after \<open>apply_zone\<close> succeeds each painted seat resolves to the painted zone at the
  painted amount on that performance, and a seat's zone on any other performance is untouched.
\<close>

theorem apply_zone_sets_price:
  assumes "apply_zone (perf_organization perf) perf ks amount tpl s = Inr (z, s')"
    and "zones_wf s" and "one_zone_per_seat s"
  shows "zones_wf s' \<and> one_zone_per_seat s' \<and>
     (\<forall>seat. seat_pk seat \<in> set ks \<longrightarrow>
        resolve_seat_price perf seat s' = Inr (zone_price z) \<and> rp_amount (zone_price z) = amount) \<and>
     (\<forall>w\<in>set (db_zones s). zone_performance w \<noteq> perf_pk perf \<longrightarrow>
        w \<in> set (db_zones s') \<and> set (zone_seat_ids w s') = set (zone_seat_ids w s))"
proof -
  note e = apply_zone_effect [OF assms(1,2)]
  have one: "one_zone_per_seat s'" by (rule apply_zone_one_zone [OF assms])
  have price: "resolve_seat_price perf seat s' = Inr (zone_price z)" if "seat_pk seat \<in> set ks" for seat
    using e that by (intro resolve_in_zone) (auto simp: one)
  have other: "w \<in> set (db_zones s') \<and> seats_at (zone_pk w) s' = seats_at (zone_pk w) s"
    if "w \<in> set (db_zones s)" "zone_performance w \<noteq> perf_pk perf" for w
  proof -
    have "zone_pk w \<noteq> zone_pk z"
    proof
      assume eq: "zone_pk w = zone_pk z"
      have wk: "well_keyed zone_pk (db_next s) (db_zones s)" using assms(2) by (simp add: zones_wf_def)
      from e eq zone_rows.fresh_key [OF wk that(1)]
      obtain z0 where "z0 \<in> set (db_zones s)" "zone_pk z0 = zone_pk w" "zone_performance z0 = perf_pk perf"
        by auto
      with zone_rows.keyed_inj [OF wk _ that(1)] that(2) show False by blast
    qed
    with that e show ?thesis by auto
  qed
  have "zones_wf s'" "rp_amount (zone_price z) = amount"
    using e by (simp_all only: zone_price_def resolved_price.simps)
  with one price other show ?thesis
    unfolding set_zone_seat_ids by blast
qed

text \<open>A house template and a price painted on two seats of the matinee.\<close>

definition gold :: zone_template where
  "gold = \<lparr>ztpl_pk = 90, ztpl_organization = 1, ztpl_name = ''Gold'', ztpl_color = ''#aa8800''\<rparr>"

definition gold_zone :: "nat \<Rightarrow> cents \<Rightarrow> pricing_zone" where
  "gold_zone k a = \<lparr>zone_pk = k, zone_organization = 1, zone_performance = 32, zone_template = Some 90,
     zone_name = ''Gold'', zone_color = ''#aa8800'', zone_amount = a\<rparr>"

definition gold_seat :: "nat \<Rightarrow> nat \<Rightarrow> nat \<Rightarrow> pricing_zone_seat" where
  "gold_seat k z i = \<lparr>pzs_pk = k, pzs_organization = 1, pzs_zone = z, pzs_seat = i\<rparr>"

definition painted :: db where
  "painted = demo\<lparr>db_zones := [gold_zone 100 7500], db_next := 103,
     db_zone_seats := [gold_seat 101 100 21, gold_seat 102 100 22]\<rparr>"

lemma paint_gold: "apply_zone 1 matinee [21, 22] 7500 gold demo = Inr (gold_zone 100 7500, painted)"
  by (simp add: apply_zone_def obtain_zone_def create_zone_def pull_from_other_zones_def delete_rows_def
      painted_def gold_def gold_zone_def gold_seat_def Let_def demo_def matinee_def)

theorem apply_zone_sets_price_witness:
  "apply_zone 1 matinee [21, 22] 7500 gold demo = Inr (gold_zone 100 7500, painted) \<and>
   resolve_seat_price matinee (demo_seat 22 ''2'') painted = Inr (zone_price (gold_zone 100 7500))"
proof -
  have org: "perf_organization matinee = 1" "seat_pk (demo_seat 22 ''2'') = 22" by (simp_all add: fixture_defs)
  have wf: "zones_wf demo" "one_zone_per_seat demo"
    by (simp_all add: zones_wf_def one_zone_per_seat_def well_keyed_def demo_def)
  from apply_zone_sets_price [OF paint_gold [folded org(1)] wf] have
    "\<forall>seat. seat_pk seat \<in> set [21, 22] \<longrightarrow>
        resolve_seat_price matinee seat painted = Inr (zone_price (gold_zone 100 7500))" by blast
  then show ?thesis using paint_gold org(2) by simp
qed

text \<open>
  Cloning onto a performance that already has zones breaks the rule: a seat then has two zones, and
  the one-seat price (the first zone by name) and the bulk price (the last) differ.
\<close>

definition silver_zone :: pricing_zone where
  "silver_zone = \<lparr>zone_pk = 95, zone_organization = 1, zone_performance = 33, zone_template = None,
     zone_name = ''Silver'', zone_color = ''#888888'', zone_amount = 6000\<rparr>"

definition silver_night :: db where
  "silver_night = demo\<lparr>db_zones := [gold_zone 94 7500, silver_zone],
     db_zone_seats := [gold_seat 96 94 22, gold_seat 97 95 22]\<rparr>"

definition cloned :: db where
  "cloned = silver_night\<lparr>db_next := 102,
     db_zones := [gold_zone 94 7500, silver_zone, (gold_zone 100 7500)\<lparr>zone_performance := 33\<rparr>],
     db_zone_seats := [gold_seat 96 94 22, gold_seat 97 95 22, gold_seat 101 100 22]\<rparr>"

lemma demo_performance_seats:
  assumes "get_seating_chart p s = Some house_chart" "perf_organization p = 1"
    and "db_seats s = db_seats demo" "db_sections s = db_sections demo"
  shows "performance_seats p s = [demo_seat 21 ''1'', demo_seat 22 ''2'', demo_seat 23 ''3'']"
proof -
  have sec: "section_of (demo_seat i n) s = Some stalls" for i n
    by (simp add: section_of_def get_row_def assms fixture_defs)
  have "db_seats demo = [demo_seat 21 ''1'', demo_seat 22 ''2'', demo_seat 23 ''3'']"
    by (simp add: demo_def)
  then show ?thesis
    using assms by (simp add: performance_seats_def in_chart_def sec order_by_def seat_sort_key_def)
      (simp add: demo_seat_def house_chart_def stalls_def)
qed

lemma clone_effect: "clone_zones_from_performance 1 evening matinee silver_night =
  Inr ([(gold_zone 100 7500)\<lparr>zone_performance := 33\<rparr>], cloned)"
proof -
  have "set (map seat_pk (performance_seats evening silver_night)) = {21, 22, 23}"
    by (subst demo_performance_seats) (auto simp: silver_night_def get_seating_chart_def get_row_def fixture_defs)
  moreover have "order_by zone_name (filter (\<lambda>z. zone_organization z = 1 \<and>
      zone_performance z = perf_pk matinee) (db_zones silver_night)) = [gold_zone 94 7500]"
    by (simp add: silver_night_def silver_zone_def gold_zone_def matinee_def order_by_def)
  moreover have "zone_seat_ids (gold_zone 94 7500) silver_night = [22]"
    by (simp add: zone_seat_ids_def silver_night_def gold_zone_def gold_seat_def)
  moreover have "perf_pk evening = 33" "db_next silver_night = 100"
    "\<forall>r\<in>set (db_zone_seats silver_night). pzs_zone r \<noteq> 100"
    by (simp_all add: evening_def silver_night_def demo_def gold_seat_def)
  ultimately show ?thesis
    by (simp add: clone_zones_from_performance_def create_zone_def Let_def)
      (simp add: cloned_def silver_night_def gold_zone_def gold_seat_def)
qed

lemma clone_breaks_one_zone:
  "one_zone_per_seat silver_night \<and>
   clone_zones_from_performance 1 evening matinee silver_night =
     Inr ([(gold_zone 100 7500)\<lparr>zone_performance := 33\<rparr>], cloned) \<and>
   \<not> one_zone_per_seat cloned \<and>
   map_sum id rp_amount (resolve_seat_price evening (demo_seat 22 ''2'') cloned) = Inr 7500 \<and>
   map_option zone_amount (zones_by_seat_id evening cloned 22) = Some 6000"
proof -
  have 1: "one_zone_per_seat silver_night" "\<not> one_zone_per_seat cloned"
    by (simp_all add: one_zone_per_seat_def zone_seat_ids_def cloned_def silver_night_def silver_zone_def
        gold_zone_def gold_seat_def)
  have z: "zones_of evening cloned = [(gold_zone 100 7500)\<lparr>zone_performance := 33\<rparr>, silver_zone]"
    by (simp add: zones_of_def order_by_def cloned_def silver_zone_def gold_zone_def evening_def)
  have i: "zone_seat_ids silver_zone cloned = [22]"
    "zone_seat_ids ((gold_zone 100 7500)\<lparr>zone_performance := 33\<rparr>) cloned = [22]"
    by (simp_all add: zone_seat_ids_def cloned_def silver_zone_def gold_zone_def gold_seat_def)
  have "seat_pk (demo_seat 22 ''2'') = 22" by (simp add: demo_seat_def)
  with z i have "resolve_seat_price evening (demo_seat 22 ''2'') cloned =
      Inr (zone_price ((gold_zone 100 7500)\<lparr>zone_performance := 33\<rparr>))"
    "zones_by_seat_id evening cloned 22 = Some silver_zone"
    by (simp_all add: resolve_seat_price_def zones_by_seat_last)
  with 1 clone_effect show ?thesis
    by (simp add: zone_price_def gold_zone_def silver_zone_def)
qed

end
