(* ===== verification/Holds.thy ===== *)
theory Holds
  imports Zones
begin

text \<open>
  orders/services.py, the hold ("cart") layer: what is available, and the transactions that hold,
  release and free inventory. A hold counts while \<open>expires_at > now\<close>; every transaction re-reads
  availability before it writes. Each \<open>@transaction.atomic\<close> function is one function here, run at
  the time \<open>now\<close> it reads from the clock.
\<close>

section \<open>Availability\<close>

definition active :: "time \<Rightarrow> hold \<Rightarrow> bool" where
  "active now h \<longleftrightarrow> now < hold_expires_at h"

definition default_hold_expiry :: "time \<Rightarrow> time" where
  "default_hold_expiry now = now + minutes 10"

definition get_active_hold :: "nat \<Rightarrow> performance \<Rightarrow> string \<Rightarrow> time \<Rightarrow> db \<Rightarrow> hold option" where
  "get_active_hold organization performance session_key now s =
     first_row (order_by (\<lambda>h. - hold_created_at h) (filter (\<lambda>h.
       hold_organization h = organization \<and> hold_performance h = perf_pk performance \<and>
       hold_session_key h = session_key \<and> active now h) (db_holds s)))"

definition session_hold :: "nat \<Rightarrow> nat \<Rightarrow> string \<Rightarrow> hold \<Rightarrow> bool" where
  "session_hold organization perf session_key h \<longleftrightarrow>
     hold_organization h = organization \<and> hold_performance h = perf \<and> hold_session_key h = session_key"

definition clear_session_hold :: "nat \<Rightarrow> performance \<Rightarrow> string \<Rightarrow> db \<Rightarrow> db" where
  "clear_session_hold organization performance session_key s =
     delete_holds (session_hold organization (perf_pk performance) session_key) s"

definition active_ga_held_qty :: "nat \<Rightarrow> string option \<Rightarrow> time \<Rightarrow> db \<Rightarrow> int" where
  "active_ga_held_qty perf exclude_session_key now s =
     sum_list (map (\<lambda>h. the (hold_quantity h)) (filter (\<lambda>h.
       hold_performance h = perf \<and> hold_quantity h \<noteq> None \<and> active now h \<and>
       Some (hold_session_key h) \<noteq> exclude_session_key) (db_holds s)))"

definition allocation_of :: "nat \<Rightarrow> db \<Rightarrow> ga_allocation option" where
  "allocation_of perf s = first_row (filter (\<lambda>a. alloc_performance a = perf) (db_allocations s))"

definition ga_available :: "performance \<Rightarrow> string option \<Rightarrow> time \<Rightarrow> db \<Rightarrow> int" where
  "ga_available performance exclude_session_key now s =
     (case allocation_of (perf_pk performance) s of
        None \<Rightarrow> 0
      | Some a \<Rightarrow> max (alloc_capacity a - alloc_sold a -
                      active_ga_held_qty (perf_pk performance) exclude_session_key now s) 0)"

datatype seat_state = BLOCKED | UNAVAILABLE | HELD_BY_YOU | AVAILABLE

definition blocked_ids :: "nat \<Rightarrow> db \<Rightarrow> nat set" where
  "blocked_ids perf s = set (map block_seat (filter (\<lambda>b. block_performance b = perf) (db_blocks s)))"

definition ticketed_ids :: "nat \<Rightarrow> db \<Rightarrow> nat set" where
  "ticketed_ids perf s =
     set (List.map_filter tkt_seat (filter (\<lambda>t. tkt_performance t = perf \<and> live t) (db_tickets s)))"

text \<open>The seats of active holds of a performance, by whether the hold's session satisfies \<open>mine\<close>.\<close>

definition held_ids :: "nat \<Rightarrow> (string \<Rightarrow> bool) \<Rightarrow> time \<Rightarrow> db \<Rightarrow> nat set" where
  "held_ids perf mine now s =
     set (map hs_seat (filter (\<lambda>r. case hold_of_seat r s of
             None \<Rightarrow> False
           | Some h \<Rightarrow> hold_performance h = perf \<and> active now h \<and> mine (hold_session_key h))
         (db_hold_seats s)))"

definition reserved_seat_states ::
    "performance \<Rightarrow> string option \<Rightarrow> time \<Rightarrow> db \<Rightarrow> (nat \<times> seat_state) list" where
  "reserved_seat_states performance session_key now s =
     (let blocked = blocked_ids (perf_pk performance) s;
          ticketed = ticketed_ids (perf_pk performance) s;
          held_by_you = held_ids (perf_pk performance) (\<lambda>k. session_key = Some k) now s;
          held_by_others = held_ids (perf_pk performance) (\<lambda>k. session_key \<noteq> Some k) now s
      in map (\<lambda>seat. (seat_pk seat,
            if seat_pk seat \<in> blocked then BLOCKED
            else if seat_pk seat \<in> ticketed \<or> seat_pk seat \<in> held_by_others then UNAVAILABLE
            else if seat_pk seat \<in> held_by_you then HELD_BY_YOU
            else AVAILABLE)) (performance_seats performance s))"

definition selectable :: "seat_state \<Rightarrow> bool" where
  "selectable st \<longleftrightarrow> st \<noteq> UNAVAILABLE \<and> st \<noteq> BLOCKED"

definition reserved_available_count :: "performance \<Rightarrow> time \<Rightarrow> db \<Rightarrow> nat" where
  "reserved_available_count performance now s =
     length (filter (\<lambda>(k, st). selectable st) (reserved_seat_states performance None now s))"

section \<open>Transactions\<close>

definition release_hold :: "nat \<Rightarrow> performance \<Rightarrow> string \<Rightarrow> db \<Rightarrow> db" where
  "release_hold organization performance session_key s = clear_session_hold organization performance session_key s"

definition release_hold_by_id :: "nat \<Rightarrow> string \<Rightarrow> nat option \<Rightarrow> db \<Rightarrow> db" where
  "release_hold_by_id organization session_key hold_id s =
     (case hold_id of
        None \<Rightarrow> s
      | Some k \<Rightarrow>
          (if k = 0 then s
           else delete_holds (\<lambda>h. hold_organization h = organization \<and> hold_session_key h = session_key \<and>
                                  hold_pk h = k) s))"

text \<open>The \<open>release_expired_holds\<close> command.\<close>

definition release_expired_holds :: "time \<Rightarrow> db \<Rightarrow> db" where
  "release_expired_holds now s = delete_holds (\<lambda>h. hold_expires_at h \<le> now) s"

definition new_hold :: "nat \<Rightarrow> performance \<Rightarrow> string \<Rightarrow> nat option \<Rightarrow> time \<Rightarrow> hold" where
  "new_hold organization performance session_key user now =
     \<lparr>hold_pk = 0, hold_organization = organization, hold_performance = perf_pk performance,
      hold_session_key = session_key, hold_user = user, hold_expires_at = default_hold_expiry now,
      hold_price_tier = None, hold_quantity = None, hold_ga_unit_amount = None,
      hold_promo_code = None, hold_promo_code_text = '''', hold_discount_amount = None,
      hold_donation_amount = None, hold_donation_campaign = None, hold_created_at = now\<rparr>"

definition set_ga_hold ::
    "nat \<Rightarrow> performance \<Rightarrow> string \<Rightarrow> nat option \<Rightarrow> price_tier \<Rightarrow> int option \<Rightarrow> time \<Rightarrow> db \<Rightarrow>
       error + (hold option \<times> db)" where
  "set_ga_hold organization performance session_key user price_tier quantity now s =
     (case quantity of
        None \<Rightarrow> Inr (None, clear_session_hold organization performance session_key s)
      | Some q \<Rightarrow>
          if q \<le> 0 then Inr (None, clear_session_hold organization performance session_key s)
          else bindE (or_raise (allocation_of (perf_pk performance) s) (PyErr DoesNotExist)) (\<lambda>allocation.
            let other_held_qty = active_ga_held_qty (perf_pk performance) (Some session_key) now s;
                available = alloc_capacity allocation - alloc_sold allocation - other_held_qty
            in if available < q
                 then Inl (HoldErr (if available \<le> 0 then SoldOut else OnlyAvailable available))
               else bindE (create_hold
                 ((new_hold organization performance session_key user now)
                    \<lparr>hold_price_tier := Some (tier_pk price_tier), hold_quantity := Some q,
                     hold_ga_unit_amount := Some (tier_amount price_tier)\<rparr>)
                 (clear_session_hold organization performance session_key s)) (\<lambda>(h, s'). Inr (Some h, s'))))"

text \<open>
  \<open>set_reserved_hold\<close>. The seats are locked in key order; note that the seats held by others are
  looked up over all performances.
\<close>

definition lock_seats :: "nat \<Rightarrow> performance \<Rightarrow> nat list \<Rightarrow> db \<Rightarrow> seat list" where
  "lock_seats organization performance seat_ids s =
     (case get_seating_chart performance s of
        None \<Rightarrow> []
      | Some chart \<Rightarrow> filter (\<lambda>seat. seat_organization seat = organization \<and> in_chart chart s seat \<and>
                                  seat_pk seat \<in> set seat_ids) (db_seats s))"

definition held_by_others_ids :: "string \<Rightarrow> time \<Rightarrow> db \<Rightarrow> nat set" where
  "held_by_others_ids session_key now s =
     set (map hs_seat (filter (\<lambda>r. case hold_of_seat r s of
             None \<Rightarrow> False
           | Some h \<Rightarrow> active now h \<and> hold_session_key h \<noteq> session_key) (db_hold_seats s)))"

definition hold_seat_row :: "nat \<Rightarrow> hold \<Rightarrow> resolved_price \<Rightarrow> seat \<Rightarrow> hold_seat" where
  "hold_seat_row organization h p seat =
     \<lparr>hs_pk = 0, hs_organization = organization, hs_hold = hold_pk h, hs_seat = seat_pk seat,
      hs_price_tier = map_option tier_pk (rp_tier p), hs_pricing_zone = map_option zone_pk (rp_zone p),
      hs_unit_amount = rp_amount p\<rparr>"

definition set_reserved_hold ::
    "nat \<Rightarrow> performance \<Rightarrow> string \<Rightarrow> nat option \<Rightarrow> nat list \<Rightarrow> time \<Rightarrow> db \<Rightarrow>
       error + (hold option \<times> db)" where
  "set_reserved_hold organization performance session_key user seat_ids0 now s =
     (let seat_ids = fromkeys seat_ids0
      in if seat_ids = [] then Inr (None, clear_session_hold organization performance session_key s)
         else
           let seats = lock_seats organization performance seat_ids s;
               unavailable = ticketed_ids (perf_pk performance) s \<union> held_by_others_ids session_key now s \<union>
                             blocked_ids (perf_pk performance) s;
               taken = filter (\<lambda>seat. seat_pk seat \<in> unavailable) seats;
               prices = resolve_reserved_prices performance s
           in bindE (guardE (length seats = length seat_ids) (HoldErr SeatsNotInPerformance)) (\<lambda>_.
              bindE (guardE (taken = []) (HoldErr (SeatsJustTaken (map seat_pk taken)))) (\<lambda>_.
              bindE (guardE (\<forall>seat\<in>set seats. prices (seat_pk seat) \<noteq> None) (HoldErr SeatsWithoutPrice)) (\<lambda>_.
              bindE (create_hold (new_hold organization performance session_key user now)
                       (clear_session_hold organization performance session_key s)) (\<lambda>(h, s1).
              bindE (create_hold_seats
                       (map (\<lambda>seat. hold_seat_row organization h (the (prices (seat_pk seat))) seat) seats) s1)
                (\<lambda>s2. Inr (Some h, s2)))))))"

definition void_order :: "order \<Rightarrow> db \<Rightarrow> error + (nat \<times> db)" where
  "void_order o' s =
     (let tickets = filter live (tickets_of o' s);
          ga_count = length (filter (\<lambda>t. tkt_seat t = None) tickets);
          s1 = s\<lparr>db_tickets := update_rows (\<lambda>t. tkt_pk t \<in> set (map tkt_pk tickets))
                                (\<lambda>t. t\<lparr>tkt_status := VOID\<rparr>) (db_tickets s)\<rparr>
      in if tickets = [] then Inr (0, s)
         else if ga_count \<noteq> 0 \<and> order_performance o' \<noteq> None
           then (case allocation_of (the (order_performance o')) s1 of
                   None \<Rightarrow> Inr (length tickets, s1)
                 | Some a \<Rightarrow> bindE (save_sold a (max (alloc_sold a - int ga_count) 0) s1)
                               (\<lambda>s2. Inr (length tickets, s2)))
         else Inr (length tickets, s1))"

definition cart_item_count :: "nat \<Rightarrow> string \<Rightarrow> time \<Rightarrow> db \<Rightarrow> int" where
  "cart_item_count organization session_key now s =
     (if session_key = '''' then 0
      else let holds = filter (\<lambda>h. hold_organization h = organization \<and> hold_session_key h = session_key \<and>
                                  active now h) (db_holds s)
           in sum_list (map (\<lambda>h. case hold_quantity h of None \<Rightarrow> 0 | Some q \<Rightarrow> q) holds) +
              int (length (filter (\<lambda>r. hs_hold r \<in> set (map hold_pk holds)) (db_hold_seats s))))"

section \<open>Lemmas\<close>

lemma active_new_hold [simp]: "active now (new_hold org perf sk u now)"
  by (simp add: active_def new_hold_def default_hold_expiry_def minutes_def seconds_def)

lemma clear_session_simps [simp]:
  "db_holds (clear_session_hold org perf sk s) = delete_rows (session_hold org (perf_pk perf) sk) (db_holds s)"
  "db_next (clear_session_hold org perf sk s) = db_next s"
  "db_tickets (clear_session_hold org perf sk s) = db_tickets s"
  "db_allocations (clear_session_hold org perf sk s) = db_allocations s"
  by (simp_all add: clear_session_hold_def)

lemma sum_list_filter_le:
  fixes f :: "'a \<Rightarrow> int"
  assumes "\<And>x. x \<in> set xs \<Longrightarrow> P x \<Longrightarrow> Q x" and "\<And>x. x \<in> set xs \<Longrightarrow> Q x \<Longrightarrow> 0 \<le> f x"
  shows "sum_list (map f (filter P xs)) \<le> sum_list (map f (filter Q xs))"
  using assms by (induction xs) (auto intro: add_mono order_trans [OF _ add_increasing])

text \<open>What the two hold transactions return and write, on every branch.\<close>

lemma set_ga_hold_Inr:
  assumes "set_ga_hold org perf sk u tier (Some q) now s = Inr (r, s')" and "0 < q"
  obtains a where "allocation_of (perf_pk perf) s = Some a"
    and "q \<le> alloc_capacity a - alloc_sold a - active_ga_held_qty (perf_pk perf) (Some sk) now s"
    and "r = Some ((new_hold org perf sk u now)\<lparr>hold_pk := db_next s, hold_price_tier := Some (tier_pk tier),
        hold_quantity := Some q, hold_ga_unit_amount := Some (tier_amount tier)\<rparr>)"
    and "s' = (clear_session_hold org perf sk s)\<lparr>
        db_holds := delete_rows (session_hold org (perf_pk perf) sk) (db_holds s) @ [the r],
        db_next := Suc (db_next s)\<rparr>"
  using assms
  by (auto simp: set_ga_hold_def create_hold_effect Let_def split: if_splits)

lemma held_qty_append:
  "active_ga_held_qty perf x now (s\<lparr>db_holds := hs @ [h], db_next := n\<rparr>) =
     active_ga_held_qty perf x now (s\<lparr>db_holds := hs\<rparr>) +
     (if hold_performance h = perf \<and> hold_quantity h \<noteq> None \<and> active now h \<and> Some (hold_session_key h) \<noteq> x
      then the (hold_quantity h) else 0)"
  by (cases "hold_quantity h") (simp_all add: active_ga_held_qty_def)

lemma held_qty_holds:
  "db_holds s = db_holds s' \<Longrightarrow> active_ga_held_qty perf x now s = active_ga_held_qty perf x now s'"
  by (simp add: active_ga_held_qty_def)

text \<open>Holds of a performance belong to its theater.\<close>

definition holds_in_tenant :: "nat \<Rightarrow> nat \<Rightarrow> db \<Rightarrow> bool" where
  "holds_in_tenant org perf s \<longleftrightarrow> (\<forall>h\<in>set (db_holds s). hold_performance h = perf \<longrightarrow> hold_organization h = org)"

lemma others_after_clear:
  assumes "holds_in_tenant org (perf_pk perf) s"
  shows "active_ga_held_qty (perf_pk perf) None now (clear_session_hold org perf sk s) =
    active_ga_held_qty (perf_pk perf) (Some sk) now s"
proof -
  have "filter (\<lambda>h. hold_performance h = perf_pk perf \<and> hold_quantity h \<noteq> None \<and> active now h \<and>
          Some (hold_session_key h) \<noteq> None) (delete_rows (session_hold org (perf_pk perf) sk) (db_holds s)) =
      filter (\<lambda>h. hold_performance h = perf_pk perf \<and> hold_quantity h \<noteq> None \<and> active now h \<and>
          Some (hold_session_key h) \<noteq> Some sk) (db_holds s)"
    using assms by (auto simp: delete_rows_def filter_filter session_hold_def holds_in_tenant_def intro!: filter_cong)
  then show ?thesis by (simp add: active_ga_held_qty_def)
qed

lemma others_after_clear_same:
  "active_ga_held_qty (perf_pk perf) (Some sk) now (clear_session_hold org perf sk s) =
   active_ga_held_qty (perf_pk perf) (Some sk) now s"
proof -
  have "filter (\<lambda>h. hold_performance h = perf_pk perf \<and> hold_quantity h \<noteq> None \<and> active now h \<and>
          Some (hold_session_key h) \<noteq> Some sk) (delete_rows (session_hold org (perf_pk perf) sk) (db_holds s)) =
      filter (\<lambda>h. hold_performance h = perf_pk perf \<and> hold_quantity h \<noteq> None \<and> active now h \<and>
          Some (hold_session_key h) \<noteq> Some sk) (db_holds s)"
    by (auto simp: delete_rows_def filter_filter session_hold_def intro!: filter_cong)
  then show ?thesis by (simp add: active_ga_held_qty_def)
qed

lemma filter_not_none: "(\<And>x. x \<in> set xs \<Longrightarrow> P x \<Longrightarrow> \<not> Q x) \<Longrightarrow> filter P (filter Q xs) = []"
  by (auto simp: filter_empty_conv)

lemma active_hold_after_replace:
  assumes "db_holds s' = delete_rows (session_hold org (perf_pk perf) sk) hs @ [h]"
    and "session_hold org (perf_pk perf) sk h" "active now h"
  shows "get_active_hold org perf sk now s' = Some h"
proof -
  have "filter (\<lambda>h. hold_organization h = org \<and> hold_performance h = perf_pk perf \<and>
      hold_session_key h = sk \<and> active now h) (delete_rows (session_hold org (perf_pk perf) sk) hs) = []"
    by (auto simp: filter_empty_conv session_hold_def)
  then show ?thesis
    using assms by (simp add: get_active_hold_def order_by_def session_hold_def)
qed

section \<open>General admission\<close>

text \<open>
  A general-admission hold never oversells: when the transaction succeeds, tickets
  sold plus everything then held fits the capacity; the session has exactly the hold it asked for,
  at the tier's price and for ten minutes, and every other session's hold is as it was.
\<close>

theorem ga_hold_fits_capacity:
  assumes "set_ga_hold org perf sk u tier (Some q) now s = Inr (r, s')" and "0 < q"
    and "allocation_of (perf_pk perf) s = Some a" and "holds_in_tenant org (perf_pk perf) s"
  shows "alloc_sold a + active_ga_held_qty (perf_pk perf) None now s' \<le> alloc_capacity a \<and>
     (\<exists>h. r = Some h \<and> get_active_hold org perf sk now s' = Some h \<and> hold_quantity h = Some q \<and>
        hold_ga_unit_amount h = Some (tier_amount tier) \<and> hold_expires_at h = now + minutes 10 \<and>
        filter (session_hold org (perf_pk perf) sk) (db_holds s') = [h]) \<and>
     filter (\<lambda>h. \<not> session_hold org (perf_pk perf) sk h) (db_holds s') =
       filter (\<lambda>h. \<not> session_hold org (perf_pk perf) sk h) (db_holds s)"
proof -
  let ?h = "(new_hold org perf sk u now)\<lparr>hold_pk := db_next s, hold_price_tier := Some (tier_pk tier),
        hold_quantity := Some q, hold_ga_unit_amount := Some (tier_amount tier)\<rparr>"
  let ?c = "clear_session_hold org perf sk s"
  from set_ga_hold_Inr [OF assms(1,2)] assms(3)
  have fit: "q \<le> alloc_capacity a - alloc_sold a - active_ga_held_qty (perf_pk perf) (Some sk) now s"
    and r: "r = Some ?h"
    and s': "s' = ?c\<lparr>db_holds := delete_rows (session_hold org (perf_pk perf) sk) (db_holds s) @ [?h],
        db_next := Suc (db_next s)\<rparr>"
    by (metis option.inject option.sel)+
  have mine: "session_hold org (perf_pk perf) sk ?h" "active now ?h"
    using active_new_hold [of now org perf sk u] by (simp_all add: session_hold_def new_hold_def active_def)
  have "active_ga_held_qty (perf_pk perf) None now s' =
      active_ga_held_qty (perf_pk perf) None now (?c\<lparr>db_holds := db_holds ?c\<rparr>) + q"
    using mine by (simp only: s' held_qty_append clear_session_simps(1) [symmetric])
      (simp add: session_hold_def)
  also have "active_ga_held_qty (perf_pk perf) None now (?c\<lparr>db_holds := db_holds ?c\<rparr>) =
      active_ga_held_qty (perf_pk perf) (Some sk) now s"
    using others_after_clear [OF assms(4)]
    by (subst held_qty_holds [where s' = ?c]) simp_all
  finally have "alloc_sold a + active_ga_held_qty (perf_pk perf) None now s' \<le> alloc_capacity a"
    using fit by simp
  moreover have "get_active_hold org perf sk now s' = Some ?h"
    by (rule active_hold_after_replace [OF _ mine]) (simp add: s')
  moreover have "filter (session_hold org (perf_pk perf) sk) (db_holds s') = [?h]"
    "filter (\<lambda>h. \<not> session_hold org (perf_pk perf) sk h) (db_holds s') =
       filter (\<lambda>h. \<not> session_hold org (perf_pk perf) sk h) (db_holds s)"
    using mine(1) by (simp_all add: s' delete_rows_def filter_filter)
  moreover have "hold_expires_at ?h = now + minutes 10"
    by (simp add: new_hold_def default_hold_expiry_def)
  ultimately show ?thesis by (simp add: r)
qed

definition two_held :: db where
  "two_held = demo\<lparr>db_next := 101, db_holds := [(new_hold 1 ga_show ''s1'' None 0)
     \<lparr>hold_pk := 100, hold_price_tier := Some 51, hold_quantity := Some 2, hold_ga_unit_amount := Some 2500\<rparr>]\<rparr>"

lemma demo_allocation: "db_allocations s = [ga_room] \<Longrightarrow> allocation_of 31 s = Some ga_room"
  by (simp add: allocation_of_def ga_room_def)

lemma hold_two: "\<exists>r. set_ga_hold 1 ga_show ''s1'' None ga_tier (Some 2) 0 demo = Inr (r, two_held)"
proof -
  have "allocation_of (perf_pk ga_show) demo = Some ga_room"
    using demo_allocation by (simp add: demo_def ga_show_def)
  then show ?thesis
    by (simp add: set_ga_hold_def active_ga_held_qty_def create_hold_def ga_fields_together_def
        clear_session_hold_def delete_holds_def delete_rows_def Let_def)
      (simp add: two_held_def demo_def ga_room_def ga_tier_def new_hold_def)
qed

theorem ga_hold_fits_capacity_witness:
  "alloc_sold ga_room + active_ga_held_qty 31 None 0 two_held \<le> alloc_capacity ga_room \<and>
   map_option hold_quantity (get_active_hold 1 ga_show ''s1'' 0 two_held) = Some (Some 2)"
proof -
  obtain r where r: "set_ga_hold 1 ga_show ''s1'' None ga_tier (Some 2) 0 demo = Inr (r, two_held)"
    using hold_two by blast
  have "allocation_of (perf_pk ga_show) demo = Some ga_room" "holds_in_tenant 1 (perf_pk ga_show) demo"
    "perf_pk ga_show = 31"
    using demo_allocation by (simp_all add: demo_def ga_show_def holds_in_tenant_def)
  with ga_hold_fits_capacity [OF r] show ?thesis by auto
qed

text \<open>
  A refused general-admission request says the truth: it is refused only when the
  quantity exceeds what is left after the other sessions' holds; \<open>Sold out\<close> means nothing is left,
  and "only n available" means that asking for exactly n in the same state succeeds.
\<close>

theorem ga_refusal_is_exact:
  assumes "allocation_of (perf_pk perf) s = Some a" and "0 < q"
    and "set_ga_hold org perf sk u tier (Some q) now s = Inl e"
  shows "ga_available perf (Some sk) now s < q \<and>
     (e = HoldErr SoldOut \<and> ga_available perf (Some sk) now s = 0 \<or>
      (\<exists>n. e = HoldErr (OnlyAvailable n) \<and> n = ga_available perf (Some sk) now s \<and> 0 < n \<and>
         (\<exists>h s'. set_ga_hold org perf sk u tier (Some n) now s = Inr (Some h, s'))))"
proof -
  let ?n = "alloc_capacity a - alloc_sold a - active_ga_held_qty (perf_pk perf) (Some sk) now s"
  from assms have lt: "?n < q" and e: "e = HoldErr (if ?n \<le> 0 then SoldOut else OnlyAvailable ?n)"
    by (auto simp: set_ga_hold_def Let_def create_hold_def ga_fields_together_def new_hold_def split: if_splits)
  have av: "ga_available perf (Some sk) now s = max ?n 0" by (simp add: ga_available_def assms(1))
  have "\<exists>h s'. set_ga_hold org perf sk u tier (Some ?n) now s = Inr (Some h, s')" if "0 < ?n"
    using that assms(1) by (simp add: set_ga_hold_def Let_def create_hold_def ga_fields_together_def)
  with lt e av assms(2) show ?thesis by (cases "?n \<le> 0") auto
qed

theorem ga_refusal_is_exact_witness:
  "set_ga_hold 1 ga_show ''s2'' None ga_tier (Some 2) 5 two_held = Inl (HoldErr (OnlyAvailable 1)) \<and>
   (\<exists>h s'. set_ga_hold 1 ga_show ''s2'' None ga_tier (Some 1) 5 two_held = Inr (Some h, s'))"
proof -
  have a: "allocation_of (perf_pk ga_show) two_held = Some ga_room"
    using demo_allocation by (simp add: two_held_def demo_def ga_show_def)
  have q: "active_ga_held_qty (perf_pk ga_show) (Some ''s2'') 5 two_held = 2"
    by (simp add: two_held_def active_ga_held_qty_def new_hold_def ga_show_def active_def default_hold_expiry_def time_defs)
  have r: "set_ga_hold 1 ga_show ''s2'' None ga_tier (Some 2) 5 two_held = Inl (HoldErr (OnlyAvailable 1))"
    by (simp add: set_ga_hold_def a q) (simp add: ga_room_def)
  with ga_refusal_is_exact [OF a _ r] show ?thesis by auto
qed

end
