(* ===== verification/SeatHolds.thy ===== *)
theory SeatHolds
  imports Holds
begin

text \<open>
  What \<open>set_reserved_hold\<close> of orders/services.py promises: it takes exactly the requested seats, at
  the prices the seat map shows, and only seats the seat map offers. The promise carries one
  hypothesis, that no other session holds one of the seats for a different performance, because
  the transaction looks up the seats held by others over all performances.
\<close>

section \<open>The seats it locks\<close>

lemma lock_seats_set:
  "seat \<in> set (lock_seats (perf_organization perf) perf ids s) \<longleftrightarrow>
     seat \<in> set (performance_seats perf s) \<and> seat_pk seat \<in> set ids"
  by (cases "get_seating_chart perf s") (auto simp: lock_seats_def performance_seats_iff)

lemma lock_seats_keyed:
  assumes "well_keyed seat_pk n (db_seats s)"
  shows "sorted_wrt (<) (map seat_pk (lock_seats org perf ids s))" "distinct (map seat_pk (lock_seats org perf ids s))"
proof -
  show "sorted_wrt (<) (map seat_pk (lock_seats org perf ids s))"
    using assms by (cases "get_seating_chart perf s")
      (auto simp: lock_seats_def well_keyed_def sorted_wrt_map sorted_wrt_filter)
  then show "distinct (map seat_pk (lock_seats org perf ids s))"
    by (simp add: strict_sorted_iff)
qed

lemma lock_seats_complete:
  assumes "well_keyed seat_pk n (db_seats s)" and "distinct ids"
  shows "length (lock_seats (perf_organization perf) perf ids s) = length ids \<longleftrightarrow>
    set ids \<subseteq> seat_pk ` set (performance_seats perf s)"
proof -
  let ?l = "map seat_pk (lock_seats (perf_organization perf) perf ids s)"
  have set: "set ?l = set ids \<inter> seat_pk ` set (performance_seats perf s)"
    by (auto simp: lock_seats_set)
  have "length ?l = card (set ?l)" using distinct_card [OF lock_seats_keyed(2) [OF assms(1)]] by simp
  moreover have "length ids = card (set ids)" using assms(2) by (simp add: distinct_card)
  ultimately have "length ?l = length ids \<longleftrightarrow> card (set ?l) = card (set ids)" by simp
  also have "\<dots> \<longleftrightarrow> set ?l = set ids"
    using set card_subset_eq [of "set ids" "set ?l"] by auto
  finally show ?thesis using set by auto
qed

section \<open>What it writes\<close>

text \<open>Holds are well keyed and every seat row belongs to a hold (\<open>ForeignKey\<close>, \<open>CASCADE\<close>).\<close>

definition holds_wf :: "db \<Rightarrow> bool" where
  "holds_wf s \<longleftrightarrow> well_keyed hold_pk (db_next s) (db_holds s) \<and>
     (\<forall>r\<in>set (db_hold_seats s). \<exists>h\<in>set (db_holds s). hold_pk h = hs_hold r)"

lemma hold_of_seat_Some:
  "hold_of_seat r s = Some h \<Longrightarrow> h \<in> set (db_holds s) \<and> hold_pk h = hs_hold r"
  unfolding hold_of_seat_def by (rule get_row_Some)

lemma hold_of_seat_keyed:
  "holds_wf s \<Longrightarrow> h \<in> set (db_holds s) \<Longrightarrow> hs_hold r = hold_pk h \<Longrightarrow> hold_of_seat r s = Some h"
  using hold_rows.get_row_keyed [of "db_next s" "db_holds s" h] by (simp add: hold_of_seat_def holds_wf_def)

lemma hold_of_seat_case:
  assumes "holds_wf s"
  shows "(case hold_of_seat r s of None \<Rightarrow> False | Some h \<Rightarrow> P h) \<longleftrightarrow>
    (\<exists>h\<in>set (db_holds s). hs_hold r = hold_pk h \<and> P h)"
proof (cases "hold_of_seat r s")
  case None
  with hold_of_seat_keyed [OF assms] show ?thesis by force
next
  case (Some h)
  then have "h \<in> set (db_holds s)" "hold_pk h = hs_hold r" using hold_of_seat_Some by auto
  moreover have "h' = h" if "h' \<in> set (db_holds s)" "hs_hold r = hold_pk h'" for h'
    using hold_of_seat_keyed [OF assms that] Some by simp
  ultimately have "P h \<longleftrightarrow> (\<exists>h\<in>set (db_holds s). hs_hold r = hold_pk h \<and> P h)" by metis
  then show ?thesis by (simp only: Some option.case)
qed

lemma held_ids_iff:
  assumes "holds_wf s"
  shows "k \<in> held_ids perf mine now s \<longleftrightarrow>
    (\<exists>r\<in>set (db_hold_seats s). \<exists>h\<in>set (db_holds s). hs_hold r = hold_pk h \<and> hs_seat r = k \<and>
       hold_performance h = perf \<and> active now h \<and> mine (hold_session_key h))"
  unfolding held_ids_def hold_of_seat_case [OF assms] by auto

lemma held_by_others_iff:
  assumes "holds_wf s"
  shows "k \<in> held_by_others_ids sk now s \<longleftrightarrow>
    (\<exists>r\<in>set (db_hold_seats s). \<exists>h\<in>set (db_holds s). hs_hold r = hold_pk h \<and> hs_seat r = k \<and>
       active now h \<and> hold_session_key h \<noteq> sk)"
  unfolding held_by_others_ids_def hold_of_seat_case [OF assms] by auto

lemma create_hold_seats_ok:
  assumes "distinct (map hs_seat rs)" and "\<forall>r\<in>set rs. hs_hold r = k"
    and "\<forall>x\<in>set (db_hold_seats s). hs_hold x = k \<longrightarrow> hs_seat x \<notin> hs_seat ` set rs"
  shows "\<exists>s'. create_hold_seats rs s = Inr s'"
  using assms
proof (induction rs arbitrary: s)
  case (Cons r rs)
  let ?s = "s\<lparr>db_hold_seats := db_hold_seats s @ [r\<lparr>hs_pk := db_next s\<rparr>], db_next := Suc (db_next s)\<rparr>"
  have "create_hold_seat r s = Inr ?s" using Cons.prems by (auto simp: create_hold_seat_def)
  moreover have "\<exists>s'. create_hold_seats rs ?s = Inr s'"
    using Cons.prems by (intro Cons.IH) auto
  ultimately show ?case by auto
qed simp

lemma clear_holds_wf: "holds_wf s \<Longrightarrow> holds_wf (delete_holds P s)"
  using hold_rows.delete_keyed by (fastforce simp: holds_wf_def)

definition reserved_rows :: "nat \<Rightarrow> hold \<Rightarrow> performance \<Rightarrow> nat list \<Rightarrow> db \<Rightarrow> hold_seat list" where
  "reserved_rows org h perf ids s =
     map (\<lambda>seat. hold_seat_row org h (the (resolve_reserved_prices perf s (seat_pk seat))) seat)
       (lock_seats org perf ids s)"

definition reserved_hold :: "nat \<Rightarrow> performance \<Rightarrow> string \<Rightarrow> nat option \<Rightarrow> time \<Rightarrow> db \<Rightarrow> hold" where
  "reserved_hold org perf sk u now s = (new_hold org perf sk u now)\<lparr>hold_pk := db_next s\<rparr>"

lemma stamped_row:
  assumes "r \<in> set (stamp_hold_seats k rs)"
  obtains r0 where "r0 \<in> set rs" "hs_hold r = hs_hold r0" "hs_seat r = hs_seat r0"
    "hs_unit_amount r = hs_unit_amount r0"
proof -
  from stamp_hold_seats_fields [OF assms] obtain r0 where r0: "r0 \<in> set rs" and eq: "r = r0\<lparr>hs_pk := hs_pk r\<rparr>"
    by blast
  show ?thesis by (rule that [OF r0]) (subst eq, simp)+
qed

lemma set_reserved_hold_Inr:
  assumes "set_reserved_hold org perf sk u ids now s = Inr (Some h, s')"
  shows "ids \<noteq> []" "h = reserved_hold org perf sk u now s"
    "length (lock_seats org perf (fromkeys ids) s) = length (fromkeys ids)"
    "\<forall>seat\<in>set (lock_seats org perf (fromkeys ids) s). resolve_reserved_prices perf s (seat_pk seat) \<noteq> None \<and>
       seat_pk seat \<notin> ticketed_ids (perf_pk perf) s \<union> held_by_others_ids sk now s \<union> blocked_ids (perf_pk perf) s"
    "s' = (clear_session_hold org perf sk s)\<lparr>
       db_holds := delete_rows (session_hold org (perf_pk perf) sk) (db_holds s) @ [h],
       db_hold_seats := db_hold_seats (clear_session_hold org perf sk s) @
         stamp_hold_seats (Suc (db_next s)) (reserved_rows org h perf (fromkeys ids) s),
       db_next := Suc (db_next s) + length (reserved_rows org h perf (fromkeys ids) s)\<rparr>"
proof -
  let ?c = "clear_session_hold org perf sk s"
  let ?s1 = "?c\<lparr>db_holds := delete_rows (session_hold org (perf_pk perf) sk) (db_holds s) @ [h],
       db_next := Suc (db_next s)\<rparr>"
  show ne: "ids \<noteq> []" using assms by (auto simp: set_reserved_hold_def)
  show h: "h = reserved_hold org perf sk u now s"
    using assms by (auto simp: set_reserved_hold_def create_hold_effect reserved_hold_def Let_def split: if_splits)
  show "length (lock_seats org perf (fromkeys ids) s) = length (fromkeys ids)"
    "\<forall>seat\<in>set (lock_seats org perf (fromkeys ids) s). resolve_reserved_prices perf s (seat_pk seat) \<noteq> None \<and>
       seat_pk seat \<notin> ticketed_ids (perf_pk perf) s \<union> held_by_others_ids sk now s \<union> blocked_ids (perf_pk perf) s"
    using assms ne by (auto simp: set_reserved_hold_def Let_def filter_empty_conv)
  have "create_hold_seats (reserved_rows org h perf (fromkeys ids) s) ?s1 = Inr s'"
    using assms by (auto simp: set_reserved_hold_def create_hold_effect reserved_hold_def reserved_rows_def
        Let_def split: if_splits)
  from create_hold_seats_effect [OF this]
  show "s' = (clear_session_hold org perf sk s)\<lparr>
       db_holds := delete_rows (session_hold org (perf_pk perf) sk) (db_holds s) @ [h],
       db_hold_seats := db_hold_seats (clear_session_hold org perf sk s) @
         stamp_hold_seats (Suc (db_next s)) (reserved_rows org h perf (fromkeys ids) s),
       db_next := Suc (db_next s) + length (reserved_rows org h perf (fromkeys ids) s)\<rparr>"
    by (simp add: clear_session_hold_def)
qed

lemma set_reserved_hold_ok:
  assumes "holds_wf s" "well_keyed seat_pk n (db_seats s)" "ids \<noteq> []"
    "length (lock_seats org perf (fromkeys ids) s) = length (fromkeys ids)"
    "\<forall>seat\<in>set (lock_seats org perf (fromkeys ids) s). resolve_reserved_prices perf s (seat_pk seat) \<noteq> None \<and>
       seat_pk seat \<notin> ticketed_ids (perf_pk perf) s \<union> held_by_others_ids sk now s \<union> blocked_ids (perf_pk perf) s"
  shows "\<exists>s'. set_reserved_hold org perf sk u ids now s = Inr (Some (reserved_hold org perf sk u now s), s')"
proof -
  let ?h = "reserved_hold org perf sk u now s"
  let ?c = "clear_session_hold org perf sk s"
  let ?s1 = "?c\<lparr>db_holds := db_holds ?c @ [?h], db_next := Suc (db_next s)\<rparr>"
  have fresh: "hs_hold r \<noteq> db_next s" if "r \<in> set (db_hold_seats s)" for r
    using that assms(1) hold_rows.fresh_key [of "db_next s" "db_holds s"] by (auto simp: holds_wf_def)
  have "\<exists>s'. create_hold_seats (reserved_rows org ?h perf (fromkeys ids) s) ?s1 = Inr s'"
    using lock_seats_keyed(2) [OF assms(2), of org perf "fromkeys ids"] fresh
    by (intro create_hold_seats_ok [where k = "db_next s"])
      (auto simp: reserved_rows_def hold_seat_row_def reserved_hold_def clear_session_hold_def o_def)
  moreover have "create_hold (new_hold org perf sk u now) ?c = Inr (?h, ?s1)"
    by (simp add: create_hold_effect reserved_hold_def) (simp add: ga_fields_together_def new_hold_def)
  ultimately show ?thesis
    using assms(3-5) by (auto simp: set_reserved_hold_def Let_def reserved_rows_def filter_empty_conv)
qed

section \<open>Properties\<close>

lemma seat_states_iff:
  "(k, st) \<in> set (reserved_seat_states perf (Some sk) now s) \<longleftrightarrow>
     (\<exists>seat\<in>set (performance_seats perf s). seat_pk seat = k) \<and>
     st = (if k \<in> blocked_ids (perf_pk perf) s then BLOCKED
           else if k \<in> ticketed_ids (perf_pk perf) s \<or> k \<in> held_ids (perf_pk perf) (\<lambda>x. sk \<noteq> x) now s then UNAVAILABLE
           else if k \<in> held_ids (perf_pk perf) (\<lambda>x. sk = x) now s then HELD_BY_YOU else AVAILABLE)"
  by (auto simp: reserved_seat_states_def Let_def)

text \<open>Another session's hold on one of the seats is for this performance.\<close>

definition not_held_elsewhere :: "nat \<Rightarrow> string \<Rightarrow> nat list \<Rightarrow> time \<Rightarrow> db \<Rightarrow> bool" where
  "not_held_elsewhere perf sk ids now s \<longleftrightarrow>
     (\<forall>r\<in>set (db_hold_seats s). \<forall>h\<in>set (db_holds s). hs_hold r = hold_pk h \<longrightarrow> hs_seat r \<in> set ids \<longrightarrow>
        active now h \<longrightarrow> hold_session_key h \<noteq> sk \<longrightarrow> hold_performance h = perf)"

lemma others_here:
  assumes "holds_wf s" "not_held_elsewhere perf sk ids now s" "k \<in> set ids"
  shows "k \<in> held_by_others_ids sk now s \<longleftrightarrow> k \<in> held_ids perf (\<lambda>x. sk \<noteq> x) now s"
  using assms(2,3) unfolding held_ids_iff [OF assms(1)] held_by_others_iff [OF assms(1)] not_held_elsewhere_def
  by metis

text \<open>
  Property C22. The seat map and the box office agree on what can be bought: a request for a
  non-empty list of seats succeeds exactly when every requested seat is shown as available or held
  by the buyer and has a price, provided no other session holds one of the seats for a different
  performance.
\<close>

theorem reserved_hold_iff_selectable:
  assumes "holds_wf s" and "well_keyed seat_pk n (db_seats s)" and "ids \<noteq> []"
    and "not_held_elsewhere (perf_pk perf) sk ids now s"
  shows "(\<exists>h s'. set_reserved_hold (perf_organization perf) perf sk u ids now s = Inr (Some h, s')) \<longleftrightarrow>
    (\<forall>k\<in>set ids. resolve_reserved_prices perf s k \<noteq> None \<and>
       (\<exists>st. (k, st) \<in> set (reserved_seat_states perf (Some sk) now s) \<and> selectable st))"
    (is "?ok \<longleftrightarrow> ?all")
proof -
  let ?org = "perf_organization perf"
  let ?seats = "lock_seats ?org perf (fromkeys ids) s"
  let ?bad = "ticketed_ids (perf_pk perf) s \<union> held_by_others_ids sk now s \<union> blocked_ids (perf_pk perf) s"
  have sel: "(\<exists>st. (k, st) \<in> set (reserved_seat_states perf (Some sk) now s) \<and> selectable st) \<longleftrightarrow>
      k \<in> seat_pk ` set (performance_seats perf s) \<and> k \<notin> ?bad" if "k \<in> set ids" for k
    using others_here [OF assms(1,4) that]
    by (auto simp: seat_states_iff selectable_def)
  have seats: "?all \<longleftrightarrow> set ids \<subseteq> seat_pk ` set (performance_seats perf s) \<and>
      (\<forall>seat\<in>set ?seats. resolve_reserved_prices perf s (seat_pk seat) \<noteq> None \<and> seat_pk seat \<notin> ?bad)"
  proof
    assume a: ?all
    then have "set ids \<subseteq> seat_pk ` set (performance_seats perf s)" using sel by blast
    moreover have "\<forall>seat\<in>set ?seats. resolve_reserved_prices perf s (seat_pk seat) \<noteq> None \<and> seat_pk seat \<notin> ?bad"
      using a sel by (auto simp: lock_seats_set)
    ultimately show "set ids \<subseteq> seat_pk ` set (performance_seats perf s) \<and>
      (\<forall>seat\<in>set ?seats. resolve_reserved_prices perf s (seat_pk seat) \<noteq> None \<and> seat_pk seat \<notin> ?bad)" ..
  next
    assume b: "set ids \<subseteq> seat_pk ` set (performance_seats perf s) \<and>
      (\<forall>seat\<in>set ?seats. resolve_reserved_prices perf s (seat_pk seat) \<noteq> None \<and> seat_pk seat \<notin> ?bad)"
    show ?all
    proof
      fix k assume k: "k \<in> set ids"
      with b obtain seat where "seat \<in> set (performance_seats perf s)" "k = seat_pk seat" by blast
      with k have "seat \<in> set ?seats" by (simp add: lock_seats_set)
      with b k sel \<open>k = seat_pk seat\<close>
      show "resolve_reserved_prices perf s k \<noteq> None \<and>
         (\<exists>st. (k, st) \<in> set (reserved_seat_states perf (Some sk) now s) \<and> selectable st)" by blast
    qed
  qed
  note len = lock_seats_complete [OF assms(2), of "fromkeys ids" perf, simplified]
  show ?thesis
  proof
    assume ?ok
    then obtain h s' where "set_reserved_hold ?org perf sk u ids now s = Inr (Some h, s')" by blast
    from set_reserved_hold_Inr(3,4) [OF this] show ?all unfolding seats using len by simp
  next
    assume ?all
    with seats len set_reserved_hold_ok [OF assms(1-3), of ?org perf sk now u] show ?ok by blast
  qed
qed

text \<open>The demo matinee: three seats, all at the stalls price.\<close>

lemma demo_seat_pk [simp]: "seat_pk (demo_seat i n) = i"
  by (simp add: demo_seat_def)

lemma matinee_seats:
  assumes "db_charts s = [house_chart]" "db_seats s = db_seats demo" "db_sections s = db_sections demo"
  shows "performance_seats matinee s = [demo_seat 21 ''1'', demo_seat 22 ''2'', demo_seat 23 ''3'']"
    "performance_seats evening s = [demo_seat 21 ''1'', demo_seat 22 ''2'', demo_seat 23 ''3'']"
  using assms by (auto intro!: demo_performance_seats
      simp: get_seating_chart_def get_row_def house_chart_def matinee_def evening_def)

lemma matinee_prices: "resolve_reserved_prices matinee demo =
  [21 \<mapsto> tier_price stalls_tier, 22 \<mapsto> tier_price stalls_tier, 23 \<mapsto> tier_price stalls_tier]"
proof -
  have c: "get_seating_chart matinee demo = Some house_chart"
    by (simp add: get_seating_chart_def house_chart_def matinee_def demo_def)
  have t: "resolve_seat_tier matinee 11 demo = Inr stalls_tier"
    by (simp add: resolve_seat_tier_def order_by_def fixture_defs)
  have p: "price_tiers_by_section matinee demo = [11 \<mapsto> stalls_tier]"
    using t by (simp add: price_tiers_by_section_def c)
      (simp add: demo_def stalls_def matinee_def house_chart_def)
  have z: "zones_by_seat_id matinee demo = Map.empty"
    by (simp add: zones_by_seat_id_def zones_of_def order_by_def demo_def)
  have s: "seat_section (demo_seat i n) = 11" for i n by (simp add: demo_seat_def)
  have "performance_seats matinee demo = [demo_seat 21 ''1'', demo_seat 22 ''2'', demo_seat 23 ''3'']"
    by (rule matinee_seats) (simp_all add: demo_def)
  then show ?thesis by (simp add: resolve_reserved_prices_def p z s)
qed

lemma demo_wf: "holds_wf demo" "well_keyed seat_pk 100 (db_seats demo)"
  by (simp_all add: holds_wf_def demo_def well_keyed_def)

lemma demo_untaken: "blocked_ids p demo = {}" "ticketed_ids p demo = {}" "held_ids p m now demo = {}"
  "held_by_others_ids sk now demo = {}"
  by (simp_all add: blocked_ids_def ticketed_ids_def held_ids_def held_by_others_ids_def demo_def
      List.map_filter_def)

theorem reserved_hold_iff_selectable_witness:
  "(\<exists>h s'. set_reserved_hold 1 matinee ''s1'' None [22, 21] 0 demo = Inr (Some h, s')) \<and>
   \<not> (\<exists>h s'. set_reserved_hold 1 matinee ''s1'' None [22, 24] 0 demo = Inr (Some h, s'))"
proof -
  have org: "perf_organization matinee = 1" by (simp add: matinee_def)
  have el: "not_held_elsewhere (perf_pk matinee) ''s1'' ids 0 demo" for ids
    by (simp add: not_held_elsewhere_def demo_def)
  have seats: "performance_seats matinee demo = [demo_seat 21 ''1'', demo_seat 22 ''2'', demo_seat 23 ''3'']"
    by (rule matinee_seats) (simp_all add: demo_def)
  note iff = reserved_hold_iff_selectable [OF demo_wf _ el, unfolded org, where u = None]
  show ?thesis
    using iff [of "[22, 21]"] iff [of "[22, 24]"]
    by (simp add: matinee_prices seat_states_iff seats demo_untaken selectable_def)
qed

text \<open>
  A reserved hold is what was asked for: on success the session's active hold has one
  row per requested seat, in key order and without repetition, each at the price the seat map
  resolves for it, and the rows of every other session's hold, and of this session's holds for
  other performances, are as they were.
\<close>

theorem reserved_hold_contents:
  assumes "set_reserved_hold (perf_organization perf) perf sk u ids now s = Inr (Some h, s')"
    and "holds_wf s" and "well_keyed seat_pk n (db_seats s)"
  shows "get_active_hold (perf_organization perf) perf sk now s' = Some h \<and>
     map hs_seat (seats_of_hold h s') = sort (remdups ids) \<and>
     (\<forall>r\<in>set (seats_of_hold h s').
        map_option rp_amount (resolve_reserved_prices perf s (hs_seat r)) = Some (hs_unit_amount r)) \<and>
     (\<forall>h0\<in>set (db_holds s). \<not> session_hold (perf_organization perf) (perf_pk perf) sk h0 \<longrightarrow>
        h0 \<in> set (db_holds s') \<and> seats_of_hold h0 s' = seats_of_hold h0 s) \<and> holds_wf s'"
proof -
  let ?org = "perf_organization perf"
  let ?P = "session_hold ?org (perf_pk perf) sk"
  let ?rows = "reserved_rows ?org h perf (fromkeys ids) s"
  let ?c = "clear_session_hold ?org perf sk s"
  note e = set_reserved_hold_Inr [OF assms(1)]
  let ?seats = "lock_seats ?org perf (fromkeys ids) s"
  have pk: "hold_pk h = db_next s" and mine: "?P h" and act: "active now h"
    using active_new_hold [of now ?org perf sk u]
    by (simp_all add: e(2) reserved_hold_def session_hold_def active_def, simp_all add: new_hold_def)
  have fresh: "hs_hold r \<noteq> db_next s" if "r \<in> set (db_hold_seats s)" for r
    using that assms(2) hold_rows.fresh_key [of "db_next s" "db_holds s"] by (auto simp: holds_wf_def)
  have rows_hold: "hs_hold r = db_next s" if "r \<in> set (stamp_hold_seats k ?rows)" for r k
  proof -
    from that obtain r0 where "r0 \<in> set ?rows" "hs_hold r = hs_hold r0" by (rule stamped_row)
    then show ?thesis by (auto simp: reserved_rows_def hold_seat_row_def pk)
  qed
  have old: "filter (\<lambda>r. hs_hold r = db_next s) (db_hold_seats ?c) = []"
    using fresh by (auto simp: clear_session_hold_def filter_empty_conv)
  have own: "seats_of_hold h s' = stamp_hold_seats (Suc (db_next s)) ?rows"
    using rows_hold old by (simp add: seats_of_hold_def e(5) pk)
  have seat_map: "map hs_seat (seats_of_hold h s') = map seat_pk ?seats"
    unfolding own by (subst stamp_hold_seats_map) (simp_all add: reserved_rows_def hold_seat_row_def o_def)
  have set_seats: "seat_pk ` set ?seats = set ids"
    using lock_seats_complete [OF assms(3), of "fromkeys ids" perf] e(3) by (auto simp: lock_seats_set)
  have sorted: "map seat_pk ?seats = sort (remdups ids)"
    using lock_seats_keyed [OF assms(3), of ?org perf "fromkeys ids"] set_seats
    by (intro sorted_distinct_set_unique) (simp_all add: strict_sorted_iff)
  have price: "map_option rp_amount (resolve_reserved_prices perf s (hs_seat r)) = Some (hs_unit_amount r)"
    if "r \<in> set (seats_of_hold h s')" for r
  proof -
    from that obtain r0 where r0: "r0 \<in> set ?rows" "hs_seat r = hs_seat r0" "hs_unit_amount r = hs_unit_amount r0"
      unfolding own by (rule stamped_row)
    then obtain seat where "seat \<in> set ?seats" and
      "r0 = hold_seat_row ?org h (the (resolve_reserved_prices perf s (seat_pk seat))) seat"
      by (auto simp: reserved_rows_def)
    with e(4) r0 show ?thesis by (auto simp: hold_seat_row_def)
  qed
  have others: "h0 \<in> set (db_holds s') \<and> seats_of_hold h0 s' = seats_of_hold h0 s"
    if h0: "h0 \<in> set (db_holds s)" "\<not> ?P h0" for h0
  proof -
    have wk: "well_keyed hold_pk (db_next s) (db_holds s)" using assms(2) by (simp add: holds_wf_def)
    have ne: "hold_pk h0 \<noteq> db_next s" using hold_rows.fresh_key [OF wk h0(1)] .
    have "filter (\<lambda>r. hs_hold r = hold_pk h0) (stamp_hold_seats (Suc (db_next s)) ?rows) = []"
      using rows_hold ne by (auto simp: filter_empty_conv)
    moreover have "filter (\<lambda>r. hs_hold r = hold_pk h0) (db_hold_seats ?c) =
        filter (\<lambda>r. hs_hold r = hold_pk h0) (db_hold_seats s)"
      using hold_rows.keyed_inj [OF wk h0(1)] h0(2)
      by (auto simp: clear_session_hold_def delete_rows_def filter_filter intro!: filter_cong) metis
    ultimately show ?thesis using h0 by (simp add: seats_of_hold_def e(5))
  qed
  have "holds_wf s'"
  proof -
    have c: "holds_wf ?c" using clear_holds_wf [OF assms(2)] by (simp add: clear_session_hold_def)
    let ?k = "db_next s'"
    have same: "h\<lparr>hold_pk := db_next s\<rparr> = h" using pk by (cases h) simp
    have "well_keyed hold_pk (Suc (db_next s)) (db_holds s')"
      using c hold_rows.insert_keyed [of "db_next s" "db_holds ?c" h] same
      by (simp add: e(5) holds_wf_def)
    then have "well_keyed hold_pk ?k (db_holds s')" by (rule hold_rows.keyed_mono) (simp add: e(5))
    moreover have "\<exists>h\<in>set (db_holds s'). hold_pk h = hs_hold r" if "r \<in> set (db_hold_seats s')" for r
      using that c rows_hold pk by (auto simp: e(5) holds_wf_def)
    ultimately show ?thesis by (simp add: holds_wf_def)
  qed
  moreover have "get_active_hold ?org perf sk now s' = Some h"
    by (rule active_hold_after_replace [OF _ mine act]) (simp add: e(5))
  ultimately show ?thesis using seat_map sorted price others by simp
qed

theorem reserved_hold_contents_witness:
  "\<exists>h s'. set_reserved_hold 1 matinee ''s1'' None [22, 21, 22] 0 demo = Inr (Some h, s') \<and>
     map hs_seat (seats_of_hold h s') = [21, 22] \<and> (\<forall>r\<in>set (seats_of_hold h s'). hs_unit_amount r = 4000)"
proof -
  have org: "perf_organization matinee = 1" by (simp add: matinee_def)
  have seats: "performance_seats matinee demo = [demo_seat 21 ''1'', demo_seat 22 ''2'', demo_seat 23 ''3'']"
    by (rule matinee_seats) (simp_all add: demo_def)
  have "lock_seats 1 matinee (fromkeys [22, 21, 22]) demo = [demo_seat 21 ''1'', demo_seat 22 ''2'']"
  proof -
    have "in_chart house_chart demo (demo_seat i n)" for i n
      by (simp add: in_chart_def section_of_def get_row_def fixture_defs)
    moreover have "get_seating_chart matinee demo = Some house_chart"
      by (simp add: get_seating_chart_def house_chart_def matinee_def demo_def)
    ultimately show ?thesis
      by (simp add: lock_seats_def) (simp add: demo_def, simp add: demo_seat_def)
  qed
  then obtain s' where r: "set_reserved_hold 1 matinee ''s1'' None [22, 21, 22] 0 demo =
      Inr (Some (reserved_hold 1 matinee ''s1'' None 0 demo), s')"
    using set_reserved_hold_ok [OF demo_wf, of "[22, 21, 22]" 1 matinee "''s1''" 0 None]
    by (auto simp: matinee_prices demo_untaken)
  from reserved_hold_contents [OF r [folded org] demo_wf]
  have "map hs_seat (seats_of_hold (reserved_hold 1 matinee ''s1'' None 0 demo) s') = [21, 22]"
    and "\<forall>r\<in>set (seats_of_hold (reserved_hold 1 matinee ''s1'' None 0 demo) s').
      map_option rp_amount (resolve_reserved_prices matinee demo (hs_seat r)) = Some (hs_unit_amount r)"
    by (simp_all add: org)
  moreover from this(1) have "hs_seat ` set (seats_of_hold (reserved_hold 1 matinee ''s1'' None 0 demo) s') = {21, 22}"
    by (metis list.set_map list.simps(15) set_empty2 empty_set)
  ultimately show ?thesis
    using r by (auto simp: matinee_prices tier_price_def stalls_tier_def)
qed

text \<open>
  The hypothesis is needed: a seat another session holds for the matinee is shown as available for
  the evening, and the request for it is refused as just taken.
\<close>

definition seat_held_for_matinee :: db where
  "seat_held_for_matinee = demo\<lparr>db_next := 102,
     db_holds := [(new_hold 1 matinee ''s1'' None 0)\<lparr>hold_pk := 100\<rparr>],
     db_hold_seats := [\<lparr>hs_pk = 101, hs_organization = 1, hs_hold = 100, hs_seat = 21,
       hs_price_tier = Some 52, hs_pricing_zone = None, hs_unit_amount = 4000\<rparr>]\<rparr>"

lemma cross_performance_hold_blocks:
  "(21, AVAILABLE) \<in> set (reserved_seat_states evening (Some ''s2'') 5 seat_held_for_matinee) \<and>
   set_reserved_hold 1 evening ''s2'' None [21] 5 seat_held_for_matinee = Inl (HoldErr (SeatsJustTaken [21]))"
proof -
  let ?s = seat_held_for_matinee
  have seats: "performance_seats evening ?s = [demo_seat 21 ''1'', demo_seat 22 ''2'', demo_seat 23 ''3'']"
    by (rule matinee_seats) (simp_all add: seat_held_for_matinee_def demo_def)
  have t: "ticketed_ids p ?s = {}" "blocked_ids p ?s = {}" for p
    by (simp_all add: ticketed_ids_def blocked_ids_def seat_held_for_matinee_def demo_def List.map_filter_def)
  have h: "held_by_others_ids ''s2'' 5 ?s = {21}" "held_ids 33 m 5 ?s = {}" for m
    by (simp_all add: held_by_others_ids_def held_ids_def hold_of_seat_def get_row_def seat_held_for_matinee_def
        new_hold_def active_def default_hold_expiry_def time_defs matinee_def)
  have l: "lock_seats 1 evening [21] ?s = [demo_seat 21 ''1'']"
  proof -
    have "in_chart house_chart ?s (demo_seat i n)" for i n
      by (simp add: in_chart_def section_of_def get_row_def seat_held_for_matinee_def fixture_defs)
    moreover have "get_seating_chart evening ?s = Some house_chart"
      by (simp add: get_seating_chart_def get_row_def house_chart_def evening_def seat_held_for_matinee_def demo_def)
    ultimately show ?thesis
      by (simp add: lock_seats_def) (simp add: seat_held_for_matinee_def demo_def, simp add: demo_seat_def)
  qed
  have "perf_pk evening = 33" by (simp add: evening_def)
  with seats t h l show ?thesis
    by (simp add: seat_states_iff set_reserved_hold_def)
qed

end
