(* ===== verification/Promotions.thy ===== *)
theory Promotions
  imports Fixture
begin

text \<open>
  promotions/models.py and promotions/services.py: a promo code, its lookup, the one decision
  whether it may be applied to a cart, the discount it takes off, and the count of its paid uses.
  A percentage and a flat value are both stored as hundredths.
\<close>

section \<open>The code\<close>

text \<open>\<open>PromoCode.save\<close> and \<open>get_usable_code\<close> normalize alike: strip, then upper-case.\<close>

definition normalize_code :: "string \<Rightarrow> string" where
  "normalize_code code = upper (strip code)"

definition create_promo :: "promo_code \<Rightarrow> db \<Rightarrow> error + (promo_code \<times> db)" where
  "create_promo p s =
     (let p' = p\<lparr>promo_pk := db_next s, promo_code_text := normalize_code (promo_code_text p)\<rparr>
      in if \<exists>x\<in>set (db_promos s). promo_organization x = promo_organization p' \<and>
              promo_code_text x = promo_code_text p'
           then Inl (PyErr (IntegrityError UniquePromoCode))
         else if promo_value p < 0 then Inl (PyErr (IntegrityError PromoValueNonnegative))
         else Inr (p', s\<lparr>db_promos := db_promos s @ [p'], db_next := Suc (db_next s)\<rparr>))"

definition get_usable_code :: "nat \<Rightarrow> string \<Rightarrow> db \<Rightarrow> promo_code option" where
  "get_usable_code organization code s =
     (let normalized = normalize_code code
      in if normalized = '''' then None
         else first_row (filter (\<lambda>p. promo_organization p = organization \<and>
                                      promo_code_text p = normalized) (db_promos s)))"

section \<open>The discount\<close>

definition compute_discount :: "promo_code \<Rightarrow> cents \<Rightarrow> cents" where
  "compute_discount promo subtotal =
     (let discount = (case promo_kind promo of
          PERCENT \<Rightarrow> round_half_up (subtotal * promo_value promo) 10000
        | FIXED \<Rightarrow> min (promo_value promo) subtotal)
      in if discount < 0 then 0 else discount)"

definition validate_code :: "promo_code \<Rightarrow> cents \<Rightarrow> string \<Rightarrow> time \<Rightarrow> error + unit" where
  "validate_code promo subtotal currency now =
     (if \<not> promo_is_active promo then Inl (PromoErr PromoInactive)
      else if (case promo_starts_at promo of None \<Rightarrow> False | Some t \<Rightarrow> now < t)
        then Inl (PromoErr PromoNotYetActive)
      else if (case promo_ends_at promo of None \<Rightarrow> False | Some t \<Rightarrow> t < now)
        then Inl (PromoErr PromoExpired)
      else if (case promo_max_redemptions promo of None \<Rightarrow> False
               | Some m \<Rightarrow> m \<le> promo_redemption_count promo)
        then Inl (PromoErr PromoLimitReached)
      else if (case promo_min_order_amount promo of None \<Rightarrow> False | Some m \<Rightarrow> subtotal < m)
        then Inl (PromoErr (PromoUnderMinimum (the (promo_min_order_amount promo)) (upper currency)))
      else if promo_kind promo = FIXED \<and> promo_currency promo \<noteq> '''' \<and>
              upper (promo_currency promo) \<noteq> upper currency
        then Inl (PromoErr PromoWrongCurrency)
      else if subtotal \<le> compute_discount promo subtotal
        then Inl (PromoErr PromoSwallowsOrder)
      else Inr ())"

text \<open>\<open>filter(pk=promo.pk).update(redemption_count=F("redemption_count") + 1)\<close>.\<close>

definition record_redemption :: "nat \<Rightarrow> db \<Rightarrow> db" where
  "record_redemption promo s =
     s\<lparr>db_promos := update_rows (\<lambda>p. promo_pk p = promo)
         (\<lambda>p. p\<lparr>promo_redemption_count := promo_redemption_count p + 1\<rparr>) (db_promos s)\<rparr>"

section \<open>Lemmas\<close>

lemma normalize_idem [simp]: "normalize_code (normalize_code c) = normalize_code c"
  by (simp add: normalize_code_def strip_upper)

lemma normalize_strip [simp]: "normalize_code (strip c) = normalize_code c"
  by (simp add: normalize_code_def)

lemma normalize_upper [simp]: "normalize_code (upper c) = normalize_code c"
  by (simp add: normalize_code_def strip_upper)

lemma upper_lower [simp]: "upper (lower s) = upper s"
  by (auto simp: upper_def lower_def upper_char_def lower_char_def code_pt_def)

lemma normalize_lower [simp]: "normalize_code (lower c) = normalize_code c"
  by (simp add: normalize_code_def strip_lower)

lemma compute_discount_nonneg: "0 \<le> compute_discount promo subtotal"
  by (simp add: compute_discount_def Let_def)

lemma compute_discount_percent:
  "promo_kind p = PERCENT \<Longrightarrow> 0 \<le> promo_value p \<Longrightarrow> 0 \<le> t \<Longrightarrow>
     compute_discount p t = round_half_up (t * promo_value p) 10000"
  by (simp add: compute_discount_def Let_def not_less round_half_up_nonneg)

lemma compute_discount_fixed:
  "promo_kind p = FIXED \<Longrightarrow> 0 \<le> promo_value p \<Longrightarrow> 0 \<le> t \<Longrightarrow>
     compute_discount p t = min (promo_value p) t"
  by (auto simp: compute_discount_def Let_def)

lemma validate_code_Inr:
  assumes "validate_code p t c now = Inr ()"
  shows "promo_is_active p" "\<And>x. promo_starts_at p = Some x \<Longrightarrow> x \<le> now"
    "\<And>x. promo_ends_at p = Some x \<Longrightarrow> now \<le> x"
    "\<And>m. promo_max_redemptions p = Some m \<Longrightarrow> promo_redemption_count p < m"
    "\<And>m. promo_min_order_amount p = Some m \<Longrightarrow> m \<le> t"
    "promo_kind p = FIXED \<Longrightarrow> promo_currency p \<noteq> '''' \<Longrightarrow> upper (promo_currency p) = upper c"
    "compute_discount p t < t"
  using assms by (auto simp: validate_code_def split: if_splits option.splits)

lemma get_usable_code_Some:
  assumes "get_usable_code org code s = Some p"
  shows "p \<in> set (db_promos s)" "promo_organization p = org" "promo_code_text p = normalize_code code"
proof -
  have "p \<in> set (filter (\<lambda>p. promo_organization p = org \<and> promo_code_text p = normalize_code code)
      (db_promos s))"
    using assms by (auto simp: get_usable_code_def Let_def dest: first_row_Some split: if_splits)
  then show "p \<in> set (db_promos s)" "promo_organization p = org"
    "promo_code_text p = normalize_code code" by auto
qed

section \<open>Properties\<close>

text \<open>
  A code that passes validation leaves something to charge: on a cart of any size the
  discount is non-negative and strictly below the subtotal, so the net charge is positive.
\<close>

theorem validated_discount_leaves_a_charge:
  assumes "validate_code promo subtotal currency now = Inr ()"
  shows "0 \<le> compute_discount promo subtotal \<and> 0 < subtotal - compute_discount promo subtotal"
  using validate_code_Inr(7) [OF assms] compute_discount_nonneg [of promo subtotal] by simp

lemma ten_percent_valid: "validate_code ten_percent 1005 ''USD'' 50 = Inr ()"
  by (simp add: validate_code_def ten_percent_def compute_discount_def round_half_up_def Let_def time_defs)

theorem validated_discount_leaves_a_charge_witness:
  "validate_code ten_percent 1005 ''USD'' 50 = Inr () \<and>
   0 \<le> compute_discount ten_percent 1005 \<and> 0 < 1005 - compute_discount ten_percent 1005"
  using validated_discount_leaves_a_charge [OF ten_percent_valid] ten_percent_valid by simp

text \<open>
  A percentage discount is the exact percentage rounded to the nearest cent, with a
  tie rounded up: it differs from \<open>subtotal * value / 100\<close> by at most half a cent.
\<close>

theorem percent_discount_is_nearest_cent:
  assumes "promo_kind promo = PERCENT" and "0 \<le> promo_value promo" and "0 \<le> subtotal"
  shows "2 * (subtotal * promo_value promo) - 10000 < 2 * 10000 * compute_discount promo subtotal \<and>
     2 * 10000 * compute_discount promo subtotal \<le> 2 * (subtotal * promo_value promo) + 10000"
  using round_half_up_bounds [of 10000 "subtotal * promo_value promo"] assms
  by (simp add: compute_discount_percent)

theorem percent_discount_is_nearest_cent_witness:
  "promo_kind ten_percent = PERCENT \<and>
   2 * (1005 * promo_value ten_percent) - 10000 < 2 * 10000 * compute_discount ten_percent 1005 \<and>
   2 * 10000 * compute_discount ten_percent 1005 \<le> 2 * (1005 * promo_value ten_percent) + 10000"
  using percent_discount_is_nearest_cent [of ten_percent 1005] by (simp add: ten_percent_def)

text \<open>
  Adding to a cart never lowers what it costs: with a percentage of at most 100, or a
  flat amount, the net charge is monotone in the subtotal.
\<close>

lemma percent_step:
  assumes "0 \<le> v" "v \<le> 10000" "0 \<le> a" "a \<le> b"
  shows "round_half_up (b * v) 10000 \<le> round_half_up (a * v) 10000 + (b - a)"
proof -
  have le: "(b - a) * v \<le> (b - a) * 10000" using assms by (intro mult_left_mono) simp_all
  have nn: "0 \<le> a * v" "0 \<le> b * v" using assms by simp_all
  have "2 * (b * v) + 10000 \<le> (2 * (a * v) + 10000) + (b - a) * (2 * 10000)"
    using le by (simp add: algebra_simps)
  then have "(2 * (b * v) + 10000) div (2 * 10000) \<le>
      ((2 * (a * v) + 10000) + (b - a) * (2 * 10000)) div (2 * 10000)"
    by (rule zdiv_mono1) simp
  also have "\<dots> = (b - a) + (2 * (a * v) + 10000) div (2 * 10000)"
    by (rule div_mult_self1) simp
  finally show ?thesis using nn by (simp add: round_half_up_def)
qed

theorem net_charge_monotone:
  assumes "0 \<le> promo_value promo" and "promo_kind promo = PERCENT \<longrightarrow> promo_value promo \<le> 10000"
    and "0 \<le> a" and "a \<le> b"
  shows "a - compute_discount promo a \<le> b - compute_discount promo b"
proof (cases "promo_kind promo")
  case PERCENT
  then show ?thesis
    using assms percent_step [of "promo_value promo" a b] by (simp add: compute_discount_percent)
next
  case FIXED
  then show ?thesis using assms by (simp add: compute_discount_fixed)
qed

theorem net_charge_monotone_witness:
  "1005 - compute_discount ten_percent 1005 \<le> 2000 - compute_discount ten_percent 2000"
  using net_charge_monotone [of ten_percent 1005 2000] by (simp add: ten_percent_def)

text \<open>
  Storing a code and looking it up is a round trip that ignores case and surrounding
  blanks and never leaves the tenant: any spelling with the same normal form finds the stored row
  for its own organization, and no lookup returns a row of another organization.
\<close>

theorem promo_lookup_roundtrip:
  assumes "create_promo p s = Inr (p', s')"
    and "normalize_code typed = normalize_code (promo_code_text p)"
    and "normalize_code typed \<noteq> ''''"
  shows "get_usable_code (promo_organization p) typed s' = Some p' \<and>
     (\<forall>org q. get_usable_code org typed s' = Some q \<longrightarrow> promo_organization q = org)"
proof -
  let ?P = "\<lambda>q. promo_organization q = promo_organization p \<and> promo_code_text q = normalize_code typed"
  from assms(1,2) have p': "p' = p\<lparr>promo_pk := db_next s, promo_code_text := normalize_code typed\<rparr>"
    and s': "db_promos s' = db_promos s @ [p']"
    and none: "filter ?P (db_promos s) = []"
    by (auto simp: create_promo_def Let_def filter_empty_conv split: if_splits)
  have "filter ?P (db_promos s') = [p']" by (simp add: s' none, simp add: p')
  then have "get_usable_code (promo_organization p) typed s' = Some p'"
    using assms(3) by (simp add: get_usable_code_def Let_def)
  then show ?thesis using get_usable_code_Some(2) by blast
qed

text \<open>A second code for the house, typed in mixed case with a stray blank.\<close>

definition winter :: promo_code where
  "winter = ten_percent\<lparr>promo_code_text := '' Winter ''\<rparr>"

lemma winter_normalized: "normalize_code '' Winter '' = ''WINTER''" "normalize_code ''wINTER'' = ''WINTER''"
  by code_simp+

lemma winter_stored:
  "create_promo winter demo =
     Inr (winter\<lparr>promo_pk := 100, promo_code_text := ''WINTER''\<rparr>,
          demo\<lparr>db_promos := [ten_percent, winter\<lparr>promo_pk := 100, promo_code_text := ''WINTER''\<rparr>],
               db_next := 101\<rparr>)"
  by (simp add: create_promo_def Let_def winter_def ten_percent_def demo_def winter_normalized)

theorem promo_lookup_roundtrip_witness:
  "\<exists>p' s'. create_promo winter demo = Inr (p', s') \<and>
     get_usable_code 1 ''wINTER'' s' = Some p' \<and> promo_pk p' = 100"
proof -
  have n: "normalize_code ''wINTER'' = normalize_code (promo_code_text winter)"
    "normalize_code ''wINTER'' \<noteq> ''''"
    by (simp_all add: winter_def winter_normalized)
  show ?thesis
    using promo_lookup_roundtrip [OF winter_stored n] winter_stored
    by (auto simp: winter_def ten_percent_def)
qed

end
