(* ===== verification/Donations.thy ===== *)
theory Donations
  imports Fixture
begin

text \<open>
  donations/models.py, donations/services.py and the validation of donations/views.py: the single
  general fund of a theater, the switch that shows the donation page, the suggested amounts and
  the check of a typed amount. An amount that Python's \<open>decimal\<close> cannot quantize or compare
  raises \<open>InvalidOperation\<close>; where the code does not catch it, it is the outcome.
\<close>

section \<open>The code\<close>

definition campaigns_of :: "nat \<Rightarrow> db \<Rightarrow> donation_campaign list" where
  "campaigns_of organization s =
     order_by (\<lambda>c. (camp_created_at c, camp_pk c))
       (filter (\<lambda>c. camp_organization c = organization) (db_campaigns s))"

definition get_or_create_general_fund :: "nat \<Rightarrow> time \<Rightarrow> db \<Rightarrow> donation_campaign \<times> db" where
  "get_or_create_general_fund organization now s =
     (case first_row (campaigns_of organization s) of
        Some c \<Rightarrow> (c, s)
      | None \<Rightarrow>
          (let c = \<lparr>camp_pk = db_next s, camp_organization = organization, camp_name = ''General Fund'',
                    camp_acknowledgment = '''', camp_suggested_amounts = ''10,25,50,100'',
                    camp_is_active = True, camp_created_at = now\<rparr>
           in (c, s\<lparr>db_campaigns := db_campaigns s @ [c], db_next := Suc (db_next s)\<rparr>)))"

text \<open>\<open>_active_campaign_or_404\<close> (none: the page is a 404) and the \<open>donation_nav\<close> flag.\<close>

definition active_campaign_or_404 :: "nat \<Rightarrow> db \<Rightarrow> donation_campaign option" where
  "active_campaign_or_404 organization s =
     first_row (order_by (\<lambda>c. (camp_created_at c, camp_pk c))
       (filter (\<lambda>c. camp_organization c = organization \<and> camp_is_active c) (db_campaigns s)))"

definition donation_nav :: "nat option \<Rightarrow> db \<Rightarrow> bool" where
  "donation_nav organization s =
     (case organization of
        None \<Rightarrow> False
      | Some org \<Rightarrow> qs_exists (\<lambda>c. camp_organization c = org \<and> camp_is_active c) (db_campaigns s))"

text \<open>\<open>value > 0\<close> on a Decimal: a comparison with a NaN raises.\<close>

definition decimal_positive :: "decimal \<Rightarrow> bool option" where
  "decimal_positive d =
     (case d of Fin c e \<Rightarrow> Some (0 < c) | Infinity neg \<Rightarrow> Some (\<not> neg) | NaN \<Rightarrow> None | SNaN \<Rightarrow> None)"

fun suggested_loop :: "string list \<Rightarrow> error + decimal list" where
  "suggested_loop [] = Inr []"
| "suggested_loop (chunk # chunks) =
     (case (if strip chunk = '''' then None else parse_decimal (strip chunk)) of
        None \<Rightarrow> suggested_loop chunks
      | Some v \<Rightarrow>
          bindE (or_raise (decimal_positive v) (PyErr InvalidOperation)) (\<lambda>pos.
          bindE (suggested_loop chunks) (\<lambda>rest. Inr (if pos then v # rest else rest))))"

definition suggested_amount_list :: "donation_campaign \<Rightarrow> error + decimal list" where
  "suggested_amount_list c = suggested_loop (split_on (CHR '','') (camp_suggested_amounts c))"

text \<open>
  \<open>_parse_amount\<close>: a refusal shown to the donor (\<open>Inr (Inl _)\<close>) or the amount
  (\<open>Inr (Inr _)\<close>); \<open>Inl\<close> is an exception that leaves the view.
\<close>

definition MAX_DONATION :: cents where "MAX_DONATION = 1000000"

definition parse_amount :: "string \<Rightarrow> error + (hold_error + cents)" where
  "parse_amount raw =
     (case parse_decimal (strip raw) of
        None \<Rightarrow> Inr (Inl DonationInvalid)
      | Some d \<Rightarrow>
          (case quantize_cents d of
             None \<Rightarrow> Inl (PyErr InvalidOperation)
           | Some QuietNaN \<Rightarrow> Inl (PyErr InvalidOperation)
           | Some (Cents a) \<Rightarrow>
               Inr (if a \<le> 0 then Inl DonationNotPositive
                    else if MAX_DONATION < a then Inl DonationOverCap else Inr a)))"

section \<open>Lemmas\<close>

lemma general_fund_found:
  assumes "get_or_create_general_fund org now s = (c, s')"
  shows "first_row (campaigns_of org s') = Some c"
proof (cases "first_row (campaigns_of org s)")
  case None
  then have "filter (\<lambda>c. camp_organization c = org) (db_campaigns s) = []"
    by (simp add: campaigns_of_def order_by_def) (metis length_0_conv length_sort list.size(3))
  with None assms show ?thesis
    by (auto simp: get_or_create_general_fund_def Let_def campaigns_of_def order_by_def)
next
  case (Some c0)
  with assms show ?thesis by (auto simp: get_or_create_general_fund_def)
qed

lemma sorted_first_exists: "first_row (order_by k rs) \<noteq> None \<longleftrightarrow> rs \<noteq> []"
  by (simp add: order_by_def) (metis length_0_conv length_sort)

lemma donation_page_matches_nav: "active_campaign_or_404 org s \<noteq> None \<longleftrightarrow> donation_nav (Some org) s"
  unfolding active_campaign_or_404_def sorted_first_exists
  by (auto simp: donation_nav_def filter_empty_conv)

lemma strip_show_cents [simp]: "0 \<le> a \<Longrightarrow> parse_decimal (strip (show_cents a)) = Some (Fin a (-2))"
  using parse_show_cents [of a] by (simp add: parse_decimal_def)

lemma parse_amount_range:
  "parse_amount raw = Inr (Inr a) \<Longrightarrow> 0 < a \<and> a \<le> MAX_DONATION"
  by (auto simp: parse_amount_def split: option.splits quantized.splits if_splits)

section \<open>Properties\<close>

text \<open>
  A theater has one general fund: asking for it again, at any later time, returns the
  same campaign and writes nothing, and the fund belongs to the theater asked for.
\<close>

theorem general_fund_is_idempotent:
  assumes "get_or_create_general_fund org now s = (c, s')"
  shows "get_or_create_general_fund org later s' = (c, s') \<and> camp_organization c = org"
proof -
  from first_row_Some [OF general_fund_found [OF assms]] have "camp_organization c = org"
    by (simp add: campaigns_of_def order_by_def)
  then show ?thesis
    using general_fund_found [OF assms] by (simp add: get_or_create_general_fund_def)
qed

theorem general_fund_is_idempotent_witness:
  "let (c, s') = get_or_create_general_fund 2 5 demo in
   get_or_create_general_fund 2 9 s' = (c, s') \<and> camp_organization c = 2"
proof -
  obtain c s' where r: "get_or_create_general_fund 2 5 demo = (c, s')"
    by (cases "get_or_create_general_fund 2 5 demo")
  from general_fund_is_idempotent [OF r, of 9] show ?thesis by (simp add: r)
qed

text \<open>
  The amount a donor is charged is the amount typed, within the cap: every amount in
  whole cents from 0.01 to 10000.00, written out in decimal, is accepted as exactly that amount,
  one of 0 or above the cap is refused, and no input at all is accepted outside those bounds.
\<close>

theorem donation_amount_roundtrip:
  assumes "0 \<le> a" and "a < 10 ^ 28"
  shows "parse_amount (show_cents a) =
       Inr (if a = 0 then Inl DonationNotPositive
            else if MAX_DONATION < a then Inl DonationOverCap else Inr a) \<and>
     (\<forall>raw b. parse_amount raw = Inr (Inr b) \<longrightarrow> 0 < b \<and> b \<le> MAX_DONATION)"
  using assms parse_amount_range by (simp add: parse_amount_def quantize_cents_exact)

theorem donation_amount_roundtrip_witness:
  "parse_amount (show_cents 2550) = Inr (Inr 2550) \<and>
   parse_amount (show_cents 1000001) = Inr (Inl DonationOverCap)"
  using donation_amount_roundtrip [of 2550] donation_amount_roundtrip [of 1000001]
  by (simp add: MAX_DONATION_def)

text \<open>
  Inputs on which the validation raises instead of refusing: an infinity or a NaN, which
  \<open>Decimal\<close> accepts, and a NaN among the suggested amounts.
\<close>

lemma donation_special_values_raise:
  "parse_amount ''Infinity'' = Inl (PyErr InvalidOperation) \<and>
   parse_amount ''nan'' = Inl (PyErr InvalidOperation) \<and>
   suggested_amount_list (general_fund\<lparr>camp_suggested_amounts := ''10,nan''\<rparr>) = Inl (PyErr InvalidOperation)"
proof -
  have "parse_decimal (strip ''Infinity'') = Some (Infinity False)"
    "parse_decimal (strip ''nan'') = Some NaN"
    "suggested_loop (split_on (CHR '','') ''10,nan'') = Inl (PyErr InvalidOperation)"
    by code_simp+
  then show ?thesis
    by (simp add: parse_amount_def quantize_cents_def suggested_amount_list_def)
qed

text \<open>Blank, unparseable and non-positive suggestions are skipped, as documented.\<close>

lemma suggested_amounts_example:
  "suggested_loop (split_on (CHR '','') ''10,,abc,-5,25'') = Inr [Fin 10 0, Fin 25 0]"
  by code_simp

end
