(* ===== verification/Cart.thy ===== *)
theory Cart
  imports SeatHolds Promotions Donations
begin

text \<open>
  orders/services.py, the money of a cart: the gross total of a hold, its charge currency, the
  frozen discount and donation, the net amount to charge, and the transactions that apply or clear
  a promo code and a donation. Every amount the checkout charges is read from the hold, so that
  nothing edited after the hold was taken can move it.
\<close>

section \<open>The amounts of a hold\<close>

definition tier_at :: "nat \<Rightarrow> db \<Rightarrow> price_tier option" where
  "tier_at k s = get_row tier_pk k (db_tiers s)"

definition ga_unit_amount :: "hold \<Rightarrow> db \<Rightarrow> error + cents" where
  "ga_unit_amount h s =
     (case hold_ga_unit_amount h of
        Some a \<Rightarrow> Inr a
      | None \<Rightarrow>
          (case hold_price_tier h of
             None \<Rightarrow> Inl (PyErr AttributeError)
           | Some k \<Rightarrow> bindE (or_raise (tier_at k s) (PyErr DoesNotExist)) (\<lambda>t. Inr (tier_amount t))))"

definition is_ga :: "hold \<Rightarrow> bool" where
  "is_ga h \<longleftrightarrow> hold_price_tier h \<noteq> None \<and> hold_quantity h \<noteq> None \<and> hold_quantity h \<noteq> Some 0"

definition hold_total :: "hold \<Rightarrow> db \<Rightarrow> error + cents" where
  "hold_total h s =
     (if is_ga h then bindE (ga_unit_amount h s) (\<lambda>u. Inr (u * the (hold_quantity h)))
      else Inr (sum_list (map hs_unit_amount (seats_of_hold h s))))"

definition org_at :: "nat \<Rightarrow> db \<Rightarrow> organization option" where
  "org_at k s = get_row org_pk k (db_orgs s)"

definition hold_currency :: "hold \<Rightarrow> db \<Rightarrow> error + string" where
  "hold_currency h s =
     (case hold_price_tier h of
        Some k \<Rightarrow> bindE (or_raise (tier_at k s) (PyErr DoesNotExist)) (\<lambda>t. Inr (tier_currency t))
      | None \<Rightarrow>
          (case map_option hs_price_tier (first_row (seats_of_hold h s)) of
             Some (Some k) \<Rightarrow> bindE (or_raise (tier_at k s) (PyErr DoesNotExist)) (\<lambda>t. Inr (tier_currency t))
           | _ \<Rightarrow> bindE (or_raise (org_at (hold_organization h) s) (PyErr DoesNotExist)) (\<lambda>o'. Inr (org_currency o'))))"

definition hold_discount :: "hold \<Rightarrow> cents" where
  "hold_discount h = (case hold_discount_amount h of None \<Rightarrow> 0 | Some d \<Rightarrow> d)"

definition hold_donation :: "hold \<Rightarrow> cents" where
  "hold_donation h = (case hold_donation_amount h of None \<Rightarrow> 0 | Some d \<Rightarrow> d)"

definition hold_grand_total :: "hold \<Rightarrow> db \<Rightarrow> error + cents" where
  "hold_grand_total h s =
     bindE (hold_total h s) (\<lambda>t. Inr (max (t - hold_discount h) 0 + hold_donation h))"

section \<open>Promo code and donation\<close>

text \<open>
  \<open>hold_id\<close> is \<open>None\<close> when the posted value is no integer. The apply and set transactions look
  for an unexpired hold of the session, the remove and clear ones for any.
\<close>

definition cart_hold :: "nat \<Rightarrow> string \<Rightarrow> nat option \<Rightarrow> db \<Rightarrow> hold option" where
  "cart_hold organization session_key hold_id s =
     first_row (filter (\<lambda>h. hold_organization h = organization \<and> hold_session_key h = session_key \<and>
       Some (hold_pk h) = hold_id) (db_holds s))"

definition active_cart_hold :: "nat \<Rightarrow> string \<Rightarrow> nat option \<Rightarrow> time \<Rightarrow> db \<Rightarrow> hold option" where
  "active_cart_hold organization session_key hold_id now s =
     first_row (filter (\<lambda>h. hold_organization h = organization \<and> hold_session_key h = session_key \<and>
       Some (hold_pk h) = hold_id \<and> active now h) (db_holds s))"

definition save_hold :: "hold \<Rightarrow> (hold \<Rightarrow> hold) \<Rightarrow> db \<Rightarrow> db" where
  "save_hold h cols s = s\<lparr>db_holds := update_rows (\<lambda>x. hold_pk x = hold_pk h) cols (db_holds s)\<rparr>"

definition snap_promo :: "promo_code \<Rightarrow> cents \<Rightarrow> hold \<Rightarrow> hold" where
  "snap_promo p d h = h\<lparr>hold_promo_code := Some (promo_pk p), hold_promo_code_text := promo_code_text p,
     hold_discount_amount := Some d\<rparr>"

definition apply_promo_code ::
    "nat \<Rightarrow> string \<Rightarrow> nat option \<Rightarrow> string \<Rightarrow> time \<Rightarrow> db \<Rightarrow> error + (hold \<times> db)" where
  "apply_promo_code organization session_key hold_id code now s =
     bindE (or_raise (active_cart_hold organization session_key hold_id now s) (PromoErr PromoSelectionExpired)) (\<lambda>h.
     bindE (or_raise (get_usable_code organization code s) (PromoErr PromoUnknown)) (\<lambda>promo.
     bindE (hold_currency h s) (\<lambda>currency.
     bindE (hold_total h s) (\<lambda>subtotal.
     bindE (validate_code promo subtotal currency now) (\<lambda>_.
     let snap = snap_promo promo (compute_discount promo subtotal)
     in Inr (snap h, save_hold h snap s))))))"

definition clear_promo :: "hold \<Rightarrow> hold" where
  "clear_promo h = h\<lparr>hold_promo_code := None, hold_promo_code_text := '''', hold_discount_amount := None\<rparr>"

definition remove_promo_code :: "nat \<Rightarrow> string \<Rightarrow> nat option \<Rightarrow> db \<Rightarrow> db" where
  "remove_promo_code organization session_key hold_id s =
     (case cart_hold organization session_key hold_id s of None \<Rightarrow> s | Some h \<Rightarrow> save_hold h clear_promo s)"

definition MAX_HOLD_DONATION :: cents where "MAX_HOLD_DONATION = 1000000"

definition set_hold_donation ::
    "nat \<Rightarrow> string \<Rightarrow> nat option \<Rightarrow> string \<Rightarrow> nat option \<Rightarrow> time \<Rightarrow> db \<Rightarrow> error + (hold \<times> db)" where
  "set_hold_donation organization session_key hold_id amount campaign now s =
     bindE (or_raise (active_cart_hold organization session_key hold_id now s) (HoldErr SelectionExpired)) (\<lambda>h.
     case (case parse_decimal amount of None \<Rightarrow> None | Some d \<Rightarrow> quantize_cents d) of
       None \<Rightarrow> Inl (HoldErr DonationInvalid)
     | Some QuietNaN \<Rightarrow> Inl (PyErr InvalidOperation)
     | Some (Cents a) \<Rightarrow>
         if a \<le> 0 then Inl (HoldErr DonationNotPositive)
         else if MAX_HOLD_DONATION < a then Inl (HoldErr DonationOverCap)
         else let snap = (\<lambda>h. h\<lparr>hold_donation_amount := Some a, hold_donation_campaign := campaign\<rparr>)
              in Inr (snap h, save_hold h snap s))"

definition clear_hold_donation :: "nat \<Rightarrow> string \<Rightarrow> nat option \<Rightarrow> db \<Rightarrow> db" where
  "clear_hold_donation organization session_key hold_id s =
     (case cart_hold organization session_key hold_id s of
        None \<Rightarrow> s
      | Some h \<Rightarrow> save_hold h (\<lambda>h. h\<lparr>hold_donation_amount := None, hold_donation_campaign := None\<rparr>) s)"

section \<open>Lemmas\<close>

text \<open>The columns that decide what a hold is and costs; promo and donation writes keep them.\<close>

definition money_only :: "(hold \<Rightarrow> hold) \<Rightarrow> bool" where
  "money_only f \<longleftrightarrow> (\<forall>h. hold_pk (f h) = hold_pk h \<and> hold_organization (f h) = hold_organization h \<and>
     hold_performance (f h) = hold_performance h \<and> hold_session_key (f h) = hold_session_key h \<and>
     hold_expires_at (f h) = hold_expires_at h \<and> hold_price_tier (f h) = hold_price_tier h \<and>
     hold_quantity (f h) = hold_quantity h \<and> hold_ga_unit_amount (f h) = hold_ga_unit_amount h \<and>
     hold_created_at (f h) = hold_created_at h)"

lemma money_only_snaps [simp]:
  "money_only (snap_promo p d)" "money_only clear_promo"
  "money_only (\<lambda>h. h\<lparr>hold_donation_amount := a, hold_donation_campaign := c\<rparr>)"
  by (simp_all add: money_only_def snap_promo_def clear_promo_def)

lemma save_hold_simps [simp]:
  "db_holds (save_hold h f s) = update_rows (\<lambda>x. hold_pk x = hold_pk h) f (db_holds s)"
  "db_hold_seats (save_hold h f s) = db_hold_seats s" "db_tiers (save_hold h f s) = db_tiers s"
  "db_orgs (save_hold h f s) = db_orgs s" "db_promos (save_hold h f s) = db_promos s"
  "db_next (save_hold h f s) = db_next s" "db_allocations (save_hold h f s) = db_allocations s"
  "db_tickets (save_hold h f s) = db_tickets s"
  by (simp_all add: save_hold_def)

lemma save_hold_money:
  assumes "money_only f"
  shows "hold_total (f x) (save_hold h f s) = hold_total x s"
    "hold_currency (f x) (save_hold h f s) = hold_currency x s"
proof -
  have cols: "hold_price_tier (f x) = hold_price_tier x" "hold_quantity (f x) = hold_quantity x"
    "hold_ga_unit_amount (f x) = hold_ga_unit_amount x" "hold_organization (f x) = hold_organization x"
    "hold_pk (f x) = hold_pk x"
    using assms by (simp_all add: money_only_def)
  have rows: "tier_at k (save_hold h f s) = tier_at k s" "org_at k (save_hold h f s) = org_at k s"
    "seats_of_hold (f x) (save_hold h f s) = seats_of_hold x s" for k
    using cols by (simp_all add: tier_at_def org_at_def seats_of_hold_def)
  show "hold_total (f x) (save_hold h f s) = hold_total x s"
    by (simp add: hold_total_def is_ga_def ga_unit_amount_def cols rows split: option.split)
  show "hold_currency (f x) (save_hold h f s) = hold_currency x s"
    by (simp add: hold_currency_def cols rows split: option.split)
qed

lemma first_filter_update:
  assumes "\<And>x. Q (f x) = Q x"
  shows "first_row (filter Q (update_rows P f rs)) = map_option (\<lambda>x. if P x then f x else x) (first_row (filter Q rs))"
  using assms by (induction rs) (auto simp: update_rows_def)

lemma active_cart_save:
  assumes "money_only f" and "active_cart_hold org sk hid now s = Some h"
  shows "active_cart_hold org sk hid now (save_hold h f s) = Some (f h)"
  using assms by (simp add: active_cart_hold_def money_only_def active_def first_filter_update)

lemma active_cart_Some:
  "active_cart_hold org sk hid now s = Some h \<Longrightarrow>
     h \<in> set (db_holds s) \<and> hold_organization h = org \<and> hold_session_key h = sk \<and> hid = Some (hold_pk h) \<and> active now h"
  by (auto simp: active_cart_hold_def dest!: first_row_Some)

lemma apply_promo_Inr:
  assumes "apply_promo_code org sk hid code now s = Inr (h', s')"
  obtains h p cur t where "active_cart_hold org sk hid now s = Some h" "get_usable_code org code s = Some p"
    "hold_currency h s = Inr cur" "hold_total h s = Inr t" "validate_code p t cur now = Inr ()"
    "h' = snap_promo p (compute_discount p t) h" "s' = save_hold h (snap_promo p (compute_discount p t)) s"
  using assms by (auto simp: apply_promo_code_def Let_def)

lemma set_donation_Inr:
  assumes "set_hold_donation org sk hid amount camp now s = Inr (h', s')"
  obtains h a d where "active_cart_hold org sk hid now s = Some h" "parse_decimal amount = Some d"
    "quantize_cents d = Some (Cents a)" "0 < a" "a \<le> MAX_HOLD_DONATION"
    "h' = h\<lparr>hold_donation_amount := Some a, hold_donation_campaign := camp\<rparr>"
    "s' = save_hold h (\<lambda>h. h\<lparr>hold_donation_amount := Some a, hold_donation_campaign := camp\<rparr>) s"
proof -
  from assms obtain h where h: "active_cart_hold org sk hid now s = Some h"
    by (auto simp: set_hold_donation_def)
  show ?thesis
  proof (cases "parse_decimal amount")
    case None
    with assms h show ?thesis by (simp add: set_hold_donation_def)
  next
    case (Some d)
    with assms h that show ?thesis
      by (cases "quantize_cents d")
        (auto simp: set_hold_donation_def Let_def split: quantized.splits if_splits)
  qed
qed

section \<open>Properties\<close>

text \<open>
  A promo code is priced once: when it is applied, the discount on the hold is the one
  of the code on the ticket gross, the net ticket charge stays positive, the amount to charge is
  that net plus the donation, and no later change to promo codes, tiers or zones moves it (for a
  general-admission hold that carries its price snapshot, or any reserved hold).
\<close>

theorem promo_is_frozen_on_the_hold:
  assumes "apply_promo_code org sk hid code now s = Inr (h', s')"
    and "is_ga h' \<longrightarrow> hold_ga_unit_amount h' \<noteq> None"
  shows "\<exists>p t. get_usable_code org code s = Some p \<and> hold_total h' s' = Inr t \<and>
     hold_discount h' = compute_discount p t \<and> 0 < t - hold_discount h' \<and>
     hold_grand_total h' s' = Inr (t - hold_discount h' + hold_donation h') \<and>
     active_cart_hold org sk hid now s' = Some h' \<and>
     (\<forall>ps ts zs. hold_grand_total h' (s'\<lparr>db_promos := ps, db_tiers := ts, db_zones := zs\<rparr>) = hold_grand_total h' s')"
proof -
  from assms(1) obtain h p cur t where h: "active_cart_hold org sk hid now s = Some h"
    and p: "get_usable_code org code s = Some p" and t: "hold_total h s = Inr t"
    and v: "validate_code p t cur now = Inr ()"
    and h': "h' = snap_promo p (compute_discount p t) h"
    and s': "s' = save_hold h (snap_promo p (compute_discount p t)) s"
    by (rule apply_promo_Inr)
  have t': "hold_total h' s' = Inr t" using t by (simp add: h' s' save_hold_money)
  have d: "hold_discount h' = compute_discount p t" by (simp add: h' snap_promo_def hold_discount_def)
  have "compute_discount p t < t" using validate_code_Inr(7) [OF v] .
  moreover have "hold_total h' (s'\<lparr>db_promos := ps, db_tiers := ts, db_zones := zs\<rparr>) = hold_total h' s'" for ps ts zs
    using assms(2) by (auto simp: hold_total_def ga_unit_amount_def seats_of_hold_def)
  moreover have "active_cart_hold org sk hid now s' = Some h'"
    using active_cart_save [OF _ h] by (simp add: h' s')
  ultimately show ?thesis using p t' d by (auto simp: hold_grand_total_def)
qed

lemma two_held_promo:
  "\<exists>h' s'. apply_promo_code 1 ''s1'' (Some 100) ''summer'' (minutes 1) two_held = Inr (h', s') \<and>
     hold_discount h' = 500 \<and> hold_ga_unit_amount h' \<noteq> None"
proof -
  have n: "normalize_code ''summer'' = ''SUMMER''" by code_simp
  have u: "upper ''USD'' = ''USD''" by code_simp
  show ?thesis
    by (simp add: apply_promo_code_def active_cart_hold_def two_held_def new_hold_def active_def
        default_hold_expiry_def time_defs get_usable_code_def n u hold_currency_def tier_at_def get_row_def hold_total_def
        is_ga_def ga_unit_amount_def validate_code_def compute_discount_def round_half_up_def
        snap_promo_def hold_discount_def Let_def demo_def ten_percent_def ga_show_def ga_tier_def
        stalls_tier_def evening_tier_def ga_room_def)
qed

theorem promo_is_frozen_on_the_hold_witness:
  "\<exists>h' s'. apply_promo_code 1 ''s1'' (Some 100) ''summer'' (minutes 1) two_held = Inr (h', s') \<and>
     hold_grand_total h' (s'\<lparr>db_promos := [], db_tiers := [], db_zones := []\<rparr>) = hold_grand_total h' s' \<and>
     active_cart_hold 1 ''s1'' (Some 100) (minutes 1) s' = Some h'"
proof -
  obtain h' s' where r: "apply_promo_code 1 ''s1'' (Some 100) ''summer'' (minutes 1) two_held = Inr (h', s')"
    and u: "is_ga h' \<longrightarrow> hold_ga_unit_amount h' \<noteq> None"
    using two_held_promo by auto
  from promo_is_frozen_on_the_hold [OF r u] r show ?thesis by auto
qed

text \<open>
  A gift never touches the promo arithmetic: applying a code and adding a donation
  commute. Whichever comes first, both succeed or fail alike and leave the same cart and the same
  database, so a donation is neither discounted nor counted towards a minimum order.
\<close>

theorem promo_and_donation_commute:
  assumes "apply_promo_code org sk hid code now s = Inr (h1, s1)"
    and "set_hold_donation org sk hid amount camp now s1 = Inr (h2, s2)"
  shows "\<exists>h1' s1'. set_hold_donation org sk hid amount camp now s = Inr (h1', s1') \<and>
     apply_promo_code org sk hid code now s1' = Inr (h2, s2) \<and> hold_discount h2 = hold_discount h1"
proof -
  from assms(1) obtain h p cur t where h: "active_cart_hold org sk hid now s = Some h"
    and p: "get_usable_code org code s = Some p" and c: "hold_currency h s = Inr cur" and t: "hold_total h s = Inr t"
    and v: "validate_code p t cur now = Inr ()"
    and h1: "h1 = snap_promo p (compute_discount p t) h"
    and s1: "s1 = save_hold h (snap_promo p (compute_discount p t)) s"
    by (rule apply_promo_Inr)
  have cart: "active_cart_hold org sk hid now s1 = Some h1"
    using active_cart_save [OF _ h] by (simp add: h1 s1)
  let ?snap = "\<lambda>a h. h\<lparr>hold_donation_amount := Some a, hold_donation_campaign := camp\<rparr>"
  from assms(2) obtain h1a a d where h1a: "active_cart_hold org sk hid now s1 = Some h1a"
    and d: "parse_decimal amount = Some d"
    "quantize_cents d = Some (Cents a)" "0 < a" "a \<le> MAX_HOLD_DONATION"
    and h2: "h2 = ?snap a h1a" and s2: "s2 = save_hold h1a (?snap a) s1"
    by (rule set_donation_Inr)
  have h1a: "h1a = h1" using cart h1a by simp
  let ?h = "?snap a h" and ?s = "save_hold h (?snap a) s"
  have first: "set_hold_donation org sk hid amount camp now s = Inr (?h, ?s)"
    using h d by (simp add: set_hold_donation_def Let_def)
  have cart': "active_cart_hold org sk hid now ?s = Some ?h"
    by (rule active_cart_save [OF _ h]) simp
  have "hold_currency ?h ?s = Inr cur" "hold_total ?h ?s = Inr t"
    using c t save_hold_money [of "?snap a" h h s] by simp_all
  moreover have "get_usable_code org code ?s = Some p"
    using p by (auto simp: get_usable_code_def Let_def split: if_splits)
  ultimately have "apply_promo_code org sk hid code now ?s =
      Inr (snap_promo p (compute_discount p t) ?h, save_hold ?h (snap_promo p (compute_discount p t)) ?s)"
    using cart' v by (simp add: apply_promo_code_def Let_def)
  moreover have "snap_promo p (compute_discount p t) ?h = h2" by (simp add: h2 h1a h1 snap_promo_def)
  moreover have "save_hold ?h (snap_promo p (compute_discount p t)) ?s = s2"
    by (simp add: s2 s1 h1a h1 save_hold_def snap_promo_def update_rows_def)
  moreover have "hold_discount h2 = hold_discount h1" by (simp add: h2 h1a hold_discount_def)
  ultimately show ?thesis using first by blast
qed

theorem promo_and_donation_commute_witness:
  "\<exists>h1 s1 h2 s2 h1' s1'. apply_promo_code 1 ''s1'' (Some 100) ''summer'' (minutes 1) two_held = Inr (h1, s1) \<and>
     set_hold_donation 1 ''s1'' (Some 100) ''25'' (Some 81) (minutes 1) s1 = Inr (h2, s2) \<and>
     set_hold_donation 1 ''s1'' (Some 100) ''25'' (Some 81) (minutes 1) two_held = Inr (h1', s1') \<and>
     apply_promo_code 1 ''s1'' (Some 100) ''summer'' (minutes 1) s1' = Inr (h2, s2)"
proof -
  obtain h1 s1 where r: "apply_promo_code 1 ''s1'' (Some 100) ''summer'' (minutes 1) two_held = Inr (h1, s1)"
    and u: "is_ga h1 \<longrightarrow> hold_ga_unit_amount h1 \<noteq> None"
    using two_held_promo by auto
  have "parse_decimal ''25'' = Some (Fin 25 0)" by code_simp
  moreover have "active_cart_hold 1 ''s1'' (Some 100) (minutes 1) s1 = Some h1"
    using r active_cart_save by (metis apply_promo_Inr money_only_snaps(1))
  ultimately obtain h2 s2 where "set_hold_donation 1 ''s1'' (Some 100) ''25'' (Some 81) (minutes 1) s1 = Inr (h2, s2)"
    by (auto simp: set_hold_donation_def quantize_cents_def MAX_HOLD_DONATION_def Let_def)
  with promo_and_donation_commute [OF r this] r show ?thesis by blast
qed

text \<open>
  The cart and the donation page check an amount alike: for an active cart, whatever
  is typed, the two accept the same amounts and refuse the same ones for the same reason, except
  that an amount \<open>decimal\<close> parses but cannot quantize (an infinity, or more than 28 digits) is
  refused as invalid by the cart and raises in the donation page.
\<close>

theorem donation_checks_agree:
  assumes "active_cart_hold org sk hid now s = Some h"
  shows "(case parse_amount raw of
       Inr (Inr a) \<Rightarrow> \<exists>s'. set_hold_donation org sk hid (strip raw) camp now s =
           Inr (h\<lparr>hold_donation_amount := Some a, hold_donation_campaign := camp\<rparr>, s')
     | Inr (Inl e) \<Rightarrow> set_hold_donation org sk hid (strip raw) camp now s = Inl (HoldErr e)
     | Inl e \<Rightarrow> e = PyErr InvalidOperation \<and> (\<exists>d. parse_decimal (strip raw) = Some d \<and>
          (if quantize_cents d = None
           then set_hold_donation org sk hid (strip raw) camp now s = Inl (HoldErr DonationInvalid)
           else set_hold_donation org sk hid (strip raw) camp now s = Inl (PyErr InvalidOperation))))"
  using assms
  by (auto simp: parse_amount_def set_hold_donation_def MAX_DONATION_def MAX_HOLD_DONATION_def Let_def
      split: option.splits quantized.splits)

theorem donation_checks_agree_witness:
  "\<exists>h s'. active_cart_hold 1 ''s1'' (Some 100) (minutes 1) two_held = Some h \<and>
     set_hold_donation 1 ''s1'' (Some 100) (strip '' 25.50'') None (minutes 1) two_held =
       Inr (h\<lparr>hold_donation_amount := Some 2550, hold_donation_campaign := None\<rparr>, s')"
proof -
  have p: "parse_amount '' 25.50'' = Inr (Inr 2550)" by code_simp
  obtain h where h: "active_cart_hold 1 ''s1'' (Some 100) (minutes 1) two_held = Some h"
    by (simp add: active_cart_hold_def two_held_def new_hold_def active_def default_hold_expiry_def time_defs)
  from donation_checks_agree [OF h, of "'' 25.50''" None] h show ?thesis by (auto simp: p)
qed

end
