(* ===== verification/Guests.thy ===== *)
theory Guests
  imports Fixture
begin

text \<open>
  guests/models.py and guests/services.py: the identity key of a ticket buyer (a normalized email
  per theater), the one get-or-create every checkout path goes through, the tags, the marketing
  consent, and the session that says which guest is signed in.
\<close>

section \<open>The code\<close>

definition normalize_email :: "string \<Rightarrow> string" where
  "normalize_email email = lower (strip email)"

definition guest_at :: "nat \<Rightarrow> string \<Rightarrow> db \<Rightarrow> guest_account option" where
  "guest_at organization email s =
     first_row (filter (\<lambda>g. guest_organization g = organization \<and> guest_email g = email) (db_guests s))"

definition save_guest :: "guest_account \<Rightarrow> (guest_account \<Rightarrow> guest_account) \<Rightarrow> db \<Rightarrow> db" where
  "save_guest g cols s = s\<lparr>db_guests := update_rows (\<lambda>x. guest_pk x = guest_pk g) cols (db_guests s)\<rparr>"

text \<open>\<open>get_or_create_for_email\<close>: the guest (none for a blank email) and whether it is new.\<close>

definition get_or_create_for_email ::
    "nat \<Rightarrow> string \<Rightarrow> string \<Rightarrow> db \<Rightarrow> guest_account option \<times> bool \<times> db" where
  "get_or_create_for_email organization email name s =
     (let normalized = normalize_email email
      in if normalized = '''' then (None, False, s)
         else case guest_at organization normalized s of
           None \<Rightarrow>
             (let g = \<lparr>guest_pk = db_next s, guest_organization = organization, guest_email = normalized,
                       guest_name = strip name, guest_marketing_opt_in = False,
                       guest_marketing_opt_in_at = None, guest_tags = ''''\<rparr>
              in (Some g, True, s\<lparr>db_guests := db_guests s @ [g], db_next := Suc (db_next s)\<rparr>))
         | Some g \<Rightarrow>
             (if strip name \<noteq> '''' \<and> guest_name g = ''''
              then (Some (g\<lparr>guest_name := strip name\<rparr>), False,
                    save_guest g (\<lambda>x. x\<lparr>guest_name := strip name\<rparr>) s)
              else (Some g, False, s)))"

definition display_name :: "guest_account \<Rightarrow> string" where
  "display_name g = (if guest_name g \<noteq> '''' then guest_name g else guest_email g)"

fun tag_loop :: "string set \<Rightarrow> string list \<Rightarrow> string list" where
  "tag_loop seen [] = []"
| "tag_loop seen (chunk # chunks) =
     (let c = strip chunk
      in if c = '''' \<or> c \<in> seen then tag_loop seen chunks
         else c # tag_loop (insert c seen) chunks)"

definition tag_list :: "guest_account \<Rightarrow> string list" where
  "tag_list g = tag_loop {} (split_on (CHR '','') (guest_tags g))"

definition record_marketing_opt_in :: "guest_account option \<Rightarrow> time \<Rightarrow> db \<Rightarrow> db" where
  "record_marketing_opt_in guest now s =
     (case guest of
        None \<Rightarrow> s
      | Some g \<Rightarrow>
          (if guest_marketing_opt_in g then s
           else save_guest g (\<lambda>x. x\<lparr>guest_marketing_opt_in := True,
                                     guest_marketing_opt_in_at := Some now\<rparr>) s))"

definition set_marketing_opt_in :: "guest_account option \<Rightarrow> bool \<Rightarrow> time \<Rightarrow> db \<Rightarrow> db" where
  "set_marketing_opt_in guest opted_in now s =
     (case guest of
        None \<Rightarrow> s
      | Some g \<Rightarrow>
          (if opted_in
           then (if guest_marketing_opt_in g then s
                 else save_guest g (\<lambda>x. x\<lparr>guest_marketing_opt_in := True,
                                           guest_marketing_opt_in_at := Some now\<rparr>) s)
           else (if \<not> guest_marketing_opt_in g then s
                 else save_guest g (\<lambda>x. x\<lparr>guest_marketing_opt_in := False\<rparr>) s)))"

text \<open>The two session keys \<open>guest_account_id\<close> and \<open>guest_org_id\<close>.\<close>

record guest_session =
  sess_guest_id :: "nat option"
  sess_guest_org :: "nat option"

definition login_guest :: "guest_account \<Rightarrow> guest_session \<Rightarrow> guest_session" where
  "login_guest g sess = sess\<lparr>sess_guest_id := Some (guest_pk g), sess_guest_org := Some (guest_organization g)\<rparr>"

definition logout_guest :: "guest_session \<Rightarrow> guest_session" where
  "logout_guest sess = sess\<lparr>sess_guest_id := None, sess_guest_org := None\<rparr>"

definition get_current_guest ::
    "nat option \<Rightarrow> guest_session \<Rightarrow> db \<Rightarrow> guest_account option \<times> guest_session" where
  "get_current_guest organization sess s =
     (case organization of
        None \<Rightarrow> (None, sess)
      | Some org \<Rightarrow>
          (case sess_guest_id sess of
             None \<Rightarrow> (None, sess)
           | Some k \<Rightarrow>
               (if k \<noteq> 0 \<and> sess_guest_org sess = Some org
                then (case first_row (filter (\<lambda>g. guest_organization g = org \<and> guest_pk g = k) (db_guests s)) of
                        None \<Rightarrow> (None, logout_guest sess)
                      | Some g \<Rightarrow> (Some g, sess))
                else (None, sess))))"

section \<open>Lemmas\<close>

lemma normalize_email_idem [simp]: "normalize_email (normalize_email e) = normalize_email e"
  by (simp add: normalize_email_def strip_lower)

lemma guest_at_Some:
  "guest_at org e s = Some g \<Longrightarrow> g \<in> set (db_guests s) \<and> guest_organization g = org \<and> guest_email g = e"
  by (auto simp: guest_at_def dest!: first_row_Some)

lemma guest_at_None:
  "guest_at org e s = None \<longleftrightarrow> (\<forall>g\<in>set (db_guests s). guest_organization g = org \<longrightarrow> guest_email g \<noteq> e)"
  by (auto simp: guest_at_def filter_empty_conv)

lemma first_row_update:
  assumes "\<And>x. Q (f x) = Q x"
  shows "first_row (filter Q (update_rows P f rs)) = map_option (\<lambda>x. if P x then f x else x) (first_row (filter Q rs))"
  using assms by (induction rs) (auto simp: update_rows_def)

lemma guest_at_save:
  assumes "\<And>x. guest_organization (f x) = guest_organization x" "\<And>x. guest_email (f x) = guest_email x"
  shows "guest_at org e (save_guest g f s) =
    map_option (\<lambda>x. if guest_pk x = guest_pk g then f x else x) (guest_at org e s)"
  using assms by (simp add: guest_at_def save_guest_def first_row_update)

lemma tag_loop_fromkeys:
  "tag_loop seen cs = fromkeys (filter (\<lambda>c. c \<noteq> '''' \<and> c \<notin> seen) (map strip cs))"
proof (induction cs arbitrary: seen)
  case (Cons c cs)
  have "filter (\<lambda>y. y \<noteq> strip c) (filter (\<lambda>c. c \<noteq> '''' \<and> c \<notin> seen) (map strip cs)) =
      filter (\<lambda>x. x \<noteq> '''' \<and> x \<notin> insert (strip c) seen) (map strip cs)"
    by (auto intro!: filter_cong)
  then show ?case using Cons by (auto simp: Let_def)
qed simp

definition guest_emails_unique :: "db \<Rightarrow> bool" where
  "guest_emails_unique s \<longleftrightarrow> distinct (map (\<lambda>g. (guest_organization g, guest_email g)) (db_guests s))"

lemma save_guest_unique:
  assumes "\<And>x. guest_organization (f x) = guest_organization x" "\<And>x. guest_email (f x) = guest_email x"
  shows "guest_emails_unique (save_guest g f s) = guest_emails_unique s"
proof -
  have "map (\<lambda>g. (guest_organization g, guest_email g)) (db_guests (save_guest g f s)) =
      map (\<lambda>g. (guest_organization g, guest_email g)) (db_guests s)"
    using assms by (auto simp: save_guest_def update_rows_def)
  then show ?thesis by (simp add: guest_emails_unique_def)
qed

lemma get_or_create_unique:
  assumes "get_or_create_for_email org e n s = (g, c, s')" and "guest_emails_unique s"
  shows "guest_emails_unique s'"
proof (cases "guest_at org (normalize_email e) s")
  case None
  then show ?thesis
    using assms None [unfolded guest_at_None]
    by (fastforce simp: get_or_create_for_email_def guest_emails_unique_def Let_def split: if_splits)
next
  case (Some g)
  then show ?thesis
    using assms save_guest_unique
    by (auto simp: get_or_create_for_email_def Let_def split: if_splits)
qed

lemma get_or_create_guest:
  assumes "get_or_create_for_email org e n s = (Some g, c, s')"
  shows "guest_organization g = org" "guest_email g = normalize_email e" "normalize_email e \<noteq> ''''"
    "guest_at org (normalize_email e) s' = Some g"
proof -
  from assms have ne: "normalize_email e \<noteq> ''''"
    by (auto simp: get_or_create_for_email_def Let_def split: if_splits)
  have "guest_organization g = org \<and> guest_email g = normalize_email e \<and>
    guest_at org (normalize_email e) s' = Some g"
  proof (cases "guest_at org (normalize_email e) s")
    case None
    then show ?thesis using assms ne
      by (auto simp: get_or_create_for_email_def Let_def guest_at_def)
  next
    case (Some g0)
    then show ?thesis using assms ne guest_at_Some [OF Some]
      by (auto simp: get_or_create_for_email_def Let_def guest_at_save split: if_splits)
  qed
  then show "guest_organization g = org" "guest_email g = normalize_email e" "normalize_email e \<noteq> ''''"
    "guest_at org (normalize_email e) s' = Some g" using ne by auto
qed

text \<open>What the call leaves alone: every table but the guests.\<close>

lemma get_or_create_frame [frame]:
  assumes "get_or_create_for_email org e n s = (g, c, s')"
  shows "s' = s\<lparr>db_guests := db_guests s', db_next := db_next s'\<rparr> \<and> db_next s \<le> db_next s'"
  using assms
  by (cases "guest_at org (normalize_email e) s")
    (auto simp: get_or_create_for_email_def Let_def save_guest_def split: if_splits)

lemma record_marketing_frame [frame]:
  "\<exists>gs. record_marketing_opt_in g now s = s\<lparr>db_guests := gs\<rparr>"
proof -
  have "record_marketing_opt_in g now s = s\<lparr>db_guests := db_guests (record_marketing_opt_in g now s)\<rparr>"
    by (cases g) (simp_all add: record_marketing_opt_in_def save_guest_def)
  then show ?thesis by blast
qed

lemma get_row_save:
  assumes "\<And>x. guest_pk (f x) = guest_pk x"
  shows "get_row guest_pk k (db_guests (save_guest g f s)) =
    map_option (\<lambda>x. if guest_pk x = guest_pk g then f x else x) (get_row guest_pk k (db_guests s))"
  using assms by (simp add: get_row_def save_guest_def first_row_update)

section \<open>Properties\<close>

text \<open>
  One guest per theater and email, however it is typed: after a checkout with any
  spelling of an email (case, surrounding blanks), a second call with another spelling finds the
  same row, creates nothing, and the pair (organization, email) stays unique.
\<close>

theorem guest_identity_is_normalized_email:
  assumes "get_or_create_for_email org e n s = (Some g, c, s')"
    and "normalize_email e' = normalize_email e" and "guest_emails_unique s"
  shows "\<exists>g' s''. get_or_create_for_email org e' n' s' = (Some g', False, s'') \<and>
     guest_pk g' = guest_pk g \<and> guest_emails_unique s' \<and> guest_emails_unique s'' \<and>
     length (db_guests s'') = length (db_guests s')"
proof -
  have 1: "guest_emails_unique s'" using get_or_create_unique assms by blast
  obtain g' c' s'' where r: "get_or_create_for_email org e' n' s' = (g', c', s'')"
    by (cases "get_or_create_for_email org e' n' s'")
  have 2: "guest_emails_unique s''" using get_or_create_unique [OF r 1] .
  note f = get_or_create_guest [OF assms(1)]
  have "(g', c', s'') = (if strip n' \<noteq> '''' \<and> guest_name g = ''''
      then (Some (g\<lparr>guest_name := strip n'\<rparr>), False, save_guest g (\<lambda>x. x\<lparr>guest_name := strip n'\<rparr>) s')
      else (Some g, False, s'))"
    using f(3,4) assms(2) r by (simp add: get_or_create_for_email_def Let_def)
  then have "(\<exists>g''. g' = Some g'' \<and> guest_pk g'' = guest_pk g) \<and> \<not> c' \<and>
      length (db_guests s'') = length (db_guests s')"
    by (auto simp: save_guest_def split: if_splits)
  with r 1 2 show ?thesis by auto
qed

text \<open>A first buyer.\<close>

definition ann :: guest_account where
  "ann = \<lparr>guest_pk = 100, guest_organization = 1, guest_email = ''ann@x.org'', guest_name = ''Ann'',
     guest_marketing_opt_in = False, guest_marketing_opt_in_at = None, guest_tags = ''''\<rparr>"

definition with_ann :: db where
  "with_ann = demo\<lparr>db_guests := [ann], db_next := 101\<rparr>"

lemma first_buyer: "get_or_create_for_email 1 ''Ann@x.org '' ''Ann'' demo = (Some ann, True, with_ann)"
proof -
  have n: "normalize_email ''Ann@x.org '' = ''ann@x.org''" "strip ''Ann'' = ''Ann''" by code_simp+
  then show ?thesis
    by (simp add: get_or_create_for_email_def Let_def guest_at_def demo_def ann_def with_ann_def)
qed

theorem guest_identity_is_normalized_email_witness:
  "\<exists>g' s''. get_or_create_for_email 1 ''ANN@X.org'' ''Bob'' with_ann = (Some g', False, s'') \<and> guest_pk g' = 100"
proof -
  have "normalize_email ''ANN@X.org'' = normalize_email ''Ann@x.org ''" by code_simp
  moreover have "guest_emails_unique demo" by (simp add: guest_emails_unique_def demo_def)
  ultimately show ?thesis
    using guest_identity_is_normalized_email [OF first_buyer, of "''ANN@X.org''" "''Bob''"]
    by (auto simp: ann_def)
qed

lemma opt_in_once:
  assumes "get_row guest_pk k (db_guests s) = Some g" and "guest_marketing_opt_in g"
  shows "fold (\<lambda>t s. record_marketing_opt_in (get_row guest_pk k (db_guests s)) t s) ts s = s"
  using assms by (induction ts) (simp_all add: record_marketing_opt_in_def)

text \<open>
  Buying is one-way for consent: over any number of checkouts of one guest that tick
  the box, the guest ends up subscribed with the time of the first consent, and re-affirming never
  resets it; a guest already subscribed keeps the recorded time.
\<close>

theorem checkout_consent_is_one_way:
  assumes "get_row guest_pk k (db_guests s) = Some g"
  shows "\<exists>g'. get_row guest_pk k (db_guests
       (fold (\<lambda>t s. record_marketing_opt_in (get_row guest_pk k (db_guests s)) t s) (t0 # ts) s)) = Some g' \<and>
     guest_marketing_opt_in g' \<and>
     guest_marketing_opt_in_at g' = (if guest_marketing_opt_in g then guest_marketing_opt_in_at g else Some t0)"
proof (cases "guest_marketing_opt_in g")
  case True
  then show ?thesis using assms opt_in_once [OF assms True, of "t0 # ts"] by auto
next
  case False
  let ?f = "\<lambda>x. x\<lparr>guest_marketing_opt_in := True, guest_marketing_opt_in_at := Some t0\<rparr>"
  let ?s = "save_guest g ?f s"
  have step: "record_marketing_opt_in (get_row guest_pk k (db_guests s)) t0 s = ?s"
    using assms False by (simp add: record_marketing_opt_in_def)
  have row: "get_row guest_pk k (db_guests ?s) = Some (?f g)"
    using assms by (simp add: get_row_save)
  have "fold (\<lambda>t s. record_marketing_opt_in (get_row guest_pk k (db_guests s)) t s) ts ?s = ?s"
    by (rule opt_in_once [OF row]) simp
  then have "fold (\<lambda>t s. record_marketing_opt_in (get_row guest_pk k (db_guests s)) t s) (t0 # ts) s = ?s"
    by (simp add: step)
  with row False show ?thesis by auto
qed

theorem checkout_consent_is_one_way_witness:
  "\<exists>g'. get_row guest_pk 100 (db_guests (fold (\<lambda>t s. record_marketing_opt_in
       (get_row guest_pk 100 (db_guests s)) t s) [5, 9] with_ann)) = Some g' \<and>
     guest_marketing_opt_in g' \<and> guest_marketing_opt_in_at g' = Some 5"
proof -
  have "get_row guest_pk 100 (db_guests with_ann) = Some ann"
    by (simp add: with_ann_def ann_def get_row_def)
  from checkout_consent_is_one_way [OF this, of 5 "[9]"] show ?thesis by (simp only: ann_def) simp
qed

text \<open>
  A sign-in never crosses a tenant: right after signing in, the session resolves to
  that guest on its own theater and to nobody on another; and no session whatsoever resolves to a
  guest of another organization than the request's.
\<close>

theorem guest_session_stays_in_tenant:
  assumes "well_keyed guest_pk n (db_guests s)" and "g \<in> set (db_guests s)" and "guest_pk g \<noteq> 0"
  shows "fst (get_current_guest (Some (guest_organization g)) (login_guest g sess) s) = Some g \<and>
     (\<forall>org. org \<noteq> guest_organization g \<longrightarrow> fst (get_current_guest (Some org) (login_guest g sess) s) = None) \<and>
     (\<forall>org sess' x. fst (get_current_guest (Some org) sess' s) = Some x \<longrightarrow> guest_organization x = org)"
proof -
  have "first_row (filter (\<lambda>x. guest_organization x = guest_organization g \<and> guest_pk x = guest_pk g)
      (db_guests s)) = Some g"
  proof -
    let ?l = "filter (\<lambda>x. guest_organization x = guest_organization g \<and> guest_pk x = guest_pk g) (db_guests s)"
    have "?l \<noteq> []" using assms(2) by (auto simp: filter_empty_conv)
    then obtain y where y: "first_row ?l = Some y" by (cases ?l) auto
    with guest_rows.keyed_inj [OF assms(1) _ assms(2)] first_row_Some [OF y] show ?thesis by auto
  qed
  then show ?thesis
    using assms(3) by (auto simp: get_current_guest_def login_guest_def
        split: option.splits if_splits dest!: first_row_Some)
qed

theorem guest_session_stays_in_tenant_witness:
  "let sess = login_guest ann \<lparr>sess_guest_id = None, sess_guest_org = None\<rparr>
   in fst (get_current_guest (Some 1) sess with_ann) = Some ann \<and>
      fst (get_current_guest (Some 2) sess with_ann) = None"
proof -
  have "well_keyed guest_pk 101 (db_guests with_ann)" "ann \<in> set (db_guests with_ann)"
    "guest_pk ann \<noteq> 0" "guest_organization ann = 1"
    by (simp_all add: with_ann_def ann_def well_keyed_def)
  with guest_session_stays_in_tenant [of 101 with_ann ann
      "\<lparr>sess_guest_id = None, sess_guest_org = None\<rparr>"]
  show ?thesis by (simp add: Let_def)
qed

lemma tag_list_correct:
  "tag_list g = fromkeys (filter (\<lambda>c. c \<noteq> '''') (map strip (split_on (CHR '','') (guest_tags g)))) \<and>
   distinct (tag_list g) \<and> (\<forall>t\<in>set (tag_list g). t \<noteq> '''' \<and> strip t = t)"
  by (auto simp: tag_list_def tag_loop_fromkeys)

end
