(* ===== verification/Passes.thy ===== *)
theory Passes
  imports Fixture
begin

text \<open>
  passes/models.py and passes/services.py: what a sold pass covers, whether it is live, what is left
  on it, and how voiding a redemption order gives the entitlement back. Every term is read off the
  purchase, never off the product it was sold as.
\<close>

section \<open>The code\<close>

definition get_active_products :: "nat \<Rightarrow> db \<Rightarrow> pass_product list" where
  "get_active_products organization s =
     filter (\<lambda>p. prod_organization p = organization \<and> prod_is_active p) (db_products s)"

definition pass_covers_performance :: "pass_purchase \<Rightarrow> performance \<Rightarrow> bool" where
  "pass_covers_performance pp performance =
     (if pp_covered_events pp \<noteq> [] \<and> perf_event performance \<notin> set (pp_covered_events pp) then False
      else if (case pp_valid_from pp of None \<Rightarrow> False | Some t \<Rightarrow> perf_starts_at performance < t) then False
      else if (case pp_valid_until pp of None \<Rightarrow> False | Some t \<Rightarrow> t < perf_starts_at performance) then False
      else True)"

definition redeemable_now :: "pass_purchase \<Rightarrow> time \<Rightarrow> bool" where
  "redeemable_now pp now =
     (if pp_status pp \<noteq> PASS_ACTIVE then False
      else if (case pp_valid_until pp of None \<Rightarrow> False | Some t \<Rightarrow> t < now) then False
      else True)"

definition redemptions_of :: "pass_purchase \<Rightarrow> db \<Rightarrow> pass_redemption list" where
  "redemptions_of pp s = filter (\<lambda>r. red_pass_purchase r = pp_pk pp) (db_redemptions s)"

text \<open>\<open>None\<close>: no numeric cap.\<close>

definition remaining_admissions :: "pass_purchase \<Rightarrow> db \<Rightarrow> int option" where
  "remaining_admissions pp s =
     (if pp_kind pp = FLEX then pp_credits_remaining pp
      else if pp_covered_events pp = [] then None
      else Some (max (int (length (pp_covered_events pp)) -
                      int (length (fromkeys (map red_event (redemptions_of pp s))))) 0))"

text \<open>Creating a redemption under \<open>unique_season_event_redemption\<close>.\<close>

definition create_redemption :: "pass_redemption \<Rightarrow> db \<Rightarrow> error + db" where
  "create_redemption r s =
     (if red_credits_used r = 0 \<and>
         (\<exists>x\<in>set (db_redemptions s). red_pass_purchase x = red_pass_purchase r \<and>
            red_event x = red_event r \<and> red_credits_used x = 0)
      then Inl (PyErr (IntegrityError UniqueSeasonRedemption))
      else Inr (s\<lparr>db_redemptions := db_redemptions s @ [r\<lparr>red_pk := db_next s\<rparr>], db_next := Suc (db_next s)\<rparr>))"

fun create_redemptions :: "pass_redemption list \<Rightarrow> db \<Rightarrow> error + db" where
  "create_redemptions [] s = Inr s"
| "create_redemptions (r # rs) s = bindE (create_redemption r s) (create_redemptions rs)"

definition restored_credits :: "nat \<Rightarrow> pass_redemption list \<Rightarrow> int" where
  "restored_credits pass_id rs = sum_list (map red_credits_used (filter (\<lambda>r. red_pass_purchase r = pass_id) rs))"

definition restore_purchase :: "int \<Rightarrow> pass_purchase \<Rightarrow> pass_purchase" where
  "restore_purchase restored pp =
     (let pp1 = (case pp_credits_remaining pp of
                   None \<Rightarrow> pp
                 | Some c \<Rightarrow> if restored \<noteq> 0 then pp\<lparr>pp_credits_remaining := Some (c + restored)\<rparr> else pp);
          left = (case pp_credits_remaining pp1 of None \<Rightarrow> 0 | Some c \<Rightarrow> c)
      in if pp_status pp1 = PASS_EXHAUSTED \<and> 0 < left then pp1\<lparr>pp_status := PASS_ACTIVE\<rparr> else pp1)"

definition restore_redemptions_for_order :: "order \<Rightarrow> db \<Rightarrow> nat \<times> db" where
  "restore_redemptions_for_order o' s =
     (let redemptions = filter (\<lambda>r. red_order r = order_pk o') (db_redemptions s)
      in if redemptions = [] then (0, s)
         else (length redemptions,
           s\<lparr>db_redemptions := delete_rows (\<lambda>r. red_order r = order_pk o') (db_redemptions s),
             db_purchases := fold (\<lambda>k. update_rows (\<lambda>p. pp_pk p = k)
                                          (restore_purchase (restored_credits k redemptions)))
                               (fromkeys (map red_pass_purchase redemptions)) (db_purchases s)\<rparr>))"

section \<open>Lemmas\<close>

lemma pass_covers_iff:
  "pass_covers_performance pp perf \<longleftrightarrow>
     (pp_covered_events pp = [] \<or> perf_event perf \<in> set (pp_covered_events pp)) \<and>
     (\<forall>t. pp_valid_from pp = Some t \<longrightarrow> t \<le> perf_starts_at perf) \<and>
     (\<forall>t. pp_valid_until pp = Some t \<longrightarrow> perf_starts_at perf \<le> t)"
  by (auto simp: pass_covers_performance_def split: option.splits)

lemma redeemable_iff:
  "redeemable_now pp now \<longleftrightarrow> pp_status pp = PASS_ACTIVE \<and> (\<forall>t. pp_valid_until pp = Some t \<longrightarrow> now \<le> t)"
  by (auto simp: redeemable_now_def split: option.splits)

lemma restore_purchase_pk [simp]: "pp_pk (restore_purchase c pp) = pp_pk pp"
  by (auto simp: restore_purchase_def Let_def split: option.splits)

lemma restore_purchase_fields [simp]:
  "pp_kind (restore_purchase c pp) = pp_kind pp" "pp_credit_count (restore_purchase c pp) = pp_credit_count pp"
  "pp_covered_events (restore_purchase c pp) = pp_covered_events pp"
  "pp_organization (restore_purchase c pp) = pp_organization pp" "pp_order (restore_purchase c pp) = pp_order pp"
  "pp_credits_remaining (restore_purchase c pp) = map_option (\<lambda>x. x + c) (pp_credits_remaining pp)"
  "pp_status pp \<noteq> PASS_EXHAUSTED \<Longrightarrow> pp_status (restore_purchase c pp) = pp_status pp"
  by (auto simp: restore_purchase_def Let_def split: option.splits)

lemma restored_credits_append [simp]:
  "restored_credits k (xs @ ys) = restored_credits k xs + restored_credits k ys"
  by (simp add: restored_credits_def)

text \<open>The loop updates every affected purchase once, with its own sum.\<close>

lemma fold_update_rows:
  assumes "\<And>k p. pk (f k p) = pk p" and "distinct ks"
  shows "fold (\<lambda>k. update_rows (\<lambda>p. pk p = k) (f k)) ks ps = map (\<lambda>p. if pk p \<in> set ks then f (pk p) p else p) ps"
  using assms(2)
proof (induction ks arbitrary: ps)
  case Nil
  then show ?case by simp
next
  case (Cons k ks)
  then show ?case using assms(1) by (simp add: update_rows_def o_def)
qed

lemma restore_effect:
  "snd (restore_redemptions_for_order o' s) =
     s\<lparr>db_redemptions := delete_rows (\<lambda>r. red_order r = order_pk o') (db_redemptions s),
       db_purchases := map (\<lambda>p. if \<exists>r\<in>set (db_redemptions s). red_order r = order_pk o' \<and> red_pass_purchase r = pp_pk p
           then restore_purchase (restored_credits (pp_pk p) (filter (\<lambda>r. red_order r = order_pk o') (db_redemptions s))) p
           else p) (db_purchases s)\<rparr>"
proof (cases "filter (\<lambda>r. red_order r = order_pk o') (db_redemptions s) = []")
  case True
  then have "\<forall>r\<in>set (db_redemptions s). red_order r \<noteq> order_pk o'" by (auto simp: filter_empty_conv)
  then have "delete_rows (\<lambda>r. red_order r = order_pk o') (db_redemptions s) = db_redemptions s"
    "map (\<lambda>p. if \<exists>r\<in>set (db_redemptions s). red_order r = order_pk o' \<and> red_pass_purchase r = pp_pk p
           then restore_purchase (restored_credits (pp_pk p) (filter (\<lambda>r. red_order r = order_pk o') (db_redemptions s))) p
           else p) (db_purchases s) = db_purchases s"
    by (auto simp: delete_rows_def intro!: filter_True map_idI)
  with True show ?thesis by (simp add: restore_redemptions_for_order_def)
next
  case False
  have "fold (\<lambda>k. update_rows (\<lambda>p. pp_pk p = k)
          (restore_purchase (restored_credits k (filter (\<lambda>r. red_order r = order_pk o') (db_redemptions s)))))
        (fromkeys (map red_pass_purchase (filter (\<lambda>r. red_order r = order_pk o') (db_redemptions s)))) (db_purchases s) =
      map (\<lambda>p. if \<exists>r\<in>set (db_redemptions s). red_order r = order_pk o' \<and> red_pass_purchase r = pp_pk p
           then restore_purchase (restored_credits (pp_pk p) (filter (\<lambda>r. red_order r = order_pk o') (db_redemptions s))) p
           else p) (db_purchases s)"
    by (subst fold_update_rows) (force intro!: map_cong)+
  with False show ?thesis by (simp add: restore_redemptions_for_order_def Let_def)
qed

lemma stamp_redemptions:
  assumes "create_redemptions rs s = Inr s'"
  shows "\<exists>new. db_redemptions s' = db_redemptions s @ new \<and>
    map (\<lambda>r. r\<lparr>red_pk := 0\<rparr>) new = map (\<lambda>r. r\<lparr>red_pk := 0\<rparr>) rs \<and>
    s' = s\<lparr>db_redemptions := db_redemptions s @ new, db_next := db_next s + length rs\<rparr>"
  using assms
proof (induction rs arbitrary: s)
  case (Cons r rs)
  let ?s = "s\<lparr>db_redemptions := db_redemptions s @ [r\<lparr>red_pk := db_next s\<rparr>], db_next := Suc (db_next s)\<rparr>"
  from Cons.prems have "create_redemptions rs ?s = Inr s'"
    by (auto simp: create_redemption_def split: if_splits)
  from Cons.IH [OF this] obtain new where
    "map (\<lambda>r. r\<lparr>red_pk := 0\<rparr>) new = map (\<lambda>r. r\<lparr>red_pk := 0\<rparr>) rs"
    "s' = ?s\<lparr>db_redemptions := db_redemptions ?s @ new, db_next := db_next ?s + length rs\<rparr>" by blast
  then show ?case by (intro exI [of _ "r\<lparr>red_pk := db_next s\<rparr> # new"]) simp
qed simp

end
