(* ===== verification/Fulfillment.thy ===== *)
theory Fulfillment
  imports Cart Guests Passes
begin

text \<open>
  payments/services.py, the transactions that turn money or an entitlement into an order: the one
  place tickets are minted (\<open>fulfill_hold\<close>), its siblings for a standalone donation and for the sale
  of a pass, the redemption of a pass, the idempotent dispatch of a paid Stripe session, and the
  reversals (\<open>refund_order\<close>, and the cancel view of dashboard/views.py).
\<close>

section \<open>Minting tickets\<close>

definition blank_item :: "order \<Rightarrow> item_kind \<Rightarrow> int \<Rightarrow> cents \<Rightarrow> order_item" where
  "blank_item o' kind quantity amount =
     \<lparr>item_pk = 0, item_organization = order_organization o', item_order = order_pk o', item_kind = kind,
      item_price_tier = None, item_pricing_zone = None, item_donation_campaign = None,
      item_pass_product = None, item_seat = None, item_quantity = quantity, item_unit_amount = amount\<rparr>"

definition new_ticket :: "hold \<Rightarrow> order \<Rightarrow> nat option \<Rightarrow> ticket" where
  "new_ticket h o' st =
     \<lparr>tkt_pk = 0, tkt_organization = hold_organization h, tkt_order = order_pk o',
      tkt_performance = hold_performance h, tkt_seat = st, tkt_holder_name = order_buyer_name o',
      tkt_token = '''', tkt_status = VALID, tkt_used_at = None, tkt_scanned_by = None\<rparr>"

definition fulfill_ga :: "hold \<Rightarrow> order \<Rightarrow> db \<Rightarrow> error + db" where
  "fulfill_ga h o' s =
     (let quantity = the (hold_quantity h)
      in bindE (or_raise (allocation_of (hold_performance h) s) (PyErr DoesNotExist)) (\<lambda>allocation.
         bindE (guardE (alloc_sold allocation + quantity \<le> alloc_capacity allocation)
                  (FulfillErr AvailabilityChangedError)) (\<lambda>_.
         bindE (ga_unit_amount h s) (\<lambda>unit_amount.
         bindE (create_tickets (replicate (nat quantity) (new_ticket h o' None))
                  (create_item ((blank_item o' TICKET quantity unit_amount)
                     \<lparr>item_price_tier := hold_price_tier h\<rparr>) s))
           (save_sold allocation (alloc_sold allocation + quantity))))))"

definition reserved_item :: "order \<Rightarrow> hold_seat \<Rightarrow> order_item" where
  "reserved_item o' r =
     (blank_item o' TICKET 1 (hs_unit_amount r))\<lparr>item_price_tier := hs_price_tier r,
        item_pricing_zone := hs_pricing_zone r, item_seat := Some (hs_seat r)\<rparr>"

fun mint_seats :: "hold \<Rightarrow> order \<Rightarrow> hold_seat list \<Rightarrow> db \<Rightarrow> error + db" where
  "mint_seats h o' [] s = Inr s"
| "mint_seats h o' (r # rs) s =
     bindE (create_ticket (new_ticket h o' (Some (hs_seat r))) (create_item (reserved_item o' r) s))
       (mint_seats h o' rs)"

definition fulfill_reserved :: "hold \<Rightarrow> order \<Rightarrow> db \<Rightarrow> error + db" where
  "fulfill_reserved h o' s =
     (let hold_seats = order_by hs_seat (seats_of_hold h s)
      in bindE (guardE (\<forall>r\<in>set hold_seats. hs_seat r \<notin> ticketed_ids (hold_performance h) s)
                  (FulfillErr AvailabilityChangedError)) (\<lambda>_.
         mint_seats h o' hold_seats s))"

definition fulfill_inventory :: "hold \<Rightarrow> order \<Rightarrow> db \<Rightarrow> error + db" where
  "fulfill_inventory h o' s = (if is_ga h then fulfill_ga h o' s else fulfill_reserved h o' s)"

section \<open>A paid order\<close>

text \<open>The guest account of the buyer, with the consent ticked at checkout.\<close>

definition attach_guest ::
    "nat \<Rightarrow> string \<Rightarrow> string \<Rightarrow> bool \<Rightarrow> time \<Rightarrow> db \<Rightarrow> guest_account option \<times> db" where
  "attach_guest organization email name opt_in now s =
     (let (guest, created, s1) = get_or_create_for_email organization email name s
      in (guest, if opt_in then record_marketing_opt_in guest now s1 else s1))"

definition paid_order :: "nat \<Rightarrow> nat option \<Rightarrow> string \<Rightarrow> string \<Rightarrow> guest_account option \<Rightarrow> cents \<Rightarrow> string option \<Rightarrow> order" where
  "paid_order organization performance email name guest amount session_id =
     \<lparr>order_pk = 0, order_organization = organization, order_performance = performance,
      order_buyer_email = email, order_buyer_name = name, order_guest = map_option guest_pk guest,
      order_promo_code_text = '''', order_discount_amount = 0, order_total = amount,
      order_status = PAID, order_token = '''', order_stripe_checkout_session_id = session_id\<rparr>"

definition payment_row :: "order \<Rightarrow> string \<Rightarrow> cents \<Rightarrow> string \<Rightarrow> string \<Rightarrow> payment" where
  "payment_row o' provider amount status ref =
     \<lparr>pay_pk = 0, pay_organization = order_organization o', pay_order = order_pk o',
      pay_provider = provider, pay_amount = amount, pay_status = status, pay_provider_ref = ref\<rparr>"

text \<open>What follows the tickets of a paid hold: the gift line, the payment, the promo count, the hold.\<close>

definition finish_hold :: "hold \<Rightarrow> order \<Rightarrow> cents \<Rightarrow> string \<Rightarrow> string \<Rightarrow> db \<Rightarrow> db" where
  "finish_hold h o' amount provider payment_ref s =
     (let s1 = (if 0 < hold_donation h
                then create_item ((blank_item o' DONATION 1 (hold_donation h))
                       \<lparr>item_donation_campaign := hold_donation_campaign h\<rparr>) s
                else s);
          s2 = create_payment (payment_row o' provider amount ''succeeded'' payment_ref) s1;
          s3 = (case hold_promo_code h of None \<Rightarrow> s2 | Some k \<Rightarrow> record_redemption k s2)
      in delete_holds (\<lambda>x. hold_pk x = hold_pk h) s3)"

definition fulfill_hold ::
    "hold \<Rightarrow> string \<Rightarrow> string \<Rightarrow> string \<Rightarrow> string \<Rightarrow> string option \<Rightarrow> bool \<Rightarrow> time \<Rightarrow> db \<Rightarrow> error + (order \<times> db)" where
  "fulfill_hold h buyer_email buyer_name payment_ref provider session_id opt_in now s =
     bindE (guardE (now < hold_expires_at h) (FulfillErr HoldGoneError)) (\<lambda>_.
     bindE (hold_grand_total h s) (\<lambda>total.
     let (guest, s1) = attach_guest (hold_organization h) buyer_email buyer_name opt_in now s
     in bindE (create_order ((paid_order (hold_organization h) (Some (hold_performance h)) buyer_email
                 buyer_name guest total session_id)\<lparr>order_promo_code_text := hold_promo_code_text h,
                 order_discount_amount := hold_discount h\<rparr>) s1) (\<lambda>(o', s2).
        bindE (fulfill_inventory h o' s2) (\<lambda>s3.
        Inr (o', finish_hold h o' total provider payment_ref s3)))))"

definition fulfill_donation ::
    "nat \<Rightarrow> cents \<Rightarrow> nat option \<Rightarrow> string \<Rightarrow> string \<Rightarrow> string \<Rightarrow> string \<Rightarrow> string option \<Rightarrow> bool \<Rightarrow> time \<Rightarrow> db \<Rightarrow>
       error + (order \<times> db)" where
  "fulfill_donation organization amount campaign buyer_email buyer_name provider payment_ref session_id opt_in now s =
     (let (guest, s1) = attach_guest organization buyer_email buyer_name opt_in now s
      in bindE (create_order (paid_order organization None buyer_email buyer_name guest amount session_id) s1)
         (\<lambda>(o', s2).
           Inr (o', create_payment (payment_row o' provider amount ''succeeded'' payment_ref)
             (create_item ((blank_item o' DONATION 1 amount)\<lparr>item_donation_campaign := campaign\<rparr>) s2))))"

definition create_purchase :: "pass_product \<Rightarrow> guest_account option \<Rightarrow> order \<Rightarrow> db \<Rightarrow> db" where
  "create_purchase product guest o' s =
     s\<lparr>db_purchases := db_purchases s @
         [\<lparr>pp_pk = db_next s, pp_organization = order_organization o', pp_product = prod_pk product,
           pp_guest = map_option guest_pk guest, pp_order = order_pk o', pp_kind = prod_kind product,
           pp_credit_count = prod_credit_count product, pp_credits_remaining = prod_credit_count product,
           pp_valid_from = prod_valid_from product, pp_valid_until = prod_valid_until product,
           pp_covered_events = prod_events product, pp_status = PASS_ACTIVE\<rparr>],
       db_next := Suc (db_next s)\<rparr>"

definition fulfill_pass_purchase ::
    "nat \<Rightarrow> pass_product \<Rightarrow> string \<Rightarrow> string \<Rightarrow> string \<Rightarrow> string \<Rightarrow> string option \<Rightarrow> bool \<Rightarrow> time \<Rightarrow> db \<Rightarrow>
       error + (order \<times> db)" where
  "fulfill_pass_purchase organization product buyer_email buyer_name provider payment_ref session_id opt_in now s =
     bindE (guardE (prod_is_active product) (FulfillErr PassDataError)) (\<lambda>_.
     let (guest, s1) = attach_guest organization buyer_email buyer_name opt_in now s
     in bindE (create_order (paid_order organization None buyer_email buyer_name guest (prod_price product) session_id) s1)
        (\<lambda>(o', s2).
          Inr (o', create_payment (payment_row o' provider (prod_price product) ''succeeded'' payment_ref)
            (create_purchase product guest o'
              (create_item ((blank_item o' PASS 1 (prod_price product))
                 \<lparr>item_pass_product := Some (prod_pk product)\<rparr>) s2)))))"

section \<open>Redeeming a pass\<close>

definition ticket_count :: "hold \<Rightarrow> db \<Rightarrow> int" where
  "ticket_count h s = (if is_ga h then the (hold_quantity h) else int (length (seats_of_hold h s)))"

definition purchase_at :: "nat \<Rightarrow> db \<Rightarrow> pass_purchase option" where
  "purchase_at k s = get_row pp_pk k (db_purchases s)"

definition performance_at :: "nat \<Rightarrow> db \<Rightarrow> performance option" where
  "performance_at k s = get_row perf_pk k (db_performances s)"

text \<open>The checks under the lock of the pass, in the order of the code.\<close>

definition check_redemption :: "hold \<Rightarrow> pass_purchase \<Rightarrow> performance \<Rightarrow> time \<Rightarrow> db \<Rightarrow> error + unit" where
  "check_redemption h pp performance now s =
     (let refuse = (\<lambda>r. FulfillErr (PassRedemptionError r)); n = ticket_count h s
      in bindE (guardE (pp_organization pp = hold_organization h) (refuse PassOtherTenant)) (\<lambda>_.
         bindE (guardE (redeemable_now pp now) (refuse PassNotActive)) (\<lambda>_.
         bindE (guardE (pass_covers_performance pp performance) (refuse PassDoesNotCover)) (\<lambda>_.
         bindE (guardE (0 < n) (refuse NothingToRedeem)) (\<lambda>_.
         if pp_kind pp = FLEX
         then guardE (n \<le> (case pp_credits_remaining pp of None \<Rightarrow> 0 | Some c \<Rightarrow> c)) (refuse NotEnoughCredits)
         else bindE (guardE (n = 1) (refuse SeasonOneSeatPerShow)) (\<lambda>_.
              guardE (\<not> qs_exists (\<lambda>r. red_event r = perf_event performance) (redemptions_of pp s))
                (refuse AlreadyUsedForShow)))))))"

definition face_value :: "order \<Rightarrow> db \<Rightarrow> ticket \<Rightarrow> cents" where
  "face_value o' s t =
     (case tkt_seat t of
        None \<Rightarrow> (case filter (\<lambda>i. item_seat i = None) (items_of o' s) of
                   [] \<Rightarrow> 0 | is \<Rightarrow> item_unit_amount (last is))
      | Some k \<Rightarrow> (case filter (\<lambda>i. item_seat i = Some k) (items_of o' s) of
                   [] \<Rightarrow> 0 | is \<Rightarrow> item_unit_amount (last is)))"

definition redemption_row :: "hold \<Rightarrow> pass_purchase \<Rightarrow> order \<Rightarrow> performance \<Rightarrow> db \<Rightarrow> ticket \<Rightarrow> pass_redemption" where
  "redemption_row h pp o' performance s t =
     \<lparr>red_pk = 0, red_organization = hold_organization h, red_pass_purchase = pp_pk pp,
      red_order = order_pk o', red_ticket = tkt_pk t, red_performance = hold_performance h,
      red_event = perf_event performance, red_seat = tkt_seat t, red_face_value = face_value o' s t,
      red_credits_used = (if pp_kind pp = FLEX then 1 else 0)\<rparr>"

definition burn_credits :: "int \<Rightarrow> pass_purchase \<Rightarrow> pass_purchase" where
  "burn_credits n pp =
     (if pp_kind pp = FLEX
      then let left = max ((case pp_credits_remaining pp of None \<Rightarrow> 0 | Some c \<Rightarrow> c) - n) 0
           in pp\<lparr>pp_credits_remaining := Some left,
                 pp_status := (if left = 0 then PASS_EXHAUSTED else pp_status pp)\<rparr>
      else pp)"

text \<open>An \<open>IntegrityError\<close> of the redemption rows is reported as the pass having been used.\<close>

definition translate_season :: "error + 'a \<Rightarrow> error + 'a" where
  "translate_season r =
     (case r of
        Inl (PyErr (IntegrityError c)) \<Rightarrow> Inl (FulfillErr (PassRedemptionError AlreadyUsedForShow))
      | _ \<Rightarrow> r)"

definition fulfill_hold_with_pass ::
    "hold \<Rightarrow> nat \<Rightarrow> string \<Rightarrow> string \<Rightarrow> bool \<Rightarrow> time \<Rightarrow> db \<Rightarrow> error + (order \<times> db)" where
  "fulfill_hold_with_pass h pass_id buyer_email buyer_name opt_in now s =
     bindE (guardE (now < hold_expires_at h) (FulfillErr HoldGoneError)) (\<lambda>_.
     bindE (guardE (hold_promo_code h = None \<and> hold_promo_code_text h = '''')
              (FulfillErr (PassRedemptionError RemovePromoFirst))) (\<lambda>_.
     bindE (guardE (hold_donation h \<le> 0) (FulfillErr (PassRedemptionError RemoveDonationFirst))) (\<lambda>_.
     bindE (or_raise (purchase_at pass_id s) (PyErr DoesNotExist)) (\<lambda>pp.
     bindE (or_raise (performance_at (hold_performance h) s) (PyErr DoesNotExist)) (\<lambda>performance.
     bindE (check_redemption h pp performance now s) (\<lambda>_.
     let n = ticket_count h s;
         (guest, s1) = (case (case pp_guest pp of None \<Rightarrow> None | Some g \<Rightarrow> get_row guest_pk g (db_guests s)) of
             Some g \<Rightarrow> (Some g, if opt_in then record_marketing_opt_in (Some g) now s else s)
           | None \<Rightarrow> attach_guest (hold_organization h) buyer_email buyer_name opt_in now s)
     in bindE (create_order (paid_order (hold_organization h) (Some (hold_performance h)) buyer_email
                 buyer_name guest 0 None) s1) (\<lambda>(o', s2).
        bindE (fulfill_inventory h o' s2) (\<lambda>s3.
        bindE (translate_season (create_redemptions
                 (map (redemption_row h pp o' performance s3) (tickets_of o' s3)) s3)) (\<lambda>s4.
        let s5 = (if pp_kind pp = FLEX
                  then s4\<lparr>db_purchases := update_rows (\<lambda>x. pp_pk x = pp_pk pp) (\<lambda>_. burn_credits n pp)
                            (db_purchases s4)\<rparr>
                  else s4)
        in Inr (o', delete_holds (\<lambda>x. hold_pk x = hold_pk h)
             (create_payment (payment_row o' ''pass'' 0 ''succeeded'' (''pass-'' @ show_nat (pp_pk pp))) s5)))))))))))"

section \<open>The paid Stripe session\<close>

text \<open>
  The part of Stripe's \<open>checkout.session.completed\<close> object the code reads; \<open>ss_metadata\<close> is the
  dictionary the session was created with.
\<close>

record stripe_session =
  ss_id :: string
  ss_metadata :: "string \<rightharpoonup> string"
  ss_email :: "string option"
  ss_name :: "string option"
  ss_payment_intent :: "string option"

definition order_for_session :: "nat \<Rightarrow> string \<Rightarrow> db \<Rightarrow> order option" where
  "order_for_session organization session_id s =
     first_row (filter (\<lambda>x. order_organization x = organization \<and>
       order_stripe_checkout_session_id x = Some session_id) (db_orders s))"

definition or_blank :: "string option \<Rightarrow> string" where
  "or_blank v = (case v of None \<Rightarrow> '''' | Some x \<Rightarrow> x)"

definition payment_ref_of :: "stripe_session \<Rightarrow> string" where
  "payment_ref_of ss = (if or_blank (ss_payment_intent ss) = '''' then ss_id ss else or_blank (ss_payment_intent ss))"

text \<open>
  A primary key read back from metadata: \<open>int(text)\<close>, which raises \<open>ValueError\<close> on anything that is
  not a decimal number (signs and underscores, which \<open>int\<close> also takes, are left out).
\<close>

definition parse_key :: "string \<Rightarrow> error + nat" where
  "parse_key text =
     (if strip text \<noteq> '''' \<and> list_all is_digit (strip text) then Inr (nat (digits_val (strip text)))
      else Inl (PyErr ValueError))"

definition session_campaign :: "nat \<Rightarrow> stripe_session \<Rightarrow> db \<Rightarrow> error + nat option" where
  "session_campaign organization ss s =
     (case ss_metadata ss ''donation_campaign_id'' of
        None \<Rightarrow> Inr None
      | Some text \<Rightarrow>
          (if text = '''' then Inr None
           else bindE (parse_key text) (\<lambda>k.
             Inr (map_option camp_pk (first_row (filter (\<lambda>c. camp_organization c = organization \<and> camp_pk c = k)
               (db_campaigns s)))))))"

text \<open>
  \<open>Decimal(metadata["donation_amount"])\<close>; the value is stored in a column of ten digits, two of them
  decimals, so a special value or one that does not fit is an error when it is saved.
\<close>

definition session_amount :: "stripe_session \<Rightarrow> error + cents" where
  "session_amount ss =
     (case ss_metadata ss ''donation_amount'' of
        None \<Rightarrow> Inl (FulfillErr DonationDataError)
      | Some text \<Rightarrow>
          (case parse_decimal text of
             None \<Rightarrow> Inl (FulfillErr DonationDataError)
           | Some d \<Rightarrow>
               (case quantize_cents d of
                  Some (Cents a) \<Rightarrow> if \<bar>a\<bar> < 10 ^ 10 then Inr a else Inl (PyErr InvalidOperation)
                | _ \<Rightarrow> Inl (PyErr InvalidOperation))))"

text \<open>The \<open>IntegrityError\<close> fallback: the order a concurrent delivery committed, if there is one.\<close>

definition or_winner ::
    "nat \<Rightarrow> string \<Rightarrow> error option \<Rightarrow> db \<Rightarrow> error + (order \<times> db) \<Rightarrow> error + (order \<times> bool \<times> db)" where
  "or_winner organization session_id otherwise s r =
     (case r of
        Inr (o', s') \<Rightarrow> Inr (o', True, s')
      | Inl (PyErr (IntegrityError c)) \<Rightarrow>
          (case order_for_session organization session_id s of
             Some winner \<Rightarrow> Inr (winner, False, s)
           | None \<Rightarrow> Inl (case otherwise of None \<Rightarrow> PyErr (IntegrityError c) | Some e \<Rightarrow> e))
      | Inl e \<Rightarrow> Inl e)"

definition fulfill_donation_session ::
    "nat \<Rightarrow> stripe_session \<Rightarrow> bool \<Rightarrow> time \<Rightarrow> db \<Rightarrow> error + (order \<times> bool \<times> db)" where
  "fulfill_donation_session organization ss opt_in now s =
     bindE (session_amount ss) (\<lambda>amount.
     bindE (session_campaign organization ss s) (\<lambda>campaign.
     or_winner organization (ss_id ss) None s
       (fulfill_donation organization amount campaign (or_blank (ss_email ss)) (or_blank (ss_name ss))
          ''stripe'' (payment_ref_of ss) (Some (ss_id ss)) opt_in now s)))"

definition fulfill_pass_session ::
    "nat \<Rightarrow> stripe_session \<Rightarrow> bool \<Rightarrow> time \<Rightarrow> db \<Rightarrow> error + (order \<times> bool \<times> db)" where
  "fulfill_pass_session organization ss opt_in now s =
     (let product_id = or_blank (ss_metadata ss ''pass_product_id'')
      in bindE (if product_id = '''' then Inr None
                else bindE (parse_key product_id) (\<lambda>k.
                  Inr (first_row (filter (\<lambda>p. prod_organization p = organization \<and> prod_pk p = k) (db_products s)))))
         (\<lambda>product.
           bindE (or_raise product (FulfillErr PassDataError)) (\<lambda>p.
           or_winner organization (ss_id ss) None s
             (fulfill_pass_purchase organization p (or_blank (ss_email ss)) (or_blank (ss_name ss))
                ''stripe'' (payment_ref_of ss) (Some (ss_id ss)) opt_in now s))))"

definition fulfill_hold_session ::
    "nat \<Rightarrow> stripe_session \<Rightarrow> bool \<Rightarrow> time \<Rightarrow> db \<Rightarrow> error + (order \<times> bool \<times> db)" where
  "fulfill_hold_session organization ss opt_in now s =
     bindE (case ss_metadata ss ''hold_id'' of None \<Rightarrow> Inr None | Some text \<Rightarrow> bindE (parse_key text) (\<lambda>k. Inr (Some k)))
       (\<lambda>hold_id.
     bindE (or_raise (first_row (filter (\<lambda>h. hold_organization h = organization \<and> Some (hold_pk h) = hold_id)
              (db_holds s))) (FulfillErr HoldGoneError)) (\<lambda>h.
     bindE (guardE (now < hold_expires_at h) (FulfillErr HoldGoneError)) (\<lambda>_.
     or_winner organization (ss_id ss) (Some (FulfillErr AvailabilityChangedError)) s
       (fulfill_hold h (or_blank (ss_email ss)) (or_blank (ss_name ss)) (payment_ref_of ss) ''stripe''
          (Some (ss_id ss)) opt_in now s))))"

definition fulfill_checkout_session ::
    "nat \<Rightarrow> stripe_session \<Rightarrow> time \<Rightarrow> db \<Rightarrow> error + (order \<times> bool \<times> db)" where
  "fulfill_checkout_session organization ss now s =
     (case order_for_session organization (ss_id ss) s of
        Some existing \<Rightarrow> Inr (existing, False, s)
      | None \<Rightarrow>
          (let meta = ss_metadata ss; session_org = or_blank (meta ''organization_id'');
               opt_in = (meta ''marketing_opt_in'' = Some ''1'')
           in if session_org \<noteq> '''' \<and> session_org \<noteq> show_nat organization
                then Inl (FulfillErr TenantMismatchError)
              else if meta ''kind'' = Some ''donation'' then fulfill_donation_session organization ss opt_in now s
              else if meta ''kind'' = Some ''pass'' then fulfill_pass_session organization ss opt_in now s
              else fulfill_hold_session organization ss opt_in now s))"

section \<open>Reversals\<close>

definition set_order_status :: "order_status \<Rightarrow> order \<Rightarrow> db \<Rightarrow> db" where
  "set_order_status st o' s =
     s\<lparr>db_orders := update_rows (\<lambda>x. order_pk x = order_pk o') (\<lambda>x. x\<lparr>order_status := st\<rparr>) (db_orders s)\<rparr>"

definition sold_a_pass :: "order \<Rightarrow> db \<Rightarrow> bool" where
  "sold_a_pass o' s = qs_exists (\<lambda>i. item_kind i = PASS) (items_of o' s)"

definition purchases_of :: "order \<Rightarrow> db \<Rightarrow> pass_purchase list" where
  "purchases_of o' s = filter (\<lambda>p. pp_order p = order_pk o') (db_purchases s)"

text \<open>
  \<open>stripe_refund pi account\<close> stands for \<open>stripe.Refund.create\<close>: the id of the refund, or none when
  Stripe rejects it.
\<close>

definition refund_money ::
    "(string \<Rightarrow> string \<Rightarrow> string option) \<Rightarrow> order \<Rightarrow> db \<Rightarrow> error + (string \<times> string)" where
  "refund_money stripe_refund o' s =
     (let payment = first_row (filter (\<lambda>p. pay_order p = order_pk o' \<and> pay_status p = ''succeeded'') (db_payments s));
          provider = (case payment of None \<Rightarrow> ''stripe'' | Some p \<Rightarrow> pay_provider p);
          intent = (case payment of None \<Rightarrow> '''' | Some p \<Rightarrow> pay_provider_ref p);
          account = (case org_at (order_organization o') s of None \<Rightarrow> '''' | Some g \<Rightarrow> org_stripe_account_id g)
      in if provider = ''stripe''
         then bindE (guardE (take 3 intent = ''pi_'') (RefundErr NoPaymentIntent)) (\<lambda>_.
              bindE (or_raise (stripe_refund intent account) (RefundErr StripeRejected)) (\<lambda>ref. Inr (provider, ref)))
         else Inr (provider, ''''))"

definition refund_order ::
    "(string \<Rightarrow> string \<Rightarrow> string option) \<Rightarrow> nat \<Rightarrow> db \<Rightarrow> error + (bool \<times> db)" where
  "refund_order stripe_refund pk s =
     bindE (or_raise (get_row order_pk pk (db_orders s)) (PyErr DoesNotExist)) (\<lambda>o'.
     if order_status o' \<noteq> PAID then Inr (False, s)
     else
       bindE (guardE (\<not> (sold_a_pass o' s \<and> (\<exists>p\<in>set (purchases_of o' s). redemptions_of p s \<noteq> [])))
                (RefundErr PassHasBeenUsed)) (\<lambda>_.
       bindE (refund_money stripe_refund o' s) (\<lambda>(provider, refund_ref).
       bindE (void_order o' s) (\<lambda>(voided, s1).
       let s2 = snd (restore_redemptions_for_order o' s1);
           s3 = (if sold_a_pass o' s
                 then s2\<lparr>db_purchases := update_rows (\<lambda>p. pp_order p = order_pk o')
                           (\<lambda>p. p\<lparr>pp_status := PASS_REFUNDED\<rparr>) (db_purchases s2)\<rparr>
                 else s2)
       in Inr (True, create_payment (payment_row o' provider (order_total o') ''refunded'' refund_ref)
            (set_order_status REFUNDED o' s3))))))"

text \<open>The dashboard's cancel view: the count it reports, none when there was nothing to cancel.\<close>

definition order_cancel :: "order \<Rightarrow> db \<Rightarrow> error + (nat option \<times> db)" where
  "order_cancel o' s =
     (if order_status o' = CANCELLED \<or> order_status o' = REFUNDED then Inr (None, s)
      else bindE (void_order o' s) (\<lambda>(voided, s1).
        Inr (Some voided, set_order_status CANCELLED o' (snd (restore_redemptions_for_order o' s1)))))"

end
