(* ===== verification/Checkout.thy ===== *)
theory Checkout
  imports Fulfillment
begin

text \<open>
  payments/services.py up to the payment page: the platform fee, the line items of a hold, and the
  three operations that create a Stripe Checkout Session. A session is the record of the parameters
  \<open>stripe.checkout.Session.create\<close> is called with; the coupon created just before stands in it for
  its id. The URLs it returns to are constants and are left out; a product name is represented by
  the rows it is rendered from.
\<close>

section \<open>The platform fee\<close>

text \<open>The two integers of the settings; the fixed part is already in minor units.\<close>

record fee_settings =
  platform_fee_percent :: int
  platform_fee_fixed_cents :: int

text \<open>
  Percentages are hundredths of a percent, so \<open>total * percent / 100\<close> in major units is
  \<open>total * percent / 10^6\<close> here.
\<close>

definition fee_percent :: "fee_settings \<Rightarrow> organization \<Rightarrow> int" where
  "fee_percent cfg organization =
     (case org_platform_fee_percent organization of
        None \<Rightarrow> 100 * platform_fee_percent cfg
      | Some p \<Rightarrow> p)"

definition application_fee_amount ::
    "fee_settings \<Rightarrow> organization \<Rightarrow> cents \<Rightarrow> string option \<Rightarrow> int option" where
  "application_fee_amount cfg organization amount currency =
     (let percent = fee_percent cfg organization;
          given = or_blank currency;
          code = upper (if given \<noteq> '''' then given else org_currency organization);
          pct_minor =
            (if code \<in> set zero_decimal_currencies then round_half_up (amount * percent) (10 ^ 6)
             else if code \<in> set three_decimal_currencies
               then round_half_up (amount * percent * 1000) (10 ^ 6) div 10 * 10
             else round_half_up (amount * percent * 100) (10 ^ 6));
          fee_minor = pct_minor + platform_fee_fixed_cents cfg
      in if fee_minor \<le> 0 then None else Some fee_minor)"

section \<open>Line items\<close>

datatype product_name =
    TierName nat nat
  | SeatName nat nat
  | GiftName nat
  | PassName nat

record line_item =
  li_quantity :: int
  li_currency :: string
  li_unit_amount :: int
  li_name :: product_name

definition append_donation_line_item :: "hold \<Rightarrow> line_item list \<Rightarrow> db \<Rightarrow> error + line_item list" where
  "append_donation_line_item h line_items s =
     (let donation = hold_donation h
      in if donation \<le> 0 then Inr line_items
         else bindE (hold_currency h s) (\<lambda>currency.
           Inr (line_items @ [\<lparr>li_quantity = 1, li_currency = lower currency,
                  li_unit_amount = to_minor_units donation currency,
                  li_name = GiftName (hold_organization h)\<rparr>])))"

text \<open>A zone-priced seat has no tier and falls back to the organization's currency.\<close>

definition seat_currency :: "hold \<Rightarrow> hold_seat \<Rightarrow> db \<Rightarrow> error + string" where
  "seat_currency h r s =
     (case hs_price_tier r of
        Some k \<Rightarrow> bindE (or_raise (tier_at k s) (PyErr DoesNotExist)) (\<lambda>t. Inr (tier_currency t))
      | None \<Rightarrow> bindE (or_raise (org_at (hold_organization h) s) (PyErr DoesNotExist)) (\<lambda>g. Inr (org_currency g)))"

fun seat_line_items :: "hold \<Rightarrow> hold_seat list \<Rightarrow> db \<Rightarrow> error + line_item list" where
  "seat_line_items h [] s = Inr []"
| "seat_line_items h (r # rs) s =
     bindE (seat_currency h r s) (\<lambda>currency.
     bindE (seat_line_items h rs s) (\<lambda>rest.
       Inr (\<lparr>li_quantity = 1, li_currency = lower currency,
             li_unit_amount = to_minor_units (hs_unit_amount r) currency,
             li_name = SeatName (hold_performance h) (hs_seat r)\<rparr> # rest)))"

definition line_items_for_hold :: "hold \<Rightarrow> db \<Rightarrow> error + line_item list" where
  "line_items_for_hold h s =
     (if is_ga h
      then bindE (or_raise (tier_at (the (hold_price_tier h)) s) (PyErr DoesNotExist)) (\<lambda>tier.
           bindE (ga_unit_amount h s) (\<lambda>unit_amount.
             append_donation_line_item h
               [\<lparr>li_quantity = the (hold_quantity h), li_currency = lower (tier_currency tier),
                 li_unit_amount = to_minor_units unit_amount (tier_currency tier),
                 li_name = TierName (hold_performance h) (tier_pk tier)\<rparr>] s))
      else bindE (seat_line_items h (seats_of_hold h s) s) (\<lambda>line_items.
             append_donation_line_item h line_items s))"

section \<open>Sessions\<close>

record coupon =
  amount_off :: int
  coupon_currency :: string
  coupon_name :: string

record session_params =
  sp_line_items :: "line_item list"
  sp_metadata :: "string \<rightharpoonup> string"
  sp_application_fee :: "int option"
  sp_coupon :: "coupon option"
  sp_customer_email :: "string option"
  sp_account :: string

text \<open>The simulated page of a tenant that cannot charge yet, with its query string.\<close>

datatype payment_page = StubPage string | StripePage session_params

definition consent_entry :: "bool \<Rightarrow> (string \<rightharpoonup> string) \<Rightarrow> (string \<rightharpoonup> string)" where
  "consent_entry marketing_opt_in m = (if marketing_opt_in then m(''marketing_opt_in'' \<mapsto> ''1'') else m)"

definition create_checkout_session ::
    "fee_settings \<Rightarrow> hold \<Rightarrow> bool \<Rightarrow> time \<Rightarrow> db \<Rightarrow> error + payment_page" where
  "create_checkout_session cfg h marketing_opt_in now s =
     bindE (guardE (now < hold_expires_at h) (CheckoutErr CheckoutHoldExpired)) (\<lambda>_.
     bindE (line_items_for_hold h s) (\<lambda>line_items.
     bindE (guardE (line_items \<noteq> []) (CheckoutErr NothingToCheckOut)) (\<lambda>_.
     bindE (or_raise (org_at (hold_organization h) s) (PyErr DoesNotExist)) (\<lambda>organization.
     if \<not> org_stripe_charges_enabled organization
     then Inr (StubPage (''?hold_id='' @ show_nat (hold_pk h)))
     else
       bindE (hold_currency h s) (\<lambda>currency.
       bindE (hold_grand_total h s) (\<lambda>grand_total.
       let fee = application_fee_amount cfg organization grand_total (Some currency);
           discount_minor = to_minor_units (hold_discount h) currency;
           text = hold_promo_code_text h
       in Inr (StripePage \<lparr>sp_line_items = line_items,
            sp_metadata = consent_entry marketing_opt_in
              [''hold_id'' \<mapsto> show_nat (hold_pk h), ''organization_id'' \<mapsto> show_nat (org_pk organization)],
            sp_application_fee = fee,
            sp_coupon = (if 0 < discount_minor
              then Some \<lparr>amount_off = discount_minor, coupon_currency = lower currency,
                     coupon_name = take 40 (if text = '''' then ''Discount'' else text)\<rparr>
              else None),
            sp_customer_email = None, sp_account = org_stripe_account_id organization\<rparr>)))))))"

text \<open>\<open>(organization.currency or "usd").lower()\<close>\<close>

definition org_charge_currency :: "organization \<Rightarrow> string" where
  "org_charge_currency organization =
     lower (if org_currency organization = '''' then ''usd'' else org_currency organization)"

definition one_line :: "string \<Rightarrow> int \<Rightarrow> product_name \<Rightarrow> line_item" where
  "one_line currency amount name =
     \<lparr>li_quantity = 1, li_currency = currency, li_unit_amount = to_minor_units amount currency, li_name = name\<rparr>"

definition create_donation_checkout_session ::
    "fee_settings \<Rightarrow> organization \<Rightarrow> cents \<Rightarrow> donation_campaign option \<Rightarrow> string \<Rightarrow> bool \<Rightarrow> payment_page" where
  "create_donation_checkout_session cfg organization amount campaign buyer_email marketing_opt_in =
     (let currency = org_charge_currency organization
      in if \<not> org_stripe_charges_enabled organization
         then StubPage (''?amount='' @ show_cents amount)
         else StripePage \<lparr>sp_line_items = [one_line currency amount (GiftName (org_pk organization))],
           sp_metadata = consent_entry marketing_opt_in
             [''kind'' \<mapsto> ''donation'', ''organization_id'' \<mapsto> show_nat (org_pk organization),
              ''donation_campaign_id'' \<mapsto> (case campaign of None \<Rightarrow> '''' | Some c \<Rightarrow> show_nat (camp_pk c)),
              ''donation_amount'' \<mapsto> show_cents amount],
           sp_application_fee = application_fee_amount cfg organization amount (Some currency),
           sp_coupon = None,
           sp_customer_email = (if buyer_email = '''' then None else Some buyer_email),
           sp_account = org_stripe_account_id organization\<rparr>)"

definition create_pass_checkout_session ::
    "fee_settings \<Rightarrow> organization \<Rightarrow> pass_product \<Rightarrow> string \<Rightarrow> bool \<Rightarrow> payment_page" where
  "create_pass_checkout_session cfg organization product buyer_email marketing_opt_in =
     (let currency = org_charge_currency organization
      in if \<not> org_stripe_charges_enabled organization
         then StubPage (''?product_id='' @ show_nat (prod_pk product))
         else StripePage \<lparr>sp_line_items = [one_line currency (prod_price product) (PassName (prod_pk product))],
           sp_metadata = consent_entry marketing_opt_in
             [''kind'' \<mapsto> ''pass'', ''organization_id'' \<mapsto> show_nat (org_pk organization),
              ''pass_product_id'' \<mapsto> show_nat (prod_pk product)],
           sp_application_fee = application_fee_amount cfg organization (prod_price product) (Some currency),
           sp_coupon = None,
           sp_customer_email = (if buyer_email = '''' then None else Some buyer_email),
           sp_account = org_stripe_account_id organization\<rparr>)"

section \<open>What a session charges\<close>

text \<open>
  The specification: what Stripe collects for a session, in minor units, and when an amount of
  hundredths is a whole number of a currency's minor units.
\<close>

definition collected :: "session_params \<Rightarrow> int" where
  "collected p = sum_list (map (\<lambda>i. li_quantity i * li_unit_amount i) (sp_line_items p)) -
     (case sp_coupon p of None \<Rightarrow> 0 | Some c \<Rightarrow> amount_off c)"

definition minor_per_major :: "string \<Rightarrow> int" where
  "minor_per_major currency = (if zero_decimal currency then 1 else if two_decimal currency then 100 else 1000)"

definition whole_minor :: "string \<Rightarrow> cents \<Rightarrow> bool" where
  "whole_minor currency amount \<longleftrightarrow> (zero_decimal currency \<longrightarrow> amount mod 100 = 0)"

lemma to_minor_exact:
  assumes "whole_minor c a"
  shows "100 * to_minor_units a c = minor_per_major c * a"
proof (cases "zero_decimal c")
  case True
  with assms obtain k where "a = k * 100" by (metis whole_minor_def mod_eq_0_iff_dvd dvd_div_mult_self)
  with True show ?thesis by (simp add: to_minor_units_zero round_half_even_exact minor_per_major_def)
next
  case False
  then show ?thesis by (auto simp: minor_per_major_def to_minor_units_three)
qed

end
