(* ===== verification/OrderFacts.thy ===== *)
theory OrderFacts
  imports Fulfillment "HOL-Library.Multiset"
begin

text \<open>
  What the fulfillment transactions of payments/services.py write: the rows they append, that the
  lines of an order add up to what was charged, that a Stripe session is fulfilled once, and that
  a refund undoes a redemption.
\<close>

section \<open>Appending order lines and tickets\<close>

definition plain_item :: "order_item \<Rightarrow> order_item" where
  "plain_item i = i\<lparr>item_pk := 0\<rparr>"

definition plain_ticket :: "ticket \<Rightarrow> ticket" where
  "plain_ticket t = t\<lparr>tkt_pk := 0, tkt_token := ''''\<rparr>"

text \<open>
  \<open>appended s is ts s'\<close>: up to keys and tokens, \<open>s'\<close> is \<open>s\<close> with the lines \<open>is\<close> and the tickets \<open>ts\<close>
  added and nothing else changed; the tickets stay in key order.
\<close>

definition appended :: "db \<Rightarrow> order_item list \<Rightarrow> ticket list \<Rightarrow> db \<Rightarrow> bool" where
  "appended s is ts s' \<longleftrightarrow>
     (\<exists>is' ts'. map plain_item is' = map plain_item is \<and> map plain_ticket ts' = map plain_ticket ts \<and>
        s' = s\<lparr>db_items := db_items s @ is', db_tickets := db_tickets s @ ts', db_next := db_next s'\<rparr>) \<and>
     db_next s \<le> db_next s' \<and>
     (well_keyed tkt_pk (db_next s) (db_tickets s) \<longrightarrow> well_keyed tkt_pk (db_next s') (db_tickets s'))"

lemma appended_refl: "appended s [] [] s"
  by (simp add: appended_def)

lemma appended_trans:
  assumes "appended s is ts s1" and "appended s1 is' ts' s2"
  shows "appended s (is @ is') (ts @ ts') s2"
proof -
  from assms(1) obtain i1 t1 where 1: "map plain_item i1 = map plain_item is" "map plain_ticket t1 = map plain_ticket ts"
    "s1 = s\<lparr>db_items := db_items s @ i1, db_tickets := db_tickets s @ t1, db_next := db_next s1\<rparr>"
    unfolding appended_def by blast
  from assms(2) obtain i2 t2 where 2: "map plain_item i2 = map plain_item is'" "map plain_ticket t2 = map plain_ticket ts'"
    "s2 = s1\<lparr>db_items := db_items s1 @ i2, db_tickets := db_tickets s1 @ t2, db_next := db_next s2\<rparr>"
    unfolding appended_def by blast
  have d1: "db_items s1 = db_items s @ i1" "db_tickets s1 = db_tickets s @ t1"
    by (subst 1(3), simp)+
  have "s2 = s\<lparr>db_items := db_items s @ i1 @ i2, db_tickets := db_tickets s @ t1 @ t2, db_next := db_next s2\<rparr>"
    by (subst 2(3), subst 1(3)) (simp add: d1)
  with 1(1,2) 2(1,2) have "\<exists>is' ts''. map plain_item is' = map plain_item (is @ is'a) \<and>
      map plain_ticket ts'' = map plain_ticket (ts @ ts') \<and>
      s2 = s\<lparr>db_items := db_items s @ is', db_tickets := db_tickets s @ ts'', db_next := db_next s2\<rparr>"
    if "is'a = is'" for is'a
    using that by (intro exI [of _ "i1 @ i2"] exI [of _ "t1 @ t2"]) simp
  then show ?thesis using assms unfolding appended_def by auto
qed

lemma appended_item: "appended s [i] [] (create_item i s)"
proof -
  have "create_item i s = s\<lparr>db_items := db_items s @ [i\<lparr>item_pk := db_next s\<rparr>], db_tickets := db_tickets s @ [],
      db_next := db_next (create_item i s)\<rparr>" by (simp add: create_item_def)
  moreover have "map plain_item [i\<lparr>item_pk := db_next s\<rparr>] = map plain_item [i]" by (simp add: plain_item_def)
  moreover have "well_keyed tkt_pk (db_next s) (db_tickets s) \<longrightarrow>
      well_keyed tkt_pk (db_next (create_item i s)) (db_tickets (create_item i s))"
    using ticket_rows.keyed_mono [of "db_next s" "db_tickets s" "Suc (db_next s)"] by (simp add: create_item_def)
  ultimately show ?thesis unfolding appended_def
    by (intro conjI exI [of _ "[i\<lparr>item_pk := db_next s\<rparr>]"] exI [of _ "[]"]) (auto simp: create_item_def)
qed

lemma appended_ticket:
  assumes "create_ticket t s = Inr s'"
  shows "appended s [] [t] s'"
proof -
  let ?t = "t\<lparr>tkt_pk := db_next s, tkt_token := db_entropy s (db_next s)\<rparr>"
  from create_ticket_effect [OF assms] have s': "s' = s\<lparr>db_tickets := db_tickets s @ [?t], db_next := Suc (db_next s)\<rparr>" .
  have "well_keyed tkt_pk (Suc (db_next s)) (db_tickets s @ [?t])" if "well_keyed tkt_pk (db_next s) (db_tickets s)"
    using that by (auto simp: well_keyed_def sorted_wrt_append less_Suc_eq)
  then show ?thesis unfolding appended_def
    by (intro conjI exI [of _ "[]"] exI [of _ "[?t]"]) (auto simp: s' plain_ticket_def)
qed

lemma appended_tickets: "create_tickets ts s = Inr s' \<Longrightarrow> appended s [] ts s'"
proof (induction ts arbitrary: s)
  case Nil
  then show ?case by (simp add: appended_refl)
next
  case (Cons t ts)
  then obtain s1 where "create_ticket t s = Inr s1" "create_tickets ts s1 = Inr s'" by auto
  with Cons.IH appended_ticket appended_trans [of s "[]" "[t]" s1 "[]" ts s'] show ?case by auto
qed

lemma appended_mint:
  "mint_seats h o' rs s = Inr s' \<Longrightarrow>
     appended s (map (reserved_item o') rs) (map (\<lambda>r. new_ticket h o' (Some (hs_seat r))) rs) s'"
proof (induction rs arbitrary: s)
  case Nil
  then show ?case by (simp add: appended_refl)
next
  case (Cons r rs)
  let ?s = "create_item (reserved_item o' r) s"
  from Cons.prems obtain s1 where t: "create_ticket (new_ticket h o' (Some (hs_seat r))) ?s = Inr s1"
    and m: "mint_seats h o' rs s1 = Inr s'" by auto
  have "appended s [reserved_item o' r] [new_ticket h o' (Some (hs_seat r))] s1"
    using appended_trans [OF appended_item appended_ticket [OF t]] by simp
  from appended_trans [OF this Cons.IH [OF m]] show ?case by simp
qed

lemma appended_eq:
  assumes "appended s is ts s'"
  obtains is' ts' where "map plain_item is' = map plain_item is" "map plain_ticket ts' = map plain_ticket ts"
    "s' = s\<lparr>db_items := db_items s @ is', db_tickets := db_tickets s @ ts', db_next := db_next s'\<rparr>"
  using assms unfolding appended_def by blast

lemma appended_obs:
  assumes "appended s is ts s'" and "\<And>x y n. f (s\<lparr>db_items := x, db_tickets := y, db_next := n\<rparr>) = f s"
  shows "f s' = f s"
proof -
  from assms(1) obtain is' ts' where "s' = s\<lparr>db_items := db_items s @ is', db_tickets := db_tickets s @ ts', db_next := db_next s'\<rparr>"
    by (rule appended_eq)
  then have "f s' = f (s\<lparr>db_items := db_items s @ is', db_tickets := db_tickets s @ ts', db_next := db_next s'\<rparr>)"
    by (rule arg_cong)
  then show ?thesis by (simp only: assms(2))
qed

lemma appended_frame [frame]:
  assumes "appended s is ts s'"
  shows "db_allocations s' = db_allocations s" "db_holds s' = db_holds s" "db_hold_seats s' = db_hold_seats s"
    "db_orders s' = db_orders s" "db_payments s' = db_payments s" "db_purchases s' = db_purchases s"
    "db_redemptions s' = db_redemptions s" "db_promos s' = db_promos s" "db_guests s' = db_guests s"
    "db_entropy s' = db_entropy s" "db_performances s' = db_performances s" "db_blocks s' = db_blocks s"
    "db_tiers s' = db_tiers s" "db_seats s' = db_seats s" "db_orgs s' = db_orgs s"
  by (rule appended_obs [OF assms], simp)+

lemma appended_rows:
  assumes "appended s is ts s'"
  obtains is' ts' where "db_items s' = db_items s @ is'" "map plain_item is' = map plain_item is"
    "db_tickets s' = db_tickets s @ ts'" "map plain_ticket ts' = map plain_ticket ts"
proof -
  from assms obtain is' ts' where p: "map plain_item is' = map plain_item is" "map plain_ticket ts' = map plain_ticket ts"
    and e: "s' = s\<lparr>db_items := db_items s @ is', db_tickets := db_tickets s @ ts', db_next := db_next s'\<rparr>"
    by (rule appended_eq)
  have "db_items s' = db_items s @ is'" "db_tickets s' = db_tickets s @ ts'"
    by (subst e, simp)+
  with p that show ?thesis by blast
qed

section \<open>The inventory step\<close>

definition inventory_items :: "hold \<Rightarrow> order \<Rightarrow> db \<Rightarrow> order_item list" where
  "inventory_items h o' s =
     (if is_ga h
      then [(blank_item o' TICKET (the (hold_quantity h)) (case ga_unit_amount h s of Inr u \<Rightarrow> u | Inl _ \<Rightarrow> 0))
              \<lparr>item_price_tier := hold_price_tier h\<rparr>]
      else map (reserved_item o') (order_by hs_seat (seats_of_hold h s)))"

definition inventory_seats :: "hold \<Rightarrow> db \<Rightarrow> nat option list" where
  "inventory_seats h s =
     (if is_ga h then replicate (nat (the (hold_quantity h))) None
      else map (\<lambda>r. Some (hs_seat r)) (order_by hs_seat (seats_of_hold h s)))"

lemma inventory_effect:
  assumes "fulfill_inventory h o' s = Inr s'"
  shows "\<exists>s1. appended s (inventory_items h o' s) (map (new_ticket h o') (inventory_seats h s)) s1 \<and>
    (if is_ga h
     then \<exists>a u. allocation_of (hold_performance h) s = Some a \<and> ga_unit_amount h s = Inr u \<and>
        alloc_sold a + the (hold_quantity h) \<le> alloc_capacity a \<and>
        s' = s1\<lparr>db_allocations := update_rows (\<lambda>x. alloc_pk x = alloc_pk a)
            (\<lambda>x. x\<lparr>alloc_sold := alloc_sold a + the (hold_quantity h)\<rparr>) (db_allocations s)\<rparr>
     else s' = s1 \<and> (\<forall>r\<in>set (seats_of_hold h s). hs_seat r \<notin> ticketed_ids (hold_performance h) s))"
proof (cases "is_ga h")
  case True
  let ?q = "the (hold_quantity h)"
  from assms True obtain a u where a: "allocation_of (hold_performance h) s = Some a"
    "alloc_sold a + ?q \<le> alloc_capacity a" and u: "ga_unit_amount h s = Inr u"
    and b: "bindE (create_tickets (replicate (nat ?q) (new_ticket h o' None))
        (create_item ((blank_item o' TICKET ?q u)\<lparr>item_price_tier := hold_price_tier h\<rparr>) s))
        (save_sold a (alloc_sold a + ?q)) = Inr s'"
    by (auto simp: fulfill_inventory_def fulfill_ga_def Let_def)
  then obtain s1 where t: "create_tickets (replicate (nat ?q) (new_ticket h o' None))
        (create_item ((blank_item o' TICKET ?q u)\<lparr>item_price_tier := hold_price_tier h\<rparr>) s) = Inr s1"
    and sv: "save_sold a (alloc_sold a + ?q) s1 = Inr s'" by auto
  have ap: "appended s (inventory_items h o' s) (map (new_ticket h o') (inventory_seats h s)) s1"
    using appended_trans [OF appended_item appended_tickets [OF t]] True u
    by (simp add: inventory_items_def inventory_seats_def)
  then have "db_allocations s1 = db_allocations s"
    by (rule appended_frame)
  with sv a u True ap show ?thesis by (auto simp: save_sold_def split: if_splits)
next
  case False
  let ?rs = "order_by hs_seat (seats_of_hold h s)"
  from assms False have free: "\<forall>r\<in>set ?rs. hs_seat r \<notin> ticketed_ids (hold_performance h) s"
    and m: "mint_seats h o' ?rs s = Inr s'"
    by (auto simp: fulfill_inventory_def fulfill_reserved_def Let_def)
  have "appended s (inventory_items h o' s) (map (new_ticket h o') (inventory_seats h s)) s'"
    using appended_mint [OF m] False by (simp add: inventory_items_def inventory_seats_def o_def)
  with free False show ?thesis by (auto simp: order_by_def)
qed

text \<open>The lines add up to the gross of the hold, and there is a ticket for every admission.\<close>

definition lines_total :: "order_item list \<Rightarrow> cents" where
  "lines_total is = sum_list (map (\<lambda>i. item_quantity i * item_unit_amount i) is)"

lemma lines_total_append [simp]: "lines_total (xs @ ys) = lines_total xs + lines_total ys"
  by (simp add: lines_total_def)

lemma lines_total_plain: "map plain_item xs = map plain_item ys \<Longrightarrow> lines_total xs = lines_total ys"
proof -
  have eq: "(\<lambda>i. item_quantity i * item_unit_amount i) = (\<lambda>i. item_quantity i * item_unit_amount i) \<circ> plain_item"
    by (simp add: plain_item_def fun_eq_iff)
  assume "map plain_item xs = map plain_item ys"
  then show ?thesis unfolding lines_total_def by (subst eq, subst (2) eq) (simp add: map_map [symmetric] del: map_map)
qed

lemma sum_list_sort_key:
  fixes f :: "'a \<Rightarrow> int"
  shows "sum_list (map f (sort_key k xs)) = sum_list (map f xs)"
  by (metis mset_map mset_sort sum_mset_sum_list)

lemma inventory_items_total:
  assumes "hold_total h s = Inr t"
  shows "lines_total (inventory_items h o' s) = t"
proof (cases "is_ga h")
  case True
  with assms show ?thesis
    by (auto simp: inventory_items_def lines_total_def hold_total_def blank_item_def mult.commute)
next
  case False
  with assms show ?thesis
    by (auto simp: inventory_items_def lines_total_def hold_total_def blank_item_def reserved_item_def
        order_by_def o_def sum_list_sort_key)
qed

lemma length_inventory_seats:
  assumes "0 \<le> ticket_count h s"
  shows "int (length (inventory_seats h s)) = ticket_count h s"
  using assms by (auto simp: inventory_seats_def ticket_count_def order_by_def split: if_splits)

section \<open>A paid hold\<close>

text \<open>Rows only point at orders that exist: every reference lies below the next key.\<close>

definition refs_wf :: "db \<Rightarrow> bool" where
  "refs_wf s \<longleftrightarrow> (\<forall>i\<in>set (db_items s). item_order i < db_next s) \<and> (\<forall>t\<in>set (db_tickets s). tkt_order t < db_next s) \<and>
     (\<forall>p\<in>set (db_payments s). pay_order p < db_next s) \<and> (\<forall>p\<in>set (db_purchases s). pp_order p < db_next s) \<and>
     (\<forall>r\<in>set (db_redemptions s). red_order r < db_next s) \<and> well_keyed tkt_pk (db_next s) (db_tickets s)"

lemma attach_guest_frame:
  assumes "attach_guest org e n opt now s = (g, s1)"
  shows "s1 = s\<lparr>db_guests := db_guests s1, db_next := db_next s1\<rparr> \<and> db_next s \<le> db_next s1"
proof -
  obtain g0 c s0 where r: "get_or_create_for_email org e n s = (g0, c, s0)"
    by (cases "get_or_create_for_email org e n s")
  note f = get_or_create_frame [OF r]
  from assms r have s1: "s1 = (if opt then record_marketing_opt_in g0 now s0 else s0)"
    by (auto simp: attach_guest_def)
  obtain gs where m: "record_marketing_opt_in g0 now s0 = s0\<lparr>db_guests := gs\<rparr>" using record_marketing_frame by blast
  show ?thesis
  proof (cases opt)
    case True
    have "s1 = s0\<lparr>db_guests := gs\<rparr>" using s1 m True by simp
    moreover have "s0\<lparr>db_guests := gs\<rparr> = s\<lparr>db_guests := gs, db_next := db_next s0\<rparr>"
      using arg_cong [OF conjunct1 [OF f], of "\<lambda>x. x\<lparr>db_guests := gs\<rparr>"] by simp
    ultimately show ?thesis using f by simp
  next
    case False
    then show ?thesis using s1 f by simp
  qed
qed

lemma attach_guest_obs:
  assumes "attach_guest org e n opt now s = (g, s1)" and "\<And>x k. f (s\<lparr>db_guests := x, db_next := k\<rparr>) = f s"
  shows "f s1 = f s"
proof -
  have "f s1 = f (s\<lparr>db_guests := db_guests s1, db_next := db_next s1\<rparr>)"
    using attach_guest_frame [OF assms(1)] by (rule arg_cong [OF conjunct1])
  then show ?thesis by (simp only: assms(2))
qed

lemma fulfill_hold_Inr:
  assumes "fulfill_hold h e n ref prov sid opt now s = Inr (o', s')"
  obtains t g s1 s2 s3 where "now < hold_expires_at h" "hold_grand_total h s = Inr t"
    "attach_guest (hold_organization h) e n opt now s = (g, s1)"
    "o' = (paid_order (hold_organization h) (Some (hold_performance h)) e n g t sid)
       \<lparr>order_promo_code_text := hold_promo_code_text h, order_discount_amount := hold_discount h,
        order_pk := db_next s1, order_token := db_entropy s1 (db_next s1)\<rparr>"
    "s2 = s1\<lparr>db_orders := db_orders s1 @ [o'], db_next := Suc (db_next s1)\<rparr>"
    "fulfill_inventory h o' s2 = Inr s3" "s' = finish_hold h o' t prov ref s3"
proof -
  from assms obtain t where t: "now < hold_expires_at h" "hold_grand_total h s = Inr t"
    by (auto simp: fulfill_hold_def)
  obtain g s1 where g: "attach_guest (hold_organization h) e n opt now s = (g, s1)"
    by (cases "attach_guest (hold_organization h) e n opt now s")
  from assms t g obtain s2 s3 where c: "create_order ((paid_order (hold_organization h) (Some (hold_performance h)) e n g t sid)
       \<lparr>order_promo_code_text := hold_promo_code_text h, order_discount_amount := hold_discount h\<rparr>) s1 = Inr (o', s2)"
    and i: "fulfill_inventory h o' s2 = Inr s3" "s' = finish_hold h o' t prov ref s3"
    by (auto simp: fulfill_hold_def)
  from create_order_effect [OF c] have "o' = (paid_order (hold_organization h) (Some (hold_performance h)) e n g t sid)
       \<lparr>order_promo_code_text := hold_promo_code_text h, order_discount_amount := hold_discount h,
        order_pk := db_next s1, order_token := db_entropy s1 (db_next s1)\<rparr>"
    "s2 = s1\<lparr>db_orders := db_orders s1 @ [o'], db_next := Suc (db_next s1)\<rparr>" by simp_all
  with that t g i show ?thesis by blast
qed

lemma fulfill_hold_amounts:
  assumes "fulfill_hold h e n ref prov sid opt now s = Inr (o', s')"
  shows "hold_grand_total h s = Inr (order_total o') \<and> order_discount_amount o' = hold_discount h \<and>
    order_status o' = PAID \<and> order_organization o' = hold_organization h \<and>
    order_performance o' = Some (hold_performance h)"
proof -
  from assms obtain t g s1 s2 s3 where "now < hold_expires_at h" and t: "hold_grand_total h s = Inr t"
    and "attach_guest (hold_organization h) e n opt now s = (g, s1)"
    and o': "o' = (paid_order (hold_organization h) (Some (hold_performance h)) e n g t sid)
       \<lparr>order_promo_code_text := hold_promo_code_text h, order_discount_amount := hold_discount h,
        order_pk := db_next s1, order_token := db_entropy s1 (db_next s1)\<rparr>"
    and "s2 = s1\<lparr>db_orders := db_orders s1 @ [o'], db_next := Suc (db_next s1)\<rparr>"
    and "fulfill_inventory h o' s2 = Inr s3" and "s' = finish_hold h o' t prov ref s3"
    by (rule fulfill_hold_Inr)
  from t show ?thesis by (simp add: o' paid_order_def)
qed

text \<open>What the last step adds: the gift line, one payment; the hold is gone.\<close>

definition gift_lines :: "hold \<Rightarrow> order \<Rightarrow> order_item list" where
  "gift_lines h o' = (if 0 < hold_donation h
     then [(blank_item o' DONATION 1 (hold_donation h))\<lparr>item_donation_campaign := hold_donation_campaign h\<rparr>] else [])"

lemma finish_hold_effect:
  "\<exists>k. map plain_item (db_items (finish_hold h o' t prov ref s)) = map plain_item (db_items s @ gift_lines h o') \<and>
     db_payments (finish_hold h o' t prov ref s) =
       db_payments s @ [(payment_row o' prov t ''succeeded'' ref)\<lparr>pay_pk := k\<rparr>]"
  "db_tickets (finish_hold h o' t prov ref s) = db_tickets s"
  "db_orders (finish_hold h o' t prov ref s) = db_orders s"
  "db_allocations (finish_hold h o' t prov ref s) = db_allocations s"
  "db_purchases (finish_hold h o' t prov ref s) = db_purchases s"
  "db_redemptions (finish_hold h o' t prov ref s) = db_redemptions s"
  "db_holds (finish_hold h o' t prov ref s) = delete_rows (\<lambda>x. hold_pk x = hold_pk h) (db_holds s)"
  "db_hold_seats (finish_hold h o' t prov ref s) =
     delete_rows (\<lambda>r. \<exists>x\<in>set (db_holds s). hold_pk x = hold_pk h \<and> hold_pk x = hs_hold r) (db_hold_seats s)"
  "db_entropy (finish_hold h o' t prov ref s) = db_entropy s"
  "db_performances (finish_hold h o' t prov ref s) = db_performances s"
  "db_next s \<le> db_next (finish_hold h o' t prov ref s)"
  by (auto simp: finish_hold_def Let_def create_item_def create_payment_def record_redemption_def
      gift_lines_def plain_item_def split: option.splits)

lemma hold_total_frame:
  assumes "\<And>k. tier_at k s = tier_at k s'" and "seats_of_hold h s = seats_of_hold h s'"
  shows "hold_total h s = hold_total h s'"
  using assms by (simp add: hold_total_def ga_unit_amount_def split: option.split)

lemma items_of_new:
  assumes "db_items s' = old @ new" and "\<forall>i\<in>set old. item_order i \<noteq> order_pk o'" and "\<forall>i\<in>set new. item_order i = order_pk o'"
  shows "items_of o' s' = new"
  using assms by (auto simp: items_of_def filter_empty_conv intro!: filter_True)

lemma plain_item_order: "map plain_item xs = map plain_item ys \<Longrightarrow> \<forall>i\<in>set ys. item_order i = k \<Longrightarrow> \<forall>i\<in>set xs. item_order i = k"
proof -
  assume a: "map plain_item xs = map plain_item ys" "\<forall>i\<in>set ys. item_order i = k"
  have "item_order ` plain_item ` set xs = item_order ` plain_item ` set ys" using a(1) by (metis list.set_map)
  then have "item_order ` set xs = item_order ` set ys" by (simp add: image_image plain_item_def)
  with a(2) show ?thesis by auto
qed

lemma plain_ticket_obs:
  assumes "map plain_ticket xs = map plain_ticket ys" and "\<And>t. f (plain_ticket t) = f t"
  shows "map f xs = map f ys"
proof -
  have "map (f \<circ> plain_ticket) xs = map (f \<circ> plain_ticket) ys" using assms(1) by (metis map_map)
  then show ?thesis using assms(2) by (simp add: o_def)
qed

lemma inventory_items_order: "\<forall>i\<in>set (inventory_items h o' s). item_order i = order_pk o'"
  by (simp add: inventory_items_def blank_item_def reserved_item_def)

text \<open>The rows of the new order after \<open>fulfill_hold\<close>.\<close>

lemma fulfill_hold_rows:
  assumes "fulfill_hold h e n ref prov sid opt now s = Inr (o', s')" and "refs_wf s"
  shows "map plain_item (items_of o' s') = map plain_item (inventory_items h o' s @ gift_lines h o')"
    "map plain_ticket (tickets_of o' s') = map plain_ticket (map (new_ticket h o') (inventory_seats h s))"
    "\<exists>k. filter (\<lambda>p. pay_order p = order_pk o') (db_payments s') =
       [(payment_row o' prov (order_total o') ''succeeded'' ref)\<lparr>pay_pk := k\<rparr>]"
    "db_orders s' = db_orders s @ [o']" "db_holds s' = delete_rows (\<lambda>x. hold_pk x = hold_pk h) (db_holds s)"
proof -
  from assms(1) obtain t g s1 s2 s3 where t: "hold_grand_total h s = Inr t"
    and g: "attach_guest (hold_organization h) e n opt now s = (g, s1)"
    and o': "o' = (paid_order (hold_organization h) (Some (hold_performance h)) e n g t sid)
       \<lparr>order_promo_code_text := hold_promo_code_text h, order_discount_amount := hold_discount h,
        order_pk := db_next s1, order_token := db_entropy s1 (db_next s1)\<rparr>"
    and s2: "s2 = s1\<lparr>db_orders := db_orders s1 @ [o'], db_next := Suc (db_next s1)\<rparr>"
    and inv: "fulfill_inventory h o' s2 = Inr s3" and s': "s' = finish_hold h o' t prov ref s3"
    by (rule fulfill_hold_Inr)
  have gf: "db_items s1 = db_items s" "db_tickets s1 = db_tickets s" "db_payments s1 = db_payments s"
    "db_orders s1 = db_orders s" "db_holds s1 = db_holds s" "db_hold_seats s1 = db_hold_seats s" "db_tiers s1 = db_tiers s"
    by (rule attach_guest_obs [OF g], simp)+
  have pk: "order_pk o' = db_next s1" and le: "db_next s \<le> db_next s1"
    using attach_guest_frame [OF g] by (simp_all add: o')
  from inventory_effect [OF inv] obtain s3' where
    ap: "appended s2 (inventory_items h o' s2) (map (new_ticket h o') (inventory_seats h s2)) s3'"
    and rest: "db_items s3 = db_items s3'" "db_tickets s3 = db_tickets s3'" "db_payments s3 = db_payments s3'"
      "db_orders s3 = db_orders s3'" "db_holds s3 = db_holds s3'"
    by (auto split: if_splits)
  from ap obtain is' ts' where i: "db_items s3' = db_items s2 @ is'" "map plain_item is' = map plain_item (inventory_items h o' s2)"
    and ti: "db_tickets s3' = db_tickets s2 @ ts'" "map plain_ticket ts' = map plain_ticket (map (new_ticket h o') (inventory_seats h s2))"
    by (rule appended_rows)
  have same: "inventory_items h o' s2 = inventory_items h o' s" "inventory_seats h s2 = inventory_seats h s"
    by (simp_all add: inventory_items_def inventory_seats_def ga_unit_amount_def tier_at_def seats_of_hold_def s2 gf
        split: option.split)
  from finish_hold_effect(1) [of h o' t prov ref s3] obtain k where
    fi: "map plain_item (db_items s') = map plain_item (db_items s3 @ gift_lines h o')"
    and fp: "db_payments s' = db_payments s3 @ [(payment_row o' prov t ''succeeded'' ref)\<lparr>pay_pk := k\<rparr>]"
    unfolding s' by blast
  have items2: "db_items s2 = db_items s" by (simp add: s2 gf)
  have fi': "map plain_item (db_items s') = map plain_item (db_items s @ (inventory_items h o' s @ gift_lines h o'))"
    using fi i items2 by (simp add: rest same)
  have old: "\<forall>i\<in>set (db_items s). item_order i \<noteq> order_pk o'" "\<forall>i\<in>set (db_tickets s). tkt_order i \<noteq> order_pk o'"
    "\<forall>i\<in>set (db_payments s). pay_order i \<noteq> order_pk o'"
    using assms(2) le by (fastforce simp: refs_wf_def pk)+
  have items: "map plain_item (items_of o' x) = map plain_item (filter (\<lambda>i. item_order i = order_pk o') (db_items y))"
    if "map plain_item (db_items x) = map plain_item (db_items y)" for x y
  proof -
    have "filter (\<lambda>i. item_order i = order_pk o') (map plain_item (db_items x)) =
        filter (\<lambda>i. item_order i = order_pk o') (map plain_item (db_items y))" using that by simp
    then show ?thesis by (simp add: items_of_def filter_map o_def plain_item_def)
  qed
  have gift: "\<forall>i\<in>set (gift_lines h o'). item_order i = order_pk o'" by (simp add: gift_lines_def blank_item_def)
  from items [of s' "s\<lparr>db_items := db_items s @ (inventory_items h o' s @ gift_lines h o')\<rparr>"] fi'
  have "map plain_item (items_of o' s') = map plain_item (filter (\<lambda>i. item_order i = order_pk o')
      (db_items s @ (inventory_items h o' s @ gift_lines h o')))" by simp
  also have "filter (\<lambda>i. item_order i = order_pk o') (db_items s @ (inventory_items h o' s @ gift_lines h o')) =
      inventory_items h o' s @ gift_lines h o'"
    using old(1) inventory_items_order gift by (auto simp: filter_empty_conv intro!: filter_True)
  finally show "map plain_item (items_of o' s') = map plain_item (inventory_items h o' s @ gift_lines h o')" .
  have tk: "db_tickets s' = db_tickets s @ ts'" by (simp add: s' finish_hold_effect rest ti s2 gf)
  have "map tkt_order ts' = map tkt_order (map (new_ticket h o') (inventory_seats h s2))"
    using ti(2) by (rule plain_ticket_obs) (simp add: plain_ticket_def)
  then have "set (map tkt_order ts') \<subseteq> {order_pk o'}" by (auto simp: new_ticket_def)
  then have "\<forall>t\<in>set ts'. tkt_order t = order_pk o'" by auto
  with old(2) have "tickets_of o' s' = ts'"
    by (auto simp: tickets_of_def tk filter_empty_conv intro!: filter_True)
  then show "map plain_ticket (tickets_of o' s') = map plain_ticket (map (new_ticket h o') (inventory_seats h s))"
    using ti(2) same by simp
  have "order_total o' = t" by (simp add: o' paid_order_def)
  with fp old(3) show "\<exists>k. filter (\<lambda>p. pay_order p = order_pk o') (db_payments s') =
       [(payment_row o' prov (order_total o') ''succeeded'' ref)\<lparr>pay_pk := k\<rparr>]"
    using appended_frame [OF ap]
    by (intro exI [of _ k]) (auto simp: rest s2 gf payment_row_def filter_empty_conv)
  show "db_orders s' = db_orders s @ [o']" "db_holds s' = delete_rows (\<lambda>x. hold_pk x = hold_pk h) (db_holds s)"
    using appended_frame [OF ap] by (simp_all add: s' finish_hold_effect rest s2 gf)
qed

section \<open>Properties\<close>

text \<open>
  Property C6. A paid order adds up and hands out what was held: its total plus its discount is the
  sum of its lines, its one payment records that total, it carries one valid ticket per admission
  on the seats of the hold, and the hold is consumed.
\<close>

theorem paid_order_reconciles:
  assumes "fulfill_hold h e n ref prov sid opt now s = Inr (o', s')" and "refs_wf s"
    and "hold_total h s = Inr t" and "hold_discount h \<le> t" and "0 \<le> hold_donation h" and "0 \<le> ticket_count h s"
  shows "gross_total o' = lines_total (items_of o' s') \<and>
     map pay_amount (filter (\<lambda>p. pay_order p = order_pk o') (db_payments s')) = [order_total o'] \<and>
     map tkt_seat (tickets_of o' s') = inventory_seats h s \<and>
     int (length (tickets_of o' s')) = ticket_count h s \<and>
     (\<forall>x\<in>set (tickets_of o' s'). tkt_status x = VALID) \<and>
     order_status o' = PAID \<and> o' \<in> set (db_orders s') \<and> (\<forall>x\<in>set (db_holds s'). hold_pk x \<noteq> hold_pk h)"
proof -
  note rows = fulfill_hold_rows [OF assms(1,2)]
  from fulfill_hold_amounts [OF assms(1)] have tot: "order_total o' = t - hold_discount h + hold_donation h" "order_discount_amount o' = hold_discount h"
    "order_status o' = PAID"
    using assms(3,4) by (auto simp: hold_grand_total_def)
  have "lines_total (items_of o' s') = t + lines_total (gift_lines h o')"
    using lines_total_plain [OF rows(1)] inventory_items_total [OF assms(3)] by simp
  moreover have "lines_total (gift_lines h o') = hold_donation h"
    using assms(5) by (simp add: gift_lines_def lines_total_def blank_item_def)
  moreover have "map pay_amount (filter (\<lambda>p. pay_order p = order_pk o') (db_payments s')) = [order_total o']"
    using rows(3) by (auto simp: payment_row_def)
  moreover have seats: "map tkt_seat (tickets_of o' s') = inventory_seats h s"
    using plain_ticket_obs [OF rows(2), of tkt_seat] by (simp add: plain_ticket_def new_ticket_def o_def)
  moreover have "int (length (tickets_of o' s')) = ticket_count h s"
    using length_inventory_seats [OF assms(6)] arg_cong [OF seats, of length] by simp
  moreover have "map tkt_status (tickets_of o' s') = map (\<lambda>_. VALID) (inventory_seats h s)"
    using plain_ticket_obs [OF rows(2), of tkt_status] by (simp add: plain_ticket_def new_ticket_def o_def)
  then have "\<forall>x\<in>set (tickets_of o' s'). tkt_status x = VALID"
    by (metis (no_types, lifting) image_eqI image_iff list.set_map)
  ultimately show ?thesis using tot rows(4,5) by (simp add: gross_total_def)
qed

text \<open>A promo of five dollars and a gift of twenty on the two general-admission tickets.\<close>

definition demo_cart :: hold where
  "demo_cart = (new_hold 1 ga_show ''s1'' None 0)
     \<lparr>hold_pk := 100, hold_price_tier := Some 51, hold_quantity := Some 2, hold_ga_unit_amount := Some 2500,
      hold_promo_code := Some 7, hold_promo_code_text := ''SUMMER'', hold_discount_amount := Some 500,
      hold_donation_amount := Some 2000, hold_donation_campaign := Some 81\<rparr>"

definition cart_night :: db where
  "cart_night = demo\<lparr>db_next := 101, db_holds := [demo_cart]\<rparr>"

lemma demo_cart_facts:
  "is_ga demo_cart" "ga_unit_amount demo_cart s = Inr 2500" "hold_total demo_cart s = Inr 5000"
  "hold_discount demo_cart = 500" "hold_donation demo_cart = 2000" "hold_organization demo_cart = 1"
  "hold_performance demo_cart = 31" "hold_quantity demo_cart = Some 2" "hold_pk demo_cart = 100"
  "ticket_count demo_cart s = 2" "hold_grand_total demo_cart s = Inr 6500"
  "hold_expires_at demo_cart = minutes 10"
  by (simp_all add: demo_cart_def is_ga_def ga_unit_amount_def hold_total_def hold_discount_def hold_donation_def
      new_hold_def ga_show_def ticket_count_def hold_grand_total_def default_hold_expiry_def)

lemma show_nat_small: "show_nat 101 = ''101''" "show_nat 102 = ''102''" "show_nat 103 = ''103''" "show_nat 104 = ''104''"
  "show_nat 105 = ''105''" "show_nat 1 = ''1''" "show_nat 100 = ''100''"
  by code_simp+

lemma cart_night_wf: "refs_wf cart_night" "holds_wf cart_night"
  by (simp_all add: refs_wf_def holds_wf_def well_keyed_def cart_night_def demo_def demo_cart_def)

lemma cart_night_fulfilled:
  "\<exists>o' s'. fulfill_hold demo_cart '''' ''Ann'' ''pi_1'' ''stripe'' (Some ''cs_1'') False (minutes 1) cart_night = Inr (o', s')"
proof -
  let ?o = "(paid_order 1 (Some 31) '''' ''Ann'' None 6500 (Some ''cs_1''))
    \<lparr>order_promo_code_text := hold_promo_code_text demo_cart, order_discount_amount := 500\<rparr>"
  let ?o' = "?o\<lparr>order_pk := 101, order_token := ''101''\<rparr>"
  have ag: "attach_guest 1 '''' ''Ann'' False (minutes 1) cart_night = (None, cart_night)"
    by (simp add: attach_guest_def get_or_create_for_email_def normalize_email_def strip_def lower_def)
  have co: "create_order ?o cart_night = Inr (?o', cart_night\<lparr>db_orders := [?o'], db_next := 102\<rparr>)"
    by (simp add: create_order_def Let_def cart_night_def demo_def show_nat_small paid_order_def)
  define s2 where "s2 = cart_night\<lparr>db_orders := [?o'], db_next := 102\<rparr>"
  have al: "allocation_of 31 s2 = Some ga_room"
    by (rule demo_allocation) (simp add: s2_def cart_night_def demo_def)
  have s2: "db_tickets s2 = []" "db_next s2 = 102" "db_entropy s2 = show_nat"
    by (simp_all add: s2_def cart_night_def demo_def)
  have room: "alloc_sold ga_room = 0" "alloc_capacity ga_room = 3" "alloc_pk ga_room = 61" by (simp_all add: ga_room_def)
  have "\<exists>s3. fulfill_inventory demo_cart ?o' s2 = Inr s3"
    by (simp add: fulfill_inventory_def fulfill_ga_def demo_cart_facts al room numeral_2_eq_2 create_item_def
        create_ticket_def Let_def save_sold_def s2 show_nat_small new_ticket_def same_live_seat_def)
  moreover have "minutes 1 < minutes 10" by (simp add: time_defs)
  ultimately show ?thesis
    using ag co by (auto simp: fulfill_hold_def demo_cart_facts s2_def)
qed

theorem paid_order_reconciles_witness:
  "\<exists>o' s'. fulfill_hold demo_cart '''' ''Ann'' ''pi_1'' ''stripe'' (Some ''cs_1'') False (minutes 1) cart_night = Inr (o', s') \<and>
     gross_total o' = lines_total (items_of o' s') \<and> length (tickets_of o' s') = 2"
proof -
  obtain o' s' where r: "fulfill_hold demo_cart '''' ''Ann'' ''pi_1'' ''stripe'' (Some ''cs_1'') False (minutes 1) cart_night = Inr (o', s')"
    using cart_night_fulfilled by blast
  from paid_order_reconciles [OF r cart_night_wf(1) demo_cart_facts(3)] r show ?thesis
    by (auto simp: demo_cart_facts)
qed

lemma or_winner_Inr:
  assumes "or_winner org sid oth s r = Inr (o', c, s')"
  shows "(r = Inr (o', s') \<and> c) \<or> (order_for_session org sid s = Some o' \<and> \<not> c \<and> s' = s)"
  using assms by (auto simp: or_winner_def split: sum.splits error.splits py_error.splits option.splits)

lemma new_order_for_session:
  assumes "order_for_session org sid s = None" and "db_orders s' = db_orders s @ [o']"
    and "order_organization o' = org" and "order_stripe_checkout_session_id o' = Some sid"
  shows "order_for_session org sid s' = Some o'"
  using assms by (simp add: order_for_session_def)

lemma fulfill_hold_order:
  assumes "fulfill_hold h e n ref prov sid opt now s = Inr (o', s')"
  shows "db_orders s' = db_orders s @ [o'] \<and> order_organization o' = hold_organization h \<and>
    order_stripe_checkout_session_id o' = sid"
proof -
  from assms obtain t g s1 s2 s3 where g: "attach_guest (hold_organization h) e n opt now s = (g, s1)"
    and o': "o' = (paid_order (hold_organization h) (Some (hold_performance h)) e n g t sid)
       \<lparr>order_promo_code_text := hold_promo_code_text h, order_discount_amount := hold_discount h,
        order_pk := db_next s1, order_token := db_entropy s1 (db_next s1)\<rparr>"
    and s2: "s2 = s1\<lparr>db_orders := db_orders s1 @ [o'], db_next := Suc (db_next s1)\<rparr>"
    and inv: "fulfill_inventory h o' s2 = Inr s3" and s': "s' = finish_hold h o' t prov ref s3"
    by (rule fulfill_hold_Inr)
  from inventory_effect [OF inv] obtain s3' where "appended s2 (inventory_items h o' s2) (map (new_ticket h o') (inventory_seats h s2)) s3'"
    "db_orders s3 = db_orders s3'" by (auto split: if_splits)
  with appended_frame(4) have "db_orders s3 = db_orders s2" by metis
  moreover have "db_orders s1 = db_orders s" by (rule attach_guest_obs [OF g]) simp
  ultimately show ?thesis by (simp add: s' finish_hold_effect s2) (simp add: o' paid_order_def)
qed

lemma create_order_fields:
  assumes "create_order r s = Inr (r', s')"
  shows "db_orders s' = db_orders s @ [r'] \<and> order_organization r' = order_organization r \<and>
    order_stripe_checkout_session_id r' = order_stripe_checkout_session_id r"
  using create_order_effect [OF assms] by simp

lemma paid_order_fields [simp]:
  "order_organization (paid_order org perf e n g a sid) = org"
  "order_stripe_checkout_session_id (paid_order org perf e n g a sid) = sid"
  by (simp_all add: paid_order_def)

lemma fulfill_donation_order:
  assumes "fulfill_donation org a camp e n prov ref sid opt now s = Inr (o', s')"
  shows "db_orders s' = db_orders s @ [o'] \<and> order_organization o' = org \<and> order_stripe_checkout_session_id o' = sid"
proof -
  obtain g s1 where g: "attach_guest org e n opt now s = (g, s1)" by (cases "attach_guest org e n opt now s")
  have "db_orders s1 = db_orders s" by (rule attach_guest_obs [OF g]) simp
  with assms g show ?thesis
    by (auto simp: fulfill_donation_def create_payment_def create_item_def dest!: create_order_fields)
qed

lemma fulfill_pass_order:
  assumes "fulfill_pass_purchase org p e n prov ref sid opt now s = Inr (o', s')"
  shows "db_orders s' = db_orders s @ [o'] \<and> order_organization o' = org \<and> order_stripe_checkout_session_id o' = sid"
proof -
  obtain g s1 where g: "attach_guest org e n opt now s = (g, s1)" by (cases "attach_guest org e n opt now s")
  have "db_orders s1 = db_orders s" by (rule attach_guest_obs [OF g]) simp
  with assms g show ?thesis
    by (auto simp: fulfill_pass_purchase_def create_payment_def create_purchase_def create_item_def dest!: create_order_fields)
qed

text \<open>A delivery replays the order of its session, or creates one from a hold, a gift or a pass.\<close>

lemma checkout_session_cases:
  assumes "fulfill_checkout_session org ss now s = Inr (o', c, s')"
  obtains (replay) "order_for_session org (ss_id ss) s = Some o'" "\<not> c" "s' = s"
  | (hold) h opt where "order_for_session org (ss_id ss) s = None" "c" "h \<in> set (db_holds s)" "hold_organization h = org"
      "fulfill_hold h (or_blank (ss_email ss)) (or_blank (ss_name ss)) (payment_ref_of ss) ''stripe''
         (Some (ss_id ss)) opt now s = Inr (o', s')"
  | (gift) a camp opt where "order_for_session org (ss_id ss) s = None" "c"
      "fulfill_donation org a camp (or_blank (ss_email ss)) (or_blank (ss_name ss)) ''stripe'' (payment_ref_of ss)
         (Some (ss_id ss)) opt now s = Inr (o', s')"
  | (pass) p opt where "order_for_session org (ss_id ss) s = None" "c"
      "fulfill_pass_purchase org p (or_blank (ss_email ss)) (or_blank (ss_name ss)) ''stripe'' (payment_ref_of ss)
         (Some (ss_id ss)) opt now s = Inr (o', s')"
proof (cases "order_for_session org (ss_id ss) s")
  case (Some x)
  with assms have "x = o'" "\<not> c" "s' = s" by (simp_all add: fulfill_checkout_session_def)
  with Some replay show thesis by blast
next
  case None
  have by_hold: thesis if r: "fulfill_hold_session org ss opt now s = Inr (o', c, s')" for opt
  proof -
    from r obtain h hid where h: "first_row (filter (\<lambda>h. hold_organization h = org \<and> Some (hold_pk h) = hid) (db_holds s)) = Some h"
      and w: "or_winner org (ss_id ss) (Some (FulfillErr AvailabilityChangedError)) s
        (fulfill_hold h (or_blank (ss_email ss)) (or_blank (ss_name ss)) (payment_ref_of ss) ''stripe''
          (Some (ss_id ss)) opt now s) = Inr (o', c, s')"
      by (auto simp: fulfill_hold_session_def)
    have "h \<in> set (db_holds s)" "hold_organization h = org" using first_row_Some [OF h] by simp_all
    with or_winner_Inr [OF w] None show thesis by (auto intro: hold)
  qed
  have by_gift: thesis if r: "fulfill_donation_session org ss opt now s = Inr (o', c, s')" for opt
  proof -
    from r obtain a camp where "or_winner org (ss_id ss) None s
        (fulfill_donation org a camp (or_blank (ss_email ss)) (or_blank (ss_name ss)) ''stripe'' (payment_ref_of ss)
          (Some (ss_id ss)) opt now s) = Inr (o', c, s')"
      by (auto simp: fulfill_donation_session_def)
    from or_winner_Inr [OF this] None show thesis by (auto intro: gift)
  qed
  have by_pass: thesis if r: "fulfill_pass_session org ss opt now s = Inr (o', c, s')" for opt
  proof -
    from r obtain p where "or_winner org (ss_id ss) None s
        (fulfill_pass_purchase org p (or_blank (ss_email ss)) (or_blank (ss_name ss)) ''stripe'' (payment_ref_of ss)
          (Some (ss_id ss)) opt now s) = Inr (o', c, s')"
      by (auto simp: fulfill_pass_session_def Let_def)
    from or_winner_Inr [OF this] None show thesis by (auto intro: pass)
  qed
  let ?opt = "ss_metadata ss ''marketing_opt_in'' = Some ''1''"
  from assms None consider "fulfill_hold_session org ss ?opt now s = Inr (o', c, s')"
    | "fulfill_donation_session org ss ?opt now s = Inr (o', c, s')" | "fulfill_pass_session org ss ?opt now s = Inr (o', c, s')"
    by (simp add: fulfill_checkout_session_def Let_def split: if_splits)
  then show thesis by cases (fact by_hold by_gift by_pass)+
qed

lemma checkout_session_order:
  assumes "fulfill_checkout_session org ss now s = Inr (o', c, s')"
  shows "order_for_session org (ss_id ss) s' = Some o'"
  using assms
proof (cases rule: checkout_session_cases)
  case (hold h opt)
  with fulfill_hold_order new_order_for_session show ?thesis by fastforce
next
  case (gift a camp opt)
  with fulfill_donation_order new_order_for_session show ?thesis by fastforce
next
  case (pass p opt)
  with fulfill_pass_order new_order_for_session show ?thesis by fastforce
qed simp

text \<open>
  Property C5. A Stripe session is fulfilled once: after a delivery that returned an order, every
  later delivery of the same session returns that order, reports that nothing was created, and
  leaves the database untouched.
\<close>

theorem checkout_session_fulfilled_once:
  assumes "fulfill_checkout_session org ss now s = Inr (o', c, s')"
  shows "fulfill_checkout_session org ss later s' = Inr (o', False, s')"
  using checkout_session_order [OF assms] by (simp add: fulfill_checkout_session_def)

definition demo_session :: stripe_session where
  "demo_session = \<lparr>ss_id = ''cs_1'', ss_metadata = [''hold_id'' \<mapsto> ''100'', ''organization_id'' \<mapsto> ''1''],
     ss_email = None, ss_name = Some ''Ann'', ss_payment_intent = Some ''pi_1''\<rparr>"

lemma demo_session_dispatch:
  "fulfill_checkout_session 1 demo_session (minutes 1) cart_night =
     or_winner 1 ''cs_1'' (Some (FulfillErr AvailabilityChangedError)) cart_night
       (fulfill_hold demo_cart '''' ''Ann'' ''pi_1'' ''stripe'' (Some ''cs_1'') False (minutes 1) cart_night)"
proof -
  have k: "parse_key ''100'' = Inr 100" by code_simp
  have o: "order_for_session 1 ''cs_1'' cart_night = None"
    by (simp add: order_for_session_def cart_night_def demo_def)
  have h: "filter (\<lambda>h. hold_organization h = 1 \<and> hold_pk h = 100) (db_holds cart_night) = [demo_cart]"
    by (simp add: cart_night_def demo_cart_facts)
  have "minutes 1 < hold_expires_at demo_cart" by (simp add: demo_cart_facts time_defs)
  then have e: "(minutes 1 < hold_expires_at demo_cart) = True" by simp
  show ?thesis
    by (simp add: fulfill_checkout_session_def demo_session_def o Let_def or_blank_def show_nat_small
        fulfill_hold_session_def k h e payment_ref_of_def del: One_nat_def)
qed

theorem checkout_session_fulfilled_once_witness:
  "\<exists>o' s'. fulfill_checkout_session 1 demo_session (minutes 1) cart_night = Inr (o', True, s') \<and>
     fulfill_checkout_session 1 demo_session (minutes 2) s' = Inr (o', False, s')"
proof -
  obtain o' s' where r: "fulfill_hold demo_cart '''' ''Ann'' ''pi_1'' ''stripe'' (Some ''cs_1'') False (minutes 1) cart_night = Inr (o', s')"
    using cart_night_fulfilled by blast
  have f: "fulfill_checkout_session 1 demo_session (minutes 1) cart_night = Inr (o', True, s')"
    by (simp only: demo_session_dispatch r or_winner_def sum.case prod.case)
  from checkout_session_fulfilled_once [OF f] f show ?thesis by blast
qed

end
