(* ===== verification/CheckoutFacts.thy ===== *)
theory CheckoutFacts
  imports Checkout OrderFacts
begin

text \<open>
  What the payment page is worth: the fee stays within the charge, the session collects what the
  order will record, and the metadata leads the webhook back to what was being bought.
\<close>

section \<open>The fee\<close>

lemma minor_per_major_pos: "0 < minor_per_major c"
  by (simp add: minor_per_major_def)

lemma div_ten_le: "n \<le> 10 * k \<Longrightarrow> n div 10 * 10 \<le> (10 * k :: int)"
  using div_mult_mod_eq [of n 10] pos_mod_sign [of 10 n] by linarith

lemma minor_upper [simp]:
  "zero_decimal (upper c) = zero_decimal c" "two_decimal (upper c) = two_decimal c"
  by (simp_all add: zero_decimal_def two_decimal_def)

text \<open>The percentage part, by currency.\<close>

definition charge_code :: "organization \<Rightarrow> string option \<Rightarrow> string" where
  "charge_code organization currency =
     (if or_blank currency \<noteq> '''' then or_blank currency else org_currency organization)"

lemma percentage_part_le:
  assumes "0 \<le> a" "0 \<le> p" "p \<le> 10000" "whole_minor c a"
  shows "(if zero_decimal c then round_half_up (a * p) (10 ^ 6)
          else if two_decimal c then round_half_up (a * p * 100) (10 ^ 6)
          else round_half_up (a * p * 1000) (10 ^ 6) div 10 * 10) \<le> to_minor_units a c"
proof -
  have ap: "0 \<le> a * p" "a * p \<le> a * 10000" using assms by (simp_all add: mult_left_mono)
  consider (zero) "zero_decimal c" | (two) "\<not> zero_decimal c" "two_decimal c" | (three) "\<not> zero_decimal c" "\<not> two_decimal c"
    by blast
  then show ?thesis
  proof cases
    case zero
    with assms(4) have a: "100 * to_minor_units a c = a" by (simp add: to_minor_exact minor_per_major_def)
    have "round_half_up (a * p) (10 ^ 6) \<le> to_minor_units a c"
      by (rule round_half_up_le_bound, simp, rule ap(1), simp) (use ap(2) a in linarith)
    with zero show ?thesis by simp
  next
    case two
    have "round_half_up (a * p * 100) (10 ^ 6) \<le> a"
      by (rule round_half_up_le_bound) (use ap in simp_all)
    with two show ?thesis by simp
  next
    case three
    have "round_half_up (a * p * 1000) (10 ^ 6) \<le> 10 * a"
      by (rule round_half_up_le_bound) (use ap in simp_all)
    with three show ?thesis by (simp add: to_minor_units_three div_ten_le mult.commute [of a 10])
  qed
qed

text \<open>
  The platform's cut is never zero or negative when it is sent, and a percentage of at
  most one hundred never takes more than what the buyer is charged plus the fixed part, in any of
  Stripe's three kinds of currency.
\<close>

theorem fee_within_charge:
  assumes "application_fee_amount cfg org amount currency = Some fee"
    and "0 \<le> amount" and "0 \<le> fee_percent cfg org" and "fee_percent cfg org \<le> 10000"
    and "whole_minor (charge_code org currency) amount"
  shows "0 < fee \<and> fee \<le> to_minor_units amount (charge_code org currency) + platform_fee_fixed_cents cfg"
proof -
  let ?c = "charge_code org currency"
  have code: "upper (if or_blank currency \<noteq> '''' then or_blank currency else org_currency org) = upper ?c"
    by (simp add: charge_code_def)
  have two: "upper ?c \<in> set three_decimal_currencies \<longleftrightarrow> \<not> two_decimal ?c" if "\<not> zero_decimal ?c"
    using that by (simp add: two_decimal_def zero_decimal_def)
  have "fee = (if zero_decimal ?c then round_half_up (amount * fee_percent cfg org) (10 ^ 6)
          else if two_decimal ?c then round_half_up (amount * fee_percent cfg org * 100) (10 ^ 6)
          else round_half_up (amount * fee_percent cfg org * 1000) (10 ^ 6) div 10 * 10) + platform_fee_fixed_cents cfg"
    and pos: "0 < fee"
    using assms(1) two unfolding application_fee_amount_def Let_def code
    by (auto simp: zero_decimal_def split: if_splits)
  with percentage_part_le [OF assms(2-5)] pos show ?thesis by linarith
qed

definition no_settings_fee :: fee_settings where
  "no_settings_fee = \<lparr>platform_fee_percent = 0, platform_fee_fixed_cents = 0\<rparr>"

theorem fee_within_charge_witness:
  "application_fee_amount no_settings_fee roxy 6500 (Some ''USD'') = Some 163 \<and> (163::int) \<le> 6500"
proof -
  have z: "upper ''USD'' \<notin> set zero_decimal_currencies" "upper ''USD'' \<notin> set three_decimal_currencies"
    by code_simp+
  have p: "fee_percent no_settings_fee roxy = 250" by (simp add: fee_percent_def roxy_def)
  have f: "application_fee_amount no_settings_fee roxy 6500 (Some ''USD'') = Some 163"
    using z by (simp add: application_fee_amount_def Let_def or_blank_def p round_half_up_def) (simp add: no_settings_fee_def)
  have c: "charge_code roxy (Some ''USD'') = ''USD''" by (simp add: charge_code_def or_blank_def)
  have two: "two_decimal ''USD''" "\<not> zero_decimal ''USD''" using z by (simp_all add: two_decimal_def zero_decimal_def)
  from fee_within_charge [OF f] f show ?thesis by (simp add: p c whole_minor_def two no_settings_fee_def)
qed

section \<open>The charge\<close>

definition lines_charge :: "line_item list \<Rightarrow> int" where
  "lines_charge ls = sum_list (map (\<lambda>i. li_quantity i * li_unit_amount i) ls)"

lemma lines_charge_simps [simp]:
  "lines_charge [] = 0" "lines_charge (i # ls) = li_quantity i * li_unit_amount i + lines_charge ls"
  "lines_charge (xs @ ys) = lines_charge xs + lines_charge ys"
  by (simp_all add: lines_charge_def)

text \<open>
  Every line of the hold is in the currency \<open>c\<close> the session charges, and every price on it, the
  discount and the gift are whole minor units of \<open>c\<close> (for a currency without cents, no price has
  a fraction).
\<close>

definition one_currency :: "string \<Rightarrow> hold \<Rightarrow> db \<Rightarrow> bool" where
  "one_currency c h s \<longleftrightarrow> hold_currency h s = Inr c \<and>
     (\<not> is_ga h \<longrightarrow> (\<forall>r\<in>set (seats_of_hold h s). seat_currency h r s = Inr c))"

definition whole_prices :: "string \<Rightarrow> hold \<Rightarrow> db \<Rightarrow> bool" where
  "whole_prices c h s \<longleftrightarrow> whole_minor c (hold_discount h) \<and> whole_minor c (hold_donation h) \<and>
     (if is_ga h then \<forall>u. ga_unit_amount h s = Inr u \<longrightarrow> whole_minor c u
      else \<forall>r\<in>set (seats_of_hold h s). whole_minor c (hs_unit_amount r))"

lemma seat_lines_charge:
  assumes "seat_line_items h rs s = Inr ls" and "\<forall>r\<in>set rs. seat_currency h r s = Inr c \<and> whole_minor c (hs_unit_amount r)"
  shows "100 * lines_charge ls = minor_per_major c * sum_list (map hs_unit_amount rs)"
  using assms
proof (induction rs arbitrary: ls)
  case (Cons r rs)
  from Cons.prems obtain rest where rest: "seat_line_items h rs s = Inr rest"
    and ls: "ls = \<lparr>li_quantity = 1, li_currency = lower c, li_unit_amount = to_minor_units (hs_unit_amount r) c,
      li_name = SeatName (hold_performance h) (hs_seat r)\<rparr> # rest" by auto
  have "100 * lines_charge rest = minor_per_major c * sum_list (map hs_unit_amount rs)"
    by (rule Cons.IH [OF rest]) (use Cons.prems in simp)
  with to_minor_exact [of c "hs_unit_amount r"] Cons.prems(2) show ?case by (simp add: ls algebra_simps)
qed simp

lemma donation_line_charge:
  assumes "append_donation_line_item h ls s = Inr ls'" and "hold_currency h s = Inr c"
    and "whole_minor c (hold_donation h)" and "0 \<le> hold_donation h"
  shows "100 * lines_charge ls' = 100 * lines_charge ls + minor_per_major c * hold_donation h"
  using assms to_minor_exact [OF assms(3)]
  by (auto simp: append_donation_line_item_def Let_def algebra_simps split: if_splits)

lemma line_items_charge:
  assumes "line_items_for_hold h s = Inr ls" and "one_currency c h s" and "whole_prices c h s"
    and "0 \<le> hold_donation h"
  shows "\<exists>t. hold_total h s = Inr t \<and> 100 * lines_charge ls = minor_per_major c * (t + hold_donation h)"
proof -
  have cur: "hold_currency h s = Inr c" and gift: "whole_minor c (hold_donation h)"
    using assms(2,3) by (simp_all add: one_currency_def whole_prices_def)
  show ?thesis
  proof (cases "is_ga h")
    case True
    then obtain k where k: "hold_price_tier h = Some k" by (auto simp: is_ga_def)
    with assms(1) True obtain tier u where tier: "tier_at k s = Some tier" and u: "ga_unit_amount h s = Inr u"
      and ap: "append_donation_line_item h [\<lparr>li_quantity = the (hold_quantity h), li_currency = lower (tier_currency tier),
          li_unit_amount = to_minor_units u (tier_currency tier), li_name = TierName (hold_performance h) (tier_pk tier)\<rparr>] s = Inr ls"
      by (auto simp: line_items_for_hold_def split: option.splits)
    have c: "tier_currency tier = c" using cur k tier by (simp add: hold_currency_def)
    have w: "whole_minor c u" using assms(3) True u by (simp add: whole_prices_def)
    from donation_line_charge [OF ap cur gift assms(4)] to_minor_exact [OF w] True u c show ?thesis
      by (auto simp: hold_total_def algebra_simps)
  next
    case False
    with assms(1) obtain ls0 where s0: "seat_line_items h (seats_of_hold h s) s = Inr ls0"
      and ap: "append_donation_line_item h ls0 s = Inr ls"
      by (auto simp: line_items_for_hold_def)
    have "100 * lines_charge ls0 = minor_per_major c * sum_list (map hs_unit_amount (seats_of_hold h s))"
      by (rule seat_lines_charge [OF s0]) (use assms(2,3) False in \<open>simp add: one_currency_def whole_prices_def\<close>)
    with donation_line_charge [OF ap cur gift assms(4)] False show ?thesis
      by (auto simp: hold_total_def algebra_simps)
  qed
qed

lemma create_checkout_session_Stripe:
  assumes "create_checkout_session cfg h opt now s = Inr (StripePage p)"
  obtains g c t where "org_at (hold_organization h) s = Some g" "org_stripe_charges_enabled g" "hold_currency h s = Inr c"
    "hold_grand_total h s = Inr t" "line_items_for_hold h s = Inr (sp_line_items p)"
    "sp_application_fee p = application_fee_amount cfg g t (Some c)"
    "collected p = lines_charge (sp_line_items p) - max (to_minor_units (hold_discount h) c) 0"
    "sp_metadata p = consent_entry opt [''hold_id'' \<mapsto> show_nat (hold_pk h), ''organization_id'' \<mapsto> show_nat (org_pk g)]"
    "sp_account p = org_stripe_account_id g" "now < hold_expires_at h"
  using assms
  by (auto simp: create_checkout_session_def Let_def collected_def lines_charge_def split: option.splits if_splits)

lemma session_charge:
  assumes "create_checkout_session cfg h opt now s = Inr (StripePage p)"
    and "one_currency c h s" and "whole_prices c h s"
    and "hold_total h s = Inr t" and "0 \<le> hold_discount h" and "hold_discount h \<le> t" and "0 \<le> hold_donation h"
  shows "100 * collected p = minor_per_major c * (t - hold_discount h + hold_donation h)"
proof -
  from assms(1) obtain g c' t' where "org_at (hold_organization h) s = Some g" "org_stripe_charges_enabled g"
    and c': "hold_currency h s = Inr c'" and "hold_grand_total h s = Inr t'"
    and li: "line_items_for_hold h s = Inr (sp_line_items p)"
    and "sp_application_fee p = application_fee_amount cfg g t' (Some c')"
    and col: "collected p = lines_charge (sp_line_items p) - max (to_minor_units (hold_discount h) c') 0"
    and "sp_metadata p = consent_entry opt [''hold_id'' \<mapsto> show_nat (hold_pk h), ''organization_id'' \<mapsto> show_nat (org_pk g)]"
    and "sp_account p = org_stripe_account_id g" "now < hold_expires_at h"
    by (rule create_checkout_session_Stripe)
  have c: "c' = c" using assms(2) c' by (simp add: one_currency_def)
  have d: "100 * to_minor_units (hold_discount h) c = minor_per_major c * hold_discount h"
    by (rule to_minor_exact) (use assms(3) in \<open>simp add: whole_prices_def\<close>)
  have "0 \<le> minor_per_major c * hold_discount h"
    using assms(5) minor_per_major_pos [of c] by simp
  with d have "max (to_minor_units (hold_discount h) c) 0 = to_minor_units (hold_discount h) c" by linarith
  with line_items_charge [OF li assms(2,3,7)] assms(4) d col c show ?thesis by (simp add: algebra_simps)
qed

text \<open>
  Property C8. What Stripe collects for a hold's session is what the order records: the lines, which
  are sent gross, less the coupon, come to the order's total in the currency's minor units, even
  when the prices of the house changed between the session and its fulfillment, as long as the hold
  itself is the same, in one currency, with prices that are whole minor units (in a two-decimal currency every price is)
  and a discount between nothing and its total.
\<close>

theorem order_total_is_collected:
  assumes "create_checkout_session cfg h opt now s = Inr (StripePage p)"
    and "one_currency c h s" and "whole_prices c h s"
    and "hold_total h s = Inr t" and "0 \<le> hold_discount h" and "hold_discount h \<le> t" and "0 \<le> hold_donation h"
    and "fulfill_hold h e n ref prov sid opt' later s1 = Inr (o', s2)"
    and "seats_of_hold h s1 = seats_of_hold h s" and "is_ga h \<longrightarrow> hold_ga_unit_amount h \<noteq> None"
  shows "100 * collected p = minor_per_major c * order_total o'"
proof -
  have "hold_total h s1 = hold_total h s"
    using assms(9,10) by (auto simp: hold_total_def ga_unit_amount_def)
  then have "order_total o' = t - hold_discount h + hold_donation h"
    using fulfill_hold_amounts [OF assms(8)] assms(4,6) by (auto simp: hold_grand_total_def)
  with session_charge [OF assms(1-7)] show ?thesis by simp
qed

lemma usd: "two_decimal ''USD''" "\<not> zero_decimal ''USD''" "minor_per_major ''USD'' = 100"
proof -
  have "upper ''USD'' \<notin> set zero_decimal_currencies" "upper ''USD'' \<notin> set three_decimal_currencies" by code_simp+
  then show "two_decimal ''USD''" "\<not> zero_decimal ''USD''" by (simp_all add: two_decimal_def zero_decimal_def)
  then show "minor_per_major ''USD'' = 100" by (simp add: minor_per_major_def)
qed

lemma cart_night_rows:
  "tier_at 51 cart_night = Some ga_tier" "org_at 1 cart_night = Some roxy" "hold_currency demo_cart cart_night = Inr ''USD''"
  by (simp_all add: tier_at_def org_at_def get_row_def cart_night_def demo_def catalog_defs hold_currency_def demo_cart_def)

lemma cart_night_session:
  "\<exists>p. create_checkout_session no_settings_fee demo_cart False (minutes 1) cart_night = Inr (StripePage p)"
proof -
  have tier: "hold_price_tier demo_cart = Some 51" by (simp add: demo_cart_def)
  have "minutes 1 < minutes 10" by (simp add: time_defs)
  then show ?thesis
    by (simp add: create_checkout_session_def line_items_for_hold_def append_donation_line_item_def Let_def
        demo_cart_facts cart_night_rows tier del: One_nat_def) (simp add: roxy_def)
qed

theorem order_total_is_collected_witness:
  "\<exists>p o' s'. create_checkout_session no_settings_fee demo_cart False (minutes 1) cart_night = Inr (StripePage p) \<and>
     fulfill_hold demo_cart '''' ''Ann'' ''pi_1'' ''stripe'' (Some ''cs_1'') False (minutes 1) cart_night = Inr (o', s') \<and>
     100 * collected p = 100 * order_total o'"
proof -
  obtain p where p: "create_checkout_session no_settings_fee demo_cart False (minutes 1) cart_night = Inr (StripePage p)"
    using cart_night_session by blast
  obtain o' s' where r: "fulfill_hold demo_cart '''' ''Ann'' ''pi_1'' ''stripe'' (Some ''cs_1'') False (minutes 1) cart_night = Inr (o', s')"
    using cart_night_fulfilled by blast
  have one: "one_currency ''USD'' demo_cart cart_night" by (simp add: one_currency_def cart_night_rows demo_cart_facts)
  have whole: "whole_prices ''USD'' demo_cart cart_night" by (simp add: whole_prices_def whole_minor_def usd)
  have snap: "hold_ga_unit_amount demo_cart \<noteq> None" by (simp add: demo_cart_def)
  have d: "0 \<le> hold_discount demo_cart" "hold_discount demo_cart \<le> 5000" "0 \<le> hold_donation demo_cart"
    by (simp_all add: demo_cart_facts)
  from order_total_is_collected [OF p one whole demo_cart_facts(3) d r refl] snap p r show ?thesis
    by (auto simp: usd)
qed

text \<open>
  In a currency without cents a price with a fraction is rounded per line, half to even, so what is
  collected can differ from the order's total: three seats at 100.50 charge 300, and the order says
  301.50.
\<close>

definition yen_tier :: price_tier where
  "yen_tier = ga_tier\<lparr>tier_amount := 10050, tier_currency := ''JPY''\<rparr>"

definition yen_cart :: hold where
  "yen_cart = (new_hold 1 ga_show ''s1'' None 0)
     \<lparr>hold_pk := 100, hold_price_tier := Some 51, hold_quantity := Some 3, hold_ga_unit_amount := Some 10050\<rparr>"

definition yen_night :: db where
  "yen_night = demo\<lparr>db_next := 101, db_holds := [yen_cart], db_tiers := [yen_tier]\<rparr>"

lemma fraction_of_a_yen_is_lost:
  "\<exists>p. create_checkout_session no_settings_fee yen_cart False (minutes 1) yen_night = Inr (StripePage p) \<and>
     collected p = 300 \<and> hold_grand_total yen_cart yen_night = Inr 30150"
proof -
  have z: "zero_decimal ''JPY''" by code_simp
  have c: "is_ga yen_cart" "ga_unit_amount yen_cart s = Inr 10050" "hold_discount yen_cart = 0" "hold_donation yen_cart = 0"
    "hold_price_tier yen_cart = Some 51" "hold_quantity yen_cart = Some 3" "hold_organization yen_cart = 1"
    "hold_expires_at yen_cart = minutes 10" "tier_at 51 yen_night = Some yen_tier" "org_at 1 yen_night = Some roxy"
    "tier_currency yen_tier = ''JPY''" "org_stripe_charges_enabled roxy" for s
    by (simp_all add: yen_cart_def is_ga_def ga_unit_amount_def new_hold_def ga_show_def hold_discount_def hold_donation_def
        default_hold_expiry_def tier_at_def org_at_def get_row_def yen_night_def yen_tier_def ga_tier_def demo_def roxy_def)
  have lt: "minutes 1 < minutes 10" by (simp add: time_defs)
  have m: "to_minor_units 10050 ''JPY'' = 100" "to_minor_units 0 ''JPY'' = 0"
    by (simp_all add: to_minor_units_zero [OF z] round_half_even_def)
  have t: "hold_total yen_cart yen_night = Inr 30150" by (simp add: hold_total_def c)
  then have g: "hold_grand_total yen_cart yen_night = Inr 30150" by (simp add: hold_grand_total_def c)
  have cur: "hold_currency yen_cart yen_night = Inr ''JPY''" by (simp add: hold_currency_def c)
  have li: "line_items_for_hold yen_cart yen_night = Inr [\<lparr>li_quantity = 3, li_currency = lower ''JPY'',
      li_unit_amount = 100, li_name = TierName (hold_performance yen_cart) (tier_pk yen_tier)\<rparr>]"
    by (simp add: line_items_for_hold_def append_donation_line_item_def c m)
  show ?thesis
    using lt by (simp add: create_checkout_session_def li cur g c m Let_def collected_def del: One_nat_def)
qed

section \<open>From the session back to the purchase\<close>

lemma digit_not_space: "is_digit c \<Longrightarrow> \<not> is_space c"
  by (auto simp: is_digit_def is_space_def)

lemma parse_key_show: "parse_key (show_nat n) = Inr n"
proof -
  have d: "list_all is_digit (show_nat n)" "show_nat n \<noteq> []" using show_nat_digits by auto
  then have "list_all (\<lambda>c. \<not> is_space c) (show_nat n)" by (auto simp: list_all_iff digit_not_space)
  then have "strip (show_nat n) = show_nat n" by (rule strip_no_space)
  with d show ?thesis by (simp add: parse_key_def digits_val_show_nat)
qed

text \<open>What the webhook answers for a hold's session, spelled out.\<close>

definition deliver_hold :: "stripe_session \<Rightarrow> hold \<Rightarrow> bool \<Rightarrow> time \<Rightarrow> db \<Rightarrow> error + (order \<times> bool \<times> db)" where
  "deliver_hold ss h opt now s =
     (if now < hold_expires_at h
      then or_winner (hold_organization h) (ss_id ss) (Some (FulfillErr AvailabilityChangedError)) s
        (fulfill_hold h (or_blank (ss_email ss)) (or_blank (ss_name ss)) (payment_ref_of ss) ''stripe'' (Some (ss_id ss)) opt now s)
      else Inl (FulfillErr HoldGoneError))"

text \<open>
  The session made for a hold leads the webhook back to that hold and to nothing else:
  delivered to the hold's theater it fulfills the hold stored under that key, as it is then and with
  the consent the buyer gave, and reports it as gone when it is not there or has expired; delivered
  to any other theater it is refused and nothing is written.
\<close>

theorem hold_session_leads_back:
  assumes "create_checkout_session cfg h opt now s = Inr (StripePage p)"
    and "ss_metadata ss = sp_metadata p"
    and "\<forall>x\<in>set (db_holds s1). hold_pk x = hold_pk h \<longrightarrow> hold_organization x = hold_organization h"
    and "order_for_session org (ss_id ss) s1 = None"
  shows "fulfill_checkout_session org ss later s1 =
    (if org \<noteq> hold_organization h then Inl (FulfillErr TenantMismatchError)
     else case get_row hold_pk (hold_pk h) (db_holds s1) of
        None \<Rightarrow> Inl (FulfillErr HoldGoneError)
      | Some x \<Rightarrow> deliver_hold ss x opt later s1)"
proof -
  obtain g where g: "org_at (hold_organization h) s = Some g" and
    m: "sp_metadata p = consent_entry opt [''hold_id'' \<mapsto> show_nat (hold_pk h), ''organization_id'' \<mapsto> show_nat (org_pk g)]"
    by (rule create_checkout_session_Stripe [OF assms(1)]) blast
  have pk: "org_pk g = hold_organization h" using g by (auto simp: org_at_def dest: get_row_Some)
  have ne: "show_nat k \<noteq> ''''" for k using show_nat_digits by auto
  have meta: "or_blank (ss_metadata ss ''organization_id'') = show_nat (hold_organization h)"
    "(ss_metadata ss ''marketing_opt_in'' = Some ''1'') = opt" "ss_metadata ss ''kind'' = None"
    "ss_metadata ss ''hold_id'' = Some (show_nat (hold_pk h))"
    by (simp_all add: assms(2) m consent_entry_def pk or_blank_def)
  have inj: "show_nat a = show_nat b \<longleftrightarrow> a = b" for a b
    using parse_key_show by (metis sum.inject(2))
  have look: "first_row (filter (\<lambda>x. hold_organization x = hold_organization h \<and> hold_pk x = hold_pk h) (db_holds s1)) =
      get_row hold_pk (hold_pk h) (db_holds s1)"
    unfolding get_row_def by (rule arg_cong [where f = first_row], rule filter_cong) (use assms(3) in auto)
  have org: "hold_organization x = hold_organization h" if "get_row hold_pk (hold_pk h) (db_holds s1) = Some x" for x
    using get_row_Some [OF that] assms(3) by blast
  have step: "fulfill_checkout_session org ss later s1 =
      (if org \<noteq> hold_organization h then Inl (FulfillErr TenantMismatchError) else fulfill_hold_session org ss opt later s1)"
    by (simp add: fulfill_checkout_session_def assms(4) Let_def meta ne inj)
  show ?thesis
    unfolding step using look org
    by (cases "get_row hold_pk (hold_pk h) (db_holds s1)")
      (auto simp: fulfill_hold_session_def meta parse_key_show deliver_hold_def)
qed

theorem hold_session_leads_back_witness:
  "\<exists>p. create_checkout_session no_settings_fee demo_cart False (minutes 1) cart_night = Inr (StripePage p) \<and>
     fulfill_checkout_session 2 (demo_session\<lparr>ss_metadata := sp_metadata p\<rparr>) (minutes 2) cart_night =
       Inl (FulfillErr TenantMismatchError)"
proof -
  obtain p where p: "create_checkout_session no_settings_fee demo_cart False (minutes 1) cart_night = Inr (StripePage p)"
    using cart_night_session by blast
  let ?ss = "demo_session\<lparr>ss_metadata := sp_metadata p\<rparr>"
  have h: "\<forall>x\<in>set (db_holds cart_night). hold_pk x = hold_pk demo_cart \<longrightarrow> hold_organization x = hold_organization demo_cart"
    by (simp add: cart_night_def)
  have o: "order_for_session 2 (ss_id ?ss) cart_night = None" by (simp add: order_for_session_def cart_night_def demo_def)
  from hold_session_leads_back [OF p _ h o, of "minutes 2"] p show ?thesis by (simp add: demo_cart_facts del: One_nat_def)
qed

text \<open>
  The session made for a gift carries the gift: the webhook reads back exactly the amount
  the donor was charged and the campaign that was named, and records an order of that amount.
\<close>

theorem donation_session_leads_back:
  assumes "create_donation_checkout_session cfg g a campaign email opt = StripePage p"
    and "ss_metadata ss = sp_metadata p" and "0 \<le> a" and "a < 10 ^ 10"
    and "\<forall>c. campaign = Some c \<longrightarrow> get_row camp_pk (camp_pk c) (db_campaigns s) = Some c \<and> camp_organization c = org_pk g"
    and "order_for_session (org_pk g) (ss_id ss) s = None"
  shows "fulfill_checkout_session (org_pk g) ss now s =
    or_winner (org_pk g) (ss_id ss) None s
      (fulfill_donation (org_pk g) a (map_option camp_pk campaign) (or_blank (ss_email ss)) (or_blank (ss_name ss))
        ''stripe'' (payment_ref_of ss) (Some (ss_id ss)) opt now s)"
proof -
  have ne: "show_nat k \<noteq> ''''" for k using show_nat_digits by auto
  have m: "sp_metadata p = consent_entry opt
      [''kind'' \<mapsto> ''donation'', ''organization_id'' \<mapsto> show_nat (org_pk g),
       ''donation_campaign_id'' \<mapsto> (case campaign of None \<Rightarrow> '''' | Some c \<Rightarrow> show_nat (camp_pk c)),
       ''donation_amount'' \<mapsto> show_cents a]"
    using assms(1) by (auto simp: create_donation_checkout_session_def Let_def split: if_splits)
  have meta: "or_blank (ss_metadata ss ''organization_id'') = show_nat (org_pk g)"
    "(ss_metadata ss ''marketing_opt_in'' = Some ''1'') = opt" "ss_metadata ss ''kind'' = Some ''donation''"
    "ss_metadata ss ''donation_amount'' = Some (show_cents a)"
    "ss_metadata ss ''donation_campaign_id'' = Some (case campaign of None \<Rightarrow> '''' | Some c \<Rightarrow> show_nat (camp_pk c))"
    by (simp_all add: assms(2) m consent_entry_def or_blank_def)
  have amount: "session_amount ss = Inr a"
  proof -
    have "quantize_cents (Fin a (-2)) = Some (Cents a)" using assms(3,4) by (intro quantize_cents_exact) simp
    with assms(3,4) show ?thesis by (simp add: session_amount_def meta parse_show_cents)
  qed
  have camp: "session_campaign (org_pk g) ss s = Inr (map_option camp_pk campaign)"
  proof (cases campaign)
    case None
    then show ?thesis by (simp add: session_campaign_def meta)
  next
    case (Some c)
    with assms(5) have row: "get_row camp_pk (camp_pk c) (db_campaigns s) = Some c" and org: "camp_organization c = org_pk g" by simp_all
    have "filter (\<lambda>x. camp_organization x = org_pk g \<and> camp_pk x = camp_pk c) (db_campaigns s) =
        filter (\<lambda>x. camp_organization x = org_pk g) (filter (\<lambda>x. camp_pk x = camp_pk c) (db_campaigns s))"
      by (simp add: conj_commute)
    moreover obtain rest where "filter (\<lambda>x. camp_pk x = camp_pk c) (db_campaigns s) = c # rest"
      using row by (auto simp: get_row_def first_row_def split: list.splits)
    ultimately have "first_row (filter (\<lambda>x. camp_organization x = org_pk g \<and> camp_pk x = camp_pk c) (db_campaigns s)) = Some c"
      using org by simp
    then show ?thesis by (simp add: session_campaign_def meta Some ne parse_key_show)
  qed
  show ?thesis
    by (simp add: fulfill_checkout_session_def assms(6) Let_def meta fulfill_donation_session_def amount camp)
qed

theorem donation_session_leads_back_witness:
  "\<exists>p. create_donation_checkout_session no_settings_fee roxy 2500 (Some general_fund) '''' True = StripePage p \<and>
     fulfill_checkout_session 1 (demo_session\<lparr>ss_metadata := sp_metadata p\<rparr>) 0 demo =
       or_winner 1 ''cs_1'' None demo
         (fulfill_donation 1 2500 (Some 81) '''' ''Ann'' ''stripe'' ''pi_1'' (Some ''cs_1'') True 0 demo)"
proof -
  obtain p where p: "create_donation_checkout_session no_settings_fee roxy 2500 (Some general_fund) '''' True = StripePage p"
    by (auto simp: create_donation_checkout_session_def Let_def roxy_def)
  let ?ss = "demo_session\<lparr>ss_metadata := sp_metadata p\<rparr>"
  have r: "org_pk roxy = 1" "camp_pk general_fund = 81" by (simp_all add: roxy_def general_fund_def)
  have ss: "ss_id ?ss = ''cs_1''" "ss_email demo_session = None" "ss_name demo_session = Some ''Ann''" "payment_ref_of ?ss = ''pi_1''"
    "or_blank None = ''''" "or_blank (Some x) = x" for x
    by (simp_all add: demo_session_def or_blank_def payment_ref_of_def)
  have c: "\<forall>c. Some general_fund = Some c \<longrightarrow> get_row camp_pk (camp_pk c) (db_campaigns demo) = Some c \<and> camp_organization c = org_pk roxy"
    by (simp add: get_row_def demo_def catalog_defs)
  have o: "order_for_session (org_pk roxy) (ss_id ?ss) demo = None" by (simp add: order_for_session_def demo_def)
  from donation_session_leads_back [OF p _ _ _ c o, of 0] p show ?thesis by (simp add: r ss del: One_nat_def)
qed

end
