(* ===== verification/Hashing.thy ===== *)
theory Hashing
  imports Prelude "HOL-Library.Word"
begin

text \<open>
  The three standard-library routines a ticket signature is made of: \<open>hashlib.sha256\<close>,
  \<open>hmac.new(key, msg, sha256).digest()\<close> and \<open>base64.b32encode\<close>, on lists of bytes, with SHA-256's
  words kept at 32 bits so that its additions wrap.
\<close>

unbundle bit_operations_syntax

type_synonym byte = "8 word"
type_synonym word32 = "32 word"

text \<open>\<open>str.encode()\<close> on an ASCII string.\<close>

definition encode :: "string \<Rightarrow> byte list" where
  "encode s = map (\<lambda>c. word_of_nat (code_pt c)) s"

section \<open>SHA-256\<close>

fun chunks :: "nat \<Rightarrow> 'a list \<Rightarrow> 'a list list" where
  "chunks n xs = (if n = 0 \<or> xs = [] then [] else take n xs # chunks n (drop n xs))"

declare chunks.simps [simp del]

text \<open>The first 32 bits of the fractional parts of the cube and square roots of the first primes.\<close>

definition sha_k :: "word32 list" where
  "sha_k =
     [1116352408, 1899447441, 3049323471, 3921009573, 961987163, 1508970993, 2453635748, 2870763221,
      3624381080, 310598401, 607225278, 1426881987, 1925078388, 2162078206, 2614888103, 3248222580,
      3835390401, 4022224774, 264347078, 604807628, 770255983, 1249150122, 1555081692, 1996064986,
      2554220882, 2821834349, 2952996808, 3210313671, 3336571891, 3584528711, 113926993, 338241895,
      666307205, 773529912, 1294757372, 1396182291, 1695183700, 1986661051, 2177026350, 2456956037,
      2730485921, 2820302411, 3259730800, 3345764771, 3516065817, 3600352804, 4094571909, 275423344,
      430227734, 506948616, 659060556, 883997877, 958139571, 1322822218, 1537002063, 1747873779,
      1955562222, 2024104815, 2227730452, 2361852424, 2428436474, 2756734187, 3204031479, 3329325298]"

definition sha_h0 :: "word32 list" where
  "sha_h0 =
     [1779033703, 3144134277, 1013904242, 2773480762, 1359893119, 2600822924, 528734635, 1541459225]"

definition be_word :: "byte list \<Rightarrow> word32" where
  "be_word bs = foldl (\<lambda>a b. push_bit 8 a OR ucast b) 0 bs"

definition be_bytes :: "nat \<Rightarrow> nat \<Rightarrow> byte list" where
  "be_bytes k n = map (\<lambda>i. word_of_nat (n div 256 ^ (k - 1 - i))) [0..<k]"

definition sha_pad :: "byte list \<Rightarrow> byte list" where
  "sha_pad m = (let n = length m in m @ [0x80] @ replicate ((119 - n mod 64) mod 64) 0 @ be_bytes 8 (8 * n))"

definition small_sigma :: "nat \<Rightarrow> nat \<Rightarrow> nat \<Rightarrow> word32 \<Rightarrow> word32" where
  "small_sigma a b c w = xor (xor (word_rotr a w) (word_rotr b w)) (drop_bit c w)"

definition big_sigma :: "nat \<Rightarrow> nat \<Rightarrow> nat \<Rightarrow> word32 \<Rightarrow> word32" where
  "big_sigma a b c w = xor (xor (word_rotr a w) (word_rotr b w)) (word_rotr c w)"

text \<open>The message schedule grows to the right; the newest word is last.\<close>

fun sha_extend :: "nat \<Rightarrow> word32 list \<Rightarrow> word32 list" where
  "sha_extend 0 ws = ws"
| "sha_extend (Suc k) ws =
     (let n = length ws
      in sha_extend k (ws @ [small_sigma 17 19 10 (ws ! (n - 2)) + ws ! (n - 7) +
                             small_sigma 7 18 3 (ws ! (n - 15)) + ws ! (n - 16)]))"

record sha_state =
  sha_a :: word32
  sha_b :: word32
  sha_c :: word32
  sha_d :: word32
  sha_e :: word32
  sha_f :: word32
  sha_g :: word32
  sha_h :: word32

definition sha_round :: "word32 \<times> word32 \<Rightarrow> sha_state \<Rightarrow> sha_state" where
  "sha_round kw v =
     (let t1 = sha_h v + big_sigma 6 11 25 (sha_e v) +
               xor (sha_e v AND sha_f v) ((NOT (sha_e v)) AND sha_g v) + fst kw + snd kw;
          t2 = big_sigma 2 13 22 (sha_a v) +
               xor (xor (sha_a v AND sha_b v) (sha_a v AND sha_c v)) (sha_b v AND sha_c v)
      in \<lparr>sha_a = t1 + t2, sha_b = sha_a v, sha_c = sha_b v, sha_d = sha_c v,
          sha_e = sha_d v + t1, sha_f = sha_e v, sha_g = sha_f v, sha_h = sha_g v\<rparr>)"

definition sha_load :: "word32 list \<Rightarrow> sha_state" where
  "sha_load h = \<lparr>sha_a = h ! 0, sha_b = h ! 1, sha_c = h ! 2, sha_d = h ! 3,
     sha_e = h ! 4, sha_f = h ! 5, sha_g = h ! 6, sha_h = h ! 7\<rparr>"

definition sha_words :: "sha_state \<Rightarrow> word32 list" where
  "sha_words v = [sha_a v, sha_b v, sha_c v, sha_d v, sha_e v, sha_f v, sha_g v, sha_h v]"

definition sha_block :: "byte list \<Rightarrow> word32 list \<Rightarrow> word32 list" where
  "sha_block b h =
     (let ws = sha_extend 48 (map be_word (chunks 4 b))
      in map2 (+) h (sha_words (fold sha_round (zip sha_k ws) (sha_load h))))"

definition sha256 :: "byte list \<Rightarrow> byte list" where
  "sha256 m = concat (map (\<lambda>w. be_bytes 4 (unat w)) (fold sha_block (chunks 64 (sha_pad m)) sha_h0))"

section \<open>HMAC\<close>

definition hmac_block_key :: "byte list \<Rightarrow> byte list" where
  "hmac_block_key key = (let k = (if 64 < length key then sha256 key else key) in k @ replicate (64 - length k) 0)"

definition hmac_sha256 :: "byte list \<Rightarrow> byte list \<Rightarrow> byte list" where
  "hmac_sha256 key msg =
     (let k = hmac_block_key key
      in sha256 (map (\<lambda>b. xor b 0x5c) k @ sha256 (map (\<lambda>b. xor b 0x36) k @ msg)))"

section \<open>Base 32\<close>

definition b32_alphabet :: string where
  "b32_alphabet = ''ABCDEFGHIJKLMNOPQRSTUVWXYZ234567''"

text \<open>Five bits at a time, the last group filled with zeros, padded with \<open>=\<close> to a multiple of eight.\<close>

definition byte_bits :: "byte \<Rightarrow> bool list" where
  "byte_bits b = map (\<lambda>i. bit b (7 - i)) [0..<8]"

definition bits_val :: "bool list \<Rightarrow> nat" where
  "bits_val bs = foldl (\<lambda>a b. 2 * a + (if b then 1 else 0)) 0 bs"

definition b32_digit :: "bool list \<Rightarrow> char" where
  "b32_digit bs = b32_alphabet ! bits_val (bs @ replicate (5 - length bs) False)"

definition b32encode :: "byte list \<Rightarrow> string" where
  "b32encode m =
     (let ds = map b32_digit (chunks 5 (concat (map byte_bits m)))
      in ds @ replicate ((8 - length ds mod 8) mod 8) CHR ''='')"

definition rstrip_pad :: "string \<Rightarrow> string" where
  "rstrip_pad s = rev (dropWhile (\<lambda>c. c = CHR ''='') (rev s))"

section \<open>Lemmas\<close>

subsection \<open>Chunks\<close>

lemma concat_chunks: "0 < n \<Longrightarrow> concat (chunks n xs) = xs"
  by (induction n xs rule: chunks.induct) (subst chunks.simps, auto)

lemma chunks_le: "c \<in> set (chunks n xs) \<Longrightarrow> length c \<le> n"
  by (induction n xs rule: chunks.induct) (subst (asm) (2) chunks.simps, auto split: if_splits)

lemma length_chunks: "0 < n \<Longrightarrow> length (chunks n xs) = (length xs + n - 1) div n"
proof (induction n xs rule: chunks.induct)
  case (1 n xs)
  show ?case
  proof (cases "xs = []")
    case True
    then show ?thesis using 1 by (subst chunks.simps) simp
  next
    case False
    have "length (chunks n (drop n xs)) = (length xs - n + n - 1) div n"
      using 1 False by simp
    moreover have "Suc ((length xs - n + n - 1) div n) = (length xs + n - 1) div n"
    proof (cases "n \<le> length xs")
      case True
      then have "length xs + n - 1 = (length xs - n + n - 1) + n" using \<open>0 < n\<close> False by simp
      then show ?thesis using \<open>0 < n\<close> by (metis Suc_eq_plus1 div_add_self2 neq0_conv)
    next
      case le: False
      have len: "0 < length xs" using False by simp
      then have "length xs + n - 1 = n + (length xs - 1)" "length xs - 1 < n" using le by linarith+
      moreover have "(n + k) div n = 1" if "k < n" for k using that \<open>0 < n\<close> by (simp add: div_add_self1)
      ultimately have "(length xs + n - 1) div n = 1" by metis
      moreover have "(length xs - n + n - 1) div n = 0" using le \<open>0 < n\<close> by simp
      ultimately show ?thesis by simp
    qed
    ultimately show ?thesis using 1 False by (subst chunks.simps) simp
  qed
qed

lemma chunks_lengths: "length xs = length ys \<Longrightarrow> map length (chunks n xs) = map length (chunks n ys)"
proof (induction n xs arbitrary: ys rule: chunks.induct)
  case (1 n xs)
  show ?case
  proof (cases "n = 0 \<or> xs = []")
    case True
    then show ?thesis using 1(2) by (subst (1 2) chunks.simps) auto
  next
    case False
    then have "map length (chunks n (drop n xs)) = map length (chunks n (drop n ys))" using 1 by simp
    then show ?thesis using False 1(2) by (subst (1 2) chunks.simps) auto
  qed
qed

subsection \<open>Digests have 32 bytes\<close>

lemma length_sha_block: "length h = 8 \<Longrightarrow> length (sha_block b h) = 8"
  by (simp add: sha_block_def sha_words_def Let_def)

lemma length_sha_fold: "length h = 8 \<Longrightarrow> length (fold sha_block bs h) = 8"
  by (induction bs arbitrary: h) (simp_all add: length_sha_block)

lemma length_sha256: "length (sha256 m) = 32"
proof -
  have "length (fold sha_block (chunks 64 (sha_pad m)) sha_h0) = 8"
    by (rule length_sha_fold) (simp add: sha_h0_def)
  moreover have "length (concat (map (\<lambda>w. be_bytes 4 (unat w)) ws)) = 4 * length ws" for ws :: "word32 list"
    by (induction ws) (simp_all add: be_bytes_def)
  ultimately show ?thesis by (simp add: sha256_def)
qed

lemma length_hmac: "length (hmac_sha256 k m) = 32"
  by (simp add: hmac_sha256_def Let_def length_sha256)

subsection \<open>Base 32 is injective\<close>

lemma bits_val_append [simp]: "bits_val (bs @ [b]) = 2 * bits_val bs + (if b then 1 else 0)"
  by (simp add: bits_val_def)

lemma bits_val_less: "bits_val bs < 2 ^ length bs"
  by (induction bs rule: rev_induct) (auto simp: bits_val_def)

lemma bits_val_inj: "length bs = length cs \<Longrightarrow> bits_val bs = bits_val cs \<Longrightarrow> bs = cs"
proof (induction bs arbitrary: cs rule: rev_induct)
  case (snoc b bs)
  then obtain c ds where cs: "cs = ds @ [c]" by (metis append_butlast_last_id length_0_conv length_append_singleton nat.distinct(1))
  have "2 * bits_val bs + (if b then 1 else 0) = 2 * bits_val ds + (if c then 1 else (0::nat))"
    using snoc.prems(2) by (simp add: cs)
  then have "b = c \<and> bits_val bs = bits_val ds" by (cases b; cases c; simp; arith)
  then show ?case using snoc by (simp add: cs)
qed simp

lemma b32_alphabet_facts: "length b32_alphabet = 32" "distinct b32_alphabet" "CHR ''='' \<notin> set b32_alphabet" "CHR ''.'' \<notin> set b32_alphabet"
  by code_simp+

lemma digit_index: "length bs \<le> 5 \<Longrightarrow> bits_val (bs @ replicate (5 - length bs) False) < 32"
  using bits_val_less [of "bs @ replicate (5 - length bs) False"] by simp

lemma b32_digit_in: "length bs \<le> 5 \<Longrightarrow> b32_digit bs \<in> set b32_alphabet"
  using digit_index by (simp add: b32_digit_def b32_alphabet_facts)

lemma b32_digit_inj: "length bs = length cs \<Longrightarrow> length bs \<le> 5 \<Longrightarrow> b32_digit bs = b32_digit cs \<Longrightarrow> bs = cs"
  using digit_index [of bs] digit_index [of cs] bits_val_inj [of "bs @ replicate (5 - length bs) False" "cs @ replicate (5 - length bs) False"]
  by (simp add: b32_digit_def nth_eq_iff_index_eq [OF b32_alphabet_facts(2)] b32_alphabet_facts)

lemma digits_inj:
  "map length cs = map length ds \<Longrightarrow> \<forall>c\<in>set cs. length c \<le> 5 \<Longrightarrow> map b32_digit cs = map b32_digit ds \<Longrightarrow> cs = ds"
proof (induction cs arbitrary: ds)
  case (Cons c cs)
  then obtain d ds' where "ds = d # ds'" by (cases ds) auto
  with Cons b32_digit_inj [of c d] show ?case by auto
qed simp

lemma byte_bits_inj: "byte_bits a = byte_bits b \<Longrightarrow> a = b"
proof -
  assume eq: "byte_bits a = byte_bits b"
  have "bit a i = bit b i" if "i < 8" for i
  proof -
    have "byte_bits a ! (7 - i) = byte_bits b ! (7 - i)" using eq by simp
    moreover have "[0..<8] ! (7 - i) = 7 - i" by (subst nth_upt) (use that in simp_all)
    ultimately show ?thesis using that by (simp add: byte_bits_def del: upt_Suc)
  qed
  then show ?thesis by (intro bit_word_eqI) simp
qed

lemma bits_inj: "length xs = length ys \<Longrightarrow> concat (map byte_bits xs) = concat (map byte_bits ys) \<Longrightarrow> xs = ys"
proof (induction xs ys rule: list_induct2)
  case (Cons x xs y ys)
  then show ?case using byte_bits_inj [of x y] by (simp add: byte_bits_def)
qed simp

lemma length_bits: "length (concat (map byte_bits xs)) = 8 * length xs"
  by (induction xs) (simp_all add: byte_bits_def)

definition b32_digits :: "byte list \<Rightarrow> string" where
  "b32_digits m = map b32_digit (chunks 5 (concat (map byte_bits m)))"

lemma b32_digits_in: "set (b32_digits m) \<subseteq> set b32_alphabet"
  by (auto simp: b32_digits_def intro!: b32_digit_in chunks_le)

lemma length_b32_digits: "length (b32_digits m) = (8 * length m + 4) div 5"
  by (simp add: b32_digits_def length_chunks length_bits)

lemma b32_digits_inj:
  assumes "length xs = length ys" and "b32_digits xs = b32_digits ys"
  shows "xs = ys"
proof -
  let ?x = "concat (map byte_bits xs)" and ?y = "concat (map byte_bits ys)"
  have "chunks 5 ?x = chunks 5 ?y"
    by (rule digits_inj) (use assms chunks_le in \<open>auto simp: b32_digits_def length_bits intro!: chunks_lengths\<close>)
  then have "?x = ?y" by (metis concat_chunks zero_less_numeral)
  with assms(1) show ?thesis by (rule bits_inj)
qed

lemma stripped_b32: "rstrip_pad (b32encode m) = b32_digits m"
proof -
  have ne: "\<forall>c\<in>set (b32_digits m). c \<noteq> CHR ''=''" using b32_digits_in b32_alphabet_facts(3) by blast
  have "dropWhile (\<lambda>c. c = CHR ''='') (replicate n CHR ''='' @ xs) = dropWhile (\<lambda>c. c = CHR ''='') xs" for n xs
    by (induction n) simp_all
  moreover have "dropWhile (\<lambda>c. c = CHR ''='') (rev (b32_digits m)) = rev (b32_digits m)"
  proof -
    have "c \<noteq> CHR ''=''" if "c \<in> set (rev (b32_digits m))" for c using that ne by simp
    then show ?thesis by (cases "rev (b32_digits m)") simp_all
  qed
  ultimately show ?thesis
    by (simp add: rstrip_pad_def b32encode_def Let_def b32_digits_def [symmetric])
qed

end
