(* ===== verification/Tokens.thy ===== *)
theory Tokens
  imports Fixture Hashing
begin

text \<open>
  orders/tokens.py and the token generator of orders/models.py: the code in a ticket's QR is the
  token and its signature joined by a point. \<open>secret_key\<close> is \<open>settings.SECRET_KEY\<close>; the choices
  \<open>secrets.choice\<close> makes are an argument of \<open>new_token\<close>. The check the door's page makes before it
  calls the server is the one in static/js/scanner.js.
\<close>

section \<open>The code\<close>

definition token_alphabet :: string where
  "token_alphabet = ''ACDEFGHJKMNPQRTVWXY2345789''"

definition token_length :: nat where
  "token_length = 10"

definition new_token :: "(nat \<Rightarrow> nat) \<Rightarrow> string" where
  "new_token choice = map (\<lambda>i. token_alphabet ! (choice i mod length token_alphabet)) [0..<token_length]"

definition sig_bytes :: nat where
  "sig_bytes = 12"

definition key_for_org :: "string \<Rightarrow> nat \<Rightarrow> byte list" where
  "key_for_org secret_key organization_id = encode (secret_key @ '':ticket-qr:'' @ show_nat organization_id)"

definition sign_token :: "string \<Rightarrow> string \<Rightarrow> nat \<Rightarrow> string" where
  "sign_token secret_key token organization_id =
     (let digest = hmac_sha256 (key_for_org secret_key organization_id) (encode token)
      in rstrip_pad (b32encode (take sig_bytes digest)))"

definition sign_ticket :: "string \<Rightarrow> ticket \<Rightarrow> string" where
  "sign_ticket secret_key t = sign_token secret_key (tkt_token t) (tkt_organization t)"

definition verify_ticket_sig :: "string \<Rightarrow> string \<Rightarrow> string \<Rightarrow> nat \<Rightarrow> bool" where
  "verify_ticket_sig secret_key token sig organization_id =
     (if sig = '''' then False else sign_token secret_key token organization_id = sig)"

definition scan_code :: "string \<Rightarrow> ticket \<Rightarrow> string" where
  "scan_code secret_key t = tkt_token t @ ''.'' @ sign_ticket secret_key t"

text \<open>The scanner page: \<open>/^([A-Z0-9]+)\.([A-Z0-9]+)$/\<close> on the trimmed text in upper case.\<close>

definition is_code_char :: "char \<Rightarrow> bool" where
  "is_code_char c = ((65 \<le> code_pt c \<and> code_pt c \<le> 90) \<or> is_digit c)"

definition read_scan :: "string \<Rightarrow> (string \<times> string) option" where
  "read_scan decoded_text =
     (let t = upper (strip decoded_text); token = takeWhile is_code_char t; rest = dropWhile is_code_char t
      in case rest of
           [] \<Rightarrow> None
         | c # sig \<Rightarrow> (if c = CHR ''.'' \<and> token \<noteq> [] \<and> sig \<noteq> [] \<and> list_all is_code_char sig
                      then Some (token, sig) else None))"

section \<open>Lemmas\<close>

lemma sign_token_digits:
  "sign_token secret_key token org = b32_digits (take 12 (hmac_sha256 (key_for_org secret_key org) (encode token)))"
  by (simp add: sign_token_def Let_def stripped_b32 sig_bytes_def)

lemma length_sign_token: "length (sign_token k t g) = 20"
  by (simp add: sign_token_digits length_b32_digits length_hmac)

lemma sign_token_in: "set (sign_token k t g) \<subseteq> set b32_alphabet"
  by (simp add: sign_token_digits b32_digits_in)

lemma verify_iff: "verify_ticket_sig k t sig g \<longleftrightarrow> sig = sign_token k t g"
  using length_sign_token [of k t g] by (auto simp: verify_ticket_sig_def)

lemma alphabets_scan: "list_all is_code_char token_alphabet" "list_all is_code_char b32_alphabet"
  "list_all (\<lambda>c. upper_char c = c) token_alphabet" "list_all (\<lambda>c. upper_char c = c) b32_alphabet"
  "list_all (\<lambda>c. \<not> is_space c) token_alphabet" "list_all (\<lambda>c. \<not> is_space c) b32_alphabet"
  by code_simp+

lemma token_chars: "set (new_token choice) \<subseteq> set token_alphabet"
proof -
  have "length token_alphabet = 26" by code_simp
  then show ?thesis by (auto simp: new_token_def intro!: nth_mem)
qed

lemma length_new_token: "length (new_token choice) = 10"
  by (simp add: new_token_def token_length_def)

text \<open>The token's alphabet is not the base 32 the module's documentation says it is.\<close>

lemma token_alphabet_not_base32: "CHR ''8'' \<in> set token_alphabet \<and> CHR ''8'' \<notin> set b32_alphabet"
  by code_simp

section \<open>Properties\<close>

text \<open>
  Whatever token a ticket was given, the code in its QR is thirty-one characters that the
  scanner page takes apart into exactly that token and a signature that the ticket's theater
  verifies.
\<close>

theorem scan_code_roundtrip:
  assumes "tkt_token t = new_token choice"
  shows "length (scan_code secret_key t) = 31 \<and>
    (\<exists>sig. read_scan (scan_code secret_key t) = Some (tkt_token t, sig) \<and>
       verify_ticket_sig secret_key (tkt_token t) sig (tkt_organization t))"
proof -
  let ?k = "tkt_token t" and ?s = "sign_ticket secret_key t"
  have tok: "\<forall>c\<in>set ?k. is_code_char c \<and> upper_char c = c \<and> \<not> is_space c"
    using token_chars [of choice] alphabets_scan assms by (auto simp: list_all_iff)
  have sig: "\<forall>c\<in>set ?s. is_code_char c \<and> upper_char c = c \<and> \<not> is_space c"
    using sign_token_in alphabets_scan by (fastforce simp: list_all_iff sign_ticket_def)
  have len: "length ?k = 10" "length ?s = 20"
    using assms by (simp_all add: length_new_token sign_ticket_def length_sign_token)
  then have ne: "?k \<noteq> []" "?s \<noteq> []" by auto
  have dot: "upper_char CHR ''.'' = CHR ''.''" "\<not> is_space CHR ''.''" "\<not> is_code_char CHR ''.''" by code_simp+
  have "list_all (\<lambda>c. \<not> is_space c) (scan_code secret_key t)"
    using tok sig dot by (auto simp: scan_code_def list_all_iff)
  then have "strip (scan_code secret_key t) = scan_code secret_key t" by (rule strip_no_space)
  moreover have "upper (scan_code secret_key t) = scan_code secret_key t"
    using tok sig dot by (auto simp: scan_code_def upper_def intro!: map_idI)
  ultimately have shown: "upper (strip (scan_code secret_key t)) = ?k @ CHR ''.'' # ?s" by (simp add: scan_code_def)
  have "takeWhile is_code_char (?k @ CHR ''.'' # ?s) = ?k" "dropWhile is_code_char (?k @ CHR ''.'' # ?s) = CHR ''.'' # ?s"
    using tok dot by (simp_all add: takeWhile_append dropWhile_append)
  then have "read_scan (scan_code secret_key t) = Some (?k, ?s)"
    using sig ne by (simp add: read_scan_def shown Let_def list_all_iff)
  moreover have "verify_ticket_sig secret_key ?k ?s (tkt_organization t)" by (simp add: verify_iff sign_ticket_def)
  ultimately show ?thesis using len by (auto simp: scan_code_def)
qed

definition door_ticket :: ticket where
  "door_ticket = \<lparr>tkt_pk = 200, tkt_organization = 1, tkt_order = 199, tkt_performance = 31, tkt_seat = None,
     tkt_holder_name = ''Ann'', tkt_token = new_token (\<lambda>i. i), tkt_status = VALID, tkt_used_at = None,
     tkt_scanned_by = None\<rparr>"

theorem scan_code_roundtrip_witness: "length (scan_code ''k'' door_ticket) = 31"
  using scan_code_roundtrip [of door_ticket "\<lambda>i. i" "''k''"] by (simp add: door_ticket_def)

text \<open>
  A signature made for one ticket opens another one only when the two truncated message
  authentication codes are the same ninety-six bits: the text form of the signature loses nothing, so
  the scheme is exactly as strong as the truncated HMAC, across tokens and across theaters.
\<close>

theorem signature_is_the_mac:
  "verify_ticket_sig secret_key token (sign_token secret_key' token' org') org \<longleftrightarrow>
     take 12 (hmac_sha256 (key_for_org secret_key org) (encode token)) =
     take 12 (hmac_sha256 (key_for_org secret_key' org') (encode token'))"
proof -
  let ?a = "take 12 (hmac_sha256 (key_for_org secret_key org) (encode token))"
  let ?b = "take 12 (hmac_sha256 (key_for_org secret_key' org') (encode token'))"
  have "length ?a = length ?b" by (simp add: length_hmac)
  from b32_digits_inj [OF this] show ?thesis by (auto simp: verify_iff sign_token_digits)
qed

end
