(* ===== verification/Scanning.thy ===== *)
theory Scanning
  imports Tokens Fulfillment
begin

text \<open>
  scanning/services.py: the one place a ticket goes from valid to used, and the door's manual entry
  of scanning/views.py. The message of a result is represented by what it is rendered from.
\<close>

section \<open>The code\<close>

definition SCAN_WINDOW_OPENS_BEFORE :: time where
  "SCAN_WINDOW_OPENS_BEFORE = hours 1"

definition SCAN_WINDOW_CLOSES_AFTER :: time where
  "SCAN_WINDOW_CLOSES_AFTER = hours 4"

datatype scan_reason = ScanOk | BadSig | NotFound | AlreadyUsed | ScanVoid | WrongTime | InvalidCode

datatype scan_message =
    AdmitMsg
  | BadSigMsg
  | NoTicketMsg
  | VoidedMsg
  | AlreadyScannedMsg "time option" "nat option"
  | TooEarlyMsg time
  | TooLateMsg time
  | NotACodeMsg

record scan_result =
  scan_ok :: bool
  scan_reason :: scan_reason
  scan_message :: scan_message
  scan_ticket :: "ticket option"

definition refusal :: "scan_reason \<Rightarrow> scan_message \<Rightarrow> ticket option \<Rightarrow> scan_result" where
  "refusal reason message t = \<lparr>scan_ok = False, scan_reason = reason, scan_message = message, scan_ticket = t\<rparr>"

definition wrong_time_result :: "ticket \<Rightarrow> time \<Rightarrow> time \<Rightarrow> scan_result option" where
  "wrong_time_result t starts_at now =
     (let opens_at = starts_at - SCAN_WINDOW_OPENS_BEFORE; closes_at = starts_at + SCAN_WINDOW_CLOSES_AFTER
      in if now < opens_at then Some (refusal WrongTime (TooEarlyMsg starts_at) (Some t))
         else if closes_at < now then Some (refusal WrongTime (TooLateMsg starts_at) (Some t))
         else None)"

text \<open>The row is joined with its performance, so a ticket without one is not found.\<close>

definition ticket_by_token :: "nat \<Rightarrow> string \<Rightarrow> db \<Rightarrow> (ticket \<times> performance) option" where
  "ticket_by_token organization token s =
     (case first_row (filter (\<lambda>t. tkt_organization t = organization \<and> tkt_token t = token) (db_tickets s)) of
        None \<Rightarrow> None
      | Some t \<Rightarrow> map_option (\<lambda>p. (t, p)) (performance_at (tkt_performance t) s))"

definition mark_used :: "time \<Rightarrow> nat option \<Rightarrow> ticket \<Rightarrow> ticket" where
  "mark_used now scanned_by t = t\<lparr>tkt_status := USED, tkt_used_at := Some now, tkt_scanned_by := scanned_by\<rparr>"

definition redeem_ticket ::
    "string \<Rightarrow> nat \<Rightarrow> string \<Rightarrow> string \<Rightarrow> nat option \<Rightarrow> time \<Rightarrow> db \<Rightarrow> scan_result \<times> db" where
  "redeem_ticket secret_key organization token sig scanned_by now s =
     (if \<not> verify_ticket_sig secret_key token sig organization
      then (refusal BadSig BadSigMsg None, s)
      else
        (case ticket_by_token organization token s of
           None \<Rightarrow> (refusal NotFound NoTicketMsg None, s)
         | Some (t, performance) \<Rightarrow>
             (if tkt_status t = VOID then (refusal ScanVoid VoidedMsg (Some t), s)
              else if tkt_status t = USED
                then (refusal AlreadyUsed (AlreadyScannedMsg (tkt_used_at t) (tkt_scanned_by t)) (Some t), s)
              else
                (case wrong_time_result t (perf_starts_at performance) now of
                   Some wrong_time \<Rightarrow> (wrong_time, s)
                 | None \<Rightarrow>
                     (\<lparr>scan_ok = True, scan_reason = ScanOk, scan_message = AdmitMsg,
                       scan_ticket = Some (mark_used now scanned_by t)\<rparr>,
                      s\<lparr>db_tickets := update_rows (\<lambda>x. tkt_pk x = tkt_pk t) (mark_used now scanned_by) (db_tickets s)\<rparr>)))))"

text \<open>The in-page manual entry: \<open>strip().upper()\<close>, the shape guard, and the same redemption.\<close>

definition manual_entry :: "string \<Rightarrow> nat \<Rightarrow> string \<Rightarrow> nat option \<Rightarrow> time \<Rightarrow> db \<Rightarrow> scan_result \<times> db" where
  "manual_entry secret_key organization posted scanned_by now s =
     (let raw_token = upper (strip posted)
      in if raw_token = '''' \<or> \<not> list_all is_code_char raw_token
         then (refusal InvalidCode NotACodeMsg None, s)
         else redeem_ticket secret_key organization raw_token (sign_token secret_key raw_token organization) scanned_by now s)"

section \<open>Lemmas\<close>

definition door_open :: "performance \<Rightarrow> time \<Rightarrow> bool" where
  "door_open p now \<longleftrightarrow> perf_starts_at p - hours 1 \<le> now \<and> now \<le> perf_starts_at p + hours 4"

lemma wrong_time_iff: "wrong_time_result t (perf_starts_at p) now = None \<longleftrightarrow> door_open p now"
  by (auto simp: wrong_time_result_def door_open_def Let_def SCAN_WINDOW_OPENS_BEFORE_def SCAN_WINDOW_CLOSES_AFTER_def)

lemma mark_used_fields [simp]:
  "tkt_pk (mark_used now by t) = tkt_pk t" "tkt_token (mark_used now by t) = tkt_token t"
  "tkt_organization (mark_used now by t) = tkt_organization t" "tkt_performance (mark_used now by t) = tkt_performance t"
  "tkt_order (mark_used now by t) = tkt_order t" "tkt_seat (mark_used now by t) = tkt_seat t"
  "tkt_status (mark_used now by t) = USED" "tkt_used_at (mark_used now by t) = Some now"
  "tkt_scanned_by (mark_used now by t) = by"
  by (simp_all add: mark_used_def)

lemma ticket_by_token_Some:
  assumes "ticket_by_token org token s = Some (t, p)"
  shows "t \<in> set (db_tickets s)" "tkt_organization t = org" "tkt_token t = token" "performance_at (tkt_performance t) s = Some p"
  using assms by (auto simp: ticket_by_token_def split: option.splits dest!: first_row_Some)

lemma redeem_ok:
  assumes "redeem_ticket k org token sig by now s = (r, s')" and "scan_ok r"
  obtains t p where "verify_ticket_sig k token sig org" "ticket_by_token org token s = Some (t, p)" "tkt_status t = VALID"
    "door_open p now" "scan_ticket r = Some (mark_used now by t)"
    "s' = s\<lparr>db_tickets := update_rows (\<lambda>x. tkt_pk x = tkt_pk t) (mark_used now by) (db_tickets s)\<rparr>"
proof -
  from assms(1,2) have sg: "verify_ticket_sig k token sig org"
    by (auto simp: redeem_ticket_def refusal_def split: if_splits)
  from assms(1,2) sg obtain t p where tp: "ticket_by_token org token s = Some (t, p)"
    by (auto simp: redeem_ticket_def refusal_def split: option.splits)

  from assms sg tp have st: "tkt_status t \<noteq> VOID" "tkt_status t \<noteq> USED"
    by (auto simp: redeem_ticket_def refusal_def split: if_splits)
  then have valid: "tkt_status t = VALID" by (cases "tkt_status t") auto
  from assms sg tp valid have op: "wrong_time_result t (perf_starts_at p) now = None"
    by (cases "wrong_time_result t (perf_starts_at p) now")
      (auto simp: redeem_ticket_def wrong_time_result_def refusal_def Let_def split: if_splits)
  with assms sg tp valid show thesis
    by (intro that [of t p]) (auto simp: redeem_ticket_def wrong_time_iff)
qed

lemma redeem_refused: "redeem_ticket k org token sig by now s = (r, s') \<Longrightarrow> \<not> scan_ok r \<Longrightarrow> s' = s"
  by (auto simp: redeem_ticket_def split: if_splits option.splits)

text \<open>The looked-up ticket after it was marked.\<close>

lemma first_row_marked:
  assumes "first_row (filter P rs) = Some t" and "\<And>x. P (f x) = P x"
  shows "first_row (filter P (update_rows (\<lambda>x. pk x = pk t) f rs)) = Some (f t)"
  using assms first_row_update [of P f "\<lambda>x. pk x = pk t" rs] by simp

lemma by_token_marked:
  assumes "ticket_by_token org token s = Some (t, p)"
  shows "ticket_by_token org token (s\<lparr>db_tickets := update_rows (\<lambda>x. tkt_pk x = tkt_pk t) (mark_used now by) (db_tickets s)\<rparr>) =
     Some (mark_used now by t, p)"
proof -
  from assms have f: "first_row (filter (\<lambda>t. tkt_organization t = org \<and> tkt_token t = token) (db_tickets s)) = Some t"
    and p: "performance_at (tkt_performance t) s = Some p"
    by (auto simp: ticket_by_token_def split: option.splits)
  have "first_row (filter (\<lambda>t. tkt_organization t = org \<and> tkt_token t = token)
      (update_rows (\<lambda>x. tkt_pk x = tkt_pk t) (mark_used now by) (db_tickets s))) = Some (mark_used now by t)"
    by (rule first_row_marked [OF f]) simp
  with p show ?thesis by (simp add: ticket_by_token_def performance_at_def)
qed

section \<open>Properties\<close>

lemma redeem_ok_iff:
  assumes r: "redeem_ticket k org token sig by now s = (r, s')"
  shows "scan_ok r \<longleftrightarrow> sig = sign_token k token org \<and>
      (case ticket_by_token org token s of None \<Rightarrow> False | Some (t, p) \<Rightarrow> tkt_status t = VALID \<and> door_open p now)"
proof
    assume "scan_ok r"
    with r obtain t p where "verify_ticket_sig k token sig org" "ticket_by_token org token s = Some (t, p)" "tkt_status t = VALID"
      "door_open p now" "scan_ticket r = Some (mark_used now by t)"
      "s' = s\<lparr>db_tickets := update_rows (\<lambda>x. tkt_pk x = tkt_pk t) (mark_used now by) (db_tickets s)\<rparr>"
      by (rule redeem_ok)
    then show "sig = sign_token k token org \<and>
      (case ticket_by_token org token s of None \<Rightarrow> False | Some (t, p) \<Rightarrow> tkt_status t = VALID \<and> door_open p now)"
      by (simp add: verify_iff)
  next
    assume a: "sig = sign_token k token org \<and>
      (case ticket_by_token org token s of None \<Rightarrow> False | Some (t, p) \<Rightarrow> tkt_status t = VALID \<and> door_open p now)"
    then obtain t p where "ticket_by_token org token s = Some (t, p)" "tkt_status t = VALID" "door_open p now"
      by (auto split: option.splits)
    with a r show "scan_ok r" by (auto simp: redeem_ticket_def verify_iff wrong_time_iff [THEN iffD2])
qed

text \<open>
  A ticket is admitted exactly when its signature is the theater's, it is a valid ticket
  of that theater, and the doors are open: from an hour before the show to four hours after its
  start. Any other scan leaves the database as it was.
\<close>

theorem admission_is_exact:
  "(scan_ok (fst (redeem_ticket k org token sig by now s)) \<longleftrightarrow>
      sig = sign_token k token org \<and>
      (case ticket_by_token org token s of
         None \<Rightarrow> False | Some (t, p) \<Rightarrow> tkt_status t = VALID \<and> door_open p now)) \<and>
   (scan_ok (fst (redeem_ticket k org token sig by now s)) \<or> snd (redeem_ticket k org token sig by now s) = s)"
proof -
  obtain r s' where r: "redeem_ticket k org token sig by now s = (r, s')" by (cases "redeem_ticket k org token sig by now s")
  from redeem_ok_iff [OF r] redeem_refused [OF r] show ?thesis unfolding r fst_conv snd_conv by blast
qed

theorem admission_is_exact_witness:
  "scan_ok (fst (redeem_ticket ''k'' 1 (tkt_token door_ticket) (sign_ticket ''k'' door_ticket) (Some 9) (hours 100)
     (demo\<lparr>db_tickets := [door_ticket]\<rparr>)))"
proof -
  have "ticket_by_token 1 (tkt_token door_ticket) (demo\<lparr>db_tickets := [door_ticket]\<rparr>) = Some (door_ticket, ga_show)"
    by (simp add: ticket_by_token_def door_ticket_def performance_at_def get_row_def demo_def catalog_defs)
  moreover have "sign_ticket ''k'' door_ticket = sign_token ''k'' (tkt_token door_ticket) 1" "tkt_status door_ticket = VALID"
    by (simp_all add: sign_ticket_def door_ticket_def)
  moreover have "door_open ga_show (hours 100)" by (simp add: door_open_def ga_show_def time_defs)
  ultimately show ?thesis
    using admission_is_exact [of "''k''" 1 "tkt_token door_ticket" "sign_ticket ''k'' door_ticket" "Some 9" "hours 100"
        "demo\<lparr>db_tickets := [door_ticket]\<rparr>"]
    by simp
qed

text \<open>
  Property C9. A ticket admits once: after a scan that admitted it, every later scan of the same code
  at the same theater, by anyone and at any time, is refused with the time and the person of the
  first, and writes nothing.
\<close>

theorem ticket_admits_once:
  assumes "redeem_ticket k org token sig by now s = (r, s')" and "scan_ok r"
  shows "\<exists>t. redeem_ticket k org token sig anyone later s' =
    (refusal AlreadyUsed (AlreadyScannedMsg (Some now) by) (Some t), s')"
proof -
  from assms obtain t p where sg: "verify_ticket_sig k token sig org" and tp: "ticket_by_token org token s = Some (t, p)"
    and "tkt_status t = VALID" "door_open p now" "scan_ticket r = Some (mark_used now by t)"
    and s': "s' = s\<lparr>db_tickets := update_rows (\<lambda>x. tkt_pk x = tkt_pk t) (mark_used now by) (db_tickets s)\<rparr>"
    by (rule redeem_ok)
  from by_token_marked [OF tp] sg show ?thesis
    by (intro exI [of _ "mark_used now by t"]) (simp add: s' redeem_ticket_def)
qed

theorem ticket_admits_once_witness:
  "\<exists>r s' t. redeem_ticket ''k'' 1 (tkt_token door_ticket) (sign_ticket ''k'' door_ticket) (Some 9) (hours 100)
       (demo\<lparr>db_tickets := [door_ticket]\<rparr>) = (r, s') \<and> scan_ok r \<and>
     redeem_ticket ''k'' 1 (tkt_token door_ticket) (sign_ticket ''k'' door_ticket) (Some 8) (hours 101) s' =
       (refusal AlreadyUsed (AlreadyScannedMsg (Some (hours 100)) (Some 9)) (Some t), s')"
proof -
  let ?s = "demo\<lparr>db_tickets := [door_ticket]\<rparr>"
  have "ticket_by_token 1 (tkt_token door_ticket) ?s = Some (door_ticket, ga_show)"
    by (simp add: ticket_by_token_def door_ticket_def performance_at_def get_row_def demo_def catalog_defs)
  moreover have "verify_ticket_sig ''k'' (tkt_token door_ticket) (sign_ticket ''k'' door_ticket) 1" "tkt_status door_ticket = VALID"
    by (simp_all add: verify_iff sign_ticket_def door_ticket_def)
  moreover have "wrong_time_result door_ticket (perf_starts_at ga_show) (hours 100) = None"
    unfolding wrong_time_iff by (simp add: door_open_def ga_show_def time_defs)
  ultimately obtain r s' where r: "redeem_ticket ''k'' 1 (tkt_token door_ticket) (sign_ticket ''k'' door_ticket) (Some 9) (hours 100) ?s = (r, s')"
    and "scan_ok r" by (simp add: redeem_ticket_def)
  with ticket_admits_once [OF r, of "Some 8" "hours 101"] show ?thesis by blast
qed

end
