(* ===== verification/PassFacts.thy ===== *)
theory PassFacts
  imports OrderFacts
begin

text \<open>
  The life of a pass in payments/services.py and passes/services.py: a sale freezes the terms, a
  redemption spends the entitlement once per admission, and refunding or cancelling the redemption
  order gives back exactly what was spent.
\<close>

section \<open>Voiding an order\<close>

lemma void_order_effect:
  assumes "void_order o' s = Inr (n, s1)"
  shows "db_orders s1 = db_orders s" "db_redemptions s1 = db_redemptions s" "db_purchases s1 = db_purchases s"
    "db_items s1 = db_items s" "db_payments s1 = db_payments s" "db_holds s1 = db_holds s"
    "db_hold_seats s1 = db_hold_seats s" "db_next s1 = db_next s" "db_entropy s1 = db_entropy s"
    "db_orgs s1 = db_orgs s" "db_performances s1 = db_performances s" "db_guests s1 = db_guests s"
    "db_blocks s1 = db_blocks s"
  using assms
  by (auto simp: void_order_def Let_def save_sold_def split: if_splits option.splits)

lemma void_order_tickets:
  assumes "void_order o' s = Inr (n, s1)" and "well_keyed tkt_pk k (db_tickets s)"
  shows "db_tickets s1 = map (\<lambda>t. if tkt_order t = order_pk o' then t\<lparr>tkt_status := VOID\<rparr> else t) (db_tickets s)"
proof -
  let ?live = "filter live (tickets_of o' s)"
  have void: "t\<lparr>tkt_status := VOID\<rparr> = t" if "\<not> live t" for t :: ticket
    using that by (cases t) (simp add: live_def)
  have upd: "update_rows (\<lambda>t. tkt_pk t \<in> set (map tkt_pk ?live)) (\<lambda>t. t\<lparr>tkt_status := VOID\<rparr>) (db_tickets s) =
      map (\<lambda>t. if tkt_order t = order_pk o' then t\<lparr>tkt_status := VOID\<rparr> else t) (db_tickets s)"
    unfolding update_rows_def
  proof (rule map_cong [OF refl])
    fix t assume t: "t \<in> set (db_tickets s)"
    have "tkt_pk t \<in> set (map tkt_pk ?live) \<longleftrightarrow> tkt_order t = order_pk o' \<and> live t"
      using ticket_rows.keyed_inj [OF assms(2) t] t by (auto simp: tickets_of_def)
    with void show "(if tkt_pk t \<in> set (map tkt_pk ?live) then t\<lparr>tkt_status := VOID\<rparr> else t) =
        (if tkt_order t = order_pk o' then t\<lparr>tkt_status := VOID\<rparr> else t)" by auto
  qed
  show ?thesis
  proof (cases "?live = []")
    case True
    then have "\<forall>t\<in>set (db_tickets s). tkt_order t = order_pk o' \<longrightarrow> \<not> live t"
      by (auto simp: tickets_of_def filter_empty_conv)
    then have "map (\<lambda>t. if tkt_order t = order_pk o' then t\<lparr>tkt_status := VOID\<rparr> else t) (db_tickets s) = db_tickets s"
      using void by (auto intro!: map_idI)
    with True assms(1) show ?thesis by (simp add: void_order_def)
  next
    case False
    with assms(1) upd show ?thesis
      by (auto simp: void_order_def Let_def save_sold_def split: if_splits option.splits)
  qed
qed

section \<open>Redeeming\<close>

text \<open>The inventory step as appended rows plus the new sold count.\<close>

lemma inventory_split:
  assumes "fulfill_inventory h o' s = Inr s'"
  obtains s1 where "appended s (inventory_items h o' s) (map (new_ticket h o') (inventory_seats h s)) s1"
    "s' = s1\<lparr>db_allocations := db_allocations s'\<rparr>"
    "if is_ga h
     then \<exists>a. allocation_of (hold_performance h) s = Some a \<and>
        alloc_sold a + the (hold_quantity h) \<le> alloc_capacity a \<and>
        db_allocations s' = update_rows (\<lambda>x. alloc_pk x = alloc_pk a)
            (\<lambda>x. x\<lparr>alloc_sold := alloc_sold a + the (hold_quantity h)\<rparr>) (db_allocations s)
     else db_allocations s' = db_allocations s \<and>
        (\<forall>r\<in>set (seats_of_hold h s). hs_seat r \<notin> ticketed_ids (hold_performance h) s)"
proof (cases "is_ga h")
  case True
  with inventory_effect [OF assms] that show ?thesis by auto
next
  case False
  with inventory_effect [OF assms] have ap: "appended s (inventory_items h o' s) (map (new_ticket h o') (inventory_seats h s)) s'"
    "\<forall>r\<in>set (seats_of_hold h s). hs_seat r \<notin> ticketed_ids (hold_performance h) s" by auto
  with that [OF ap(1)] appended_frame(1) [OF ap(1)] False show ?thesis by simp
qed

lemma translate_season_Inr [simp]: "translate_season r = Inr x \<longleftrightarrow> r = Inr x"
  by (auto simp: translate_season_def split: sum.splits error.splits py_error.splits)

lemma fulfill_with_pass_create:
  assumes "fulfill_hold_with_pass h k e n opt now s = Inr (o', s')"
  obtains pp perf g s1 s2 s3 s4 where "now < hold_expires_at h"
    "purchase_at k s = Some pp" "performance_at (hold_performance h) s = Some perf"
    "check_redemption h pp perf now s = Inr ()"
    "s1 = s\<lparr>db_guests := db_guests s1, db_next := db_next s1\<rparr>" "db_next s \<le> db_next s1"
    "create_order (paid_order (hold_organization h) (Some (hold_performance h)) e n g 0 None) s1 = Inr (o', s2)"
    "fulfill_inventory h o' s2 = Inr s3"
    "create_redemptions (map (redemption_row h pp o' perf s3) (tickets_of o' s3)) s3 = Inr s4"
    "s' = delete_holds (\<lambda>x. hold_pk x = hold_pk h)
       (create_payment (payment_row o' ''pass'' 0 ''succeeded'' (''pass-'' @ show_nat (pp_pk pp)))
         (if pp_kind pp = FLEX
          then s4\<lparr>db_purchases := update_rows (\<lambda>x. pp_pk x = pp_pk pp) (\<lambda>_. burn_credits (ticket_count h s) pp) (db_purchases s4)\<rparr>
          else s4))"
proof -
  from assms obtain pp perf where b: "now < hold_expires_at h" "purchase_at k s = Some pp"
    "performance_at (hold_performance h) s = Some perf" "check_redemption h pp perf now s = Inr ()"
    by (auto simp: fulfill_hold_with_pass_def)
  obtain g s1 where g: "(case (case pp_guest pp of None \<Rightarrow> None | Some g \<Rightarrow> get_row guest_pk g (db_guests s)) of
             Some g \<Rightarrow> (Some g, if opt then record_marketing_opt_in (Some g) now s else s)
           | None \<Rightarrow> attach_guest (hold_organization h) e n opt now s) = (g, s1)"
    by (cases "case (case pp_guest pp of None \<Rightarrow> None | Some g \<Rightarrow> get_row guest_pk g (db_guests s)) of
             Some g \<Rightarrow> (Some g, if opt then record_marketing_opt_in (Some g) now s else s)
           | None \<Rightarrow> attach_guest (hold_organization h) e n opt now s")
  have f: "s1 = s\<lparr>db_guests := db_guests s1, db_next := db_next s1\<rparr> \<and> db_next s \<le> db_next s1"
  proof (cases "case pp_guest pp of None \<Rightarrow> None | Some g \<Rightarrow> get_row guest_pk g (db_guests s)")
    case None
    with g have "attach_guest (hold_organization h) e n opt now s = (g, s1)" by simp
    then show ?thesis by (rule attach_guest_frame)
  next
    case (Some g0)
    obtain gs where "record_marketing_opt_in (Some g0) now s = s\<lparr>db_guests := gs\<rparr>" using record_marketing_frame by blast
    with g Some show ?thesis by auto
  qed
  from assms b g obtain s2 s3 s4 where
    c: "create_order (paid_order (hold_organization h) (Some (hold_performance h)) e n g 0 None) s1 = Inr (o', s2)"
    and i: "fulfill_inventory h o' s2 = Inr s3"
    "create_redemptions (map (redemption_row h pp o' perf s3) (tickets_of o' s3)) s3 = Inr s4"
    "s' = delete_holds (\<lambda>x. hold_pk x = hold_pk h)
       (create_payment (payment_row o' ''pass'' 0 ''succeeded'' (''pass-'' @ show_nat (pp_pk pp)))
         (if pp_kind pp = FLEX
          then s4\<lparr>db_purchases := update_rows (\<lambda>x. pp_pk x = pp_pk pp) (\<lambda>_. burn_credits (ticket_count h s) pp) (db_purchases s4)\<rparr>
          else s4))"
    by (auto simp: fulfill_hold_with_pass_def Let_def)
  from that b f c i show ?thesis by blast
qed

lemma fulfill_with_pass_Inr:
  assumes "fulfill_hold_with_pass h k e n opt now s = Inr (o', s')"
  obtains pp perf g s1 s2 s3 s4 where "now < hold_expires_at h"
    "purchase_at k s = Some pp" "performance_at (hold_performance h) s = Some perf"
    "check_redemption h pp perf now s = Inr ()"
    "s1 = s\<lparr>db_guests := db_guests s1, db_next := db_next s1\<rparr>" "db_next s \<le> db_next s1"
    "o' = (paid_order (hold_organization h) (Some (hold_performance h)) e n g 0 None)
       \<lparr>order_pk := db_next s1, order_token := db_entropy s1 (db_next s1)\<rparr>"
    "s2 = s1\<lparr>db_orders := db_orders s1 @ [o'], db_next := Suc (db_next s1)\<rparr>"
    "fulfill_inventory h o' s2 = Inr s3"
    "create_redemptions (map (redemption_row h pp o' perf s3) (tickets_of o' s3)) s3 = Inr s4"
    "s' = delete_holds (\<lambda>x. hold_pk x = hold_pk h)
       (create_payment (payment_row o' ''pass'' 0 ''succeeded'' (''pass-'' @ show_nat (pp_pk pp)))
         (if pp_kind pp = FLEX
          then s4\<lparr>db_purchases := update_rows (\<lambda>x. pp_pk x = pp_pk pp) (\<lambda>_. burn_credits (ticket_count h s) pp) (db_purchases s4)\<rparr>
          else s4))"
  by (rule fulfill_with_pass_create [OF assms], rule that) (assumption | erule create_order_effect)+

definition books_wf :: "db \<Rightarrow> bool" where
  "books_wf s \<longleftrightarrow> refs_wf s \<and> well_keyed order_pk (db_next s) (db_orders s) \<and>
     well_keyed pp_pk (db_next s) (db_purchases s) \<and> distinct (map alloc_pk (db_allocations s)) \<and>
     (\<forall>a\<in>set (db_allocations s). 0 \<le> alloc_sold a)"

text \<open>What a redemption leaves in the tables.\<close>

lemma redeem_rows:
  assumes "fulfill_hold_with_pass h k e n opt now s = Inr (o', s')" and "books_wf s"
  obtains pp perf ts new kp where "purchase_at k s = Some pp" "check_redemption h pp perf now s = Inr ()"
    "db_next s \<le> order_pk o'" "order_status o' = PAID" "order_performance o' = Some (hold_performance h)"
    "order_organization o' = hold_organization h" "order_total o' = 0"
    "db_orders s' = db_orders s @ [o']"
    "\<forall>i\<in>set (items_of o' s'). item_kind i = TICKET"
    "db_tickets s' = db_tickets s @ ts" "map plain_ticket ts = map plain_ticket (map (new_ticket h o') (inventory_seats h s))"
    "well_keyed tkt_pk (db_next s') (db_tickets s')"
    "db_payments s' = db_payments s @ [(payment_row o' ''pass'' 0 ''succeeded'' (''pass-'' @ show_nat (pp_pk pp)))\<lparr>pay_pk := kp\<rparr>]"
    "db_redemptions s' = db_redemptions s @ new"
    "map red_order new = map (\<lambda>_. order_pk o') ts" "map red_pass_purchase new = map (\<lambda>_. pp_pk pp) ts"
    "map red_credits_used new = map (\<lambda>_. if pp_kind pp = FLEX then 1 else 0) ts"
    "db_purchases s' = (if pp_kind pp = FLEX
       then update_rows (\<lambda>x. pp_pk x = pp_pk pp) (\<lambda>_. burn_credits (ticket_count h s) pp) (db_purchases s)
       else db_purchases s)"
    "if is_ga h then \<exists>a. allocation_of (hold_performance h) s = Some a \<and>
        alloc_sold a + the (hold_quantity h) \<le> alloc_capacity a \<and>
        db_allocations s' = update_rows (\<lambda>x. alloc_pk x = alloc_pk a)
            (\<lambda>x. x\<lparr>alloc_sold := alloc_sold a + the (hold_quantity h)\<rparr>) (db_allocations s)
     else db_allocations s' = db_allocations s"
    "db_orgs s' = db_orgs s"
proof -
  from assms(1) obtain pp perf g s1 s2 s3 s4 where "now < hold_expires_at h"
    and pp: "purchase_at k s = Some pp" and "performance_at (hold_performance h) s = Some perf"
    and chk: "check_redemption h pp perf now s = Inr ()"
    and s1: "s1 = s\<lparr>db_guests := db_guests s1, db_next := db_next s1\<rparr>" and le: "db_next s \<le> db_next s1"
    and o': "o' = (paid_order (hold_organization h) (Some (hold_performance h)) e n g 0 None)
       \<lparr>order_pk := db_next s1, order_token := db_entropy s1 (db_next s1)\<rparr>"
    and s2: "s2 = s1\<lparr>db_orders := db_orders s1 @ [o'], db_next := Suc (db_next s1)\<rparr>"
    and inv: "fulfill_inventory h o' s2 = Inr s3"
    and red: "create_redemptions (map (redemption_row h pp o' perf s3) (tickets_of o' s3)) s3 = Inr s4"
    and s': "s' = delete_holds (\<lambda>x. hold_pk x = hold_pk h)
       (create_payment (payment_row o' ''pass'' 0 ''succeeded'' (''pass-'' @ show_nat (pp_pk pp)))
         (if pp_kind pp = FLEX
          then s4\<lparr>db_purchases := update_rows (\<lambda>x. pp_pk x = pp_pk pp) (\<lambda>_. burn_credits (ticket_count h s) pp) (db_purchases s4)\<rparr>
          else s4))"
    by (rule fulfill_with_pass_Inr)
  have f1: "db_items s1 = db_items s" "db_tickets s1 = db_tickets s" "db_payments s1 = db_payments s"
    "db_orders s1 = db_orders s" "db_purchases s1 = db_purchases s" "db_redemptions s1 = db_redemptions s"
    "db_allocations s1 = db_allocations s" "db_tiers s1 = db_tiers s" "db_hold_seats s1 = db_hold_seats s"
    "db_orgs s1 = db_orgs s"
    by (subst s1, simp)+
  from inv obtain s3' where
    ap: "appended s2 (inventory_items h o' s2) (map (new_ticket h o') (inventory_seats h s2)) s3'"
    and s3: "s3 = s3'\<lparr>db_allocations := db_allocations s3\<rparr>"
    and alloc: "if is_ga h then \<exists>a. allocation_of (hold_performance h) s2 = Some a \<and>
        alloc_sold a + the (hold_quantity h) \<le> alloc_capacity a \<and>
        db_allocations s3 = update_rows (\<lambda>x. alloc_pk x = alloc_pk a)
            (\<lambda>x. x\<lparr>alloc_sold := alloc_sold a + the (hold_quantity h)\<rparr>) (db_allocations s2)
       else db_allocations s3 = db_allocations s2 \<and>
        (\<forall>r\<in>set (seats_of_hold h s2). hs_seat r \<notin> ticketed_ids (hold_performance h) s2)"
    by (rule inventory_split)
  have rest: "db_items s3 = db_items s3'" "db_tickets s3 = db_tickets s3'" "db_payments s3 = db_payments s3'"
      "db_orders s3 = db_orders s3'" "db_purchases s3 = db_purchases s3'" "db_redemptions s3 = db_redemptions s3'"
      "db_next s3 = db_next s3'" "db_orgs s3 = db_orgs s3'"
    by (subst s3, simp)+
  from ap obtain is' ts where i: "db_items s3' = db_items s2 @ is'" "map plain_item is' = map plain_item (inventory_items h o' s2)"
    and ti: "db_tickets s3' = db_tickets s2 @ ts" "map plain_ticket ts = map plain_ticket (map (new_ticket h o') (inventory_seats h s2))"
    by (rule appended_rows)
  note apf = appended_frame [OF ap]
  have pk: "order_pk o' = db_next s1" by (simp add: o')
  have same: "inventory_seats h s2 = inventory_seats h s"
    by (simp add: inventory_seats_def seats_of_hold_def s2 f1)
  have "map tkt_order ts = map tkt_order (map (new_ticket h o') (inventory_seats h s2))"
    using ti(2) by (rule plain_ticket_obs) (simp add: plain_ticket_def)
  then have "set (map tkt_order ts) \<subseteq> {order_pk o'}" by (auto simp: new_ticket_def)
  then have mine: "\<forall>t\<in>set ts. tkt_order t = order_pk o'" by auto
  have old: "\<forall>t\<in>set (db_tickets s). tkt_order t \<noteq> order_pk o'" "\<forall>i\<in>set (db_items s). item_order i \<noteq> order_pk o'"
    using assms(2) le by (fastforce simp: books_wf_def refs_wf_def pk)+
  have tof: "tickets_of o' s3 = ts"
    using mine old by (auto simp: tickets_of_def rest ti s2 f1 filter_empty_conv intro!: filter_True)
  from stamp_redemptions [OF red] obtain new where new: "db_redemptions s4 = db_redemptions s3 @ new"
    "map (\<lambda>r. r\<lparr>red_pk := 0\<rparr>) new = map (\<lambda>r. r\<lparr>red_pk := 0\<rparr>) (map (redemption_row h pp o' perf s3) ts)"
    and s4: "s4 = s3\<lparr>db_redemptions := db_redemptions s3 @ new, db_next := db_next s3 + length ts\<rparr>"
    by (auto simp: tof)
  have newf: "map f new = map f (map (redemption_row h pp o' perf s3) ts)"
    if "\<And>r. f (r\<lparr>red_pk := 0\<rparr>) = f r" for f :: "pass_redemption \<Rightarrow> 'y"
  proof -
    have "map (f \<circ> (\<lambda>r. r\<lparr>red_pk := 0\<rparr>)) new = map (f \<circ> (\<lambda>r. r\<lparr>red_pk := 0\<rparr>)) (map (redemption_row h pp o' perf s3) ts)"
      using new(2) by (metis map_map)
    then show ?thesis using that by (simp add: o_def)
  qed
  have kind: "\<forall>i\<in>set (items_of o' s'). item_kind i = TICKET"
  proof -
    have "db_items s' = db_items s @ is'"
      by (simp add: s' create_payment_def s4 rest i s2 f1)
    then have "set (items_of o' s') \<subseteq> set is'" using old(2) by (auto simp: items_of_def)
    moreover have "item_kind ` set is' \<subseteq> {TICKET}"
    proof -
      have "item_kind ` plain_item ` set is' = item_kind ` plain_item ` set (inventory_items h o' s2)"
        using i(2) by (metis list.set_map)
      then show ?thesis by (auto simp: image_image plain_item_def inventory_items_def blank_item_def reserved_item_def
            split: if_splits)
    qed
    ultimately show ?thesis by auto
  qed
  have wk3: "well_keyed tkt_pk (db_next s3) (db_tickets s3)"
  proof -
    have "well_keyed tkt_pk (db_next s2) (db_tickets s2)"
      using assms(2) le by (auto simp: books_wf_def refs_wf_def s2 f1 intro: ticket_rows.keyed_mono)
    with ap show ?thesis by (simp add: appended_def rest)
  qed
  have wk: "well_keyed tkt_pk (db_next s') (db_tickets s')"
    by (rule ticket_rows.keyed_mono [where n = "db_next s3"])
      (use wk3 in \<open>simp_all add: s' create_payment_def s4\<close>)
  have al2: "if is_ga h then \<exists>a. allocation_of (hold_performance h) s = Some a \<and>
        alloc_sold a + the (hold_quantity h) \<le> alloc_capacity a \<and>
        db_allocations s' = update_rows (\<lambda>x. alloc_pk x = alloc_pk a)
            (\<lambda>x. x\<lparr>alloc_sold := alloc_sold a + the (hold_quantity h)\<rparr>) (db_allocations s)
     else db_allocations s' = db_allocations s"
    using alloc by (simp add: s' create_payment_def s4 s2 f1 allocation_of_def split: if_splits)
  show thesis
  proof (rule that [OF pp chk])
    show "db_next s \<le> order_pk o'" using le pk by simp
    show "order_status o' = PAID" "order_performance o' = Some (hold_performance h)"
      "order_organization o' = hold_organization h" "order_total o' = 0"
      by (simp_all add: o' paid_order_def)
    show "db_orders s' = db_orders s @ [o']"
      by (simp add: s' create_payment_def s4 rest apf s2 f1)
    show "\<forall>i\<in>set (items_of o' s'). item_kind i = TICKET" by (rule kind)
    show "db_tickets s' = db_tickets s @ ts" by (simp add: s' create_payment_def s4 rest ti s2 f1)
    show "map plain_ticket ts = map plain_ticket (map (new_ticket h o') (inventory_seats h s))" using ti(2) same by simp
    show "well_keyed tkt_pk (db_next s') (db_tickets s')" by (rule wk)
    show "db_payments s' = db_payments s @
        [(payment_row o' ''pass'' 0 ''succeeded'' (''pass-'' @ show_nat (pp_pk pp)))\<lparr>pay_pk := db_next s4\<rparr>]"
      by (simp add: s' create_payment_def s4 rest apf s2 f1)
    show "db_redemptions s' = db_redemptions s @ new" by (simp add: s' create_payment_def s4 rest apf s2 f1)
    show "map red_order new = map (\<lambda>_. order_pk o') ts" by (subst newf) (simp_all add: redemption_row_def o_def)
    show "map red_pass_purchase new = map (\<lambda>_. pp_pk pp) ts" by (subst newf) (simp_all add: redemption_row_def o_def)
    show "map red_credits_used new = map (\<lambda>_. if pp_kind pp = FLEX then 1 else 0) ts"
      by (subst newf) (simp_all add: redemption_row_def o_def)
    show "db_purchases s' = (if pp_kind pp = FLEX
       then update_rows (\<lambda>x. pp_pk x = pp_pk pp) (\<lambda>_. burn_credits (ticket_count h s) pp) (db_purchases s)
       else db_purchases s)" by (simp add: s' create_payment_def s4 rest apf s2 f1)
    show "if is_ga h then \<exists>a. allocation_of (hold_performance h) s = Some a \<and>
        alloc_sold a + the (hold_quantity h) \<le> alloc_capacity a \<and>
        db_allocations s' = update_rows (\<lambda>x. alloc_pk x = alloc_pk a)
            (\<lambda>x. x\<lparr>alloc_sold := alloc_sold a + the (hold_quantity h)\<rparr>) (db_allocations s)
     else db_allocations s' = db_allocations s" by (rule al2)
    show "db_orgs s' = db_orgs s" by (simp add: s' create_payment_def s4 rest apf s2 f1)
  qed
qed

section \<open>Giving the entitlement back\<close>

text \<open>The terms a live pass carries: a flex pass a balance, a season pass none.\<close>

definition pass_shape :: "pass_purchase \<Rightarrow> bool" where
  "pass_shape pp \<longleftrightarrow> (pp_kind pp = FLEX) = (pp_credits_remaining pp \<noteq> None)"

lemma check_redemption_Inr:
  assumes "check_redemption h pp perf now s = Inr ()"
  shows "pp_organization pp = hold_organization h" "redeemable_now pp now" "pass_covers_performance pp perf"
    "0 < ticket_count h s"
    "pp_kind pp = FLEX \<Longrightarrow> pp_credits_remaining pp = Some c \<Longrightarrow> ticket_count h s \<le> c"
    "pp_kind pp = SEASON \<Longrightarrow> ticket_count h s = 1 \<and> (\<forall>r\<in>set (redemptions_of pp s). red_event r \<noteq> perf_event perf)"
  using assms by (auto simp: check_redemption_def Let_def split: if_splits)

lemma burn_restore:
  assumes "pass_shape pp" "pp_status pp = PASS_ACTIVE" "0 < n"
    and "\<And>c. pp_credits_remaining pp = Some c \<Longrightarrow> n \<le> c"
  shows "restore_purchase (if pp_kind pp = FLEX then n else 0) (burn_credits n pp) = pp"
proof (cases "pp_kind pp")
  case SEASON
  then have "pp_credits_remaining pp = None" using assms(1) by (simp add: pass_shape_def)
  with SEASON show ?thesis using assms(2) by (simp add: burn_credits_def restore_purchase_def Let_def)
next
  case FLEX
  then obtain c where c: "pp_credits_remaining pp = Some c" using assms(1) by (auto simp: pass_shape_def)
  have le: "n \<le> c" using assms(4) [OF c] .
  with c FLEX assms(2,3) show ?thesis
    by (cases pp) (auto simp: burn_credits_def restore_purchase_def Let_def)
qed

lemma refund_pass_money:
  assumes "filter (\<lambda>p. pay_order p = order_pk o' \<and> pay_status p = ''succeeded'') (db_payments s) = [p]"
    and "pay_provider p \<noteq> ''stripe''"
  shows "refund_money f o' s = Inr (pay_provider p, '''')"
  using assms by (simp add: refund_money_def)

text \<open>Voiding after minting puts the sold count back.\<close>

lemma allocation_of_update:
  assumes "allocation_of perf s = Some a" and "db_allocations s' = update_rows (\<lambda>x. alloc_pk x = alloc_pk a) f (db_allocations s)"
    and "\<And>x. alloc_performance (f x) = alloc_performance x"
  shows "allocation_of perf s' = Some (f a)"
  using assms first_row_update [of "\<lambda>x. alloc_performance x = perf" f "\<lambda>x. alloc_pk x = alloc_pk a" "db_allocations s"]
  by (simp add: allocation_of_def)

lemma sold_back:
  assumes "a \<in> set as" "distinct (map alloc_pk as)"
  shows "update_rows (\<lambda>x. alloc_pk x = alloc_pk a) (\<lambda>x. x\<lparr>alloc_sold := alloc_sold a\<rparr>)
    (update_rows (\<lambda>x. alloc_pk x = alloc_pk a) (\<lambda>x. x\<lparr>alloc_sold := n\<rparr>) as) = as"
proof -
  have "x\<lparr>alloc_sold := alloc_sold a\<rparr> = x" if "x \<in> set as" "alloc_pk x = alloc_pk a" for x
  proof -
    have "x = a" using assms that by (metis distinct_map inj_onD)
    then show ?thesis by (cases a) simp
  qed
  then show ?thesis by (auto simp: update_rows_def intro!: map_idI)
qed

lemma plain_ticket_live: "map plain_ticket xs = map plain_ticket ys \<Longrightarrow> map live xs = map live ys"
  by (erule plain_ticket_obs) (simp add: live_def plain_ticket_def)

lemma restored_sum: "map red_credits_used new = map (\<lambda>_. c) ts \<Longrightarrow> sum_list (map red_credits_used new) = int (length ts) * c"
  by (simp add: sum_list_triv)

lemma get_row_appended: "\<forall>x\<in>set xs. pk x \<noteq> pk y \<Longrightarrow> get_row pk (pk y) (xs @ [y]) = Some y"
  by (induction xs) (simp_all add: get_row_def first_row_def)

lemma filter_old_none: "(\<And>x. x \<in> set xs \<Longrightarrow> P x \<Longrightarrow> False) \<Longrightarrow> filter P xs = []"
  by (auto simp: filter_empty_conv)

lemma new_tickets_are_live:
  assumes "map plain_ticket ts = map plain_ticket (map (new_ticket h o') seats)"
  shows "map tkt_seat ts = seats" "\<forall>t\<in>set ts. tkt_order t = order_pk o' \<and> live t"
proof -
  have obs: "map live ts = map (\<lambda>_. True) seats" "map tkt_order ts = map (\<lambda>_. order_pk o') seats"
    using plain_ticket_live [OF assms] plain_ticket_obs [OF assms, of tkt_order]
    by (simp_all add: plain_ticket_def new_ticket_def live_def o_def)
  have "set (map live ts) \<subseteq> {True}" "set (map tkt_order ts) \<subseteq> {order_pk o'}" by (simp_all only: obs) auto
  then show "\<forall>t\<in>set ts. tkt_order t = order_pk o' \<and> live t" by auto
  show "map tkt_seat ts = seats"
    using plain_ticket_obs [OF assms, of tkt_seat] by (simp add: plain_ticket_def new_ticket_def o_def)
qed

text \<open>Voiding the tickets of a cart puts its performance's sold count back to what it was before they were minted.\<close>

lemma void_new_tickets:
  assumes tof: "tickets_of o' s1 = ts" and live: "\<forall>t\<in>set ts. live t" and seats: "map tkt_seat ts = inventory_seats h s"
    and st: "order_performance o' = Some (hold_performance h)"
    and len: "int (length ts) = ticket_count h s" and n: "0 < ticket_count h s"
    and keys: "distinct (map alloc_pk (db_allocations s))" and pos: "\<forall>a\<in>set (db_allocations s). 0 \<le> alloc_sold a"
    and al: "if is_ga h then \<exists>a. allocation_of (hold_performance h) s = Some a \<and>
        alloc_sold a + the (hold_quantity h) \<le> alloc_capacity a \<and>
        db_allocations s1 = update_rows (\<lambda>x. alloc_pk x = alloc_pk a)
            (\<lambda>x. x\<lparr>alloc_sold := alloc_sold a + the (hold_quantity h)\<rparr>) (db_allocations s)
     else db_allocations s1 = db_allocations s"
  shows "\<exists>s2. void_order o' s1 = Inr (length ts, s2) \<and> db_allocations s2 = db_allocations s"
proof (cases "is_ga h")
  case False
  have livets: "filter live ts = ts" using live by simp
  have "None \<notin> set (map tkt_seat ts)" using False by (simp only: seats) (auto simp: inventory_seats_def)
  then have "filter (\<lambda>t. tkt_seat t = None) ts = []" by (auto intro!: filter_old_none) (metis image_eqI)
  then show ?thesis using al False by (simp add: void_order_def Let_def tof livets)
next
  case True
  have livets: "filter live ts = ts" using live by simp
  obtain a where a: "allocation_of (hold_performance h) s = Some a"
    "alloc_sold a + the (hold_quantity h) \<le> alloc_capacity a"
    and upd: "db_allocations s1 = update_rows (\<lambda>x. alloc_pk x = alloc_pk a)
          (\<lambda>x. x\<lparr>alloc_sold := alloc_sold a + the (hold_quantity h)\<rparr>) (db_allocations s)"
    using al True by auto
  have ain: "a \<in> set (db_allocations s)" using a(1) by (auto simp: allocation_of_def dest: first_row_Some)
  have q: "the (hold_quantity h) = int (length ts)" using True len by (simp add: ticket_count_def)
  have "set (map tkt_seat ts) \<subseteq> {None}" using True seats by (auto simp: inventory_seats_def)
  then have gc: "filter (\<lambda>t. tkt_seat t = None) ts = ts" by (auto intro!: filter_True)
  have ne: "ts \<noteq> []" using len n by auto
  define s1' where "s1' = s1\<lparr>db_tickets := update_rows (\<lambda>t. tkt_pk t \<in> set (map tkt_pk ts))
      (\<lambda>t. t\<lparr>tkt_status := VOID\<rparr>) (db_tickets s1)\<rparr>"
  have al': "allocation_of (hold_performance h) s1' = Some (a\<lparr>alloc_sold := alloc_sold a + int (length ts)\<rparr>)"
    using allocation_of_update [OF a(1), of s1' "\<lambda>x. x\<lparr>alloc_sold := alloc_sold a + int (length ts)\<rparr>"] upd q
    by (simp add: s1'_def)
  have "void_order o' s1 = bindE (save_sold (a\<lparr>alloc_sold := alloc_sold a + int (length ts)\<rparr>) (alloc_sold a) s1')
      (\<lambda>s2. Inr (length ts, s2))"
    unfolding void_order_def Let_def tof livets s1'_def [symmetric] st gc
    using ne pos ain by (simp add: al')
  also have "\<dots> = Inr (length ts, s1'\<lparr>db_allocations := db_allocations s\<rparr>)"
    using a(2) q sold_back [OF ain keys, of "alloc_sold a + int (length ts)"] pos ain upd
    by (simp add: save_sold_def s1'_def)
  finally show ?thesis by simp
qed

text \<open>The redemptions of an order that follow those of others: what is restored, and to which pass.\<close>

lemma order_redemptions:
  assumes "db_redemptions s = old @ new" and "\<forall>r\<in>set old. red_order r \<noteq> k" and "map red_order new = map (\<lambda>_. k) ts"
  shows "filter (\<lambda>r. red_order r = k) (db_redemptions s) = new" "delete_rows (\<lambda>r. red_order r = k) (db_redemptions s) = old"
proof -
  have "set (map red_order new) \<subseteq> {k}" using assms(3) by auto
  then have "\<forall>r\<in>set new. red_order r = k" by auto
  then show "filter (\<lambda>r. red_order r = k) (db_redemptions s) = new" "delete_rows (\<lambda>r. red_order r = k) (db_redemptions s) = old"
    using assms(1,2) by (auto simp: delete_rows_def filter_empty_conv intro!: filter_True filter_old_none)
qed

lemma purchases_restored:
  assumes keyed: "well_keyed pp_pk m (db_purchases s)" and ppin: "pp \<in> set (db_purchases s)"
    and shape: "pass_shape pp" "pp_status pp = PASS_ACTIVE" "0 < n" "\<And>c. pp_credits_remaining pp = Some c \<Longrightarrow> n \<le> c"
    and new: "new \<noteq> []" "\<forall>r\<in>set new. red_pass_purchase r = pp_pk pp"
    and spent: "restored_credits (pp_pk pp) new = (if pp_kind pp = FLEX then n else 0)"
    and pur: "purchases = (if pp_kind pp = FLEX
       then update_rows (\<lambda>x. pp_pk x = pp_pk pp) (\<lambda>_. burn_credits n pp) (db_purchases s) else db_purchases s)"
  shows "map (\<lambda>p. if \<exists>r\<in>set new. red_pass_purchase r = pp_pk p then restore_purchase (restored_credits (pp_pk p) new) p else p) purchases =
     db_purchases s"
proof -
  note only = purchase_rows.keyed_inj [OF keyed _ ppin, THEN sym]
  have br: "restore_purchase (restored_credits (pp_pk pp) new) (burn_credits n pp) = pp"
    unfolding spent by (rule burn_restore [OF shape])
  have same: "(\<exists>r\<in>set new. red_pass_purchase r = pp_pk p) \<longleftrightarrow> pp_pk p = pp_pk pp" for p using new by (cases new) auto
  have burned: "purchases = map (\<lambda>x. if pp_pk x = pp_pk pp then burn_credits n pp else x) (db_purchases s)"
  proof (cases "pp_kind pp = FLEX")
    case True
    then show ?thesis by (simp add: pur update_rows_def)
  next
    case False
    then have b: "burn_credits n pp = pp" by (simp add: burn_credits_def)
    have "map (\<lambda>x. if pp_pk x = pp_pk pp then pp else x) (db_purchases s) = db_purchases s"
      using only by (auto intro!: map_idI)
    then show ?thesis unfolding b by (simp add: pur False)
  qed
  have "pp_pk (burn_credits n pp) = pp_pk pp" by (simp add: burn_credits_def Let_def)
  then show ?thesis unfolding burned same map_map using only br by (auto intro!: map_idI)
qed

lemma purchases_given_back:
  assumes keyed: "well_keyed pp_pk m (db_purchases s)" and ppin: "pp \<in> set (db_purchases s)" and shape: "pass_shape pp"
    and ok: "redeemable_now pp now" "0 < n" "n = int (length ts)"
      "\<And>c. pp_kind pp = FLEX \<Longrightarrow> pp_credits_remaining pp = Some c \<Longrightarrow> n \<le> c"
    and red: "db_redemptions s' = old @ new" "\<forall>r\<in>set old. red_order r \<noteq> k"
    and new: "map red_order new = map (\<lambda>_. k) ts" "map red_pass_purchase new = map (\<lambda>_. pp_pk pp) ts"
      "map red_credits_used new = map (\<lambda>_. if pp_kind pp = FLEX then 1 else 0) ts"
    and pur: "db_purchases s' = (if pp_kind pp = FLEX
       then update_rows (\<lambda>x. pp_pk x = pp_pk pp) (\<lambda>_. burn_credits n pp) (db_purchases s) else db_purchases s)"
  shows "map (\<lambda>p. if \<exists>r\<in>set (db_redemptions s'). red_order r = k \<and> red_pass_purchase r = pp_pk p
      then restore_purchase (restored_credits (pp_pk p) (filter (\<lambda>r. red_order r = k) (db_redemptions s'))) p
      else p) (db_purchases s') = db_purchases s"
    and "delete_rows (\<lambda>r. red_order r = k) (db_redemptions s') = old"
proof -
  note reds = order_redemptions [OF red new(1)]
  have "set (map red_pass_purchase new) \<subseteq> {pp_pk pp}" using new(2) by auto
  then have newpp: "\<forall>r\<in>set new. red_pass_purchase r = pp_pk pp" by auto
  have spent: "restored_credits (pp_pk pp) new = (if pp_kind pp = FLEX then n else 0)"
    using newpp restored_sum [OF new(3)] ok(3) by (simp add: restored_credits_def filter_True)
  have given: "map (\<lambda>p. if \<exists>r\<in>set new. red_pass_purchase r = pp_pk p then restore_purchase (restored_credits (pp_pk p) new) p else p)
      (db_purchases s') = db_purchases s"
    by (rule purchases_restored [OF keyed ppin shape _ ok(2) _ _ newpp spent pur])
       (use shape ok new(1) in \<open>auto simp: redeemable_iff pass_shape_def\<close>)
  have same: "(\<exists>r\<in>set (db_redemptions s'). red_order r = k \<and> red_pass_purchase r = pp_pk p) \<longleftrightarrow>
      (\<exists>r\<in>set new. red_pass_purchase r = pp_pk p)" for p
    unfolding reds(1) [symmetric] by auto
  show "map (\<lambda>p. if \<exists>r\<in>set (db_redemptions s'). red_order r = k \<and> red_pass_purchase r = pp_pk p
      then restore_purchase (restored_credits (pp_pk p) (filter (\<lambda>r. red_order r = k) (db_redemptions s'))) p
      else p) (db_purchases s') = db_purchases s" unfolding same reds(1) by (rule given)
  show "delete_rows (\<lambda>r. red_order r = k) (db_redemptions s') = old" by (rule reds(2))
qed

lemma redemption_money:
  assumes "\<forall>p\<in>set (db_payments s). pay_order p \<noteq> order_pk o'"
    and "db_payments s1 = db_payments s @ [(payment_row o' ''pass'' 0 ''succeeded'' ref)\<lparr>pay_pk := kp\<rparr>]"
  shows "refund_money f o' s1 = Inr (''pass'', '''')"
proof -
  have "filter (\<lambda>p. pay_order p = order_pk o' \<and> pay_status p = ''succeeded'') (db_payments s1) =
      [(payment_row o' ''pass'' 0 ''succeeded'' ref)\<lparr>pay_pk := kp\<rparr>]"
    using assms by (auto simp: payment_row_def filter_empty_conv)
  then show ?thesis by (simp add: refund_pass_money payment_row_def)
qed

lemma marked_refunded:
  "db_purchases (create_payment p (set_order_status st x s)) = db_purchases s"
  "db_redemptions (create_payment p (set_order_status st x s)) = db_redemptions s"
  "db_allocations (create_payment p (set_order_status st x s)) = db_allocations s"
  "db_tickets (create_payment p (set_order_status st x s)) = db_tickets s"
  by (simp_all add: create_payment_def set_order_status_def)

text \<open>
  Property C7. Redeeming a pass and refunding the redemption is a round trip: the refund succeeds
  without a Stripe call, and afterwards the passes, the redemptions and the sold counts are exactly
  what they were before the redemption, and no ticket of the order is live.
\<close>

theorem redeem_then_refund:
  assumes "fulfill_hold_with_pass h k e n opt now s = Inr (o', s1)" and "books_wf s"
    and "\<forall>pp\<in>set (db_purchases s). pass_shape pp"
  shows "\<exists>s2. refund_order stripe_refund (order_pk o') s1 = Inr (True, s2) \<and>
     db_purchases s2 = db_purchases s \<and> db_redemptions s2 = db_redemptions s \<and>
     db_allocations s2 = db_allocations s \<and> (\<forall>t\<in>set (tickets_of o' s2). \<not> live t)"
proof -
  from assms(1,2) obtain pp perf ts new kp where pp: "purchase_at k s = Some pp"
    and chk: "check_redemption h pp perf now s = Inr ()" and le: "db_next s \<le> order_pk o'"
    and st: "order_status o' = PAID" "order_performance o' = Some (hold_performance h)"
    and "order_organization o' = hold_organization h" "order_total o' = 0"
    and ords: "db_orders s1 = db_orders s @ [o']"
    and kind: "\<forall>i\<in>set (items_of o' s1). item_kind i = TICKET"
    and tk: "db_tickets s1 = db_tickets s @ ts" "map plain_ticket ts = map plain_ticket (map (new_ticket h o') (inventory_seats h s))"
    and wk: "well_keyed tkt_pk (db_next s1) (db_tickets s1)"
    and pay: "db_payments s1 = db_payments s @ [(payment_row o' ''pass'' 0 ''succeeded'' (''pass-'' @ show_nat (pp_pk pp)))\<lparr>pay_pk := kp\<rparr>]"
    and red: "db_redemptions s1 = db_redemptions s @ new"
    and new: "map red_order new = map (\<lambda>_. order_pk o') ts" "map red_pass_purchase new = map (\<lambda>_. pp_pk pp) ts"
    "map red_credits_used new = map (\<lambda>_. if pp_kind pp = FLEX then 1 else 0) ts"
    and pur: "db_purchases s1 = (if pp_kind pp = FLEX
       then update_rows (\<lambda>x. pp_pk x = pp_pk pp) (\<lambda>_. burn_credits (ticket_count h s) pp) (db_purchases s)
       else db_purchases s)"
    and al: "if is_ga h then \<exists>a. allocation_of (hold_performance h) s = Some a \<and>
        alloc_sold a + the (hold_quantity h) \<le> alloc_capacity a \<and>
        db_allocations s1 = update_rows (\<lambda>x. alloc_pk x = alloc_pk a)
            (\<lambda>x. x\<lparr>alloc_sold := alloc_sold a + the (hold_quantity h)\<rparr>) (db_allocations s)
     else db_allocations s1 = db_allocations s"
    and "db_orgs s1 = db_orgs s"
    by (rule redeem_rows)
  note wf = assms(2) [unfolded books_wf_def refs_wf_def]
  have old: "\<forall>t\<in>set (db_tickets s). tkt_order t \<noteq> order_pk o'" "\<forall>r\<in>set (db_redemptions s). red_order r \<noteq> order_pk o'"
    "\<forall>p\<in>set (db_payments s). pay_order p \<noteq> order_pk o'" "\<forall>x\<in>set (db_orders s). order_pk x \<noteq> order_pk o'"
    using le wf by (auto simp: well_keyed_def)
  have n: "0 < ticket_count h s" using check_redemption_Inr(4) [OF chk] .
  note mine = new_tickets_are_live [OF tk(2)]
  have len: "int (length ts) = ticket_count h s"
    using length_inventory_seats [of h s] n arg_cong [OF mine(1), of length] by simp
  have tof: "tickets_of o' s1 = ts" using old(1) mine by (auto simp: tickets_of_def tk intro!: filter_True filter_old_none)
  have row: "get_row order_pk (order_pk o') (db_orders s1) = Some o'" using old(4) by (simp add: ords get_row_appended)
  have nopass: "\<not> sold_a_pass o' s1" using kind by (auto simp: sold_a_pass_def)
  note money = redemption_money [OF old(3) pay]
  obtain s1' where v: "void_order o' s1 = Inr (length ts, s1')" and va: "db_allocations s1' = db_allocations s"
    using void_new_tickets [OF tof _ mine(1) st(2) len n _ _ al] mine(2) wf by blast
  note vf = void_order_effect [OF v]
  have dead: "\<forall>t\<in>set (tickets_of o' s1'). \<not> live t"
    using void_order_tickets [OF v wk] by (auto simp: tickets_of_def live_def)
  have red1: "db_redemptions s1' = db_redemptions s @ new" by (simp add: vf red)
  have ppin: "pp \<in> set (db_purchases s)" using pp by (auto simp: purchase_at_def dest: get_row_Some)
  have sh: "pass_shape pp" using assms(3) ppin by blast
  have pk: "well_keyed pp_pk (db_next s) (db_purchases s)" using wf by blast
  note given = purchases_given_back [OF pk ppin sh check_redemption_Inr(2) [OF chk] n _ check_redemption_Inr(5) [OF chk] red1 old(2) new]
  have purback: "map (\<lambda>p. if \<exists>r\<in>set (db_redemptions s1'). red_order r = order_pk o' \<and> red_pass_purchase r = pp_pk p
           then restore_purchase (restored_credits (pp_pk p) (filter (\<lambda>r. red_order r = order_pk o') (db_redemptions s1'))) p
           else p) (db_purchases s1') = db_purchases s"
    and redback: "delete_rows (\<lambda>r. red_order r = order_pk o') (db_redemptions s1') = db_redemptions s"
    by (rule given; simp add: len pur vf)+
  have "refund_order stripe_refund (order_pk o') s1 = Inr (True, create_payment (payment_row o' ''pass'' (order_total o') ''refunded'' '''')
      (set_order_status REFUNDED o' (snd (restore_redemptions_for_order o' s1'))))"
    using row st nopass money v by (simp add: refund_order_def)
  then show ?thesis using purback redback va dead by (simp add: marked_refunded restore_effect tickets_of_def)
qed

text \<open>A flex pass with two credits and a cart of two general-admission tickets.\<close>

definition pass_holder :: pass_purchase where
  "pass_holder = \<lparr>pp_pk = 90, pp_organization = 1, pp_product = 71, pp_guest = None, pp_order = 89,
     pp_kind = FLEX, pp_credit_count = Some 2, pp_credits_remaining = Some 2, pp_valid_from = None,
     pp_valid_until = None, pp_covered_events = [], pp_status = PASS_ACTIVE\<rparr>"

definition pass_cart :: hold where
  "pass_cart = (new_hold 1 ga_show ''s1'' None 0)
     \<lparr>hold_pk := 100, hold_price_tier := Some 51, hold_quantity := Some 2, hold_ga_unit_amount := Some 2500\<rparr>"

definition pass_night :: db where
  "pass_night = demo\<lparr>db_next := 101, db_holds := [pass_cart], db_purchases := [pass_holder]\<rparr>"

lemma pass_cart_facts:
  "is_ga pass_cart" "ga_unit_amount pass_cart s = Inr 2500" "hold_donation pass_cart = 0"
  "hold_promo_code pass_cart = None" "hold_promo_code_text pass_cart = ''''" "hold_organization pass_cart = 1"
  "hold_performance pass_cart = 31" "hold_quantity pass_cart = Some 2" "hold_pk pass_cart = 100"
  "ticket_count pass_cart s = 2" "hold_expires_at pass_cart = minutes 10"
  by (simp_all add: pass_cart_def is_ga_def ga_unit_amount_def hold_donation_def
      new_hold_def ga_show_def ticket_count_def default_hold_expiry_def)

lemma pass_night_wf: "books_wf pass_night" "\<forall>pp\<in>set (db_purchases pass_night). pass_shape pp"
  by (simp_all add: books_wf_def refs_wf_def well_keyed_def pass_night_def demo_def pass_holder_def ga_room_def pass_shape_def)

lemma pass_night_redeemed:
  "\<exists>o' s1. fulfill_hold_with_pass pass_cart 90 '''' ''Ann'' False (minutes 1) pass_night = Inr (o', s1)"
proof -
  let ?o = "paid_order 1 (Some 31) '''' ''Ann'' None 0 None"
  let ?o' = "?o\<lparr>order_pk := 101, order_token := ''101''\<rparr>"
  have pp: "purchase_at 90 pass_night = Some pass_holder"
    by (simp add: purchase_at_def get_row_def pass_night_def pass_holder_def)
  have perf: "performance_at 31 pass_night = Some ga_show"
    by (simp add: performance_at_def get_row_def pass_night_def demo_def ga_show_def)
  have chk: "check_redemption pass_cart pass_holder ga_show (minutes 1) pass_night = Inr ()"
    by (simp add: check_redemption_def Let_def pass_cart_facts redeemable_iff pass_covers_iff pass_holder_def)
  have g: "pp_guest pass_holder = None" "pp_kind pass_holder = FLEX" by (simp_all add: pass_holder_def)
  have ag: "attach_guest 1 '''' ''Ann'' False (minutes 1) pass_night = (None, pass_night)"
    by (simp add: attach_guest_def get_or_create_for_email_def normalize_email_def strip_def lower_def)
  have co: "create_order ?o pass_night = Inr (?o', pass_night\<lparr>db_orders := [?o'], db_next := 102\<rparr>)"
    by (simp add: create_order_def Let_def pass_night_def demo_def show_nat_small paid_order_def)
  define s2 where "s2 = pass_night\<lparr>db_orders := [?o'], db_next := 102\<rparr>"
  have al: "allocation_of 31 s2 = Some ga_room"
    by (rule demo_allocation) (simp add: s2_def pass_night_def demo_def)
  have s2: "db_tickets s2 = []" "db_next s2 = 102" "db_entropy s2 = show_nat" "db_redemptions s2 = []"
    by (simp_all add: s2_def pass_night_def demo_def)
  have room: "alloc_sold ga_room = 0" "alloc_capacity ga_room = 3" "alloc_pk ga_room = 61" by (simp_all add: ga_room_def)
  have "\<exists>s3. fulfill_inventory pass_cart ?o' s2 = Inr s3 \<and> db_redemptions s3 = []"
    by (simp add: fulfill_inventory_def fulfill_ga_def pass_cart_facts al room numeral_2_eq_2 create_item_def
        create_ticket_def Let_def save_sold_def s2 show_nat_small new_ticket_def same_live_seat_def)
  then obtain s3 where s3: "fulfill_inventory pass_cart ?o' s2 = Inr s3" "db_redemptions s3 = []" by blast
  have free: "\<exists>s4. create_redemptions rs s = Inr s4" if "\<forall>r\<in>set rs. red_credits_used r \<noteq> 0" for rs s
    using that by (induction rs arbitrary: s) (simp_all add: create_redemption_def)
  obtain s4 where s4: "create_redemptions (map (redemption_row pass_cart pass_holder ?o' ga_show s3) (tickets_of ?o' s3)) s3 = Inr s4"
    using free [of "map (redemption_row pass_cart pass_holder ?o' ga_show s3) (tickets_of ?o' s3)" s3]
    by (auto simp: redemption_row_def pass_holder_def)
  have "minutes 1 < minutes 10" by (simp add: time_defs)
  then show ?thesis
    using s3(1) s4
    by (simp add: fulfill_hold_with_pass_def pass_cart_facts pp perf chk g ag co s2_def [symmetric]
        translate_season_def del: One_nat_def)
qed

theorem redeem_then_refund_witness:
  "\<exists>o' s1 s2. fulfill_hold_with_pass pass_cart 90 '''' ''Ann'' False (minutes 1) pass_night = Inr (o', s1) \<and>
     refund_order (\<lambda>_ _. None) (order_pk o') s1 = Inr (True, s2) \<and> db_purchases s2 = [pass_holder]"
proof -
  obtain o' s1 where r: "fulfill_hold_with_pass pass_cart 90 '''' ''Ann'' False (minutes 1) pass_night = Inr (o', s1)"
    using pass_night_redeemed by blast
  from redeem_then_refund [OF r pass_night_wf, of "\<lambda>_ _. None"] r show ?thesis by (auto simp: pass_night_def)
qed

end
