(* ===== verification/ScanFacts.thy ===== *)
theory ScanFacts
  imports Scanning PassFacts
begin

text \<open>The door and the refund desk: what a reversal does to the tickets already in a buyer's hands.\<close>

lemma tokens_distinct_unique:
  assumes "distinct (map tkt_token ts)" and "t \<in> set ts" and "x \<in> set ts" and "tkt_token x = tkt_token t"
  shows "x = t"
  using assms by (metis distinct_map inj_onD)

text \<open>No scan admits a ticket of an order all of whose tickets were voided.\<close>

lemma voided_not_admitted:
  assumes "db_tickets s1 = map (\<lambda>t. if tkt_order t = n then t\<lparr>tkt_status := VOID\<rparr> else t) (db_tickets s)"
    and "distinct (map tkt_token (db_tickets s))" and "t \<in> set (db_tickets s)" and "tkt_order t = n"
  shows "\<not> scan_ok (fst (redeem_ticket k org (tkt_token t) sig by now s1))"
proof
  assume "scan_ok (fst (redeem_ticket k org (tkt_token t) sig by now s1))"
  then obtain x p where x: "ticket_by_token org (tkt_token t) s1 = Some (x, p)" and valid: "tkt_status x = VALID"
    using redeem_ok_iff [OF surjective_pairing] by (auto split: option.splits)
  from ticket_by_token_Some [OF x] assms(1) obtain y where y: "y \<in> set (db_tickets s)" "tkt_token y = tkt_token t"
    and xy: "x = (if tkt_order y = n then y\<lparr>tkt_status := VOID\<rparr> else y)" by (auto split: if_splits)
  have "y = t" by (rule tokens_distinct_unique [OF assms(2,3) y])
  with xy valid assms(4) show False by simp
qed

lemma refund_order_voids:
  assumes "refund_order stripe_refund pk s = Inr (True, s1)" and "well_keyed tkt_pk n (db_tickets s)"
  shows "db_tickets s1 = map (\<lambda>t. if tkt_order t = pk then t\<lparr>tkt_status := VOID\<rparr> else t) (db_tickets s)"
proof -
  obtain o' where row: "get_row order_pk pk (db_orders s) = Some o'"
    using assms(1) by (cases "get_row order_pk pk (db_orders s)") (simp_all add: refund_order_def)
  have paid: "order_status o' = PAID"
    using assms(1) row by (cases "order_status o' = PAID") (simp_all add: refund_order_def)
  obtain m where m: "refund_money stripe_refund o' s = Inr m"
    using assms(1) row paid by (cases "refund_money stripe_refund o' s") (auto simp: refund_order_def)
  obtain voided v where v: "void_order o' s = Inr (voided, v)"
    using assms(1) row paid m by (cases "void_order o' s") (auto simp: refund_order_def split: prod.splits)
  have "db_tickets s1 = db_tickets (snd (restore_redemptions_for_order o' v))"
    using assms(1) row paid m v
    by (cases m) (auto simp: refund_order_def Let_def create_payment_def set_order_status_def)
  moreover have "order_pk o' = pk" using get_row_Some [OF row] by simp
  ultimately show ?thesis using void_order_tickets [OF v assms(2)] by (simp add: restore_effect)
qed

text \<open>
  Property C10. A refunded order's tickets are worthless at the door: once the refund succeeded, no
  scan of any of its codes admits anyone, whoever signs and whenever.
\<close>

theorem refunded_ticket_not_admitted:
  assumes "refund_order stripe_refund pk s = Inr (True, s1)"
    and "well_keyed tkt_pk n (db_tickets s)" and "distinct (map tkt_token (db_tickets s))"
    and "t \<in> set (db_tickets s)" and "tkt_order t = pk"
  shows "\<not> scan_ok (fst (redeem_ticket k org (tkt_token t) sig by now s1))"
  by (rule voided_not_admitted [OF refund_order_voids [OF assms(1,2)] assms(3,4,5)])

definition door_order :: order where
  "door_order = (paid_order 1 (Some 31) '''' ''Ann'' None 2500 None)\<lparr>order_pk := 199\<rparr>"

definition door_night :: db where
  "door_night = demo\<lparr>db_next := 300, db_orders := [door_order], db_tickets := [door_ticket],
     db_payments := [payment_row door_order ''test'' 2500 ''succeeded'' ''t'']\<rparr>"

lemma door_night_refund: "\<exists>s1. refund_order (\<lambda>_ _. None) 199 door_night = Inr (True, s1)"
proof -
  have row: "get_row order_pk 199 (db_orders door_night) = Some door_order"
    by (simp add: get_row_def door_night_def door_order_def)
  have o': "order_status door_order = PAID" "order_pk door_order = 199" "order_performance door_order = Some 31"
    by (simp_all add: door_order_def paid_order_def)
  have no: "\<not> sold_a_pass door_order door_night" by (simp add: sold_a_pass_def items_of_def door_night_def demo_def)
  have m: "refund_money (\<lambda>_ _. None) door_order door_night = Inr (''test'', '''')"
    by (simp add: refund_money_def Let_def door_night_def payment_row_def)
  have t: "tickets_of door_order door_night = [door_ticket]" "live door_ticket" "tkt_seat door_ticket = None"
    by (simp_all add: tickets_of_def door_night_def door_order_def door_ticket_def live_def)
  have room: "alloc_sold ga_room = 0" "0 \<le> alloc_capacity ga_room" by (simp_all add: ga_room_def)
  have "\<exists>v. void_order door_order door_night = Inr (1, v)"
  proof -
    let ?v = "door_night\<lparr>db_tickets := update_rows (\<lambda>t. tkt_pk t \<in> {tkt_pk door_ticket}) (\<lambda>t. t\<lparr>tkt_status := VOID\<rparr>) (db_tickets door_night)\<rparr>"
    have al: "allocation_of 31 ?v = Some ga_room" by (rule demo_allocation) (simp add: door_night_def demo_def)
    then show ?thesis using room by (simp add: void_order_def Let_def t o' al save_sold_def)
  qed
  then obtain v where v: "void_order door_order door_night = Inr (1, v)" by blast
  show ?thesis by (simp add: refund_order_def row o' no m v)
qed

theorem refunded_ticket_not_admitted_witness:
  "\<exists>s1. refund_order (\<lambda>_ _. None) 199 door_night = Inr (True, s1) \<and>
     \<not> scan_ok (fst (redeem_ticket ''k'' 1 (tkt_token door_ticket) (sign_ticket ''k'' door_ticket) (Some 9) (hours 100) s1))"
proof -
  obtain s1 where r: "refund_order (\<lambda>_ _. None) 199 door_night = Inr (True, s1)" using door_night_refund by blast
  have "well_keyed tkt_pk 300 (db_tickets door_night)" "distinct (map tkt_token (db_tickets door_night))"
    "door_ticket \<in> set (db_tickets door_night)" "tkt_order door_ticket = 199"
    by (simp_all add: well_keyed_def door_night_def door_ticket_def)
  from refunded_ticket_not_admitted [OF r this] r show ?thesis by blast
qed

end
