(* ===== verification/Storefront.thy ===== *)
theory Storefront
  imports Checkout
begin

text \<open>
  The buyer's request handlers: orders/views.py, donations/views.py and passes/views.py. A handler
  maps a request, the clock, the visitor's session and the database to a response, the session and
  the database. A handler whose service raises something it does not catch answers 500; what was
  written before the service's transaction stays written. Receipts are sent best effort and change
  nothing, so they are left out; a page is represented by the values its template is given.
\<close>

section \<open>Requests and responses\<close>

record request =
  rq_org :: organization
  rq_is_post :: bool
  rq_post :: "string \<Rightarrow> string option"
  rq_get :: "string \<Rightarrow> string option"
  rq_seat_ids :: "string list"
  rq_user :: "nat option"
  rq_uuid :: string

text \<open>The session: its key, the signed-in guest, the captured email and the pass in redeem mode.\<close>

record visitor =
  vs_key :: string
  vs_guest :: guest_session
  vs_email :: string
  vs_redeeming :: "nat option"

record seat_view =
  sv_seat :: seat
  sv_state :: seat_state
  sv_price :: "cents option"
  sv_zone :: "(string \<times> string option) option"

record cart_row =
  cr_hold :: hold
  cr_total :: cents
  cr_discount :: cents
  cr_donation :: cents
  cr_net :: cents

datatype page =
    GaPage "hold option" "price_tier list" int "int option" "seat list" string
  | SeatMapPage "hold option" "seat_view list" "nat list" nat string
  | CartPage "cart_row list" cents "decimal list"
  | CheckoutPage "cart_row list" cents string
  | StubCheckoutPage cart_row string
  | SuccessPage "order option" "order_item option"
  | CancelPage
  | TicketsPage order "ticket list" "order_item option" "order_item option"
  | TicketsPdf order
  | DonatePage donation_campaign
  | DonateErrorPage donation_campaign
  | DonateStubPage donation_campaign cents
  | PassListPage "pass_product list"
  | PassPage pass_product
  | PassErrorPage pass_product
  | PassStubPage pass_product

datatype route =
    ToPerformance nat | ToCart | ToCheckout | ToCheckoutStub nat | ToPayment payment_page
  | ToTicket string | ToPortal | ToHome | ToDonate | ToPassStub nat

datatype notice =
    Quiet | Refused error | EnterEmail | SelectionHeld | HoldReleased | CodeApplied string | PromoRemoved
  | DonationAdded | DonationRemoved | SignInToRedeem | PassNotRedeemable | RedeemingWith nat
  | LeftRedeemMode | RedemptionSessionExpired | Redeemed | BadDonationAmount hold_error

datatype response = NotFound | ServerError error | Redirect route notice | Page page

record site_settings =
  site_fees :: fee_settings
  site_test_checkout :: bool

definition parse_int :: "string option \<Rightarrow> int \<Rightarrow> int" where
  "parse_int value fallback =
     (case value of None \<Rightarrow> fallback | Some t \<Rightarrow> (case py_int t of None \<Rightarrow> fallback | Some n \<Rightarrow> n))"

text \<open>The key an integer names: none below zero.\<close>

definition key_of :: "int \<Rightarrow> nat option" where
  "key_of n = (if n < 0 then None else Some (nat n))"

text \<open>The guarded coercion of the cart services, and the unguarded one of a \<open>pk=\<close> lookup.\<close>

definition posted_key :: "string option \<Rightarrow> nat option" where
  "posted_key value = (case value of None \<Rightarrow> None | Some t \<Rightarrow> Option.bind (py_int t) key_of)"

definition lookup_key :: "string option \<Rightarrow> error + nat option" where
  "lookup_key value =
     (case value of
        None \<Rightarrow> Inr None
      | Some t \<Rightarrow> (case py_int t of None \<Rightarrow> Inl (PyErr ValueError) | Some n \<Rightarrow> Inr (key_of n)))"

definition marketing_opt_in :: "request \<Rightarrow> bool" where
  "marketing_opt_in rq \<longleftrightarrow> rq_post rq ''marketing_opt_in'' \<in> {Some ''on'', Some ''1'', Some ''true''}"

definition post_text :: "request \<Rightarrow> string \<Rightarrow> string" where
  "post_text rq name = strip (or_blank (rq_post rq name))"

definition current_guest :: "request \<Rightarrow> visitor \<Rightarrow> db \<Rightarrow> guest_account option \<times> visitor" where
  "current_guest rq v s =
     (let (g, sess) = get_current_guest (Some (org_pk (rq_org rq))) (vs_guest v) s in (g, v\<lparr>vs_guest := sess\<rparr>))"

definition prefill_email :: "request \<Rightarrow> visitor \<Rightarrow> db \<Rightarrow> string" where
  "prefill_email rq v s = (case fst (current_guest rq v s) of Some g \<Rightarrow> guest_email g | None \<Rightarrow> vs_email v)"

definition sign_in_buyer :: "order \<Rightarrow> db \<Rightarrow> visitor \<Rightarrow> visitor" where
  "sign_in_buyer o' s v =
     (case Option.bind (order_guest o') (\<lambda>k. get_row guest_pk k (db_guests s)) of
        None \<Rightarrow> v | Some g \<Rightarrow> v\<lparr>vs_guest := login_guest g (vs_guest v)\<rparr>)"

type_synonym handler = "request \<Rightarrow> time \<Rightarrow> visitor \<Rightarrow> db \<Rightarrow> response \<times> visitor \<times> db"

section \<open>Pages of a performance\<close>

definition performance_in :: "nat \<Rightarrow> nat \<Rightarrow> db \<Rightarrow> performance option" where
  "performance_in organization pk s =
     first_row (filter (\<lambda>p. perf_organization p = organization \<and> perf_pk p = pk) (db_performances s))"

definition seat_views :: "performance \<Rightarrow> string \<Rightarrow> time \<Rightarrow> db \<Rightarrow> seat_view list" where
  "seat_views performance session_key now s =
     (let states = map_of (reserved_seat_states performance (Some session_key) now s);
          prices = resolve_reserved_prices performance s
      in map (\<lambda>seat. let p = prices (seat_pk seat) in
           \<lparr>sv_seat = seat,
            sv_state = (case states (seat_pk seat) of None \<Rightarrow> UNAVAILABLE | Some st \<Rightarrow> st),
            sv_price = map_option rp_amount p,
            sv_zone = (case p of None \<Rightarrow> None
              | Some r \<Rightarrow> if rp_zone r = None then None else Some (rp_label r, rp_color r))\<rparr>)
         (performance_seats performance s))"

definition performance_detail :: "nat \<Rightarrow> handler" where
  "performance_detail pk rq now v s =
     (case performance_in (org_pk (rq_org rq)) pk s of
        None \<Rightarrow> (NotFound, v, s)
      | Some performance \<Rightarrow>
          (if perf_status performance \<noteq> PERF_PUBLISHED then (NotFound, v, s)
           else
             (let existing = get_active_hold (org_pk (rq_org rq)) performance (vs_key v) now s;
                  email = prefill_email rq v s
              in if perf_seating_mode performance = GA
                 then (Page (GaPage existing
                         (order_by tier_name
                            (filter (\<lambda>t. tier_performance t = Some (perf_pk performance)) (db_tiers s)))
                         (ga_available performance (Some (vs_key v)) now s)
                         (case existing of None \<Rightarrow> Some 0 | Some h \<Rightarrow> hold_quantity h)
                         (performance_seats performance s) email), v, s)
                 else
                   (let views = seat_views performance (vs_key v) now s
                    in (Page (SeatMapPage existing views
                          (map (\<lambda>x. seat_pk (sv_seat x)) (filter (\<lambda>x. sv_state x = HELD_BY_YOU) views))
                          (length (filter (\<lambda>x. selectable (sv_state x)) views)) email), v, s)))))"

text \<open>A tier strictly of this performance, never a section's.\<close>

definition ga_tier_at :: "nat \<Rightarrow> performance \<Rightarrow> nat option \<Rightarrow> db \<Rightarrow> price_tier option" where
  "ga_tier_at organization performance pk s =
     first_row (filter (\<lambda>t. Some (tier_pk t) = pk \<and> tier_organization t = organization \<and>
       tier_performance t = Some (perf_pk performance) \<and> tier_section t = None) (db_tiers s))"

definition seat_ids_of :: "string list \<Rightarrow> nat list" where
  "seat_ids_of raw = map (\<lambda>t. nat (digits_val (strip t)))
     (filter (\<lambda>t. strip t \<noteq> '''' \<and> list_all is_digit (strip t)) raw)"

definition after_selection ::
    "request \<Rightarrow> performance \<Rightarrow> visitor \<Rightarrow> db \<Rightarrow> error + (hold option \<times> db) \<Rightarrow> response \<times> visitor \<times> db" where
  "after_selection rq performance v s outcome =
     (case outcome of
        Inr (_, s') \<Rightarrow>
          (let captured = normalize_email (or_blank (rq_post rq ''buyer_email''))
           in (Redirect ToCart SelectionHeld, if captured = '''' then v else v\<lparr>vs_email := captured\<rparr>, s'))
      | Inl (HoldErr e) \<Rightarrow> (Redirect (ToPerformance (perf_pk performance)) (Refused (HoldErr e)), v, s)
      | Inl e \<Rightarrow> (ServerError e, v, s))"

definition hold_create :: "nat \<Rightarrow> handler" where
  "hold_create pk rq now v s =
     (case performance_in (org_pk (rq_org rq)) pk s of
        None \<Rightarrow> (NotFound, v, s)
      | Some performance \<Rightarrow>
          (let organization = org_pk (rq_org rq)
           in if perf_seating_mode performance = GA
              then
                (let quantity = parse_int (rq_post rq ''quantity'') 0
                 in if quantity \<le> 0
                    then after_selection rq performance v s
                      (Inr (None, clear_session_hold organization performance (vs_key v) s))
                    else
                      (case lookup_key (rq_post rq ''price_tier'') of
                         Inl e \<Rightarrow> (ServerError e, v, s)
                       | Inr tier_key \<Rightarrow>
                           (case ga_tier_at organization performance tier_key s of
                              None \<Rightarrow> (NotFound, v, s)
                            | Some tier \<Rightarrow> after_selection rq performance v s
                                (set_ga_hold organization performance (vs_key v) (rq_user rq) tier
                                   (Some quantity) now s))))
              else after_selection rq performance v s
                (set_reserved_hold organization performance (vs_key v) (rq_user rq)
                   (seat_ids_of (rq_seat_ids rq)) now s)))"

section \<open>The cart\<close>

definition active_holds :: "nat \<Rightarrow> string \<Rightarrow> time \<Rightarrow> db \<Rightarrow> hold list" where
  "active_holds organization session_key now s =
     order_by hold_expires_at (filter (\<lambda>h. hold_organization h = organization \<and>
       hold_session_key h = session_key \<and> active now h) (db_holds s))"

definition cart_row_of :: "hold \<Rightarrow> db \<Rightarrow> error + cart_row" where
  "cart_row_of h s =
     bindE (hold_total h s) (\<lambda>total. bindE (hold_grand_total h s) (\<lambda>net.
       Inr \<lparr>cr_hold = h, cr_total = total, cr_discount = hold_discount h, cr_donation = hold_donation h, cr_net = net\<rparr>))"

fun cart_rows :: "hold list \<Rightarrow> db \<Rightarrow> error + cart_row list" where
  "cart_rows [] s = Inr []"
| "cart_rows (h # hs) s = bindE (cart_row_of h s) (\<lambda>r. bindE (cart_rows hs s) (\<lambda>rs. Inr (r # rs)))"

definition donation_suggested_amounts :: "nat \<Rightarrow> db \<Rightarrow> error + decimal list" where
  "donation_suggested_amounts organization s =
     (case active_campaign_or_404 organization s of None \<Rightarrow> Inr [] | Some c \<Rightarrow> suggested_amount_list c)"

definition rendered :: "visitor \<Rightarrow> db \<Rightarrow> error + page \<Rightarrow> response \<times> visitor \<times> db" where
  "rendered v s p = (case p of Inl e \<Rightarrow> (ServerError e, v, s) | Inr x \<Rightarrow> (Page x, v, s))"

definition cart_view :: handler where
  "cart_view rq now v s =
     rendered v s
       (bindE (cart_rows (active_holds (org_pk (rq_org rq)) (vs_key v) now s) s) (\<lambda>items.
        bindE (donation_suggested_amounts (org_pk (rq_org rq)) s) (\<lambda>amounts.
          Inr (CartPage items (sum_list (map cr_net items)) amounts))))"

definition cart_release :: handler where
  "cart_release rq now v s =
     (let value = rq_post rq ''hold_id''
      in if or_blank value = '''' then (Redirect ToCart HoldReleased, v, s)
         else (case lookup_key value of
             Inl e \<Rightarrow> (ServerError e, v, s)
           | Inr k \<Rightarrow> (Redirect ToCart HoldReleased, v,
               release_hold_by_id (org_pk (rq_org rq)) (vs_key v) k s)))"

definition promo_apply :: handler where
  "promo_apply rq now v s =
     (case apply_promo_code (org_pk (rq_org rq)) (vs_key v) (posted_key (rq_post rq ''hold_id''))
             (or_blank (rq_post rq ''code'')) now s of
        Inr (h, s') \<Rightarrow> (Redirect ToCart (CodeApplied (hold_promo_code_text h)), v, s')
      | Inl (PromoErr e) \<Rightarrow> (Redirect ToCart (Refused (PromoErr e)), v, s)
      | Inl e \<Rightarrow> (ServerError e, v, s))"

definition promo_remove :: handler where
  "promo_remove rq now v s =
     (Redirect ToCart PromoRemoved, v,
      remove_promo_code (org_pk (rq_org rq)) (vs_key v) (posted_key (rq_post rq ''hold_id'')) s)"

text \<open>The general fund is made before the gift is checked, and stays when the gift is refused.\<close>

definition donation_add :: handler where
  "donation_add rq now v s =
     (let (campaign, s1) = get_or_create_general_fund (org_pk (rq_org rq)) now s
      in case set_hold_donation (org_pk (rq_org rq)) (vs_key v) (posted_key (rq_post rq ''hold_id''))
                (or_blank (rq_post rq ''amount'')) (Some (camp_pk campaign)) now s1 of
           Inr (_, s') \<Rightarrow> (Redirect ToCart DonationAdded, v, s')
         | Inl (HoldErr e) \<Rightarrow> (Redirect ToCart (Refused (HoldErr e)), v, s1)
         | Inl e \<Rightarrow> (ServerError e, v, s1))"

definition donation_remove :: handler where
  "donation_remove rq now v s =
     (Redirect ToCart DonationRemoved, v,
      clear_hold_donation (org_pk (rq_org rq)) (vs_key v) (posted_key (rq_post rq ''hold_id'')) s)"

section \<open>Checkout\<close>

text \<open>
  \<open>get_object_or_404(Hold, pk, organization, session_key, expires_at__gt=now)\<close>: an error when the
  posted key is no number, none when there is no such hold.
\<close>

definition own_hold :: "string option \<Rightarrow> request \<Rightarrow> time \<Rightarrow> visitor \<Rightarrow> db \<Rightarrow> error + hold option" where
  "own_hold value rq now v s =
     bindE (lookup_key value) (\<lambda>k. Inr (active_cart_hold (org_pk (rq_org rq)) (vs_key v) k now s))"

definition with_hold ::
    "error + hold option \<Rightarrow> visitor \<Rightarrow> db \<Rightarrow> (hold \<Rightarrow> response \<times> visitor \<times> db) \<Rightarrow> response \<times> visitor \<times> db" where
  "with_hold found v s k =
     (case found of
        Inl e \<Rightarrow> (ServerError e, v, s)
      | Inr None \<Rightarrow> (NotFound, v, s)
      | Inr (Some h) \<Rightarrow> k h)"

definition checkout_view :: "site_settings \<Rightarrow> handler" where
  "checkout_view cfg rq now v s =
     (if rq_is_post rq
      then with_hold (own_hold (rq_post rq ''hold_id'') rq now v s) v s (\<lambda>h.
        case create_checkout_session (site_fees cfg) h (marketing_opt_in rq) now s of
          Inr payment \<Rightarrow> (Redirect (ToPayment payment) Quiet, v, s)
        | Inl (CheckoutErr e) \<Rightarrow> (Redirect ToCart (Refused (CheckoutErr e)), v, s)
        | Inl e \<Rightarrow> (ServerError e, v, s))
      else rendered v s
        (bindE (cart_rows (active_holds (org_pk (rq_org rq)) (vs_key v) now s) s) (\<lambda>items.
          Inr (CheckoutPage items (sum_list (map cr_net items)) (prefill_email rq v s)))))"

text \<open>What the two simulated checkouts share: fulfil the hold, sign the buyer in, show the tickets.\<close>

definition pay_hold :: "string \<Rightarrow> hold \<Rightarrow> string \<Rightarrow> handler" where
  "pay_hold provider h buyer_email rq now v s =
     (case fulfill_hold h buyer_email (post_text rq ''buyer_name'') (provider @ ''-'' @ rq_uuid rq) provider None
             (marketing_opt_in rq) now s of
        Inr (o', s') \<Rightarrow> (Redirect (ToTicket (order_token o')) Quiet, sign_in_buyer o' s' v, s')
      | Inl (FulfillErr e) \<Rightarrow> (Redirect ToCart (Refused (FulfillErr e)), v, s)
      | Inl e \<Rightarrow> (ServerError e, v, s))"

definition checkout_test :: "site_settings \<Rightarrow> handler" where
  "checkout_test cfg rq now v s =
     (if \<not> site_test_checkout cfg then (NotFound, v, s)
      else with_hold (own_hold (rq_post rq ''hold_id'') rq now v s) v s (\<lambda>h.
        if post_text rq ''buyer_email'' = '''' then (Redirect ToCheckout EnterEmail, v, s)
        else pay_hold ''test'' h (post_text rq ''buyer_email'') rq now v s))"

definition posted_or_query :: "request \<Rightarrow> string \<Rightarrow> string option" where
  "posted_or_query rq name = (if or_blank (rq_post rq name) = '''' then rq_get rq name else rq_post rq name)"

definition checkout_stub :: handler where
  "checkout_stub rq now v s =
     (if org_stripe_charges_enabled (rq_org rq) then (NotFound, v, s)
      else with_hold (own_hold (posted_or_query rq ''hold_id'') rq now v s) v s (\<lambda>h.
        if rq_is_post rq
        then (if post_text rq ''buyer_email'' = '''' then (Redirect (ToCheckoutStub (hold_pk h)) EnterEmail, v, s)
              else pay_hold ''stub'' h (post_text rq ''buyer_email'') rq now v s)
        else rendered v s (bindE (cart_row_of h s) (\<lambda>r. Inr (StubCheckoutPage r (prefill_email rq v s))))))"

definition first_item :: "item_kind \<Rightarrow> order \<Rightarrow> db \<Rightarrow> order_item option" where
  "first_item kind o' s = first_row (filter (\<lambda>i. item_kind i = kind) (items_of o' s))"

definition checkout_success :: handler where
  "checkout_success rq now v s =
     (case (if or_blank (rq_get rq ''session_id'') = '''' then None
            else order_for_session (org_pk (rq_org rq)) (or_blank (rq_get rq ''session_id'')) s) of
        None \<Rightarrow> (Page (SuccessPage None None), v, s)
      | Some o' \<Rightarrow> (Page (SuccessPage (Some o')
            (if order_performance o' = None then first_item DONATION o' s else None)), sign_in_buyer o' s v, s))"

definition checkout_cancel :: handler where
  "checkout_cancel rq now v s = (Page CancelPage, v, s)"

section \<open>Tickets\<close>

definition order_by_token :: "nat \<Rightarrow> string \<Rightarrow> db \<Rightarrow> order option" where
  "order_by_token organization token s =
     first_row (filter (\<lambda>x. order_organization x = organization \<and> order_token x = token) (db_orders s))"

definition ticket_sort_key :: "db \<Rightarrow> ticket \<Rightarrow> (int \<times> string \<times> string) \<times> nat" where
  "ticket_sort_key s t =
     ((case Option.bind (tkt_seat t) (\<lambda>k. get_row seat_pk k (db_seats s)) of
         None \<Rightarrow> (0, '''', '''')
       | Some st \<Rightarrow> ((case section_of st s of None \<Rightarrow> 0 | Some c \<Rightarrow> section_ordering c), seat_row_label st, seat_number st)),
      tkt_pk t)"

definition ticket_detail :: "string \<Rightarrow> handler" where
  "ticket_detail token rq now v s =
     (case order_by_token (org_pk (rq_org rq)) token s of
        None \<Rightarrow> (NotFound, v, s)
      | Some o' \<Rightarrow> (Page (TicketsPage o' (order_by (ticket_sort_key s) (tickets_of o' s))
          (first_item DONATION o' s) (first_item PASS o' s)), v, s))"

definition ticket_pdf :: "string \<Rightarrow> handler" where
  "ticket_pdf token rq now v s =
     (case order_by_token (org_pk (rq_org rq)) token s of
        None \<Rightarrow> (NotFound, v, s)
      | Some o' \<Rightarrow> if tickets_of o' s = [] then (NotFound, v, s) else (Page (TicketsPdf o'), v, s))"

section \<open>The donation page\<close>

definition with_campaign :: "request \<Rightarrow> visitor \<Rightarrow> db \<Rightarrow> (donation_campaign \<Rightarrow> response \<times> visitor \<times> db) \<Rightarrow> response \<times> visitor \<times> db" where
  "with_campaign rq v s k =
     (case active_campaign_or_404 (org_pk (rq_org rq)) s of None \<Rightarrow> (NotFound, v, s) | Some c \<Rightarrow> k c)"

text \<open>\<open>fulfill_donation\<close> raises no error these pages catch.\<close>

definition give :: "string \<Rightarrow> donation_campaign \<Rightarrow> cents \<Rightarrow> string \<Rightarrow> handler" where
  "give provider campaign amount buyer_email rq now v s =
     (case fulfill_donation (org_pk (rq_org rq)) amount (Some (camp_pk campaign)) buyer_email
             (post_text rq ''buyer_name'') provider (provider @ ''-'' @ rq_uuid rq) None (marketing_opt_in rq) now s of
        Inr (o', s') \<Rightarrow> (Redirect (ToTicket (order_token o')) Quiet, sign_in_buyer o' s' v, s')
      | Inl e \<Rightarrow> (ServerError e, v, s))"

definition donate :: "site_settings \<Rightarrow> handler" where
  "donate cfg rq now v s =
     with_campaign rq v s (\<lambda>campaign.
       if \<not> rq_is_post rq then (Page (DonatePage campaign), v, s)
       else
         (let buyer_email = normalize_email (or_blank (rq_post rq ''buyer_email''))
          in case parse_amount (or_blank (rq_post rq ''amount'')) of
               Inl e \<Rightarrow> (ServerError e, v, s)
             | Inr (Inl problem) \<Rightarrow> (Page (DonateErrorPage campaign), v, s)
             | Inr (Inr amount) \<Rightarrow>
                 (if buyer_email = '''' then (Page (DonateErrorPage campaign), v, s)
                  else if \<not> org_stripe_charges_enabled (rq_org rq) \<and> site_test_checkout cfg
                    then give ''test'' campaign amount buyer_email rq now v s
                  else (Redirect (ToPayment (create_donation_checkout_session (site_fees cfg) (rq_org rq) amount
                          (Some campaign) buyer_email (marketing_opt_in rq))) Quiet, v, s))))"

definition donate_stub :: handler where
  "donate_stub rq now v s =
     (if org_stripe_charges_enabled (rq_org rq) then (NotFound, v, s)
      else with_campaign rq v s (\<lambda>campaign.
        case parse_amount (or_blank (if rq_is_post rq then rq_post rq ''amount'' else rq_get rq ''amount'')) of
          Inl e \<Rightarrow> (ServerError e, v, s)
        | Inr (Inl problem) \<Rightarrow>
            (if rq_is_post rq then (Page (DonateErrorPage campaign), v, s)
             else (Redirect ToDonate (BadDonationAmount problem), v, s))
        | Inr (Inr amount) \<Rightarrow>
            (let buyer_email = normalize_email (or_blank (rq_post rq ''buyer_email''))
             in if \<not> rq_is_post rq then (Page (DonateStubPage campaign amount), v, s)
                else if buyer_email = '''' then (Page (DonateErrorPage campaign), v, s)
                else give ''stub'' campaign amount buyer_email rq now v s)))"

section \<open>Buying a pass\<close>

definition active_product :: "nat \<Rightarrow> nat option \<Rightarrow> db \<Rightarrow> pass_product option" where
  "active_product organization pk s =
     first_row (filter (\<lambda>p. Some (prod_pk p) = pk) (get_active_products organization s))"

definition pass_list :: handler where
  "pass_list rq now v s =
     (let products = order_by (\<lambda>p. if prod_kind p = FLEX then (0::nat) else 1)
            (order_by prod_name (get_active_products (org_pk (rq_org rq)) s))
      in if products = [] then (NotFound, v, s) else (Page (PassListPage products), v, s))"

definition buy_pass :: "string \<Rightarrow> pass_product \<Rightarrow> string \<Rightarrow> handler" where
  "buy_pass provider product buyer_email rq now v s =
     (case fulfill_pass_purchase (org_pk (rq_org rq)) product buyer_email (post_text rq ''buyer_name'') provider
             (provider @ ''-'' @ rq_uuid rq) None (marketing_opt_in rq) now s of
        Inr (o', s') \<Rightarrow> (Redirect (ToTicket (order_token o')) Quiet, sign_in_buyer o' s' v, s')
      | Inl e \<Rightarrow> (ServerError e, v, s))"

definition pass_detail :: "site_settings \<Rightarrow> nat \<Rightarrow> handler" where
  "pass_detail cfg pk rq now v s =
     (case active_product (org_pk (rq_org rq)) (Some pk) s of
        None \<Rightarrow> (NotFound, v, s)
      | Some product \<Rightarrow>
          (let buyer_email = normalize_email (or_blank (rq_post rq ''buyer_email''))
           in if \<not> rq_is_post rq then (Page (PassPage product), snd (current_guest rq v s), s)
              else if buyer_email = '''' then (Page (PassErrorPage product), v, s)
              else if \<not> org_stripe_charges_enabled (rq_org rq) \<and> site_test_checkout cfg
                then buy_pass ''test'' product buyer_email rq now v s
              else (Redirect (ToPayment (create_pass_checkout_session (site_fees cfg) (rq_org rq) product
                      buyer_email (marketing_opt_in rq))) Quiet, v, s)))"

definition pass_stub :: handler where
  "pass_stub rq now v s =
     (if org_stripe_charges_enabled (rq_org rq) then (NotFound, v, s)
      else
        (case lookup_key (if rq_is_post rq then rq_post rq ''product_id'' else rq_get rq ''product_id'') of
           Inl e \<Rightarrow> (ServerError e, v, s)
         | Inr k \<Rightarrow>
             (case active_product (org_pk (rq_org rq)) k s of
                None \<Rightarrow> (NotFound, v, s)
              | Some product \<Rightarrow>
                  (let buyer_email = normalize_email (or_blank (rq_post rq ''buyer_email''))
                   in if \<not> rq_is_post rq then (Page (PassStubPage product), v, s)
                      else if buyer_email = '''' then (Redirect (ToPassStub (prod_pk product)) EnterEmail, v, s)
                      else buy_pass ''stub'' product buyer_email rq now v s))))"

section \<open>Redeeming a pass\<close>

definition pass_of_guest :: "nat \<Rightarrow> guest_account \<Rightarrow> nat option \<Rightarrow> db \<Rightarrow> pass_purchase option" where
  "pass_of_guest organization g pk s =
     first_row (filter (\<lambda>p. pp_organization p = organization \<and> pp_guest p = Some (guest_pk g) \<and>
       Some (pp_pk p) = pk) (db_purchases s))"

definition pass_redeem_start :: handler where
  "pass_redeem_start rq now v s =
     (case current_guest rq v s of
        (None, v') \<Rightarrow> (Redirect ToPortal SignInToRedeem, v', s)
      | (Some g, v') \<Rightarrow>
          (case lookup_key (rq_post rq ''pass_id'') of
             Inl e \<Rightarrow> (ServerError e, v', s)
           | Inr k \<Rightarrow>
               (case pass_of_guest (org_pk (rq_org rq)) g k s of
                  None \<Rightarrow> (NotFound, v', s)
                | Some pp \<Rightarrow>
                    (if \<not> redeemable_now pp now then (Redirect ToPortal PassNotRedeemable, v', s)
                     else (Redirect ToHome (RedeemingWith (pp_product pp)), v'\<lparr>vs_redeeming := Some (pp_pk pp)\<rparr>, s)))))"

definition pass_redeem_exit :: handler where
  "pass_redeem_exit rq now v s = (Redirect ToCart LeftRedeemMode, v\<lparr>vs_redeeming := None\<rparr>, s)"

text \<open>Of the fulfillment errors this page catches the redemption's and the expired hold's only.\<close>

definition pass_redeem :: handler where
  "pass_redeem rq now v s =
     (case current_guest rq v s of
        (None, v') \<Rightarrow> (Redirect ToPortal SignInToRedeem, v', s)
      | (Some g, v') \<Rightarrow>
          with_hold (own_hold (rq_post rq ''hold_id'') rq now v' s) v' s (\<lambda>h.
            case (case vs_redeeming v' of None \<Rightarrow> None
                    | Some k \<Rightarrow> if k = 0 then None else pass_of_guest (org_pk (rq_org rq)) g (Some k) s) of
              None \<Rightarrow> (Redirect ToCart RedemptionSessionExpired, v'\<lparr>vs_redeeming := None\<rparr>, s)
            | Some pp \<Rightarrow>
                (case fulfill_hold_with_pass h (pp_pk pp) (guest_email g) (guest_name g) False now s of
                   Inr (o', s') \<Rightarrow> (Redirect (ToTicket (order_token o')) Redeemed, v'\<lparr>vs_redeeming := None\<rparr>, s')
                 | Inl (FulfillErr (PassRedemptionError r)) \<Rightarrow>
                     (Redirect ToCart (Refused (FulfillErr (PassRedemptionError r))), v', s)
                 | Inl (FulfillErr HoldGoneError) \<Rightarrow> (Redirect ToCart (Refused (FulfillErr HoldGoneError)), v', s)
                 | Inl e \<Rightarrow> (ServerError e, v', s))))"

end
