(* ===== verification/Portal.thy ===== *)
theory Portal
  imports Storefront
begin

text \<open>
  The guest portal: guests/tokens.py (signed links), guests/views.py (the handlers) and
  accounts/throttle.py (the rate limit they share with the staff login). Django's signing is a
  parameter: \<open>dumps salt payload at\<close> makes a token, \<open>loads salt max_age at token\<close> reads it back or
  reports \<open>BadSignature\<close> as none. The cache is a store whose entries expire; how long an
  incremented entry lasts is the backend's choice.
\<close>

section \<open>Signed links\<close>

text \<open>A decoded payload: the dictionary the code writes (\<open>gid\<close> and \<open>org\<close>), or another value.\<close>

datatype payload = GuestPayload "nat option" string | OtherPayload

definition link_salt :: string where "link_salt = ''guests.magic-link''"
definition unsub_salt :: string where "unsub_salt = ''guests.unsubscribe''"
definition default_max_age :: time where "default_max_age = hours 24"

type_synonym signer = "string \<Rightarrow> payload \<Rightarrow> time \<Rightarrow> string"
type_synonym reader = "string \<Rightarrow> time option \<Rightarrow> time \<Rightarrow> string \<Rightarrow> payload option"

definition guest_payload :: "guest_account \<Rightarrow> payload" where
  "guest_payload g = GuestPayload (Some (guest_pk g)) (show_nat (guest_organization g))"

definition make_login_token :: "signer \<Rightarrow> guest_account \<Rightarrow> time \<Rightarrow> string" where
  "make_login_token dumps g now = dumps link_salt (guest_payload g) now"

definition make_unsubscribe_token :: "signer \<Rightarrow> guest_account \<Rightarrow> time \<Rightarrow> string" where
  "make_unsubscribe_token dumps g now = dumps unsub_salt (guest_payload g) now"

definition read_token :: "reader \<Rightarrow> string \<Rightarrow> time option \<Rightarrow> string \<Rightarrow> nat \<Rightarrow> time \<Rightarrow> nat option" where
  "read_token loads salt max_age token organization now =
     (case loads salt max_age now token of
        None \<Rightarrow> None
      | Some OtherPayload \<Rightarrow> None
      | Some (GuestPayload gid org) \<Rightarrow> if org \<noteq> show_nat organization then None else gid)"

definition read_login_token :: "reader \<Rightarrow> string \<Rightarrow> nat \<Rightarrow> time \<Rightarrow> nat option" where
  "read_login_token loads token organization now = read_token loads link_salt (Some default_max_age) token organization now"

definition read_unsubscribe_token :: "reader \<Rightarrow> string \<Rightarrow> nat \<Rightarrow> time \<Rightarrow> nat option" where
  "read_unsubscribe_token loads token organization now = read_token loads unsub_salt None token organization now"

section \<open>The rate limit\<close>

text \<open>
  The settings and the cache's own habit: the backends differ in what \<open>incr\<close> does to the expiry of an entry. The
  one in memory keeps it (\<open>None\<close>); the file cache that config/settings/prod.py chooses takes the base class's \<open>incr\<close>,
  which sets the entry anew with the cache's default timeout (\<open>Some\<close>, 300 seconds there). A cache may also
  drop an entry before its time, and two workers may increment at once and count one failure; neither is
  modelled: entries last until they expire and requests come one after another.
\<close>

record throttle_settings =
  max_attempts :: int
  window :: time
  incr_timeout :: "time option"

text \<open>How long after a moment an entry, started or incremented then, is sure to last.\<close>

definition sure_window :: "throttle_settings \<Rightarrow> time" where
  "sure_window cfg = (case incr_timeout cfg of None \<Rightarrow> window cfg | Some d \<Rightarrow> min d (window cfg))"

text \<open>A cache entry: the count and the instant it expires.\<close>

type_synonym cache = "string \<rightharpoonup> (int \<times> time)"

definition cache_get :: "cache \<Rightarrow> string \<Rightarrow> time \<Rightarrow> int option" where
  "cache_get c k now = (case c k of None \<Rightarrow> None | Some (n, until) \<Rightarrow> if now < until then Some n else None)"

definition client_ip :: "string \<Rightarrow> string \<Rightarrow> string" where
  "client_ip forwarded remote_addr =
     (if forwarded \<noteq> '''' then strip (hd (split_on (CHR '','') forwarded))
      else if remote_addr = '''' then ''unknown'' else remote_addr)"

definition throttle_key :: "string \<Rightarrow> string \<Rightarrow> string" where
  "throttle_key scope ip = ''loginthrottle:'' @ scope @ '':'' @ ip"

definition is_locked_out :: "throttle_settings \<Rightarrow> string \<Rightarrow> string \<Rightarrow> cache \<Rightarrow> time \<Rightarrow> bool" where
  "is_locked_out cfg scope ip c now =
     (if \<not> 0 < max_attempts cfg then False
      else max_attempts cfg \<le> (case cache_get c (throttle_key scope ip) now of None \<Rightarrow> 0 | Some n \<Rightarrow> n))"

definition register_failure :: "throttle_settings \<Rightarrow> string \<Rightarrow> string \<Rightarrow> cache \<Rightarrow> time \<Rightarrow> int \<times> cache" where
  "register_failure cfg scope ip c now =
     (if \<not> 0 < max_attempts cfg then (0, c)
      else let k = throttle_key scope ip
           in (case cache_get c k now of
                 Some n \<Rightarrow> (n + 1, c(k \<mapsto> (n + 1, case incr_timeout cfg of None \<Rightarrow> snd (the (c k)) | Some d \<Rightarrow> now + d)))
               | None \<Rightarrow> (1, c(k \<mapsto> (1, now + window cfg)))))"

definition clear_throttle :: "throttle_settings \<Rightarrow> string \<Rightarrow> string \<Rightarrow> cache \<Rightarrow> cache" where
  "clear_throttle cfg scope ip c = (if \<not> 0 < max_attempts cfg then c else c(throttle_key scope ip := None))"

section \<open>The handlers\<close>

record pass_view =
  pv_pass :: pass_purchase
  pv_remaining :: "int option"
  pv_redeemable :: bool

datatype portal_page =
    SignInPage
  | SignInWithLink "string option" string
  | InvalidForm
  | MyTickets guest_account "(order \<times> nat) list" "pass_view list"
  | UnsubscribeInvalid
  | UnsubscribeConfirm nat bool

datatype portal_notice = LinkMaybeSent | BadLink | SignedIn | SignedOut | SignInFirst | Subscribed | Unsubscribed

datatype portal_response = PortalPage portal_page | ToPortalWith portal_notice | Bare200

text \<open>Rows carry no creation time here; a table is in insertion order, so newest first is its reverse.\<close>

definition guest_portal :: "nat \<Rightarrow> guest_session \<Rightarrow> time \<Rightarrow> db \<Rightarrow> portal_response \<times> guest_session" where
  "guest_portal organization sess now s =
     (case get_current_guest (Some organization) sess s of
        (None, sess') \<Rightarrow> (PortalPage SignInPage, sess')
      | (Some g, sess') \<Rightarrow>
          (PortalPage (MyTickets g
             (map (\<lambda>o'. (o', length (tickets_of o' s)))
                (rev (filter (\<lambda>o'. order_organization o' = organization \<and> order_guest o' = Some (guest_pk g)) (db_orders s))))
             (map (\<lambda>pp. \<lparr>pv_pass = pp, pv_remaining = remaining_admissions pp s, pv_redeemable = redeemable_now pp now\<rparr>)
                (rev (filter (\<lambda>pp. pp_organization pp = organization \<and> pp_guest pp = Some (guest_pk g)) (db_purchases s))))),
           sess'))"

text \<open>
  The request for a link, after the form's own check gave \<open>email\<close> (none when it is no address): the
  response, the cache, and the link emailed to a guest. \<open>smtp\<close> is \<open>email_delivery_configured\<close>.
\<close>

definition guest_request_link ::
    "signer \<Rightarrow> throttle_settings \<Rightarrow> bool \<Rightarrow> nat \<Rightarrow> string \<Rightarrow> string option \<Rightarrow> time \<Rightarrow> cache \<Rightarrow> db \<Rightarrow>
       portal_response \<times> cache \<times> (nat \<times> string) option" where
  "guest_request_link dumps cfg smtp organization ip email now c s =
     (case email of
        None \<Rightarrow> (PortalPage InvalidForm, c, None)
      | Some address \<Rightarrow>
          (if is_locked_out cfg ''guest-link'' ip c now then (ToPortalWith LinkMaybeSent, c, None)
           else
             (let c' = snd (register_failure cfg ''guest-link'' ip c now);
                  guest = guest_at organization (normalize_email address) s
              in if \<not> smtp
                 then (PortalPage (SignInWithLink (map_option (\<lambda>g. make_login_token dumps g now) guest)
                         (normalize_email address)), c', None)
                 else (ToPortalWith LinkMaybeSent, c', map_option (\<lambda>g. (guest_pk g, make_login_token dumps g now)) guest))))"

definition guest_by_key :: "nat \<Rightarrow> nat option \<Rightarrow> db \<Rightarrow> guest_account option" where
  "guest_by_key organization k s =
     first_row (filter (\<lambda>g. guest_organization g = organization \<and> Some (guest_pk g) = k) (db_guests s))"

definition guest_verify :: "reader \<Rightarrow> nat \<Rightarrow> string \<Rightarrow> guest_session \<Rightarrow> time \<Rightarrow> db \<Rightarrow> portal_response \<times> guest_session" where
  "guest_verify loads organization token sess now s =
     (case guest_by_key organization (read_login_token loads token organization now) s of
        None \<Rightarrow> (ToPortalWith BadLink, sess)
      | Some g \<Rightarrow> (ToPortalWith SignedIn, login_guest g sess))"

definition guest_logout :: "guest_session \<Rightarrow> portal_response \<times> guest_session" where
  "guest_logout sess = (ToPortalWith SignedOut, logout_guest sess)"

definition guest_preferences :: "nat \<Rightarrow> bool \<Rightarrow> guest_session \<Rightarrow> time \<Rightarrow> db \<Rightarrow> portal_response \<times> guest_session \<times> db" where
  "guest_preferences organization opted_in sess now s =
     (case get_current_guest (Some organization) sess s of
        (None, sess') \<Rightarrow> (ToPortalWith SignInFirst, sess', s)
      | (Some g, sess') \<Rightarrow>
          (ToPortalWith (if opted_in then Subscribed else Unsubscribed), sess', set_marketing_opt_in (Some g) opted_in now s))"

definition guest_unsubscribe ::
    "reader \<Rightarrow> nat \<Rightarrow> bool \<Rightarrow> (string \<Rightarrow> string option) \<Rightarrow> (string \<Rightarrow> string option) \<Rightarrow> time \<Rightarrow> db \<Rightarrow> portal_response \<times> db" where
  "guest_unsubscribe loads organization is_post post query now s =
     (let token = (if or_blank (query ''token'') \<noteq> '''' then or_blank (query ''token'') else or_blank (post ''token''));
          guest = guest_by_key organization (read_unsubscribe_token loads token organization now) s;
          one_click = (is_post \<and> post ''List-Unsubscribe'' = Some ''One-Click'');
          resubscribe = (is_post \<and> post ''action'' = Some ''resubscribe'');
          s' = (case guest of None \<Rightarrow> s | Some g \<Rightarrow> set_marketing_opt_in (Some g) resubscribe now s)
      in if one_click then (Bare200, s')
         else (case guest of
             None \<Rightarrow> (PortalPage UnsubscribeInvalid, s')
           | Some g \<Rightarrow> (PortalPage (UnsubscribeConfirm (guest_pk g) resubscribe), s')))"

section \<open>Magic links\<close>

text \<open>
  What Django's signing promises: a token reads back under its own salt until it is older than the
  age allowed, and under no other salt.
\<close>

definition signing_laws :: "signer \<Rightarrow> reader \<Rightarrow> bool" where
  "signing_laws dumps loads \<longleftrightarrow>
     (\<forall>salt\<in>{link_salt, unsub_salt}. \<forall>k org t now.
        loads salt None now (dumps salt (GuestPayload (Some k) org) t) = Some (GuestPayload (Some k) org) \<and>
        (\<forall>m. loads salt (Some m) now (dumps salt (GuestPayload (Some k) org) t) =
          (if now \<le> t + m then Some (GuestPayload (Some k) org) else None)) \<and>
        (\<forall>salt'\<in>{link_salt, unsub_salt} - {salt}. \<forall>m. loads salt' m now (dumps salt (GuestPayload (Some k) org) t) = None))"

lemma guest_by_key_found:
  assumes "well_keyed guest_pk (db_next s) (db_guests s)" and "g \<in> set (db_guests s)"
  shows "guest_by_key org (Some (guest_pk g)) s = (if org = guest_organization g then Some g else None)"
proof -
  have "filter (\<lambda>x. guest_pk x = guest_pk g) (db_guests s) \<noteq> []"
    using assms(2) by (auto simp: filter_empty_conv)
  moreover have "first_row (filter (\<lambda>x. guest_pk x = guest_pk g) (db_guests s)) = Some g"
    using guest_rows.get_row_keyed [OF assms] by (simp add: get_row_def)
  moreover have one: "\<forall>x\<in>set (db_guests s). guest_pk x = guest_pk g \<longrightarrow> x = g"
    using guest_rows.keyed_inj [OF assms(1) _ assms(2)] by blast
  show ?thesis
  proof (cases "org = guest_organization g")
    case True
    then have "filter (\<lambda>x. guest_organization x = org \<and> guest_pk x = guest_pk g) (db_guests s) =
        filter (\<lambda>x. guest_pk x = guest_pk g) (db_guests s)"
      using one by (auto intro!: filter_cong)
    with True calculation show ?thesis by (simp add: guest_by_key_def)
  next
    case False
    with one show ?thesis by (auto simp: guest_by_key_def filter_empty_conv)
  qed
qed

lemma login_token_reads:
  assumes "signing_laws dumps loads"
  shows "read_login_token loads (make_login_token dumps g t) org now =
      (if org = guest_organization g \<and> now \<le> t + hours 24 then Some (guest_pk g) else None)"
    "read_login_token loads (make_unsubscribe_token dumps g t) org now = None"
    "read_unsubscribe_token loads (make_unsubscribe_token dumps g t) org now =
      (if org = guest_organization g then Some (guest_pk g) else None)"
  using assms
  by (auto simp: read_login_token_def read_unsubscribe_token_def make_login_token_def make_unsubscribe_token_def
      read_token_def signing_laws_def guest_payload_def default_max_age_def link_salt_def unsub_salt_def)

text \<open>
  Property C16. A magic link signs in exactly the guest it was made for: opened on that guest's own
  theater within a day it signs in that guest, anywhere else or later it signs in nobody, and the
  unsubscribe link of a campaign email never signs anyone in.
\<close>

theorem magic_link_is_exact:
  assumes "signing_laws dumps loads" and "well_keyed guest_pk (db_next s) (db_guests s)" and "g \<in> set (db_guests s)"
  shows "guest_verify loads org (make_login_token dumps g t) sess now s =
      (if org = guest_organization g \<and> now \<le> t + hours 24
       then (ToPortalWith SignedIn, login_guest g sess) else (ToPortalWith BadLink, sess)) \<and>
    guest_verify loads org (make_unsubscribe_token dumps g t) sess now s = (ToPortalWith BadLink, sess)"
proof -
  have none: "guest_by_key org None s = None" by (simp add: guest_by_key_def)
  show ?thesis
    using guest_by_key_found [OF assms(2,3)] none
    by (simp add: guest_verify_def login_token_reads [OF assms(1)])
qed

text \<open>A signing scheme for the witness: the token spells the purpose, the time and the payload.\<close>

definition demo_dumps :: signer where
  "demo_dumps salt p t =
     (case p of
        GuestPayload (Some k) org \<Rightarrow> (if salt = link_salt then CHR ''L'' else CHR ''U'') # (if t < 0 then CHR ''-'' else CHR ''+'') #
           show_nat (nat \<bar>t\<bar>) @ CHR ''|'' # show_nat k @ CHR ''|'' # org
      | _ \<Rightarrow> '''')"

definition demo_loads :: reader where
  "demo_loads salt m now token =
     (case token of
        p # sg # rest \<Rightarrow>
          (let n = digits_val (takeWhile is_digit rest); t = (if sg = CHR ''-'' then - n else n);
               r2 = drop 1 (dropWhile is_digit rest); k = nat (digits_val (takeWhile is_digit r2));
               org = drop 1 (dropWhile is_digit r2)
           in if p = (if salt = link_salt then CHR ''L'' else CHR ''U'') \<and> (case m of None \<Rightarrow> True | Some a \<Rightarrow> now \<le> t + a)
              then Some (GuestPayload (Some k) org) else None)
      | _ \<Rightarrow> None)"

lemma read_digits:
  "takeWhile is_digit (show_nat n @ CHR ''|'' # r) = show_nat n" "dropWhile is_digit (show_nat n @ CHR ''|'' # r) = CHR ''|'' # r"
proof -
  have "\<not> is_digit (CHR ''|'')" by code_simp
  then show "takeWhile is_digit (show_nat n @ CHR ''|'' # r) = show_nat n" "dropWhile is_digit (show_nat n @ CHR ''|'' # r) = CHR ''|'' # r"
    using show_nat_digits [of n] by (simp_all add: list_all_iff takeWhile_append dropWhile_append)
qed

lemma demo_signing: "signing_laws demo_dumps demo_loads"
proof -
  have "demo_loads salt' m now (demo_dumps salt (GuestPayload (Some k) org) t) =
      (if (salt' = link_salt) = (salt = link_salt) \<and> (case m of None \<Rightarrow> True | Some a \<Rightarrow> now \<le> t + a)
       then Some (GuestPayload (Some k) org) else None)" for salt salt' m now k org t
    by (auto simp: demo_loads_def demo_dumps_def read_digits digits_val_show_nat Let_def split: option.splits)
  moreover have "unsub_salt \<noteq> link_salt" by (simp add: unsub_salt_def link_salt_def)
  ultimately show ?thesis by (auto simp: signing_laws_def)
qed

theorem magic_link_is_exact_witness:
  "guest_verify demo_loads 1 (make_login_token demo_dumps ann (hours 1)) \<lparr>sess_guest_id = None, sess_guest_org = None\<rparr> (hours 20) with_ann =
     (ToPortalWith SignedIn, \<lparr>sess_guest_id = Some (guest_pk ann), sess_guest_org = Some 1\<rparr>) \<and>
   guest_verify demo_loads 1 (make_login_token demo_dumps ann (hours 1)) \<lparr>sess_guest_id = None, sess_guest_org = None\<rparr> (hours 26) with_ann =
     (ToPortalWith BadLink, \<lparr>sess_guest_id = None, sess_guest_org = None\<rparr>)"
proof -
  have f: "well_keyed guest_pk (db_next with_ann) (db_guests with_ann)" "ann \<in> set (db_guests with_ann)" "guest_organization ann = 1"
    by (simp_all add: with_ann_def ann_def demo_def well_keyed_def)
  from magic_link_is_exact [OF demo_signing f(1,2), of 1 "hours 1"] f(3) show ?thesis
    by (simp add: login_guest_def time_defs)
qed

section \<open>The rate limit holds\<close>

text \<open>A run of requests from one address: how many got past the limit.\<close>

fun link_requests :: "throttle_settings \<Rightarrow> string \<Rightarrow> time list \<Rightarrow> cache \<Rightarrow> nat" where
  "link_requests cfg ip [] c = 0"
| "link_requests cfg ip (now # later) c =
     (if is_locked_out cfg ''guest-link'' ip c now then link_requests cfg ip later c
      else Suc (link_requests cfg ip later (snd (register_failure cfg ''guest-link'' ip c now))))"

text \<open>Until \<open>stop\<close> the entry lasts, and so does every increment of it from \<open>start\<close> on.\<close>

lemma open_window_requests:
  assumes "c (throttle_key ''guest-link'' ip) = Some (n, until)" and "stop \<le> until" and "\<forall>t\<in>set ts. start \<le> t \<and> t < stop"
    and "0 < max_attempts cfg" and "0 \<le> n" and "\<forall>d. incr_timeout cfg = Some d \<longrightarrow> stop \<le> start + d"
  shows "int (link_requests cfg ip ts c) \<le> max (max_attempts cfg - n) 0"
  using assms(1-5)
proof (induction ts arbitrary: c n until)
  case (Cons t ts)
  then have get: "cache_get c (throttle_key ''guest-link'' ip) t = Some n" by (simp add: cache_get_def)
  show ?case
  proof (cases "max_attempts cfg \<le> n")
    case True
    with Cons.IH [of c n] Cons.prems get show ?thesis by (simp add: is_locked_out_def)
  next
    case False
    let ?until = "case incr_timeout cfg of None \<Rightarrow> until | Some d \<Rightarrow> t + d"
    let ?c = "c(throttle_key ''guest-link'' ip \<mapsto> (n + 1, ?until))"
    have "stop \<le> ?until" using assms(6) Cons.prems(2,3) by (force split: option.split)
    then have "int (link_requests cfg ip ts ?c) \<le> max (max_attempts cfg - (n + 1)) 0"
      by (intro Cons.IH) (use Cons.prems in auto)
    moreover have "snd (register_failure cfg ''guest-link'' ip c t) = ?c"
      using Cons.prems get by (cases "incr_timeout cfg") (simp_all add: register_failure_def Let_def)
    ultimately show ?thesis using get False Cons.prems
      by (simp add: is_locked_out_def)
  qed
qed simp

text \<open>
  One address cannot mail-bomb a guest: of all the sign-in links requested from it within
  one window of the first (the shorter of the window and the cache's renewal), at most the configured number of
  attempts is acted on.
\<close>

theorem link_requests_are_bounded:
  assumes "0 < max_attempts cfg" and "cache_get c (throttle_key ''guest-link'' ip) t = None"
    and "\<forall>u\<in>set ts. t \<le> u \<and> u < t + sure_window cfg"
  shows "int (link_requests cfg ip (t # ts) c) \<le> max_attempts cfg"
proof -
  let ?c = "c(throttle_key ''guest-link'' ip \<mapsto> (1, t + window cfg))"
  have "int (link_requests cfg ip ts ?c) \<le> max (max_attempts cfg - 1) 0"
    by (rule open_window_requests [where start = t and stop = "t + sure_window cfg"])
      (use assms in \<open>auto simp: sure_window_def split: option.splits\<close>)
  with assms(1,2) show ?thesis
    by (simp add: is_locked_out_def register_failure_def Let_def)
qed

theorem link_requests_are_bounded_witness:
  "link_requests \<lparr>max_attempts = 2, window = minutes 15, incr_timeout = None\<rparr> ''10.0.0.1'' [0, minutes 1, minutes 2, minutes 3] Map.empty = 2 \<and>
   int (link_requests \<lparr>max_attempts = 2, window = minutes 15, incr_timeout = None\<rparr> ''10.0.0.1'' [0, minutes 1, minutes 2, minutes 3] Map.empty) \<le> 2"
proof -
  let ?cfg = "\<lparr>max_attempts = 2, window = minutes 15, incr_timeout = None\<rparr>"
  have "int (link_requests ?cfg ''10.0.0.1'' (0 # [minutes 1, minutes 2, minutes 3]) Map.empty) \<le> max_attempts ?cfg"
    by (rule link_requests_are_bounded) (simp_all add: cache_get_def time_defs sure_window_def)
  moreover have "link_requests ?cfg ''10.0.0.1'' [0, minutes 1, minutes 2, minutes 3] Map.empty = 2"
    by (simp add: is_locked_out_def register_failure_def cache_get_def Let_def time_defs)
  ultimately show ?thesis by simp
qed

text \<open>
  With the file cache of production the lockout ends early: two links are allowed in fifteen minutes, and
  four are acted on, since the second, at one minute, lets the entry expire five minutes later.
\<close>

lemma quota_renewed_inside_the_window:
  "link_requests \<lparr>max_attempts = 2, window = minutes 15, incr_timeout = Some (minutes 5)\<rparr> ''10.0.0.1''
     [0, minutes 1, minutes 2, minutes 7, minutes 8] Map.empty = 4"
  by (simp add: is_locked_out_def register_failure_def cache_get_def Let_def time_defs)

end
