(* ===== verification/Seating.thy ===== *)
theory Seating
  imports Schema
begin

text \<open>
  Seat generation (venues/generation.py): a section's layout parameters, the labels and numbers of
  its seats, the two geometries (grid or raked, fanned) with the rotation about a pivot, and the two
  ways a layout is written to the seat table: \<open>generate_seats\<close>, which deletes and recreates, and
  \<open>reposition_seats\<close>, which moves the rows it finds. Coordinates are reals where the code has
  floats. The choice columns are strings, as in the database: the code compares them with the
  choices and has a fallback for any other value.
\<close>

section \<open>The section's layout\<close>

record section_layout = section_row +
  section_tier :: string
  origin_x :: real
  origin_y :: real
  rotation :: real
  seat_pitch :: real
  row_pitch :: real
  row_x_offset :: real
  offset_mode :: string
  alt_row_seat_delta :: int
  arc_radius :: "real option"
  pivot_mode :: string
  pivot_x :: real
  pivot_y :: real
  shape_rows :: nat
  seats_per_row :: nat
  removed_seats :: "(string \<times> string) list"
  accessible_seats :: "(string \<times> string) list"
  numbering_scheme :: string
  row_label_scheme :: string
  row_label_start :: nat

text \<open>The members of the four \<open>TextChoices\<close>.\<close>

definition numbering_values :: "string list" where
  "numbering_values = [''sequential'', ''odd_desc_left'', ''even_asc_right'', ''hundreds'', ''hundreds_flat'']"

definition row_label_values :: "string list" where
  "row_label_values = [''skip_io'', ''all_letters'']"

definition offset_values :: "string list" where
  "offset_values = [''repeated'', ''alternating'']"

section \<open>Labels and numbers\<close>

text \<open>\<open>string.ascii_uppercase\<close>, whole and without the letters I and O.\<close>

definition ascii_uppercase :: string where
  "ascii_uppercase = map (\<lambda>i. char_of (65 + i)) [0..<26]"

definition base_letters_skip_io :: string where
  "base_letters_skip_io = filter (\<lambda>c. c \<noteq> CHR ''I'' \<and> c \<noteq> CHR ''O'') ascii_uppercase"

definition row_letters :: "string \<Rightarrow> string" where
  "row_letters scheme = (if scheme = ''all_letters'' then ascii_uppercase else base_letters_skip_io)"

definition row_label :: "string \<Rightarrow> nat \<Rightarrow> string" where
  "row_label letters i = replicate (i div length letters + 1) (letters ! (i mod length letters))"

definition generate_row_labels :: "nat \<Rightarrow> string \<Rightarrow> nat \<Rightarrow> string list" where
  "generate_row_labels count scheme start = map (row_label (row_letters scheme)) [start..<start + count]"

definition generate_seat_numbers :: "nat \<Rightarrow> string \<Rightarrow> nat \<Rightarrow> nat list" where
  "generate_seat_numbers seat_count scheme row_index =
     (if scheme = ''odd_desc_left'' then map (\<lambda>i. 2 * (seat_count - i) - 1) [0..<seat_count]
      else if scheme = ''even_asc_right'' then map (\<lambda>i. 2 * (i + 1)) [0..<seat_count]
      else if scheme = ''hundreds'' then map (\<lambda>i. (row_index + 1) * 100 + i + 1) [0..<seat_count]
      else if scheme = ''hundreds_flat'' then map (\<lambda>i. 100 + i + 1) [0..<seat_count]
      else map (\<lambda>i. i + 1) [0..<seat_count])"

definition compute_row_counts :: "nat \<Rightarrow> nat \<Rightarrow> string \<Rightarrow> int \<Rightarrow> nat list" where
  "compute_row_counts n per_row mode delta =
     map (\<lambda>r. nat (max 1 (int per_row + (if mode = ''alternating'' \<and> odd r then delta else 0)))) [0..<n]"

section \<open>Geometry\<close>

definition rotate_by :: "real \<times> real \<Rightarrow> real \<Rightarrow> real \<times> real" where
  "rotate_by p degrees =
     (if degrees = 0 then p
      else let t = degrees * pi / 180
           in (fst p * cos t - snd p * sin t, fst p * sin t + snd p * cos t))"

definition row_shift :: "section_layout \<Rightarrow> nat \<Rightarrow> real" where
  "row_shift sec row_index =
     (if offset_mode sec = ''alternating'' then (if odd row_index then row_x_offset sec else 0)
      else real row_index * row_x_offset sec)"

definition grid_or_raked_local :: "section_layout \<Rightarrow> nat \<Rightarrow> nat \<Rightarrow> real \<times> real" where
  "grid_or_raked_local sec row_index seat_index =
     (real seat_index * seat_pitch sec + row_shift sec row_index, real row_index * row_pitch sec)"

text \<open>\<open>section.arc_radius\<close> in a condition: neither null nor zero.\<close>

definition curved :: "real option \<Rightarrow> bool" where
  "curved arc \<longleftrightarrow> (case arc of None \<Rightarrow> False | Some r \<Rightarrow> r \<noteq> 0)"

definition fanned_local :: "real \<Rightarrow> section_layout \<Rightarrow> nat \<Rightarrow> nat \<Rightarrow> nat \<Rightarrow> real \<times> real" where
  "fanned_local arc sec row_index seat_index row_seat_count =
     (let radius = arc + real row_index * row_pitch sec;
          angle_step = (if radius \<noteq> 0 then seat_pitch sec / radius else 0);
          center_offset = (real row_seat_count - 1) / 2;
          theta = (real seat_index - center_offset) * angle_step
      in (radius * sin theta + row_shift sec row_index, radius * cos theta - arc))"

definition rotation_pivot_local :: "section_layout \<Rightarrow> real \<times> real" where
  "rotation_pivot_local sec =
     (if pivot_mode sec = ''origin'' then (0, 0)
      else if pivot_mode sec = ''custom'' then (pivot_x sec, pivot_y sec)
      else (real (seats_per_row sec - 1) * seat_pitch sec / 2, real (shape_rows sec - 1) * row_pitch sec / 2))"

definition pivot_xy :: "section_layout \<Rightarrow> real \<times> real" where
  "pivot_xy sec =
     (origin_x sec + fst (rotation_pivot_local sec), origin_y sec + snd (rotation_pivot_local sec))"

text \<open>The pivot-rotate-translate step that every world position goes through.\<close>

definition to_world :: "section_layout \<Rightarrow> real \<times> real \<Rightarrow> real \<times> real" where
  "to_world sec p =
     (let pivot = rotation_pivot_local sec;
          rel = rotate_by (fst p - fst pivot, snd p - snd pivot) (rotation sec)
      in (origin_x sec + fst pivot + fst rel, origin_y sec + snd pivot + snd rel))"

definition local_at :: "real option \<Rightarrow> section_layout \<Rightarrow> nat \<Rightarrow> nat \<Rightarrow> nat \<Rightarrow> real \<times> real" where
  "local_at arc sec row_index seat_index row_seat_count =
     (if curved arc then fanned_local (the arc) sec row_index seat_index row_seat_count
      else grid_or_raked_local sec row_index seat_index)"

definition seat_xy :: "section_layout \<Rightarrow> nat \<Rightarrow> nat \<Rightarrow> nat \<Rightarrow> real \<times> real" where
  "seat_xy sec row_index seat_index row_seat_count =
     to_world sec (local_at (arc_radius sec) sec row_index seat_index row_seat_count)"

definition front_center_local :: "section_layout \<Rightarrow> nat \<Rightarrow> real option \<Rightarrow> real \<times> real" where
  "front_center_local sec row_seat_count arc =
     (if curved arc then (0, 0) else ((real row_seat_count - 1) / 2 * seat_pitch sec, 0))"

definition front_center_xy :: "section_layout \<Rightarrow> nat \<Rightarrow> real option \<Rightarrow> real \<times> real" where
  "front_center_xy sec row_seat_count arc = to_world sec (front_center_local sec row_seat_count arc)"

text \<open>The center of the bounding box of the uniform block, for a hypothetical radius.\<close>

definition block_locals :: "section_layout \<Rightarrow> real option \<Rightarrow> nat \<Rightarrow> (real \<times> real) list" where
  "block_locals sec arc row_seat_count =
     concat (map (\<lambda>r. map (\<lambda>c. local_at arc sec r c row_seat_count) [0..<row_seat_count]) [0..<shape_rows sec])"

definition shape_center_local :: "section_layout \<Rightarrow> real option \<Rightarrow> nat \<Rightarrow> real \<times> real" where
  "shape_center_local sec arc row_seat_count =
     (let ps = block_locals sec arc row_seat_count; xs = map fst ps; ys = map snd ps
      in if ps = [] then (0, 0)
         else ((Min (set xs) + Max (set xs)) / 2, (Min (set ys) + Max (set ys)) / 2))"

definition shape_center_xy :: "section_layout \<Rightarrow> real option \<Rightarrow> nat \<Rightarrow> real \<times> real" where
  "shape_center_xy sec arc row_seat_count = to_world sec (shape_center_local sec arc row_seat_count)"

definition rebalance_origin_for_arc_change :: "section_layout \<Rightarrow> real option \<Rightarrow> nat \<Rightarrow> real \<times> real" where
  "rebalance_origin_for_arc_change sec new_arc row_seat_count =
     (let before = shape_center_xy sec (arc_radius sec) row_seat_count;
          after = shape_center_xy sec new_arc row_seat_count
      in (origin_x sec + (fst before - fst after), origin_y sec + (snd before - snd after)))"

section \<open>Building the seats\<close>

type_synonym identity = "string \<times> string"

definition seat_identity :: "seat \<Rightarrow> identity" where
  "seat_identity r = (seat_row_label r, seat_number r)"

text \<open>
  \<open>accessible\<close> gives, per row index, the 1-based positions to flag; the identity sets are the
  editor's overrides. The rows are not yet saved, so their key is blank (0).
\<close>

definition build_seat ::
  "section_layout \<Rightarrow> (nat \<Rightarrow> nat list) \<Rightarrow> identity list \<Rightarrow> nat \<Rightarrow> string \<Rightarrow> nat \<Rightarrow> nat \<Rightarrow> nat \<Rightarrow> seat" where
  "build_seat sec accessible accessible_ids row_index label seat_count seat_index number =
     (let xy = seat_xy sec row_index seat_index seat_count
      in \<lparr>seat_pk = 0, seat_organization = section_organization sec, seat_section = section_pk sec,
          seat_row_label = label, seat_number = show_nat number, seat_x = fst xy, seat_y = snd xy,
          seat_is_accessible = (seat_index + 1 \<in> set (accessible row_index) \<or>
                                (label, show_nat number) \<in> set accessible_ids)\<rparr>)"

definition build_row ::
  "section_layout \<Rightarrow> (nat \<Rightarrow> nat list) \<Rightarrow> identity list \<Rightarrow> identity list \<Rightarrow> nat \<Rightarrow> string \<Rightarrow> nat \<Rightarrow> seat list" where
  "build_row sec accessible removed_ids accessible_ids row_index label seat_count =
     map (\<lambda>(i, number). build_seat sec accessible accessible_ids row_index label seat_count i number)
       (filter (\<lambda>(i, number). (label, show_nat number) \<notin> set removed_ids)
         (enumerate 0 (generate_seat_numbers seat_count (numbering_scheme sec) row_index)))"

definition build_seats ::
  "section_layout \<Rightarrow> nat list \<Rightarrow> (nat \<Rightarrow> nat list) \<Rightarrow> identity list \<Rightarrow> identity list \<Rightarrow> seat list" where
  "build_seats sec row_counts accessible removed_ids accessible_ids =
     (let labels = generate_row_labels (length row_counts) (row_label_scheme sec) (row_label_start sec)
      in concat (map (\<lambda>(row_index, label, seat_count).
            build_row sec accessible removed_ids accessible_ids row_index label seat_count)
          (enumerate 0 (zip labels row_counts))))"

section \<open>Writing the seats\<close>

datatype generation_error =
    SectionHasLiveTickets nat
  | SectionHasSeats nat
  | SeatRosterChanged
  | SeatsProtected
  | UniqueSeatPerSection

definition in_section :: "section_layout \<Rightarrow> seat \<Rightarrow> bool" where
  "in_section sec r \<longleftrightarrow> seat_section r = section_pk sec"

text \<open>\<open>section.seats.order_by("row_label", "number")\<close>, which is also the model's default order.\<close>

definition section_seats :: "section_layout \<Rightarrow> db \<Rightarrow> seat list" where
  "section_seats sec s = order_by seat_identity (filter (in_section sec) (db_seats s))"

text \<open>The tickets whose seat is one of these rows (\<open>Ticket.objects.filter(seat__...)\<close>).\<close>

definition ticket_on :: "(seat \<Rightarrow> bool) \<Rightarrow> db \<Rightarrow> ticket \<Rightarrow> bool" where
  "ticket_on P s t \<longleftrightarrow> (\<exists>r\<in>set (db_seats s). P r \<and> tkt_seat t = Some (seat_pk r))"

definition live_tickets_on :: "(seat \<Rightarrow> bool) \<Rightarrow> db \<Rightarrow> ticket list" where
  "live_tickets_on P s = filter (\<lambda>t. live t \<and> ticket_on P s t) (db_tickets s)"

text \<open>
  \<open>Seat.objects.filter(...).delete()\<close>: \<open>OrderItem.seat\<close> is \<open>PROTECT\<close>; the seat rows of holds, the
  house kills and the zone rows cascade; a ticket's and a redemption's seat becomes null.
\<close>

definition clear_ref :: "nat list \<Rightarrow> nat option \<Rightarrow> nat option" where
  "clear_ref gone r = (case r of Some k \<Rightarrow> if k \<in> set gone then None else Some k | None \<Rightarrow> None)"

definition delete_seats :: "(seat \<Rightarrow> bool) \<Rightarrow> db \<Rightarrow> generation_error + db" where
  "delete_seats P s =
     (let gone = map seat_pk (filter P (db_seats s))
      in if \<exists>i\<in>set (db_items s). item_seat i \<in> Some ` set gone then Inl SeatsProtected
         else Inr (s\<lparr>db_seats := delete_rows P (db_seats s),
              db_hold_seats := delete_rows (\<lambda>r. hs_seat r \<in> set gone) (db_hold_seats s),
              db_blocks := delete_rows (\<lambda>r. block_seat r \<in> set gone) (db_blocks s),
              db_zone_seats := delete_rows (\<lambda>r. pzs_seat r \<in> set gone) (db_zone_seats s),
              db_tickets := map (\<lambda>t. t\<lparr>tkt_seat := clear_ref gone (tkt_seat t)\<rparr>) (db_tickets s),
              db_redemptions := map (\<lambda>r. r\<lparr>red_seat := clear_ref gone (red_seat r)\<rparr>) (db_redemptions s)\<rparr>))"

text \<open>\<open>Seat.objects.bulk_create(seats)\<close> under \<open>unique_seat_per_section\<close>.\<close>

definition create_seat :: "seat \<Rightarrow> db \<Rightarrow> generation_error + db" where
  "create_seat r s =
     (if \<exists>x\<in>set (db_seats s). seat_section x = seat_section r \<and> seat_identity x = seat_identity r
      then Inl UniqueSeatPerSection
      else Inr (s\<lparr>db_seats := db_seats s @ [r\<lparr>seat_pk := db_next s\<rparr>], db_next := Suc (db_next s)\<rparr>))"

fun create_seats :: "seat list \<Rightarrow> db \<Rightarrow> generation_error + db" where
  "create_seats [] s = Inr s"
| "create_seats (r # rs) s = bindE (create_seat r s) (create_seats rs)"

definition generate_seats ::
  "section_layout \<Rightarrow> nat list \<Rightarrow> (nat \<Rightarrow> nat list) \<Rightarrow> identity list \<Rightarrow> identity list \<Rightarrow> bool \<Rightarrow> db \<Rightarrow>
     generation_error + (seat list \<times> db)" where
  "generate_seats sec row_counts accessible removed_ids accessible_ids replace s =
     (let existing = section_seats sec s; live_ticket_seats = length (live_tickets_on (in_section sec) s)
      in bindE (if existing = [] then Inr s
                else if live_ticket_seats \<noteq> 0 then Inl (SectionHasLiveTickets live_ticket_seats)
                else if \<not> replace then Inl (SectionHasSeats (length existing))
                else delete_seats (in_section sec) s) (\<lambda>s1.
         bindE (create_seats (build_seats sec row_counts accessible removed_ids accessible_ids) s1) (\<lambda>s2.
         Inr (section_seats sec s2, s2))))"

text \<open>
  \<open>prospective_by_identity\<close> is the dictionary of the built seats: \<open>find_seat\<close> reads it, and the
  rows are distinct by identity, so the first row is the last. The rows found keep their keys.
\<close>

definition find_seat :: "identity \<Rightarrow> seat list \<Rightarrow> seat option" where
  "find_seat k rs = first_row (filter (\<lambda>r. seat_identity r = k) rs)"

definition move_to :: "seat \<Rightarrow> seat \<Rightarrow> seat" where
  "move_to target r =
     r\<lparr>seat_x := seat_x target, seat_y := seat_y target, seat_is_accessible := seat_is_accessible target\<rparr>"

definition reposition_seats ::
  "section_layout \<Rightarrow> nat list \<Rightarrow> identity list \<Rightarrow> identity list \<Rightarrow> db \<Rightarrow> generation_error + (seat list \<times> db)" where
  "reposition_seats sec row_counts removed_ids accessible_ids s =
     (let prospective = build_seats sec row_counts (\<lambda>_. []) removed_ids accessible_ids;
          existing = section_seats sec s
      in if seat_identity ` set prospective \<noteq> seat_identity ` set existing then Inl SeatRosterChanged
         else let s' = s\<lparr>db_seats := update_rows (in_section sec)
                  (\<lambda>r. case find_seat (seat_identity r) prospective of Some t \<Rightarrow> move_to t r | None \<Rightarrow> r)
                  (db_seats s)\<rparr>
              in Inr (section_seats sec s', s'))"

end
