(* ===== verification/Json.thy ===== *)
theory Json
  imports Money Complex_Main
begin

text \<open>
  Decoded JSON as the code reads it (\<open>json.loads\<close>), and the Python conversions it is put through:
  truthiness, \<open>int\<close>, \<open>float\<close>, \<open>str\<close>. A float is a real number, an infinity or a NaN; a decimal
  literal whose magnitude rounds past the largest double is an infinity. \<open>str\<close> of a float, a list or
  a dictionary is not spelled out: it is the parameter \<open>repr\<close> of the definitions that use it.
\<close>

datatype pyfloat = Num real | Inf bool | Nan

datatype json =
    JNull
  | JBool bool
  | JInt int
  | JFloat pyfloat
  | JStr string
  | JList "json list"
  | JDict "(string \<times> json) list"

datatype conversion_error = TypeErr | ValueErr | OverflowErr | AttributeErr

definition too_large :: "real \<Rightarrow> bool" where
  "too_large x \<longleftrightarrow> 2 ^ 1024 - 2 ^ 970 \<le> \<bar>x\<bar>"

definition to_double :: "real \<Rightarrow> pyfloat" where
  "to_double x = (if too_large x then Inf (x < 0) else Num x)"

text \<open>\<open>d.get(key)\<close> and a condition on a value.\<close>

definition dict_get :: "string \<Rightarrow> (string \<times> json) list \<Rightarrow> json" where
  "dict_get k d = (case map_of d k of None \<Rightarrow> JNull | Some v \<Rightarrow> v)"

fun truthy :: "json \<Rightarrow> bool" where
  "truthy JNull = False"
| "truthy (JBool b) = b"
| "truthy (JInt n) = (n \<noteq> 0)"
| "truthy (JFloat x) = (x \<noteq> Num 0)"
| "truthy (JStr s) = (s \<noteq> [])"
| "truthy (JList xs) = (xs \<noteq> [])"
| "truthy (JDict d) = (d \<noteq> [])"

definition truncate_real :: "real \<Rightarrow> int" where
  "truncate_real x = (if 0 \<le> x then \<lfloor>x\<rfloor> else \<lceil>x\<rceil>)"

fun json_int :: "json \<Rightarrow> conversion_error + int" where
  "json_int (JBool b) = Inr (if b then 1 else 0)"
| "json_int (JInt n) = Inr n"
| "json_int (JFloat (Num x)) = Inr (truncate_real x)"
| "json_int (JFloat (Inf _)) = Inl OverflowErr"
| "json_int (JFloat Nan) = Inl ValueErr"
| "json_int (JStr s) = (case py_int s of None \<Rightarrow> Inl ValueErr | Some n \<Rightarrow> Inr n)"
| "json_int _ = Inl TypeErr"

text \<open>Underscores in a numeric literal stand between two digits.\<close>

fun underscores_ok :: "bool \<Rightarrow> string \<Rightarrow> bool" where
  "underscores_ok d [] = True"
| "underscores_ok d (c # r) =
     (if c = CHR ''_'' then d \<and> (case r of x # _ \<Rightarrow> is_digit x | [] \<Rightarrow> False) \<and> underscores_ok False r
      else underscores_ok (is_digit c) r)"

definition float_of_string :: "string \<Rightarrow> pyfloat option" where
  "float_of_string s =
     (let t = strip s; (neg, u) = take_sign (filter (\<lambda>c. c \<noteq> CHR ''_'') t); l = lower u
      in if \<not> underscores_ok False t then None
         else if l = ''inf'' \<or> l = ''infinity'' then Some (Inf neg)
         else if l = ''nan'' then Some Nan
         else (case parse_number neg l of
                 Some (Fin c e) \<Rightarrow> Some (to_double (of_int c * 10 powi e))
               | _ \<Rightarrow> None))"

fun json_float :: "json \<Rightarrow> conversion_error + pyfloat" where
  "json_float (JBool b) = Inr (Num (if b then 1 else 0))"
| "json_float (JInt n) = (if too_large (of_int n) then Inl OverflowErr else Inr (Num (of_int n)))"
| "json_float (JFloat x) = Inr x"
| "json_float (JStr s) = (case float_of_string s of None \<Rightarrow> Inl ValueErr | Some x \<Rightarrow> Inr x)"
| "json_float _ = Inl TypeErr"

definition show_int :: "int \<Rightarrow> string" where
  "show_int n = (if n < 0 then CHR ''-'' # show_nat (nat (- n)) else show_nat (nat n))"

fun json_str :: "(json \<Rightarrow> string) \<Rightarrow> json \<Rightarrow> string" where
  "json_str repr JNull = ''None''"
| "json_str repr (JBool b) = (if b then ''True'' else ''False'')"
| "json_str repr (JInt n) = show_int n"
| "json_str repr (JStr s) = s"
| "json_str repr v = repr v"

text \<open>\<open>str(d.get(key) or "")\<close>\<close>

definition text_or_blank :: "(json \<Rightarrow> string) \<Rightarrow> json \<Rightarrow> string" where
  "text_or_blank repr v = (if truthy v then json_str repr v else '''')"

text \<open>\<open>v in {...}\<close> over a set of strings: an unhashable value raises.\<close>

fun in_string_set :: "string list \<Rightarrow> json \<Rightarrow> conversion_error + bool" where
  "in_string_set xs (JList _) = Inl TypeErr"
| "in_string_set xs (JDict _) = Inl TypeErr"
| "in_string_set xs (JStr s) = Inr (s \<in> set xs)"
| "in_string_set xs _ = Inr False"

text \<open>What \<open>strip\<close> leaves alone.\<close>

lemma strip_between: "\<not> is_space a \<Longrightarrow> \<not> is_space z \<Longrightarrow> strip (a # m @ [z]) = a # m @ [z]"
  by (simp add: strip_def)

lemma strip_stable_iff: "strip s = s \<longleftrightarrow> s = [] \<or> \<not> is_space (hd s) \<and> \<not> is_space (last s)"
proof
  assume e: "strip s = s"
  show "s = [] \<or> \<not> is_space (hd s) \<and> \<not> is_space (last s)"
  proof (cases "s = []")
    case False
    let ?t = "dropWhile is_space s"
    have l: "length (dropWhile is_space (rev ?t)) = length s"
      using arg_cong [OF e, of length] by (simp add: strip_def)
    have "length (dropWhile is_space (rev ?t)) \<le> length ?t" by (metis length_dropWhile_le length_rev)
    moreover have "length ?t \<le> length s" by (rule length_dropWhile_le)
    ultimately have t: "length ?t = length s" using l by linarith
    then have "?t = s" by (metis append_eq_conv_conj dropWhile_eq_drop length_append add_cancel_left_left takeWhile_dropWhile_id length_0_conv append_Nil)
    with False have h: "\<not> is_space (hd s)" by (metis hd_dropWhile)
    from \<open>?t = s\<close> e have "dropWhile is_space (rev s) = rev s" by (metis strip_def rev_rev_ident)
    with False have "\<not> is_space (hd (rev s))" by (metis hd_dropWhile rev_is_Nil_conv)
    with h show ?thesis by (simp add: hd_rev)
  qed simp
next
  assume a: "s = [] \<or> \<not> is_space (hd s) \<and> \<not> is_space (last s)"
  show "strip s = s"
  proof (cases "s = []")
    case False
    with a have "dropWhile is_space s = s" "dropWhile is_space (rev s) = rev s"
      by (metis dropWhile_eq_self_iff, metis dropWhile_eq_self_iff hd_rev)
    then show ?thesis by (simp add: strip_def)
  qed (simp add: strip_def)
qed

end
