(* ===== verification/ChartParsing.thy ===== *)
theory ChartParsing
  imports Seating Json
begin

text \<open>
  From a parsed seating chart to a saved one (venues/chart_parsing.py): \<open>validate_chart_spec\<close>
  normalises whatever JSON the vision model returned, \<open>build_chart_from_spec\<close> creates the sections and
  generates their seats. The call to the model itself is outside; its answer is the \<open>json\<close> argument.
  \<open>repr\<close> is \<open>str\<close> on a float, a list or a dictionary (theory Json). Seats are placed only for finite
  coordinates: a layout with an infinity or a NaN is the explicit outcome \<open>NonFiniteLayout\<close>.
\<close>

definition MAX_ROWS :: int where "MAX_ROWS = 100"
definition MAX_SEATS_PER_ROW :: int where "MAX_SEATS_PER_ROW = 100"
definition MAX_SECTIONS :: nat where "MAX_SECTIONS = 40"

section \<open>Uploads\<close>

definition supported_media_types :: "string list" where
  "supported_media_types = [''image/png'', ''image/jpeg'', ''image/gif'', ''image/webp'', ''application/pdf'']"

definition extension_media_types :: "(string \<times> string) list" where
  "extension_media_types =
     [(''.png'', ''image/png''), (''.jpg'', ''image/jpeg''), (''.jpeg'', ''image/jpeg''),
      (''.gif'', ''image/gif''), (''.webp'', ''image/webp''), (''.pdf'', ''application/pdf'')]"

definition ends_with :: "string \<Rightarrow> string \<Rightarrow> bool" where
  "ends_with s e \<longleftrightarrow> drop (length s - length e) s = e"

definition media_type_for_upload :: "string option \<Rightarrow> string option \<Rightarrow> string option" where
  "media_type_for_upload filename content_type =
     (if content_type \<in> Some ` set supported_media_types then content_type
      else let name = lower (case filename of None \<Rightarrow> '''' | Some f \<Rightarrow> f)
           in map_option snd (first_row (filter (\<lambda>(e, m). ends_with name e) extension_media_types)))"

section \<open>Coercions\<close>

datatype chart_error =
    NotASpec
  | NoSections
  | ChartExists nat
  | ChartHasLiveTickets nat
  | Uncaught conversion_error
  | UniqueSectionName
  | UniqueChartName
  | GenerationFailed generation_error
  | NonFiniteLayout

text \<open>\<open>_clamp_int\<close> and \<open>_as_float\<close> catch \<open>TypeError\<close> and \<open>ValueError\<close>, not \<open>OverflowError\<close>.\<close>

definition clamp_int :: "json \<Rightarrow> int \<Rightarrow> int \<Rightarrow> int \<Rightarrow> chart_error + int" where
  "clamp_int value low high default_value =
     (case json_int value of
        Inr n \<Rightarrow> Inr (max low (min high n))
      | Inl OverflowErr \<Rightarrow> Inl (Uncaught OverflowErr)
      | Inl _ \<Rightarrow> Inr default_value)"

definition as_float :: "json \<Rightarrow> real \<Rightarrow> chart_error + pyfloat" where
  "as_float value default_value =
     (case json_float value of
        Inr x \<Rightarrow> Inr x
      | Inl OverflowErr \<Rightarrow> Inl (Uncaught OverflowErr)
      | Inl _ \<Rightarrow> Inr (Num default_value))"

definition seat_identity_list :: "(json \<Rightarrow> string) \<Rightarrow> json \<Rightarrow> identity list" where
  "seat_identity_list repr value =
     (case value of
        JList entries \<Rightarrow>
          concat (map (\<lambda>entry. case entry of JList [a, b] \<Rightarrow> [(json_str repr a, json_str repr b)] | _ \<Rightarrow> []) entries)
      | _ \<Rightarrow> [])"

section \<open>The section spec\<close>

record section_spec =
  sp_name :: string
  sp_tier :: string
  sp_rows :: int
  sp_seats_per_row :: int
  sp_origin_x :: pyfloat
  sp_origin_y :: pyfloat
  sp_rotation :: pyfloat
  sp_seat_pitch :: pyfloat
  sp_row_pitch :: pyfloat
  sp_arc_radius :: "pyfloat option"
  sp_offset_mode :: string
  sp_row_x_offset :: pyfloat
  sp_alt_row_seat_delta :: int
  sp_numbering_scheme :: string
  sp_row_label_scheme :: string
  sp_row_label_start :: int
  sp_removed_seats :: "identity list"
  sp_accessible_seats :: "identity list"
  sp_row_alignment :: string

record chart_spec =
  cs_chart_name :: string
  cs_sections :: "section_spec list"

text \<open>
  \<open>max(-2.0, min(2.0, x))\<close>: a comparison with a NaN is false, so the bound stays. A finite
  negated pitch times a slope is IEEE multiplication: zero times an infinity is a NaN.
\<close>

definition cap_offset :: "pyfloat \<Rightarrow> real" where
  "cap_offset x = (case x of Num r \<Rightarrow> max (-2) (min 2 r) | Inf neg \<Rightarrow> (if neg then -2 else 2) | Nan \<Rightarrow> 2)"

definition times_real :: "pyfloat \<Rightarrow> real \<Rightarrow> pyfloat" where
  "times_real x r =
     (case x of
        Num a \<Rightarrow> Num (a * r)
      | Inf neg \<Rightarrow> (if r = 0 then Nan else Inf (neg \<noteq> (r < 0)))
      | Nan \<Rightarrow> Nan)"

text \<open>The row widths that \<open>removed_seats\<close> implies, the occupied rows, and \<open>max(key=(width, index))\<close>.\<close>

definition row_widths :: "section_spec \<Rightarrow> int list" where
  "row_widths spec =
     map (\<lambda>label. max 0 (sp_seats_per_row spec - int (length (filter (\<lambda>p. fst p = label) (sp_removed_seats spec)))))
       (generate_row_labels (nat (sp_rows spec)) (sp_row_label_scheme spec) (nat (sp_row_label_start spec)))"

definition occupied_rows :: "section_spec \<Rightarrow> (nat \<times> int) list" where
  "occupied_rows spec = filter (\<lambda>(i, w). 0 < w) (enumerate 0 (row_widths spec))"

definition widest_row :: "(nat \<times> int) list \<Rightarrow> nat \<times> int" where
  "widest_row ps = fold (\<lambda>p best. if (snd best, fst best) < (snd p, fst p) then p else best) (tl ps) (hd ps)"

definition derived_center_offset :: "section_spec \<Rightarrow> pyfloat" where
  "derived_center_offset spec =
     (let occupied = occupied_rows spec
      in if sp_offset_mode spec = ''alternating'' \<or> length occupied < 2 then Num 0
         else let (first_index, first_width) = hd occupied;
                  widest = widest_row occupied;
                  (anchor_index, anchor_width) = (if fst widest = first_index then last occupied else widest);
                  slope = real_of_int (anchor_width - first_width) / (real anchor_index - real first_index);
                  fitting = length (filter (\<lambda>(i, w).
                      \<bar>real_of_int w - (real_of_int first_width + slope * (real i - real first_index))\<bar> \<le> 1.25) occupied)
              in if real fitting < 0.75 * real (length occupied) then Num 0
                 else Num (cap_offset (times_real (sp_seat_pitch spec) (- slope / 2))))"

section \<open>Unique names\<close>

definition numbered_name :: "string \<Rightarrow> nat \<Rightarrow> string" where
  "numbered_name base suffix = base @ '' ('' @ show_nat suffix @ '')''"

text \<open>The names the loop may still run into, and why each turn leaves fewer of them.\<close>

definition clashes :: "string list \<Rightarrow> string \<Rightarrow> nat \<Rightarrow> nat set" where
  "clashes seen base suffix = {k. suffix \<le> k \<and> lower (numbered_name base k) \<in> set seen}"

lemma lower_digits: "list_all is_digit s \<Longrightarrow> lower s = s"
  by (auto simp: lower_def list_all_iff lower_char_def is_digit_def intro!: map_idI)

lemma lower_numbered: "lower (numbered_name base k) = numbered_name (lower base) k"
proof -
  have "lower '' (''  = '' (''" "lower '')'' = '')''" by code_simp+
  with lower_digits [of "show_nat k"] show_nat_digits [of k] show ?thesis
    by (simp add: numbered_name_def lower_def)
qed

lemma numbered_name_inj: "numbered_name b j = numbered_name b k \<Longrightarrow> j = k"
  by (simp add: numbered_name_def)

lemma clashes_finite [simp]: "finite (clashes seen base suffix)"
proof (rule finite_imageD)
  let ?f = "\<lambda>k. lower (numbered_name base k)"
  have "?f ` clashes seen base suffix \<subseteq> set seen" by (auto simp: clashes_def)
  then show "finite (?f ` clashes seen base suffix)" by (rule finite_subset) simp
  show "inj_on ?f (clashes seen base suffix)"
    by (auto simp: inj_on_def lower_numbered dest: numbered_name_inj)
qed

lemma clashes_card: "card (clashes seen base suffix) \<le> length seen"
proof -
  let ?f = "\<lambda>k. lower (numbered_name base k)"
  have "inj_on ?f (clashes seen base suffix)"
    by (auto simp: inj_on_def lower_numbered dest: numbered_name_inj)
  then have "card (clashes seen base suffix) = card (?f ` clashes seen base suffix)"
    by (rule card_image [symmetric])
  also have "\<dots> \<le> card (set seen)" by (rule card_mono) (auto simp: clashes_def)
  also have "\<dots> \<le> length seen" by (rule card_length)
  finally show ?thesis .
qed

lemma clashes_Suc:
  "clashes seen base suffix =
     (if lower (numbered_name base suffix) \<in> set seen then insert suffix (clashes seen base (Suc suffix))
      else clashes seen base (Suc suffix))"
  by (auto simp: clashes_def Suc_le_eq le_less)

function uniquify :: "string list \<Rightarrow> string \<Rightarrow> nat \<Rightarrow> string \<Rightarrow> string" where
  "uniquify seen base suffix name =
     (if lower name \<in> set seen then uniquify seen base (Suc suffix) (numbered_name base suffix) else name)"
  by pat_completeness auto

termination
proof (relation "measure (\<lambda>(seen, base, suffix, name).
    card (clashes seen base suffix) + (if lower name \<in> set seen then 1 else 0))")
  fix seen base name :: _ and suffix :: nat
  assume "lower name \<in> set seen"
  moreover have "suffix \<notin> clashes seen base (Suc suffix)" by (simp add: clashes_def)
  ultimately show "((seen, base, Suc suffix, numbered_name base suffix), seen, base, suffix, name)
      \<in> measure (\<lambda>(seen, base, suffix, name).
          card (clashes seen base suffix) + (if lower name \<in> set seen then 1 else 0))"
    using clashes_Suc [of seen base suffix] by simp
qed simp

declare uniquify.simps [simp del]


section \<open>Validation\<close>

definition choice_or :: "string list \<Rightarrow> json \<Rightarrow> string \<Rightarrow> chart_error + string" where
  "choice_or values v default_value =
     (case in_string_set values v of
        Inl e \<Rightarrow> Inl (Uncaught e)
      | Inr ok \<Rightarrow> Inr (case v of JStr s \<Rightarrow> if ok then s else default_value | _ \<Rightarrow> default_value))"

definition or_one :: "pyfloat \<Rightarrow> pyfloat" where
  "or_one x = (if x = Num 0 then Num 1 else x)"

text \<open>A radius that is zero or negative counts as none (a NaN is neither).\<close>

definition clean_arc :: "json \<Rightarrow> chart_error + pyfloat option" where
  "clean_arc v =
     (if v = JNull then Inr None
      else bindE (as_float v 0) (\<lambda>r.
        Inr (case r of Num x \<Rightarrow> if x \<le> 0 then None else Some r
             | Inf neg \<Rightarrow> if neg then None else Some r | Nan \<Rightarrow> Some r)))"

definition with_center_offset :: "section_spec \<Rightarrow> section_spec" where
  "with_center_offset spec =
     (if sp_row_alignment spec = ''center'' \<and> sp_row_x_offset spec = Num 0
      then spec\<lparr>sp_row_x_offset := derived_center_offset spec\<rparr> else spec)"

definition section_name_of :: "(json \<Rightarrow> string) \<Rightarrow> nat \<Rightarrow> string list \<Rightarrow> (string \<times> json) list \<Rightarrow> string" where
  "section_name_of repr index seen raw =
     (let stated = strip (text_or_blank repr (dict_get ''name'' raw));
          name = (if stated \<noteq> [] then stated else ''Section '' @ show_nat (index + 1))
      in uniquify seen name 2 name)"

definition validate_section ::
  "(json \<Rightarrow> string) \<Rightarrow> string \<Rightarrow> (string \<times> json) list \<Rightarrow> chart_error + section_spec" where
  "validate_section repr name raw =
     bindE (clean_arc (dict_get ''arc_radius'' raw)) (\<lambda>arc.
     bindE (clamp_int (dict_get ''rows'' raw) 1 MAX_ROWS 4) (\<lambda>rws.
     bindE (clamp_int (dict_get ''seats_per_row'' raw) 1 MAX_SEATS_PER_ROW 8) (\<lambda>per_row.
     bindE (as_float (dict_get ''origin_x'' raw) 0) (\<lambda>ox.
     bindE (as_float (dict_get ''origin_y'' raw) 0) (\<lambda>oy.
     bindE (as_float (dict_get ''rotation'' raw) 0) (\<lambda>rot.
     bindE (as_float (dict_get ''seat_pitch'' raw) 1) (\<lambda>sp.
     bindE (as_float (dict_get ''row_pitch'' raw) 1) (\<lambda>rp.
     bindE (choice_or offset_values (dict_get ''offset_mode'' raw) ''repeated'') (\<lambda>mode.
     bindE (as_float (dict_get ''row_x_offset'' raw) 0) (\<lambda>shift.
     bindE (clamp_int (dict_get ''alt_row_seat_delta'' raw) (- MAX_SEATS_PER_ROW) MAX_SEATS_PER_ROW 0) (\<lambda>delta.
     bindE (choice_or numbering_values (dict_get ''numbering_scheme'' raw) ''sequential'') (\<lambda>numbering.
     bindE (choice_or row_label_values (dict_get ''row_label_scheme'' raw) ''skip_io'') (\<lambda>labels.
     bindE (clamp_int (dict_get ''row_label_start'' raw) 0 (2 * MAX_ROWS) 0) (\<lambda>start.
     Inr (with_center_offset \<lparr>sp_name = take 255 name,
        sp_tier = take 100 (text_or_blank repr (dict_get ''tier'' raw)),
        sp_rows = rws, sp_seats_per_row = per_row, sp_origin_x = ox, sp_origin_y = oy, sp_rotation = rot,
        sp_seat_pitch = or_one sp, sp_row_pitch = or_one rp, sp_arc_radius = arc, sp_offset_mode = mode,
        sp_row_x_offset = shift, sp_alt_row_seat_delta = delta, sp_numbering_scheme = numbering,
        sp_row_label_scheme = labels, sp_row_label_start = start,
        sp_removed_seats = seat_identity_list repr (dict_get ''removed_seats'' raw),
        sp_accessible_seats = seat_identity_list repr (dict_get ''accessible_seats'' raw),
        sp_row_alignment =
          (if dict_get ''row_alignment'' raw = JStr ''center'' then ''center'' else ''edge'')\<rparr>)))))))))))))))"

fun validate_sections ::
  "(json \<Rightarrow> string) \<Rightarrow> nat \<Rightarrow> string list \<Rightarrow> json list \<Rightarrow> chart_error + section_spec list" where
  "validate_sections repr index seen [] = Inr []"
| "validate_sections repr index seen (JDict raw # rest) =
     (let name = section_name_of repr index seen raw
      in bindE (validate_section repr name raw) (\<lambda>spec.
         bindE (validate_sections repr (Suc index) (lower name # seen) rest) (\<lambda>specs.
         Inr (spec # specs))))"
| "validate_sections repr index seen (_ # rest) = validate_sections repr (Suc index) seen rest"

definition validate_chart_spec :: "(json \<Rightarrow> string) \<Rightarrow> json \<Rightarrow> chart_error + chart_spec" where
  "validate_chart_spec repr spec =
     (case spec of
        JDict d \<Rightarrow>
          (case dict_get ''sections'' d of
             JList raw_sections \<Rightarrow>
               if raw_sections = [] then Inl NoSections
               else bindE (validate_sections repr 0 [] (take MAX_SECTIONS raw_sections)) (\<lambda>sections.
                    if sections = [] then Inl NoSections
                    else let name = strip (text_or_blank repr (dict_get ''chart_name'' d))
                         in Inr \<lparr>cs_chart_name = take 255 (if name \<noteq> [] then name else ''Parsed chart''),
                                 cs_sections = sections\<rparr>)
           | _ \<Rightarrow> Inl NoSections)
      | _ \<Rightarrow> Inl NotASpec)"


section \<open>From the spec to the chart\<close>

definition finite_part :: "pyfloat \<Rightarrow> real option" where
  "finite_part x = (case x of Num r \<Rightarrow> Some r | _ \<Rightarrow> None)"

definition finite_spec :: "section_spec \<Rightarrow> bool" where
  "finite_spec spec \<longleftrightarrow>
     list_all (\<lambda>x. finite_part x \<noteq> None)
       ([sp_origin_x spec, sp_origin_y spec, sp_rotation spec, sp_seat_pitch spec, sp_row_pitch spec, sp_row_x_offset spec] @
        (case sp_arc_radius spec of None \<Rightarrow> [] | Some r \<Rightarrow> [r]))"

text \<open>The fields copied from the spec; the others keep the model's defaults. The key is stamped on creation.\<close>

definition layout_of_spec :: "seating_chart \<Rightarrow> nat \<Rightarrow> section_spec \<Rightarrow> section_layout" where
  "layout_of_spec chart position spec =
     (let real_of = (\<lambda>x. the (finite_part x))
      in \<lparr>section_pk = 0, section_organization = chart_organization chart, section_chart = chart_pk chart,
          section_name = sp_name spec, section_ordering = int position, section_tier = sp_tier spec,
          origin_x = real_of (sp_origin_x spec), origin_y = real_of (sp_origin_y spec),
          rotation = real_of (sp_rotation spec), seat_pitch = real_of (sp_seat_pitch spec),
          row_pitch = real_of (sp_row_pitch spec), row_x_offset = real_of (sp_row_x_offset spec),
          offset_mode = sp_offset_mode spec, alt_row_seat_delta = sp_alt_row_seat_delta spec,
          arc_radius = map_option real_of (sp_arc_radius spec),
          pivot_mode = ''center'', pivot_x = 0, pivot_y = 0,
          shape_rows = nat (sp_rows spec), seats_per_row = nat (sp_seats_per_row spec),
          removed_seats = sp_removed_seats spec, accessible_seats = sp_accessible_seats spec,
          numbering_scheme = sp_numbering_scheme spec, row_label_scheme = sp_row_label_scheme spec,
          row_label_start = nat (sp_row_label_start spec)\<rparr>)"

text \<open>\<open>Section.objects.create\<close> under \<open>unique_section_name_per_chart\<close>, and the chart's creation.\<close>

definition create_section :: "section_layout \<Rightarrow> db \<Rightarrow> chart_error + (section_layout \<times> db)" where
  "create_section sec s =
     (if \<exists>x\<in>set (db_sections s). section_chart x = section_chart sec \<and> section_name x = section_name sec
      then Inl UniqueSectionName
      else let sec' = sec\<lparr>section_pk := db_next s\<rparr>
           in Inr (sec', s\<lparr>db_sections := db_sections s @ [section_row.truncate sec'], db_next := Suc (db_next s)\<rparr>))"

definition create_chart :: "seating_chart \<Rightarrow> db \<Rightarrow> chart_error + (seating_chart \<times> db)" where
  "create_chart chart s =
     (if \<exists>x\<in>set (db_charts s). chart_venue x = chart_venue chart \<and> chart_name x = chart_name chart
      then Inl UniqueChartName
      else let chart' = chart\<lparr>chart_pk := db_next s\<rparr>
           in Inr (chart', s\<lparr>db_charts := db_charts s @ [chart'], db_next := Suc (db_next s)\<rparr>))"

text \<open>
  \<open>chart.sections.all().delete()\<close>: seats and price tiers cascade, and with a tier its
  general-admission holds; a tier that a held seat or an order item names is protected.
\<close>

definition delete_sections :: "(section_row \<Rightarrow> bool) \<Rightarrow> db \<Rightarrow> chart_error + db" where
  "delete_sections P s =
     (let gone = map section_pk (filter P (db_sections s));
          tiers = Some ` set (map tier_pk (filter (\<lambda>t. tier_section t \<in> Some ` set gone) (db_tiers s)))
      in if (\<exists>r\<in>set (db_hold_seats s). hs_price_tier r \<in> tiers) \<or> (\<exists>i\<in>set (db_items s). item_price_tier i \<in> tiers)
         then Inl (GenerationFailed SeatsProtected)
         else case delete_seats (\<lambda>r. seat_section r \<in> set gone) s of
                Inl e \<Rightarrow> Inl (GenerationFailed e)
              | Inr s1 \<Rightarrow> (let s2 = delete_holds (\<lambda>h. hold_price_tier h \<in> tiers) s1
                  in Inr (s2\<lparr>db_sections := delete_rows P (db_sections s2),
                             db_tiers := delete_rows (\<lambda>t. tier_section t \<in> Some ` set gone) (db_tiers s2)\<rparr>)))"

definition on_chart :: "nat \<Rightarrow> db \<Rightarrow> seat \<Rightarrow> bool" where
  "on_chart chart s r \<longleftrightarrow> (\<exists>sec\<in>set (db_sections s). section_pk sec = seat_section r \<and> section_chart sec = chart)"

text \<open>The chart to write into: the existing one, emptied, or a new one (also chart_io's first half).\<close>

definition target_chart :: "nat \<Rightarrow> nat \<Rightarrow> string \<Rightarrow> bool \<Rightarrow> db \<Rightarrow> chart_error + (seating_chart \<times> db)" where
  "target_chart organization venue name replace s =
     (case first_row (filter (\<lambda>c. chart_organization c = organization \<and> chart_venue c = venue \<and> chart_name c = name) (db_charts s)) of
        Some existing \<Rightarrow>
          (let live_ticket_seats = length (live_tickets_on (on_chart (chart_pk existing) s) s)
           in if \<not> replace then Inl (ChartExists (chart_pk existing))
              else if live_ticket_seats \<noteq> 0 then Inl (ChartHasLiveTickets live_ticket_seats)
              else bindE (delete_sections (\<lambda>x. section_chart x = chart_pk existing) s) (\<lambda>s1. Inr (existing, s1)))
      | None \<Rightarrow> create_chart \<lparr>chart_pk = 0, chart_organization = organization, chart_venue = venue, chart_name = name\<rparr> s)"

definition build_section :: "seating_chart \<Rightarrow> nat \<Rightarrow> section_spec \<Rightarrow> db \<Rightarrow> chart_error + (section_layout \<times> db)" where
  "build_section chart position spec s =
     (if \<not> finite_spec spec then Inl NonFiniteLayout
      else bindE (create_section (layout_of_spec chart position spec) s) (\<lambda>(sec, s1).
        let counts = compute_row_counts (shape_rows sec) (seats_per_row sec) (offset_mode sec) (alt_row_seat_delta sec)
        in case generate_seats sec counts (\<lambda>_. []) (removed_seats sec) (accessible_seats sec) False s1 of
             Inl e \<Rightarrow> Inl (GenerationFailed e)
           | Inr (_, s2) \<Rightarrow> Inr (sec, s2)))"

fun build_sections :: "seating_chart \<Rightarrow> nat \<Rightarrow> section_spec list \<Rightarrow> db \<Rightarrow> chart_error + (section_layout list \<times> db)" where
  "build_sections chart position [] s = Inr ([], s)"
| "build_sections chart position (spec # specs) s =
     bindE (build_section chart position spec s) (\<lambda>(sec, s1).
     bindE (build_sections chart (Suc position) specs s1) (\<lambda>(secs, s2). Inr (sec # secs, s2)))"

definition build_chart_from_spec ::
  "(json \<Rightarrow> string) \<Rightarrow> nat \<Rightarrow> nat \<Rightarrow> json \<Rightarrow> string \<Rightarrow> bool \<Rightarrow> db \<Rightarrow> chart_error + (seating_chart \<times> section_layout list \<times> db)" where
  "build_chart_from_spec repr organization venue spec name replace s =
     bindE (validate_chart_spec repr spec) (\<lambda>cs.
     let given = take 255 (strip (if name \<noteq> [] then name else cs_chart_name cs));
         chart_name = (if given \<noteq> [] then given else ''Parsed chart'')
     in bindE (target_chart organization venue chart_name replace s) (\<lambda>(chart, s1).
        bindE (build_sections chart 0 (cs_sections cs) s1) (\<lambda>(secs, s2). Inr (chart, secs, s2))))"

end
