(* ===== verification/SeatingFacts.thy ===== *)
theory SeatingFacts
  imports Seating Fixture "HOL-Library.Multiset"
begin

text \<open>
  What seat generation guarantees: row labels and seat numbers identify a seat of the section, the
  generated rows satisfy the table's uniqueness constraint, repositioning and regenerating give the
  same chart, and the rotation about the pivot is a rigid motion that leaves the pivot in place.
\<close>

section \<open>Labels and numbers\<close>

lemma row_letters_ok [simp]: "distinct (row_letters scheme)" "row_letters scheme \<noteq> []"
proof -
  have "distinct ascii_uppercase" "distinct base_letters_skip_io" "ascii_uppercase \<noteq> []" "base_letters_skip_io \<noteq> []"
    by code_simp+
  then show "distinct (row_letters scheme)" "row_letters scheme \<noteq> []"
    by (simp_all add: row_letters_def)
qed

lemma replicate_eq_iff: "replicate (Suc m) a = replicate (Suc n) b \<longleftrightarrow> m = n \<and> a = b"
  by (metis length_replicate nth_replicate old.nat.inject zero_less_Suc)

lemma row_label_inj:
  assumes "distinct letters" "letters \<noteq> []" "row_label letters i = row_label letters j"
  shows "i = j"
proof -
  have e: "i div length letters = j div length letters"
    "letters ! (i mod length letters) = letters ! (j mod length letters)"
    using assms(3) by (auto simp: row_label_def replicate_eq_iff simp del: replicate_Suc)
  have "i mod length letters = j mod length letters"
    using e(2) assms(1,2) by (simp add: nth_eq_iff_index_eq)
  with e(1) show ?thesis by (metis div_mult_mod_eq)
qed

lemma distinct_row_labels: "distinct (generate_row_labels n scheme start)"
  using row_label_inj [OF row_letters_ok] by (simp add: generate_row_labels_def distinct_map inj_on_def)

lemma length_row_labels [simp]: "length (generate_row_labels n scheme start) = n"
  by (simp add: generate_row_labels_def)

lemma distinct_seat_numbers: "distinct (generate_seat_numbers n scheme r)"
proof -
  have "inj_on (\<lambda>i. 2 * (n - i) - 1) {0..<n}" by (rule inj_onI) (simp add: atLeastLessThan_iff)
  moreover have "inj_on (\<lambda>i. 2 * (i + 1)) {0..<n}" "inj_on (\<lambda>i. (r + 1) * 100 + i + 1) {0..<n}"
    "inj_on (\<lambda>i. 100 + i + 1) {0..<n}" "inj_on (\<lambda>i. i + 1) {0..<n}"
    by (simp_all add: inj_on_def)
  ultimately show ?thesis by (simp only: generate_seat_numbers_def distinct_map split: if_split) simp
qed

lemma length_seat_numbers [simp]: "length (generate_seat_numbers n scheme r) = n"
  by (simp add: generate_seat_numbers_def)

section \<open>The built rows\<close>

lemma seat_identity_build [simp]:
  "seat_identity (build_seat sec acc ids r label n i k) = (label, show_nat k)"
  "seat_section (build_seat sec acc ids r label n i k) = section_pk sec"
  "seat_organization (build_seat sec acc ids r label n i k) = section_organization sec"
  by (simp_all add: seat_identity_def build_seat_def Let_def)

lemma distinct_map_filter_snd:
  "distinct (map snd ps) \<Longrightarrow> inj f \<Longrightarrow> distinct (map (\<lambda>p. f (snd p)) (filter P ps))"
  by (induction ps) (auto simp: inj_def)

lemma row_identities: "distinct (map seat_identity (build_row sec acc rm ids r label n))"
proof -
  have "inj (\<lambda>k. (label, show_nat k))" by (simp add: inj_def show_nat_inj)
  from distinct_map_filter_snd [OF _ this, of "enumerate 0 (generate_seat_numbers n (numbering_scheme sec) r)"]
  show ?thesis
    by (simp add: build_row_def comp_def case_prod_unfold distinct_seat_numbers)
qed

lemma row_members:
  "x \<in> set (build_row sec acc rm ids r label n) \<Longrightarrow> seat_row_label x = label \<and> seat_section x = section_pk sec"
  by (auto simp: build_row_def build_seat_def Let_def)

lemma distinct_concat_labelled:
  assumes "distinct (map f ps)"
    and "\<And>p. p \<in> set ps \<Longrightarrow> distinct (map g (h p))"
    and "\<And>p x. p \<in> set ps \<Longrightarrow> x \<in> set (h p) \<Longrightarrow> fst (g x) = f p"
  shows "distinct (map g (concat (map h ps)))"
  using assms
proof (induction ps)
  case (Cons p ps)
  have l: "fst y = f p" if "y \<in> g ` set (h p)" for y using Cons.prems(3) [of p] that by auto
  have r: "fst y \<in> f ` set ps" if y: "y \<in> g ` set (concat (map h ps))" for y
  proof -
    from y obtain q x where "q \<in> set ps" "x \<in> set (h q)" "y = g x" by auto
    then show ?thesis using Cons.prems(3) [of q x] by simp
  qed
  have "f p \<notin> f ` set ps" using Cons.prems(1) by simp
  then have "g ` set (h p) \<inter> g ` set (concat (map h ps)) = {}"
    using l r by (metis disjoint_iff)
  moreover have "distinct (map g (concat (map h ps)))"
    by (rule Cons.IH) (use Cons.prems in auto)
  moreover have "distinct (map g (h p))" by (rule Cons.prems(2)) simp
  ultimately show ?case by simp
qed simp

lemma build_identities: "distinct (map seat_identity (build_seats sec counts acc rm ids))"
  unfolding build_seats_def Let_def
proof (rule distinct_concat_labelled [where f = "\<lambda>p. fst (snd p)"])
  show "distinct (map (\<lambda>p. fst (snd p)) (enumerate 0
          (zip (generate_row_labels (length counts) (row_label_scheme sec) (row_label_start sec)) counts)))"
    by (simp add: comp_def [of fst snd, symmetric] map_map [symmetric] distinct_row_labels del: map_map)
next
  fix p :: "nat \<times> string \<times> nat"
  show "distinct (map seat_identity (case p of (r, label, n) \<Rightarrow> build_row sec acc rm ids r label n))"
    by (cases p) (simp add: row_identities)
next
  fix p x assume "x \<in> set (case p of (r, label, n) \<Rightarrow> build_row sec acc rm ids r label n)"
  then show "fst (seat_identity x) = fst (snd p)"
    by (cases p) (auto simp: seat_identity_def dest: row_members)
qed

lemma build_section: "list_all (in_section sec) (build_seats sec counts acc rm ids)"
  by (auto simp: list_all_iff build_seats_def in_section_def Let_def dest: row_members)


section \<open>Writing the rows\<close>

text \<open>The part of a row that its layout decides, everything but its key.\<close>

definition placement :: "seat \<Rightarrow> identity \<times> real \<times> real \<times> bool" where
  "placement r = (seat_identity r, seat_x r, seat_y r, seat_is_accessible r)"

text \<open>\<open>unique_seat_per_section\<close> as a property of the table.\<close>

definition unique_seats :: "db \<Rightarrow> bool" where
  "unique_seats s \<longleftrightarrow> distinct (map (\<lambda>r. (seat_section r, seat_identity r)) (db_seats s))"

lemma unique_seats_section: "unique_seats s \<Longrightarrow> distinct (map seat_identity (filter (in_section sec) (db_seats s)))"
  by (auto simp: unique_seats_def distinct_map inj_on_def in_section_def)

fun stamp :: "nat \<Rightarrow> seat list \<Rightarrow> seat list" where
  "stamp k [] = []"
| "stamp k (r # rs) = r\<lparr>seat_pk := k\<rparr> # stamp (Suc k) rs"

lemma placement_stamp [simp]: "map placement (stamp k rs) = map placement rs"
  by (induction k rs rule: stamp.induct) (simp_all add: placement_def seat_identity_def)

lemma in_section_stamp: "list_all (in_section sec) rs \<Longrightarrow> list_all (in_section sec) (stamp k rs)"
  by (induction k rs rule: stamp.induct) (simp_all add: in_section_def)

lemma create_seats_ok:
  assumes "list_all (in_section sec) rs" "distinct (map seat_identity rs)"
    and "\<forall>x\<in>set (db_seats s). in_section sec x \<longrightarrow> seat_identity x \<notin> seat_identity ` set rs"
  shows "create_seats rs s =
     Inr (s\<lparr>db_seats := db_seats s @ stamp (db_next s) rs, db_next := db_next s + length rs\<rparr>)"
  using assms
proof (induction rs arbitrary: s)
  case (Cons r rs)
  let ?s = "s\<lparr>db_seats := db_seats s @ [r\<lparr>seat_pk := db_next s\<rparr>], db_next := Suc (db_next s)\<rparr>"
  have "create_seat r s = Inr ?s"
    using Cons.prems by (auto simp: create_seat_def in_section_def)
  moreover have "create_seats rs ?s =
     Inr (?s\<lparr>db_seats := db_seats ?s @ stamp (db_next ?s) rs, db_next := db_next ?s + length rs\<rparr>)"
    by (rule Cons.IH) (use Cons.prems in \<open>auto simp: in_section_def seat_identity_def\<close>)
  ultimately show ?case by simp
qed simp

lemma seat_identity_placement: "seat_identity r = fst (placement r)"
  by (simp add: placement_def)

lemma sort_by_identity:
  "map placement (order_by seat_identity rs) = sort_key fst (map placement rs)"
proof (induction rs)
  case (Cons r rs)
  have "map placement (insort_key seat_identity r xs) = insort_key fst (placement r) (map placement xs)" for xs
    by (induction xs) (auto simp: seat_identity_placement)
  with Cons show ?case by (simp add: order_by_def)
qed (simp add: order_by_def)

lemma sort_key_set_eq:
  assumes "set xs = set ys" "distinct (map f xs)" "distinct (map f ys)"
  shows "sort_key f xs = sort_key f ys"
proof (rule sort_key_inj_key_eq)
  show "mset xs = mset (sort_key f ys)"
    using assms by (simp add: distinct_map set_eq_iff_mset_eq_distinct)
  show "inj_on f (set xs)" using assms(2) by (simp add: distinct_map)
  show "sorted (map f (sort_key f ys))" by simp
qed

lemma section_after_create:
  assumes "list_all (in_section sec) rs" "\<forall>x\<in>set (db_seats s). \<not> in_section sec x"
  shows "map placement (section_seats sec (s\<lparr>db_seats := db_seats s @ stamp k rs, db_next := m\<rparr>)) =
     sort_key fst (map placement rs)"
proof -
  have "filter (in_section sec) (db_seats s @ stamp k rs) = stamp k rs"
    using assms in_section_stamp [OF assms(1), of k] by (simp add: filter_id_conv list_all_iff)
  then show ?thesis by (simp add: section_seats_def sort_by_identity)
qed

lemma section_seats_empty: "section_seats sec s = [] \<longleftrightarrow> (\<forall>x\<in>set (db_seats s). \<not> in_section sec x)"
  by (metis (no_types, lifting) section_seats_def order_by_def filter_empty_conv set_empty set_sort)

lemma delete_seats_rows:
  "delete_seats P s = Inr s' \<Longrightarrow> db_seats s' = delete_rows P (db_seats s)"
  by (auto simp: delete_seats_def Let_def split: if_splits)

text \<open>Once the old rows are gone, creating the built rows cannot fail.\<close>

lemma create_built:
  assumes "\<forall>x\<in>set (db_seats s). \<not> in_section sec x"
  shows "create_seats (build_seats sec counts acc rm ids) s =
     Inr (s\<lparr>db_seats := db_seats s @ stamp (db_next s) (build_seats sec counts acc rm ids),
            db_next := db_next s + length (build_seats sec counts acc rm ids)\<rparr>)"
  by (rule create_seats_ok [OF build_section build_identities]) (use assms in auto)

text \<open>The state the rows are created in: the old one, or the old one without the section's rows.\<close>

definition cleared :: "section_layout \<Rightarrow> db \<Rightarrow> generation_error + db" where
  "cleared sec s = (if section_seats sec s = [] then Inr s else delete_seats (in_section sec) s)"

lemma cleared_rows: "cleared sec s = Inr s1 \<Longrightarrow> \<forall>x\<in>set (db_seats s1). \<not> in_section sec x"
  by (auto simp: cleared_def section_seats_empty dest: delete_seats_rows split: if_splits)

lemma generate_seats_Inr:
  "generate_seats sec counts acc rm ids rep s = Inr (rs, s') \<longleftrightarrow>
     (section_seats sec s = [] \<or> rep \<and> live_tickets_on (in_section sec) s = []) \<and>
     (\<exists>s1. cleared sec s = Inr s1 \<and>
        s' = s1\<lparr>db_seats := db_seats s1 @ stamp (db_next s1) (build_seats sec counts acc rm ids),
                db_next := db_next s1 + length (build_seats sec counts acc rm ids)\<rparr> \<and>
        rs = section_seats sec s')" (is "?L \<longleftrightarrow> ?R")
proof -
  have "?L \<longleftrightarrow> (section_seats sec s = [] \<or> rep \<and> live_tickets_on (in_section sec) s = []) \<and>
      (\<exists>s1. cleared sec s = Inr s1 \<and> create_seats (build_seats sec counts acc rm ids) s1 = Inr s' \<and>
         rs = section_seats sec s')"
    by (auto simp: generate_seats_def cleared_def Let_def)
  then show ?thesis using create_built [OF cleared_rows] by (metis Inr_inject)
qed

lemma generated_placements:
  assumes "generate_seats sec counts acc rm ids rep s = Inr (rs, s')"
  shows "map placement rs = sort_key fst (map placement (build_seats sec counts acc rm ids))"
proof -
  from assms obtain s1 where "cleared sec s = Inr s1"
    and s': "s' = s1\<lparr>db_seats := db_seats s1 @ stamp (db_next s1) (build_seats sec counts acc rm ids),
                db_next := db_next s1 + length (build_seats sec counts acc rm ids)\<rparr>"
    and "rs = section_seats sec s'" by (auto simp: generate_seats_Inr)
  with section_after_create [OF build_section cleared_rows] show ?thesis by simp
qed


lemma find_seat_Some: "find_seat k rs = Some t \<Longrightarrow> t \<in> set rs \<and> seat_identity t = k"
  by (auto simp: find_seat_def dest!: first_row_Some)

lemma find_seat_ex: "k \<in> seat_identity ` set rs \<Longrightarrow> \<exists>t. find_seat k rs = Some t"
  by (cases "find_seat k rs") (auto simp: find_seat_def filter_empty_conv)

lemma placement_move_to: "seat_identity r = seat_identity t \<Longrightarrow> placement (move_to t r) = placement t"
  by (simp add: placement_def move_to_def seat_identity_def)

text \<open>What \<open>reposition_seats\<close> does to a row: it takes the place of the built row of its identity.\<close>

definition moved :: "seat list \<Rightarrow> seat \<Rightarrow> seat" where
  "moved prospective r =
     (case find_seat (seat_identity r) prospective of Some t \<Rightarrow> move_to t r | None \<Rightarrow> r)"

lemma moved_keeps [simp]:
  "seat_pk (moved ps r) = seat_pk r" "seat_identity (moved ps r) = seat_identity r"
  "in_section sec (moved ps r) = in_section sec r"
  by (simp_all add: moved_def move_to_def seat_identity_def in_section_def split: option.splits)

lemma placement_moved:
  assumes "seat_identity r \<in> seat_identity ` set ps"
  shows "placement (moved ps r) \<in> placement ` set ps"
proof -
  from find_seat_ex [OF assms] obtain t where t: "find_seat (seat_identity r) ps = Some t" by auto
  with find_seat_Some [OF t] show ?thesis by (simp add: moved_def placement_move_to)
qed

lemma reposition_Inr:
  "reposition_seats sec counts rm ids s = Inr (rs, s') \<longleftrightarrow>
     (let ps = build_seats sec counts (\<lambda>_. []) rm ids
      in seat_identity ` set ps = seat_identity ` set (section_seats sec s) \<and>
         s' = s\<lparr>db_seats := update_rows (in_section sec) (moved ps) (db_seats s)\<rparr> \<and>
         rs = section_seats sec s')"
  unfolding reposition_seats_def Let_def moved_def by auto

lemma filter_update_rows:
  assumes "\<And>r. P (f r) = P r"
  shows "filter P (update_rows P f rs) = map f (filter P rs)"
  using assms by (induction rs) (auto simp: update_rows_def)

lemma placements_eq_set:
  assumes "seat_identity ` set ps = seat_identity ` set rs" "distinct (map seat_identity ps)"
  shows "set (map (\<lambda>r. placement (moved ps r)) rs) = set (map placement ps)"
proof (intro equalityI subsetI)
  fix x assume "x \<in> set (map (\<lambda>r. placement (moved ps r)) rs)"
  then obtain r where r: "r \<in> set rs" "x = placement (moved ps r)" by auto
  have "seat_identity r \<in> seat_identity ` set ps" using assms(1) r(1) by simp
  from placement_moved [OF this] r(2) show "x \<in> set (map placement ps)" by simp
next
  fix x assume "x \<in> set (map placement ps)"
  then obtain t where t: "t \<in> set ps" "x = placement t" by auto
  then have "seat_identity t \<in> seat_identity ` set rs" using assms(1) by (metis imageI)
  then obtain r where r: "r \<in> set rs" "seat_identity r = seat_identity t" by auto
  then have "seat_identity r \<in> seat_identity ` set ps" using t(1) by simp
  from find_seat_ex [OF this] obtain u where u: "find_seat (seat_identity r) ps = Some u" by auto
  with find_seat_Some [OF u] t(1) r(2) assms(2) have "u = t"
    by (metis distinct_map inj_onD)
  with u r t(2) show "x \<in> set (map (\<lambda>r. placement (moved ps r)) rs)"
    by (auto simp: moved_def placement_move_to image_iff intro!: bexI [of _ r])
qed

lemma repositioned_placements:
  assumes "reposition_seats sec counts rm ids s = Inr (rs, s')" "unique_seats s"
  shows "map placement rs = sort_key fst (map placement (build_seats sec counts (\<lambda>_. []) rm ids))"
proof -
  let ?ps = "build_seats sec counts (\<lambda>_. []) rm ids" and ?rs = "filter (in_section sec) (db_seats s)"
  from assms(1) have i: "seat_identity ` set ?ps = seat_identity ` set ?rs"
    and rs: "rs = order_by seat_identity (map (moved ?ps) ?rs)"
    by (simp_all add: reposition_Inr Let_def section_seats_def order_by_def filter_update_rows)
  have "map placement rs = sort_key fst (map (\<lambda>r. placement (moved ?ps r)) ?rs)"
    by (simp add: rs sort_by_identity comp_def)
  also have "\<dots> = sort_key fst (map placement ?ps)"
  proof (rule sort_key_set_eq [OF placements_eq_set [OF i build_identities]])
    show "distinct (map fst (map (\<lambda>r. placement (moved ?ps r)) ?rs))"
      using unique_seats_section [OF assms(2)] by (simp add: comp_def seat_identity_placement [symmetric])
    show "distinct (map fst (map placement ?ps))"
      using build_identities by (simp add: comp_def seat_identity_placement [symmetric])
  qed
  finally show ?thesis .
qed

lemma repositioned_keys:
  assumes "reposition_seats sec counts rm ids s = Inr (rs, s')"
  shows "map seat_pk rs = map seat_pk (section_seats sec s)"
proof -
  let ?ps = "build_seats sec counts (\<lambda>_. []) rm ids"
  have "order_by seat_identity (map (moved ?ps) xs) = map (moved ?ps) (order_by seat_identity xs)" for xs
  proof (induction xs)
    case (Cons x xs)
    have "insort_key seat_identity (moved ?ps x) (map (moved ?ps) ys) =
        map (moved ?ps) (insort_key seat_identity x ys)" for ys
      by (induction ys) auto
    with Cons show ?case by (simp add: order_by_def)
  qed (simp add: order_by_def)
  with assms show ?thesis
    by (simp add: reposition_Inr Let_def section_seats_def filter_update_rows comp_def)
qed


text \<open>
  \<open>OrderItem.seat\<close> is \<open>PROTECT\<close> and a refund voids tickets but keeps order items: once a seat of the
  section has been sold, the refusal is no longer the one the message promises a way out of.
\<close>

lemma sold_seat_blocks_regeneration:
  assumes "r \<in> set (db_seats s)" "in_section sec r" "i \<in> set (db_items s)" "item_seat i = Some (seat_pk r)"
    and "live_tickets_on (in_section sec) s = []"
  shows "generate_seats sec counts acc rm ids True s = Inl SeatsProtected"
proof -
  have "section_seats sec s \<noteq> []" using assms(1,2) by (auto simp: section_seats_empty)
  moreover have "delete_seats (in_section sec) s = Inl SeatsProtected"
    using assms(1-4) by (auto simp: delete_seats_def Let_def)
  ultimately show ?thesis using assms(5) by (simp add: generate_seats_def Let_def)
qed

section \<open>Geometry\<close>

text \<open>Every world position goes through one rigid motion.\<close>

definition dist2 :: "real \<times> real \<Rightarrow> real \<times> real \<Rightarrow> real" where
  "dist2 p q = (fst p - fst q)\<^sup>2 + (snd p - snd q)\<^sup>2"

lemma rotate_by_eq:
  "rotate_by p d =
     (fst p * cos (d * pi / 180) - snd p * sin (d * pi / 180),
      fst p * sin (d * pi / 180) + snd p * cos (d * pi / 180))"
  by (simp add: rotate_by_def Let_def)

lemma rotate_by_zero [simp]: "rotate_by (0, 0) d = (0, 0)"
  by (simp add: rotate_by_eq)

lemma to_world_pivot: "to_world sec (rotation_pivot_local sec) = pivot_xy sec"
  by (simp add: to_world_def pivot_xy_def Let_def)

lemma rotation_keeps_square: "(a * c - b * s)\<^sup>2 + (a * s + b * c)\<^sup>2 = (a\<^sup>2 + b\<^sup>2) * (s\<^sup>2 + c\<^sup>2)" for a b c s :: real
  by (simp add: power2_eq_square algebra_simps)

lemma to_world_rigid: "dist2 (to_world sec p) (to_world sec q) = dist2 p q"
proof -
  let ?t = "rotation sec * pi / 180"
  have "dist2 (to_world sec p) (to_world sec q) =
      ((fst p - fst q) * cos ?t - (snd p - snd q) * sin ?t)\<^sup>2 +
      ((fst p - fst q) * sin ?t + (snd p - snd q) * cos ?t)\<^sup>2"
    by (simp add: dist2_def to_world_def Let_def rotate_by_eq algebra_simps)
  then show ?thesis by (simp add: rotation_keeps_square dist2_def)
qed

lemma pivot_ignores_rotation [simp]: "rotation_pivot_local (sec\<lparr>rotation := a\<rparr>) = rotation_pivot_local sec"
  by (simp add: rotation_pivot_local_def)

lemma local_at_rotation [simp]: "local_at arc (sec\<lparr>rotation := a\<rparr>) r c n = local_at arc sec r c n"
  by (simp add: local_at_def fanned_local_def grid_or_raked_local_def row_shift_def Let_def cong del: if_weak_cong)

lemma local_at_place [simp]:
  "local_at arc (sec\<lparr>arc_radius := b, origin_x := x, origin_y := y\<rparr>) r c n = local_at arc sec r c n"
  by (simp add: local_at_def fanned_local_def grid_or_raked_local_def row_shift_def Let_def cong del: if_weak_cong)

lemma shape_center_place [simp]:
  "shape_center_local (sec\<lparr>arc_radius := b, origin_x := x, origin_y := y\<rparr>) arc n = shape_center_local sec arc n"
  by (simp add: shape_center_local_def block_locals_def)

lemma to_world_place:
  "to_world (sec\<lparr>arc_radius := b, origin_x := origin_x sec + dx, origin_y := origin_y sec + dy\<rparr>) p =
     (fst (to_world sec p) + dx, snd (to_world sec p) + dy)"
  by (simp add: to_world_def Let_def rotation_pivot_local_def)

text \<open>The front-center point is the middle seat of an odd front row, straight or curved.\<close>

lemma front_center_is_middle_seat:
  "front_center_xy sec (2 * c + 1) (arc_radius sec) = seat_xy sec 0 c (2 * c + 1)"
  by (auto simp: front_center_xy_def seat_xy_def front_center_local_def local_at_def curved_def
      fanned_local_def grid_or_raked_local_def row_shift_def Let_def split: option.splits)

text \<open>A curved row is symmetric about its middle and its ends bow toward the origin.\<close>

lemma fanned_row_symmetric:
  assumes "c < n"
  shows "fst (fanned_local a sec r (n - 1 - c) n) - row_shift sec r = - (fst (fanned_local a sec r c n) - row_shift sec r) \<and>
     snd (fanned_local a sec r (n - 1 - c) n) = snd (fanned_local a sec r c n)"
proof -
  have m: "(real (n - 1 - c) - (real n - 1) / 2) = - (real c - (real n - 1) / 2)"
    using assms by (simp add: of_nat_diff field_simps)
  have e: "(real (n - 1 - c) - (real n - 1) / 2) * k = - ((real c - (real n - 1) / 2) * k)" for k
    unfolding m by (rule minus_mult_left [symmetric])
  show ?thesis by (simp only: fanned_local_def Let_def e fst_conv snd_conv sin_minus cos_minus) simp
qed

text \<open>The demo chart's section with its layout, turned a quarter.\<close>

definition stalls_layout :: section_layout where
  "stalls_layout = \<lparr>section_pk = 11, section_organization = 1, section_chart = 10,
     section_name = ''Stalls'', section_ordering = 0, section_tier = '''', origin_x = 2, origin_y = 1,
     rotation = 90, seat_pitch = 1, row_pitch = 1, row_x_offset = 0, offset_mode = ''repeated'',
     alt_row_seat_delta = 0, arc_radius = None, pivot_mode = ''center'', pivot_x = 0, pivot_y = 0,
     shape_rows = 1, seats_per_row = 3, removed_seats = [], accessible_seats = [],
     numbering_scheme = ''sequential'', row_label_scheme = ''skip_io'', row_label_start = 0\<rparr>"

lemma stalls_built:
  "map seat_identity (build_seats stalls_layout [3] (\<lambda>_. []) [] ids) = [(''A'', ''1''), (''A'', ''2''), (''A'', ''3'')]"
proof -
  have l: "generate_row_labels (Suc 0) ''skip_io'' 0 = [''A'']" by code_simp
  have n: "generate_seat_numbers 3 ''sequential'' 0 = [1, 2, 3]" by code_simp
  have "show_nat 1 = ''1''" "show_nat 2 = ''2''" "show_nat 3 = ''3''" by code_simp+
  then show ?thesis
    by (simp add: build_seats_def build_row_def stalls_layout_def l n del: One_nat_def)
qed

lemma stalls_rows: "filter (in_section stalls_layout) (db_seats demo) = db_seats demo"
  by (simp add: demo_def demo_seat_def in_section_def stalls_layout_def)

lemma demo_unique_seats: "unique_seats demo"
  by (simp add: unique_seats_def demo_def demo_seat_def seat_identity_def)

section \<open>Properties\<close>

text \<open>
  Property C20. Whatever the layout, generation yields rows of the section that satisfy the seat
  table's uniqueness constraint: every built seat belongs to the section and its organization, no two
  share a row label and number, and none is one of the removed identities. So with the old rows gone
  the bulk insert never fails.
\<close>

theorem generated_roster_is_well_formed:
  "distinct (map seat_identity (build_seats sec counts acc rm ids)) \<and>
   (\<forall>r\<in>set (build_seats sec counts acc rm ids).
      seat_section r = section_pk sec \<and> seat_organization r = section_organization sec \<and>
      seat_identity r \<notin> set rm \<and> (seat_identity r \<in> set ids \<longrightarrow> seat_is_accessible r)) \<and>
   (section_seats sec s = [] \<longrightarrow>
      (\<exists>rs s'. generate_seats sec counts acc rm ids rep s = Inr (rs, s') \<and>
         map placement rs = sort_key fst (map placement (build_seats sec counts acc rm ids))))"
proof (intro conjI impI ballI)
  show "distinct (map seat_identity (build_seats sec counts acc rm ids))" by (rule build_identities)
next
  fix r assume "r \<in> set (build_seats sec counts acc rm ids)"
  then obtain i label n j number where r: "r = build_seat sec acc ids i label n j number"
    and "(label, show_nat number) \<notin> set rm"
    by (auto simp: build_seats_def build_row_def Let_def)
  then show "seat_section r = section_pk sec" "seat_organization r = section_organization sec"
    "seat_identity r \<notin> set rm" by simp_all
  show "seat_is_accessible r" if "seat_identity r \<in> set ids"
    using that r by (simp add: build_seat_def Let_def seat_identity_def)
next
  assume "section_seats sec s = []"
  then have "\<exists>rs s'. generate_seats sec counts acc rm ids rep s = Inr (rs, s')"
    by (simp add: generate_seats_Inr cleared_def)
  then show "\<exists>rs s'. generate_seats sec counts acc rm ids rep s = Inr (rs, s') \<and>
         map placement rs = sort_key fst (map placement (build_seats sec counts acc rm ids))"
    using generated_placements by blast
qed

text \<open>
  Property C19. Moving a section in place and regenerating it give the same chart: when
  \<open>reposition_seats\<close> accepts a layout that \<open>generate_seats\<close> also accepts, the two return the same
  seats in the same order (identity, coordinates, accessibility), and repositioning keeps each row's
  key and every other table.
\<close>

theorem reposition_is_regeneration_in_place:
  assumes "reposition_seats sec counts rm ids s = Inr (rs, s1)"
    and "generate_seats sec counts (\<lambda>_. []) rm ids True s = Inr (ts, s2)"
    and "unique_seats s"
  shows "map placement rs = map placement ts \<and> map seat_pk rs = map seat_pk (section_seats sec s) \<and>
     s1 = s\<lparr>db_seats := db_seats s1\<rparr>"
proof (intro conjI)
  show "map placement rs = map placement ts"
    using repositioned_placements [OF assms(1,3)] generated_placements [OF assms(2)] by simp
  show "map seat_pk rs = map seat_pk (section_seats sec s)" by (rule repositioned_keys [OF assms(1)])
  show "s1 = s\<lparr>db_seats := db_seats s1\<rparr>" using assms(1) by (simp add: reposition_Inr Let_def)
qed

theorem generated_roster_is_well_formed_witness:
  "\<exists>rs s'. generate_seats stalls_layout [3] (\<lambda>_. []) [] [] False (demo\<lparr>db_seats := []\<rparr>) = Inr (rs, s') \<and> length rs = 3"
proof -
  have "section_seats stalls_layout (demo\<lparr>db_seats := []\<rparr>) = []" by (simp add: section_seats_empty)
  with generated_roster_is_well_formed [of stalls_layout "[3]" "\<lambda>_. []" "[]" "[]" "demo\<lparr>db_seats := []\<rparr>" False]
  obtain rs s' where "generate_seats stalls_layout [3] (\<lambda>_. []) [] [] False (demo\<lparr>db_seats := []\<rparr>) = Inr (rs, s')"
    and p: "map placement rs = sort_key fst (map placement (build_seats stalls_layout [3] (\<lambda>_. []) [] []))" by blast
  moreover have "length rs = 3"
    using arg_cong [OF p, of length] arg_cong [OF stalls_built [of "[]"], of length] by simp
  ultimately show ?thesis by blast
qed

theorem reposition_is_regeneration_in_place_witness:
  "\<exists>rs s1 ts s2. reposition_seats stalls_layout [3] [] [(''A'', ''2'')] demo = Inr (rs, s1) \<and>
     generate_seats stalls_layout [3] (\<lambda>_. []) [] [(''A'', ''2'')] True demo = Inr (ts, s2) \<and>
     map placement rs = map placement ts"
proof -
  let ?ps = "build_seats stalls_layout [3] (\<lambda>_. []) [] [(''A'', ''2'')]"
  have "seat_identity ` set ?ps = {(''A'', ''1''), (''A'', ''2''), (''A'', ''3'')}"
    using stalls_built [of "[(''A'', ''2'')]"] by (metis (no_types) list.set(1) list.simps(15) set_map)
  moreover have "seat_identity ` set (section_seats stalls_layout demo) = {(''A'', ''1''), (''A'', ''2''), (''A'', ''3'')}"
    unfolding section_seats_def order_by_def stalls_rows
    by (simp add: demo_def demo_seat_def seat_identity_def)
  ultimately obtain rs s1 where
    r: "reposition_seats stalls_layout [3] [] [(''A'', ''2'')] demo = Inr (rs, s1)"
    by (simp add: reposition_seats_def Let_def)
  have "live_tickets_on P demo = []" for P by (simp add: live_tickets_on_def demo_def)
  moreover have "\<exists>s1. cleared stalls_layout demo = Inr s1"
    by (simp add: cleared_def delete_seats_def Let_def demo_def)
  ultimately obtain ts s2 where
    "generate_seats stalls_layout [3] (\<lambda>_. []) [] [(''A'', ''2'')] True demo = Inr (ts, s2)"
    by (auto simp: generate_seats_Inr)
  with reposition_is_regeneration_in_place [OF r this demo_unique_seats] r show ?thesis by blast
qed

text \<open>
  Rotating a section is a rigid motion about its pivot: the pivot's place on the
  canvas does not depend on the rotation, and neither does the distance of two seats or the distance
  of a seat from the pivot.
\<close>

theorem rotation_is_rigid:
  "pivot_xy (sec\<lparr>rotation := a\<rparr>) = pivot_xy sec \<and>
   dist2 (seat_xy (sec\<lparr>rotation := a\<rparr>) r c n) (seat_xy (sec\<lparr>rotation := a\<rparr>) r' c' n') =
     dist2 (seat_xy sec r c n) (seat_xy sec r' c' n') \<and>
   dist2 (seat_xy (sec\<lparr>rotation := a\<rparr>) r c n) (pivot_xy sec) = dist2 (seat_xy sec r c n) (pivot_xy sec)"
proof -
  have pivot: "pivot_xy (sec\<lparr>rotation := a\<rparr>) = pivot_xy sec" by (simp add: pivot_xy_def)
  have "dist2 (seat_xy (sec\<lparr>rotation := a\<rparr>) r c n) (pivot_xy (sec\<lparr>rotation := a\<rparr>)) =
      dist2 (seat_xy sec r c n) (pivot_xy sec)"
    unfolding to_world_pivot [symmetric] by (simp add: seat_xy_def to_world_rigid)
  with pivot show ?thesis by (simp add: seat_xy_def to_world_rigid)
qed

text \<open>
  Changing the curvature keeps a section in place: with the origin that
  \<open>rebalance_origin_for_arc_change\<close> computes, the center of the block's bounding box under the new
  radius is where it was under the old one, for every radius, straight included.
\<close>

theorem rebalance_keeps_center:
  "shape_center_xy (sec\<lparr>arc_radius := new,
       origin_x := fst (rebalance_origin_for_arc_change sec new n),
       origin_y := snd (rebalance_origin_for_arc_change sec new n)\<rparr>) new n =
   shape_center_xy sec (arc_radius sec) n"
  by (simp add: rebalance_origin_for_arc_change_def shape_center_xy_def Let_def to_world_place)

end
