(* ===== verification/ParsingFacts.thy ===== *)
theory ParsingFacts
  imports ChartParsing SeatingFacts
begin

text \<open>
  What validation guarantees of a parsed chart: the naming loop ends within as many turns as there are
  names and yields a fresh one, every count and choice is in range, and validating a validated spec
  changes nothing; what building guarantees: every section is the layout of
  its spec and gets exactly the seats of that layout.
\<close>

section \<open>Names\<close>

lemma uniquify_fresh: "lower name \<notin> set seen \<Longrightarrow> uniquify seen base suffix name = name"
  by (simp add: uniquify.simps)

lemma uniquify_not_seen: "lower (uniquify seen base suffix name) \<notin> set seen"
  by (induction seen base suffix name rule: uniquify.induct) (simp add: uniquify.simps)

lemma uniquify_form:
  "uniquify seen base suffix name = name \<and> lower name \<notin> set seen \<or>
   (\<exists>k. uniquify seen base suffix name = numbered_name base k \<and> suffix \<le> k \<and>
        k \<le> suffix + card (clashes seen base suffix))"
proof (induction seen base suffix name rule: uniquify.induct)
  case (1 seen base suffix name)
  show ?case
  proof (cases "lower name \<in> set seen")
    case True
    then have u: "uniquify seen base suffix name = uniquify seen base (Suc suffix) (numbered_name base suffix)"
      by (simp add: uniquify.simps)
    have c: "card (clashes seen base suffix) =
        (if lower (numbered_name base suffix) \<in> set seen then 1 else 0) + card (clashes seen base (Suc suffix))"
    proof -
      have "suffix \<notin> clashes seen base (Suc suffix)" by (simp add: clashes_def)
      then show ?thesis using clashes_Suc [of seen base suffix] by simp
    qed
    from "1" [OF True] u c show ?thesis
    proof (elim disjE conjE exE)
      fix k assume "uniquify seen base (Suc suffix) (numbered_name base suffix) = numbered_name base k"
        "Suc suffix \<le> k" "k \<le> Suc suffix + card (clashes seen base (Suc suffix))"
      moreover have "lower (numbered_name base suffix) \<in> set seen \<or> k = suffix"
        using calculation uniquify_fresh numbered_name_inj by metis
      ultimately show ?thesis using u c by auto
    qed (use u in auto)
  qed (simp add: uniquify.simps)
qed

text \<open>
  The suffix loop: whatever names are taken, it ends with the base name itself or the
  base name and a number, after at most one turn more than there are taken names, and the result
  differs from every taken name up to case.
\<close>

theorem unique_name_loop_ends:
  "lower (uniquify seen name 2 name) \<notin> set seen \<and>
   (uniquify seen name 2 name = name \<or>
    (\<exists>k. uniquify seen name 2 name = numbered_name name k \<and> 2 \<le> k \<and> k \<le> 2 + length seen))"
  using uniquify_not_seen uniquify_form [of seen name 2 name] clashes_card [of seen name 2]
  by (metis add_left_mono le_trans)


section \<open>Ranges\<close>

text \<open>What \<open>validate_chart_spec\<close> owes its reader for one section.\<close>

definition in_range :: "section_spec \<Rightarrow> bool" where
  "in_range spec \<longleftrightarrow>
     1 \<le> sp_rows spec \<and> sp_rows spec \<le> MAX_ROWS \<and>
     1 \<le> sp_seats_per_row spec \<and> sp_seats_per_row spec \<le> MAX_SEATS_PER_ROW \<and>
     \<bar>sp_alt_row_seat_delta spec\<bar> \<le> MAX_SEATS_PER_ROW \<and>
     0 \<le> sp_row_label_start spec \<and> sp_row_label_start spec \<le> 2 * MAX_ROWS \<and>
     sp_seat_pitch spec \<noteq> Num 0 \<and> sp_row_pitch spec \<noteq> Num 0 \<and>
     (case sp_arc_radius spec of Some (Num x) \<Rightarrow> 0 < x | Some (Inf neg) \<Rightarrow> \<not> neg | _ \<Rightarrow> True) \<and>
     sp_offset_mode spec \<in> set offset_values \<and> sp_numbering_scheme spec \<in> set numbering_values \<and>
     sp_row_label_scheme spec \<in> set row_label_values \<and>
     length (sp_name spec) \<le> 255 \<and> length (sp_tier spec) \<le> 100 \<and>
     (sp_row_alignment spec = ''edge'' \<or> sp_row_alignment spec = ''center'')"

text \<open>A centered section without an offset of its own already has the derived one.\<close>

definition centered :: "section_spec \<Rightarrow> bool" where
  "centered spec \<longleftrightarrow> with_center_offset spec = spec"

lemma clamp_int_range: "clamp_int v low high d = Inr n \<Longrightarrow> low \<le> high \<Longrightarrow> low \<le> d \<Longrightarrow> d \<le> high \<Longrightarrow> low \<le> n \<and> n \<le> high"
  by (auto simp: clamp_int_def split: sum.splits conversion_error.splits)

lemma choice_or_values: "choice_or values v d = Inr x \<Longrightarrow> d \<in> set values \<Longrightarrow> x \<in> set values"
  by (cases v) (auto simp: choice_or_def split: if_splits)

lemma clean_arc_positive:
  "clean_arc v = Inr arc \<Longrightarrow> (case arc of Some (Num x) \<Rightarrow> 0 < x | Some (Inf neg) \<Rightarrow> \<not> neg | _ \<Rightarrow> True)"
proof (cases "v = JNull")
  case False
  assume a: "clean_arc v = Inr arc"
  with False obtain r where "arc = (case r of Num x \<Rightarrow> if x \<le> 0 then None else Some r
             | Inf neg \<Rightarrow> if neg then None else Some r | Nan \<Rightarrow> Some r)"
    by (auto simp: clean_arc_def)
  then show ?thesis by (cases r) auto
qed (simp add: clean_arc_def)

lemma derived_ignores_offset: "derived_center_offset (spec\<lparr>sp_row_x_offset := x\<rparr>) = derived_center_offset spec"
proof -
  have same: "occupied_rows (spec\<lparr>sp_row_x_offset := x\<rparr>) = occupied_rows spec"
    "sp_offset_mode (spec\<lparr>sp_row_x_offset := x\<rparr>) = sp_offset_mode spec"
    "sp_seat_pitch (spec\<lparr>sp_row_x_offset := x\<rparr>) = sp_seat_pitch spec"
    by (simp_all add: occupied_rows_def row_widths_def)
  show ?thesis unfolding derived_center_offset_def same ..
qed

lemma with_center_offset_centered: "centered (with_center_offset spec)"
  by (simp add: centered_def with_center_offset_def derived_ignores_offset)

lemma with_center_offset_range: "in_range (with_center_offset spec) = in_range spec"
  by (simp add: in_range_def with_center_offset_def)

lemma or_one_nonzero [simp]: "or_one x \<noteq> Num 0"
  by (simp add: or_one_def)

lemma default_choices:
  "''repeated'' \<in> set offset_values" "''sequential'' \<in> set numbering_values" "''skip_io'' \<in> set row_label_values"
  by (simp_all add: offset_values_def numbering_values_def row_label_values_def)

lemma validate_section_range:
  assumes "validate_section repr name raw = Inr spec"
  shows "in_range spec \<and> centered spec \<and> sp_name spec = take 255 name"
proof -
  from assms obtain base where spec: "spec = with_center_offset base" and n: "sp_name base = take 255 name"
    and r: "in_range base"
  proof (unfold validate_section_def bindE_eq_Inr, elim exE conjE)
    fix arc rws per_row ox oy rot sp rp mode shift delta numbering labels start
    assume a: "clean_arc (dict_get ''arc_radius'' raw) = Inr arc"
      and i: "clamp_int (dict_get ''rows'' raw) 1 MAX_ROWS 4 = Inr rws"
      "clamp_int (dict_get ''seats_per_row'' raw) 1 MAX_SEATS_PER_ROW 8 = Inr per_row"
      "clamp_int (dict_get ''alt_row_seat_delta'' raw) (- MAX_SEATS_PER_ROW) MAX_SEATS_PER_ROW 0 = Inr delta"
      "clamp_int (dict_get ''row_label_start'' raw) 0 (2 * MAX_ROWS) 0 = Inr start"
      and c: "choice_or offset_values (dict_get ''offset_mode'' raw) ''repeated'' = Inr mode"
      "choice_or numbering_values (dict_get ''numbering_scheme'' raw) ''sequential'' = Inr numbering"
      "choice_or row_label_values (dict_get ''row_label_scheme'' raw) ''skip_io'' = Inr labels"
    note i' = i [THEN clamp_int_range, unfolded MAX_ROWS_def MAX_SEATS_PER_ROW_def, simplified]
    note c' = c(1) [THEN choice_or_values] c(2) [THEN choice_or_values] c(3) [THEN choice_or_values]
    let ?base = "\<lparr>sp_name = take 255 name, sp_tier = take 100 (text_or_blank repr (dict_get ''tier'' raw)),
        sp_rows = rws, sp_seats_per_row = per_row, sp_origin_x = ox, sp_origin_y = oy, sp_rotation = rot,
        sp_seat_pitch = or_one sp, sp_row_pitch = or_one rp, sp_arc_radius = arc, sp_offset_mode = mode,
        sp_row_x_offset = shift, sp_alt_row_seat_delta = delta, sp_numbering_scheme = numbering,
        sp_row_label_scheme = labels, sp_row_label_start = start,
        sp_removed_seats = seat_identity_list repr (dict_get ''removed_seats'' raw),
        sp_accessible_seats = seat_identity_list repr (dict_get ''accessible_seats'' raw),
        sp_row_alignment = (if dict_get ''row_alignment'' raw = JStr ''center'' then ''center'' else ''edge'')\<rparr>"
    assume "Inr (with_center_offset ?base) = Inr spec"
    moreover have "in_range ?base"
      using clean_arc_positive [OF a] i' c' default_choices
      by (simp add: in_range_def MAX_ROWS_def MAX_SEATS_PER_ROW_def abs_le_iff)
    ultimately show ?thesis using that [of ?base] by simp
  qed
  moreover have "sp_name (with_center_offset base) = sp_name base" by (simp add: with_center_offset_def)
  ultimately show ?thesis using with_center_offset_range with_center_offset_centered by metis
qed


lemma strip_numbered: "strip base = base \<Longrightarrow> base \<noteq> [] \<Longrightarrow> strip (numbered_name base k) = numbered_name base k"
proof -
  assume "strip base = base" "base \<noteq> []"
  moreover have "\<not> is_space (CHR '')'')" by code_simp
  ultimately show ?thesis by (auto simp: strip_stable_iff numbered_name_def)
qed

lemma section_name_ok:
  "strip (section_name_of repr i seen raw) = section_name_of repr i seen raw \<and> section_name_of repr i seen raw \<noteq> [] \<and>
   lower (section_name_of repr i seen raw) \<notin> set seen"
proof -
  let ?stated = "strip (text_or_blank repr (dict_get ''name'' raw))"
  let ?name = "if ?stated \<noteq> [] then ?stated else ''Section '' @ show_nat (i + 1)"
  have "strip (''Section '' @ show_nat (i + 1)) = ''Section '' @ show_nat (i + 1)"
  proof -
    have d: "list_all is_digit (show_nat (i + 1))" "show_nat (i + 1) \<noteq> []" using show_nat_digits by auto
    then have "is_digit (last (show_nat (i + 1)))" by (simp add: list_all_iff)
    then have "\<not> is_space (last (show_nat (i + 1)))" by (auto simp: is_digit_def is_space_def)
    moreover have "\<not> is_space (CHR ''S'')" by code_simp
    ultimately show ?thesis using d(2) by (simp add: strip_stable_iff)
  qed
  then have n: "strip ?name = ?name" "?name \<noteq> []" by auto
  have "section_name_of repr i seen raw = uniquify seen ?name 2 ?name"
    by (simp add: section_name_of_def Let_def)
  moreover have "strip (uniquify seen ?name 2 ?name) = uniquify seen ?name 2 ?name \<and> uniquify seen ?name 2 ?name \<noteq> []"
    using uniquify_form [of seen ?name 2 ?name] n strip_numbered [OF n] by (auto simp: numbered_name_def)
  ultimately show ?thesis using uniquify_not_seen by metis
qed

text \<open>The names before truncation to 255 characters: stripped, non-empty, distinct up to case.\<close>

definition spec_named :: "string \<Rightarrow> section_spec \<Rightarrow> bool" where
  "spec_named n spec \<longleftrightarrow> sp_name spec = take 255 n \<and> n \<noteq> [] \<and> strip n = n \<and> in_range spec \<and> centered spec"

lemma validate_sections_names:
  "validate_sections repr i seen raws = Inr specs \<Longrightarrow>
     \<exists>names. list_all2 spec_named names specs \<and> distinct (map lower names) \<and> set (map lower names) \<inter> set seen = {}"
proof (induction repr i seen raws arbitrary: specs rule: validate_sections.induct)
  case (2 repr i seen raw rest)
  let ?name = "section_name_of repr i seen raw"
  from "2.prems" obtain spec specs' where spec: "validate_section repr ?name raw = Inr spec"
    and rest: "validate_sections repr (Suc i) (lower ?name # seen) rest = Inr specs'" and s: "specs = spec # specs'"
    by (auto simp: Let_def)
  from "2.IH" [OF refl rest] obtain names where "list_all2 spec_named names specs'" "distinct (map lower names)"
    "set (map lower names) \<inter> set (lower ?name # seen) = {}" by auto
  moreover have "spec_named ?name spec"
    using validate_section_range [OF spec] section_name_ok [of repr i seen raw] by (simp add: spec_named_def)
  ultimately show ?case using section_name_ok [of repr i seen raw] s
    by (intro exI [of _ "?name # names"]) auto
qed auto

section \<open>Validating twice\<close>

text \<open>A validated spec as the dictionary it is.\<close>

definition pair_json :: "identity \<Rightarrow> json" where
  "pair_json p = JList [JStr (fst p), JStr (snd p)]"

definition section_json :: "section_spec \<Rightarrow> (string \<times> json) list" where
  "section_json spec =
     [(''name'', JStr (sp_name spec)), (''tier'', JStr (sp_tier spec)), (''rows'', JInt (sp_rows spec)),
      (''seats_per_row'', JInt (sp_seats_per_row spec)), (''origin_x'', JFloat (sp_origin_x spec)),
      (''origin_y'', JFloat (sp_origin_y spec)), (''rotation'', JFloat (sp_rotation spec)),
      (''seat_pitch'', JFloat (sp_seat_pitch spec)), (''row_pitch'', JFloat (sp_row_pitch spec)),
      (''arc_radius'', case sp_arc_radius spec of None \<Rightarrow> JNull | Some r \<Rightarrow> JFloat r),
      (''offset_mode'', JStr (sp_offset_mode spec)), (''row_x_offset'', JFloat (sp_row_x_offset spec)),
      (''alt_row_seat_delta'', JInt (sp_alt_row_seat_delta spec)),
      (''numbering_scheme'', JStr (sp_numbering_scheme spec)), (''row_label_scheme'', JStr (sp_row_label_scheme spec)),
      (''row_label_start'', JInt (sp_row_label_start spec)),
      (''removed_seats'', JList (map pair_json (sp_removed_seats spec))),
      (''accessible_seats'', JList (map pair_json (sp_accessible_seats spec))),
      (''row_alignment'', JStr (sp_row_alignment spec))]"

definition chart_json :: "chart_spec \<Rightarrow> json" where
  "chart_json cs =
     JDict [(''chart_name'', JStr (cs_chart_name cs)), (''sections'', JList (map (\<lambda>spec. JDict (section_json spec)) (cs_sections cs)))]"

lemma dict_get_simps [simp]:
  "dict_get k [] = JNull" "dict_get k ((k', v) # d) = (if k = k' then v else dict_get k d)"
  by (auto simp: dict_get_def)

lemma coercions_of_coerced [simp]:
  "low \<le> n \<Longrightarrow> n \<le> high \<Longrightarrow> clamp_int (JInt n) low high d = Inr n"
  "as_float (JFloat x) r = Inr x"
  "s \<in> set values \<Longrightarrow> choice_or values (JStr s) v = Inr s"
  "text_or_blank repr (JStr s) = s"
  "x \<noteq> Num 0 \<Longrightarrow> or_one x = x"
  by (simp_all add: clamp_int_def as_float_def choice_or_def text_or_blank_def or_one_def)

lemma seat_identity_list_pairs [simp]: "seat_identity_list repr (JList (map pair_json ps)) = ps"
  by (induction ps) (simp_all add: seat_identity_list_def pair_json_def)

lemma clean_arc_again:
  "(case arc of Some (Num x) \<Rightarrow> 0 < x | Some (Inf neg) \<Rightarrow> \<not> neg | _ \<Rightarrow> True) \<Longrightarrow>
     clean_arc (case arc of None \<Rightarrow> JNull | Some r \<Rightarrow> JFloat r) = Inr arc"
  by (auto simp: clean_arc_def split: option.splits pyfloat.splits)

lemma validate_section_again:
  assumes "in_range spec" "centered spec"
  shows "validate_section repr (sp_name spec) (section_json spec) = Inr spec"
proof -
  note r = assms(1) [unfolded in_range_def]
  have get: "dict_get ''arc_radius'' (section_json spec) = (case sp_arc_radius spec of None \<Rightarrow> JNull | Some r \<Rightarrow> JFloat r)"
    by (simp add: section_json_def)
  have arc: "clean_arc (dict_get ''arc_radius'' (section_json spec)) = Inr (sp_arc_radius spec)"
    unfolding get by (rule clean_arc_again) (use r in blast)
  have al: "(if JStr (sp_row_alignment spec) = JStr ''center'' then ''center'' else ''edge'') = sp_row_alignment spec"
    using r by auto
  have eta: "\<lparr>sp_name = sp_name spec, sp_tier = sp_tier spec, sp_rows = sp_rows spec,
      sp_seats_per_row = sp_seats_per_row spec, sp_origin_x = sp_origin_x spec, sp_origin_y = sp_origin_y spec,
      sp_rotation = sp_rotation spec, sp_seat_pitch = sp_seat_pitch spec, sp_row_pitch = sp_row_pitch spec,
      sp_arc_radius = sp_arc_radius spec, sp_offset_mode = sp_offset_mode spec,
      sp_row_x_offset = sp_row_x_offset spec, sp_alt_row_seat_delta = sp_alt_row_seat_delta spec,
      sp_numbering_scheme = sp_numbering_scheme spec, sp_row_label_scheme = sp_row_label_scheme spec,
      sp_row_label_start = sp_row_label_start spec, sp_removed_seats = sp_removed_seats spec,
      sp_accessible_seats = sp_accessible_seats spec, sp_row_alignment = sp_row_alignment spec\<rparr> = spec"
    by simp
  have "validate_section repr (sp_name spec) (section_json spec) = Inr (with_center_offset spec)"
    unfolding validate_section_def arc using r al
    by (simp add: section_json_def MAX_ROWS_def MAX_SEATS_PER_ROW_def abs_le_iff eta)
  with assms(2) show ?thesis by (simp add: centered_def)
qed


lemma section_name_again:
  assumes "strip n = n" "n \<noteq> []" "lower n \<notin> set seen" "sp_name spec = n"
  shows "section_name_of repr i seen (section_json spec) = n"
  using assms by (simp add: section_name_of_def section_json_def uniquify_fresh)

lemma validate_sections_again:
  assumes "list_all2 spec_named names specs" "distinct (map lower names)" "set (map lower names) \<inter> set seen = {}"
    and "list_all (\<lambda>spec. length (sp_name spec) < 255) specs"
  shows "validate_sections repr i seen (map (\<lambda>spec. JDict (section_json spec)) specs) = Inr specs"
  using assms
proof (induction names specs arbitrary: i seen rule: list_all2_induct)
  case (Cons n names spec specs)
  then have whole: "sp_name spec = n" by (auto simp: spec_named_def)
  then have name: "section_name_of repr i seen (section_json spec) = n"
    using Cons by (intro section_name_again) (auto simp: spec_named_def)
  have "validate_section repr n (section_json spec) = Inr spec"
    using Cons whole validate_section_again [of spec] by (auto simp: spec_named_def)
  moreover have "validate_sections repr (Suc i) (lower n # seen) (map (\<lambda>spec. JDict (section_json spec)) specs) = Inr specs"
    by (rule Cons.IH) (use Cons.prems in auto)
  ultimately show ?case using name by (simp add: Let_def)
qed simp

lemma validate_chart_Inr:
  assumes "validate_chart_spec repr spec = Inr cs"
  shows "\<exists>d raws. spec = JDict d \<and> dict_get ''sections'' d = JList raws \<and>
     validate_sections repr 0 [] (take MAX_SECTIONS raws) = Inr (cs_sections cs) \<and> cs_sections cs \<noteq> [] \<and>
     cs_chart_name cs = take 255 (let n = strip (text_or_blank repr (dict_get ''chart_name'' d))
                                  in if n \<noteq> [] then n else ''Parsed chart'')"
proof -
  from assms obtain d where d: "spec = JDict d" by (cases spec) (auto simp: validate_chart_spec_def)
  with assms obtain raws where raws: "dict_get ''sections'' d = JList raws"
    by (cases "dict_get ''sections'' d") (auto simp: validate_chart_spec_def)
  show ?thesis using assms d raws
    by (auto simp: validate_chart_spec_def Let_def split: if_splits)
qed

lemma validate_sections_length: "validate_sections repr i seen raws = Inr specs \<Longrightarrow> length specs \<le> length raws"
  by (induction repr i seen raws arbitrary: specs rule: validate_sections.induct) (fastforce simp: Let_def)+

lemma validate_chart_again:
  assumes "validate_chart_spec repr spec = Inr cs"
    and "list_all (\<lambda>spec. length (sp_name spec) < 255) (cs_sections cs)" and "length (cs_chart_name cs) < 255"
  shows "validate_chart_spec repr (chart_json cs) = Inr cs"
proof -
  from validate_chart_Inr [OF assms(1)] obtain d raws where
    v: "validate_sections repr 0 [] (take MAX_SECTIONS raws) = Inr (cs_sections cs)" and ne: "cs_sections cs \<noteq> []"
    and cn: "cs_chart_name cs = take 255 (let n = strip (text_or_blank repr (dict_get ''chart_name'' d))
                                  in if n \<noteq> [] then n else ''Parsed chart'')" by auto
  have parsed: "strip ''Parsed chart'' = ''Parsed chart''" by code_simp
  then have "strip (cs_chart_name cs) = cs_chart_name cs" "cs_chart_name cs \<noteq> []"
    using cn assms(3) by (auto simp: Let_def split: if_splits)
  moreover have "length (cs_sections cs) \<le> MAX_SECTIONS" using validate_sections_length [OF v] by simp
  moreover have "validate_sections repr 0 [] (map (\<lambda>spec. JDict (section_json spec)) (cs_sections cs)) = Inr (cs_sections cs)"
    using validate_sections_names [OF v] assms(2) validate_sections_again by blast
  ultimately show ?thesis using ne assms(3)
    by (simp add: validate_chart_spec_def chart_json_def Let_def)
qed

section \<open>Building\<close>

text \<open>A section's rows in the table are those its layout implies.\<close>

definition layout_counts :: "section_layout \<Rightarrow> nat list" where
  "layout_counts sec = compute_row_counts (shape_rows sec) (seats_per_row sec) (offset_mode sec) (alt_row_seat_delta sec)"

definition drawn :: "section_layout \<Rightarrow> db \<Rightarrow> bool" where
  "drawn sec s \<longleftrightarrow> map placement (section_seats sec s) =
     sort_key fst (map placement (build_seats sec (layout_counts sec) (\<lambda>_. []) (removed_seats sec) (accessible_seats sec)))"

lemma drawn_cong: "filter (in_section sec) (db_seats t) = filter (in_section sec) (db_seats s) \<Longrightarrow> drawn sec t = drawn sec s"
  by (simp add: drawn_def section_seats_def)

text \<open>A section is the layout of its spec at its position, under a key of its own.\<close>

definition laid_out :: "seating_chart \<Rightarrow> nat \<Rightarrow> section_spec list \<Rightarrow> section_layout list \<Rightarrow> bool" where
  "laid_out chart k specs secs \<longleftrightarrow>
     list_all2 (\<lambda>(i, spec) sec. sec = (layout_of_spec chart i spec)\<lparr>section_pk := section_pk sec\<rparr>) (enumerate k specs) secs"

text \<open>Building one section: what it adds, provided its name is free and no row names a future key.\<close>

lemma build_section_ok:
  assumes "finite_spec spec" "\<forall>x\<in>set (db_sections s). \<not> (section_chart x = chart_pk chart \<and> section_name x = sp_name spec)"
    and "\<forall>r\<in>set (db_seats s). seat_section r < db_next s"
  shows "\<exists>sec rows n. build_section chart k spec s =
       Inr (sec, s\<lparr>db_sections := db_sections s @ [section_row.truncate sec], db_seats := db_seats s @ rows, db_next := n\<rparr>) \<and>
     sec = (layout_of_spec chart k spec)\<lparr>section_pk := db_next s\<rparr> \<and> list_all (in_section sec) rows \<and> db_next s < n \<and>
     drawn sec (s\<lparr>db_sections := db_sections s @ [section_row.truncate sec], db_seats := db_seats s @ rows, db_next := n\<rparr>)"
proof -
  let ?sec = "(layout_of_spec chart k spec)\<lparr>section_pk := db_next s\<rparr>"
  let ?s1 = "s\<lparr>db_sections := db_sections s @ [section_row.truncate ?sec], db_next := Suc (db_next s)\<rparr>"
  let ?ps = "build_seats ?sec (layout_counts ?sec) (\<lambda>_. []) (removed_seats ?sec) (accessible_seats ?sec)"
  let ?s2 = "s\<lparr>db_sections := db_sections s @ [section_row.truncate ?sec],
      db_seats := db_seats s @ stamp (Suc (db_next s)) ?ps, db_next := Suc (db_next s) + length ?ps\<rparr>"
  have "create_section (layout_of_spec chart k spec) s = Inr (?sec, ?s1)"
    using assms(2) by (auto simp: create_section_def layout_of_spec_def Let_def)
  moreover have e: "section_seats ?sec ?s1 = []"
    using assms(3) by (auto simp: section_seats_empty in_section_def)
  moreover have g: "generate_seats ?sec (layout_counts ?sec) (\<lambda>_. []) (removed_seats ?sec) (accessible_seats ?sec) False ?s1
      = Inr (section_seats ?sec ?s2, ?s2)"
    unfolding generate_seats_Inr cleared_def e by simp
  ultimately have "build_section chart k spec s = Inr (?sec, ?s2)"
    using assms(1) by (simp add: build_section_def layout_counts_def)
  moreover have "drawn ?sec ?s2" using generated_placements [OF g] by (simp add: drawn_def)
  moreover have "list_all (in_section ?sec) (stamp (Suc (db_next s)) ?ps)"
    by (rule in_section_stamp [OF build_section])
  ultimately show ?thesis
    by (intro exI [of _ ?sec] exI [of _ "stamp (Suc (db_next s)) ?ps"] exI [of _ "Suc (db_next s) + length ?ps"]) simp
qed

lemma section_row_fields [simp]:
  "section_chart (section_row.truncate sec) = section_chart sec" "section_name (section_row.truncate sec) = section_name sec"
  by (simp_all add: section_row.truncate_def)

lemma layout_of_spec_fields [simp]:
  "section_chart (layout_of_spec chart k spec) = chart_pk chart" "section_name (layout_of_spec chart k spec) = sp_name spec"
  "section_ordering (layout_of_spec chart k spec) = int k"
  by (simp_all add: layout_of_spec_def Let_def)

lemma build_sections_ok:
  assumes "list_all finite_spec specs" "distinct (map sp_name specs)"
    and "\<forall>x\<in>set (db_sections s). section_chart x = chart_pk chart \<longrightarrow> section_name x \<notin> sp_name ` set specs"
    and "\<forall>r\<in>set (db_seats s). seat_section r < db_next s"
  shows "\<exists>secs s' rows. build_sections chart k specs s = Inr (secs, s') \<and>
     laid_out chart k specs secs \<and> map section_name secs = map sp_name specs \<and>
     map section_ordering secs = map int [k..<k + length specs] \<and> list_all (\<lambda>sec. drawn sec s') secs \<and>
     db_seats s' = db_seats s @ rows \<and> list_all (\<lambda>r. db_next s \<le> seat_section r) rows \<and>
     db_sections s' = db_sections s @ map section_row.truncate secs \<and> list_all (\<lambda>sec. section_chart sec = chart_pk chart) secs"
  using assms
proof (induction specs arbitrary: k s)
  case (Cons spec specs)
  from build_section_ok [of spec s chart k] Cons.prems obtain sec rows n where
    b: "build_section chart k spec s =
       Inr (sec, s\<lparr>db_sections := db_sections s @ [section_row.truncate sec], db_seats := db_seats s @ rows, db_next := n\<rparr>)"
    and sec: "sec = (layout_of_spec chart k spec)\<lparr>section_pk := db_next s\<rparr>" and rows: "list_all (in_section sec) rows"
    and n: "db_next s < n"
    and d: "drawn sec (s\<lparr>db_sections := db_sections s @ [section_row.truncate sec], db_seats := db_seats s @ rows, db_next := n\<rparr>)"
    by fastforce
  let ?s = "s\<lparr>db_sections := db_sections s @ [section_row.truncate sec], db_seats := db_seats s @ rows, db_next := n\<rparr>"
  have rows': "\<forall>r\<in>set rows. seat_section r = db_next s" using rows sec by (simp add: list_all_iff in_section_def)
  have "\<exists>secs s' rows'. build_sections chart (Suc k) specs ?s = Inr (secs, s') \<and>
     laid_out chart (Suc k) specs secs \<and> map section_name secs = map sp_name specs \<and>
     map section_ordering secs = map int [Suc k..<Suc k + length specs] \<and> list_all (\<lambda>sec. drawn sec s') secs \<and>
     db_seats s' = db_seats ?s @ rows' \<and> list_all (\<lambda>r. db_next ?s \<le> seat_section r) rows' \<and>
     db_sections s' = db_sections ?s @ map section_row.truncate secs \<and> list_all (\<lambda>sec. section_chart sec = chart_pk chart) secs"
  proof (rule Cons.IH)
    show "list_all finite_spec specs" "distinct (map sp_name specs)" using Cons.prems by simp_all
    show "\<forall>x\<in>set (db_sections ?s). section_chart x = chart_pk chart \<longrightarrow> section_name x \<notin> sp_name ` set specs"
      using Cons.prems sec by auto
    show "\<forall>r\<in>set (db_seats ?s). seat_section r < db_next ?s" using Cons.prems(4) rows' n by fastforce
  qed
  then obtain secs s' rs where r: "build_sections chart (Suc k) specs ?s = Inr (secs, s')"
    and names: "laid_out chart (Suc k) specs secs" "map section_name secs = map sp_name specs"
    and ords: "map section_ordering secs = map int [Suc k..<Suc k + length specs]"
    and drawn: "list_all (\<lambda>sec. drawn sec s') secs"
    and seats: "db_seats s' = db_seats ?s @ rs" "list_all (\<lambda>r. n \<le> seat_section r) rs"
    and sections: "db_sections s' = db_sections ?s @ map section_row.truncate secs"
    and charts: "list_all (\<lambda>sec. section_chart sec = chart_pk chart) secs" by auto
  have "filter (in_section sec) rs = []"
    using seats(2) n sec by (auto simp: filter_empty_conv list_all_iff in_section_def)
  then have "drawn sec s'" using d seats(1) by (simp add: drawn_cong [of sec s' ?s])
  moreover have "build_sections chart k (spec # specs) s = Inr (sec # secs, s')" using b r by simp
  moreover have "list_all (\<lambda>r. db_next s \<le> seat_section r) (rows @ rs)"
    using rows' seats(2) n by (auto simp: list_all_iff)
  moreover have "map section_ordering (sec # secs) = map int [k..<k + length (spec # specs)]"
  proof -
    have "[k..<k + length (spec # specs)] = k # [Suc k..<Suc k + length specs]"
      by (simp add: upt_conv_Cons del: upt_Suc)
    then show ?thesis using ords sec by simp
  qed
  moreover have "laid_out chart k (spec # specs) (sec # secs)" using names(1) by (simp add: laid_out_def sec)
  ultimately show ?case using names(2) drawn seats(1) sections charts sec
    by (intro exI [of _ "sec # secs"] exI [of _ s'] exI [of _ "rows @ rs"]) simp
qed (auto simp: laid_out_def)

text \<open>A parse with a hallucinated row count, a repeated name and a scheme that does not exist.\<close>

definition box_json :: json where
  "box_json = JDict [(''chart_name'', JStr ''House ''), (''sections'', JList
     [JDict [(''name'', JStr ''Box''), (''rows'', JInt 10000), (''seats_per_row'', JStr ''2''), (''arc_radius'', JInt 0)],
      JNull,
      JDict [(''name'', JStr ''BOX''), (''rows'', JInt 1), (''numbering_scheme'', JStr ''roman''), (''seat_pitch'', JInt 0)]])]"

definition box_section :: "string \<Rightarrow> int \<Rightarrow> int \<Rightarrow> section_spec" where
  "box_section n r c = \<lparr>sp_name = n, sp_tier = '''', sp_rows = r, sp_seats_per_row = c, sp_origin_x = Num 0,
     sp_origin_y = Num 0, sp_rotation = Num 0, sp_seat_pitch = Num 1, sp_row_pitch = Num 1, sp_arc_radius = None,
     sp_offset_mode = ''repeated'', sp_row_x_offset = Num 0, sp_alt_row_seat_delta = 0,
     sp_numbering_scheme = ''sequential'', sp_row_label_scheme = ''skip_io'', sp_row_label_start = 0,
     sp_removed_seats = [], sp_accessible_seats = [], sp_row_alignment = ''edge''\<rparr>"

definition box_chart :: chart_spec where
  "box_chart = \<lparr>cs_chart_name = ''House'', cs_sections = [box_section ''Box'' 100 2, box_section ''BOX (2)'' 1 8]\<rparr>"

lemma box_validated: "validate_chart_spec repr box_json = Inr box_chart"
proof -
  have strings: "strip ''Box'' = ''Box''" "strip ''BOX'' = ''BOX''" "strip ''House '' = ''House''"
    "lower ''Box'' = ''box''" "lower ''BOX'' = ''box''" "lower ''BOX (2)'' = ''box (2)''" "py_int ''2'' = Some 2"
    by code_simp+
  have num: "numbered_name ''BOX'' 2 = ''BOX (2)''" by code_simp
  have u1: "uniquify [] ''Box'' 2 ''Box'' = ''Box''" by (simp add: uniquify_fresh)
  have u2: "uniquify [''box''] ''BOX'' 2 ''BOX'' = ''BOX (2)''"
    by (simp add: uniquify.simps [of _ _ 2] strings num uniquify_fresh)
  have small: "\<not> too_large 0" by (simp add: too_large_def)
  have first: "validate_section repr ''Box'' [(''name'', JStr ''Box''), (''rows'', JInt 10000), (''seats_per_row'', JStr ''2''), (''arc_radius'', JInt 0)]
      = Inr (box_section ''Box'' 100 2)"
    by (simp add: validate_section_def clean_arc_def as_float_def clamp_int_def choice_or_def small strings
        MAX_ROWS_def MAX_SEATS_PER_ROW_def or_one_def with_center_offset_def text_or_blank_def
        seat_identity_list_def box_section_def)
  have second: "validate_section repr ''BOX (2)'' [(''name'', JStr ''BOX''), (''rows'', JInt 1), (''numbering_scheme'', JStr ''roman''), (''seat_pitch'', JInt 0)]
      = Inr (box_section ''BOX (2)'' 1 8)"
    by (simp add: validate_section_def clean_arc_def as_float_def clamp_int_def choice_or_def small strings
        MAX_ROWS_def MAX_SEATS_PER_ROW_def or_one_def with_center_offset_def text_or_blank_def
        seat_identity_list_def box_section_def numbering_values_def)
  show ?thesis
    by (simp add: validate_chart_spec_def box_json_def MAX_SECTIONS_def Let_def section_name_of_def
        text_or_blank_def strings u1 u2 first second box_chart_def)
qed

lemma box_names: "list_all (\<lambda>spec. length (sp_name spec) < 255) (cs_sections box_chart)" "length (cs_chart_name box_chart) < 255"
  by (simp_all add: box_chart_def box_section_def)

section \<open>Properties\<close>

text \<open>
  Validation bounds what a chart may generate, whatever the JSON: a validated spec has
  between 1 and 40 sections, and in each every count, choice, pitch, radius and text length is in
  range, a centered section without an offset of its own carries the derived one, and the names before
  truncation are non-empty, stripped and distinct up to case.
\<close>

theorem validated_spec_is_in_range:
  assumes "validate_chart_spec repr spec = Inr cs"
  shows "1 \<le> length (cs_sections cs) \<and> length (cs_sections cs) \<le> MAX_SECTIONS \<and>
     list_all (\<lambda>spec. in_range spec \<and> centered spec) (cs_sections cs) \<and>
     (\<exists>names. list_all2 (\<lambda>n spec. sp_name spec = take 255 n \<and> n \<noteq> [] \<and> strip n = n) names (cs_sections cs) \<and>
        distinct (map lower names))"
proof -
  from validate_chart_Inr [OF assms] obtain raws where
    v: "validate_sections repr 0 [] (take MAX_SECTIONS raws) = Inr (cs_sections cs)" and ne: "cs_sections cs \<noteq> []" by auto
  from validate_sections_names [OF v] obtain names where n: "list_all2 spec_named names (cs_sections cs)"
    "distinct (map lower names)" by auto
  have "list_all (\<lambda>spec. in_range spec \<and> centered spec) (cs_sections cs)"
    using n(1) by (induction rule: list_all2_induct) (simp_all add: spec_named_def)
  moreover have "list_all2 (\<lambda>n spec. sp_name spec = take 255 n \<and> n \<noteq> [] \<and> strip n = n) names (cs_sections cs)"
    using n(1) by (rule list_all2_mono) (simp add: spec_named_def)
  moreover have "length (cs_sections cs) \<le> MAX_SECTIONS" using validate_sections_length [OF v] by simp
  moreover have "1 \<le> length (cs_sections cs)" using ne by (simp add: Suc_le_eq)
  ultimately show ?thesis using n(2) by blast
qed

theorem validated_spec_is_in_range_witness:
  "list_all (\<lambda>spec. in_range spec \<and> centered spec) [box_section ''Box'' 100 2, box_section ''BOX (2)'' 1 8]"
  using validated_spec_is_in_range [OF box_validated] by (simp add: box_chart_def)

text \<open>
  Validation is idempotent: a spec that has been validated, with no name cut at 255
  characters, passes validation again unchanged, so \<open>build_chart_from_spec\<close> builds exactly the spec
  that was shown.
\<close>

theorem validation_is_idempotent:
  assumes "validate_chart_spec repr spec = Inr cs"
    and "list_all (\<lambda>spec. length (sp_name spec) < 255) (cs_sections cs)" and "length (cs_chart_name cs) < 255"
  shows "validate_chart_spec repr (chart_json cs) = Inr cs"
  by (rule validate_chart_again [OF assms])

theorem validation_is_idempotent_witness: "validate_chart_spec (\<lambda>_. ''?'') (chart_json box_chart) = Inr box_chart"
  by (rule validation_is_idempotent [OF box_validated box_names])

lemma validated_ranges: "validate_chart_spec repr spec = Inr cs \<Longrightarrow> list_all in_range (cs_sections cs)"
proof -
  assume "validate_chart_spec repr spec = Inr cs"
  from validate_chart_Inr [OF this] obtain raws where
    v: "validate_sections repr 0 [] (take MAX_SECTIONS raws) = Inr (cs_sections cs)" by auto
  from validate_sections_names [OF v] obtain names where "list_all2 spec_named names (cs_sections cs)" by auto
  then show ?thesis by (induction rule: list_all2_induct) (simp_all add: spec_named_def)
qed

text \<open>
  Building gives the chart that was shown: for a validated spec of finite
  coordinates whose names were not cut, a chart name that is free on the venue and a key sequence
  ahead of the tables, \<open>build_chart_from_spec\<close> succeeds on the spec's dictionary and leaves a chart whose
  sections are the spec's, in order, each holding exactly the seats its layout implies, while every
  seat that was there stays.
\<close>

theorem build_draws_the_spec:
  assumes "validate_chart_spec repr spec = Inr cs" and "list_all (\<lambda>spec. length (sp_name spec) < 255) (cs_sections cs)"
    and "length (cs_chart_name cs) < 255" and "list_all finite_spec (cs_sections cs)"
    and "\<forall>c\<in>set (db_charts s). chart_pk c < db_next s \<and> \<not> (chart_venue c = venue \<and> chart_name c = cs_chart_name cs)"
    and "\<forall>x\<in>set (db_sections s). section_chart x < db_next s" and "\<forall>r\<in>set (db_seats s). seat_section r < db_next s"
  shows "\<exists>chart secs s' rows. build_chart_from_spec repr organization venue (chart_json cs) '''' False s = Inr (chart, secs, s') \<and>
     chart_name chart = cs_chart_name cs \<and> laid_out chart 0 (cs_sections cs) secs \<and> map section_name secs = map sp_name (cs_sections cs) \<and>
     map section_ordering secs = map int [0..<length (cs_sections cs)] \<and>
     db_sections s' = db_sections s @ map section_row.truncate secs \<and> db_seats s' = db_seats s @ rows \<and>
     list_all (\<lambda>sec. section_chart sec = chart_pk chart \<and> drawn sec s') secs"
proof -
  let ?chart = "\<lparr>chart_pk = db_next s, chart_organization = organization, chart_venue = venue, chart_name = cs_chart_name cs\<rparr>"
  let ?s1 = "s\<lparr>db_charts := db_charts s @ [?chart], db_next := Suc (db_next s)\<rparr>"
  from validate_chart_Inr [OF assms(1)] obtain d raws where
    v: "validate_sections repr 0 [] (take MAX_SECTIONS raws) = Inr (cs_sections cs)"
    and cn: "cs_chart_name cs = take 255 (let n = strip (text_or_blank repr (dict_get ''chart_name'' d))
                                  in if n \<noteq> [] then n else ''Parsed chart'')" by auto
  have "strip ''Parsed chart'' = ''Parsed chart''" by code_simp
  then have name: "strip (cs_chart_name cs) = cs_chart_name cs" "cs_chart_name cs \<noteq> []"
    using cn assms(3) by (auto simp: Let_def split: if_splits)
  from validate_sections_names [OF v] obtain names where n: "list_all2 spec_named names (cs_sections cs)"
    "distinct (map lower names)" by auto
  have "map sp_name (cs_sections cs) = names"
    using n(1) assms(2) by (induction rule: list_all2_induct) (auto simp: spec_named_def)
  then have distinct: "distinct (map sp_name (cs_sections cs))" using n(2) by (simp add: distinct_map)
  have "target_chart organization venue (cs_chart_name cs) False s = Inr (?chart, ?s1)"
  proof -
    have "filter (\<lambda>c. chart_organization c = organization \<and> chart_venue c = venue \<and> chart_name c = cs_chart_name cs) (db_charts s) = []"
      using assms(5) by (auto simp: filter_empty_conv)
    then show ?thesis using assms(5) by (auto simp: target_chart_def create_chart_def Let_def)
  qed
  moreover from build_sections_ok [OF assms(4) distinct, of ?s1 ?chart 0] assms(6,7)
  obtain secs s' rows where "build_sections ?chart 0 (cs_sections cs) ?s1 = Inr (secs, s')"
    and "laid_out ?chart 0 (cs_sections cs) secs" "map section_name secs = map sp_name (cs_sections cs)" "map section_ordering secs = map int [0..<length (cs_sections cs)]"
    "list_all (\<lambda>sec. drawn sec s') secs" "db_seats s' = db_seats s @ rows"
    "db_sections s' = db_sections s @ map section_row.truncate secs" "list_all (\<lambda>sec. section_chart sec = db_next s) secs"
    by fastforce
  moreover have "validate_chart_spec repr (chart_json cs) = Inr cs"
    by (rule validate_chart_again [OF assms(1,2,3)])
  ultimately show ?thesis using name assms(3)
    by (intro exI [of _ ?chart] exI [of _ secs] exI [of _ s'] exI [of _ rows])
      (simp add: build_chart_from_spec_def Let_def list_all_iff)
qed

theorem build_draws_the_spec_witness:
  "\<exists>chart secs s'. build_chart_from_spec (\<lambda>_. ''?'') 1 5 (chart_json box_chart) '''' False demo = Inr (chart, secs, s') \<and>
     map section_name secs = [''Box'', ''BOX (2)''] \<and> list_all (\<lambda>sec. drawn sec s') secs"
proof -
  have "list_all finite_spec (cs_sections box_chart)"
    by (simp add: box_chart_def box_section_def finite_spec_def finite_part_def)
  moreover have "\<forall>c\<in>set (db_charts demo). chart_pk c < db_next demo \<and> \<not> (chart_venue c = 5 \<and> chart_name c = cs_chart_name box_chart)"
    "\<forall>x\<in>set (db_sections demo). section_chart x < db_next demo" "\<forall>r\<in>set (db_seats demo). seat_section r < db_next demo"
    by (simp_all add: fixture_defs box_chart_def)
  ultimately show ?thesis
    using build_draws_the_spec [OF box_validated box_names, where s = demo and venue = 5 and organization = 1]
    by (fastforce simp: box_chart_def box_section_def list_all_iff)
qed

end
