(* ===== verification/ChartIO.thy ===== *)
theory ChartIO
  imports ParsingFacts
begin

text \<open>
  Chart export and import (venues/chart_io.py). The exported JSON is the record \<open>chart_data\<close>; a field
  that the import reads with \<open>dict.get\<close> is an option, absent when the file lacks it. Exporting a chart,
  importing the result under a free name and exporting again gives the same data.
\<close>

section \<open>The exported shape\<close>

record seat_data =
  sd_number :: string
  sd_x :: "real option"
  sd_y :: "real option"
  sd_accessible :: "bool option"

record row_data =
  rd_row_label :: string
  rd_seats :: "seat_data list"

text \<open>A nullable radius that is present is \<open>Some r\<close>; \<open>layout.get("arc_radius")\<close> has no other default.\<close>

record layout_data =
  ld_origin_x :: "real option"
  ld_origin_y :: "real option"
  ld_rotation :: "real option"
  ld_seat_pitch :: "real option"
  ld_row_pitch :: "real option"
  ld_arc_radius :: "real option"
  ld_pivot_mode :: "string option"
  ld_pivot_x :: "real option"
  ld_pivot_y :: "real option"

record section_data =
  scd_name :: string
  scd_ordering :: "int option"
  scd_tier :: "string option"
  scd_numbering_scheme :: "string option"
  scd_row_label_scheme :: "string option"
  scd_row_label_start :: "nat option"
  scd_layout :: layout_data
  scd_rows :: "row_data list"

record chart_data =
  cd_chart_name :: string
  cd_sections :: "section_data list"

section \<open>Export\<close>

definition placement_label :: "identity \<times> real \<times> real \<times> bool \<Rightarrow> string" where
  "placement_label p = fst (fst p)"

definition placement_x :: "identity \<times> real \<times> real \<times> bool \<Rightarrow> real" where
  "placement_x p = fst (snd p)"

definition placement_y :: "identity \<times> real \<times> real \<times> bool \<Rightarrow> real" where
  "placement_y p = fst (snd (snd p))"

definition export_seat :: "identity \<times> real \<times> real \<times> bool \<Rightarrow> seat_data" where
  "export_seat p = \<lparr>sd_number = snd (fst p), sd_x = Some (placement_x p), sd_y = Some (placement_y p),
     sd_accessible = Some (snd (snd (snd p)))\<rparr>"

text \<open>\<open>rows_by_label\<close> keeps the labels in the order they first occur; rows go by least y, then label.\<close>

definition row_order :: "(identity \<times> real \<times> real \<times> bool) list \<Rightarrow> string list" where
  "row_order ps =
     sort_key (\<lambda>label. (Min (set (map placement_y (filter (\<lambda>p. placement_label p = label) ps))), label))
       (fromkeys (map placement_label ps))"

definition export_rows :: "(identity \<times> real \<times> real \<times> bool) list \<Rightarrow> row_data list" where
  "export_rows ps =
     map (\<lambda>label. \<lparr>rd_row_label = label,
            rd_seats = map export_seat (sort_key placement_x (filter (\<lambda>p. placement_label p = label) ps))\<rparr>)
       (row_order ps)"

definition export_layout :: "section_layout \<Rightarrow> layout_data" where
  "export_layout sec = \<lparr>ld_origin_x = Some (origin_x sec), ld_origin_y = Some (origin_y sec),
     ld_rotation = Some (rotation sec), ld_seat_pitch = Some (seat_pitch sec), ld_row_pitch = Some (row_pitch sec),
     ld_arc_radius = arc_radius sec, ld_pivot_mode = Some (pivot_mode sec), ld_pivot_x = Some (pivot_x sec),
     ld_pivot_y = Some (pivot_y sec)\<rparr>"

definition export_section :: "section_layout \<Rightarrow> db \<Rightarrow> section_data" where
  "export_section sec s = \<lparr>scd_name = section_name sec, scd_ordering = Some (section_ordering sec),
     scd_tier = Some (section_tier sec), scd_numbering_scheme = Some (numbering_scheme sec),
     scd_row_label_scheme = Some (row_label_scheme sec), scd_row_label_start = Some (row_label_start sec),
     scd_layout = export_layout sec, scd_rows = export_rows (map placement (section_seats sec s))\<rparr>"

definition chart_sections :: "seating_chart \<Rightarrow> section_layout list \<Rightarrow> section_layout list" where
  "chart_sections chart lays =
     order_by (\<lambda>sec. (section_ordering sec, section_name sec)) (filter (\<lambda>sec. section_chart sec = chart_pk chart) lays)"

definition export_chart_data :: "seating_chart \<Rightarrow> section_layout list \<Rightarrow> db \<Rightarrow> chart_data" where
  "export_chart_data chart lays s =
     \<lparr>cd_chart_name = chart_name chart, cd_sections = map (\<lambda>sec. export_section sec s) (chart_sections chart lays)\<rparr>"

section \<open>Import\<close>

definition get_or :: "'a option \<Rightarrow> 'a \<Rightarrow> 'a" where
  "get_or r d = (case r of None \<Rightarrow> d | Some a \<Rightarrow> a)"

definition layout_of_data :: "seating_chart \<Rightarrow> section_data \<Rightarrow> section_layout" where
  "layout_of_data chart d =
     (let l = scd_layout d
      in \<lparr>section_pk = 0, section_organization = chart_organization chart, section_chart = chart_pk chart,
          section_name = scd_name d, section_ordering = get_or (scd_ordering d) 0,
          section_tier = get_or (scd_tier d) '''',
          origin_x = get_or (ld_origin_x l) 0, origin_y = get_or (ld_origin_y l) 0,
          rotation = get_or (ld_rotation l) 0, seat_pitch = get_or (ld_seat_pitch l) 1,
          row_pitch = get_or (ld_row_pitch l) 1, row_x_offset = 0, offset_mode = ''repeated'',
          alt_row_seat_delta = 0, arc_radius = ld_arc_radius l,
          pivot_mode = get_or (ld_pivot_mode l) ''center'', pivot_x = get_or (ld_pivot_x l) 0,
          pivot_y = get_or (ld_pivot_y l) 0, shape_rows = 4, seats_per_row = 8, removed_seats = [],
          accessible_seats = [], numbering_scheme = get_or (scd_numbering_scheme d) ''sequential'',
          row_label_scheme = get_or (scd_row_label_scheme d) ''skip_io'',
          row_label_start = get_or (scd_row_label_start d) 0\<rparr>)"

definition seat_of_data :: "section_layout \<Rightarrow> string \<Rightarrow> seat_data \<Rightarrow> seat" where
  "seat_of_data sec label d =
     \<lparr>seat_pk = 0, seat_organization = section_organization sec, seat_section = section_pk sec,
      seat_row_label = label, seat_number = sd_number d, seat_x = get_or (sd_x d) 0, seat_y = get_or (sd_y d) 0,
      seat_is_accessible = get_or (sd_accessible d) False\<rparr>"

definition seats_of_data :: "section_layout \<Rightarrow> row_data list \<Rightarrow> seat list" where
  "seats_of_data sec rws = concat (map (\<lambda>r. map (seat_of_data sec (rd_row_label r)) (rd_seats r)) rws)"

definition import_section :: "seating_chart \<Rightarrow> section_data \<Rightarrow> db \<Rightarrow> chart_error + (section_layout \<times> db)" where
  "import_section chart d s =
     bindE (create_section (layout_of_data chart d) s) (\<lambda>(sec, s1).
     case create_seats (seats_of_data sec (scd_rows d)) s1 of
       Inl e \<Rightarrow> Inl (GenerationFailed e)
     | Inr s2 \<Rightarrow> Inr (sec, s2))"

fun import_sections :: "seating_chart \<Rightarrow> section_data list \<Rightarrow> db \<Rightarrow> chart_error + (section_layout list \<times> db)" where
  "import_sections chart [] s = Inr ([], s)"
| "import_sections chart (d # ds) s =
     bindE (import_section chart d s) (\<lambda>(sec, s1).
     bindE (import_sections chart ds s1) (\<lambda>(secs, s2). Inr (sec # secs, s2)))"

definition import_chart_data ::
  "nat \<Rightarrow> nat \<Rightarrow> chart_data \<Rightarrow> string \<Rightarrow> bool \<Rightarrow> db \<Rightarrow> chart_error + (seating_chart \<times> section_layout list \<times> db)" where
  "import_chart_data organization venue data name replace s =
     bindE (target_chart organization venue (if name \<noteq> [] then name else cd_chart_name data) replace s) (\<lambda>(chart, s1).
     bindE (import_sections chart (cd_sections data) s1) (\<lambda>(secs, s2). Inr (chart, secs, s2)))"

section \<open>The round trip\<close>

lemma placement_of_exported:
  "placement_label p = label \<Longrightarrow> placement (seat_of_data sec label (export_seat p)) = p"
  by (cases p) (auto simp: placement_def seat_identity_def seat_of_data_def export_seat_def get_or_def
      placement_label_def placement_x_def placement_y_def)

lemma exported_placements:
  "map placement (seats_of_data sec (export_rows ps)) =
     concat (map (\<lambda>label. sort_key placement_x (filter (\<lambda>p. placement_label p = label) ps)) (row_order ps))"
proof -
  have "map placement (map (seat_of_data sec label) (map export_seat (sort_key placement_x (filter (\<lambda>p. placement_label p = label) ps))))
      = sort_key placement_x (filter (\<lambda>p. placement_label p = label) ps)" for label
    unfolding map_map by (rule map_idI) (simp add: placement_of_exported)
  then show ?thesis
    by (simp add: seats_of_data_def export_rows_def map_concat comp_def)
qed

lemma set_row_order: "set (row_order ps) = placement_label ` set ps" "distinct (row_order ps)"
  by (simp_all add: row_order_def)

lemma exported_rows_back:
  assumes "distinct (map fst ps)"
  shows "distinct (map fst (map placement (seats_of_data sec (export_rows ps)))) \<and>
     sort_key fst (map placement (seats_of_data sec (export_rows ps))) = sort_key fst ps"
proof -
  have s: "set (map placement (seats_of_data sec (export_rows ps))) = set ps"
    unfolding exported_placements using set_row_order(1) by auto
  have d: "distinct (map fst (map placement (seats_of_data sec (export_rows ps))))"
    unfolding exported_placements
  proof (rule distinct_concat_labelled [where f = "\<lambda>l. l"])
    show "distinct (map (\<lambda>l. l) (row_order ps))" using set_row_order(2) by simp
  next
    fix label show "distinct (map fst (sort_key placement_x (filter (\<lambda>p. placement_label p = label) ps)))"
      using assms by (auto simp: distinct_map intro: inj_on_subset)
  qed (auto simp: placement_label_def)
  from sort_key_set_eq [OF s d assms] d show ?thesis by simp
qed

lemma seats_of_data_section: "list_all (in_section sec) (seats_of_data sec rws)"
  by (auto simp: list_all_iff seats_of_data_def seat_of_data_def in_section_def)

text \<open>One section that a file describes, imported where its name is free.\<close>

definition importable :: "section_data \<Rightarrow> bool" where
  "importable d \<longleftrightarrow> distinct (map seat_identity (seats_of_data (layout_of_data \<lparr>chart_pk = 0, chart_organization = 0, chart_venue = 0, chart_name = ''''\<rparr> d) (scd_rows d)))"

definition imported :: "seating_chart \<Rightarrow> section_data \<Rightarrow> section_layout \<Rightarrow> db \<Rightarrow> bool" where
  "imported chart d sec s \<longleftrightarrow>
     sec = (layout_of_data chart d)\<lparr>section_pk := section_pk sec\<rparr> \<and>
     map placement (section_seats sec s) = sort_key fst (map placement (seats_of_data sec (scd_rows d)))"

lemma identities_of_data: "map seat_identity (seats_of_data sec rws) = map seat_identity (seats_of_data sec' rws)"
  by (simp add: seats_of_data_def map_concat comp_def seat_of_data_def seat_identity_def)

lemma layout_of_data_fields [simp]:
  "section_chart (layout_of_data chart d) = chart_pk chart" "section_name (layout_of_data chart d) = scd_name d"
  by (simp_all add: layout_of_data_def Let_def)

lemma import_section_ok:
  assumes "importable d" "\<forall>x\<in>set (db_sections s). \<not> (section_chart x = chart_pk chart \<and> section_name x = scd_name d)"
    and "\<forall>r\<in>set (db_seats s). seat_section r < db_next s"
  shows "\<exists>sec rows n. import_section chart d s =
       Inr (sec, s\<lparr>db_sections := db_sections s @ [section_row.truncate sec], db_seats := db_seats s @ rows, db_next := n\<rparr>) \<and>
     section_pk sec = db_next s \<and> list_all (in_section sec) rows \<and> db_next s < n \<and>
     imported chart d sec (s\<lparr>db_sections := db_sections s @ [section_row.truncate sec], db_seats := db_seats s @ rows, db_next := n\<rparr>)"
proof -
  let ?sec = "(layout_of_data chart d)\<lparr>section_pk := db_next s\<rparr>"
  let ?s1 = "s\<lparr>db_sections := db_sections s @ [section_row.truncate ?sec], db_next := Suc (db_next s)\<rparr>"
  let ?ps = "seats_of_data ?sec (scd_rows d)"
  let ?rows = "stamp (Suc (db_next s)) ?ps" and ?n = "Suc (db_next s) + length ?ps"
  have fresh: "\<forall>x\<in>set (db_seats ?s1). \<not> in_section ?sec x" using assms(3) by (auto simp: in_section_def)
  have "distinct (map seat_identity ?ps)" using assms(1) identities_of_data by (metis importable_def)
  from create_seats_ok [OF seats_of_data_section this, of ?s1] fresh
  have c: "create_seats ?ps ?s1 = Inr (?s1\<lparr>db_seats := db_seats s @ ?rows, db_next := ?n\<rparr>)" by simp
  have "create_section (layout_of_data chart d) s = Inr (?sec, ?s1)"
    using assms(2) by (auto simp: create_section_def Let_def)
  then have "import_section chart d s =
      Inr (?sec, s\<lparr>db_sections := db_sections s @ [section_row.truncate ?sec], db_seats := db_seats s @ ?rows, db_next := ?n\<rparr>)"
    using c by (simp add: import_section_def)
  moreover from section_after_create [OF seats_of_data_section fresh, where k = "Suc (db_next s)" and m = ?n]
  have "imported chart d ?sec (s\<lparr>db_sections := db_sections s @ [section_row.truncate ?sec], db_seats := db_seats s @ ?rows, db_next := ?n\<rparr>)"
    by (simp add: imported_def section_seats_def)
  ultimately show ?thesis
    using in_section_stamp [OF seats_of_data_section]
    by (intro exI [of _ ?sec] exI [of _ ?rows] exI [of _ ?n]) simp
qed

lemma imported_cong:
  "filter (in_section sec) (db_seats t) = filter (in_section sec) (db_seats s) \<Longrightarrow> imported chart d sec t = imported chart d sec s"
  by (simp add: imported_def section_seats_def)

lemma stamped_layout: "sec = (layout_of_data chart d)\<lparr>section_pk := k\<rparr> \<Longrightarrow>
    section_name sec = scd_name d \<and> section_chart sec = chart_pk chart"
  by simp

lemma imported_name: "imported chart d sec s \<Longrightarrow> section_name sec = scd_name d"
  unfolding imported_def using stamped_layout by blast

lemma imported_chart: "imported chart d sec s \<Longrightarrow> section_chart sec = chart_pk chart"
  unfolding imported_def using stamped_layout by blast

lemma import_sections_ok:
  assumes "list_all importable ds" "distinct (map scd_name ds)"
    and "\<forall>x\<in>set (db_sections s). section_chart x = chart_pk chart \<longrightarrow> section_name x \<notin> scd_name ` set ds"
    and "\<forall>r\<in>set (db_seats s). seat_section r < db_next s"
  shows "\<exists>secs s' rows. import_sections chart ds s = Inr (secs, s') \<and>
     list_all2 (\<lambda>d sec. imported chart d sec s') ds secs \<and>
     db_seats s' = db_seats s @ rows \<and> list_all (\<lambda>r. db_next s \<le> seat_section r) rows"
  using assms
proof (induction ds arbitrary: s)
  case (Cons d ds)
  from import_section_ok [of d s chart] Cons.prems obtain sec rows n where
    b: "import_section chart d s =
       Inr (sec, s\<lparr>db_sections := db_sections s @ [section_row.truncate sec], db_seats := db_seats s @ rows, db_next := n\<rparr>)"
    and sec: "section_pk sec = db_next s" and rows: "list_all (in_section sec) rows" and n: "db_next s < n"
    and i: "imported chart d sec (s\<lparr>db_sections := db_sections s @ [section_row.truncate sec], db_seats := db_seats s @ rows, db_next := n\<rparr>)"
    by fastforce
  let ?s = "s\<lparr>db_sections := db_sections s @ [section_row.truncate sec], db_seats := db_seats s @ rows, db_next := n\<rparr>"
  have rows': "\<forall>r\<in>set rows. seat_section r = db_next s" using rows sec by (simp add: list_all_iff in_section_def)
  have name: "section_name sec = scd_name d"
    by (rule imported_name [OF i])
  have "\<exists>secs s' rs. import_sections chart ds ?s = Inr (secs, s') \<and> list_all2 (\<lambda>d sec. imported chart d sec s') ds secs \<and>
     db_seats s' = db_seats ?s @ rs \<and> list_all (\<lambda>r. db_next ?s \<le> seat_section r) rs"
  proof (rule Cons.IH)
    show "list_all importable ds" "distinct (map scd_name ds)" using Cons.prems by simp_all
    show "\<forall>x\<in>set (db_sections ?s). section_chart x = chart_pk chart \<longrightarrow> section_name x \<notin> scd_name ` set ds"
      using Cons.prems name by auto
    show "\<forall>r\<in>set (db_seats ?s). seat_section r < db_next ?s" using Cons.prems(4) rows' n by fastforce
  qed
  then obtain secs s' rs where r: "import_sections chart ds ?s = Inr (secs, s')"
    and l: "list_all2 (\<lambda>d sec. imported chart d sec s') ds secs"
    and seats: "db_seats s' = db_seats ?s @ rs" "list_all (\<lambda>r. n \<le> seat_section r) rs" by auto
  have "filter (in_section sec) rs = []"
    using seats(2) n sec by (auto simp: filter_empty_conv list_all_iff in_section_def)
  then have "imported chart d sec s'" using i seats(1) by (simp add: imported_cong [of sec s' ?s])
  moreover have "list_all (\<lambda>r. db_next s \<le> seat_section r) (rows @ rs)"
    using rows' seats(2) n by (auto simp: list_all_iff)
  ultimately show ?case using b r l seats(1)
    by (intro exI [of _ "sec # secs"] exI [of _ s'] exI [of _ "rows @ rs"]) simp
qed auto

lemma distinct_map_sort: "distinct (map f (sort_key g xs)) = distinct (map f xs)"
  by (rule mset_eq_imp_distinct_iff) simp

lemma section_placements_sorted:
  assumes "unique_seats s"
  shows "distinct (map fst (map placement (section_seats sec s)))"
    "sort_key fst (map placement (section_seats sec s)) = map placement (section_seats sec s)"
proof -
  let ?rs = "filter (in_section sec) (db_seats s)"
  have e: "map placement (section_seats sec s) = sort_key fst (map placement ?rs)"
    by (simp add: section_seats_def sort_by_identity)
  have "distinct (map fst (map placement ?rs))"
    using unique_seats_section [OF assms, of sec] by (simp add: comp_def seat_identity_placement [symmetric])
  then show "distinct (map fst (map placement (section_seats sec s)))"
    unfolding e distinct_map_sort .
  show "sort_key fst (map placement (section_seats sec s)) = map placement (section_seats sec s)"
    unfolding e by (rule sort_key_id_if_sorted) simp
qed

lemma exported_importable: "unique_seats s \<Longrightarrow> importable (export_section sec s)"
  using exported_rows_back [OF section_placements_sorted(1)]
  by (simp add: importable_def export_section_def comp_def seat_identity_placement [symmetric])

text \<open>A section imported from an export is exported the same.\<close>

lemma stamped_export:
  assumes "sec' = (layout_of_data chart (export_section sec s))\<lparr>section_pk := k\<rparr>"
    and "map placement (section_seats sec' s') = map placement (section_seats sec s)"
  shows "export_section sec' s' = export_section sec s"
proof -
  have "export_layout sec' = export_layout sec"
    unfolding assms(1) by (simp add: export_layout_def layout_of_data_def export_section_def get_or_def Let_def)
  moreover have "section_name sec' = section_name sec" "section_ordering sec' = section_ordering sec"
    "section_tier sec' = section_tier sec" "numbering_scheme sec' = numbering_scheme sec"
    "row_label_scheme sec' = row_label_scheme sec" "row_label_start sec' = row_label_start sec"
    unfolding assms(1) by (simp_all add: layout_of_data_def export_section_def get_or_def Let_def)
  ultimately show ?thesis by (simp add: export_section_def assms(2))
qed

lemma imported_export:
  assumes "imported chart (export_section sec s) sec' s'" "unique_seats s"
  shows "export_section sec' s' = export_section sec s"
proof (rule stamped_export)
  show "sec' = (layout_of_data chart (export_section sec s))\<lparr>section_pk := section_pk sec'\<rparr>"
    using assms(1) by (simp add: imported_def)
  have "scd_rows (export_section sec s) = export_rows (map placement (section_seats sec s))"
    by (simp add: export_section_def)
  with assms(1) exported_rows_back [OF section_placements_sorted(1) [OF assms(2)]]
    section_placements_sorted(2) [OF assms(2)]
  show "map placement (section_seats sec' s') = map placement (section_seats sec s)"
    by (simp add: imported_def)
qed

lemma export_section_keys:
  "export_section sec' s' = export_section sec s \<Longrightarrow>
     section_ordering sec' = section_ordering sec \<and> section_name sec' = section_name sec"
  by (simp add: export_section_def)

text \<open>
  The export leaves out the shape and the overrides: an imported section has the default shape,
  whatever the exported one had, so the editor's next save regenerates other seats.
\<close>

lemma import_forgets_the_shape:
  "shape_rows (layout_of_data chart (export_section sec s)) = 4 \<and>
   seats_per_row (layout_of_data chart (export_section sec s)) = 8 \<and>
   row_x_offset (layout_of_data chart (export_section sec s)) = 0 \<and>
   removed_seats (layout_of_data chart (export_section sec s)) = []"
  by (simp add: layout_of_data_def export_section_def Let_def)

section \<open>Properties\<close>

text \<open>
  Property C21. Export and import are a round trip on the exported data: importing what was exported
  from a chart, under a name that is free on the venue and with the key sequence ahead of the tables,
  succeeds, and exporting the new chart gives the same sections, rows and seats in the same order.
\<close>

theorem chart_export_import_roundtrip:
  assumes "unique_seats s" and "distinct (map section_name (filter (\<lambda>sec. section_chart sec = chart_pk chart) lays))"
    and "nm \<noteq> []" and "\<forall>c\<in>set (db_charts s). \<not> (chart_venue c = venue \<and> chart_name c = nm)"
    and "\<forall>sec\<in>set lays. section_chart sec < db_next s"
    and "\<forall>x\<in>set (db_sections s). section_chart x < db_next s" and "\<forall>r\<in>set (db_seats s). seat_section r < db_next s"
  shows "\<exists>chart' secs s'.
     import_chart_data organization venue (export_chart_data chart lays s) nm False s = Inr (chart', secs, s') \<and>
     export_chart_data chart' (lays @ secs) s' = (export_chart_data chart lays s)\<lparr>cd_chart_name := nm\<rparr>"
proof -
  let ?chart = "\<lparr>chart_pk = db_next s, chart_organization = organization, chart_venue = venue, chart_name = nm\<rparr>"
  let ?s1 = "s\<lparr>db_charts := db_charts s @ [?chart], db_next := Suc (db_next s)\<rparr>"
  let ?old = "chart_sections chart lays"
  let ?ds = "map (\<lambda>sec. export_section sec s) ?old"
  have t: "target_chart organization venue nm False s = Inr (?chart, ?s1)"
  proof -
    have "filter (\<lambda>c. chart_organization c = organization \<and> chart_venue c = venue \<and> chart_name c = nm) (db_charts s) = []"
      using assms(4) by (auto simp: filter_empty_conv)
    then show ?thesis using assms(4) by (auto simp: target_chart_def create_chart_def Let_def)
  qed
  have "list_all importable ?ds" using exported_importable [OF assms(1)] by (simp add: list_all_iff)
  moreover have "distinct (map scd_name ?ds)"
    using assms(2) by (simp add: chart_sections_def order_by_def export_section_def comp_def distinct_map_sort)
  ultimately obtain secs s' where i: "import_sections ?chart ?ds ?s1 = Inr (secs, s')"
    and l: "list_all2 (\<lambda>d sec. imported ?chart d sec s') ?ds secs"
    using import_sections_ok [of ?ds ?s1 ?chart] assms(6,7) by fastforce
  have same: "list_all2 (\<lambda>sec sec'. export_section sec' s' = export_section sec s \<and> section_chart sec' = db_next s) ?old secs"
  proof (rule list_all2_mono)
    show "list_all2 (\<lambda>sec sec'. imported ?chart (export_section sec s) sec' s') ?old secs"
      using l by (simp add: list_all2_map1)
    fix sec sec' assume i: "imported ?chart (export_section sec s) sec' s'"
    from imported_export [OF i assms(1)] imported_chart [OF i]
    show "export_section sec' s' = export_section sec s \<and> section_chart sec' = db_next s" by simp
  qed
  then have exports: "map (\<lambda>sec. export_section sec s') secs = ?ds"
    by (induction rule: list_all2_induct) auto
  from same have keys: "map (\<lambda>sec. (section_ordering sec, section_name sec)) secs = map (\<lambda>sec. (section_ordering sec, section_name sec)) ?old"
    by (induction rule: list_all2_induct) (auto dest: export_section_keys)
  from same have charts: "\<forall>sec\<in>set secs. section_chart sec = db_next s"
    by (induction rule: list_all2_induct) auto
  have "filter (\<lambda>sec. section_chart sec = db_next s) (lays @ secs) = secs"
    using charts assms(5) by (auto simp: filter_empty_conv filter_id_conv)
  moreover have "order_by (\<lambda>sec. (section_ordering sec, section_name sec)) secs = secs"
    unfolding order_by_def by (rule sort_key_id_if_sorted) (simp add: keys chart_sections_def order_by_def)
  ultimately have "chart_sections ?chart (lays @ secs) = secs" by (simp add: chart_sections_def)
  then have "export_chart_data ?chart (lays @ secs) s' = (export_chart_data chart lays s)\<lparr>cd_chart_name := nm\<rparr>"
    using exports by (simp add: export_chart_data_def)
  moreover have "import_chart_data organization venue (export_chart_data chart lays s) nm False s = Inr (?chart, secs, s')"
    using t i assms(3) by (simp add: import_chart_data_def export_chart_data_def)
  ultimately show ?thesis by blast
qed

theorem chart_export_import_roundtrip_witness:
  "\<exists>chart' secs s'. import_chart_data 1 5 (export_chart_data house_chart [stalls_layout] demo) ''Copy'' False demo = Inr (chart', secs, s') \<and>
     export_chart_data chart' ([stalls_layout] @ secs) s' = (export_chart_data house_chart [stalls_layout] demo)\<lparr>cd_chart_name := ''Copy''\<rparr>"
  by (rule chart_export_import_roundtrip [OF demo_unique_seats]) (simp_all add: fixture_defs stalls_layout_def)

end
