(* ===== verification/ChartEditor.thy ===== *)
theory ChartEditor
  imports ParsingFacts
begin

text \<open>
  The chart editor's save (dashboard/views.py: \<open>_SECTION_PARAM_FIELDS\<close>, \<open>_clean_identity_pairs\<close>,
  \<open>chart_editor_save\<close>), after the manager gate (theory Access). The payload is decoded JSON. The table
  of sections with their layouts stands beside the database; the section objects the loop has read are
  kept apart from it, as in the code, where a failed section keeps the attributes already set on it.
\<close>

section \<open>Reading the payload\<close>

definition section_param_fields :: "string list" where
  "section_param_fields =
     [''origin_x'', ''origin_y'', ''rotation'', ''seat_pitch'', ''row_pitch'', ''row_x_offset'',
      ''arc_radius'', ''offset_mode'', ''alt_row_seat_delta'', ''rows'', ''seats_per_row'',
      ''numbering_scheme'', ''row_label_scheme'', ''row_label_start'', ''pivot_mode'', ''pivot_x'', ''pivot_y'']"

definition clean_identity_pairs :: "(json \<Rightarrow> string) \<Rightarrow> json \<Rightarrow> identity list" where
  "clean_identity_pairs repr raw =
     (case raw of
        JList items \<Rightarrow>
          concat (map (\<lambda>item. case item of
                         JList [JStr label, number] \<Rightarrow> (if label \<noteq> [] then [(label, json_str repr number)] else [])
                       | _ \<Rightarrow> []) items)
      | _ \<Rightarrow> [])"

definition set_float_field :: "string \<Rightarrow> real \<Rightarrow> section_layout \<Rightarrow> section_layout" where
  "set_float_field field x sec =
     (if field = ''origin_x'' then sec\<lparr>origin_x := x\<rparr>
      else if field = ''origin_y'' then sec\<lparr>origin_y := x\<rparr>
      else if field = ''rotation'' then sec\<lparr>rotation := x\<rparr>
      else if field = ''seat_pitch'' then sec\<lparr>seat_pitch := x\<rparr>
      else if field = ''row_pitch'' then sec\<lparr>row_pitch := x\<rparr>
      else if field = ''pivot_x'' then sec\<lparr>pivot_x := x\<rparr>
      else if field = ''pivot_y'' then sec\<lparr>pivot_y := x\<rparr>
      else sec)"

definition set_choice_field :: "string \<Rightarrow> string \<Rightarrow> section_layout \<Rightarrow> section_layout" where
  "set_choice_field field v sec =
     (if field = ''offset_mode'' then sec\<lparr>offset_mode := v\<rparr>
      else if field = ''numbering_scheme'' then sec\<lparr>numbering_scheme := v\<rparr>
      else if field = ''row_label_scheme'' then sec\<lparr>row_label_scheme := v\<rparr>
      else sec\<lparr>pivot_mode := v\<rparr>)"

text \<open>\<open>float(v)\<close>, \<open>int(v)\<close> with their exceptions; an infinity or a NaN leaves the model.\<close>

definition float_arg :: "json \<Rightarrow> chart_error + pyfloat" where
  "float_arg v = (case json_float v of Inl e \<Rightarrow> Inl (Uncaught e) | Inr x \<Rightarrow> Inr x)"

definition finite_arg :: "json \<Rightarrow> chart_error + real" where
  "finite_arg v = bindE (float_arg v) (\<lambda>x. or_raise (finite_part x) NonFiniteLayout)"

definition int_arg :: "json \<Rightarrow> chart_error + int" where
  "int_arg v = (case json_int v of Inl e \<Rightarrow> Inl (Uncaught e) | Inr n \<Rightarrow> Inr n)"

text \<open>\<open>raw in (None, "", 0)\<close>: zero is equal to \<open>0.0\<close> and to \<open>False\<close>.\<close>

definition blank_radius :: "json \<Rightarrow> bool" where
  "blank_radius v \<longleftrightarrow> v \<in> {JNull, JStr '''', JInt 0, JFloat (Num 0), JBool False}"

definition apply_field :: "(json \<Rightarrow> string) \<Rightarrow> string \<Rightarrow> json \<Rightarrow> section_layout \<Rightarrow> chart_error + section_layout" where
  "apply_field repr field v sec =
     (if field \<in> {''offset_mode'', ''numbering_scheme'', ''row_label_scheme'', ''pivot_mode''}
        then Inr (set_choice_field field (json_str repr v) sec)
      else if field = ''arc_radius''
        then (if blank_radius v then Inr (sec\<lparr>arc_radius := None\<rparr>)
              else bindE (finite_arg v) (\<lambda>x. Inr (sec\<lparr>arc_radius := Some x\<rparr>)))
      else if field = ''alt_row_seat_delta''
        then bindE (int_arg v) (\<lambda>n. Inr (sec\<lparr>alt_row_seat_delta := max (-1) (min 1 n)\<rparr>))
      else if field = ''row_x_offset''
        then bindE (float_arg v) (\<lambda>x. Inr (sec\<lparr>row_x_offset := cap_offset x\<rparr>))
      else if field = ''rows'' then bindE (int_arg v) (\<lambda>n. Inr (sec\<lparr>shape_rows := nat (max 1 n)\<rparr>))
      else if field = ''seats_per_row'' then bindE (int_arg v) (\<lambda>n. Inr (sec\<lparr>seats_per_row := nat (max 1 n)\<rparr>))
      else if field = ''row_label_start'' then bindE (int_arg v) (\<lambda>n. Inr (sec\<lparr>row_label_start := nat (max 0 n)\<rparr>))
      else bindE (finite_arg v) (\<lambda>x. Inr (set_float_field field x sec)))"

text \<open>The attribute loop stops at the first exception and keeps what it has set.\<close>

fun apply_fields ::
  "(json \<Rightarrow> string) \<Rightarrow> string list \<Rightarrow> (string \<times> json) list \<Rightarrow> section_layout \<Rightarrow> section_layout \<times> chart_error option" where
  "apply_fields repr [] raw sec = (sec, None)"
| "apply_fields repr (field # rest) raw sec =
     (case map_of raw field of
        None \<Rightarrow> apply_fields repr rest raw sec
      | Some v \<Rightarrow> (case apply_field repr field v sec of
            Inl e \<Rightarrow> (sec, Some e)
          | Inr sec' \<Rightarrow> apply_fields repr rest raw sec'))"

section \<open>Saving one section\<close>

text \<open>The atomic block: move in place, or regenerate when the roster changed.\<close>

definition save_layout ::
  "section_layout \<Rightarrow> identity list \<Rightarrow> identity list \<Rightarrow> db \<Rightarrow> generation_error + (section_layout \<times> db)" where
  "save_layout sec removed accessible s =
     bindE (case reposition_seats sec (layout_counts sec) removed accessible s of
              Inl SeatRosterChanged \<Rightarrow> generate_seats sec (layout_counts sec) (\<lambda>_. []) removed accessible True s
            | r \<Rightarrow> r) (\<lambda>(_, s').
     Inr (sec\<lparr>removed_seats := sort (remdups removed), accessible_seats := sort (remdups accessible)\<rparr>, s'))"

text \<open>\<open>except SeatGenerationError\<close> does not catch what the database raises.\<close>

definition caught :: "generation_error \<Rightarrow> bool" where
  "caught e \<longleftrightarrow> (case e of SeatsProtected \<Rightarrow> False | UniqueSeatPerSection \<Rightarrow> False | _ \<Rightarrow> True)"

section \<open>The handler\<close>

datatype save_error = InvalidParameter | Refused generation_error

datatype editor_response =
    ChartNotFound
  | InvalidBody
  | NoSectionsGiven
  | InvalidSectionId
  | EditorCrash chart_error
  | EditorSaved "nat list" "(string \<times> save_error) list"

text \<open>Replacing an object, or a row, by its key.\<close>

definition put_section :: "section_layout \<Rightarrow> section_layout list \<Rightarrow> section_layout list" where
  "put_section sec = map (\<lambda>x. if section_pk x = section_pk sec then sec else x)"

text \<open>One turn of the loop: what happens to one entry of the payload.\<close>

datatype section_outcome = Skipped | Rejected section_layout save_error | Crashed chart_error | Stored section_layout db

definition save_one :: "(json \<Rightarrow> string) \<Rightarrow> string \<Rightarrow> json \<Rightarrow> section_layout list \<Rightarrow> db \<Rightarrow> section_outcome" where
  "save_one repr section_id raw objs s =
     (case (first_row (filter (\<lambda>x. py_int section_id = Some (int (section_pk x))) objs), raw) of
        (Some sec, JDict d) \<Rightarrow>
          (case apply_fields repr section_param_fields d sec of
             (sec', Some e) \<Rightarrow>
               if e = Uncaught TypeErr \<or> e = Uncaught ValueErr then Rejected sec' InvalidParameter else Crashed e
           | (sec', None) \<Rightarrow>
               (case save_layout sec' (clean_identity_pairs repr (dict_get ''removed'' d))
                       (clean_identity_pairs repr (dict_get ''accessible'' d)) s of
                  Inl e \<Rightarrow> if caught e then Rejected sec' (Refused e) else Crashed (GenerationFailed e)
                | Inr (sec'', s') \<Rightarrow> Stored sec'' s'))
      | _ \<Rightarrow> Skipped)"

text \<open>
  The loop over the payload: \<open>objs\<close> are the section objects read once, \<open>lays\<close> the table. A key that is
  not an integer has been refused before the loop.
\<close>

fun save_sections ::
  "(json \<Rightarrow> string) \<Rightarrow> (string \<times> json) list \<Rightarrow> section_layout list \<Rightarrow> nat list \<Rightarrow> (string \<times> save_error) list \<Rightarrow>
     section_layout list \<Rightarrow> db \<Rightarrow> editor_response \<times> section_layout list \<times> db" where
  "save_sections repr [] objs saved errors lays s = (EditorSaved saved errors, lays, s)"
| "save_sections repr ((section_id, raw) # rest) objs saved errors lays s =
     (case save_one repr section_id raw objs s of
        Skipped \<Rightarrow> save_sections repr rest objs saved errors lays s
      | Rejected sec e \<Rightarrow> save_sections repr rest (put_section sec objs) saved (errors @ [(section_id, e)]) lays s
      | Crashed e \<Rightarrow> (EditorCrash e, lays, s)
      | Stored sec s' \<Rightarrow>
          save_sections repr rest (put_section sec objs) (saved @ [section_pk sec]) errors (put_section sec lays) s')"

definition chart_editor_save ::
  "(json \<Rightarrow> string) \<Rightarrow> nat \<Rightarrow> nat \<Rightarrow> json option \<Rightarrow> section_layout list \<times> db \<Rightarrow> editor_response \<times> section_layout list \<times> db" where
  "chart_editor_save repr organization chart_key body st =
     (if \<not> (\<exists>c\<in>set (db_charts (snd st)). chart_pk c = chart_key \<and> chart_organization c = organization)
        then (ChartNotFound, st)
      else case body of
             Some (JDict d) \<Rightarrow>
               (case dict_get ''sections'' d of
                  JDict sections_payload \<Rightarrow>
                    if sections_payload = [] then (NoSectionsGiven, st)
                    else if list_ex (\<lambda>p. py_int (fst p) = None) sections_payload then (InvalidSectionId, st)
                    else save_sections repr sections_payload
                           (filter (\<lambda>x. section_organization x = organization \<and> section_chart x = chart_key \<and>
                                       (\<exists>p\<in>set sections_payload. py_int (fst p) = Some (int (section_pk x)))) (fst st))
                           [] [] (fst st) (snd st)
                | _ \<Rightarrow> (NoSectionsGiven, st))
           | Some _ \<Rightarrow> (EditorCrash (Uncaught AttributeErr), st)
           | None \<Rightarrow> (InvalidBody, st))"


section \<open>What a save leaves alone\<close>

text \<open>Every live ticket stays as it is, and so do the key, section and identity of its seat.\<close>

definition keeps_live_seats :: "db \<Rightarrow> db \<Rightarrow> bool" where
  "keeps_live_seats s s' \<longleftrightarrow>
     (\<forall>t\<in>set (db_tickets s). live t \<longrightarrow> t \<in> set (db_tickets s') \<and>
        (\<forall>r\<in>set (db_seats s). tkt_seat t = Some (seat_pk r) \<longrightarrow>
           (\<exists>r'\<in>set (db_seats s'). seat_pk r' = seat_pk r \<and> seat_section r' = seat_section r \<and>
              seat_identity r' = seat_identity r)))"

lemma keeps_live_seats_refl: "keeps_live_seats s s"
  by (auto simp: keeps_live_seats_def)

lemma keeps_live_seats_trans:
  assumes "keeps_live_seats s s1" "keeps_live_seats s1 s2"
  shows "keeps_live_seats s s2"
  unfolding keeps_live_seats_def
proof (intro ballI impI conjI)
  fix t assume t: "t \<in> set (db_tickets s)" "live t"
  with assms(1) have t1: "t \<in> set (db_tickets s1)" by (simp add: keeps_live_seats_def)
  with assms(2) t(2) show "t \<in> set (db_tickets s2)" by (simp add: keeps_live_seats_def)
  fix r assume r: "r \<in> set (db_seats s)" "tkt_seat t = Some (seat_pk r)"
  with assms(1) t obtain r1 where r1: "r1 \<in> set (db_seats s1)" "seat_pk r1 = seat_pk r"
    "seat_section r1 = seat_section r" "seat_identity r1 = seat_identity r"
    unfolding keeps_live_seats_def by meson
  with assms(2) t1 t(2) r(2) obtain r2 where "r2 \<in> set (db_seats s2)" "seat_pk r2 = seat_pk r1"
    "seat_section r2 = seat_section r1" "seat_identity r2 = seat_identity r1"
    unfolding keeps_live_seats_def by metis
  with r1 show "\<exists>r'\<in>set (db_seats s2). seat_pk r' = seat_pk r \<and> seat_section r' = seat_section r \<and>
      seat_identity r' = seat_identity r" by auto
qed

lemma moved_section [simp]: "seat_section (moved ps r) = seat_section r"
  by (simp add: moved_def move_to_def split: option.splits)

lemma reposition_keeps:
  assumes "reposition_seats sec counts rm ids s = Inr (rs, s')"
  shows "keeps_live_seats s s' \<and> (unique_seats s \<longrightarrow> unique_seats s')"
proof -
  from assms obtain ps where s': "s' = s\<lparr>db_seats := update_rows (in_section sec) (moved ps) (db_seats s)\<rparr>"
    by (auto simp: reposition_Inr Let_def)
  have "map (\<lambda>r. (seat_section r, seat_identity r)) (db_seats s') = map (\<lambda>r. (seat_section r, seat_identity r)) (db_seats s)"
    by (simp add: s' update_rows_def)
  then have "unique_seats s' = unique_seats s" by (simp only: unique_seats_def)
  moreover have "keeps_live_seats s s'" unfolding keeps_live_seats_def
  proof (intro ballI impI conjI)
    fix t assume "t \<in> set (db_tickets s)"
    then show "t \<in> set (db_tickets s')" by (simp add: s')
  next
    fix t r assume "r \<in> set (db_seats s)"
    let ?r = "if in_section sec r then moved ps r else r"
    have "?r \<in> set (db_seats s')" using \<open>r \<in> set (db_seats s)\<close> by (simp add: s' set_update_rows)
    then show "\<exists>r'\<in>set (db_seats s'). seat_pk r' = seat_pk r \<and> seat_section r' = seat_section r \<and>
        seat_identity r' = seat_identity r" by (rule bexI [rotated]) simp
  qed
  ultimately show ?thesis by simp
qed

lemma cleared_keeps:
  assumes "cleared sec s = Inr s1" "section_seats sec s = [] \<or> live_tickets_on (in_section sec) s = []"
  shows "keeps_live_seats s s1"
proof (cases "section_seats sec s = []")
  case True
  with assms(1) show ?thesis by (simp add: cleared_def keeps_live_seats_refl)
next
  case False
  let ?gone = "map seat_pk (filter (in_section sec) (db_seats s))"
  have none: "live t \<Longrightarrow> t \<in> set (db_tickets s) \<Longrightarrow> tkt_seat t = Some k \<Longrightarrow> k \<notin> set ?gone" for t k
    using False assms(2) by (fastforce simp: live_tickets_on_def ticket_on_def filter_empty_conv)
  from False assms(1) have t: "db_tickets s1 = map (\<lambda>t. t\<lparr>tkt_seat := clear_ref ?gone (tkt_seat t)\<rparr>) (db_tickets s)"
    and rows: "db_seats s1 = delete_rows (in_section sec) (db_seats s)"
    by (auto simp: cleared_def delete_seats_def Let_def split: if_splits)
  show ?thesis unfolding keeps_live_seats_def
  proof (intro ballI impI conjI)
    fix u assume u: "u \<in> set (db_tickets s)" "live u"
    have "clear_ref ?gone (tkt_seat u) = tkt_seat u"
      using none [OF u(2,1)] by (cases "tkt_seat u") (simp_all add: clear_ref_def del: set_map)
    then have "u\<lparr>tkt_seat := clear_ref ?gone (tkt_seat u)\<rparr> = u" by simp
    with u(1) show "u \<in> set (db_tickets s1)" unfolding t set_map by (intro image_eqI [where x = u]) simp_all
    fix r assume r: "r \<in> set (db_seats s)" "tkt_seat u = Some (seat_pk r)"
    from none [OF u(2,1) r(2)] r(1) have "\<not> in_section sec r" by auto
    with r(1) have "r \<in> set (db_seats s1)" by (simp add: rows)
    then show "\<exists>r'\<in>set (db_seats s1). seat_pk r' = seat_pk r \<and> seat_section r' = seat_section r \<and>
        seat_identity r' = seat_identity r" by blast
  qed
qed

lemma stamp_keys: "map (\<lambda>r. (seat_section r, seat_identity r)) (stamp k rs) = map (\<lambda>r. (seat_section r, seat_identity r)) rs"
  by (induction k rs rule: stamp.induct) (simp_all add: seat_identity_def)

lemma generate_keeps:
  assumes "generate_seats sec counts acc rm ids rep s = Inr (rs, s')"
  shows "keeps_live_seats s s' \<and> (unique_seats s \<longrightarrow> unique_seats s')"
proof -
  let ?ps = "build_seats sec counts acc rm ids" and ?key = "\<lambda>r. (seat_section r, seat_identity r)"
  from assms obtain s1 where c: "cleared sec s = Inr s1" "section_seats sec s = [] \<or> live_tickets_on (in_section sec) s = []"
    and s': "s' = s1\<lparr>db_seats := db_seats s1 @ stamp (db_next s1) ?ps, db_next := db_next s1 + length ?ps\<rparr>"
    by (auto simp: generate_seats_Inr)
  have "keeps_live_seats s1 s'" by (auto simp: s' keeps_live_seats_def)
  with cleared_keeps [OF c] have "keeps_live_seats s s'" by (rule keeps_live_seats_trans)
  moreover have "unique_seats s'" if u: "unique_seats s"
  proof -
    have "\<exists>P. db_seats s1 = filter P (db_seats s)"
      using c(1) by (auto simp: cleared_def delete_rows_def dest!: delete_seats_rows split: if_splits
          intro: exI [of _ "\<lambda>_. True"])
    then have "distinct (map ?key (db_seats s1))" using u distinct_map_filter by (auto simp: unique_seats_def)
    moreover have "distinct (map ?key ?ps)"
      using build_identities [of sec counts acc rm ids] by (auto simp: distinct_map inj_on_def)
    moreover have "?key ` set (db_seats s1) \<inter> ?key ` set ?ps = {}"
      using cleared_rows [OF c(1)] build_section [of sec counts acc rm ids]
      by (auto simp: list_all_iff in_section_def)
    ultimately show ?thesis by (auto simp: unique_seats_def s' stamp_keys distinct_append
          simp del: set_map simp flip: set_map [of ?key] intro: distinct_append [THEN iffD2])
  qed
  ultimately show ?thesis by blast
qed


section \<open>What a save writes\<close>

text \<open>The seats a layout implies depend on the override lists as sets only, and not on the stored copies.\<close>

lemma geometry_ignores_overrides [simp]:
  "seat_xy (sec\<lparr>removed_seats := a, accessible_seats := b\<rparr>) r c n = seat_xy sec r c n"
  by (simp add: seat_xy_def local_at_def fanned_local_def grid_or_raked_local_def row_shift_def to_world_def
      rotation_pivot_local_def Let_def cong del: if_weak_cong)

lemma build_seats_overrides:
  assumes "set rm' = set rm" "set ids' = set ids"
  shows "build_seats (sec\<lparr>removed_seats := a, accessible_seats := b\<rparr>) counts acc rm' ids' = build_seats sec counts acc rm ids"
  using assms by (simp add: build_seats_def build_row_def build_seat_def)

lemma layout_counts_overrides [simp]:
  "layout_counts (sec\<lparr>removed_seats := a, accessible_seats := b\<rparr>) = layout_counts sec"
  by (simp add: layout_counts_def)

lemma section_seats_overrides [simp]:
  "section_seats (sec\<lparr>removed_seats := a, accessible_seats := b\<rparr>) s = section_seats sec s"
proof -
  have "in_section (sec\<lparr>removed_seats := a, accessible_seats := b\<rparr>) = in_section sec"
    by (rule ext) (simp add: in_section_def)
  then show ?thesis by (simp add: section_seats_def)
qed

text \<open>A save goes through one of the two writers.\<close>

lemma save_layout_cases:
  assumes "save_layout sec rm ids s = Inr (sec', s')"
  shows "sec' = sec\<lparr>removed_seats := sort (remdups rm), accessible_seats := sort (remdups ids)\<rparr> \<and>
     (\<exists>rs. reposition_seats sec (layout_counts sec) rm ids s = Inr (rs, s') \<or>
           generate_seats sec (layout_counts sec) (\<lambda>_. []) rm ids True s = Inr (rs, s'))"
  using assms by (auto simp: save_layout_def split: sum.splits generation_error.splits)

lemma save_layout_keeps:
  assumes "save_layout sec rm ids s = Inr (sec', s')"
  shows "keeps_live_seats s s' \<and> (unique_seats s \<longrightarrow> unique_seats s')"
  using save_layout_cases [OF assms] reposition_keeps generate_keeps by blast

lemma save_one_Stored:
  assumes "save_one repr section_id raw objs s = Stored sec' s'"
  shows "\<exists>sec rm ids. save_layout sec rm ids s = Inr (sec', s')"
proof -
  let ?found = "first_row (filter (\<lambda>x. py_int section_id = Some (int (section_pk x))) objs)"
  from assms obtain sec d where "?found = Some sec" "raw = JDict d"
    by (cases ?found; cases raw) (simp_all add: save_one_def)
  with assms show ?thesis
    by (auto simp: save_one_def split: prod.splits option.splits sum.splits if_splits)
qed

lemma save_sections_keeps:
  assumes "save_sections repr payload objs saved errors lays s = (resp, lays', s')"
  shows "keeps_live_seats s s' \<and> (unique_seats s \<longrightarrow> unique_seats s')"
  using assms
proof (induction repr payload objs saved errors lays s rule: save_sections.induct)
  case (2 repr section_id raw rest objs saved errors lays s)
  show ?case
  proof (cases "save_one repr section_id raw objs s")
    case (Stored sec s1)
    from save_one_Stored [OF this] save_layout_keeps
    have "keeps_live_seats s s1 \<and> (unique_seats s \<longrightarrow> unique_seats s1)" by blast
    moreover have "keeps_live_seats s1 s' \<and> (unique_seats s1 \<longrightarrow> unique_seats s')"
      using "2.IH"(3) [OF Stored] "2.prems" Stored by simp
    ultimately show ?thesis using keeps_live_seats_trans by blast
  qed (use "2.IH" "2.prems" in \<open>simp_all add: keeps_live_seats_refl\<close>)
qed (simp add: keeps_live_seats_refl)


text \<open>A save touches the rows of its own section only.\<close>

lemma other_section_rows:
  assumes "save_layout sec rm ids s = Inr (sec', s')" "section_pk lay \<noteq> section_pk sec"
  shows "filter (in_section lay) (db_seats s') = filter (in_section lay) (db_seats s)"
proof -
  have apart: "\<not> (in_section lay r \<and> in_section sec r)" for r using assms(2) by (simp add: in_section_def)
  from save_layout_cases [OF assms(1)] obtain rs where
    "reposition_seats sec (layout_counts sec) rm ids s = Inr (rs, s') \<or>
     generate_seats sec (layout_counts sec) (\<lambda>_. []) rm ids True s = Inr (rs, s')" by blast
  then show ?thesis
  proof
    assume "reposition_seats sec (layout_counts sec) rm ids s = Inr (rs, s')"
    then obtain ps where "db_seats s' = update_rows (in_section sec) (moved ps) (db_seats s)"
      by (auto simp: reposition_Inr Let_def)
    moreover have "filter (in_section lay) (update_rows (in_section sec) (moved ps) xs) = filter (in_section lay) xs" for xs
      using apart by (induction xs) (auto simp: update_rows_def)
    ultimately show ?thesis by simp
  next
    assume "generate_seats sec (layout_counts sec) (\<lambda>_. []) rm ids True s = Inr (rs, s')"
    then obtain s1 k ps where c: "cleared sec s = Inr s1" and s': "db_seats s' = db_seats s1 @ stamp k ps"
      and ps: "list_all (in_section sec) ps" using build_section by (auto simp: generate_seats_Inr)
    have "db_seats s1 = db_seats s \<or> db_seats s1 = delete_rows (in_section sec) (db_seats s)"
      using c by (auto simp: cleared_def dest: delete_seats_rows split: if_splits)
    moreover have "filter (in_section lay) (delete_rows (in_section sec) xs) = filter (in_section lay) xs" for xs
      using apart by (induction xs) (auto simp: delete_rows_def)
    moreover have "filter (in_section lay) (stamp k ps) = []"
      using in_section_stamp [OF ps, of k] apart by (auto simp: filter_empty_conv list_all_iff)
    ultimately show ?thesis using s' by auto
  qed
qed

lemma save_layout_drawn:
  assumes "save_layout sec rm ids s = Inr (sec', s')" "unique_seats s"
  shows "drawn sec' s' \<and> section_pk sec' = section_pk sec"
proof -
  from save_layout_cases [OF assms(1)] obtain rs where
    sec': "sec' = sec\<lparr>removed_seats := sort (remdups rm), accessible_seats := sort (remdups ids)\<rparr>"
    and w: "reposition_seats sec (layout_counts sec) rm ids s = Inr (rs, s') \<or>
           generate_seats sec (layout_counts sec) (\<lambda>_. []) rm ids True s = Inr (rs, s')" by blast
  have "rs = section_seats sec s'" using w by (auto simp: reposition_Inr generate_seats_Inr Let_def)
  moreover have "map placement rs = sort_key fst (map placement (build_seats sec (layout_counts sec) (\<lambda>_. []) rm ids))"
    using w repositioned_placements [OF _ assms(2)] generated_placements by blast
  ultimately show ?thesis
    by (simp add: drawn_def sec' build_seats_overrides [of "sort (remdups rm)" rm "sort (remdups ids)" ids])
qed

lemma save_sections_drawn:
  assumes "save_sections repr payload objs saved errors lays s = (EditorSaved saved' errors', lays', s')"
    and "unique_seats s" "\<forall>lay\<in>set lays. section_pk lay \<in> set saved \<longrightarrow> drawn lay s"
  shows "\<forall>lay\<in>set lays'. section_pk lay \<in> set saved' \<longrightarrow> drawn lay s'"
  using assms
proof (induction repr payload objs saved errors lays s rule: save_sections.induct)
  case (2 repr section_id raw rest objs saved errors lays s)
  show ?case
  proof (cases "save_one repr section_id raw objs s")
    case (Stored sec' s1)
    from save_one_Stored [OF this] obtain sec rm ids where w: "save_layout sec rm ids s = Inr (sec', s1)" by blast
    have d: "drawn sec' s1" "section_pk sec' = section_pk sec" using save_layout_drawn [OF w "2.prems"(2)] by simp_all
    have "unique_seats s1" using save_layout_keeps [OF w] "2.prems"(2) by simp
    moreover have "\<forall>lay\<in>set (put_section sec' lays). section_pk lay \<in> set (saved @ [section_pk sec']) \<longrightarrow> drawn lay s1"
    proof (intro ballI impI)
      fix lay assume l: "lay \<in> set (put_section sec' lays)" "section_pk lay \<in> set (saved @ [section_pk sec'])"
      show "drawn lay s1"
      proof (cases "lay = sec'")
        case False
        with l(1) have "lay \<in> set lays" "section_pk lay \<noteq> section_pk sec'" by (auto simp: put_section_def split: if_splits)
        with l(2) "2.prems"(3) have "drawn lay s" by auto
        then show ?thesis using drawn_cong [OF other_section_rows [OF w]] \<open>section_pk lay \<noteq> section_pk sec'\<close> d(2) by simp
      qed (use d in simp)
    qed
    ultimately show ?thesis using "2.IH"(3) [OF Stored] "2.prems"(1) Stored by simp
  qed (use "2.IH" "2.prems" in simp_all)
qed simp

text \<open>The demo's section, with a ticket sold on its first seat, turned by another half right angle.\<close>

definition stalls_ticket :: ticket where
  "stalls_ticket = \<lparr>tkt_pk = 90, tkt_organization = 1, tkt_order = 91, tkt_performance = 32, tkt_seat = Some 21,
     tkt_holder_name = ''Ann'', tkt_token = ''T'', tkt_status = VALID, tkt_used_at = None, tkt_scanned_by = None\<rparr>"

definition sold_demo :: db where
  "sold_demo = demo\<lparr>db_tickets := [stalls_ticket]\<rparr>"

definition turn_json :: json where
  "turn_json = JDict [(''sections'', JDict [(''11'', JDict [(''rotation'', JInt 45)]), (''99'', JDict [])])]"

lemma turned_built:
  "map seat_identity (build_seats (stalls_layout\<lparr>rotation := a\<rparr>) [3] (\<lambda>_. []) [] ids) = [(''A'', ''1''), (''A'', ''2''), (''A'', ''3'')]"
proof -
  have l: "generate_row_labels (Suc 0) ''skip_io'' 0 = [''A'']" by code_simp
  have n: "generate_seat_numbers 3 ''sequential'' 0 = [1, 2, 3]" by code_simp
  have "show_nat 1 = ''1''" "show_nat 2 = ''2''" "show_nat 3 = ''3''" by code_simp+
  then show ?thesis
    by (simp add: build_seats_def build_row_def stalls_layout_def l n del: One_nat_def)
qed

lemma turn_saved:
  "\<exists>s'. chart_editor_save repr 1 10 (Some turn_json) ([stalls_layout], sold_demo) =
     (EditorSaved [11] [], [stalls_layout\<lparr>rotation := 45\<rparr>], s')"
proof -
  let ?sec = "stalls_layout\<lparr>rotation := 45\<rparr>"
  have ints: "py_int ''11'' = Some 11" "py_int ''99'' = Some 99" by code_simp+
  have small: "\<not> too_large 45"
  proof -
    have "(2::real) ^ 970 \<le> 2 ^ 1023" by (rule power_increasing) simp_all
    moreover have "(2::real) ^ 1024 = 2 * 2 ^ 1023" by (simp flip: power_Suc)
    moreover have "(2::real) ^ 6 \<le> 2 ^ 1023" by (rule power_increasing) simp_all
    ultimately show ?thesis by (simp add: too_large_def)
  qed
  have fields: "apply_fields repr section_param_fields [(''rotation'', JInt 45)] stalls_layout = (?sec, None)"
    by (simp add: section_param_fields_def apply_field_def finite_arg_def float_arg_def small set_float_field_def finite_part_def)
  have counts: "layout_counts ?sec = [3]" by (simp add: layout_counts_def compute_row_counts_def stalls_layout_def)
  have "seat_identity ` set (build_seats ?sec [3] (\<lambda>_. []) [] []) = {(''A'', ''1''), (''A'', ''2''), (''A'', ''3'')}"
    using turned_built [of 45 "[]"] by (metis (no_types) list.set(1) list.simps(15) set_map)
  moreover have "seat_identity ` set (section_seats ?sec sold_demo) = {(''A'', ''1''), (''A'', ''2''), (''A'', ''3'')}"
    by (simp add: section_seats_def order_by_def sold_demo_def demo_def demo_seat_def in_section_def stalls_layout_def
        seat_identity_def)
  ultimately obtain rs s' where "reposition_seats ?sec (layout_counts ?sec) [] [] sold_demo = Inr (rs, s')"
    by (simp add: reposition_seats_def Let_def counts)
  then have "save_layout ?sec [] [] sold_demo = Inr (?sec, s')"
    by (simp add: save_layout_def) (simp add: stalls_layout_def)
  then have one: "save_one repr ''11'' (JDict [(''rotation'', JInt 45)]) [stalls_layout] sold_demo = Stored ?sec s'"
    using ints fields by (simp add: save_one_def stalls_layout_def clean_identity_pairs_def)
  have two: "save_one repr ''99'' (JDict []) (put_section ?sec [stalls_layout]) s' = Skipped"
    using ints by (simp add: save_one_def put_section_def stalls_layout_def)
  have "put_section ?sec [stalls_layout] = [?sec]" "section_pk ?sec = 11"
    by (simp_all add: put_section_def stalls_layout_def)
  then show ?thesis using one two ints
    by (simp add: chart_editor_save_def turn_json_def sold_demo_def fixture_defs, simp add: stalls_layout_def)
qed

section \<open>Properties\<close>

text \<open>
  Property C17. Saving in the chart editor never takes the seat from under a live ticket: whatever the
  request, every ticket that is not void is unchanged afterwards, and the seat it names still exists
  with its key, section, row and number, wherever the save moved it.
\<close>

theorem editor_save_keeps_ticketed_seats:
  assumes "chart_editor_save repr organization chart body (lays, s) = (resp, lays', s')"
    and "t \<in> set (db_tickets s)" and "live t" and "r \<in> set (db_seats s)" and "tkt_seat t = Some (seat_pk r)"
  shows "t \<in> set (db_tickets s') \<and>
     (\<exists>r'\<in>set (db_seats s'). seat_pk r' = seat_pk r \<and> seat_section r' = seat_section r \<and> seat_identity r' = seat_identity r)"
proof -
  have "keeps_live_seats s s'"
    using assms(1) save_sections_keeps
    by (auto simp: chart_editor_save_def keeps_live_seats_refl split: if_splits option.splits json.splits)
  with assms(2-5) show ?thesis by (simp add: keeps_live_seats_def)
qed

theorem editor_save_keeps_ticketed_seats_witness:
  "\<exists>lays' s' r'. chart_editor_save (\<lambda>_. '''') 1 10 (Some turn_json) ([stalls_layout], sold_demo) = (EditorSaved [11] [], lays', s') \<and>
     stalls_ticket \<in> set (db_tickets s') \<and> r' \<in> set (db_seats s') \<and> seat_pk r' = 21 \<and> seat_identity r' = (''A'', ''1'')"
proof -
  obtain s' where run: "chart_editor_save (\<lambda>_. '''') 1 10 (Some turn_json) ([stalls_layout], sold_demo) =
     (EditorSaved [11] [], [stalls_layout\<lparr>rotation := 45\<rparr>], s')" using turn_saved by blast
  have "stalls_ticket \<in> set (db_tickets sold_demo)" "live stalls_ticket"
    "demo_seat 21 ''1'' \<in> set (db_seats sold_demo)" "tkt_seat stalls_ticket = Some (seat_pk (demo_seat 21 ''1''))"
    by (simp_all add: sold_demo_def stalls_ticket_def live_def demo_def demo_seat_def)
  from editor_save_keeps_ticketed_seats [OF run this] run show ?thesis
    by (auto simp: demo_seat_def seat_identity_def)
qed

text \<open>
  Property C18. What the editor saves is what it showed: after a save that answers normally, each
  section it reports as saved stores a layout whose seats, regenerated from the stored parameters and
  overrides, are exactly the seats in the table.
\<close>

theorem editor_saves_what_it_shows:
  assumes "chart_editor_save repr organization chart body (lays, s) = (EditorSaved saved errors, lays', s')"
    and "unique_seats s" and "lay \<in> set lays'" and "section_pk lay \<in> set saved"
  shows "map placement (section_seats lay s') =
     sort_key fst (map placement (build_seats lay
       (compute_row_counts (shape_rows lay) (seats_per_row lay) (offset_mode lay) (alt_row_seat_delta lay))
       (\<lambda>_. []) (removed_seats lay) (accessible_seats lay)))"
proof -
  from assms(1) obtain payload objs where
    "save_sections repr payload objs [] [] lays s = (EditorSaved saved errors, lays', s')"
    by (auto simp: chart_editor_save_def split: if_splits option.splits json.splits)
  from save_sections_drawn [OF this assms(2)] assms(3,4) have "drawn lay s'" by simp
  then show ?thesis by (simp add: drawn_def layout_counts_def)
qed

theorem editor_saves_what_it_shows_witness:
  "\<exists>s'. chart_editor_save (\<lambda>_. '''') 1 10 (Some turn_json) ([stalls_layout], sold_demo) =
       (EditorSaved [11] [], [stalls_layout\<lparr>rotation := 45\<rparr>], s') \<and>
     length (section_seats (stalls_layout\<lparr>rotation := 45\<rparr>) s') = 3"
proof -
  let ?sec = "stalls_layout\<lparr>rotation := 45\<rparr>"
  obtain s' where run: "chart_editor_save (\<lambda>_. '''') 1 10 (Some turn_json) ([stalls_layout], sold_demo) =
     (EditorSaved [11] [], [?sec], s')" using turn_saved by blast
  have "unique_seats sold_demo" using demo_unique_seats by (simp add: unique_seats_def sold_demo_def)
  from editor_saves_what_it_shows [OF run this, of ?sec]
  have "length (section_seats ?sec s') = length (build_seats ?sec [3] (\<lambda>_. []) [] [])"
    by (auto simp: stalls_layout_def compute_row_counts_def dest: arg_cong [of _ _ length])
  with arg_cong [OF turned_built [of 45 "[]"], of length] run show ?thesis by simp
qed

end
