(* ===== verification/PriceGrid.thy ===== *)
theory PriceGrid
  imports Pricing
begin

text \<open>
  The reserved-seating price grid (dashboard/views.py: \<open>_parse_price\<close>, \<open>_save_reserved_prices\<close>): one
  default and one override cell per section of the performance's chart. All cells are validated before
  any is written; a blank cell deletes its tier. What is typed is what a seat of the section sells for.
\<close>

section \<open>The code\<close>

datatype price_error = NotANumber | NegativePrice

text \<open>
  Comparing a NaN raises \<open>InvalidOperation\<close>, and so does quantizing an infinity or more than 28
  digits: neither is inside the \<open>try\<close>.
\<close>

definition parse_price :: "string option \<Rightarrow> error + (price_error + cents option)" where
  "parse_price raw =
     (let text = strip (case raw of None \<Rightarrow> '''' | Some t \<Rightarrow> t)
      in if text = [] then Inr (Inr None)
         else case parse_decimal text of
                None \<Rightarrow> Inr (Inl NotANumber)
              | Some NaN \<Rightarrow> Inl (PyErr InvalidOperation)
              | Some SNaN \<Rightarrow> Inl (PyErr InvalidOperation)
              | Some (Infinity neg) \<Rightarrow> (if neg then Inr (Inl NegativePrice) else Inl (PyErr InvalidOperation))
              | Some (Fin c e) \<Rightarrow>
                  (if c < 0 then Inr (Inl NegativePrice)
                   else case quantize_cents (Fin c e) of
                          Some (Cents a) \<Rightarrow> Inr (Inr (Some a))
                        | _ \<Rightarrow> Inl (PyErr InvalidOperation)))"

definition default_field :: "section_row \<Rightarrow> string" where
  "default_field sec = ''default_'' @ show_nat (section_pk sec)"

definition override_field :: "section_row \<Rightarrow> string" where
  "override_field sec = ''override_'' @ show_nat (section_pk sec)"

text \<open>A plan entry: the tier's performance (none for the chart-wide default), its section, the amount.\<close>

type_synonym price_plan = "(nat option \<times> section_row \<times> cents option) list"

definition plan_cell ::
  "string \<Rightarrow> nat option \<Rightarrow> section_row \<Rightarrow> price_error + cents option \<Rightarrow> (string \<times> price_error) list \<times> price_plan" where
  "plan_cell field perf sec cell = (case cell of Inl e \<Rightarrow> ([(field, e)], []) | Inr a \<Rightarrow> ([], [(perf, sec, a)]))"

fun price_plan ::
  "performance \<Rightarrow> (string \<rightharpoonup> string) \<Rightarrow> section_row list \<Rightarrow> error + (string \<times> price_error) list \<times> price_plan" where
  "price_plan performance post [] = Inr ([], [])"
| "price_plan performance post (sec # secs) =
     bindE (parse_price (post (default_field sec))) (\<lambda>d.
     bindE (parse_price (post (override_field sec))) (\<lambda>ov.
     bindE (price_plan performance post secs) (\<lambda>(errors, plan).
     let (e1, p1) = plan_cell (default_field sec) None sec d;
         (e2, p2) = plan_cell (override_field sec) (Some (perf_pk performance)) sec ov
     in Inr (e1 @ e2 @ errors, p1 @ p2 @ plan))))"

definition tiers_for :: "nat \<Rightarrow> nat option \<Rightarrow> nat \<Rightarrow> db \<Rightarrow> price_tier list" where
  "tiers_for organization perf sect s =
     filter (\<lambda>t. tier_organization t = organization \<and> tier_performance t = perf \<and> tier_section t = Some sect) (db_tiers s)"

text \<open>\<open>existing.delete()\<close>: held seats and order items protect their tier; its own GA holds cascade.\<close>

definition delete_tier :: "price_tier \<Rightarrow> db \<Rightarrow> error + db" where
  "delete_tier t s =
     (if (\<exists>r\<in>set (db_hold_seats s). hs_price_tier r = Some (tier_pk t)) \<or>
         (\<exists>i\<in>set (db_items s). item_price_tier i = Some (tier_pk t))
      then Inl (PyErr ProtectedError)
      else let s1 = delete_holds (\<lambda>h. hold_price_tier h = Some (tier_pk t)) s
           in Inr (s1\<lparr>db_tiers := delete_rows (\<lambda>x. tier_pk x = tier_pk t) (db_tiers s1)\<rparr>))"

text \<open>A \<open>DecimalField(max_digits=10)\<close> refuses more than ten digits when it is written.\<close>

definition fits_column :: "cents \<Rightarrow> bool" where
  "fits_column a \<longleftrightarrow> \<bar>a\<bar> < 10 ^ 10"

definition put_price :: "nat \<Rightarrow> nat option \<times> section_row \<times> cents option \<Rightarrow> db \<Rightarrow> error + db" where
  "put_price organization entry s =
     (case entry of (perf, sec, amount) \<Rightarrow>
       let existing = first_row (order_by tier_name (tiers_for organization perf (section_pk sec) s))
       in case amount of
            None \<Rightarrow> (case existing of None \<Rightarrow> Inr s | Some t \<Rightarrow> delete_tier t s)
          | Some a \<Rightarrow>
              if \<not> fits_column a then Inl (PyErr InvalidOperation)
              else case existing of
                Some t \<Rightarrow> Inr (s\<lparr>db_tiers := update_rows (\<lambda>x. tier_pk x = tier_pk t) (\<lambda>x. x\<lparr>tier_amount := a\<rparr>) (db_tiers s)\<rparr>)
              | None \<Rightarrow>
                  Inr (s\<lparr>db_tiers := db_tiers s @
                      [\<lparr>tier_pk = db_next s, tier_organization = organization,
                        tier_name = (if perf = None then section_name sec else section_name sec @ '' (this performance)''),
                        tier_amount = a, tier_currency = ''USD'', tier_performance = perf,
                        tier_section = Some (section_pk sec)\<rparr>],
                    db_next := Suc (db_next s)\<rparr>))"

fun put_prices :: "nat \<Rightarrow> price_plan \<Rightarrow> db \<Rightarrow> error + db" where
  "put_prices organization [] s = Inr s"
| "put_prices organization (entry # plan) s = bindE (put_price organization entry s) (put_prices organization plan)"

definition save_reserved_prices ::
  "nat \<Rightarrow> performance \<Rightarrow> (string \<rightharpoonup> string) \<Rightarrow> section_row list \<Rightarrow> db \<Rightarrow> error + ((string \<times> price_error) list \<times> db)" where
  "save_reserved_prices organization performance post secs s =
     bindE (price_plan performance post secs) (\<lambda>(errors, plan).
     if errors \<noteq> [] then Inr (errors, s)
     else bindE (put_prices organization plan s) (\<lambda>s'. Inr ([], s')))"

text \<open>The sections of the performance's chart, in the model's order, and the POST handler over them.\<close>

definition grid_sections :: "performance \<Rightarrow> db \<Rightarrow> section_row list" where
  "grid_sections performance s =
     (case get_seating_chart performance s of
        None \<Rightarrow> []
      | Some chart \<Rightarrow>
          order_by (\<lambda>x. (section_ordering x, section_name x))
            (filter (\<lambda>x. section_organization x = perf_organization performance \<and> section_chart x = chart_pk chart)
              (db_sections s)))"

definition reserved_price_editor ::
  "performance \<Rightarrow> (string \<rightharpoonup> string) \<Rightarrow> db \<Rightarrow> error + ((string \<times> price_error) list \<times> db)" where
  "reserved_price_editor performance post s =
     save_reserved_prices (perf_organization performance) performance post (grid_sections performance s) s"

section \<open>Lemmas\<close>

interpretation tier_rows: model_table tier_pk "\<lambda>k t. t\<lparr>tier_pk := k\<rparr>"
  by unfold_locales simp

text \<open>At most one tier per cell, which the grid keeps and the resolution rule assumes.\<close>

definition one_tier_per_cell :: "db \<Rightarrow> bool" where
  "one_tier_per_cell s \<longleftrightarrow> (\<forall>org perf sect. length (tiers_for org perf sect s) \<le> 1)"

definition tiers_wf :: "db \<Rightarrow> bool" where
  "tiers_wf s \<longleftrightarrow> well_keyed tier_pk (db_next s) (db_tiers s) \<and> one_tier_per_cell s"

definition price_at :: "nat \<Rightarrow> nat option \<Rightarrow> nat \<Rightarrow> db \<Rightarrow> cents option" where
  "price_at org perf sect s = map_option tier_amount (first_row (tiers_for org perf sect s))"

lemma single_order_by: "length xs \<le> 1 \<Longrightarrow> order_by k xs = xs"
  by (cases xs; cases "tl xs") (simp_all add: order_by_def)

lemma first_tier: "one_tier_per_cell s \<Longrightarrow> first_row (order_by tier_name (tiers_for org perf sect s)) = first_row (tiers_for org perf sect s)"
  by (simp add: one_tier_per_cell_def single_order_by)

lemma tiers_for_first:
  assumes "one_tier_per_cell s" "first_row (tiers_for org perf sect s) = Some t"
  shows "tiers_for org perf sect s = [t]"
  using assms(1) [unfolded one_tier_per_cell_def, rule_format, of org perf sect] assms(2)
  by (cases "tiers_for org perf sect s"; cases "tl (tiers_for org perf sect s)") auto

lemma tiers_for_delete:
  assumes "db_tiers s' = delete_rows (\<lambda>x. tier_pk x = tier_pk t) (db_tiers s)"
  shows "tiers_for org perf sect s' = filter (\<lambda>x. tier_pk x \<noteq> tier_pk t) (tiers_for org perf sect s)"
  using assms by (simp add: tiers_for_def delete_rows_def filter_filter conj_commute conj_left_commute)

lemma filter_update_amount:
  "filter (\<lambda>t. tier_organization t = org \<and> tier_performance t = perf \<and> tier_section t = Some sect)
      (update_rows P (\<lambda>x. x\<lparr>tier_amount := a\<rparr>) ts) =
   update_rows P (\<lambda>x. x\<lparr>tier_amount := a\<rparr>)
      (filter (\<lambda>t. tier_organization t = org \<and> tier_performance t = perf \<and> tier_section t = Some sect) ts)"
  by (induction ts) (auto simp: update_rows_def)

lemma other_cell_keys:
  assumes "tiers_wf s" "t \<in> set (tiers_for org perf sect s)" "(org', perf', sect') \<noteq> (org, perf, sect)"
    and "x \<in> set (tiers_for org' perf' sect' s)"
  shows "tier_pk x \<noteq> tier_pk t"
  using tier_rows.keyed_inj [of "db_next s" "db_tiers s" x t] assms by (auto simp: tiers_wf_def tiers_for_def)

text \<open>Writing one cell sets its price and leaves every other cell alone.\<close>

lemma put_price_effect:
  assumes "put_price org (perf, sec, amount) s = Inr s'" "tiers_wf s"
  shows "tiers_wf s' \<and> price_at org perf (section_pk sec) s' = amount \<and>
     (\<forall>org' perf' sect'. (org', perf', sect') \<noteq> (org, perf, section_pk sec) \<longrightarrow>
        price_at org' perf' sect' s' = price_at org' perf' sect' s)"
proof -
  let ?here = "tiers_for org perf (section_pk sec) s"
  have one: "one_tier_per_cell s" and wk: "well_keyed tier_pk (db_next s) (db_tiers s)"
    using assms(2) by (simp_all add: tiers_wf_def)
  show ?thesis
  proof (cases "first_row ?here")
    case None
    then have e: "?here = []" by simp
    show ?thesis
    proof (cases amount)
      case None
      then have "s' = s" using assms(1) e by (simp add: put_price_def order_by_def)
      with None e assms(2) show ?thesis by (simp add: price_at_def)
    next
      case (Some a)
      then obtain t where s': "s' = s\<lparr>db_tiers := db_tiers s @ [t], db_next := Suc (db_next s)\<rparr>"
        and t: "tier_pk t = db_next s" "tier_organization t = org" "tier_performance t = perf"
        "tier_section t = Some (section_pk sec)" "tier_amount t = a"
        using assms(1) e by (auto simp: put_price_def order_by_def split: if_splits)
      have cells: "tiers_for o' p' k' s' = tiers_for o' p' k' s @ (if (o', p', k') = (org, perf, section_pk sec) then [t] else [])" for o' p' k'
        using t by (auto simp: tiers_for_def s')
      have "one_tier_per_cell s'"
        using one e by (auto simp: one_tier_per_cell_def cells)
      moreover have "well_keyed tier_pk (db_next s') (db_tiers s')"
      proof -
        have "t\<lparr>tier_pk := db_next s\<rparr> = t" using t(1) by simp
        then show ?thesis using tier_rows.insert_keyed [OF wk, of t] by (simp add: s')
      qed
      ultimately show ?thesis using e t(5) Some by (auto simp: tiers_wf_def price_at_def cells)
    qed
  next
    case (Some t)
    note here = tiers_for_first [OF one Some]
    have t: "t \<in> set ?here" using here by simp
    note other = other_cell_keys [OF assms(2) t]
    show ?thesis
    proof (cases amount)
      case None
      then have d: "delete_tier t s = Inr s'" using assms(1) Some first_tier [OF one] by (simp add: put_price_def)
      then have rows: "db_tiers s' = delete_rows (\<lambda>x. tier_pk x = tier_pk t) (db_tiers s)" "db_next s' = db_next s"
        by (auto simp: delete_tier_def delete_holds_def Let_def split: if_splits)
      note cells = tiers_for_delete [OF rows(1)]
      have "one_tier_per_cell s'" using one by (auto simp: one_tier_per_cell_def cells intro: le_trans [OF length_filter_le])
      moreover have "well_keyed tier_pk (db_next s') (db_tiers s')" using tier_rows.delete_keyed [OF wk] rows by simp
      moreover have "tiers_for o' p' k' s' = tiers_for o' p' k' s" if "(o', p', k') \<noteq> (org, perf, section_pk sec)" for o' p' k'
        using other [OF that] by (simp add: cells filter_id_conv)
      ultimately show ?thesis using None here by (simp add: tiers_wf_def price_at_def cells)
    next
      case (Some a)
      let ?upd = "update_rows (\<lambda>x. tier_pk x = tier_pk t) (\<lambda>x. x\<lparr>tier_amount := a\<rparr>)"
      have rows: "s' = s\<lparr>db_tiers := ?upd (db_tiers s)\<rparr>"
        using assms(1) Some \<open>first_row ?here = Some t\<close> first_tier [OF one] by (simp add: put_price_def split: if_splits)
      have cells: "tiers_for o' p' k' s' = ?upd (tiers_for o' p' k' s)" for o' p' k'
        by (simp add: tiers_for_def rows filter_update_amount)
      have "one_tier_per_cell s'" using one by (simp add: one_tier_per_cell_def cells)
      moreover have "well_keyed tier_pk (db_next s') (db_tiers s')" using tier_rows.update_keyed [OF _ wk] by (simp add: rows)
      moreover have "tiers_for o' p' k' s' = tiers_for o' p' k' s" if "(o', p', k') \<noteq> (org, perf, section_pk sec)" for o' p' k'
        using other [OF that] by (auto simp: cells update_rows_def intro: map_idI)
      ultimately show ?thesis using Some here by (simp add: tiers_wf_def price_at_def cells update_rows_def)
    qed
  qed
qed

lemma put_prices_effect:
  assumes "put_prices org plan s = Inr s'" "tiers_wf s" "distinct (map (\<lambda>(perf, sec, a). (perf, section_pk sec)) plan)"
  shows "tiers_wf s' \<and> (\<forall>(perf, sec, a)\<in>set plan. price_at org perf (section_pk sec) s' = a) \<and>
     (\<forall>perf sect. (perf, sect) \<notin> (\<lambda>(perf, sec, a). (perf, section_pk sec)) ` set plan \<longrightarrow>
        price_at org perf sect s' = price_at org perf sect s)"
  using assms
proof (induction plan arbitrary: s)
  case (Cons entry plan)
  obtain perf sec a where e: "entry = (perf, sec, a)" by (cases entry)
  from Cons.prems(1) obtain s1 where p: "put_price org (perf, sec, a) s = Inr s1" and r: "put_prices org plan s1 = Inr s'"
    by (auto simp: e)
  note p1 = put_price_effect [OF p Cons.prems(2)]
  have IH: "tiers_wf s' \<and> (\<forall>(perf, sec, a)\<in>set plan. price_at org perf (section_pk sec) s' = a) \<and>
     (\<forall>perf sect. (perf, sect) \<notin> (\<lambda>(perf, sec, a). (perf, section_pk sec)) ` set plan \<longrightarrow>
        price_at org perf sect s' = price_at org perf sect s1)"
    by (rule Cons.IH [OF r]) (use p1 Cons.prems(3) in simp_all)
  have "(perf, section_pk sec) \<notin> (\<lambda>(perf, sec, a). (perf, section_pk sec)) ` set plan"
    using Cons.prems(3) by (simp add: e)
  then have "price_at org perf (section_pk sec) s' = a" using IH p1 by simp
  then show ?case using IH p1 by (auto simp: e)
qed simp


lemma price_plan_entries:
  assumes "price_plan performance post secs = Inr ([], plan)"
  shows "(\<forall>sec\<in>set secs. \<exists>d ov. parse_price (post (default_field sec)) = Inr (Inr d) \<and>
        parse_price (post (override_field sec)) = Inr (Inr ov) \<and>
        (None, sec, d) \<in> set plan \<and> (Some (perf_pk performance), sec, ov) \<in> set plan) \<and>
     map (\<lambda>(perf, sec, a). (perf, section_pk sec)) plan =
       concat (map (\<lambda>sec. [(None, section_pk sec), (Some (perf_pk performance), section_pk sec)]) secs)"
  using assms
proof (induction secs arbitrary: plan)
  case (Cons sec secs)
  from Cons.prems obtain c1 c2 errors plan' where c: "parse_price (post (default_field sec)) = Inr c1"
    "parse_price (post (override_field sec)) = Inr c2" and r: "price_plan performance post secs = Inr (errors, plan')"
    by auto
  with Cons.prems obtain d ov where v: "c1 = Inr d" "c2 = Inr ov" and "errors = []"
    and plan: "plan = (None, sec, d) # (Some (perf_pk performance), sec, ov) # plan'"
    by (cases c1; cases c2) (simp_all add: plan_cell_def)
  with r have "price_plan performance post secs = Inr ([], plan')" by simp
  note IH = Cons.IH [OF this]
  have "\<exists>d ov. parse_price (post (default_field x)) = Inr (Inr d) \<and> parse_price (post (override_field x)) = Inr (Inr ov) \<and>
        (None, x, d) \<in> set plan \<and> (Some (perf_pk performance), x, ov) \<in> set plan" if "x \<in> set (sec # secs)" for x
  proof (cases "x = sec")
    case True
    with c v plan show ?thesis by simp
  next
    case False
    with that IH plan show ?thesis by fastforce
  qed
  with IH plan show ?case by simp
qed simp

lemma distinct_cells:
  "distinct (map section_pk secs) \<Longrightarrow>
     distinct (concat (map (\<lambda>sec. [(None, section_pk sec), (Some k, section_pk sec)]) secs))"
  by (induction secs) auto

lemma resolve_tier_price:
  assumes "one_tier_per_cell s"
  shows "(case resolve_seat_tier perf sect s of Inr t \<Rightarrow> Some (tier_amount t) | Inl _ \<Rightarrow> None) =
     (case price_at (perf_organization perf) (Some (perf_pk perf)) sect s of
        Some a \<Rightarrow> Some a | None \<Rightarrow> price_at (perf_organization perf) None sect s)"
proof -
  have "resolve_seat_tier perf sect s =
      (case first_row (tiers_for (perf_organization perf) (Some (perf_pk perf)) sect s) of
         Some t \<Rightarrow> Inr t
       | None \<Rightarrow> or_raise (first_row (tiers_for (perf_organization perf) None sect s)) PricingErr)"
    unfolding resolve_seat_tier_def tiers_for_def [symmetric] first_tier [OF assms] ..
  then show ?thesis
    by (auto simp: price_at_def or_raise_def split: option.splits)
qed

text \<open>A price typed in the grid is stored in US dollars, whatever the theater's currency.\<close>

lemma grid_currency_is_usd:
  assumes "put_price org (perf, sec, Some a) s = Inr s'" "tiers_for org perf (section_pk sec) s = []"
  shows "\<exists>t\<in>set (db_tiers s'). tier_amount t = a \<and> tier_section t = Some (section_pk sec) \<and> tier_currency t = ''USD''"
  using assms by (auto simp: put_price_def order_by_def split: if_splits)

text \<open>Clearing the cell of a tier that something was sold at raises, outside any handler.\<close>

lemma clearing_a_sold_price_raises:
  assumes "tiers_for org perf (section_pk sec) s = [t]" "i \<in> set (db_items s)" "item_price_tier i = Some (tier_pk t)"
  shows "put_price org (perf, sec, None) s = Inl (PyErr ProtectedError)"
  using assms by (auto simp: put_price_def delete_tier_def order_by_def)

section \<open>Properties\<close>

text \<open>
  What a manager types in the price grid is what seats sell for: after a save without
  errors every cell of every section had parsed, and a seat of the section resolves to its typed
  override, else to its typed default, else to no price; with at most one tier per cell before, there
  is at most one after.
\<close>

theorem price_grid_sets_prices:
  assumes "save_reserved_prices (perf_organization perf) perf post secs s = Inr ([], s')"
    and "tiers_wf s" and "distinct (map section_pk secs)" and "sec \<in> set secs"
  shows "tiers_wf s' \<and>
     (\<exists>d ov. parse_price (post (default_field sec)) = Inr (Inr d) \<and>
        parse_price (post (override_field sec)) = Inr (Inr ov) \<and>
        (case resolve_seat_tier perf (section_pk sec) s' of Inr t \<Rightarrow> Some (tier_amount t) | Inl _ \<Rightarrow> None) =
          (case ov of Some a \<Rightarrow> Some a | None \<Rightarrow> d))"
proof -
  from assms(1) obtain plan where p: "price_plan perf post secs = Inr ([], plan)"
    and r: "put_prices (perf_organization perf) plan s = Inr s'"
    by (auto simp: save_reserved_prices_def split: if_splits)
  note e = price_plan_entries [OF p]
  have "distinct (map (\<lambda>(perf, sec, a). (perf, section_pk sec)) plan)"
    using e distinct_cells [OF assms(3)] by simp
  note w = put_prices_effect [OF r assms(2) this]
  from e assms(4) obtain d ov where "parse_price (post (default_field sec)) = Inr (Inr d)"
    "parse_price (post (override_field sec)) = Inr (Inr ov)" and
    m: "(None, sec, d) \<in> set plan" "(Some (perf_pk perf), sec, ov) \<in> set plan" by blast
  moreover have "price_at (perf_organization perf) None (section_pk sec) s' = d"
    "price_at (perf_organization perf) (Some (perf_pk perf)) (section_pk sec) s' = ov" using w m by auto
  moreover have "one_tier_per_cell s'" using w by (simp add: tiers_wf_def)
  ultimately show ?thesis using w resolve_tier_price [of s' perf "section_pk sec"] by auto
qed

theorem price_grid_sets_prices_witness:
  "\<exists>s'. save_reserved_prices 1 matinee [''default_11'' \<mapsto> ''42'', ''override_11'' \<mapsto> '' 50.5 ''] [stalls] demo = Inr ([], s') \<and>
     (case resolve_seat_tier matinee 11 s' of Inr t \<Rightarrow> tier_amount t | Inl _ \<Rightarrow> 0) = 5050"
proof -
  let ?post = "[''default_11'' \<mapsto> ''42'', ''override_11'' \<mapsto> '' 50.5 '']"
  have f: "default_field stalls = ''default_11''" "override_field stalls = ''override_11''" by code_simp+
  have "parse_decimal ''42'' = Some (Fin 42 0)" "parse_decimal ''50.5'' = Some (Fin 505 (-1))" by code_simp+
  moreover have "strip ''42'' = ''42''" "strip '' 50.5 '' = ''50.5''" by code_simp+
  ultimately have d: "parse_price (?post (default_field stalls)) = Inr (Inr (Some 4200))"
    and o': "parse_price (?post (override_field stalls)) = Inr (Inr (Some 5050))"
    by (simp_all add: f parse_price_def quantize_cents_def)
  let ?t = "\<lparr>tier_pk = 100, tier_organization = 1, tier_name = ''Stalls (this performance)'', tier_amount = 5050,
      tier_currency = ''USD'', tier_performance = Some 32, tier_section = Some 11\<rparr>"
  have "\<exists>s'. put_prices 1 [(None, stalls, Some 4200), (Some 32, stalls, Some 5050)] demo = Inr s'"
    by (simp add: put_price_def fits_column_def tiers_for_def order_by_def fixture_defs update_rows_def)
  then obtain s' where "save_reserved_prices 1 matinee ?post [stalls] demo = Inr ([], s')"
    using d o' by (auto simp: save_reserved_prices_def plan_cell_def matinee_def)
  then have run: "save_reserved_prices (perf_organization matinee) matinee ?post [stalls] demo = Inr ([], s')"
    by (simp add: matinee_def)
  have "tiers_wf demo"
    by (auto simp: tiers_wf_def well_keyed_def one_tier_per_cell_def tiers_for_def fixture_defs)
  from price_grid_sets_prices [OF run this, of stalls] d o' run show ?thesis
    by (auto simp: stalls_def matinee_def split: sum.splits)
qed

end
