(* ===== verification/ZoneMap.thy ===== *)
theory ZoneMap
  imports Zones "HOL-Library.Multiset"
begin

text \<open>
  The printable map of a performance's pricing zones: the geometry shared with the editor
  (events/zones.py: \<open>zone_map_geometry\<close>), the ink that stays legible on a seat's fill
  (events/seat_contrast.py), and the renderers of events/zone_export.py as the lists of calls they make on
  the drawing library: a canvas (PDF) or an image (PNG). Coordinates are reals. The event's title and the
  formatted date are arguments, the page sizes of the PDF library, the colours it reads and the text metrics of the image
  library are parameters.
\<close>

section \<open>Ink on a seat\<close>

type_synonym rgb = "int \<times> int \<times> int"

definition BLACK_RGB :: rgb where "BLACK_RGB = (0, 0, 0)"
definition WHITE_RGB :: rgb where "WHITE_RGB = (255, 255, 255)"

definition channel_luminance :: "int \<Rightarrow> real" where
  "channel_luminance c =
     (let cs = real_of_int c / 255 in if cs \<le> 0.03928 then cs / 12.92 else ((cs + 0.055) / 1.055) powr 2.4)"

definition relative_luminance :: "rgb \<Rightarrow> real" where
  "relative_luminance rgb =
     (case rgb of (r, g, b) \<Rightarrow>
        0.2126 * channel_luminance r + 0.7152 * channel_luminance g + 0.0722 * channel_luminance b)"

definition contrast_ratio :: "real \<Rightarrow> real \<Rightarrow> real" where
  "contrast_ratio l1 l2 = (let (hi, lo) = (if l1 \<ge> l2 then (l1, l2) else (l2, l1)) in (hi + 0.05) / (lo + 0.05))"

definition text_color_rgb :: "rgb \<Rightarrow> rgb" where
  "text_color_rgb rgb =
     (let lum = relative_luminance rgb; on_white = contrast_ratio lum 1; on_black = contrast_ratio lum 0
      in if on_white > on_black then WHITE_RGB else BLACK_RGB)"

definition hex_char :: "int \<Rightarrow> char" where
  "hex_char d = char_of (if d < 10 then 48 + nat d else 87 + nat d)"

text \<open>\<open>f"{n:02x}"\<close> on a byte.\<close>

definition hex2 :: "int \<Rightarrow> string" where
  "hex2 n = [hex_char (n div 16), hex_char (n mod 16)]"

definition text_color_hex :: "rgb \<Rightarrow> string" where
  "text_color_hex rgb = (case text_color_rgb rgb of (r, g, b) \<Rightarrow> ''#'' @ hex2 r @ hex2 g @ hex2 b)"

section \<open>Colours\<close>

definition NEUTRAL_SEAT_HEX :: string where "NEUTRAL_SEAT_HEX = ''#d1d5db''"
definition TITLE_HEX :: string where "TITLE_HEX = ''#111827''"
definition MUTED_HEX :: string where "MUTED_HEX = ''#6b7280''"
definition BORDER_HEX :: string where "BORDER_HEX = ''#d1d5db''"

definition hex_digit :: "char \<Rightarrow> int option" where
  "hex_digit c =
     (let n = int (code_pt c) in
      if 48 \<le> n \<and> n \<le> 57 then Some (n - 48)
      else if 97 \<le> n \<and> n \<le> 102 then Some (n - 87)
      else if 65 \<le> n \<and> n \<le> 70 then Some (n - 55) else None)"

text \<open>\<open>int(t, 16)\<close> on a slice of at most two characters; \<open>None\<close> is \<open>ValueError\<close>.\<close>

definition int16 :: "string \<Rightarrow> int option" where
  "int16 t =
     (case strip t of
        [d] \<Rightarrow> hex_digit d
      | [a, b] \<Rightarrow>
          (if a = CHR ''+'' then hex_digit b
           else if a = CHR ''-'' then map_option uminus (hex_digit b)
           else case (hex_digit a, hex_digit b) of (Some m, Some n) \<Rightarrow> Some (16 * m + n) | _ \<Rightarrow> None)
      | _ \<Rightarrow> None)"

definition rgb_of_hex :: "string \<Rightarrow> rgb option" where
  "rgb_of_hex h =
     (case (int16 (take 2 h), int16 (take 2 (drop 2 h)), int16 (take 2 (drop 4 h))) of
        (Some r, Some g, Some b) \<Rightarrow> Some (r, g, b) | _ \<Rightarrow> None)"

definition lstrip_hash :: "string \<Rightarrow> string" where
  "lstrip_hash = dropWhile (\<lambda>c. c = CHR ''#'')"

definition hex_to_rgb :: "string option \<Rightarrow> string \<Rightarrow> rgb option" where
  "hex_to_rgb hex_color default_hex =
     (let value = (case hex_color of None \<Rightarrow> default_hex | Some v \<Rightarrow> if v = [] then default_hex else v);
          h = lstrip_hash value;
          h = (if length h \<noteq> 6 then lstrip_hash default_hex else h)
      in case rgb_of_hex h of Some c \<Rightarrow> Some c | None \<Rightarrow> rgb_of_hex (lstrip_hash default_hex))"

section \<open>Geometry\<close>

definition SEAT_RADIUS :: real where "SEAT_RADIUS = 0.35"

text \<open>\<open>(min_x, min_y, width, height)\<close> of the seats' bounding box, padded.\<close>

definition view_box :: "seat list \<Rightarrow> real \<times> real \<times> real \<times> real" where
  "view_box seats =
     (let pad = SEAT_RADIUS * 4 + 1; xs = set (map seat_x seats); ys = set (map seat_y seats)
      in if seats = [] then (0, 0, 10, 10)
         else (Min xs - pad, Min ys - pad, (Max xs + pad) - (Min xs - pad), (Max ys + pad) - (Min ys - pad)))"

definition zone_map_geometry :: "performance \<Rightarrow> db \<Rightarrow> section_row list \<times> seat list \<times> real \<times> (real \<times> real \<times> real \<times> real)" where
  "zone_map_geometry performance s =
     ((case get_seating_chart performance s of
         None \<Rightarrow> []
       | Some chart \<Rightarrow> order_by (\<lambda>x. (section_ordering x, section_name x))
             (filter (\<lambda>x. section_chart x = chart_pk chart) (db_sections s))),
      performance_seats performance s, SEAT_RADIUS, view_box (performance_seats performance s))"

definition fit_transform :: "real \<times> real \<times> real \<times> real \<Rightarrow> real \<Rightarrow> real \<Rightarrow> real \<times> real \<times> real" where
  "fit_transform vb box_w box_h =
     (case vb of (min_x, min_y, w, h) \<Rightarrow>
       let vb_w = (if w = 0 then 1 else w); vb_h = (if h = 0 then 1 else h);
           scale = min (box_w / vb_w) (box_h / vb_h)
       in (scale, (box_w - vb_w * scale) / 2 - min_x * scale, (box_h - vb_h * scale) / 2 - min_y * scale))"

definition project :: "real \<Rightarrow> real \<Rightarrow> real \<times> real \<times> real \<Rightarrow> real \<times> real" where
  "project x y t = (case t of (scale, offset_x, offset_y) \<Rightarrow> (offset_x + x * scale, offset_y + y * scale))"

section \<open>What the sheet shows\<close>

record zone_summary =
  zs_name :: string
  zs_color :: string
  zs_amount :: cents
  zs_seat_count :: nat

record section_price =
  sp_name :: string
  sp_amount :: "cents option"

record zone_sheet =
  zm_seats :: "seat list"
  zm_seat_radius :: real
  zm_view_box :: "real \<times> real \<times> real \<times> real"
  zm_zone_by_seat :: "nat \<rightharpoonup> pricing_zone"
  zm_zone_rows :: "zone_summary list"
  zm_unzoned_section_rows :: "section_price list"

text \<open>\<open>setdefault\<close> on the insertion-ordered dictionary of summaries, then the count.\<close>

fun count_seat :: "pricing_zone \<Rightarrow> (nat \<times> zone_summary) list \<Rightarrow> (nat \<times> zone_summary) list" where
  "count_seat z [] = [(zone_pk z, \<lparr>zs_name = zone_name z, zs_color = zone_color z, zs_amount = zone_amount z, zs_seat_count = 1\<rparr>)]"
| "count_seat z ((k, row) # rows) =
     (if k = zone_pk z then (k, row\<lparr>zs_seat_count := zs_seat_count row + 1\<rparr>) # rows else (k, row) # count_seat z rows)"

definition zone_summaries :: "(nat \<rightharpoonup> pricing_zone) \<Rightarrow> seat list \<Rightarrow> (nat \<times> zone_summary) list" where
  "zone_summaries zones seats =
     fold (\<lambda>seat rows. case zones (seat_pk seat) of None \<Rightarrow> rows | Some z \<Rightarrow> count_seat z rows) seats []"

definition unzoned_step ::
  "(nat \<rightharpoonup> pricing_zone) \<Rightarrow> (nat \<rightharpoonup> price_tier) \<Rightarrow> db \<Rightarrow> seat \<Rightarrow> nat set \<times> section_price list \<Rightarrow> nat set \<times> section_price list" where
  "unzoned_step zones tiers s seat acc =
     (case acc of (seen, rows) \<Rightarrow>
        if zones (seat_pk seat) \<noteq> None then acc
        else case section_of seat s of
          None \<Rightarrow> acc
        | Some sec \<Rightarrow>
            (if section_pk sec \<in> seen then acc
             else (insert (section_pk sec) seen,
                   rows @ [\<lparr>sp_name = section_name sec, sp_amount = map_option tier_amount (tiers (section_pk sec))\<rparr>])))"

definition gather :: "performance \<Rightarrow> db \<Rightarrow> zone_sheet" where
  "gather performance s =
     (case zone_map_geometry performance s of (sections, seats, seat_radius, vb) \<Rightarrow>
        let zones = zones_by_seat_id performance s; tiers = price_tiers_by_section performance s
        in \<lparr>zm_seats = seats, zm_seat_radius = seat_radius, zm_view_box = vb, zm_zone_by_seat = zones,
            zm_zone_rows = order_by zs_name (map snd (zone_summaries zones seats)),
            zm_unzoned_section_rows = order_by sp_name (snd (fold (unzoned_step zones tiers s) seats ({}, [])))\<rparr>)"

section \<open>The PDF\<close>

text \<open>A fill or a stroke is a colour in hex notation (\<open>HexColor\<close>) or the library's own \<open>black\<close>.\<close>

datatype pdf_op =
    SetFill string
  | FillBlack
  | SetStroke string
  | SetFont string real
  | DrawString real real string
  | DrawCentredString real real string
  | DrawCircle real real real
  | DrawRect real real real real bool

text \<open>\<open>kit_hex_color\<close>: the texts the library's \<open>HexColor\<close> reads; it raises \<open>ValueError\<close> on any other.\<close>

record pdf_kit =
  kit_inch :: real
  kit_letter :: "real \<times> real"
  kit_legal :: "real \<times> real"
  kit_hex_color :: "string \<Rightarrow> bool"

definition zone_line :: "zone_summary \<Rightarrow> string" where
  "zone_line row =
     zs_name row @ '' - $'' @ show_cents (zs_amount row) @ '' ('' @ show_nat (zs_seat_count row) @ '' seat'' @
     (if zs_seat_count row = 1 then [] else ''s'') @ '')''"

definition section_line :: "section_price \<Rightarrow> string" where
  "section_line row =
     sp_name row @ '' - '' @ (case sp_amount row of None \<Rightarrow> ''no price set'' | Some a \<Rightarrow> ''$'' @ show_cents a)"

text \<open>One swatch and one line of text, moving down the page.\<close>

definition pdf_swatch :: "real \<Rightarrow> string \<Rightarrow> string \<Rightarrow> real \<Rightarrow> pdf_op list" where
  "pdf_swatch x0 color line y =
     [SetFill color, DrawRect x0 (y - 10 + 2) 10 10 True, FillBlack, DrawString (x0 + 10 + 6) (y - 10 + 4) line]"

fun pdf_swatches :: "real \<Rightarrow> (string \<times> string) list \<Rightarrow> real \<Rightarrow> pdf_op list \<times> real" where
  "pdf_swatches x0 [] y = ([], y)"
| "pdf_swatches x0 ((color, line) # rows) y =
     (let (ops, y') = pdf_swatches x0 rows (y - 16) in (pdf_swatch x0 color line y @ ops, y'))"

definition draw_pdf_legend :: "zone_sheet \<Rightarrow> real \<Rightarrow> real \<Rightarrow> pdf_op list" where
  "draw_pdf_legend d x0 top_y =
     (let y1 = top_y - 18;
          (zone_ops, y2) =
            (if zm_zone_rows d \<noteq> [] then pdf_swatches x0 (map (\<lambda>r. (zs_color r, zone_line r)) (zm_zone_rows d)) y1
             else ([SetFill MUTED_HEX, DrawString x0 (y1 - 8) ''No zones applied yet.'', FillBlack], y1 - 16));
          section_ops =
            (if zm_unzoned_section_rows d = [] then []
             else [SetFont ''Helvetica-Bold'' 12, DrawString x0 (y2 - 8) ''Unzoned (section default)'', SetFont ''Helvetica'' 9] @
                  fst (pdf_swatches x0 (map (\<lambda>r. (NEUTRAL_SEAT_HEX, section_line r)) (zm_unzoned_section_rows d)) (y2 - 8 - 18)))
      in [FillBlack, SetFont ''Helvetica-Bold'' 12, DrawString x0 top_y ''Zones'', SetFont ''Helvetica'' 9] @
         zone_ops @ section_ops)"

text \<open>
  One seat: its disc, and its label when it fits. \<open>hex_to_rgb\<close> never fails on the neutral default
  (\<open>neutral_is_a_colour\<close> below), so \<open>the\<close> is defined.
\<close>

definition pdf_seat ::
  "bool \<Rightarrow> (nat \<rightharpoonup> pricing_zone) \<Rightarrow> real \<Rightarrow> real \<Rightarrow> real \<Rightarrow> real \<Rightarrow> real \<times> real \<times> real \<Rightarrow> seat \<Rightarrow> pdf_op list" where
  "pdf_seat labels zones seat_r map_x0 map_y0 map_h t seat =
     (let (local_x, local_y_from_top) = project (seat_x seat) (seat_y seat) t;
          px = map_x0 + local_x; py = map_y0 + (map_h - local_y_from_top);
          seat_hex = (case zones (seat_pk seat) of None \<Rightarrow> NEUTRAL_SEAT_HEX | Some z \<Rightarrow> zone_color z);
          font_size = max 4 (seat_r * 1.1);
          label = seat_row_label seat @ seat_number seat
      in [SetFill seat_hex, DrawCircle px py seat_r] @
         (if labels \<and> seat_r \<ge> 3.5 \<and> font_size * 0.6 * real (length label) \<le> seat_r * 2.4
          then [SetFill (text_color_hex (the (hex_to_rgb (Some seat_hex) NEUTRAL_SEAT_HEX))),
                SetFont ''Helvetica'' font_size, DrawCentredString px (py - font_size * 0.35) label]
          else []))"

text \<open>The map panel: its left edge, its bottom edge, its width and its height.\<close>

definition pdf_panel :: "pdf_kit \<Rightarrow> real \<times> real \<Rightarrow> real \<Rightarrow> real \<times> real \<times> real \<times> real" where
  "pdf_panel kit page legend_w =
     (let inch = kit_inch kit; margin = 0.4 * inch; gap = 0.2 * inch;
          title_y = snd page - margin - 14; subtitle_y = title_y - 16; top_y = subtitle_y - gap;
          legend_gap = (if legend_w \<noteq> 0 then gap else 0)
      in (margin, margin, fst page - 2 * margin - legend_w - legend_gap, top_y - margin))"

definition pdf_legend_width :: "pdf_kit \<Rightarrow> bool \<Rightarrow> zone_sheet \<Rightarrow> real" where
  "pdf_legend_width kit legend d =
     (if legend \<and> (zm_zone_rows d \<noteq> [] \<or> zm_unzoned_section_rows d \<noteq> []) then 2.3 * kit_inch kit else 0)"

definition pdf_page :: "pdf_kit \<Rightarrow> string \<Rightarrow> real \<times> real" where
  "pdf_page kit paper = (if paper = ''letter'' then kit_letter kit else kit_legal kit)"

definition pdf_seats :: "bool \<Rightarrow> zone_sheet \<Rightarrow> real \<times> real \<times> real \<times> real \<Rightarrow> pdf_op list" where
  "pdf_seats labels d panel =
     (case panel of (map_x0, map_y0, map_w, map_h) \<Rightarrow>
        let t = fit_transform (zm_view_box d) map_w map_h; seat_r = max 1.2 (zm_seat_radius d * fst t)
        in concat (map (pdf_seat labels (zm_zone_by_seat d) seat_r map_x0 map_y0 map_h t) (zm_seats d)))"

definition draw_pdf :: "pdf_kit \<Rightarrow> string \<Rightarrow> string \<Rightarrow> zone_sheet \<Rightarrow> string \<Rightarrow> bool \<Rightarrow> bool \<Rightarrow> pdf_op list" where
  "draw_pdf kit title subtitle d paper labels legend =
     (let page = pdf_page kit paper;
          inch = kit_inch kit; margin = 0.4 * inch; gap = 0.2 * inch;
          title_y = snd page - margin - 14; subtitle_y = title_y - 16; top_y = subtitle_y - gap;
          legend_w = pdf_legend_width kit legend d;
          legend_gap = (if legend_w \<noteq> 0 then gap else 0);
          (map_x0, map_y0, map_w, map_h) = pdf_panel kit page legend_w
      in [SetFill TITLE_HEX, SetFont ''Helvetica-Bold'' 16, DrawString margin title_y title,
          SetFill MUTED_HEX, SetFont ''Helvetica'' 10, DrawString margin subtitle_y subtitle, FillBlack] @
         (if zm_seats d \<noteq> [] then pdf_seats labels d (map_x0, map_y0, map_w, map_h) @ [FillBlack]
          else [SetStroke BORDER_HEX, DrawRect map_x0 map_y0 map_w map_h False, SetFill MUTED_HEX,
                SetFont ''Helvetica'' 10, DrawString (map_x0 + 10) (map_y0 + map_h - 16) ''This performance has no seats yet.'',
                FillBlack]) @
         (if legend_w \<noteq> 0 then draw_pdf_legend d (map_x0 + map_w + legend_gap) top_y else []))"

definition hex_colors :: "pdf_op list \<Rightarrow> string list" where
  "hex_colors ops = concat (map (\<lambda>op. case op of SetFill c \<Rightarrow> [c] | SetStroke c \<Rightarrow> [c] | _ \<Rightarrow> []) ops)"

text \<open>The first colour \<open>HexColor\<close> does not read ends the drawing with its \<open>ValueError\<close>.\<close>

definition render_pdf ::
  "pdf_kit \<Rightarrow> string \<Rightarrow> string \<Rightarrow> zone_sheet \<Rightarrow> string \<Rightarrow> bool \<Rightarrow> bool \<Rightarrow> string + pdf_op list" where
  "render_pdf kit title subtitle d paper labels legend =
     (let ops = draw_pdf kit title subtitle d paper labels legend
      in case filter (\<lambda>c. \<not> kit_hex_color kit c) (hex_colors ops) of [] \<Rightarrow> Inr ops | c # _ \<Rightarrow> Inl c)"

section \<open>The PNG\<close>

text \<open>Colours of the image library are names or hex strings for text, triples for fills.\<close>

datatype png_op =
    PngText real real string int string
  | PngEllipse real real real real rgb rgb
  | PngOutline real real real real rgb
  | PngRect real real real real rgb
  | PngInk real real string int rgb

definition PNG_DPI :: real where "PNG_DPI = 150"

text \<open>\<open>round\<close>: to the nearest integer, a tie to the even one.\<close>

definition py_round :: "real \<Rightarrow> int" where
  "py_round x =
     (let f = floor x; d = x - of_int f
      in if d < 1 / 2 then f else if d > 1 / 2 then f + 1 else if even f then f else f + 1)"

definition PAGE_SIZES_IN :: "string \<rightharpoonup> real \<times> real" where
  "PAGE_SIZES_IN = [''letter'' \<mapsto> (8.5, 11), ''legal'' \<mapsto> (8.5, 14)]"

definition page_in :: "string \<Rightarrow> real \<times> real" where
  "page_in paper = (case PAGE_SIZES_IN paper of Some p \<Rightarrow> p | None \<Rightarrow> (0, 0))"

fun png_rows :: "real \<Rightarrow> (rgb \<times> string) list \<Rightarrow> real \<Rightarrow> png_op list \<times> real" where
  "png_rows x0 [] y = ([], y)"
| "png_rows x0 ((color, line) # rows) y =
     (let (ops, y') = png_rows x0 rows (y + (14 + 8))
      in ([PngRect x0 y (x0 + 14) (y + 14) color, PngText (x0 + 14 + 8) (y - 1) line 12 TITLE_HEX] @ ops, y'))"

definition fill_of :: "string \<Rightarrow> rgb" where
  "fill_of color = the (hex_to_rgb (Some color) NEUTRAL_SEAT_HEX)"

definition draw_png_legend :: "zone_sheet \<Rightarrow> real \<Rightarrow> real \<Rightarrow> png_op list" where
  "draw_png_legend d x0 y0 =
     (let y1 = y0 + 22;
          (zone_ops, y2) =
            (if zm_zone_rows d \<noteq> [] then png_rows x0 (map (\<lambda>r. (fill_of (zs_color r), zone_line r)) (zm_zone_rows d)) y1
             else ([PngText x0 y1 ''No zones applied yet.'' 12 MUTED_HEX], y1 + (14 + 8)));
          section_ops =
            (if zm_unzoned_section_rows d = [] then []
             else PngText x0 (y2 + 10) ''Unzoned (section default)'' 15 TITLE_HEX #
                  fst (png_rows x0 (map (\<lambda>r. (fill_of NEUTRAL_SEAT_HEX, section_line r)) (zm_unzoned_section_rows d)) (y2 + 10 + 22)))
      in PngText x0 y0 ''Zones'' 15 TITLE_HEX # zone_ops @ section_ops)"

text \<open>\<open>bbox paper text\<close> is \<open>draw.textbbox((0, 0), text)\<close> in the default font at that paper.\<close>

definition png_seat ::
  "(int \<Rightarrow> string \<Rightarrow> real \<times> real \<times> real \<times> real) \<Rightarrow> bool \<Rightarrow> (nat \<rightharpoonup> pricing_zone) \<Rightarrow> real \<Rightarrow> real \<Rightarrow> real \<Rightarrow>
   real \<times> real \<times> real \<Rightarrow> seat \<Rightarrow> png_op list" where
  "png_seat bbox labels zones seat_r map_x0 map_y0 t seat =
     (let (local_x, local_y) = project (seat_x seat) (seat_y seat) t;
          cx = map_x0 + local_x; cy = map_y0 + local_y;
          fill = the (hex_to_rgb (map_option zone_color (zones (seat_pk seat))) NEUTRAL_SEAT_HEX);
          label_size = max 6 (py_round (seat_r * 0.9));
          label = seat_row_label seat @ seat_number seat;
          (b0, b1, b2, b3) = bbox label_size label;
          tw = b2 - b0; th = b3 - b1
      in [PngEllipse (cx - seat_r) (cy - seat_r) (cx + seat_r) (cy + seat_r) fill WHITE_RGB] @
         (if labels \<and> seat_r \<ge> 4 \<and> tw \<le> seat_r * 2.6
          then [PngInk (cx - tw / 2 - b0) (cy - th / 2 - b1) label label_size (text_color_rgb fill)] else []))"

definition png_legend_width :: "bool \<Rightarrow> zone_sheet \<Rightarrow> real" where
  "png_legend_width legend d =
     (if legend \<and> (zm_zone_rows d \<noteq> [] \<or> zm_unzoned_section_rows d \<noteq> []) then real_of_int (py_round (2.3 * PNG_DPI)) else 0)"

text \<open>The map panel: its left edge, its top edge, its width and its height.\<close>

definition png_panel ::
  "(int \<Rightarrow> string \<Rightarrow> real \<times> real \<times> real \<times> real) \<Rightarrow> string \<Rightarrow> string \<Rightarrow> string \<Rightarrow> real \<Rightarrow> real \<times> real \<times> real \<times> real" where
  "png_panel bbox title subtitle paper legend_w =
     (let (page_w_in, page_h_in) = page_in paper;
          width = py_round (page_w_in * PNG_DPI); height = py_round (page_h_in * PNG_DPI);
          margin = real_of_int (py_round (0.4 * PNG_DPI)); gap = real_of_int (py_round (0.2 * PNG_DPI));
          title_bottom = margin + snd (snd (snd (bbox 22 title)));
          subtitle_bottom = title_bottom + 4 + snd (snd (snd (bbox 14 subtitle)));
          top_y = subtitle_bottom + gap;
          legend_gap = (if legend_w \<noteq> 0 then gap else 0)
      in (margin, top_y, real_of_int width - 2 * margin - legend_w - legend_gap, real_of_int height - top_y - margin))"

definition png_seats ::
  "(int \<Rightarrow> string \<Rightarrow> real \<times> real \<times> real \<times> real) \<Rightarrow> bool \<Rightarrow> zone_sheet \<Rightarrow> real \<times> real \<times> real \<times> real \<Rightarrow> png_op list" where
  "png_seats bbox labels d panel =
     (case panel of (map_x0, map_y0, map_w, map_h) \<Rightarrow>
        let t = fit_transform (zm_view_box d) map_w map_h; seat_r = max 2 (zm_seat_radius d * fst t)
        in concat (map (png_seat bbox labels (zm_zone_by_seat d) seat_r map_x0 map_y0 t) (zm_seats d)))"

definition render_png ::
  "(int \<Rightarrow> string \<Rightarrow> real \<times> real \<times> real \<times> real) \<Rightarrow> string \<Rightarrow> string \<Rightarrow> zone_sheet \<Rightarrow> string \<Rightarrow> bool \<Rightarrow> bool \<Rightarrow>
   int \<times> int \<times> png_op list" where
  "render_png bbox title subtitle d paper labels legend =
     (let (page_w_in, page_h_in) = page_in paper;
          width = py_round (page_w_in * PNG_DPI); height = py_round (page_h_in * PNG_DPI);
          margin = real_of_int (py_round (0.4 * PNG_DPI)); gap = real_of_int (py_round (0.2 * PNG_DPI));
          title_bottom = margin + snd (snd (snd (bbox 22 title)));
          legend_w = png_legend_width legend d;
          legend_gap = (if legend_w \<noteq> 0 then gap else 0);
          (map_x0, map_y0, map_w, map_h) = png_panel bbox title subtitle paper legend_w
      in (width, height,
          [PngText margin margin title 22 TITLE_HEX, PngText margin (title_bottom + 4) subtitle 14 MUTED_HEX] @
          (if zm_seats d \<noteq> [] then png_seats bbox labels d (map_x0, map_y0, map_w, map_h)
           else [PngOutline map_x0 map_y0 (map_x0 + map_w) (map_y0 + map_h) (fill_of BORDER_HEX),
                 PngText (map_x0 + 12) (map_y0 + 12) ''This performance has no seats yet.'' 14 MUTED_HEX]) @
          (if legend_w \<noteq> 0 then draw_png_legend d (map_x0 + map_w + legend_gap) map_y0 else [])))"

section \<open>Choosing the format\<close>

datatype zone_export_error = UnsupportedFormat string | UnsupportedSize string

text \<open>How a rendering fails: by its own exception, or by the drawing library's on a colour.\<close>

datatype zone_export_failure = Unsupported zone_export_error | UnreadableColor string

datatype zone_drawing = PngSheet int int "png_op list" | PdfSheet "pdf_op list"

definition render_zone_map ::
  "pdf_kit \<Rightarrow> (int \<Rightarrow> string \<Rightarrow> real \<times> real \<times> real \<times> real) \<Rightarrow> string \<Rightarrow> string \<Rightarrow> performance \<Rightarrow> string \<Rightarrow> string \<Rightarrow> bool \<Rightarrow>
   bool \<Rightarrow> db \<Rightarrow> zone_export_failure + zone_drawing" where
  "render_zone_map kit bbox title subtitle performance fmt paper labels legend s =
     (let fmt = lower fmt; paper = lower paper in
      if fmt \<notin> {''png'', ''pdf''} then Inl (Unsupported (UnsupportedFormat fmt))
      else if PAGE_SIZES_IN paper = None then Inl (Unsupported (UnsupportedSize paper))
      else let d = gather performance s in
        if fmt = ''png''
        then (case render_png bbox title subtitle d paper labels legend of (w, h, ops) \<Rightarrow> Inr (PngSheet w h ops))
        else (case render_pdf kit title subtitle d paper labels legend of
                Inl color \<Rightarrow> Inl (UnreadableColor color) | Inr ops \<Rightarrow> Inr (PdfSheet ops)))"

section \<open>Every ink is legible\<close>

lemma channel_bounds:
  assumes "0 \<le> c" "c \<le> 255"
  shows "0 \<le> channel_luminance c \<and> channel_luminance c \<le> 1"
proof -
  let ?cs = "real_of_int c / 255"
  have cs: "0 \<le> ?cs" "?cs \<le> 1" using assms by simp_all
  show ?thesis
  proof (cases "?cs \<le> 0.03928")
    case True then show ?thesis using cs by (simp add: channel_luminance_def)
  next
    case False
    have "((?cs + 0.055) / 1.055) powr 2.4 \<le> 1 powr 2.4" using cs by (intro powr_mono2) simp_all
    then show ?thesis using False by (simp add: channel_luminance_def)
  qed
qed

lemma luminance_bounds:
  assumes "r \<in> {0..255}" "g \<in> {0..255}" "b \<in> {0..255}"
  shows "0 \<le> relative_luminance (r, g, b) \<and> relative_luminance (r, g, b) \<le> 1"
  using channel_bounds [of r] channel_bounds [of g] channel_bounds [of b] assms
  by (simp add: relative_luminance_def)

lemma ink_luminance: "relative_luminance WHITE_RGB = 1" "relative_luminance BLACK_RGB = 0"
  by (simp_all add: relative_luminance_def WHITE_RGB_def BLACK_RGB_def channel_luminance_def)

lemma contrast_white: "0 \<le> l \<Longrightarrow> l \<le> 1 \<Longrightarrow> contrast_ratio l 1 = 1.05 / (l + 0.05) \<and> contrast_ratio 1 l = 1.05 / (l + 0.05)"
  by (cases "l = 1") (simp_all add: contrast_ratio_def)

lemma contrast_black: "0 \<le> l \<Longrightarrow> contrast_ratio l 0 = (l + 0.05) / 0.05 \<and> contrast_ratio 0 l = (l + 0.05) / 0.05"
  by (cases "l = 0") (simp_all add: contrast_ratio_def)

text \<open>The two contrasts multiply to 21, so the larger of them is at least its root.\<close>

lemma one_ink_is_legible:
  fixes l :: real
  assumes "0 \<le> l"
  shows "4.5 \<le> max (1.05 / (l + 0.05)) ((l + 0.05) / 0.05)"
proof (cases "l + 0.05 \<le> 0.225")
  case True
  then have "4.5 \<le> 1.05 / (l + 0.05)" using assms by (simp add: field_simps)
  then show ?thesis by (simp only: le_max_iff_disj simp_thms)
next
  case False
  then have "4.5 \<le> (l + 0.05) / 0.05" by simp
  then show ?thesis by (simp only: le_max_iff_disj simp_thms)
qed

text \<open>
  On every seat fill, the ink chosen for the seat's label (black or white) has a contrast
  ratio of at least 4.5, the WCAG AA threshold for text.
\<close>

theorem ink_is_legible:
  assumes "r \<in> {0..255}" "g \<in> {0..255}" "b \<in> {0..255}"
  shows "4.5 \<le> contrast_ratio (relative_luminance (text_color_rgb (r, g, b))) (relative_luminance (r, g, b))"
proof -
  let ?l = "relative_luminance (r, g, b)"
  note l = luminance_bounds [OF assms]
  note w = contrast_white [OF conjunct1 [OF l] conjunct2 [OF l]] and b = contrast_black [OF conjunct1 [OF l]]
  show ?thesis
    using one_ink_is_legible [OF conjunct1 [OF l]] w b
    by (simp add: text_color_rgb_def Let_def ink_luminance max_def split: if_splits)
qed

theorem ink_is_legible_witness:
  "4.5 \<le> contrast_ratio (relative_luminance (text_color_rgb (119, 119, 119))) (relative_luminance (119, 119, 119))"
  by (rule ink_is_legible) simp_all

section \<open>Colours survive their notation\<close>

lemma hex_digit_char: "0 \<le> d \<Longrightarrow> d < 16 \<Longrightarrow> hex_digit (hex_char d) = Some d"
proof -
  assume "0 \<le> d" "d < 16"
  then show ?thesis by (auto simp: hex_digit_def hex_char_def code_pt_char_of Let_def)
qed

lemma hex_char_plain: "0 \<le> d \<Longrightarrow> d < 16 \<Longrightarrow> \<not> is_space (hex_char d) \<and> hex_char d \<noteq> CHR ''+'' \<and> hex_char d \<noteq> CHR ''-'' \<and> hex_char d \<noteq> CHR ''#''"
proof -
  assume "0 \<le> d" "d < 16"
  then have c: "48 \<le> code_pt (hex_char d)" by (simp add: hex_char_def code_pt_char_of)
  have "code_pt CHR ''+'' = 43" "code_pt CHR ''-'' = 45" "code_pt CHR ''#'' = 35" by code_simp+
  with c show ?thesis by (auto simp: is_space_def)
qed

lemma int16_hex2: "n \<in> {0..255} \<Longrightarrow> int16 (hex2 n) = Some n"
proof -
  assume "n \<in> {0..255}"
  then have d: "0 \<le> n div 16" "n div 16 < 16" "0 \<le> n mod 16" "n mod 16 < 16" by auto
  show ?thesis using hex_char_plain [OF d(1,2)] hex_char_plain [OF d(3,4)]
    by (simp add: int16_def hex2_def strip_def hex_digit_char d)
qed

text \<open>Reading back the hex notation of a colour gives the colour, whatever the fallback.\<close>

theorem colour_notation_roundtrip:
  assumes "r \<in> {0..255}" "g \<in> {0..255}" "b \<in> {0..255}"
  shows "hex_to_rgb (Some (''#'' @ hex2 r @ hex2 g @ hex2 b)) fallback = Some (r, g, b)"
proof -
  have "0 \<le> r div 16" "r div 16 < 16" using assms(1) by auto
  then have "hex_char (r div 16) \<noteq> CHR ''#''" using hex_char_plain by blast
  moreover have "hex2 n = [hex_char (n div 16), hex_char (n mod 16)]" for n by (simp add: hex2_def)
  ultimately show ?thesis using assms [THEN int16_hex2]
    by (simp add: hex_to_rgb_def lstrip_hash_def rgb_of_hex_def)
qed

theorem colour_notation_roundtrip_witness: "hex_to_rgb (Some ''#ff8000'') NEUTRAL_SEAT_HEX = Some (255, 128, 0)"
proof -
  have "''#'' @ hex2 255 @ hex2 128 @ hex2 0 = ''#ff8000''" by code_simp
  with colour_notation_roundtrip [of 255 128 0 NEUTRAL_SEAT_HEX] show ?thesis by simp
qed

lemma neutral_is_a_colour: "\<exists>c. hex_to_rgb color NEUTRAL_SEAT_HEX = Some c"
proof -
  have "rgb_of_hex (lstrip_hash NEUTRAL_SEAT_HEX) \<noteq> None" by code_simp
  then show ?thesis by (auto simp: hex_to_rgb_def Let_def split: option.split)
qed

section \<open>The map fits its panel\<close>

text \<open>A coordinate that keeps \<open>pad\<close> from the ends of the view box keeps the scaled pad from the ends of the panel.\<close>

lemma centred_fit:
  fixes scale v box lo x pad :: real
  assumes "v * scale \<le> box" "0 \<le> scale" "lo + pad \<le> x" "x \<le> lo + v - pad"
  shows "pad * scale \<le> (box - v * scale) / 2 - lo * scale + x * scale \<and>
         (box - v * scale) / 2 - lo * scale + x * scale \<le> box - pad * scale"
proof -
  have "(lo + pad) * scale \<le> x * scale" "x * scale \<le> (lo + v - pad) * scale"
    using assms by (simp_all add: mult_right_mono)
  then have "lo * scale + pad * scale \<le> x * scale" "x * scale \<le> lo * scale + v * scale - pad * scale"
    by (simp_all only: distrib_right left_diff_distrib)
  with assms(1) show ?thesis by (simp add: field_simps)
qed

lemma fit_bounds:
  assumes "vb = (min_x, min_y, vw, vh)" "vw > 0" "vh > 0" "box_w > 0" "box_h > 0"
    and "fit_transform vb box_w box_h = (scale, ox, oy)"
  shows "scale > 0 \<and> vw * scale \<le> box_w \<and> vh * scale \<le> box_h \<and>
     ox = (box_w - vw * scale) / 2 - min_x * scale \<and> oy = (box_h - vh * scale) / 2 - min_y * scale"
proof -
  have e: "scale = min (box_w / vw) (box_h / vh)" "ox = (box_w - vw * scale) / 2 - min_x * scale"
    "oy = (box_h - vh * scale) / 2 - min_y * scale"
    using assms by (auto simp: fit_transform_def Let_def)
  have "vw * scale \<le> vw * (box_w / vw)" "vh * scale \<le> vh * (box_h / vh)"
    using assms(2,3) by (simp_all only: e(1) mult_le_cancel_left_pos min.cobounded1 min.cobounded2)
  then show ?thesis using e assms(2-5) by simp
qed

definition MAP_PAD :: real where "MAP_PAD = SEAT_RADIUS * 4 + 1"

lemma view_box_bounds:
  assumes "seat \<in> set seats" "view_box seats = (min_x, min_y, vw, vh)"
  shows "vw > 0 \<and> vh > 0 \<and> min_x + MAP_PAD \<le> seat_x seat \<and> seat_x seat \<le> min_x + vw - MAP_PAD \<and>
         min_y + MAP_PAD \<le> seat_y seat \<and> seat_y seat \<le> min_y + vh - MAP_PAD"
proof -
  have in_range: "Min (f ` set seats) \<le> f seat \<and> f seat \<le> Max (f ` set seats)" for f :: "seat \<Rightarrow> real"
    using assms(1) by simp
  have "MAP_PAD > 0" by (simp add: MAP_PAD_def SEAT_RADIUS_def)
  moreover have "seats \<noteq> []" using assms(1) by auto
  ultimately show ?thesis using in_range [of seat_x] in_range [of seat_y] assms(2)
    by (auto simp: view_box_def Let_def MAP_PAD_def [symmetric])
qed

lemma projected_inside:
  assumes "seat \<in> set seats" "box_w > 0" "box_h > 0" "t = fit_transform (view_box seats) box_w box_h"
    and "project (seat_x seat) (seat_y seat) t = (x, y)"
  shows "0 < fst t \<and> MAP_PAD * fst t \<le> x \<and> x \<le> box_w - MAP_PAD * fst t \<and> MAP_PAD * fst t \<le> y \<and> y \<le> box_h - MAP_PAD * fst t"
proof -
  obtain min_x min_y vw vh where v: "view_box seats = (min_x, min_y, vw, vh)" by (metis prod_cases4)
  obtain scale ox oy where t: "fit_transform (view_box seats) box_w box_h = (scale, ox, oy)" by (metis prod_cases3)
  note vb = view_box_bounds [OF assms(1) v]
  then have pos: "vw > 0" "vh > 0" by simp_all
  note f = fit_bounds [OF v pos assms(2,3) t]
  have xy: "x = (box_w - vw * scale) / 2 - min_x * scale + seat_x seat * scale"
      "y = (box_h - vh * scale) / 2 - min_y * scale + seat_y seat * scale"
    using assms(4,5) t f by (simp_all add: project_def)
  have "0 \<le> scale" using f by simp
  have "MAP_PAD * scale \<le> x \<and> x \<le> box_w - MAP_PAD * scale"
    unfolding xy by (rule centred_fit) (use f vb in auto)
  moreover have "MAP_PAD * scale \<le> y \<and> y \<le> box_h - MAP_PAD * scale"
    unfolding xy by (rule centred_fit) (use f vb in auto)
  ultimately show ?thesis using assms(4) t f by simp
qed

lemma gather_seats: "zm_seats (gather performance s) = performance_seats performance s"
  "zm_view_box (gather performance s) = view_box (performance_seats performance s)"
  "zm_seat_radius (gather performance s) = SEAT_RADIUS"
  by (simp_all add: gather_def zone_map_geometry_def Let_def)

text \<open>The discs a rendering draws: their centres and radii.\<close>

definition disc_at :: "pdf_op \<Rightarrow> (real \<times> real \<times> real) list" where
  "disc_at op = (case op of DrawCircle x y r \<Rightarrow> [(x, y, r)] | _ \<Rightarrow> [])"

definition ellipse_at :: "png_op \<Rightarrow> (real \<times> real \<times> real) list" where
  "ellipse_at op =
     (case op of PngEllipse x0 y0 x1 y1 f ol \<Rightarrow> [((x0 + x1) / 2, (y0 + y1) / 2, (x1 - x0) / 2)] | _ \<Rightarrow> [])"

definition drawing_discs :: "zone_drawing \<Rightarrow> (real \<times> real \<times> real) list" where
  "drawing_discs sheet =
     (case sheet of PngSheet w h ops \<Rightarrow> concat (map ellipse_at ops) | PdfSheet ops \<Rightarrow> concat (map disc_at ops))"

lemma disc_at_simps [simp]: "disc_at (DrawCircle x y r) = [(x, y, r)]" "disc_at (SetFill c) = []" "disc_at (SetStroke c) = []"
  "disc_at (SetFont f z) = []" "disc_at (DrawString x y t) = []" "disc_at (DrawCentredString x y t) = []"
  "disc_at (DrawRect x y w h b) = []" "disc_at FillBlack = []"
  by (simp_all add: disc_at_def)

lemma ellipse_at_simps [simp]: "ellipse_at (PngEllipse x0 y0 x1 y1 f ol) = [((x0 + x1) / 2, (y0 + y1) / 2, (x1 - x0) / 2)]"
  "ellipse_at (PngText x y t z c) = []" "ellipse_at (PngOutline x y x' y' f) = []" "ellipse_at (PngRect x y x' y' f) = []"
  "ellipse_at (PngInk x y t z f) = []"
  by (simp_all add: ellipse_at_def)

lemma swatches_no_discs: "concat (map disc_at (fst (pdf_swatches x rows y))) = []"
  by (induction x rows y rule: pdf_swatches.induct) (simp_all add: pdf_swatch_def case_prod_unfold Let_def)

lemma legend_no_discs: "concat (map disc_at (draw_pdf_legend d x y)) = []"
  using swatches_no_discs by (auto simp: draw_pdf_legend_def Let_def case_prod_unfold)

lemma rows_no_discs: "concat (map ellipse_at (fst (png_rows x rows y))) = []"
  by (induction x rows y rule: png_rows.induct) (simp_all add: case_prod_unfold Let_def)

lemma png_legend_no_discs: "concat (map ellipse_at (draw_png_legend d x y)) = []"
  using rows_no_discs by (auto simp: draw_png_legend_def Let_def case_prod_unfold)

lemma map_concat_map: "concat (map f (concat (map g xs))) = concat (map (\<lambda>x. concat (map f (g x))) xs)"
  by (induction xs) simp_all

lemma pdf_seats_discs:
  "concat (map disc_at (pdf_seats labels d (x0, y0, w, h))) =
     map (\<lambda>seat. case project (seat_x seat) (seat_y seat) (fit_transform (zm_view_box d) w h) of
            (x, y) \<Rightarrow> (x0 + x, y0 + (h - y), max 1.2 (zm_seat_radius d * fst (fit_transform (zm_view_box d) w h)))) (zm_seats d)"
proof -
  have "concat (map disc_at (pdf_seat labels zones r x0 y0 h t seat)) =
      [case project (seat_x seat) (seat_y seat) t of (x, y) \<Rightarrow> (x0 + x, y0 + (h - y), r)]" for zones r t seat
    by (auto simp: pdf_seat_def Let_def split: prod.split)
  then show ?thesis by (simp add: pdf_seats_def Let_def map_concat_map)
qed

lemma png_seats_discs:
  "concat (map ellipse_at (png_seats bbox labels d (x0, y0, w, h))) =
     map (\<lambda>seat. case project (seat_x seat) (seat_y seat) (fit_transform (zm_view_box d) w h) of
            (x, y) \<Rightarrow> (x0 + x, y0 + y, max 2 (zm_seat_radius d * fst (fit_transform (zm_view_box d) w h)))) (zm_seats d)"
proof -
  have "concat (map ellipse_at (png_seat bbox labels zones r x0 y0 t seat)) =
      [case project (seat_x seat) (seat_y seat) t of (x, y) \<Rightarrow> (x0 + x, y0 + y, r)]" for zones r t seat
    by (simp add: png_seat_def Let_def split: prod.split)
  then show ?thesis by (simp add: png_seats_def Let_def map_concat_map)
qed

lemma pdf_discs:
  "concat (map disc_at (draw_pdf kit title subtitle d paper labels legend)) =
     concat (map disc_at (pdf_seats labels d (pdf_panel kit (pdf_page kit paper) (pdf_legend_width kit legend d))))"
  by (simp add: draw_pdf_def Let_def legend_no_discs split: prod.split) (simp add: pdf_seats_def split: prod.split)

lemma png_discs:
  assumes "render_png bbox title subtitle d paper labels legend = (pw, ph, ops)"
  shows "concat (map ellipse_at ops) =
     concat (map ellipse_at (png_seats bbox labels d (png_panel bbox title subtitle paper (png_legend_width legend d))))"
  using assms by (simp add: render_png_def Let_def split: prod.splits)
    (auto simp: png_legend_no_discs png_seats_def split: prod.splits)

text \<open>The panel the map of a format is drawn in.\<close>

definition map_panel ::
  "pdf_kit \<Rightarrow> (int \<Rightarrow> string \<Rightarrow> real \<times> real \<times> real \<times> real) \<Rightarrow> string \<Rightarrow> string \<Rightarrow> string \<Rightarrow> string \<Rightarrow> bool \<Rightarrow> zone_sheet \<Rightarrow>
   real \<times> real \<times> real \<times> real" where
  "map_panel kit bbox title subtitle fmt paper legend d =
     (if fmt = ''pdf'' then pdf_panel kit (pdf_page kit paper) (pdf_legend_width kit legend d)
      else png_panel bbox title subtitle paper (png_legend_width legend d))"

definition least_radius :: "string \<Rightarrow> real" where
  "least_radius fmt = (if fmt = ''pdf'' then 1.2 else 2)"

lemma map_discs:
  assumes "render_zone_map kit bbox title subtitle performance fmt paper labels legend s = Inr sheet"
    and "map_panel kit bbox title subtitle (lower fmt) (lower paper) legend (gather performance s) = (x0, y0, w, h)"
  shows "drawing_discs sheet =
     map (\<lambda>seat. case project (seat_x seat) (seat_y seat) (fit_transform (view_box (performance_seats performance s)) w h) of
            (x, y) \<Rightarrow> (x0 + x, y0 + (if lower fmt = ''pdf'' then h - y else y),
                        max (least_radius (lower fmt)) (SEAT_RADIUS * fst (fit_transform (view_box (performance_seats performance s)) w h))))
       (performance_seats performance s)"
proof (cases "lower fmt = ''pdf''")
  case True
  with assms(1) have "sheet = PdfSheet (draw_pdf kit title subtitle (gather performance s) (lower paper) labels legend)"
    by (auto simp: render_zone_map_def render_pdf_def Let_def split: if_splits sum.splits list.splits)
  with True assms(2) show ?thesis
    by (simp add: drawing_discs_def pdf_discs map_panel_def pdf_seats_discs gather_seats least_radius_def)
next
  case False
  with assms(1) obtain pw ph ops where "sheet = PngSheet pw ph ops"
    and "render_png bbox title subtitle (gather performance s) (lower paper) labels legend = (pw, ph, ops)"
    by (auto simp: render_zone_map_def Let_def split: if_splits prod.splits)
  with False assms(2) show ?thesis
    by (simp add: drawing_discs_def png_discs map_panel_def png_seats_discs gather_seats least_radius_def)
qed

text \<open>
  Property C25. In either format, on a page with room for a map, the drawing has exactly one disc per seat of
  the performance; its centre lies strictly inside the map panel (between the margins, clear of the heading
  and the legend), and so does the whole disc, unless it is drawn at the least radius of the format
  (1.2 points in the PDF, 2 pixels in the PNG) because the seats are too many for the panel.
\<close>

theorem zone_map_fits_the_page:
  assumes "render_zone_map kit bbox title subtitle performance fmt paper labels legend s = Inr sheet"
    and "map_panel kit bbox title subtitle (lower fmt) (lower paper) legend (gather performance s) = (x0, y0, w, h)"
    and "w > 0" "h > 0"
  shows "length (drawing_discs sheet) = length (performance_seats performance s) \<and>
    list_all (\<lambda>(x, y, r). x0 < x \<and> x < x0 + w \<and> y0 < y \<and> y < y0 + h \<and>
      ((if lower fmt = ''pdf'' then 1.2 else 2) < r \<longrightarrow> x0 < x - r \<and> x + r < x0 + w \<and> y0 < y - r \<and> y + r < y0 + h))
      (drawing_discs sheet)"
proof -
  let ?seats = "performance_seats performance s" and ?t = "fit_transform (view_box (performance_seats performance s)) w h"
  let ?least = "least_radius (lower fmt)"
  have "x0 < px \<and> px < x0 + w \<and> y0 < py \<and> py < y0 + h \<and>
      (?least < r \<longrightarrow> x0 < px - r \<and> px + r < x0 + w \<and> y0 < py - r \<and> py + r < y0 + h)"
    if "seat \<in> set ?seats" and xy: "project (seat_x seat) (seat_y seat) ?t = (x, y)"
      and px: "px = x0 + x" and py: "py = y0 + (if lower fmt = ''pdf'' then h - y else y)" and r: "r = max ?least (SEAT_RADIUS * fst ?t)"
    for seat x y px py r
  proof -
    note inside = projected_inside [OF that(1) assms(3,4) refl xy]
    have "?least < r \<Longrightarrow> r < MAP_PAD * fst ?t" using inside by (auto simp: r MAP_PAD_def SEAT_RADIUS_def max_def split: if_splits)
    moreover have "0 < MAP_PAD * fst ?t" using inside by (simp add: MAP_PAD_def SEAT_RADIUS_def)
    ultimately show ?thesis using inside by (auto simp: px py)
  qed
  then have inside: "case (case project (seat_x seat) (seat_y seat) ?t of
        (x, y) \<Rightarrow> (x0 + x, y0 + (if lower fmt = ''pdf'' then h - y else y), max ?least (SEAT_RADIUS * fst ?t))) of
      (x, y, r) \<Rightarrow> x0 < x \<and> x < x0 + w \<and> y0 < y \<and> y < y0 + h \<and>
        (?least < r \<longrightarrow> x0 < x - r \<and> x + r < x0 + w \<and> y0 < y - r \<and> y + r < y0 + h)" if "seat \<in> set ?seats" for seat
    using that by (cases "project (seat_x seat) (seat_y seat) ?t") simp
  then have "list_all (\<lambda>(x, y, r). x0 < x \<and> x < x0 + w \<and> y0 < y \<and> y < y0 + h \<and>
      (?least < r \<longrightarrow> x0 < x - r \<and> x + r < x0 + w \<and> y0 < y - r \<and> y + r < y0 + h)) (drawing_discs sheet)"
    by (simp only: map_discs [OF assms(1,2)] list_all_iff set_map ball_simps) (intro ballI, erule inside)
  then show ?thesis unfolding least_radius_def map_discs [OF assms(1,2)] by simp
qed

definition letter_kit :: pdf_kit where
  "letter_kit = \<lparr>kit_inch = 72, kit_letter = (612, 792), kit_legal = (612, 1008),
     kit_hex_color = (\<lambda>c. hd c = CHR ''#'' \<and> length c = 7)\<rparr>"

definition sample_bbox :: "int \<Rightarrow> string \<Rightarrow> real \<times> real \<times> real \<times> real" where
  "sample_bbox z line = (0, 0, real (length line) * real_of_int z, real_of_int z)"

lemma matinee_sheets:
  "map_panel letter_kit sample_bbox ''Hamlet'' ''Tonight'' ''pdf'' ''letter'' False (gather matinee demo) = (28.8, 28.8, 554.4, 690)"
  "map_panel letter_kit sample_bbox ''Hamlet'' ''Tonight'' ''png'' ''letter'' False (gather matinee demo) = (60, 130, 1155, 1460)"
  "\<exists>ops. render_zone_map letter_kit sample_bbox ''Hamlet'' ''Tonight'' matinee ''pdf'' ''letter'' False False demo = Inr (PdfSheet ops)"
  "\<exists>ops. render_zone_map letter_kit sample_bbox ''Hamlet'' ''Tonight'' matinee ''png'' ''letter'' False False demo = Inr (PngSheet 1275 1650 ops)"
proof -
  show "map_panel letter_kit sample_bbox ''Hamlet'' ''Tonight'' ''pdf'' ''letter'' False (gather matinee demo) = (28.8, 28.8, 554.4, 690)"
    by (simp add: map_panel_def pdf_panel_def pdf_page_def pdf_legend_width_def letter_kit_def Let_def)
  have page: "page_in ''letter'' = (8.5, 11)" by (simp add: page_in_def PAGE_SIZES_IN_def)
  have px: "py_round (17 * PNG_DPI / 2) = 1275" "py_round (11 * PNG_DPI) = 1650" "py_round (2 * PNG_DPI / 5) = 60"
    "py_round (PNG_DPI / 5) = 30" by (simp_all add: py_round_def PNG_DPI_def Let_def)
  then show "map_panel letter_kit sample_bbox ''Hamlet'' ''Tonight'' ''png'' ''letter'' False (gather matinee demo) = (60, 130, 1155, 1460)"
    by (simp add: map_panel_def png_panel_def png_legend_width_def page sample_bbox_def Let_def)
  have low: "lower ''pdf'' = ''pdf''" "lower ''png'' = ''png''" "lower ''letter'' = ''letter''" by code_simp+
  have zones: "zm_zone_by_seat (gather matinee demo) = Map.empty"
    by (simp add: gather_def zone_map_geometry_def Let_def zones_by_seat_id_def zones_of_def order_by_def demo_def)
  have "set (hex_colors (draw_pdf letter_kit ''Hamlet'' ''Tonight'' (gather matinee demo) ''letter'' False False)) \<subseteq>
      {TITLE_HEX, MUTED_HEX, NEUTRAL_SEAT_HEX, BORDER_HEX}"
    by (auto simp: draw_pdf_def Let_def hex_colors_def pdf_legend_width_def pdf_seats_def pdf_seat_def zones
        split: prod.splits if_splits)
  then have "filter (\<lambda>c. \<not> kit_hex_color letter_kit c)
      (hex_colors (draw_pdf letter_kit ''Hamlet'' ''Tonight'' (gather matinee demo) ''letter'' False False)) = []"
    by (auto simp: filter_empty_conv letter_kit_def TITLE_HEX_def MUTED_HEX_def NEUTRAL_SEAT_HEX_def BORDER_HEX_def)
  then show "\<exists>ops. render_zone_map letter_kit sample_bbox ''Hamlet'' ''Tonight'' matinee ''pdf'' ''letter'' False False demo = Inr (PdfSheet ops)"
    by (simp add: render_zone_map_def low render_pdf_def PAGE_SIZES_IN_def Let_def)
  show "\<exists>ops. render_zone_map letter_kit sample_bbox ''Hamlet'' ''Tonight'' matinee ''png'' ''letter'' False False demo = Inr (PngSheet 1275 1650 ops)"
    by (simp add: render_zone_map_def low render_png_def PAGE_SIZES_IN_def Let_def page px split: prod.split)
qed

theorem zone_map_fits_the_page_witness:
  "\<exists>pdf png. render_zone_map letter_kit sample_bbox ''Hamlet'' ''Tonight'' matinee ''pdf'' ''letter'' False False demo = Inr pdf \<and>
     render_zone_map letter_kit sample_bbox ''Hamlet'' ''Tonight'' matinee ''png'' ''letter'' False False demo = Inr png \<and>
     length (drawing_discs pdf) = 3 \<and> length (drawing_discs png) = 3 \<and>
     list_all (\<lambda>(x, y, r). 28.8 < x \<and> x < 583.2 \<and> 28.8 < y \<and> y < 718.8) (drawing_discs pdf) \<and>
     list_all (\<lambda>(x, y, r). 60 < x \<and> x < 1215 \<and> 130 < y \<and> y < 1590) (drawing_discs png)"
proof -
  obtain pdf png where r: "render_zone_map letter_kit sample_bbox ''Hamlet'' ''Tonight'' matinee ''pdf'' ''letter'' False False demo = Inr pdf"
    "render_zone_map letter_kit sample_bbox ''Hamlet'' ''Tonight'' matinee ''png'' ''letter'' False False demo = Inr png"
    using matinee_sheets(3,4) by blast
  have low: "lower ''pdf'' = ''pdf''" "lower ''png'' = ''png''" "lower ''letter'' = ''letter''" by code_simp+
  have "get_seating_chart matinee demo = Some house_chart"
    by (simp add: get_seating_chart_def get_row_def fixture_defs)
  then have "performance_seats matinee demo = [demo_seat 21 ''1'', demo_seat 22 ''2'', demo_seat 23 ''3'']"
    by (rule demo_performance_seats) (simp_all add: matinee_def)
  then have n: "length (performance_seats matinee demo) = 3" by simp
  have "length (drawing_discs pdf) = 3 \<and> list_all (\<lambda>(x, y, r). 28.8 < x \<and> x < 583.2 \<and> 28.8 < y \<and> y < 718.8) (drawing_discs pdf)"
    using zone_map_fits_the_page [OF r(1), unfolded low, OF matinee_sheets(1)] by (simp add: n) (auto simp: list_all_iff)
  moreover have "length (drawing_discs png) = 3 \<and> list_all (\<lambda>(x, y, r). 60 < x \<and> x < 1215 \<and> 130 < y \<and> y < 1590) (drawing_discs png)"
    using zone_map_fits_the_page [OF r(2), unfolded low, OF matinee_sheets(2)] by (simp add: n) (auto simp: list_all_iff)
  ultimately show ?thesis using r by (intro exI [of _ pdf] exI [of _ png]) blast
qed

text \<open>
  A zone in a colour that \<open>HexColor\<close> does not read: the PNG draws it in the neutral grey, the PDF is not
  drawn at all.
\<close>

lemma foreign_colour_stops_the_pdf:
  assumes "seat \<in> set (performance_seats performance s)" and "zones_by_seat_id performance s (seat_pk seat) = Some z"
    and "\<not> kit_hex_color kit (zone_color z)"
  shows "\<exists>c. render_zone_map kit bbox title subtitle performance ''pdf'' ''letter'' labels legend s = Inl (UnreadableColor c)"
    and "\<exists>sheet. render_zone_map kit bbox title subtitle performance ''png'' ''letter'' labels legend s = Inr sheet"
proof -
  let ?d = "gather performance s"
  have low: "lower ''pdf'' = ''pdf''" "lower ''png'' = ''png''" "lower ''letter'' = ''letter''" by code_simp+
  have z: "zm_zone_by_seat ?d (seat_pk seat) = Some z" using assms(2) by (simp add: gather_def zone_map_geometry_def Let_def)
  have "zone_color z \<in> set (hex_colors (pdf_seat labels (zm_zone_by_seat ?d) r x y h t seat))" for r x y h t
    by (cases "project (seat_x seat) (seat_y seat) t") (simp add: hex_colors_def pdf_seat_def Let_def z)
  moreover have "hex_colors (concat (map f seats)) = concat (map (\<lambda>x. hex_colors (f x)) seats)" for f :: "seat \<Rightarrow> pdf_op list" and seats
    by (simp add: hex_colors_def map_concat_map)
  ultimately have seats: "zone_color z \<in> set (hex_colors (pdf_seats labels ?d (x, y, w, h)))" for x y w h
    using assms(1) by (cases "fit_transform (view_box (performance_seats performance s)) w h")
      (auto simp: pdf_seats_def Let_def gather_seats intro!: bexI [of _ seat])
  have "performance_seats performance s \<noteq> []" using assms(1) by auto
  then have "set (pdf_seats labels ?d (pdf_panel kit (pdf_page kit ''letter'') (pdf_legend_width kit legend ?d)))
      \<subseteq> set (draw_pdf kit title subtitle ?d ''letter'' labels legend)"
    by (cases "pdf_panel kit (pdf_page kit ''letter'') (pdf_legend_width kit legend ?d)")
      (simp add: draw_pdf_def Let_def gather_seats del: set_append, auto)
  then have sub: "set (hex_colors (pdf_seats labels ?d (pdf_panel kit (pdf_page kit ''letter'') (pdf_legend_width kit legend ?d))))
      \<subseteq> set (hex_colors (draw_pdf kit title subtitle ?d ''letter'' labels legend))"
    unfolding hex_colors_def set_concat set_map by (intro UN_mono image_mono subset_refl)
  have "zone_color z \<in> set (hex_colors (pdf_seats labels ?d (pdf_panel kit (pdf_page kit ''letter'') (pdf_legend_width kit legend ?d))))"
    by (cases "pdf_panel kit (pdf_page kit ''letter'') (pdf_legend_width kit legend ?d)") (simp only: seats)
  from subsetD [OF sub this]
  have "filter (\<lambda>c. \<not> kit_hex_color kit c) (hex_colors (draw_pdf kit title subtitle ?d ''letter'' labels legend)) \<noteq> []"
    unfolding filter_empty_conv using assms(3) by blast
  then obtain c cs where "filter (\<lambda>c. \<not> kit_hex_color kit c) (hex_colors (draw_pdf kit title subtitle ?d ''letter'' labels legend)) = c # cs"
    by (meson neq_Nil_conv)
  then show "\<exists>c. render_zone_map kit bbox title subtitle performance ''pdf'' ''letter'' labels legend s = Inl (UnreadableColor c)"
    by (auto simp: render_zone_map_def low render_pdf_def PAGE_SIZES_IN_def Let_def)
  show "\<exists>sheet. render_zone_map kit bbox title subtitle performance ''png'' ''letter'' labels legend s = Inr sheet"
    by (simp add: render_zone_map_def low PAGE_SIZES_IN_def Let_def split: prod.split)
qed

section \<open>The legend is complete\<close>

lemma sum_list_order_by: "sum_list (map f (order_by k xs)) = (sum_list (map f xs) :: nat)"
proof -
  have "mset (map f (order_by k xs)) = mset (map f xs)" by (simp add: order_by_def)
  then show ?thesis by (metis sum_mset_sum_list)
qed

lemma count_seat_sum: "sum_list (map (zs_seat_count \<circ> snd) (count_seat z rows)) = Suc (sum_list (map (zs_seat_count \<circ> snd) rows))"
  by (induction z rows rule: count_seat.induct) simp_all

lemma summaries_sum:
  "sum_list (map (zs_seat_count \<circ> snd)
      (fold (\<lambda>seat rows. case zones (seat_pk seat) of None \<Rightarrow> rows | Some z \<Rightarrow> count_seat z rows) seats rows)) =
   length (filter (\<lambda>seat. zones (seat_pk seat) \<noteq> None) seats) + sum_list (map (zs_seat_count \<circ> snd) rows)"
  by (induction seats arbitrary: rows) (simp_all add: count_seat_sum split: option.split)

definition listed_section :: "(nat \<rightharpoonup> price_tier) \<Rightarrow> section_row \<Rightarrow> section_price" where
  "listed_section tiers sec = \<lparr>sp_name = section_name sec, sp_amount = map_option tier_amount (tiers (section_pk sec))\<rparr>"

text \<open>A section once seen has been listed, with its name and price.\<close>

definition seen_listed :: "(nat \<rightharpoonup> price_tier) \<Rightarrow> db \<Rightarrow> nat set \<times> section_price list \<Rightarrow> bool" where
  "seen_listed tiers s acc \<longleftrightarrow>
     (\<forall>sec. section_pk sec \<in> fst acc \<longrightarrow> get_row section_pk (section_pk sec) (db_sections s) = Some sec \<longrightarrow>
        listed_section tiers sec \<in> set (snd acc))"

lemma section_of_row: "section_of seat s = Some sec \<Longrightarrow> get_row section_pk (section_pk sec) (db_sections s) = Some sec"
  by (simp add: section_of_def) (metis get_row_Some)

lemma unzoned_step_listed: "seen_listed tiers s acc \<Longrightarrow> seen_listed tiers s (unzoned_step zones tiers s seat acc)"
  by (cases acc) (auto simp: seen_listed_def unzoned_step_def listed_section_def dest!: section_of_row split: option.split)

lemma unzoned_step_seen:
  "fst acc \<subseteq> fst (unzoned_step zones tiers s seat acc) \<and>
   (zones (seat_pk seat) = None \<longrightarrow> section_of seat s = Some sec \<longrightarrow> section_pk sec \<in> fst (unzoned_step zones tiers s seat acc))"
  by (cases acc) (auto simp: unzoned_step_def split: option.split)

lemma unzoned_fold_listed: "seen_listed tiers s acc \<Longrightarrow> seen_listed tiers s (fold (unzoned_step zones tiers s) seats acc)"
  by (induction seats arbitrary: acc) (simp_all add: unzoned_step_listed)

lemma unzoned_fold_grows: "fst acc \<subseteq> fst (fold (unzoned_step zones tiers s) seats acc)"
proof (induction seats arbitrary: acc)
  case (Cons seat seats)
  show ?case using subset_trans [OF conjunct1 [OF unzoned_step_seen] Cons.IH] by simp
qed simp

lemma unzoned_fold_seen:
  assumes "seat \<in> set seats" "zones (seat_pk seat) = None" "section_of seat s = Some sec"
  shows "section_pk sec \<in> fst (fold (unzoned_step zones tiers s) seats acc)"
  using assms(1)
proof (induction seats arbitrary: acc)
  case (Cons x seats)
  show ?case
  proof (cases "x = seat")
    case True
    have "section_pk sec \<in> fst (unzoned_step zones tiers s seat acc)" using unzoned_step_seen assms(2,3) by blast
    then show ?thesis using subsetD [OF unzoned_fold_grows] True by simp
  next
    case False
    with Cons.prems have "seat \<in> set seats" by simp
    from Cons.IH [OF this] show ?thesis by simp
  qed
qed simp

text \<open>
  The sheet's legend accounts for every seat: the seat counts of the zone rows add up to the
  number of zoned seats, and every section with an unzoned seat has its row, at the section's own price.
\<close>

theorem zone_legend_is_complete:
  "sum_list (map zs_seat_count (zm_zone_rows (gather performance s))) =
     length (filter (\<lambda>seat. zones_by_seat_id performance s (seat_pk seat) \<noteq> None) (performance_seats performance s)) \<and>
   (\<forall>seat\<in>set (performance_seats performance s). \<forall>sec.
      zones_by_seat_id performance s (seat_pk seat) = None \<longrightarrow> section_of seat s = Some sec \<longrightarrow>
      listed_section (price_tiers_by_section performance s) sec \<in> set (zm_unzoned_section_rows (gather performance s)))"
proof -
  let ?zones = "zones_by_seat_id performance s" and ?tiers = "price_tiers_by_section performance s"
  let ?seats = "performance_seats performance s"
  have "sum_list (map zs_seat_count (zm_zone_rows (gather performance s))) = length (filter (\<lambda>seat. ?zones (seat_pk seat) \<noteq> None) ?seats)"
    using summaries_sum [of ?zones ?seats "[]"]
    by (simp add: gather_def zone_map_geometry_def Let_def sum_list_order_by zone_summaries_def)
  moreover have "listed_section ?tiers sec \<in> set (zm_unzoned_section_rows (gather performance s))"
    if "seat \<in> set ?seats" "?zones (seat_pk seat) = None" "section_of seat s = Some sec" for seat sec
  proof -
    have "seen_listed ?tiers s ({}, [])" by (simp add: seen_listed_def)
    moreover have "section_pk sec \<in> fst (fold (unzoned_step ?zones ?tiers s) ?seats ({}, []))"
      by (rule unzoned_fold_seen) (use that in simp_all)
    ultimately show ?thesis
      using unzoned_fold_listed [of ?tiers s "({}, [])" ?zones ?seats] section_of_row [OF that(3)]
      by (simp add: seen_listed_def gather_def zone_map_geometry_def Let_def order_by_def)
  qed
  ultimately show ?thesis by blast
qed

theorem zone_legend_is_complete_witness:
  "sum_list (map zs_seat_count (zm_zone_rows (gather matinee painted))) = 2 \<and>
   \<lparr>sp_name = ''Stalls'', sp_amount = Some 4000\<rparr> \<in> set (zm_unzoned_section_rows (gather matinee painted))"
proof -
  have chart: "get_seating_chart matinee painted = Some house_chart"
    by (simp add: get_seating_chart_def get_row_def fixture_defs painted_def)
  then have seats: "performance_seats matinee painted = [demo_seat 21 ''1'', demo_seat 22 ''2'', demo_seat 23 ''3'']"
    by (rule demo_performance_seats) (simp_all add: matinee_def painted_def)
  have zones: "zones_by_seat_id matinee painted = [21 \<mapsto> gold_zone 100 7500, 22 \<mapsto> gold_zone 100 7500]"
    by (simp add: zones_by_seat_id_def zones_of_def order_by_def painted_def zone_seat_ids_def gold_seat_def gold_zone_def
        matinee_def demo_def fun_eq_iff)
  have "resolve_seat_tier matinee 11 painted = Inr stalls_tier"
    by (simp add: resolve_seat_tier_def order_by_def painted_def fixture_defs)
  moreover have "filter (\<lambda>sec. section_organization sec = perf_organization matinee \<and> section_chart sec = chart_pk house_chart)
      (db_sections painted) = [stalls]" "section_pk stalls = 11"
    by (simp_all add: painted_def fixture_defs)
  ultimately have tiers: "price_tiers_by_section matinee painted = [11 \<mapsto> stalls_tier]"
    by (simp add: price_tiers_by_section_def chart)
  have sec: "section_of (demo_seat 23 ''3'') painted = Some stalls"
    by (simp add: section_of_def get_row_def painted_def fixture_defs)
  have pk: "seat_pk (demo_seat k n) = k" for k n by (simp add: demo_seat_def)
  have "listed_section [11 \<mapsto> stalls_tier] stalls = \<lparr>sp_name = ''Stalls'', sp_amount = Some 4000\<rparr>"
    by (simp add: listed_section_def stalls_def stalls_tier_def)
  then show ?thesis
    using zone_legend_is_complete [of matinee painted] sec by (simp add: seats zones tiers pk)
qed

end
