(* ===== verification/ZoneEditor.thy ===== *)
theory ZoneEditor
  imports ZoneMap PriceGrid Json
begin

text \<open>
  The pricing-zone editor's endpoints (dashboard/views.py: \<open>_clean_seat_ids\<close>, \<open>_zones_payload\<close>,
  \<open>performance_zone_apply\<close>, \<open>_remove_seats\<close>, \<open>_delete\<close>, \<open>_clone\<close>), after the manager gate. The body
  is decoded JSON; \<open>repr\<close> is \<open>str\<close> on a float, a list or a dictionary (theory Json).
\<close>

section \<open>Answers\<close>

record zone_row =
  zr_id :: nat
  zr_name :: string
  zr_color :: string
  zr_amount :: string
  zr_template_id :: "nat option"
  zr_seat_ids :: "nat list"

datatype zone_refusal =
    NotReserved | InvalidJson | NoValidSeats | InvalidPrice | NegativeAmount | NameAndColorNeeded | ZoneRefused

datatype zone_response =
    ZoneNotFound
  | ZoneBadRequest zone_refusal
  | ZoneCrash error
  | ZoneConversionCrash conversion_error
  | ZonesSaved "zone_row list"

text \<open>Seats in the model's order within a chart: section order and name, then row and number.\<close>

definition chart_seat_key :: "db \<Rightarrow> seat \<Rightarrow> (int \<times> string) \<times> string \<times> string" where
  "chart_seat_key s seat =
     ((case section_of seat s of None \<Rightarrow> (0, '''') | Some sec \<Rightarrow> (section_ordering sec, section_name sec)),
      seat_row_label seat, seat_number seat)"

definition zones_payload :: "performance \<Rightarrow> db \<Rightarrow> zone_row list" where
  "zones_payload performance s =
     map (\<lambda>z. \<lparr>zr_id = zone_pk z, zr_name = zone_name z, zr_color = zone_color z, zr_amount = show_cents (zone_amount z),
               zr_template_id = zone_template z,
               zr_seat_ids = map seat_pk (order_by (chart_seat_key s)
                 (filter (\<lambda>seat. seat_pk seat \<in> set (zone_seat_ids z s)) (db_seats s)))\<rparr>)
       (zones_of performance s)"

section \<open>Reading the body\<close>

fun json_ints :: "json list \<Rightarrow> conversion_error + int list" where
  "json_ints [] = Inr []"
| "json_ints (v # vs) = bindE (json_int v) (\<lambda>n. bindE (json_ints vs) (\<lambda>ns. Inr (n # ns)))"

definition clean_seat_ids :: "nat \<Rightarrow> performance \<Rightarrow> json \<Rightarrow> db \<Rightarrow> conversion_error + nat list" where
  "clean_seat_ids organization performance raw s =
     (case raw of
        JList items \<Rightarrow>
          (case json_ints items of
             Inl e \<Rightarrow> if e = TypeErr \<or> e = ValueErr then Inr [] else Inl e
           | Inr ns \<Rightarrow>
               (case get_seating_chart performance s of
                  None \<Rightarrow> Inr []
                | Some chart \<Rightarrow>
                    Inr (map seat_pk (order_by (chart_seat_key s)
                      (filter (\<lambda>seat. int (seat_pk seat) \<in> set ns \<and> seat_organization seat = organization \<and>
                                      in_chart chart s seat) (db_seats s))))))
      | _ \<Rightarrow> Inr [])"

text \<open>A \<open>pk=\<close> lookup with a JSON value: null finds nothing, another value goes through \<open>int\<close>.\<close>

definition pk_arg :: "json \<Rightarrow> conversion_error + int option" where
  "pk_arg v = (if v = JNull then Inr None else bindE (json_int v) (\<lambda>n. Inr (Some n)))"

definition org_performance :: "nat \<Rightarrow> nat \<Rightarrow> db \<Rightarrow> performance option" where
  "org_performance organization k s =
     first_row (filter (\<lambda>p. perf_pk p = k \<and> perf_organization p = organization) (db_performances s))"

definition json_body :: "json option \<Rightarrow> (string \<times> json) list option" where
  "json_body body = (case body of Some (JDict d) \<Rightarrow> Some d | _ \<Rightarrow> None)"

text \<open>\<open>(payload.get(k) or "").strip()\<close>: a truthy value that is not a string has no \<open>strip\<close>.\<close>

definition stripped_text :: "json \<Rightarrow> conversion_error + string" where
  "stripped_text v =
     (if \<not> truthy v then Inr [] else case v of JStr t \<Rightarrow> Inr (strip t) | _ \<Rightarrow> Inl AttributeErr)"

section \<open>Painting\<close>

datatype template_choice = TemplateMissing | TemplateRefused | TemplateCrash conversion_error | TemplateChosen zone_template db

definition choose_template :: "nat \<Rightarrow> (string \<times> json) list \<Rightarrow> db \<Rightarrow> template_choice" where
  "choose_template organization d s =
     (if truthy (dict_get ''template_id'' d)
      then case pk_arg (dict_get ''template_id'' d) of
             Inl e \<Rightarrow> TemplateCrash e
           | Inr k \<Rightarrow>
               (case first_row (filter (\<lambda>t. k = Some (int (ztpl_pk t)) \<and> ztpl_organization t = organization) (db_templates s)) of
                  None \<Rightarrow> TemplateMissing
                | Some t \<Rightarrow> TemplateChosen t s)
      else case bindE (stripped_text (dict_get ''name'' d)) (\<lambda>n. bindE (stripped_text (dict_get ''color'' d)) (\<lambda>c. Inr (n, c))) of
             Inl e \<Rightarrow> TemplateCrash e
           | Inr (name, color) \<Rightarrow>
               (if name = [] \<or> color = [] then TemplateRefused
                else let (t, s') = get_or_create_template organization name color s in TemplateChosen t s'))"

text \<open>\<open>Decimal(str(payload.get("amount", "")).strip())\<close>, and the sign test that raises on a NaN.\<close>

datatype amount_arg = AmountInvalid | AmountNegative | AmountRaises | AmountGiven "cents option"

definition zone_amount_arg :: "(json \<Rightarrow> string) \<Rightarrow> (string \<times> json) list \<Rightarrow> amount_arg" where
  "zone_amount_arg repr d =
     (case parse_decimal (strip (case map_of d ''amount'' of None \<Rightarrow> '''' | Some v \<Rightarrow> json_str repr v)) of
        None \<Rightarrow> AmountInvalid
      | Some NaN \<Rightarrow> AmountRaises
      | Some SNaN \<Rightarrow> AmountRaises
      | Some (Infinity neg) \<Rightarrow> (if neg then AmountNegative else AmountGiven None)
      | Some (Fin c e) \<Rightarrow>
          (if c < 0 then AmountNegative
           else AmountGiven (case quantize_cents (Fin c e) of
                  Some (Cents a) \<Rightarrow> (if fits_column a then Some a else None) | _ \<Rightarrow> None)))"

text \<open>
  An amount the column cannot hold (\<open>None\<close>) raises \<open>InvalidOperation\<close> when the zone is written, after
  the lookups that may raise before; the template chosen or created first stays.
\<close>

definition performance_zone_apply ::
  "(json \<Rightarrow> string) \<Rightarrow> nat \<Rightarrow> nat \<Rightarrow> json option \<Rightarrow> db \<Rightarrow> zone_response \<times> db" where
  "performance_zone_apply repr organization k body s =
     (case org_performance organization k s of
        None \<Rightarrow> (ZoneNotFound, s)
      | Some performance \<Rightarrow>
          if perf_seating_mode performance \<noteq> RESERVED then (ZoneBadRequest NotReserved, s)
          else case json_body body of
            None \<Rightarrow> (ZoneBadRequest InvalidJson, s)
          | Some d \<Rightarrow>
              (case clean_seat_ids organization performance (dict_get ''seat_ids'' d) s of
                 Inl e \<Rightarrow> (ZoneConversionCrash e, s)
               | Inr [] \<Rightarrow> (ZoneBadRequest NoValidSeats, s)
               | Inr seat_ids \<Rightarrow>
                   (case zone_amount_arg repr d of
                      AmountInvalid \<Rightarrow> (ZoneBadRequest InvalidPrice, s)
                    | AmountRaises \<Rightarrow> (ZoneCrash (PyErr InvalidOperation), s)
                    | AmountNegative \<Rightarrow> (ZoneBadRequest NegativeAmount, s)
                    | AmountGiven amount \<Rightarrow>
                        (case choose_template organization d s of
                           TemplateMissing \<Rightarrow> (ZoneNotFound, s)
                         | TemplateRefused \<Rightarrow> (ZoneBadRequest NameAndColorNeeded, s)
                         | TemplateCrash e \<Rightarrow> (ZoneConversionCrash e, s)
                         | TemplateChosen template s1 \<Rightarrow>
                             (case apply_zone organization performance seat_ids (case amount of None \<Rightarrow> 0 | Some a \<Rightarrow> a) template s1 of
                                Inl ZoneErr \<Rightarrow> (ZoneBadRequest ZoneRefused, s1)
                              | Inl e \<Rightarrow> (ZoneCrash e, s1)
                              | Inr (_, s2) \<Rightarrow>
                                  (if amount = None then (ZoneCrash (PyErr InvalidOperation), s1)
                                   else (ZonesSaved (zones_payload performance s2), s2)))))))"

section \<open>Removing, deleting, cloning\<close>

definition org_zone :: "nat \<Rightarrow> performance \<Rightarrow> int option \<Rightarrow> db \<Rightarrow> pricing_zone option" where
  "org_zone organization performance k s =
     first_row (filter (\<lambda>z. k = Some (int (zone_pk z)) \<and> zone_organization z = organization \<and>
                            zone_performance z = perf_pk performance) (db_zones s))"

definition performance_zone_remove_seats ::
  "nat \<Rightarrow> nat \<Rightarrow> json option \<Rightarrow> db \<Rightarrow> zone_response \<times> db" where
  "performance_zone_remove_seats organization k body s =
     (case org_performance organization k s of
        None \<Rightarrow> (ZoneNotFound, s)
      | Some performance \<Rightarrow>
          (case json_body body of
             None \<Rightarrow> (ZoneBadRequest InvalidJson, s)
           | Some d \<Rightarrow>
               (case pk_arg (dict_get ''zone_id'' d) of
                  Inl e \<Rightarrow> (ZoneConversionCrash e, s)
                | Inr zk \<Rightarrow>
                    (case org_zone organization performance zk s of
                       None \<Rightarrow> (ZoneNotFound, s)
                     | Some zone \<Rightarrow>
                         (case clean_seat_ids organization performance (dict_get ''seat_ids'' d) s of
                            Inl e \<Rightarrow> (ZoneConversionCrash e, s)
                          | Inr [] \<Rightarrow> (ZoneBadRequest NoValidSeats, s)
                          | Inr seat_ids \<Rightarrow>
                              (let s' = remove_seats_from_zone organization zone seat_ids s
                               in (ZonesSaved (zones_payload performance s'), s')))))))"

definition performance_zone_delete :: "nat \<Rightarrow> nat \<Rightarrow> nat \<Rightarrow> db \<Rightarrow> zone_response \<times> db" where
  "performance_zone_delete organization k zone_key s =
     (case org_performance organization k s of
        None \<Rightarrow> (ZoneNotFound, s)
      | Some performance \<Rightarrow>
          (case org_zone organization performance (Some (int zone_key)) s of
             None \<Rightarrow> (ZoneNotFound, s)
           | Some zone \<Rightarrow> (let s' = delete_zone zone s in (ZonesSaved (zones_payload performance s'), s'))))"

definition performance_zone_clone :: "nat \<Rightarrow> nat \<Rightarrow> json option \<Rightarrow> db \<Rightarrow> zone_response \<times> db" where
  "performance_zone_clone organization k body s =
     (case org_performance organization k s of
        None \<Rightarrow> (ZoneNotFound, s)
      | Some performance \<Rightarrow>
          if perf_seating_mode performance \<noteq> RESERVED then (ZoneBadRequest NotReserved, s)
          else case json_body body of
            None \<Rightarrow> (ZoneBadRequest InvalidJson, s)
          | Some d \<Rightarrow>
              (case pk_arg (dict_get ''source_performance_id'' d) of
                 Inl e \<Rightarrow> (ZoneConversionCrash e, s)
               | Inr sk \<Rightarrow>
                   (case first_row (filter (\<lambda>p. sk = Some (int (perf_pk p)) \<and> perf_organization p = organization) (db_performances s)) of
                      None \<Rightarrow> (ZoneNotFound, s)
                    | Some source \<Rightarrow>
                        (case clone_zones_from_performance organization performance source s of
                           Inl e \<Rightarrow> (ZoneCrash e, s)
                         | Inr (_, s') \<Rightarrow> (ZonesSaved (zones_payload performance s'), s')))))"

section \<open>One zone per seat, through the editor\<close>

datatype zone_request =
    ApplyZone nat "json option"
  | RemoveZoneSeats nat "json option"
  | DeleteZone nat nat
  | CloneZones nat "json option"

definition zone_dispatch :: "(json \<Rightarrow> string) \<Rightarrow> nat \<Rightarrow> zone_request \<Rightarrow> db \<Rightarrow> zone_response \<times> db" where
  "zone_dispatch repr organization rq s =
     (case rq of
        ApplyZone k body \<Rightarrow> performance_zone_apply repr organization k body s
      | RemoveZoneSeats k body \<Rightarrow> performance_zone_remove_seats organization k body s
      | DeleteZone k z \<Rightarrow> performance_zone_delete organization k z s
      | CloneZones k body \<Rightarrow> performance_zone_clone organization k body s)"

definition zones_ok :: "db \<Rightarrow> bool" where
  "zones_ok s \<longleftrightarrow> zones_wf s \<and> one_zone_per_seat s"

lemma zones_ok_cong:
  "db_zones t = db_zones s \<Longrightarrow> db_zone_seats t = db_zone_seats s \<Longrightarrow> db_next s \<le> db_next t \<Longrightarrow> zones_ok s \<Longrightarrow> zones_ok t"
  by (auto simp: zones_ok_def zones_wf_def one_zone_per_seat_def zone_seat_ids_def
      intro: zone_rows.keyed_mono zone_seat_rows.keyed_mono)

lemma apply_zone_ok: "apply_zone org perf ks a tpl s = Inr (z, s') \<Longrightarrow> zones_ok s \<Longrightarrow> zones_ok s'"
proof -
  assume a: "apply_zone org perf ks a tpl s = Inr (z, s')" and "zones_ok s"
  then have w: "zones_wf s" "one_zone_per_seat s" by (simp_all add: zones_ok_def)
  from apply_zone_effect [OF a w(1)] apply_zone_one_zone [OF a w] show ?thesis by (simp add: zones_ok_def)
qed

lemma fewer_zones_ok:
  assumes "zones_ok s" "set (db_zones t) \<subseteq> set (db_zones s)" "well_keyed zone_pk (db_next t) (db_zones t)"
    and "well_keyed pzs_pk (db_next t) (db_zone_seats t)" "set (db_zone_seats t) \<subseteq> set (db_zone_seats s)" "db_next t = db_next s"
  shows "zones_ok t"
proof -
  have at: "seats_at k t \<subseteq> seats_at k s" for k using assms(5) by (auto simp: seats_at_def)
  have wk: "well_keyed zone_pk (db_next s) (db_zones s)" using assms(1) by (simp add: zones_ok_def zones_wf_def)
  have "one_zone_per_seat s" using assms(1) by (simp add: zones_ok_def)
  then have "one_zone_per_seat t"
    unfolding one_zone_iff [OF wk] one_zone_iff [OF assms(3)] using at assms(2) by blast
  moreover have "zones_wf t"
    using assms by (auto simp: zones_ok_def zones_wf_def)
  ultimately show ?thesis by (simp add: zones_ok_def)
qed

lemma remove_seats_ok: "zones_ok s \<Longrightarrow> zones_ok (remove_seats_from_zone org z ks s)"
  by (rule fewer_zones_ok [of s])
    (auto simp: remove_seats_from_zone_def zones_ok_def zones_wf_def intro: zone_seat_rows.delete_keyed)

lemma delete_zone_ok: "zones_ok s \<Longrightarrow> zones_ok (delete_zone z s)"
  by (rule fewer_zones_ok [of s])
    (auto simp: delete_zone_def zones_ok_def zones_wf_def intro: zone_seat_rows.delete_keyed zone_rows.delete_keyed)

lemma create_zone_effect:
  assumes "create_zone z s = (z', s1)" "zones_wf s"
  shows "zones_wf s1 \<and> db_zones s1 = db_zones s @ [z'] \<and> db_next s1 = Suc (db_next s) \<and> zone_pk z' = db_next s \<and>
     zone_performance z' = zone_performance z \<and> (\<forall>k. seats_at k s1 = seats_at k s) \<and> seats_at (db_next s) s = {}"
proof -
  have s1: "s1 = s\<lparr>db_zones := db_zones s @ [z\<lparr>zone_pk := db_next s\<rparr>], db_next := Suc (db_next s)\<rparr>" "z' = z\<lparr>zone_pk := db_next s\<rparr>"
    using assms(1) by (auto simp: create_zone_def Let_def)
  have "zones_wf s1" using assms(2) zone_rows.insert_keyed [of "db_next s" "db_zones s" z]
      zone_seat_rows.keyed_mono [of "db_next s" "db_zone_seats s" "Suc (db_next s)"]
    by (auto simp: s1 zones_wf_def less_Suc_eq)
  moreover have "seats_at (db_next s) s = {}" using assms(2) by (auto simp: zones_wf_def seats_at_def)
  ultimately show ?thesis by (simp add: s1 seats_at_def)
qed

text \<open>Cloning appends one zone per source zone, each with the source's seats on the target's chart.\<close>

lemma clone_zones_effect:
  assumes "clone_zones org target ts sources s = Inr (zs, s')" "zones_wf s"
  shows "zones_wf s' \<and> db_zones s' = db_zones s @ zs \<and> db_next s \<le> db_next s' \<and>
     (\<forall>z\<in>set zs. zone_performance z = perf_pk target \<and> db_next s \<le> zone_pk z) \<and>
     (\<forall>k<db_next s. seats_at k s' = seats_at k s) \<and>
     list_all2 (\<lambda>z p. seats_at (zone_pk z) s' = set (snd p) \<inter> ts) zs sources"
  using assms
proof (induction sources arbitrary: s zs)
  case (Cons p sources)
  obtain z seats where p: "p = (z, seats)" by (cases p)
  obtain z' s1 where c: "create_zone (z\<lparr>zone_organization := org, zone_performance := perf_pk target\<rparr>) s = (z', s1)"
    by (cases "create_zone (z\<lparr>zone_organization := org, zone_performance := perf_pk target\<rparr>) s")
  with Cons.prems(1) obtain s2 zs' where k: "create_zone_seats org (zone_pk z') (filter (\<lambda>k. k \<in> ts) seats) s1 = Inr s2"
    and r: "clone_zones org target ts sources s2 = Inr (zs', s')" and zs: "zs = z' # zs'"
    by (auto simp: p)
  note e1 = create_zone_effect [OF c Cons.prems(2)]
  note e2 = create_zone_seats_effect [OF k]
  have n2: "db_next s < db_next s2" using e1 e2 by simp
  have "zones_wf s2" using e1 e2 by simp
  note IH = Cons.IH [OF r this]
  have "seats_at (zone_pk z') s' = set seats \<inter> ts"
    using IH e1 e2 n2 by auto
  moreover have "\<forall>k<db_next s. seats_at k s' = seats_at k s"
    using IH e1 e2 n2 by auto
  ultimately show ?case using IH e1 e2 n2 by (auto simp: zs p)
qed auto

lemma clone_ok:
  assumes "clone_zones_from_performance org target source s = Inr (zs, s')" "zones_ok s"
    and "\<forall>z\<in>set (db_zones s). zone_performance z \<noteq> perf_pk target"
  shows "zones_ok s'"
proof -
  let ?src = "order_by zone_name (filter (\<lambda>z. zone_organization z = org \<and> zone_performance z = perf_pk source) (db_zones s))"
  have wf: "zones_wf s" and one: "one_zone_per_seat s" using assms(2) by (simp_all add: zones_ok_def)
  have wk: "well_keyed zone_pk (db_next s) (db_zones s)" using wf by (simp add: zones_wf_def)
  note inv = one [unfolded one_zone_iff [OF wk], rule_format]
  note e = clone_zones_effect [OF assms(1) [unfolded clone_zones_from_performance_def] wf]
  have "zones_wf s'" using e by simp
  then have wk': "well_keyed zone_pk (db_next s') (db_zones s')" by (simp only: zones_wf_def)
  have src: "distinct (map zone_pk ?src)" "set ?src \<subseteq> set (db_zones s)" "\<forall>z\<in>set ?src. zone_performance z = perf_pk source"
    using zone_rows.keyed_distinct [OF wk] by (auto simp: order_by_def distinct_map intro: inj_on_subset)
  have pairs: "list_all2 (\<lambda>z w. seats_at (zone_pk z) s' \<subseteq> seats_at (zone_pk w) s) zs ?src"
  proof (rule list_all2_mono)
    show "list_all2 (\<lambda>z w. seats_at (zone_pk z) s' = set (zone_seat_ids w s) \<inter> set (map seat_pk (performance_seats target s))) zs ?src"
      using e by (simp add: list_all2_map2)
  qed (simp add: set_zone_seat_ids)
  have new: "seats_at (zone_pk a) s' \<inter> seats_at (zone_pk b) s' = {}" if "a \<in> set zs" "b \<in> set zs" "zone_pk a \<noteq> zone_pk b" for a b
  proof -
    from that(1,2) obtain i j where ij0: "i < length zs" "zs ! i = a" "j < length zs" "zs ! j = b"
      by (auto simp: in_set_conv_nth)
    with that(3) have ij: "i < length zs" "zs ! i = a" "j < length zs" "zs ! j = b" "i \<noteq> j" by auto
    have l: "length zs = length ?src" using pairs by (rule list_all2_lengthD)
    have "zone_pk (?src ! i) \<noteq> zone_pk (?src ! j)"
    proof -
      have "map zone_pk ?src ! i \<noteq> map zone_pk ?src ! j"
        using nth_eq_iff_index_eq [OF src(1), of i j] ij l by simp
      then show ?thesis using ij l by simp
    qed
    moreover have i: "?src ! i \<in> set ?src" using ij(1) l by (intro nth_mem) (simp only:)
    moreover have j: "?src ! j \<in> set ?src" using ij(3) l by (intro nth_mem) (simp only:)
    moreover have "zone_performance (?src ! i) = zone_performance (?src ! j)"
      using bspec [OF src(3) i] bspec [OF src(3) j] by (rule trans [OF _ sym])
    ultimately have disj: "seats_at (zone_pk (?src ! i)) s \<inter> seats_at (zone_pk (?src ! j)) s = {}"
      using src(2) by (intro inv) (auto simp only: subset_iff)
    have "seats_at (zone_pk a) s' \<subseteq> seats_at (zone_pk (?src ! i)) s"
      using list_all2_nthD [OF pairs ij(1)] by (simp only: ij(2))
    moreover have "seats_at (zone_pk b) s' \<subseteq> seats_at (zone_pk (?src ! j)) s"
      using list_all2_nthD [OF pairs ij(3)] by (simp only: ij(4))
    ultimately show ?thesis using disj by fast
  qed
  have old: "seats_at (zone_pk a) s' = seats_at (zone_pk a) s" if "a \<in> set (db_zones s)" for a
    using e that wk by (auto simp: well_keyed_def)
  have "one_zone_per_seat s'"
    unfolding one_zone_iff [OF wk']
  proof (intro ballI impI)
    fix a b assume ab: "a \<in> set (db_zones s')" "b \<in> set (db_zones s')" "zone_performance a = zone_performance b" "zone_pk a \<noteq> zone_pk b"
    have part: "c \<in> set (db_zones s) \<and> zone_performance c \<noteq> perf_pk target \<or> c \<in> set zs \<and> zone_performance c = perf_pk target"
      if "c \<in> set (db_zones s')" for c using e that assms(3) by auto
    from part [OF ab(1)] part [OF ab(2)] ab(3) consider
      "a \<in> set (db_zones s)" "b \<in> set (db_zones s)" | "a \<in> set zs" "b \<in> set zs" by auto
    then show "seats_at (zone_pk a) s' \<inter> seats_at (zone_pk b) s' = {}"
    proof cases
      case 1
      with old inv [OF 1 ab(3,4)] show ?thesis by simp
    next
      case 2
      with new ab(4) show ?thesis by blast
    qed
  qed
  with e show ?thesis by (simp add: zones_ok_def)
qed

lemma template_ok: "choose_template org d s = TemplateChosen t s1 \<Longrightarrow> zones_ok s \<Longrightarrow> zones_ok s1"
  by (rule zones_ok_cong [of s1 s])
    (auto simp: choose_template_def get_or_create_template_def Let_def split: if_splits sum.splits option.splits prod.splits)

lemma apply_request_ok: "zones_ok s \<Longrightarrow> zones_ok (snd (performance_zone_apply repr org k body s))"
  by (auto simp: performance_zone_apply_def split: option.splits sum.splits list.splits amount_arg.splits template_choice.splits
      error.splits if_splits dest: template_ok apply_zone_ok)

lemma remove_request_ok: "zones_ok s \<Longrightarrow> zones_ok (snd (performance_zone_remove_seats org k body s))"
  by (simp add: performance_zone_remove_seats_def Let_def remove_seats_ok split: option.split sum.split list.split)

lemma delete_request_ok: "zones_ok s \<Longrightarrow> zones_ok (snd (performance_zone_delete org k zk s))"
  by (simp add: performance_zone_delete_def Let_def delete_zone_ok split: option.split)

lemma clone_request_ok:
  assumes "zones_ok s" "\<forall>z\<in>set (db_zones s). zone_performance z \<noteq> k"
  shows "zones_ok (snd (performance_zone_clone org k body s))"
proof -
  have "perf_pk p = k" if "org_performance org k s = Some p" for p
    using that by (auto simp: org_performance_def dest!: first_row_Some)
  with assms show ?thesis
    by (auto simp: performance_zone_clone_def dest: clone_ok split: option.splits sum.splits)
qed

text \<open>
  Property C24. Every edit of the zone editor (painting seats, removing seats, deleting a zone, and cloning onto a performance
  that has no zones yet), accepted or refused, leaves each seat of a performance in at most one of its zones.
\<close>

theorem zone_edits_keep_one_zone:
  assumes "zones_ok s"
    and "\<forall>k body. rq = CloneZones k body \<longrightarrow> (\<forall>z\<in>set (db_zones s). zone_performance z \<noteq> k)"
  shows "zones_ok (snd (zone_dispatch repr organization rq s))"
  using assms by (cases rq)
    (simp_all add: zone_dispatch_def apply_request_ok remove_request_ok delete_request_ok clone_request_ok)

text \<open>A performance with no zones, no seats in zones: the demo house before anybody painted it.\<close>

theorem zone_edits_keep_one_zone_witness:
  "zones_ok (snd (zone_dispatch (\<lambda>_. []) 1 (CloneZones 33 (Some (JDict [(''source_performance_id'', JInt 32)]))) painted))"
proof (rule zone_edits_keep_one_zone)
  show "zones_ok painted"
    by (simp add: zones_ok_def zones_wf_def one_zone_per_seat_def well_keyed_def painted_def gold_zone_def gold_seat_def
        zone_seat_ids_def)
  show "\<forall>k body. CloneZones 33 (Some (JDict [(''source_performance_id'', JInt 32)])) = CloneZones k body \<longrightarrow>
      (\<forall>z\<in>set (db_zones painted). zone_performance z \<noteq> k)"
    by (simp add: painted_def gold_zone_def)
qed

section \<open>The export\<close>

datatype zone_export_response = ExportNotFound | ExportRefused zone_export_error | ExportServerError string |
  ExportSheet string zone_drawing

definition performance_zone_export ::
  "pdf_kit \<Rightarrow> (int \<Rightarrow> string \<Rightarrow> real \<times> real \<times> real \<times> real) \<Rightarrow> string \<Rightarrow> string \<Rightarrow> nat \<Rightarrow> nat \<Rightarrow> (string \<rightharpoonup> string) \<Rightarrow> db \<Rightarrow>
   zone_export_response" where
  "performance_zone_export kit bbox title subtitle organization k get s =
     (case org_performance organization k s of
        None \<Rightarrow> ExportNotFound
      | Some performance \<Rightarrow>
          let or_default = (\<lambda>v d. case v of None \<Rightarrow> d | Some t \<Rightarrow> if t = [] then d else t);
              fmt = lower (strip (or_default (get ''format'') ''png''));
              paper = lower (strip (or_default (get ''size'') ''letter''));
              labels = (get ''labels'' \<noteq> Some ''0''); legend = (get ''legend'' \<noteq> Some ''0'')
          in case render_zone_map kit bbox title subtitle performance fmt paper labels legend s of
               Inl (Unsupported e) \<Rightarrow> ExportRefused e
             | Inl (UnreadableColor color) \<Rightarrow> ExportServerError color
             | Inr content \<Rightarrow> ExportSheet (if fmt = ''pdf'' then ''pdf'' else ''png'') content)"

text \<open>The file extension and the rendered format agree, and no other format is served.\<close>

lemma rendered_format:
  "render_zone_map kit bbox title subtitle performance fmt paper labels legend s = Inr content \<Longrightarrow>
   lower fmt = (case content of PdfSheet _ \<Rightarrow> ''pdf'' | PngSheet _ _ _ \<Rightarrow> ''png'')"
  by (auto simp: render_zone_map_def Let_def split: if_splits prod.splits sum.splits)

lemma export_extension:
  assumes "performance_zone_export kit bbox title subtitle org k get s = ExportSheet ext content"
  shows "ext = (case content of PdfSheet _ \<Rightarrow> ''pdf'' | PngSheet _ _ _ \<Rightarrow> ''png'')"
proof -
  obtain performance fmt paper labels legend
    where r: "render_zone_map kit bbox title subtitle performance (lower fmt) paper labels legend s = Inr content"
      and e: "ext = (if lower fmt = ''pdf'' then ''pdf'' else ''png'')"
    using assms by (simp add: performance_zone_export_def Let_def split: option.splits sum.splits zone_export_failure.splits)
  from rendered_format [OF r] e show ?thesis by (cases content) simp_all
qed

end
