(* ===== verification/Webhook.thy ===== *)
theory Webhook
  imports Storefront PassFacts
begin

text \<open>
  payments/views.py and the Connect half of payments/services.py: onboarding a theater's Stripe
  account, caching what Stripe says about it, and the webhook that turns Stripe's events into orders.
  What Stripe answers is a parameter: \<open>account_create\<close>, \<open>account_link\<close>, \<open>account_retrieve\<close>, and
  \<open>construct_event\<close>, which checks a delivery's signature header under the webhook secret and, against the
  clock, the age of the time stamp in it. \<open>send_receipt\<close> is sending an order's receipt (theory Receipts says
  what it holds): false when it raises.
\<close>

section \<open>Connect\<close>

record stripe_account =
  acct_id :: "string option"
  acct_charges_enabled :: bool
  acct_details_submitted :: bool

definition save_org :: "organization \<Rightarrow> (organization \<Rightarrow> organization) \<Rightarrow> db \<Rightarrow> db" where
  "save_org organization cols s =
     s\<lparr>db_orgs := update_rows (\<lambda>x. org_pk x = org_pk organization) cols (db_orgs s)\<rparr>"

definition apply_account_status :: "organization \<Rightarrow> stripe_account \<Rightarrow> db \<Rightarrow> bool \<times> db" where
  "apply_account_status organization account s =
     (let charges = acct_charges_enabled account; details = acct_details_submitted account
      in if org_stripe_charges_enabled organization = charges \<and> org_stripe_details_submitted organization = details
         then (charges, s)
         else (charges, save_org organization
                 (\<lambda>x. x\<lparr>org_stripe_charges_enabled := charges, org_stripe_details_submitted := details\<rparr>) s))"

definition refresh_account_status :: "(string \<Rightarrow> stripe_account option) \<Rightarrow> organization \<Rightarrow> db \<Rightarrow> bool \<times> db" where
  "refresh_account_status account_retrieve organization s =
     (if org_stripe_account_id organization = '''' then (False, s)
      else (case account_retrieve (org_stripe_account_id organization) of
              None \<Rightarrow> (False, s)
            | Some account \<Rightarrow> apply_account_status organization account s))"

text \<open>The account created on the first call is stored even when the link then fails.\<close>

definition create_onboarding_link ::
    "(organization \<Rightarrow> string option) \<Rightarrow> (string \<Rightarrow> string option) \<Rightarrow> organization \<Rightarrow> db \<Rightarrow> string option \<times> db" where
  "create_onboarding_link account_create account_link organization s =
     (if org_stripe_account_id organization \<noteq> ''''
      then (account_link (org_stripe_account_id organization), s)
      else (case account_create organization of
              None \<Rightarrow> (None, s)
            | Some account \<Rightarrow>
                (account_link account, save_org organization (\<lambda>x. x\<lparr>org_stripe_account_id := account\<rparr>) s)))"

definition org_for_account :: "string option \<Rightarrow> db \<Rightarrow> organization option" where
  "org_for_account account_id s =
     (if or_blank account_id = '''' then None
      else first_row (order_by org_name (filter (\<lambda>g. org_stripe_account_id g = or_blank account_id) (db_orgs s))))"

section \<open>The webhook\<close>

datatype stripe_event =
    AccountUpdated stripe_account
  | SessionCompleted "string option" stripe_session
  | OtherEvent string

text \<open>
  The status Stripe is answered, and the order whose receipt went out. The order is committed before the
  receipt is sent, and nothing catches what sending raises: the answer is then 500 and the order stays.
\<close>

record webhook_answer =
  answer_status :: nat
  answer_receipt :: "nat option"

definition ack :: webhook_answer where
  "ack = \<lparr>answer_status = 200, answer_receipt = None\<rparr>"

definition stripe_webhook ::
    "(string \<Rightarrow> string \<Rightarrow> string \<Rightarrow> time \<Rightarrow> stripe_event option) \<Rightarrow> (order \<Rightarrow> db \<Rightarrow> bool) \<Rightarrow> string \<Rightarrow> string \<Rightarrow>
       string \<Rightarrow> time \<Rightarrow> db \<Rightarrow> error + (webhook_answer \<times> db)" where
  "stripe_webhook construct_event send_receipt secret payload sig_header now s =
     (if secret = '''' then Inr (\<lparr>answer_status = 400, answer_receipt = None\<rparr>, s)
      else (case construct_event payload sig_header secret now of
         None \<Rightarrow> Inr (\<lparr>answer_status = 400, answer_receipt = None\<rparr>, s)
       | Some (OtherEvent _) \<Rightarrow> Inr (ack, s)
       | Some (AccountUpdated account) \<Rightarrow>
           Inr (ack, case org_for_account (acct_id account) s of
               None \<Rightarrow> s | Some organization \<Rightarrow> snd (apply_account_status organization account s))
       | Some (SessionCompleted account session) \<Rightarrow>
           (case org_for_account account s of
              None \<Rightarrow> Inr (ack, s)
            | Some organization \<Rightarrow>
                (case fulfill_checkout_session (org_pk organization) session now s of
                   Inr (o', created, s') \<Rightarrow>
                     Inr (if \<not> created then ack
                          else if send_receipt o' s' then ack\<lparr>answer_receipt := Some (order_pk o')\<rparr>
                          else \<lparr>answer_status = 500, answer_receipt = None\<rparr>, s')
                 | Inl (FulfillErr _) \<Rightarrow> Inr (ack, s)
                 | Inl e \<Rightarrow> Inl e))))"

section \<open>Lemmas\<close>

lemma save_org_simps [simp]:
  "db_tickets (save_org g f s) = db_tickets s" "db_orders (save_org g f s) = db_orders s"
  "db_allocations (save_org g f s) = db_allocations s" "db_holds (save_org g f s) = db_holds s"
  "db_next (save_org g f s) = db_next s"
  by (simp_all add: save_org_def)

text \<open>Caching what Stripe says changes nothing by which an account is found.\<close>

definition keeps_account :: "(organization \<Rightarrow> organization) \<Rightarrow> bool" where
  "keeps_account f \<longleftrightarrow> (\<forall>x. org_pk (f x) = org_pk x \<and> org_name (f x) = org_name x \<and> org_stripe_account_id (f x) = org_stripe_account_id x)"

lemma apply_account_status_save:
  "snd (apply_account_status g a s) = s \<or> (\<exists>f. keeps_account f \<and> snd (apply_account_status g a s) = save_org g f s)"
proof (rule disjCI)
  let ?f = "\<lambda>x. x\<lparr>org_stripe_charges_enabled := acct_charges_enabled a, org_stripe_details_submitted := acct_details_submitted a\<rparr>"
  assume "\<nexists>f. keeps_account f \<and> snd (apply_account_status g a s) = save_org g f s"
  moreover have "keeps_account ?f" by (simp add: keeps_account_def)
  ultimately show "snd (apply_account_status g a s) = s" by (auto simp: apply_account_status_def Let_def split: if_splits)
qed

lemma insort_update: "(\<And>x. k (f x) = k x) \<Longrightarrow> insort_key k (f x) (map f ys) = map f (insort_key k x ys)"
  by (induction ys) simp_all

lemma order_by_update: "(\<And>x. k (f x) = k x) \<Longrightarrow> order_by k (map f xs) = map f (order_by k xs)"
  unfolding order_by_def by (induction xs) (simp_all add: insort_update)

lemma account_kept:
  assumes "keeps_account f"
  shows "map_option org_pk (org_for_account a (save_org g f s)) = map_option org_pk (org_for_account a s)"
proof -
  let ?f = "\<lambda>x. if org_pk x = org_pk g then f x else x"
  have f: "org_pk (?f x) = org_pk x" "org_name (?f x) = org_name x" "org_stripe_account_id (?f x) = org_stripe_account_id x" for x
    using assms by (simp_all add: keeps_account_def)
  have "filter (\<lambda>x. org_stripe_account_id x = c) (map ?f (db_orgs s)) = map ?f (filter (\<lambda>x. org_stripe_account_id x = c) (db_orgs s))" for c
    by (simp add: filter_map comp_def f(3))
  then show ?thesis
    by (simp add: org_for_account_def save_org_def update_rows_def order_by_update [where k = org_name and f = ?f, OF f(2)])
      (simp add: first_row_def f(1) split: list.split)
qed

text \<open>Fulfilling a session changes no theater.\<close>

lemma inventory_orgs: "fulfill_inventory h o' s = Inr s' \<Longrightarrow> db_orgs s' = db_orgs s"
proof -
  assume "fulfill_inventory h o' s = Inr s'"
  then obtain s1 where ap: "appended s (inventory_items h o' s) (map (new_ticket h o') (inventory_seats h s)) s1"
    and s': "s' = s1\<lparr>db_allocations := db_allocations s'\<rparr>"
    by (rule inventory_split)
  show ?thesis by (subst s') (simp add: appended_frame [OF ap])
qed

lemma fulfill_hold_orgs:
  assumes "fulfill_hold h e n ref prov sid opt now s = Inr (o', s')"
  shows "db_orgs s' = db_orgs s"
proof -
  from assms obtain t g s1 s2 s3 where g: "attach_guest (hold_organization h) e n opt now s = (g, s1)"
    and s2: "s2 = s1\<lparr>db_orders := db_orders s1 @ [o'], db_next := Suc (db_next s1)\<rparr>"
    and inv: "fulfill_inventory h o' s2 = Inr s3" and s': "s' = finish_hold h o' t prov ref s3"
    by (rule fulfill_hold_Inr)
  have "db_orgs s1 = db_orgs s" by (rule attach_guest_obs [OF g]) simp
  moreover have "db_orgs s' = db_orgs s3"
    by (simp add: s' finish_hold_def Let_def create_item_def create_payment_def record_redemption_def split: option.split)
  ultimately show ?thesis using inventory_orgs [OF inv] by (simp add: s2)
qed

lemma plain_sale_orgs:
  assumes "fulfill_donation org a camp e n prov ref sid opt now s = Inr (o', s') \<or>
    fulfill_pass_purchase org p e n prov ref sid opt now s = Inr (o', s')"
  shows "db_orgs s' = db_orgs s"
proof -
  obtain g s1 where g: "attach_guest org e n opt now s = (g, s1)" by (cases "attach_guest org e n opt now s")
  have "db_orgs s1 = db_orgs s" by (rule attach_guest_obs [OF g]) simp
  with assms g show ?thesis
    by (auto simp: fulfill_donation_def fulfill_pass_purchase_def create_payment_def create_purchase_def create_item_def
        dest!: create_order_effect)
qed

lemma session_orgs:
  assumes "fulfill_checkout_session org ss now s = Inr (o', c, s')"
  shows "db_orgs s' = db_orgs s"
  using assms
proof (cases rule: checkout_session_cases)
  case (hold h opt)
  then show ?thesis by (auto intro: fulfill_hold_orgs)
next
  case (gift a camp opt)
  show ?thesis by (rule plain_sale_orgs) (rule disjI1, fact gift(3))
next
  case (pass p opt)
  show ?thesis by (rule plain_sale_orgs) (rule disjI2, fact pass(3))
qed simp

text \<open>An event without a valid signature, or for an account no theater has, changes nothing.\<close>

lemma unsigned_event_ignored:
  "secret \<noteq> '''' \<Longrightarrow> check payload sig secret now = None \<Longrightarrow>
     stripe_webhook check mail secret payload sig now s = Inr (\<lparr>answer_status = 400, answer_receipt = None\<rparr>, s)"
  by (simp add: stripe_webhook_def)

text \<open>A delivery that made an order, whether its receipt went out or not.\<close>

definition made_order :: "webhook_answer \<Rightarrow> bool" where
  "made_order a \<longleftrightarrow> answer_receipt a \<noteq> None \<or> answer_status a = 500"

lemma made_order_session:
  assumes "stripe_webhook check mail secret payload sig now s = Inr (a, s')" and "made_order a"
    and "check payload sig secret now = Some ev"
  obtains account ss g o' where "secret \<noteq> ''''" "ev = SessionCompleted account ss" "org_for_account account s = Some g"
    "fulfill_checkout_session (org_pk g) ss now s = Inr (o', True, s')"
proof -
  have sec: "secret \<noteq> ''''" using assms(1,2) by (auto simp: stripe_webhook_def made_order_def)
  obtain account ss where ss: "ev = SessionCompleted account ss"
    using assms sec by (cases ev) (auto simp: stripe_webhook_def ack_def made_order_def)
  obtain g where g: "org_for_account account s = Some g"
    using assms ss sec by (cases "org_for_account account s") (auto simp: stripe_webhook_def ack_def made_order_def)
  obtain o' where f: "fulfill_checkout_session (org_pk g) ss now s = Inr (o', True, s')"
    using assms ss sec g
    by (auto simp: stripe_webhook_def ack_def made_order_def split: sum.splits error.splits if_splits)
  from sec ss g f show ?thesis by (rule that)
qed

text \<open>A completed session whose order is there is acknowledged, and nothing is sent.\<close>

lemma known_session_acked:
  assumes "secret \<noteq> ''''" and "check payload sig secret now = Some (SessionCompleted account ss)"
    and "org_for_account account s = Some g" and "order_for_session (org_pk g) (ss_id ss) s \<noteq> None"
  shows "stripe_webhook check mail secret payload sig now s = Inr (\<lparr>answer_status = 200, answer_receipt = None\<rparr>, s)"
  using assms by (auto simp: stripe_webhook_def fulfill_checkout_session_def ack_def)

text \<open>The first delivery of the demo theater's paid cart.\<close>

definition demo_check :: "string \<Rightarrow> string \<Rightarrow> string \<Rightarrow> time \<Rightarrow> stripe_event option" where
  "demo_check payload sig secret now =
     (if sig = ''t=1'' \<and> now \<le> minutes 5 \<or> sig = ''t=2'' \<and> minutes 5 < now then Some (SessionCompleted (Some ''acct_1'') demo_session) else None)"

lemma demo_delivery:
  "\<exists>o' s'. stripe_webhook demo_check mail ''whsec'' ''{}'' ''t=1'' (minutes 1) cart_night =
       Inr (if mail o' s' then ack\<lparr>answer_receipt := Some (order_pk o')\<rparr> else \<lparr>answer_status = 500, answer_receipt = None\<rparr>, s') \<and>
     fulfill_checkout_session 1 demo_session (minutes 1) cart_night = Inr (o', True, s')"
proof -
  obtain o' s' where "fulfill_hold demo_cart '''' ''Ann'' ''pi_1'' ''stripe'' (Some ''cs_1'') False (minutes 1) cart_night = Inr (o', s')"
    using cart_night_fulfilled by blast
  then have f: "fulfill_checkout_session 1 demo_session (minutes 1) cart_night = Inr (o', True, s')"
    by (simp only: demo_session_dispatch or_winner_def sum.case prod.case)
  have "filter (\<lambda>g. org_stripe_account_id g = ''acct_1'') (db_orgs cart_night) = [roxy]"
    by (simp add: cart_night_def demo_def roxy_def lyric_def)
  then have "org_for_account (Some ''acct_1'') cart_night = Some roxy"
    by (simp add: org_for_account_def or_blank_def order_by_def)
  moreover have "org_pk roxy = 1" by (simp add: roxy_def)
  moreover have "minutes 1 \<le> minutes 5" by (simp add: time_defs)
  ultimately show ?thesis using f by (intro exI [of _ o'] exI [of _ s']) (simp add: stripe_webhook_def demo_check_def)
qed

text \<open>
  A receipt that could not be sent is lost: the answer 500 makes Stripe deliver again, and the delivery
  that follows finds the order and sends nothing.
\<close>

lemma failed_receipt_is_lost:
  assumes "\<And>o' s'. \<not> down o' s'"
  shows "\<exists>s'. stripe_webhook demo_check down ''whsec'' ''{}'' ''t=1'' (minutes 1) cart_night = Inr (\<lparr>answer_status = 500, answer_receipt = None\<rparr>, s') \<and>
     stripe_webhook demo_check up ''whsec'' ''{}'' ''t=2'' (minutes 6) s' = Inr (\<lparr>answer_status = 200, answer_receipt = None\<rparr>, s')"
proof -
  obtain o' s' where r: "stripe_webhook demo_check down ''whsec'' ''{}'' ''t=1'' (minutes 1) cart_night = Inr (\<lparr>answer_status = 500, answer_receipt = None\<rparr>, s')"
    and f: "fulfill_checkout_session 1 demo_session (minutes 1) cart_night = Inr (o', True, s')"
    using demo_delivery [of down] assms by auto
  have "db_orgs s' = [roxy, lyric]" using session_orgs [OF f] by (simp add: cart_night_def demo_def)
  then have "org_for_account (Some ''acct_1'') s' = Some roxy" "org_pk roxy = 1"
    by (simp_all add: org_for_account_def or_blank_def order_by_def roxy_def lyric_def)
  moreover have "demo_check ''{}'' ''t=2'' ''whsec'' (minutes 6) = Some (SessionCompleted (Some ''acct_1'') demo_session)"
    by (simp add: demo_check_def time_defs)
  ultimately have "stripe_webhook demo_check up ''whsec'' ''{}'' ''t=2'' (minutes 6) s' = Inr (\<lparr>answer_status = 200, answer_receipt = None\<rparr>, s')"
    using checkout_session_order [OF f] by (intro known_session_acked [where g = roxy]) (auto simp del: One_nat_def)
  with r show ?thesis by blast
qed

end
