(* ===== verification/Ledger.thy ===== *)
theory Ledger
  imports PassFacts Scanning
begin

text \<open>
  What must never go wrong with the inventory, as invariants of the tables: sold counts equal the
  live general-admission tickets and fit the room, a seat backs at most one live ticket, ticket
  codes are unique, and every ticket belongs to an order for its performance. The lemmas show that
  each writing operation of the sale keeps them.
\<close>

section \<open>The invariants\<close>

definition ga_ticket :: "nat \<Rightarrow> ticket \<Rightarrow> bool" where
  "ga_ticket p t \<longleftrightarrow> live t \<and> tkt_seat t = None \<and> tkt_performance t = p"

definition ga_live :: "nat \<Rightarrow> db \<Rightarrow> nat" where
  "ga_live p s = length (filter (ga_ticket p) (db_tickets s))"

definition sold_right :: "db \<Rightarrow> ga_allocation \<Rightarrow> bool" where
  "sold_right s a \<longleftrightarrow> alloc_sold a = int (ga_live (alloc_performance a) s) \<and> alloc_sold a \<le> alloc_capacity a"

text \<open>Live general-admission tickets are counted by an allocation.\<close>

definition counted :: "db \<Rightarrow> bool" where
  "counted s \<longleftrightarrow> (\<forall>p. p \<notin> alloc_performance ` set (db_allocations s) \<longrightarrow> ga_live p s = 0)"

definition ledger :: "db \<Rightarrow> bool" where
  "ledger s \<longleftrightarrow> distinct (map alloc_pk (db_allocations s)) \<and> distinct (map alloc_performance (db_allocations s)) \<and>
     (\<forall>a\<in>set (db_allocations s). sold_right s a) \<and> counted s"

definition seats_once :: "db \<Rightarrow> bool" where
  "seats_once s \<longleftrightarrow> sorted_wrt (\<lambda>t u. \<not> same_live_seat t u) (db_tickets s)"

definition codes_once :: "db \<Rightarrow> bool" where
  "codes_once s \<longleftrightarrow> distinct (map tkt_token (db_tickets s)) \<and> distinct (map order_token (db_orders s))"

definition owned :: "db \<Rightarrow> bool" where
  "owned s \<longleftrightarrow> (\<forall>t\<in>set (db_tickets s). \<exists>x\<in>set (db_orders s). order_pk x = tkt_order t \<and>
     order_performance x = Some (tkt_performance t))"

definition keys_wf :: "db \<Rightarrow> bool" where
  "keys_wf s \<longleftrightarrow> well_keyed order_pk (db_next s) (db_orders s) \<and> well_keyed tkt_pk (db_next s) (db_tickets s) \<and>
     (\<forall>a\<in>set (db_allocations s). alloc_pk a < db_next s)"

definition holds_sane :: "db \<Rightarrow> bool" where
  "holds_sane s \<longleftrightarrow> (\<forall>h\<in>set (db_holds s). \<forall>q. hold_quantity h = Some q \<longrightarrow> 0 < q)"

definition sales_inv :: "db \<Rightarrow> bool" where
  "sales_inv s \<longleftrightarrow> ledger s \<and> seats_once s \<and> codes_once s \<and> owned s \<and> keys_wf s \<and> holds_sane s"

lemmas inv_defs = sales_inv_def ledger_def seats_once_def codes_once_def owned_def keys_wf_def

text \<open>Operations that leave the sold inventory alone.\<close>

lemma sold_right_frame: "db_tickets s' = db_tickets s \<Longrightarrow> sold_right s' = sold_right s"
  by (simp add: sold_right_def ga_live_def fun_eq_iff)

lemma ledger_frame: "db_tickets s' = db_tickets s \<Longrightarrow> db_allocations s' = db_allocations s \<Longrightarrow> ledger s' = ledger s"
  using sold_right_frame [of s' s] by (simp add: ledger_def counted_def ga_live_def)

lemma counted_mono:
  assumes "counted s" and "alloc_performance ` set (db_allocations s) \<subseteq> alloc_performance ` set (db_allocations s')"
    and "\<And>p. p \<notin> alloc_performance ` set (db_allocations s) \<Longrightarrow> ga_live p s' \<le> ga_live p s"
  shows "counted s'"
  unfolding counted_def
proof (intro allI impI)
  fix p assume "p \<notin> alloc_performance ` set (db_allocations s')"
  with assms(2) have "p \<notin> alloc_performance ` set (db_allocations s)" by blast
  with assms(1) assms(3) [of p] show "ga_live p s' = 0" by (simp add: counted_def)
qed

text \<open>Allocations are never deleted, and keep their keys.\<close>

lemma alloc_keys:
  assumes "map alloc_pk xs = map alloc_pk ys" "\<forall>a\<in>set ys. alloc_pk a < n" "n \<le> m"
  shows "\<forall>a\<in>set xs. alloc_pk a < m"
proof -
  have "alloc_pk ` set xs = alloc_pk ` set ys" using assms(1) by (metis list.set_map)
  with assms(2,3) show ?thesis by (metis image_iff order_less_le_trans)
qed

lemma void_keys: "void_order o' s = Inr (n, s1) \<Longrightarrow> map alloc_pk (db_allocations s1) = map alloc_pk (db_allocations s)"
  by (auto simp: void_order_def Let_def save_sold_def update_rows_def split: if_splits option.splits)

lemma sales_frame:
  assumes "sales_inv s" and "db_tickets s' = db_tickets s" and "db_allocations s' = db_allocations s"
    and "db_orders s' = db_orders s" and "db_next s \<le> db_next s'" and "holds_sane s'"
  shows "sales_inv s'"
proof -
  have "well_keyed order_pk (db_next s') (db_orders s)" "well_keyed tkt_pk (db_next s') (db_tickets s)"
    using assms(1,5) by (auto simp: inv_defs intro: order_rows.keyed_mono ticket_rows.keyed_mono)
  moreover have "\<forall>a\<in>set (db_allocations s). alloc_pk a < db_next s'" using assms(1,5) by (fastforce simp: inv_defs)
  ultimately show ?thesis using assms ledger_frame [of s' s]
    by (simp add: sales_inv_def seats_once_def codes_once_def owned_def keys_wf_def)
qed

lemma holds_sane_subset: "holds_sane s \<Longrightarrow> set (db_holds s') \<subseteq> set (db_holds s) \<Longrightarrow> holds_sane s'"
  by (auto simp: holds_sane_def)

lemma holds_sane_update:
  "holds_sane s \<Longrightarrow> (\<And>h. hold_quantity (f h) = hold_quantity h) \<Longrightarrow> db_holds s' = update_rows P f (db_holds s) \<Longrightarrow> holds_sane s'"
  by (auto simp: holds_sane_def update_rows_def)

section \<open>Orders\<close>

lemma create_order_Inr:
  assumes "create_order r s = Inr (x, s')"
  shows "order_token x \<notin> order_token ` set (db_orders s)"
    "order_stripe_checkout_session_id r \<noteq> None \<Longrightarrow> order_stripe_checkout_session_id r \<noteq> Some '''' \<Longrightarrow>
       \<forall>y\<in>set (db_orders s). order_organization y = order_organization r \<longrightarrow>
         order_stripe_checkout_session_id y \<noteq> order_stripe_checkout_session_id r"
  using assms by (auto simp: create_order_def Let_def split: if_splits)

lemma sales_create_order:
  assumes "create_order r s = Inr (x, s')" and "sales_inv s"
  shows "sales_inv s'"
proof -
  note e = create_order_effect [OF assms(1)]
  have x: "order_pk x = db_next s" by (simp add: e(1))
  have "well_keyed order_pk (Suc (db_next s)) (db_orders s @ [x])" "well_keyed tkt_pk (Suc (db_next s)) (db_tickets s)"
    using assms(2) order_rows.insert_keyed [of "db_next s" "db_orders s" x] ticket_rows.keyed_mono [of "db_next s" "db_tickets s" "Suc (db_next s)"] x
    by (simp_all add: inv_defs) (metis order.surjective order.update_convs(1))
  moreover have "owned s'" using assms(2) by (auto simp: inv_defs e(2))
  moreover have "distinct (map order_token (db_orders s @ [x]))"
    using create_order_Inr(1) [OF assms(1)] assms(2) by (simp add: inv_defs)
  moreover have "ledger s' = ledger s" by (rule ledger_frame) (simp_all add: e(2))
  ultimately show ?thesis
    using assms(2) by (auto simp: sales_inv_def seats_once_def codes_once_def keys_wf_def holds_sane_def e(2) less_Suc_eq)
qed

section \<open>Minting tickets\<close>

lemma same_live_seat_sym: "same_live_seat t u \<longleftrightarrow> same_live_seat u t"
  by (auto simp: same_live_seat_def)

lemma create_ticket_once:
  assumes "create_ticket r s = Inr s'"
  shows "seats_once s \<Longrightarrow> seats_once s'" "codes_once s \<Longrightarrow> codes_once s'"
proof -
  let ?r = "r\<lparr>tkt_pk := db_next s, tkt_token := db_entropy s (db_next s)\<rparr>"
  have free: "\<forall>x\<in>set (db_tickets s). tkt_token x \<noteq> tkt_token ?r" "\<forall>x\<in>set (db_tickets s). \<not> same_live_seat ?r x"
    using assms by (auto simp: create_ticket_def Let_def split: if_splits)
  note s' = create_ticket_effect [OF assms]
  show "seats_once s \<Longrightarrow> seats_once s'"
    using free(2) same_live_seat_sym by (auto simp: seats_once_def s' sorted_wrt_append)
  show "codes_once s \<Longrightarrow> codes_once s'"
    using free(1) by (auto simp: codes_once_def s')
qed

text \<open>What every step of the inventory keeps, the inventory keeps.\<close>

lemma inventory_keeps:
  assumes "fulfill_inventory h o' s = Inr s'" and "P s"
    and item: "\<And>r s. P s \<Longrightarrow> P (create_item r s)" and ticket: "\<And>r s s'. create_ticket r s = Inr s' \<Longrightarrow> P s \<Longrightarrow> P s'"
    and sold: "\<And>a n s s'. save_sold a n s = Inr s' \<Longrightarrow> P s \<Longrightarrow> P s'"
  shows "P s'"
proof -
  have tickets: "create_tickets rs s = Inr s' \<Longrightarrow> P s \<Longrightarrow> P s'" for rs s s'
    by (induction rs arbitrary: s) (auto intro: ticket)
  have mint: "mint_seats h o' rs s = Inr s' \<Longrightarrow> P s \<Longrightarrow> P s'" for rs s s'
  proof (induction rs arbitrary: s)
    case (Cons r rs)
    from Cons.prems(1) obtain s1 where t: "create_ticket (new_ticket h o' (Some (hs_seat r))) (create_item (reserved_item o' r) s) = Inr s1"
      and rest: "mint_seats h o' rs s1 = Inr s'" by auto
    from Cons.IH [OF rest] ticket [OF t item [OF Cons.prems(2)]] show ?case .
  qed simp
  show ?thesis
  proof (cases "is_ga h")
    case True
    with assms(1) obtain a u s1 where "create_tickets (replicate (nat (the (hold_quantity h))) (new_ticket h o' None))
          (create_item ((blank_item o' TICKET (the (hold_quantity h)) u)\<lparr>item_price_tier := hold_price_tier h\<rparr>) s) = Inr s1"
      "save_sold a (alloc_sold a + the (hold_quantity h)) s1 = Inr s'"
      by (auto simp: fulfill_inventory_def fulfill_ga_def Let_def)
    with tickets item [OF assms(2)] sold show ?thesis by blast
  next
    case False
    with assms(1,2) mint show ?thesis by (auto simp: fulfill_inventory_def fulfill_reserved_def Let_def)
  qed
qed

lemma inventory_once:
  assumes "fulfill_inventory h o' s = Inr s'"
  shows "seats_once s \<Longrightarrow> seats_once s'" "codes_once s \<Longrightarrow> codes_once s'"
proof -
  have item: "seats_once (create_item r x) = seats_once x" "codes_once (create_item r x) = codes_once x" for r x
    by (simp_all add: seats_once_def codes_once_def create_item_def)
  have sold: "seats_once y = seats_once x \<and> codes_once y = codes_once x" if "save_sold a n x = Inr y" for a n x y
    using that by (auto simp: seats_once_def codes_once_def save_sold_def split: if_splits)
  show "seats_once s \<Longrightarrow> seats_once s'"
    by (rule inventory_keeps [OF assms, where P = seats_once]) (use item sold create_ticket_once(1) in blast)+
  show "codes_once s \<Longrightarrow> codes_once s'"
    by (rule inventory_keeps [OF assms, where P = codes_once]) (use item sold create_ticket_once(2) in blast)+
qed

lemma ga_live_append: "db_tickets s' = db_tickets s @ ts \<Longrightarrow> ga_live p s' = ga_live p s + length (filter (ga_ticket p) ts)"
  by (simp add: ga_live_def)

lemma length_filter_map: "map P xs = map P ys \<Longrightarrow> length (filter P xs) = length (filter P ys)"
proof -
  have "length (filter P zs) = length (filter id (map P zs))" for zs :: "'a list"
    by (induction zs) simp_all
  then show "map P xs = map P ys \<Longrightarrow> length (filter P xs) = length (filter P ys)" by metis
qed

lemma minted_ga:
  assumes "map plain_ticket ts = map plain_ticket (map (new_ticket h o') (inventory_seats h s))"
  shows "length (filter (ga_ticket p) ts) =
    (if is_ga h \<and> p = hold_performance h then nat (the (hold_quantity h)) else 0)"
proof -
  have "map (ga_ticket p) ts = map (ga_ticket p) (map (new_ticket h o') (inventory_seats h s))"
    by (rule plain_ticket_obs [OF assms]) (simp add: plain_ticket_def ga_ticket_def live_def)
  then have "length (filter (ga_ticket p) ts) = length (filter (ga_ticket p) (map (new_ticket h o') (inventory_seats h s)))"
    by (rule length_filter_map)
  also have "\<dots> = (if is_ga h \<and> p = hold_performance h then nat (the (hold_quantity h)) else 0)"
    by (auto simp: inventory_seats_def ga_ticket_def new_ticket_def live_def filter_replicate o_def filter_map)
  finally show ?thesis .
qed

lemma set_update_performance:
  "distinct (map alloc_performance as) \<Longrightarrow> a \<in> set as \<Longrightarrow> x \<in> set as \<Longrightarrow> alloc_performance x = alloc_performance a \<Longrightarrow> x = a"
  by (metis distinct_map inj_onD)

lemma allocation_of_Some: "allocation_of p s = Some a \<Longrightarrow> a \<in> set (db_allocations s) \<and> alloc_performance a = p"
  by (auto simp: allocation_of_def dest: first_row_Some)

text \<open>Changing the sold count of one performance by what its tickets changed by.\<close>

lemma ledger_change:
  assumes "ledger s" and "allocation_of p s = Some a" and "n \<le> alloc_capacity a" and "n = int (ga_live p s')"
    and "\<And>q. q \<noteq> p \<Longrightarrow> ga_live q s' = ga_live q s"
    and "db_allocations s' = update_rows (\<lambda>x. alloc_pk x = alloc_pk a) (\<lambda>x. x\<lparr>alloc_sold := n\<rparr>) (db_allocations s)"
  shows "ledger s'"
proof -
  note a = allocation_of_Some [OF assms(2)]
  have d: "distinct (map alloc_pk (db_allocations s))" "distinct (map alloc_performance (db_allocations s))"
    using assms(1) by (simp_all add: ledger_def)
  have same: "alloc_pk x = alloc_pk a \<longleftrightarrow> alloc_performance x = p" if "x \<in> set (db_allocations s)" for x
    using d a that by (metis distinct_map inj_onD)
  have "map alloc_pk (db_allocations s') = map alloc_pk (db_allocations s)"
    "map alloc_performance (db_allocations s') = map alloc_performance (db_allocations s)"
    by (simp_all add: assms(6) update_rows_def)
  moreover have "sold_right s' y" if "y \<in> set (db_allocations s')" for y
  proof -
    from that obtain x where x: "x \<in> set (db_allocations s)"
      and y: "y = (if alloc_pk x = alloc_pk a then x\<lparr>alloc_sold := n\<rparr> else x)" by (auto simp: assms(6) update_rows_def)
    show ?thesis
    proof (cases "alloc_pk x = alloc_pk a")
      case True
      then have "x = a" using d(1) a x by (metis distinct_map inj_onD)
      with y a assms(3,4) show ?thesis by (simp add: sold_right_def)
    next
      case False
      then have "alloc_performance x \<noteq> p" using same [OF x] by simp
      with assms(1,5) x y False show ?thesis by (auto simp: ledger_def sold_right_def)
    qed
  qed
  moreover have "counted s'"
  proof (rule counted_mono)
    show "counted s" using assms(1) by (simp add: ledger_def)
    show "alloc_performance ` set (db_allocations s) \<subseteq> alloc_performance ` set (db_allocations s')"
      unfolding assms(6) set_update_rows image_image by (auto intro!: image_eqI)
    show "ga_live q s' \<le> ga_live q s" if "q \<notin> alloc_performance ` set (db_allocations s)" for q
      using that a assms(5) [of q] by (cases "q = p") auto
  qed
  ultimately show ?thesis using d by (simp add: ledger_def)
qed

lemma plain_ticket_all:
  assumes "map plain_ticket ts = map plain_ticket us" and "\<And>t. P (plain_ticket t) = P t" and "\<forall>u\<in>set us. P u"
  shows "\<forall>t\<in>set ts. P t"
proof -
  have "P ` set ts = P ` set us" using plain_ticket_obs [of ts us P, OF assms(1,2)] by (metis list.set_map)
  with assms(3) show ?thesis by (metis image_eqI imageE)
qed

text \<open>Tickets and sold counts move together when an order's inventory is minted.\<close>

lemma ledger_inventory:
  assumes "fulfill_inventory h o' s = Inr s'" and "ledger s" and ga: "is_ga h \<Longrightarrow> 0 \<le> the (hold_quantity h)"
  shows "ledger s'"
proof -
  from assms(1) obtain s1 where ap: "appended s (inventory_items h o' s) (map (new_ticket h o') (inventory_seats h s)) s1"
    and s': "s' = s1\<lparr>db_allocations := db_allocations s'\<rparr>"
    and alloc: "if is_ga h
     then \<exists>a. allocation_of (hold_performance h) s = Some a \<and>
        alloc_sold a + the (hold_quantity h) \<le> alloc_capacity a \<and>
        db_allocations s' = update_rows (\<lambda>x. alloc_pk x = alloc_pk a)
            (\<lambda>x. x\<lparr>alloc_sold := alloc_sold a + the (hold_quantity h)\<rparr>) (db_allocations s)
     else db_allocations s' = db_allocations s \<and>
        (\<forall>r\<in>set (seats_of_hold h s). hs_seat r \<notin> ticketed_ids (hold_performance h) s)"
    by (rule inventory_split)
  from ap obtain is' ts where i: "db_items s1 = db_items s @ is'" "map plain_item is' = map plain_item (inventory_items h o' s)"
    and ts: "db_tickets s1 = db_tickets s @ ts" "map plain_ticket ts = map plain_ticket (map (new_ticket h o') (inventory_seats h s))"
    by (rule appended_rows)
  have t': "db_tickets s' = db_tickets s @ ts" by (subst s', simp add: ts(1))
  have count: "ga_live p s' = ga_live p s + (if is_ga h \<and> p = hold_performance h then nat (the (hold_quantity h)) else 0)" for p
    using ga_live_append [OF t'] minted_ga [OF ts(2)] by simp
  show ?thesis
  proof (cases "is_ga h")
    case True
    with alloc obtain a where a: "allocation_of (hold_performance h) s = Some a"
      "alloc_sold a + the (hold_quantity h) \<le> alloc_capacity a"
      "db_allocations s' = update_rows (\<lambda>x. alloc_pk x = alloc_pk a)
            (\<lambda>x. x\<lparr>alloc_sold := alloc_sold a + the (hold_quantity h)\<rparr>) (db_allocations s)" by auto
    have "alloc_sold a = int (ga_live (hold_performance h) s)"
      using assms(2) allocation_of_Some [OF a(1)] by (auto simp: ledger_def sold_right_def)
    then have n: "alloc_sold a + the (hold_quantity h) = int (ga_live (hold_performance h) s')"
      using True ga [OF True] by (simp add: count)
    show ?thesis by (rule ledger_change [OF assms(2) a(1,2) n _ a(3)]) (simp add: count)
  next
    case False
    have "sold_right s' = sold_right s" using False count by (simp add: sold_right_def fun_eq_iff)
    moreover have "counted s'"
      by (rule counted_mono [of s]) (use False alloc assms(2) count in \<open>simp_all add: ledger_def\<close>)
    ultimately show ?thesis using False alloc assms(2) by (simp add: ledger_def)
  qed
qed

lemma sales_inventory:
  assumes "fulfill_inventory h o' s = Inr s'" and "sales_inv s" and "is_ga h \<Longrightarrow> 0 \<le> the (hold_quantity h)"
    and "o' \<in> set (db_orders s)" and "order_performance o' = Some (hold_performance h)"
  shows "sales_inv s'"
proof -
  from assms(1) obtain s1 where ap: "appended s (inventory_items h o' s) (map (new_ticket h o') (inventory_seats h s)) s1"
    and s': "s' = s1\<lparr>db_allocations := db_allocations s'\<rparr>"
    and alloc: "if is_ga h
     then \<exists>a. allocation_of (hold_performance h) s = Some a \<and>
        alloc_sold a + the (hold_quantity h) \<le> alloc_capacity a \<and>
        db_allocations s' = update_rows (\<lambda>x. alloc_pk x = alloc_pk a)
            (\<lambda>x. x\<lparr>alloc_sold := alloc_sold a + the (hold_quantity h)\<rparr>) (db_allocations s)
     else db_allocations s' = db_allocations s \<and>
        (\<forall>r\<in>set (seats_of_hold h s). hs_seat r \<notin> ticketed_ids (hold_performance h) s)"
    by (rule inventory_split)
  have pks: "map alloc_pk (db_allocations s') = map alloc_pk (db_allocations s)"
    using alloc by (auto simp: update_rows_def split: if_splits)
  from ap obtain is' ts where i: "db_items s1 = db_items s @ is'" "map plain_item is' = map plain_item (inventory_items h o' s)"
    and ts: "db_tickets s1 = db_tickets s @ ts" "map plain_ticket ts = map plain_ticket (map (new_ticket h o') (inventory_seats h s))"
    by (rule appended_rows)
  have t': "db_tickets s' = db_tickets s @ ts" "db_orders s' = db_orders s" "db_holds s' = db_holds s" "db_next s' = db_next s1"
    by (subst s', simp add: ts(1) appended_frame [OF ap])+
  have "\<forall>t\<in>set ts. tkt_order t = order_pk o' \<and> tkt_performance t = hold_performance h"
    by (rule plain_ticket_all [OF ts(2)]) (auto simp: plain_ticket_def new_ticket_def)
  with assms(2,4,5) have "owned s'" by (auto simp: sales_inv_def owned_def t')
  moreover have "db_next s \<le> db_next s'" "well_keyed tkt_pk (db_next s') (db_tickets s')"
    using ap assms(2) by (simp_all add: appended_def sales_inv_def keys_wf_def t' ts(1))
  then have "keys_wf s'"
    using assms(2) alloc_keys [OF pks] by (auto simp: sales_inv_def keys_wf_def t'(2) intro: order_rows.keyed_mono)
  moreover have "ledger s'" using ledger_inventory [OF assms(1) _ assms(3)] assms(2) by (simp add: sales_inv_def)
  moreover have "seats_once s'" "codes_once s'" using inventory_once [OF assms(1)] assms(2) by (simp_all add: sales_inv_def)
  moreover have "holds_sane s'" using assms(2) by (simp add: sales_inv_def holds_sane_def t')
  ultimately show ?thesis by (simp add: sales_inv_def)
qed

section \<open>Sales\<close>

text \<open>A sale creates its order, mints its inventory and then writes only other tables.\<close>

lemma sales_sale:
  assumes "sales_inv s" and s1: "s1 = s\<lparr>db_guests := db_guests s1, db_next := db_next s1\<rparr>" "db_next s \<le> db_next s1"
    and "create_order r s1 = Inr (o', s2)" and "order_performance r = Some (hold_performance h)"
    and "fulfill_inventory h o' s2 = Inr s3" and "h \<in> set (db_holds s)"
  shows "sales_inv s3"
proof -
  have f: "db_tickets s1 = db_tickets s" "db_allocations s1 = db_allocations s" "db_orders s1 = db_orders s" "db_holds s1 = db_holds s"
    by (subst s1(1), simp)+
  have "holds_sane s1" using assms(1) by (simp add: sales_inv_def holds_sane_def f)
  then have "sales_inv s1" by (intro sales_frame [OF assms(1) f(1-3) s1(2)])
  then have "sales_inv s2" by (rule sales_create_order [OF assms(4)])
  moreover have "0 \<le> the (hold_quantity h)" if "is_ga h"
    using that assms(1,7) by (auto simp: is_ga_def sales_inv_def holds_sane_def)
  moreover have "o' \<in> set (db_orders s2)" "order_performance o' = Some (hold_performance h)"
    using create_order_effect [OF assms(4)] assms(5) by simp_all
  ultimately show ?thesis using sales_inventory [OF assms(6)] by blast
qed

lemma sales_fulfill_hold:
  assumes "fulfill_hold h e n ref prov sid opt now s = Inr (o', s')" and "sales_inv s" and "h \<in> set (db_holds s)"
  shows "sales_inv s'"
proof -
  obtain g s1 where g: "attach_guest (hold_organization h) e n opt now s = (g, s1)"
    by (cases "attach_guest (hold_organization h) e n opt now s")
  note gf = attach_guest_frame [OF g]
  from assms(1) g obtain t s2 s3 where c: "create_order ((paid_order (hold_organization h) (Some (hold_performance h)) e n g t sid)
       \<lparr>order_promo_code_text := hold_promo_code_text h, order_discount_amount := hold_discount h\<rparr>) s1 = Inr (o', s2)"
    and i: "fulfill_inventory h o' s2 = Inr s3" and s': "s' = finish_hold h o' t prov ref s3"
    by (auto simp: fulfill_hold_def)
  have s3: "sales_inv s3"
    by (rule sales_sale [OF assms(2) conjunct1 [OF gf] conjunct2 [OF gf] c _ i assms(3)]) (simp add: paid_order_def)
  have "holds_sane s'" by (rule holds_sane_subset [of s3]) (use s3 in \<open>auto simp: sales_inv_def s' finish_hold_effect\<close>)
  then show ?thesis by (intro sales_frame [OF s3]) (simp_all add: s' finish_hold_effect)
qed

lemma sales_fulfill_with_pass:
  assumes "fulfill_hold_with_pass h k e n opt now s = Inr (o', s')" and "sales_inv s" and "h \<in> set (db_holds s)"
  shows "sales_inv s'"
proof -
  from assms(1) obtain pp perf g s1 s2 s3 s4 where
    s1: "s1 = s\<lparr>db_guests := db_guests s1, db_next := db_next s1\<rparr>" "db_next s \<le> db_next s1"
    and c: "create_order (paid_order (hold_organization h) (Some (hold_performance h)) e n g 0 None) s1 = Inr (o', s2)"
    and i: "fulfill_inventory h o' s2 = Inr s3"
    and r: "create_redemptions (map (redemption_row h pp o' perf s3) (tickets_of o' s3)) s3 = Inr s4"
    and s': "s' = delete_holds (\<lambda>x. hold_pk x = hold_pk h)
       (create_payment (payment_row o' ''pass'' 0 ''succeeded'' (''pass-'' @ show_nat (pp_pk pp)))
         (if pp_kind pp = FLEX
          then s4\<lparr>db_purchases := update_rows (\<lambda>x. pp_pk x = pp_pk pp) (\<lambda>_. burn_credits (ticket_count h s) pp) (db_purchases s4)\<rparr>
          else s4))"
    by (rule fulfill_with_pass_create)
  have s3: "sales_inv s3"
    by (rule sales_sale [OF assms(2) s1 c _ i assms(3)]) (simp add: paid_order_def)
  from stamp_redemptions [OF r] obtain new where s4: "s4 = s3\<lparr>db_redemptions := db_redemptions s3 @ new,
      db_next := db_next s3 + length (tickets_of o' s3)\<rparr>" by auto
  have "holds_sane s'" by (rule holds_sane_subset [of s3]) (use s3 in \<open>auto simp: sales_inv_def s' s4 create_payment_def\<close>)
  then show ?thesis by (intro sales_frame [OF s3]) (simp_all add: s' s4 create_payment_def)
qed

text \<open>Orders without inventory: a donation, a pass.\<close>

lemma sales_plain_sale:
  assumes "sales_inv s" and "attach_guest org e n opt now s = (g, s1)" and "create_order r s1 = Inr (o', s2)"
    and "db_tickets s' = db_tickets s2" "db_allocations s' = db_allocations s2" "db_orders s' = db_orders s2"
    "db_next s2 \<le> db_next s'" "db_holds s' = db_holds s2"
  shows "sales_inv s'"
proof -
  have f: "db_tickets s1 = db_tickets s" "db_allocations s1 = db_allocations s" "db_orders s1 = db_orders s" "db_holds s1 = db_holds s"
    by (rule attach_guest_obs [OF assms(2)], simp)+
  have "holds_sane s1" using assms(1) by (simp add: sales_inv_def holds_sane_def f)
  then have "sales_inv s1" using sales_frame [OF assms(1) f(1-3)] attach_guest_frame [OF assms(2)] by blast
  then have s2: "sales_inv s2" by (rule sales_create_order [OF assms(3)])
  then have "holds_sane s'" by (simp add: sales_inv_def holds_sane_def assms(8))
  then show ?thesis by (rule sales_frame [OF s2 assms(4-7)])
qed

lemma sales_fulfill_donation:
  assumes "fulfill_donation org a camp e n prov ref sid opt now s = Inr (o', s')" and "sales_inv s"
  shows "sales_inv s'"
proof -
  obtain g s1 where g: "attach_guest org e n opt now s = (g, s1)" by (cases "attach_guest org e n opt now s")
  with assms(1) obtain s2 where c: "create_order (paid_order org None e n g a sid) s1 = Inr (o', s2)"
    and s': "s' = create_payment (payment_row o' prov a ''succeeded'' ref)
             (create_item ((blank_item o' DONATION 1 a)\<lparr>item_donation_campaign := camp\<rparr>) s2)"
    by (auto simp: fulfill_donation_def)
  show ?thesis by (rule sales_plain_sale [OF assms(2) g c]) (simp_all add: s' create_payment_def create_item_def)
qed

lemma sales_fulfill_pass:
  assumes "fulfill_pass_purchase org p e n prov ref sid opt now s = Inr (o', s')" and "sales_inv s"
  shows "sales_inv s'"
proof -
  obtain g s1 where g: "attach_guest org e n opt now s = (g, s1)" by (cases "attach_guest org e n opt now s")
  with assms(1) obtain s2 where c: "create_order (paid_order org None e n g (prod_price p) sid) s1 = Inr (o', s2)"
    and s': "s' = create_payment (payment_row o' prov (prod_price p) ''succeeded'' ref)
            (create_purchase p g o' (create_item ((blank_item o' PASS 1 (prod_price p))
                 \<lparr>item_pass_product := Some (prod_pk p)\<rparr>) s2))"
    by (auto simp: fulfill_pass_purchase_def)
  show ?thesis
    by (rule sales_plain_sale [OF assms(2) g c]) (simp_all add: s' create_payment_def create_item_def create_purchase_def)
qed

lemma sales_checkout_session:
  assumes "fulfill_checkout_session org ss now s = Inr (o', c, s')" and "sales_inv s"
  shows "sales_inv s'"
  using assms(1)
proof (cases rule: checkout_session_cases)
  case (hold h opt)
  with assms(2) sales_fulfill_hold show ?thesis by blast
next
  case (gift a camp opt)
  show ?thesis by (rule sales_fulfill_donation [OF gift(3) assms(2)])
next
  case (pass p opt)
  show ?thesis by (rule sales_fulfill_pass [OF pass(3) assms(2)])
qed (use assms(2) in simp)

section \<open>Reversals\<close>

lemma count_voided:
  assumes "\<And>t. t \<in> set ts \<Longrightarrow> Q t \<Longrightarrow> \<not> P (f t)"
  shows "length (filter P (map (\<lambda>t. if Q t then f t else t) ts)) + length (filter (\<lambda>t. P t \<and> Q t) ts) = length (filter P ts)"
  using assms by (induction ts) auto

lemma void_once:
  assumes "seats_once s" and "db_tickets s' = map (\<lambda>t. if tkt_order t = k then t\<lparr>tkt_status := VOID\<rparr> else t) (db_tickets s)"
  shows "seats_once s'"
proof -
  have "\<not> same_live_seat (if P then t\<lparr>tkt_status := VOID\<rparr> else t) (if Q then u\<lparr>tkt_status := VOID\<rparr> else u)"
    if "\<not> same_live_seat t u" for P Q t u
    using that by (auto simp: same_live_seat_def live_def)
  then show ?thesis
    using assms(1) unfolding seats_once_def assms(2) sorted_wrt_map by (rule sorted_wrt_mono_rel)
qed

lemma void_map_fields:
  assumes "db_tickets s' = map (\<lambda>t. if tkt_order t = k then t\<lparr>tkt_status := VOID\<rparr> else t) (db_tickets s)"
    and "\<And>t. f (t\<lparr>tkt_status := VOID\<rparr>) = f t"
  shows "map f (db_tickets s') = map f (db_tickets s)"
  using assms(2) by (simp add: assms(1))

lemma sales_void:
  assumes v: "void_order o' s = Inr (n, s1)" and inv: "sales_inv s" and o': "o' \<in> set (db_orders s)"
  shows "sales_inv s1"
proof -
  have wk: "well_keyed tkt_pk (db_next s) (db_tickets s)" "well_keyed order_pk (db_next s) (db_orders s)"
    using inv by (simp_all add: sales_inv_def keys_wf_def)
  note e = void_order_effect [OF v]
  note ts = void_order_tickets [OF v wk(1)]
  let ?mine = "\<lambda>t. tkt_order t = order_pk o'"
  have perf: "order_performance o' = Some (tkt_performance t)" if "t \<in> set (db_tickets s)" "?mine t" for t
    using inv that o' order_rows.keyed_inj [OF wk(2)] by (fastforce simp: sales_inv_def owned_def)
  have f: "map tkt_pk (db_tickets s1) = map tkt_pk (db_tickets s)" "map tkt_token (db_tickets s1) = map tkt_token (db_tickets s)"
    "map (\<lambda>t. (tkt_order t, tkt_performance t)) (db_tickets s1) = map (\<lambda>t. (tkt_order t, tkt_performance t)) (db_tickets s)"
    by (rule void_map_fields [OF ts], simp)+
  have "owned s1" using inv by (fastforce simp: sales_inv_def owned_def ts e(1))
  moreover have "codes_once s1" using inv by (simp add: sales_inv_def codes_once_def f(2) e(1))
  moreover have "keys_wf s1"
    using wk ticket_rows.update_keyed [of "\<lambda>t. t\<lparr>tkt_status := VOID\<rparr>" _ _ ?mine]
      alloc_keys [OF void_keys [OF v], of "db_next s" "db_next s"] inv
    by (simp add: keys_wf_def e(1,8) ts update_rows_def sales_inv_def)
  moreover have "seats_once s1" using void_once [OF _ ts] inv by (simp add: sales_inv_def)
  moreover have "holds_sane s1" using inv by (simp add: sales_inv_def holds_sane_def e(6))
  moreover have "ledger s1"
  proof -
    have count: "ga_live p s1 + length (filter (\<lambda>t. ga_ticket p t \<and> ?mine t) (db_tickets s)) = ga_live p s" for p
      unfolding ga_live_def ts by (rule count_voided) (simp add: ga_ticket_def live_def)
    let ?ga = "length (filter (\<lambda>t. tkt_seat t = None) (filter live (tickets_of o' s)))"
    have mine: "length (filter (\<lambda>t. ga_ticket p t \<and> ?mine t) (db_tickets s)) = (if order_performance o' = Some p then ?ga else 0)" for p
    proof -
      have "filter (\<lambda>t. ga_ticket p t \<and> ?mine t) (db_tickets s) =
          (if order_performance o' = Some p then filter (\<lambda>t. tkt_seat t = None) (filter live (tickets_of o' s)) else [])"
        unfolding tickets_of_def filter_filter using perf by (auto simp: ga_ticket_def filter_empty_conv intro!: filter_cong)
      then show ?thesis by simp
    qed
    have led: "ledger s" using inv by (simp add: sales_inv_def)
    show ?thesis
    proof (cases "?ga = 0 \<or> order_performance o' = None \<or> allocation_of (the (order_performance o')) s = None")
      case True
      then have al: "db_allocations s1 = db_allocations s"
        using v by (auto simp: void_order_def Let_def allocation_of_def split: if_splits option.splits)
      have "sold_right s1 a" if a: "a \<in> set (db_allocations s)" for a
      proof -
        have "\<not> (order_performance o' = Some (alloc_performance a) \<and> ?ga \<noteq> 0)"
          using True a by (auto simp: allocation_of_def filter_empty_conv)
        then have "ga_live (alloc_performance a) s1 = ga_live (alloc_performance a) s"
          using count [of "alloc_performance a"] mine [of "alloc_performance a"] by (auto split: if_splits)
        with led a show ?thesis by (auto simp: ledger_def sold_right_def)
      qed
      moreover have "counted s1"
      proof (rule counted_mono [of s])
        show "ga_live p s1 \<le> ga_live p s" for p using count [of p] by linarith
      qed (use led al in \<open>simp_all add: ledger_def\<close>)
      ultimately show ?thesis using led al by (simp add: ledger_def)
    next
      case False
      then obtain p a where p: "order_performance o' = Some p" and a: "allocation_of p s = Some a" and ga: "?ga \<noteq> 0" by auto
      have ne: "filter live (tickets_of o' s) \<noteq> []" using ga by (metis filter.simps(1) list.size(3))
      have c: "ga_live p s1 + ?ga = ga_live p s" using count [of p] mine [of p] p by simp
      have right: "alloc_sold a = int (ga_live p s)" "alloc_sold a \<le> alloc_capacity a"
        using led allocation_of_Some [OF a] by (auto simp: ledger_def sold_right_def)
      have al: "db_allocations s1 = update_rows (\<lambda>x. alloc_pk x = alloc_pk a)
          (\<lambda>x. x\<lparr>alloc_sold := max (alloc_sold a - int ?ga) 0\<rparr>) (db_allocations s)"
        using v ne ga p a by (auto simp: void_order_def Let_def allocation_of_def save_sold_def split: if_splits)
      have n: "max (alloc_sold a - int ?ga) 0 = int (ga_live p s1)" using right c by simp
      have le: "max (alloc_sold a - int ?ga) 0 \<le> alloc_capacity a" using right c by linarith
      have other: "ga_live q s1 = ga_live q s" if "q \<noteq> p" for q
        using count [of q] mine [of q] p that by simp
      show ?thesis by (rule ledger_change [OF led a le n other al])
    qed
  qed
  ultimately show ?thesis by (simp add: sales_inv_def)
qed

text \<open>A new status of an order, or a ticket used at the door.\<close>

lemma sales_order_status:
  assumes "sales_inv s" and "db_orders s' = update_rows P (\<lambda>x. x\<lparr>order_status := st\<rparr>) (db_orders s)"
    and "db_tickets s' = db_tickets s" "db_allocations s' = db_allocations s" "db_next s \<le> db_next s'" "db_holds s' = db_holds s"
  shows "sales_inv s'"
proof -
  have m: "map f (db_orders s') = map f (db_orders s)" if "\<And>x. f (x\<lparr>order_status := st\<rparr>) = f x" for f :: "order \<Rightarrow> 'b"
    using that by (simp add: assms(2) update_rows_def)
  have tok: "map order_token (db_orders s') = map order_token (db_orders s)" by (rule m) simp
  have "well_keyed order_pk (db_next s') (db_orders s')"
    unfolding assms(2) using assms(1,5)
    by (intro order_rows.update_keyed) (auto simp: sales_inv_def keys_wf_def intro: order_rows.keyed_mono)
  moreover have "well_keyed tkt_pk (db_next s') (db_tickets s)"
    using assms(1,5) by (auto simp: sales_inv_def keys_wf_def intro: ticket_rows.keyed_mono)
  moreover have "owned s'"
  proof -
    have "\<exists>y\<in>set (db_orders s'). order_pk y = order_pk x \<and> order_performance y = order_performance x"
      if "x \<in> set (db_orders s)" for x
      using that by (intro bexI [of _ "if P x then x\<lparr>order_status := st\<rparr> else x"]) (auto simp: assms(2) set_update_rows)
    with assms(1) show ?thesis unfolding sales_inv_def owned_def assms(3) by metis
  qed
  moreover have "ledger s' = ledger s" by (rule ledger_frame) (simp_all add: assms)
  moreover have "\<forall>a\<in>set (db_allocations s). alloc_pk a < db_next s'" using assms(1,5) by (fastforce simp: inv_defs)
  ultimately show ?thesis
    using assms(1) assms(4) by (simp add: sales_inv_def seats_once_def codes_once_def keys_wf_def holds_sane_def assms(3,6) tok)
qed

lemma sales_refund:
  assumes "refund_order stripe k s = Inr (b, s')" and "sales_inv s"
  shows "sales_inv s'"
proof -
  from assms(1) obtain o' where o': "get_row order_pk k (db_orders s) = Some o'" by (auto simp: refund_order_def)
  show ?thesis
  proof (cases "order_status o' = PAID")
    case False
    with assms o' show ?thesis by (simp add: refund_order_def)
  next
    case True
    with assms(1) o' obtain prov ref n s1 where v: "void_order o' s = Inr (n, s1)"
      and s': "s' = create_payment (payment_row o' prov (order_total o') ''refunded'' ref)
        (set_order_status REFUNDED o' (if sold_a_pass o' s
           then (snd (restore_redemptions_for_order o' s1))\<lparr>db_purchases :=
               update_rows (\<lambda>p. pp_order p = order_pk o') (\<lambda>p. p\<lparr>pp_status := PASS_REFUNDED\<rparr>)
                 (db_purchases (snd (restore_redemptions_for_order o' s1)))\<rparr>
           else snd (restore_redemptions_for_order o' s1)))"
      by (auto simp: refund_order_def Let_def)
    have s1: "sales_inv s1" by (rule sales_void [OF v assms(2)]) (use get_row_Some [OF o'] in simp)
    show ?thesis
      by (rule sales_order_status [OF s1]) (simp_all add: s' restore_effect create_payment_def set_order_status_def)
  qed
qed

lemma sales_cancel:
  assumes "order_cancel o' s = Inr (r, s')" and "sales_inv s" and "o' \<in> set (db_orders s)"
  shows "sales_inv s'"
proof (cases "order_status o' = CANCELLED \<or> order_status o' = REFUNDED")
  case True
  with assms show ?thesis by (auto simp: order_cancel_def)
next
  case False
  with assms(1) obtain n s1 where v: "void_order o' s = Inr (n, s1)"
    and s': "s' = set_order_status CANCELLED o' (snd (restore_redemptions_for_order o' s1))"
    by (auto simp: order_cancel_def)
  show ?thesis
    by (rule sales_order_status [OF sales_void [OF v assms(2,3)]]) (simp_all add: s' restore_effect set_order_status_def)
qed

section \<open>The door\<close>

text \<open>A scan marks a valid ticket used: it stays live, on its seat, under its code.\<close>

lemma live_marked: "tkt_status t = VALID \<Longrightarrow> live (mark_used now by t) = live t"
  by (simp add: live_def)

lemma sales_scan:
  assumes "redeem_ticket key org token sig by now s = (r, s')" and "sales_inv s"
  shows "sales_inv s'"
proof (cases "scan_ok r")
  case False
  with redeem_refused [OF assms(1)] assms(2) show ?thesis by simp
next
  case True
  with assms(1) obtain t p where "verify_ticket_sig key token sig org" and tt: "ticket_by_token org token s = Some (t, p)"
    and valid: "tkt_status t = VALID" and "door_open p now" and "scan_ticket r = Some (mark_used now by t)"
    and s': "s' = s\<lparr>db_tickets := update_rows (\<lambda>x. tkt_pk x = tkt_pk t) (mark_used now by) (db_tickets s)\<rparr>"
    by (rule redeem_ok)
  have t: "t \<in> set (db_tickets s)" by (rule ticket_by_token_Some [OF tt])
  have wk: "well_keyed tkt_pk (db_next s) (db_tickets s)" using assms(2) by (simp add: sales_inv_def keys_wf_def)
  let ?f = "\<lambda>x. if tkt_pk x = tkt_pk t then mark_used now by x else x"
  have same: "live (?f x) = live x" if "x \<in> set (db_tickets s)" for x
    using ticket_rows.keyed_inj [OF wk that t] live_marked [OF valid] by auto
  have m: "map f (db_tickets s') = map f (db_tickets s)" if "\<And>x. x \<in> set (db_tickets s) \<Longrightarrow> f (?f x) = f x" for f :: "ticket \<Rightarrow> 'b"
    using that by (simp add: s' update_rows_def)
  have toks: "map tkt_token (db_tickets s') = map tkt_token (db_tickets s)" by (rule m) simp
  have ga: "ga_live q s' = ga_live q s" for q
  proof -
    have "map (ga_ticket q) (db_tickets s') = map (ga_ticket q) (db_tickets s)"
      by (rule m) (use same in \<open>auto simp: ga_ticket_def\<close>)
    then show ?thesis unfolding ga_live_def by (rule length_filter_map)
  qed
  have "sorted_wrt (\<lambda>t u. \<not> same_live_seat t u) (db_tickets s)" using assms(2) by (simp add: sales_inv_def seats_once_def)
  then have "sorted_wrt (\<lambda>t u. \<not> same_live_seat (?f t) (?f u)) (db_tickets s)"
  proof (rule sorted_wrt_mono_rel [rotated])
    fix x y assume "x \<in> set (db_tickets s)" "y \<in> set (db_tickets s)" "\<not> same_live_seat x y"
    then show "\<not> same_live_seat (?f x) (?f y)" using same [of x] same [of y] by (auto simp: same_live_seat_def)
  qed
  then have "seats_once s'" by (simp add: s' seats_once_def update_rows_def sorted_wrt_map)
  moreover have "owned s'" using assms(2) by (auto simp: sales_inv_def owned_def s' set_update_rows)
  moreover have "keys_wf s'"
    using assms(2) ticket_rows.update_keyed [of "mark_used now by"] by (simp add: sales_inv_def keys_wf_def s')
  moreover have "ledger s'"
  proof -
    have "sold_right s' = sold_right s" by (simp add: sold_right_def fun_eq_iff ga)
    moreover have "counted s'" using assms(2) ga by (simp add: sales_inv_def ledger_def counted_def s')
    ultimately show ?thesis using assms(2) by (simp add: sales_inv_def ledger_def s')
  qed
  moreover have "codes_once s'" using assms(2) toks by (simp add: sales_inv_def codes_once_def s')
  ultimately show ?thesis using assms(2) by (simp add: sales_inv_def holds_sane_def s')
qed

section \<open>The cart\<close>

lemma sales_delete_holds:
  assumes "sales_inv s"
  shows "sales_inv (delete_holds P s)"
proof -
  have "holds_sane (delete_holds P s)"
    by (rule holds_sane_subset [of s]) (use assms in \<open>auto simp: sales_inv_def\<close>)
  then show ?thesis by (intro sales_frame [OF assms]) simp_all
qed

lemma sales_save_hold:
  assumes "sales_inv s" and "\<And>x. hold_quantity (f x) = hold_quantity x"
  shows "sales_inv (save_hold h f s)"
proof -
  have "holds_sane (save_hold h f s)"
    by (rule holds_sane_update [of s f _ "\<lambda>x. hold_pk x = hold_pk h"]) (use assms in \<open>simp_all add: sales_inv_def\<close>)
  then show ?thesis by (intro sales_frame [OF assms(1)]) (simp_all add: save_hold_def)
qed

lemma sales_cart_writes:
  assumes "sales_inv s"
  shows "sales_inv (release_hold org perf sk s)" "sales_inv (release_hold_by_id org sk hid s)"
    "sales_inv (release_expired_holds now s)" "sales_inv (remove_promo_code org sk hid s)"
    "sales_inv (clear_hold_donation org sk hid s)"
  using assms
  by (simp_all add: release_hold_def clear_session_hold_def release_hold_by_id_def release_expired_holds_def
      remove_promo_code_def clear_hold_donation_def clear_promo_def sales_delete_holds sales_save_hold split: option.split)

lemma sales_apply_promo: "apply_promo_code org sk hid code now s = Inr (h, s') \<Longrightarrow> sales_inv s \<Longrightarrow> sales_inv s'"
  by (erule apply_promo_Inr) (auto simp: snap_promo_def intro: sales_save_hold)

lemma sales_set_donation: "set_hold_donation org sk hid amount camp now s = Inr (h, s') \<Longrightarrow> sales_inv s \<Longrightarrow> sales_inv s'"
  by (erule set_donation_Inr) (auto intro: sales_save_hold)

lemma sales_set_ga_hold:
  assumes "set_ga_hold org perf sk u tier q now s = Inr (r, s')" and "sales_inv s"
  shows "sales_inv s'"
proof (cases "\<exists>n. q = Some n \<and> 0 < n")
  case False
  with assms(1) have "s' = clear_session_hold org perf sk s" by (auto simp: set_ga_hold_def split: option.splits if_splits)
  with assms(2) show ?thesis by (simp add: clear_session_hold_def sales_delete_holds)
next
  case True
  then obtain n where q: "q = Some n" "0 < n" by blast
  obtain h where h: "hold_quantity h = Some n"
    and s': "s' = (clear_session_hold org perf sk s)\<lparr>
        db_holds := delete_rows (session_hold org (perf_pk perf) sk) (db_holds s) @ [h], db_next := Suc (db_next s)\<rparr>"
    by (rule set_ga_hold_Inr [OF assms(1) [unfolded q(1)] q(2)], rule that [of "the r"]) simp_all
  have "holds_sane s'" using assms(2) h q(2) by (auto simp: s' sales_inv_def holds_sane_def)
  then show ?thesis by (intro sales_frame [OF assms(2)]) (simp_all add: s' clear_session_hold_def)
qed

lemma sales_set_reserved_hold:
  assumes "set_reserved_hold org perf sk u ids now s = Inr (r, s')" and "sales_inv s"
  shows "sales_inv s'"
proof (cases r)
  case None
  with assms(1) have "s' = clear_session_hold org perf sk s"
    by (auto simp: set_reserved_hold_def Let_def split: if_splits)
  with assms(2) show ?thesis by (simp add: clear_session_hold_def sales_delete_holds)
next
  case (Some h)
  note e = set_reserved_hold_Inr [OF assms(1) [unfolded Some]]
  have "holds_sane s'" using assms(2) by (auto simp: e(5) e(2) sales_inv_def holds_sane_def reserved_hold_def new_hold_def)
  then show ?thesis by (intro sales_frame [OF assms(2)]) (simp_all add: e(5) clear_session_hold_def)
qed

end
