(* ===== verification/BoxOffice.thy ===== *)
theory BoxOffice
  imports Webhook Ledger
begin

text \<open>
  The box office as one system: buyers' requests (orders, donations and passes), Stripe's webhook
  deliveries, the sweeper of expired holds, the door, and the back office's refunds and cancellations,
  in any order and at any time. The theorems say what no interleaving of them can break.
\<close>

section \<open>The system\<close>

text \<open>The routes of the storefront (orders/urls.py, donations/urls.py, passes/urls.py).\<close>

datatype storefront_route =
    PerformanceDetail nat | HoldCreate nat | CartView | CartRelease | PromoApply | PromoRemove | DonationAdd
  | DonationRemove | CheckoutView | CheckoutTest | CheckoutStub | CheckoutSuccess | CheckoutCancel
  | TicketDetail string | TicketDownload string | DonateRoute | DonateStubRoute | PassListRoute | PassDetailRoute nat
  | PassStubRoute | PassRedeemStart | PassRedeemExit | PassRedeem

fun dispatch :: "site_settings \<Rightarrow> storefront_route \<Rightarrow> handler" where
  "dispatch cfg (PerformanceDetail pk) = performance_detail pk"
| "dispatch cfg (HoldCreate pk) = hold_create pk"
| "dispatch cfg CartView = cart_view"
| "dispatch cfg CartRelease = cart_release"
| "dispatch cfg PromoApply = promo_apply"
| "dispatch cfg PromoRemove = promo_remove"
| "dispatch cfg DonationAdd = donation_add"
| "dispatch cfg DonationRemove = donation_remove"
| "dispatch cfg CheckoutView = checkout_view cfg"
| "dispatch cfg CheckoutTest = checkout_test cfg"
| "dispatch cfg CheckoutStub = checkout_stub"
| "dispatch cfg CheckoutSuccess = checkout_success"
| "dispatch cfg CheckoutCancel = checkout_cancel"
| "dispatch cfg (TicketDetail token) = ticket_detail token"
| "dispatch cfg (TicketDownload token) = ticket_pdf token"
| "dispatch cfg DonateRoute = donate cfg"
| "dispatch cfg DonateStubRoute = donate_stub"
| "dispatch cfg PassListRoute = pass_list"
| "dispatch cfg (PassDetailRoute pk) = pass_detail cfg pk"
| "dispatch cfg PassStubRoute = pass_stub"
| "dispatch cfg PassRedeemStart = pass_redeem_start"
| "dispatch cfg PassRedeemExit = pass_redeem_exit"
| "dispatch cfg PassRedeem = pass_redeem"

record house =
  clock :: time
  visitors :: "string \<Rightarrow> visitor"
  store :: db

text \<open>What the world answers: the site's settings, Stripe's refunds and event signatures, whether a receipt's mail goes out, the secrets.\<close>

record outside =
  out_settings :: site_settings
  out_refund :: "string \<Rightarrow> string \<Rightarrow> string option"
  out_events :: "string \<Rightarrow> string \<Rightarrow> string \<Rightarrow> time \<Rightarrow> stripe_event option"
  out_mail :: "order \<Rightarrow> db \<Rightarrow> bool"
  out_webhook_secret :: string
  out_secret_key :: string

inductive house_step :: "outside \<Rightarrow> house \<Rightarrow> house \<Rightarrow> bool" for w where
  tick: "clock h \<le> t \<Longrightarrow> house_step w h (h\<lparr>clock := t\<rparr>)"
| buyer: "dispatch (out_settings w) a rq (clock h) (visitors h k) (store h) = (r, v, s) \<Longrightarrow>
    house_step w h (h\<lparr>visitors := (visitors h)(k := v), store := s\<rparr>)"
| stripe: "stripe_webhook (out_events w) (out_mail w) (out_webhook_secret w) payload sig (clock h) (store h) = Inr (a, s) \<Longrightarrow>
    house_step w h (h\<lparr>store := s\<rparr>)"
| sweep: "house_step w h (h\<lparr>store := release_expired_holds (clock h) (store h)\<rparr>)"
| door: "redeem_ticket (out_secret_key w) org token sig by (clock h) (store h) = (r, s) \<Longrightarrow>
    house_step w h (h\<lparr>store := s\<rparr>)"
| refund: "refund_order (out_refund w) k (store h) = Inr (b, s) \<Longrightarrow> house_step w h (h\<lparr>store := s\<rparr>)"
| cancel: "get_row order_pk k (db_orders (store h)) = Some o' \<Longrightarrow> order_cancel o' (store h) = Inr (n, s) \<Longrightarrow>
    house_step w h (h\<lparr>store := s\<rparr>)"

inductive_cases house_stepE: "house_step w h h'"

text \<open>The opening state: a catalogue and nothing sold, keys below the next one.\<close>

definition opening_night :: "house \<Rightarrow> bool" where
  "opening_night h \<longleftrightarrow> db_tickets (store h) = [] \<and> db_orders (store h) = [] \<and> db_holds (store h) = [] \<and>
     db_hold_seats (store h) = [] \<and>
     distinct (map alloc_pk (db_allocations (store h))) \<and> distinct (map alloc_performance (db_allocations (store h))) \<and>
     (\<forall>a\<in>set (db_allocations (store h)). alloc_sold a = 0 \<and> 0 \<le> alloc_capacity a \<and> alloc_pk a < db_next (store h))"

section \<open>Transactions\<close>

text \<open>Every request, delivery or back-office action runs at most one of the transactions of the services.\<close>

inductive transaction :: "time \<Rightarrow> db \<Rightarrow> db \<Rightarrow> bool" for now where
  quiet: "transaction now s s"
| ga_held: "set_ga_hold org perf sk u tier q now s = Inr (r, s') \<Longrightarrow> transaction now s s'"
| seats_held: "set_reserved_hold org perf sk u ids now s = Inr (r, s') \<Longrightarrow> transaction now s s'"
| dropped: "transaction now s (delete_holds P s)"
| repriced: "money_only f \<Longrightarrow> transaction now s (save_hold x f s)"
| funded: "get_or_create_general_fund org now s = (c, s1) \<Longrightarrow>
    s' = s1 \<or> (\<exists>x f. money_only f \<and> s' = save_hold x f s1) \<Longrightarrow> transaction now s s'"
| paid: "fulfill_hold x e n ref prov sid opt now s = Inr (o', s') \<Longrightarrow> x \<in> set (db_holds s) \<Longrightarrow> transaction now s s'"
| redeemed: "fulfill_hold_with_pass x k e n opt now s = Inr (o', s') \<Longrightarrow> x \<in> set (db_holds s) \<Longrightarrow> transaction now s s'"
| given: "fulfill_donation org a camp e n prov ref sid opt now s = Inr (o', s') \<Longrightarrow> transaction now s s'"
| pass_sold: "fulfill_pass_purchase org p e n prov ref sid opt now s = Inr (o', s') \<Longrightarrow> transaction now s s'"
| connected: "keeps_account f \<Longrightarrow> transaction now s (save_org g f s)"
| scanned: "redeem_ticket key org token sig by now s = (r, s') \<Longrightarrow> transaction now s s'"
| refunded: "refund_order stripe k s = Inr (b, s') \<Longrightarrow> transaction now s s'"
| cancelled: "get_row order_pk k (db_orders s) = Some o' \<Longrightarrow> order_cancel o' s = Inr (m, s') \<Longrightarrow> transaction now s s'"

lemma after_selection_store:
  "after_selection rq p v s outcome = (r, v', s') \<Longrightarrow> s' = s \<or> (\<exists>h. outcome = Inr (h, s'))"
  by (auto simp: after_selection_def Let_def split: sum.splits error.splits)

lemma pay_hold_store:
  "pay_hold prov h e rq now v s = (r, v', s') \<Longrightarrow> s' = s \<or>
     (\<exists>o'. fulfill_hold h e (post_text rq ''buyer_name'') (prov @ ''-'' @ rq_uuid rq) prov None (marketing_opt_in rq) now s = Inr (o', s'))"
  by (auto simp: pay_hold_def split: sum.splits error.splits)

lemma give_store:
  "give prov c a e rq now v s = (r, v', s') \<Longrightarrow> s' = s \<or>
     (\<exists>o'. fulfill_donation (org_pk (rq_org rq)) a (Some (camp_pk c)) e (post_text rq ''buyer_name'') prov
        (prov @ ''-'' @ rq_uuid rq) None (marketing_opt_in rq) now s = Inr (o', s'))"
  by (auto simp: give_def split: sum.splits)

lemma buy_pass_store:
  "buy_pass prov p e rq now v s = (r, v', s') \<Longrightarrow> s' = s \<or>
     (\<exists>o'. fulfill_pass_purchase (org_pk (rq_org rq)) p e (post_text rq ''buyer_name'') prov
        (prov @ ''-'' @ rq_uuid rq) None (marketing_opt_in rq) now s = Inr (o', s'))"
  by (auto simp: buy_pass_def split: sum.splits)

lemma own_hold_mem: "own_hold val rq now v s = Inr (Some h) \<Longrightarrow> h \<in> set (db_holds s)"
  by (auto simp: own_hold_def dest: active_cart_Some)

lemma with_hold_store:
  assumes "with_hold found v s k = (r, v', s')"
  shows "s' = s \<or> (\<exists>h. found = Inr (Some h) \<and> k h = (r, v', s'))"
  using assms by (auto simp: with_hold_def split: sum.splits option.splits)

lemma rendered_store: "rendered v s p = (r, v', s') \<Longrightarrow> s' = s"
  by (auto simp: rendered_def split: sum.splits)

text \<open>The handlers that only show something.\<close>

lemma read_only:
  "performance_detail pk rq now v s = (r, v', s') \<Longrightarrow> s' = s"
  "cart_view rq now v s = (r, v', s') \<Longrightarrow> s' = s"
  "checkout_view cfg rq now v s = (r, v', s') \<Longrightarrow> s' = s"
  "checkout_success rq now v s = (r, v', s') \<Longrightarrow> s' = s"
  "checkout_cancel rq now v s = (r, v', s') \<Longrightarrow> s' = s"
  "ticket_detail token rq now v s = (r, v', s') \<Longrightarrow> s' = s"
  "ticket_pdf token rq now v s = (r, v', s') \<Longrightarrow> s' = s"
  "pass_list rq now v s = (r, v', s') \<Longrightarrow> s' = s"
  "pass_redeem_start rq now v s = (r, v', s') \<Longrightarrow> s' = s"
  "pass_redeem_exit rq now v s = (r, v', s') \<Longrightarrow> s' = s"
  by (auto simp: performance_detail_def cart_view_def checkout_view_def checkout_success_def checkout_cancel_def
      ticket_detail_def ticket_pdf_def pass_list_def pass_redeem_start_def pass_redeem_exit_def Let_def with_hold_def
      dest!: rendered_store split: if_splits option.splits sum.splits error.splits prod.splits)

text \<open>The handlers that write.\<close>

lemma hold_create_transaction:
  assumes "hold_create pk rq now v s = (r, v', s')"
  shows "transaction now s s'"
proof (cases "performance_in (org_pk (rq_org rq)) pk s")
  case None
  with assms show ?thesis by (simp add: hold_create_def quiet)
next
  case (Some p)
  have sel: "transaction now s s'" if "after_selection rq p v s outcome = (r, v', s')"
    and "\<And>h x. outcome = Inr (h, x) \<Longrightarrow> transaction now s x" for outcome
    using after_selection_store [OF that(1)] that(2) quiet by blast
  show ?thesis
  proof (cases "perf_seating_mode p")
    case GA
    show ?thesis
    proof (cases "parse_int (rq_post rq ''quantity'') 0 \<le> 0")
      case True
      with assms Some GA have "after_selection rq p v s (Inr (None, clear_session_hold (org_pk (rq_org rq)) p (vs_key v) s)) = (r, v', s')"
        by (simp add: hold_create_def)
      then show ?thesis by (rule sel) (auto simp: clear_session_hold_def intro: dropped)
    next
      case False
      with assms Some GA consider "s' = s" | tier q where
          "after_selection rq p v s (set_ga_hold (org_pk (rq_org rq)) p (vs_key v) (rq_user rq) tier (Some q) now s) = (r, v', s')"
        by (auto simp: hold_create_def Let_def split: sum.splits option.splits)
      then show ?thesis
      proof cases
        case 1
        then show ?thesis by (simp add: quiet)
      next
        case 2
        then show ?thesis by (rule sel) (rule ga_held)
      qed
    qed
  next
    case RESERVED
    with assms Some have "after_selection rq p v s (set_reserved_hold (org_pk (rq_org rq)) p (vs_key v) (rq_user rq)
        (seat_ids_of (rq_seat_ids rq)) now s) = (r, v', s')"
      by (simp add: hold_create_def)
    then show ?thesis by (rule sel) (rule seats_held)
  qed
qed

lemma cart_transactions:
  "cart_release rq now v s = (r, v', s') \<Longrightarrow> transaction now s s'"
  "promo_apply rq now v s = (r, v', s') \<Longrightarrow> transaction now s s'"
  "promo_remove rq now v s = (r, v', s') \<Longrightarrow> transaction now s s'"
  "donation_add rq now v s = (r, v', s') \<Longrightarrow> transaction now s s'"
  "donation_remove rq now v s = (r, v', s') \<Longrightarrow> transaction now s s'"
proof -
  show "cart_release rq now v s = (r, v', s') \<Longrightarrow> transaction now s s'"
    by (auto simp: cart_release_def release_hold_by_id_def Let_def intro: quiet dropped split: if_splits sum.splits option.splits)
  show "promo_apply rq now v s = (r, v', s') \<Longrightarrow> transaction now s s'"
    by (auto simp: promo_apply_def elim!: apply_promo_Inr intro: quiet repriced split: sum.splits error.splits)
  show "promo_remove rq now v s = (r, v', s') \<Longrightarrow> transaction now s s'"
    "donation_remove rq now v s = (r, v', s') \<Longrightarrow> transaction now s s'"
    by (auto simp: promo_remove_def donation_remove_def remove_promo_code_def clear_hold_donation_def
        intro: quiet repriced split: option.splits)
  assume d: "donation_add rq now v s = (r, v', s')"
  obtain c s1 where f: "get_or_create_general_fund (org_pk (rq_org rq)) now s = (c, s1)"
    by (cases "get_or_create_general_fund (org_pk (rq_org rq)) now s")
  from d f consider "s' = s1" | h where "set_hold_donation (org_pk (rq_org rq)) (vs_key v)
      (posted_key (rq_post rq ''hold_id'')) (or_blank (rq_post rq ''amount'')) (Some (camp_pk c)) now s1 = Inr (h, s')"
    by (auto simp: donation_add_def split: sum.splits error.splits)
  then have "s' = s1 \<or> (\<exists>x g. money_only g \<and> s' = save_hold x g s1)"
    by cases (auto elim!: set_donation_Inr intro: money_only_snaps(3))
  then show "transaction now s s'" by (rule funded [OF f])
qed

lemma payment_transactions:
  "checkout_test cfg rq now v s = (r, v', s') \<Longrightarrow> transaction now s s'"
  "checkout_stub rq now v s = (r, v', s') \<Longrightarrow> transaction now s s'"
  "donate cfg rq now v s = (r, v', s') \<Longrightarrow> transaction now s s'"
  "donate_stub rq now v s = (r, v', s') \<Longrightarrow> transaction now s s'"
  "pass_detail cfg pk rq now v s = (r, v', s') \<Longrightarrow> transaction now s s'"
  "pass_stub rq now v s = (r, v', s') \<Longrightarrow> transaction now s s'"
proof -
  have pay: "transaction now s s'" if "pay_hold prov h e rq now v s = (r, v', s')" "h \<in> set (db_holds s)" for prov h e
    using pay_hold_store [OF that(1)] that(2) quiet paid by blast
  have gift: "transaction now s s'" if "give prov c a e rq now v s = (r, v', s')" for prov c a e
    using give_store [OF that] quiet given by blast
  have buy: "transaction now s s'" if "buy_pass prov p e rq now v s = (r, v', s')" for prov p e
    using buy_pass_store [OF that] quiet pass_sold by blast
  show "checkout_test cfg rq now v s = (r, v', s') \<Longrightarrow> transaction now s s'"
    by (auto simp: checkout_test_def quiet split: if_splits dest!: with_hold_store own_hold_mem intro: pay)
  show "checkout_stub rq now v s = (r, v', s') \<Longrightarrow> transaction now s s'"
    by (auto simp: checkout_stub_def quiet split: if_splits dest!: with_hold_store rendered_store own_hold_mem intro: pay)
  show "donate cfg rq now v s = (r, v', s') \<Longrightarrow> transaction now s s'"
    by (auto simp: donate_def with_campaign_def quiet Let_def split: if_splits option.splits sum.splits intro: gift)
  show "donate_stub rq now v s = (r, v', s') \<Longrightarrow> transaction now s s'"
    by (auto simp: donate_stub_def with_campaign_def quiet Let_def split: if_splits option.splits sum.splits intro: gift)
  show "pass_detail cfg pk rq now v s = (r, v', s') \<Longrightarrow> transaction now s s'"
    by (auto simp: pass_detail_def quiet Let_def split: if_splits option.splits intro: buy)
  show "pass_stub rq now v s = (r, v', s') \<Longrightarrow> transaction now s s'"
    by (auto simp: pass_stub_def quiet Let_def split: if_splits option.splits sum.splits intro: buy)
qed

lemma pass_redeem_transaction:
  assumes "pass_redeem rq now v s = (r, v', s')"
  shows "transaction now s s'"
proof -
  obtain g v1 where g: "current_guest rq v s = (g, v1)" by (cases "current_guest rq v s")
  show ?thesis
  proof (cases g)
    case None
    with assms g show ?thesis by (simp add: pass_redeem_def quiet)
  next
    case (Some x)
    let ?own = "own_hold (rq_post rq ''hold_id'') rq now v1 s"
    show ?thesis
    proof (cases "\<exists>h. ?own = Inr (Some h)")
      case False
      with assms g Some show ?thesis by (auto simp: pass_redeem_def with_hold_def quiet split: sum.splits option.splits)
    next
      case True
      then obtain h where own: "?own = Inr (Some h)" by blast
      let ?pp = "case vs_redeeming v1 of None \<Rightarrow> None
        | Some k \<Rightarrow> if k = 0 then None else pass_of_guest (org_pk (rq_org rq)) x (Some k) s"
      show ?thesis
      proof (cases ?pp)
        case None
        with assms g Some own show ?thesis by (auto simp: pass_redeem_def with_hold_def quiet)
      next
        case pp: (Some pp)
        let ?f = "fulfill_hold_with_pass h (pp_pk pp) (guest_email x) (guest_name x) False now s"
        have "s' = s \<or> (\<exists>o'. ?f = Inr (o', s'))"
          using assms g Some own pp
          by (auto simp: pass_redeem_def with_hold_def split: sum.splits error.splits fulfillment_error.splits)
        then show ?thesis using quiet redeemed [OF _ own_hold_mem [OF own]] by blast
      qed
    qed
  qed
qed

lemma dispatch_transaction:
  assumes "dispatch cfg a rq now v s = (r, v', s')"
  shows "transaction now s s'"
  using assms
  by (cases a) (auto dest!: read_only intro: quiet hold_create_transaction cart_transactions payment_transactions pass_redeem_transaction)

lemma webhook_transaction:
  assumes "stripe_webhook ev mail secret payload sig now s = Inr (a, s')"
  shows "transaction now s s'"
proof -
  have org: "transaction now s (snd (apply_account_status g acc s))" for g acc
    using apply_account_status_save [of g acc s] quiet connected by metis
  have session: "transaction now s s'" if f: "fulfill_checkout_session g ss now s = Inr (o', c, s')" for g ss o' c s'
    using f
  proof (cases rule: checkout_session_cases)
    case (hold h opt)
    then show ?thesis by (intro paid)
  next
    case (gift a camp opt)
    show ?thesis by (rule given [OF gift(3)])
  next
    case (pass p opt)
    show ?thesis by (rule pass_sold [OF pass(3)])
  qed (simp add: quiet)
  show ?thesis
    using assms
    by (auto simp: stripe_webhook_def quiet org split: if_splits option.splits stripe_event.splits sum.splits error.splits
        intro: session)
qed

lemma step_transaction: "house_step w h h' \<Longrightarrow> transaction (clock h) (store h) (store h')"
  by (erule house_stepE)
    (auto simp: release_expired_holds_def intro: quiet dispatch_transaction webhook_transaction dropped scanned refunded cancelled)

section \<open>Every transaction keeps the ledger\<close>

lemma general_fund_frame:
  assumes "get_or_create_general_fund org now s = (c, s')" and "sales_inv s"
  shows "sales_inv s'"
proof -
  have f: "db_tickets s' = db_tickets s" "db_allocations s' = db_allocations s" "db_orders s' = db_orders s"
    "db_next s \<le> db_next s'" "db_holds s' = db_holds s"
    using assms(1) by (auto simp: get_or_create_general_fund_def Let_def split: option.splits)
  from assms(2) have "holds_sane s'" by (simp add: sales_inv_def holds_sane_def f)
  then show ?thesis by (rule sales_frame [OF assms(2) f(1-4)])
qed

lemma sales_transaction:
  assumes "transaction now s s'" and "sales_inv s"
  shows "sales_inv s'"
  using assms
proof cases
  case (repriced f x)
  then show ?thesis using sales_save_hold [OF assms(2)] by (simp add: money_only_def)
next
  case (funded org c s1)
  then show ?thesis using sales_save_hold general_fund_frame [OF funded(1) assms(2)] by (auto simp: money_only_def)
next
  case (connected g f)
  show ?thesis by (rule sales_frame [OF assms(2)]) (use assms(2) connected in \<open>simp_all add: sales_inv_def holds_sane_def\<close>)
next
  case (given org a camp e n prov ref sid opt o')
  then show ?thesis using sales_fulfill_donation assms(2) by blast
next
  case (pass_sold org p e n prov ref sid opt o')
  then show ?thesis using sales_fulfill_pass assms(2) by blast
qed (auto dest: sales_set_ga_hold sales_set_reserved_hold sales_fulfill_hold sales_fulfill_with_pass sales_scan
    sales_refund sales_cancel get_row_Some intro: sales_delete_holds)

lemma sales_step: "house_step w h h' \<Longrightarrow> sales_inv (store h) \<Longrightarrow> sales_inv (store h')"
  using step_transaction sales_transaction by blast

lemma sales_opening: "opening_night h \<Longrightarrow> sales_inv (store h)"
  by (simp add: opening_night_def sales_inv_def ledger_def counted_def sold_right_def ga_live_def seats_once_def codes_once_def
      owned_def keys_wf_def holds_sane_def well_keyed_def)

interpretation sales: inductive_invariant opening_night "house_step w" "\<lambda>h. sales_inv (store h)" for w
  by unfold_locales (auto intro: sales_opening sales_step)

end
