(* ===== verification/Inventory.thy ===== *)
theory Inventory
  imports BoxOffice
begin

text \<open>
  What the box office promises, proved of every state its requests can reach: it never oversells a
  room, never sells a seat twice, refines an abstract book of sold seats, and no cart outlives its ten
  minutes (theory BackOffice concludes that an abandoned cart never costs a sale).
\<close>

section \<open>The book of seats\<close>

text \<open>The abstract state: who a seat of a performance is sold to, as an order's key.\<close>

type_synonym book = "nat \<times> nat \<Rightarrow> nat option"

definition sold_to :: "db \<Rightarrow> book" where
  "sold_to s x = map_option tkt_order (first_row (filter (\<lambda>t. live t \<and> tkt_performance t = fst x \<and>
     tkt_seat t = Some (snd x)) (db_tickets s)))"

text \<open>A transaction leaves the book, sells free seats to one new order, or takes back all of one order's.\<close>

inductive book_step :: "book \<Rightarrow> book \<Rightarrow> bool" where
  unchanged: "book_step B B"
| sell: "k \<notin> ran B \<Longrightarrow> X \<inter> dom B = {} \<Longrightarrow> book_step B (\<lambda>x. if x \<in> X then Some k else B x)"
| take_back: "book_step B (\<lambda>x. if B x = Some k then None else B x)"

lemma first_filter_none: "\<forall>x\<in>set xs. \<not> P x \<Longrightarrow> first_row (filter P xs @ ys) = first_row ys"
  by (induction xs) auto

lemma sold_to_tickets: "db_tickets s' = db_tickets s \<Longrightarrow> sold_to s' = sold_to s"
  by (simp add: sold_to_def fun_eq_iff)

lemma sold_to_order:
  "sold_to s x = Some k \<Longrightarrow> \<exists>t\<in>set (db_tickets s). live t \<and> tkt_performance t = fst x \<and> tkt_seat t = Some (snd x) \<and> tkt_order t = k"
  by (auto simp: sold_to_def dest!: first_row_Some)

lemma sold_to_None: "sold_to s x = None \<longleftrightarrow> (\<forall>t\<in>set (db_tickets s). \<not> (live t \<and> tkt_performance t = fst x \<and> tkt_seat t = Some (snd x)))"
  by (auto simp: sold_to_def filter_empty_conv)

text \<open>Live tickets with one seat are one ticket.\<close>

lemma sold_to_live:
  assumes "seats_once s" and "t \<in> set (db_tickets s)" "live t" "tkt_performance t = p" "tkt_seat t = Some k"
  shows "sold_to s (p, k) = Some (tkt_order t)"
proof -
  let ?P = "\<lambda>t. live t \<and> tkt_performance t = p \<and> tkt_seat t = Some k"
  obtain xs ys where split: "db_tickets s = xs @ t # ys" using assms(2) by (meson split_list)
  have "\<not> ?P u" if "u \<in> set xs" for u
    using assms that split by (auto simp: seats_once_def sorted_wrt_append same_live_seat_def)
  then have "filter ?P xs = []" by (auto simp: filter_empty_conv)
  with assms(3-5) show ?thesis by (simp add: sold_to_def split)
qed

lemma book_mint:
  assumes "db_tickets s' = db_tickets s @ ts" and "\<forall>t\<in>set ts. live t \<and> tkt_order t = k"
    and "\<forall>t\<in>set (db_tickets s). tkt_order t \<noteq> k" and "seats_once s'"
  shows "book_step (sold_to s) (sold_to s')"
proof -
  let ?X = "{(tkt_performance t, q) | t q. t \<in> set ts \<and> tkt_seat t = Some q}"
  have fresh: "k \<notin> ran (sold_to s)" using assms(3) by (auto simp: ran_def dest!: sold_to_order)
  have dom: "?X \<inter> dom (sold_to s) = {}"
  proof -
    have "sold_to s (tkt_performance t, q) = None" if "t \<in> set ts" "tkt_seat t = Some q" for t q
    proof (rule ccontr)
      assume "sold_to s (tkt_performance t, q) \<noteq> None"
      then obtain u where u: "u \<in> set (db_tickets s)" "live u" "tkt_performance u = tkt_performance t" "tkt_seat u = Some q"
        by (auto simp: sold_to_None)
      with assms(1,4) that(1) have "\<not> same_live_seat u t" by (simp add: seats_once_def sorted_wrt_append)
      with u that assms(2) show False by (simp add: same_live_seat_def)
    qed
    then show ?thesis by fastforce
  qed
  have eq: "sold_to s' = (\<lambda>x. if x \<in> ?X then Some k else sold_to s x)"
  proof
    fix x
    show "sold_to s' x = (if x \<in> ?X then Some k else sold_to s x)"
    proof (cases "x \<in> ?X")
      case True
      then obtain t q where t: "x = (tkt_performance t, q)" "t \<in> set ts" "tkt_seat t = Some q" by blast
      have "sold_to s' x = Some (tkt_order t)"
        unfolding t(1) by (rule sold_to_live [OF assms(4)]) (use t assms(1,2) in auto)
      with True t assms(2) show ?thesis by auto
    next
      case False
      then have "filter (\<lambda>t. live t \<and> tkt_performance t = fst x \<and> tkt_seat t = Some (snd x)) ts = []"
        by (cases x) (auto simp: filter_empty_conv)
      then have "sold_to s' x = sold_to s x" by (simp add: sold_to_def assms(1))
      then show ?thesis unfolding if_not_P [OF False] .
    qed
  qed
  show ?thesis unfolding eq by (rule sell [OF fresh dom])
qed

lemma book_void:
  assumes "db_tickets s' = map (\<lambda>t. if tkt_order t = k then t\<lparr>tkt_status := VOID\<rparr> else t) (db_tickets s)" and "seats_once s"
  shows "book_step (sold_to s) (sold_to s')"
proof -
  have "sold_to s' x = (if sold_to s x = Some k then None else sold_to s x)" for x
  proof (cases "sold_to s x")
    case None
    then have "sold_to s' x = None" by (auto simp: sold_to_None assms(1) live_def)
    with None show ?thesis by simp
  next
    case (Some j)
    then obtain t where t: "t \<in> set (db_tickets s)" "live t" "tkt_performance t = fst x" "tkt_seat t = Some (snd x)" "tkt_order t = j"
      using sold_to_order by blast
    have one: "tkt_order u = j" if "u \<in> set (db_tickets s)" "live u" "tkt_performance u = fst x" "tkt_seat u = Some (snd x)" for u
      using sold_to_live [OF assms(2) that] Some by simp
    show ?thesis
    proof (cases "j = k")
      case True
      have "sold_to s' x = None"
        using one True by (auto simp: sold_to_None assms(1) live_def split: if_splits)
      with True Some show ?thesis by simp
    next
      case False
      have "t \<in> set (db_tickets s')" using t False by (force simp: assms(1))
      then have "sold_to s' (fst x, snd x) = Some (tkt_order t)"
        using void_once [OF assms(2,1)] t by (intro sold_to_live)
      with False Some t(5) show ?thesis by simp
    qed
  qed
  then have "sold_to s' = (\<lambda>x. if sold_to s x = Some k then None else sold_to s x)" by blast
  then show ?thesis by (metis take_back)
qed

lemma inventory_tickets:
  assumes "fulfill_inventory h o' s = Inr s'"
  obtains ts where "db_tickets s' = db_tickets s @ ts" "\<forall>t\<in>set ts. live t \<and> tkt_order t = order_pk o'"
proof -
  from assms obtain s1 where ap: "appended s (inventory_items h o' s) (map (new_ticket h o') (inventory_seats h s)) s1"
    and s': "s' = s1\<lparr>db_allocations := db_allocations s'\<rparr>"
    by (rule inventory_split)
  from ap obtain is' ts where "db_items s1 = db_items s @ is'" "map plain_item is' = map plain_item (inventory_items h o' s)"
    and ts: "db_tickets s1 = db_tickets s @ ts" "map plain_ticket ts = map plain_ticket (map (new_ticket h o') (inventory_seats h s))"
    by (rule appended_rows)
  have "db_tickets s' = db_tickets s @ ts" by (subst s', simp add: ts(1))
  moreover have "\<forall>t\<in>set ts. live t \<and> tkt_order t = order_pk o'"
    by (rule plain_ticket_all [OF ts(2)]) (auto simp: plain_ticket_def new_ticket_def live_def)
  ultimately show thesis by (rule that)
qed

lemma old_orders:
  assumes "sales_inv s" and "t \<in> set (db_tickets s)"
  shows "tkt_order t < db_next s"
  using assms by (fastforce simp: sales_inv_def owned_def keys_wf_def well_keyed_def)

lemma book_paid:
  assumes "fulfill_hold x e n ref prov sid opt now s = Inr (o', s')" and "sales_inv s" and "seats_once s'"
  shows "book_step (sold_to s) (sold_to s')"
proof -
  from assms(1) obtain t g s1 s2 s3 where g: "attach_guest (hold_organization x) e n opt now s = (g, s1)"
    and o': "o' = (paid_order (hold_organization x) (Some (hold_performance x)) e n g t sid)
       \<lparr>order_promo_code_text := hold_promo_code_text x, order_discount_amount := hold_discount x,
        order_pk := db_next s1, order_token := db_entropy s1 (db_next s1)\<rparr>"
    and s2: "s2 = s1\<lparr>db_orders := db_orders s1 @ [o'], db_next := Suc (db_next s1)\<rparr>"
    and inv: "fulfill_inventory x o' s2 = Inr s3" and s': "s' = finish_hold x o' t prov ref s3"
    by (rule fulfill_hold_Inr)
  have t1: "db_tickets s1 = db_tickets s" by (rule attach_guest_obs [OF g]) simp
  from inv obtain ts where ts: "db_tickets s3 = db_tickets s2 @ ts" "\<forall>t\<in>set ts. live t \<and> tkt_order t = order_pk o'"
    by (rule inventory_tickets)
  have "db_next s \<le> db_next s1" using attach_guest_frame [OF g] by blast
  then have "\<forall>t\<in>set (db_tickets s). tkt_order t \<noteq> order_pk o'" using old_orders [OF assms(2)] by (fastforce simp: o')
  then show ?thesis by (intro book_mint [OF _ ts(2) _ assms(3)]) (simp_all add: s' finish_hold_effect ts(1) s2 t1)
qed

lemma book_redeemed:
  assumes "fulfill_hold_with_pass x k e n opt now s = Inr (o', s')" and "sales_inv s" and "seats_once s'"
  shows "book_step (sold_to s) (sold_to s')"
proof -
  from assms(1) obtain pp perf g s1 s2 s3 s4 where
    s1: "s1 = s\<lparr>db_guests := db_guests s1, db_next := db_next s1\<rparr>" "db_next s \<le> db_next s1"
    and c: "create_order (paid_order (hold_organization x) (Some (hold_performance x)) e n g 0 None) s1 = Inr (o', s2)"
    and inv: "fulfill_inventory x o' s2 = Inr s3"
    and r: "create_redemptions (map (redemption_row x pp o' perf s3) (tickets_of o' s3)) s3 = Inr s4"
    and s': "s' = delete_holds (\<lambda>y. hold_pk y = hold_pk x)
       (create_payment (payment_row o' ''pass'' 0 ''succeeded'' (''pass-'' @ show_nat (pp_pk pp)))
         (if pp_kind pp = FLEX
          then s4\<lparr>db_purchases := update_rows (\<lambda>y. pp_pk y = pp_pk pp) (\<lambda>_. burn_credits (ticket_count x s) pp) (db_purchases s4)\<rparr>
          else s4))"
    by (rule fulfill_with_pass_create)
  have t1: "db_tickets s1 = db_tickets s" by (subst s1(1), simp)
  note o' = create_order_effect [OF c]
  from inv obtain ts where ts: "db_tickets s3 = db_tickets s2 @ ts" "\<forall>t\<in>set ts. live t \<and> tkt_order t = order_pk o'"
    by (rule inventory_tickets)
  from stamp_redemptions [OF r] have t4: "db_tickets s4 = db_tickets s3" by auto
  have "\<forall>t\<in>set (db_tickets s). tkt_order t \<noteq> order_pk o'" using old_orders [OF assms(2)] s1(2) by (fastforce simp: o'(1))
  then show ?thesis by (intro book_mint [OF _ ts(2) _ assms(3)]) (simp_all add: s' create_payment_def t4 ts(1) o'(2) t1)
qed

lemma book_voided:
  assumes "void_order o' s = Inr (n, s1)" and "sales_inv s" and "db_tickets s' = db_tickets s1"
  shows "book_step (sold_to s) (sold_to s')"
  using book_void [of s' "order_pk o'" s] void_order_tickets [OF assms(1)] assms(2,3) by (auto simp: sales_inv_def keys_wf_def)

lemma book_refund:
  assumes "refund_order stripe k s = Inr (b, s')" and "sales_inv s"
  shows "book_step (sold_to s) (sold_to s')"
proof -
  from assms(1) obtain o' where o': "get_row order_pk k (db_orders s) = Some o'" by (auto simp: refund_order_def)
  show ?thesis
  proof (cases "order_status o' = PAID")
    case False
    with assms o' show ?thesis by (simp add: refund_order_def unchanged)
  next
    case True
    with assms(1) o' obtain n s1 where v: "void_order o' s = Inr (n, s1)" and t: "db_tickets s' = db_tickets s1"
      by (auto simp: refund_order_def Let_def restore_effect create_payment_def set_order_status_def)
    show ?thesis by (rule book_voided [OF v assms(2) t])
  qed
qed

lemma book_cancel:
  assumes "order_cancel o' s = Inr (m, s')" and "sales_inv s"
  shows "book_step (sold_to s) (sold_to s')"
proof (cases "order_status o' = CANCELLED \<or> order_status o' = REFUNDED")
  case True
  with assms show ?thesis by (auto simp: order_cancel_def unchanged)
next
  case False
  with assms(1) obtain n s1 where v: "void_order o' s = Inr (n, s1)" and t: "db_tickets s' = db_tickets s1"
    by (auto simp: order_cancel_def restore_effect set_order_status_def)
  show ?thesis by (rule book_voided [OF v assms(2) t])
qed

lemma book_scan:
  assumes "redeem_ticket key org token sig by now s = (r, s')" and "sales_inv s"
  shows "sold_to s' = sold_to s"
proof (cases "scan_ok r")
  case False
  with redeem_refused [OF assms(1)] show ?thesis by simp
next
  case True
  with assms(1) obtain t p where "verify_ticket_sig key token sig org" and tt: "ticket_by_token org token s = Some (t, p)"
    and valid: "tkt_status t = VALID" and "door_open p now" and "scan_ticket r = Some (mark_used now by t)"
    and s': "s' = s\<lparr>db_tickets := update_rows (\<lambda>x. tkt_pk x = tkt_pk t) (mark_used now by) (db_tickets s)\<rparr>"
    by (rule redeem_ok)
  have t: "t \<in> set (db_tickets s)" by (rule ticket_by_token_Some [OF tt])
  have wk: "well_keyed tkt_pk (db_next s) (db_tickets s)" using assms(2) by (simp add: sales_inv_def keys_wf_def)
  let ?f = "\<lambda>x. if tkt_pk x = tkt_pk t then mark_used now by x else x"
  have "map_option tkt_order (first_row (filter P (map ?f xs))) = map_option tkt_order (first_row (filter P xs))"
    if "\<forall>x\<in>set xs. P (?f x) = P x" for P xs using that by (induction xs) auto
  moreover have "live (?f x) = live x" if "x \<in> set (db_tickets s)" for x
    using ticket_rows.keyed_inj [OF wk that t] live_marked [OF valid] by auto
  ultimately show ?thesis by (auto simp: sold_to_def s' update_rows_def fun_eq_iff)
qed

text \<open>Transactions that print no ticket.\<close>

lemma ga_hold_tickets: "set_ga_hold org perf sk u tier q now s = Inr (r, s') \<Longrightarrow> db_tickets s' = db_tickets s"
  by (auto simp: set_ga_hold_def create_hold_effect Let_def split: option.splits if_splits)

lemma reserved_hold_tickets:
  assumes "set_reserved_hold org perf sk u ids now s = Inr (r, s')"
  shows "db_tickets s' = db_tickets s"
proof (cases r)
  case None
  with assms show ?thesis by (auto simp: set_reserved_hold_def Let_def split: if_splits)
next
  case (Some h)
  from set_reserved_hold_Inr(5) [OF assms [unfolded Some]] show ?thesis by simp
qed

lemma donation_tickets:
  assumes "fulfill_donation org a camp e n prov ref sid opt now s = Inr (o', s')"
  shows "db_tickets s' = db_tickets s"
proof -
  obtain g s1 where g: "attach_guest org e n opt now s = (g, s1)" by (cases "attach_guest org e n opt now s")
  have "db_tickets s1 = db_tickets s" by (rule attach_guest_obs [OF g]) simp
  with assms g show ?thesis
    by (auto simp: fulfill_donation_def create_payment_def create_item_def dest!: create_order_effect)
qed

lemma pass_sale_tickets:
  assumes "fulfill_pass_purchase org p e n prov ref sid opt now s = Inr (o', s')"
  shows "db_tickets s' = db_tickets s"
proof -
  obtain g s1 where g: "attach_guest org e n opt now s = (g, s1)" by (cases "attach_guest org e n opt now s")
  have "db_tickets s1 = db_tickets s" by (rule attach_guest_obs [OF g]) simp
  with assms g show ?thesis
    by (auto simp: fulfill_pass_purchase_def create_payment_def create_purchase_def create_item_def dest!: create_order_effect)
qed

lemma book_transaction:
  assumes "transaction now s s'" and "sales_inv s"
  shows "book_step (sold_to s) (sold_to s')"
proof -
  have same: "book_step (sold_to s) (sold_to s')" if "db_tickets s' = db_tickets s"
    using sold_to_tickets [OF that] by (simp add: unchanged)
  have once: "seats_once s'" using sales_transaction [OF assms] by (simp add: sales_inv_def)
  from assms(1) show ?thesis
  proof cases
    case (ga_held org perf sk u tier q r)
    then show ?thesis by (intro same ga_hold_tickets)
  next
    case (seats_held org perf sk u ids r)
    then show ?thesis by (intro same reserved_hold_tickets)
  next
    case (funded org c s1)
    then show ?thesis by (intro same) (auto simp: get_or_create_general_fund_def Let_def split: option.splits)
  next
    case (given org a camp e n prov ref sid opt o')
    then show ?thesis by (intro same donation_tickets)
  next
    case (pass_sold org p e n prov ref sid opt o')
    then show ?thesis by (intro same pass_sale_tickets)
  qed (use same once assms(2) book_paid book_redeemed book_refund book_cancel book_scan unchanged in \<open>auto\<close>)
qed

section \<open>Holds expire\<close>

definition cart_ok :: "time \<Rightarrow> db \<Rightarrow> bool" where
  "cart_ok now s \<longleftrightarrow> holds_wf s \<and> (\<forall>x\<in>set (db_holds s). hold_expires_at x \<le> now + minutes 10)"

lemma holds_wf_frame: "holds_wf s \<Longrightarrow> db_holds s' = db_holds s \<Longrightarrow> db_hold_seats s' = db_hold_seats s \<Longrightarrow> db_next s \<le> db_next s' \<Longrightarrow> holds_wf s'"
  by (auto simp: holds_wf_def intro: hold_rows.keyed_mono)

lemma cart_frame:
  "cart_ok now s \<Longrightarrow> db_holds s' = db_holds s \<Longrightarrow> db_hold_seats s' = db_hold_seats s \<Longrightarrow> db_next s \<le> db_next s' \<Longrightarrow> cart_ok now s'"
  by (auto simp: cart_ok_def intro: holds_wf_frame)

lemma cart_delete: "cart_ok now s \<Longrightarrow> cart_ok now (delete_holds P s)"
  by (auto simp: cart_ok_def clear_holds_wf)

lemma cart_clear: "cart_ok now s \<Longrightarrow> cart_ok now (clear_session_hold org perf sk s)"
  by (simp add: clear_session_hold_def cart_delete)

lemma cart_save:
  assumes "cart_ok now s" and "money_only f"
  shows "cart_ok now (save_hold x f s)"
proof -
  have pk: "hold_pk (f h) = hold_pk h" "hold_expires_at (f h) = hold_expires_at h" for h
    using assms(2) by (simp_all add: money_only_def)
  have "well_keyed hold_pk (db_next s) (db_holds (save_hold x f s))"
    using assms(1) hold_rows.update_keyed [of f, OF pk(1)] by (simp add: cart_ok_def holds_wf_def)
  moreover have "\<exists>h\<in>set (db_holds (save_hold x f s)). hold_pk h = k" if "h \<in> set (db_holds s)" "hold_pk h = k" for h k
    using that by (intro bexI [of _ "if hold_pk h = hold_pk x then f h else h"]) (auto simp: set_update_rows pk)
  moreover have "hold_expires_at h \<le> now + minutes 10" if "h \<in> set (db_holds (save_hold x f s))" for h
    using that assms(1) by (auto simp: set_update_rows cart_ok_def pk split: if_splits)
  moreover have "\<forall>r\<in>set (db_hold_seats s). \<exists>h\<in>set (db_holds s). hold_pk h = hs_hold r" "db_hold_seats (save_hold x f s) = db_hold_seats s"
    "db_next (save_hold x f s) = db_next s"
    using assms(1) by (simp_all add: cart_ok_def holds_wf_def)
  ultimately show ?thesis unfolding cart_ok_def holds_wf_def by metis
qed

lemma cart_add_hold:
  assumes "cart_ok now s" and "hold_pk x = db_next s" and "hold_expires_at x \<le> now + minutes 10"
    and "\<forall>r\<in>set rs. hs_hold r = hold_pk x"
    and "db_holds s' = db_holds s @ [x]" "db_hold_seats s' = db_hold_seats s @ rs" "Suc (db_next s) \<le> db_next s'"
  shows "cart_ok now s'"
proof -
  have "well_keyed hold_pk (Suc (db_next s)) (db_holds s @ [x])"
    using assms(1,2) by (auto simp: cart_ok_def holds_wf_def well_keyed_def sorted_wrt_append less_Suc_eq)
  then have "well_keyed hold_pk (db_next s') (db_holds s @ [x])" using assms(7) by (rule hold_rows.keyed_mono)
  with assms(1,3-6) show ?thesis by (auto simp: cart_ok_def holds_wf_def)
qed

lemma inventory_holds:
  assumes "fulfill_inventory h o' s = Inr s'"
  shows "db_holds s' = db_holds s" "db_hold_seats s' = db_hold_seats s" "db_next s \<le> db_next s'"
proof -
  from assms obtain s1 where ap: "appended s (inventory_items h o' s) (map (new_ticket h o') (inventory_seats h s)) s1"
    and s': "s' = s1\<lparr>db_allocations := db_allocations s'\<rparr>"
    by (rule inventory_split)
  have "db_next s \<le> db_next s1" using ap by (simp add: appended_def)
  then show "db_holds s' = db_holds s" "db_hold_seats s' = db_hold_seats s" "db_next s \<le> db_next s'"
    by (subst s', simp add: appended_frame [OF ap])+
qed

lemma cart_paid:
  assumes "fulfill_hold x e n ref prov sid opt now s = Inr (o', s')" and "cart_ok now s"
  shows "cart_ok now s'"
proof -
  from assms(1) obtain t g s1 s2 s3 where g: "attach_guest (hold_organization x) e n opt now s = (g, s1)"
    and s2: "s2 = s1\<lparr>db_orders := db_orders s1 @ [o'], db_next := Suc (db_next s1)\<rparr>"
    and inv: "fulfill_inventory x o' s2 = Inr s3" and s': "s' = finish_hold x o' t prov ref s3"
    by (rule fulfill_hold_Inr)
  have f: "db_holds s1 = db_holds s" "db_hold_seats s1 = db_hold_seats s" by (rule attach_guest_obs [OF g], simp)+
  have "cart_ok now s3"
    by (rule cart_frame [OF assms(2)])
      (use attach_guest_frame [OF g] inventory_holds [OF inv] in \<open>simp_all add: s2 f\<close>)
  then have "cart_ok now (delete_holds (\<lambda>y. hold_pk y = hold_pk x) s3)" by (rule cart_delete)
  then show ?thesis by (rule cart_frame) (simp_all add: s' finish_hold_effect)
qed

lemma cart_redeemed:
  assumes "fulfill_hold_with_pass x k e n opt now s = Inr (o', s')" and "cart_ok now s"
  shows "cart_ok now s'"
proof -
  from assms(1) obtain pp perf g s1 s2 s3 s4 where
    s1: "s1 = s\<lparr>db_guests := db_guests s1, db_next := db_next s1\<rparr>" "db_next s \<le> db_next s1"
    and c: "create_order (paid_order (hold_organization x) (Some (hold_performance x)) e n g 0 None) s1 = Inr (o', s2)"
    and inv: "fulfill_inventory x o' s2 = Inr s3"
    and r: "create_redemptions (map (redemption_row x pp o' perf s3) (tickets_of o' s3)) s3 = Inr s4"
    and s': "s' = delete_holds (\<lambda>y. hold_pk y = hold_pk x)
       (create_payment (payment_row o' ''pass'' 0 ''succeeded'' (''pass-'' @ show_nat (pp_pk pp)))
         (if pp_kind pp = FLEX
          then s4\<lparr>db_purchases := update_rows (\<lambda>y. pp_pk y = pp_pk pp) (\<lambda>_. burn_credits (ticket_count x s) pp) (db_purchases s4)\<rparr>
          else s4))"
    by (rule fulfill_with_pass_create)
  have f: "db_holds s1 = db_holds s" "db_hold_seats s1 = db_hold_seats s" by (subst s1(1), simp)+
  from stamp_redemptions [OF r] obtain new where
    s4: "s4 = s3\<lparr>db_redemptions := db_redemptions s3 @ new, db_next := db_next s3 + length (tickets_of o' s3)\<rparr>" by auto
  show ?thesis unfolding s'
    by (rule cart_delete, rule cart_frame [OF assms(2)])
      (use inventory_holds [OF inv] s1(2) in \<open>simp_all add: create_payment_def s4 create_order_effect(2) [OF c] f\<close>)
qed

lemma cart_transaction:
  assumes "transaction now s s'" and "cart_ok now s"
  shows "cart_ok now s'"
  using assms(1)
proof cases
  case (ga_held org perf sk u tier q r)
  show ?thesis
  proof (cases "\<exists>n. q = Some n \<and> 0 < n")
    case False
    with ga_held have "s' = clear_session_hold org perf sk s" by (auto simp: set_ga_hold_def split: option.splits if_splits)
    with assms(2) show ?thesis by (simp add: cart_clear)
  next
    case True
    then obtain n where n: "q = Some n" "0 < n" by blast
    show ?thesis
      by (rule set_ga_hold_Inr [OF ga_held [unfolded n(1)] n(2)],
          rule cart_add_hold [OF cart_clear [OF assms(2), of org perf sk], of "the r" "[]"])
        (simp_all add: new_hold_def default_hold_expiry_def)
  qed
next
  case (seats_held org perf sk u ids r)
  show ?thesis
  proof (cases r)
    case None
    with seats_held have "s' = clear_session_hold org perf sk s"
      by (auto simp: set_reserved_hold_def Let_def split: if_splits)
    with assms(2) show ?thesis by (simp add: cart_clear)
  next
    case (Some x)
    note e = set_reserved_hold_Inr [OF seats_held [unfolded Some]]
    have "\<forall>r\<in>set (stamp_hold_seats (Suc (db_next s)) (reserved_rows org x perf (fromkeys ids) s)). hs_hold r = hold_pk x"
      by (auto simp: reserved_rows_def hold_seat_row_def elim!: stamped_row)
    then show ?thesis
      by (rule cart_add_hold [OF cart_clear [OF assms(2), of org perf sk], rotated 2])
        (simp_all add: e(5), simp_all add: e(2) reserved_hold_def new_hold_def default_hold_expiry_def)
  qed
next
  case (funded org c s1)
  have s1: "cart_ok now s1"
    using funded(1) by (intro cart_frame [OF assms(2)]) (auto simp: get_or_create_general_fund_def Let_def split: option.splits)
  with funded(2) cart_save show ?thesis by auto
next
  case (given org a camp e n prov ref sid opt o')
  obtain g s1 where g: "attach_guest org e n opt now s = (g, s1)" by (cases "attach_guest org e n opt now s")
  have f: "db_holds s1 = db_holds s" "db_hold_seats s1 = db_hold_seats s" by (rule attach_guest_obs [OF g], simp)+
  from given g attach_guest_frame [OF g] show ?thesis
    by (intro cart_frame [OF assms(2)])
      (auto simp: fulfill_donation_def create_payment_def create_item_def f dest!: create_order_effect)
next
  case (pass_sold org p e n prov ref sid opt o')
  obtain g s1 where g: "attach_guest org e n opt now s = (g, s1)" by (cases "attach_guest org e n opt now s")
  have f: "db_holds s1 = db_holds s" "db_hold_seats s1 = db_hold_seats s" by (rule attach_guest_obs [OF g], simp)+
  from pass_sold g attach_guest_frame [OF g] show ?thesis
    by (intro cart_frame [OF assms(2)])
      (auto simp: fulfill_pass_purchase_def create_payment_def create_purchase_def create_item_def f dest!: create_order_effect)
next
  case (scanned key org token sig staff r)
  then show ?thesis
    by (intro cart_frame [OF assms(2)]) (auto simp: redeem_ticket_def split: if_splits option.splits)
next
  case (refunded stripe k b)
  then obtain o' where o': "get_row order_pk k (db_orders s) = Some o'" by (auto simp: refund_order_def)
  show ?thesis
  proof (cases "order_status o' = PAID")
    case False
    with refunded o' assms(2) show ?thesis by (simp add: refund_order_def)
  next
    case True
    with refunded o' obtain n s1 where v: "void_order o' s = Inr (n, s1)"
      and t: "db_holds s' = db_holds s1" "db_hold_seats s' = db_hold_seats s1" "db_next s1 \<le> db_next s'"
      by (auto simp: refund_order_def Let_def restore_effect create_payment_def set_order_status_def)
    show ?thesis by (rule cart_frame [OF assms(2)]) (use t in \<open>simp_all add: void_order_effect [OF v]\<close>)
  qed
next
  case (cancelled k o' m)
  show ?thesis
  proof (cases "order_status o' = CANCELLED \<or> order_status o' = REFUNDED")
    case True
    with cancelled assms(2) show ?thesis by (auto simp: order_cancel_def)
  next
    case False
    with cancelled(2) obtain n s1 where v: "void_order o' s = Inr (n, s1)"
      and t: "db_holds s' = db_holds s1" "db_hold_seats s' = db_hold_seats s1" "db_next s1 \<le> db_next s'"
      by (auto simp: order_cancel_def restore_effect set_order_status_def)
    show ?thesis by (rule cart_frame [OF assms(2)]) (use t in \<open>simp_all add: void_order_effect [OF v]\<close>)
  qed
next
  case (connected g f)
  then show ?thesis by (intro cart_frame [OF assms(2)]) (simp_all add: save_org_def)
qed (use assms(2) cart_delete cart_save cart_paid cart_redeemed in auto)

lemma cart_step: "house_step w h h' \<Longrightarrow> cart_ok (clock h) (store h) \<Longrightarrow> cart_ok (clock h') (store h')"
proof -
  assume st: "house_step w h h'" and ok: "cart_ok (clock h) (store h)"
  have "cart_ok (clock h) (store h')" by (rule cart_transaction [OF step_transaction [OF st] ok])
  moreover have "clock h \<le> clock h'" using st by (rule house_stepE) auto
  ultimately show ?thesis by (auto simp: cart_ok_def)
qed

lemma cart_opening: "opening_night h \<Longrightarrow> cart_ok (clock h) (store h)"
  by (simp add: opening_night_def cart_ok_def holds_wf_def well_keyed_def)

section \<open>A night at the demo theater\<close>

text \<open>Two runs: two general-admission tickets, and seat 21 of the matinee, sold through Stripe.\<close>

definition demo_visitor :: visitor where
  "demo_visitor = \<lparr>vs_key = ''s1'', vs_guest = \<lparr>sess_guest_id = None, sess_guest_org = None\<rparr>, vs_email = '''', vs_redeeming = None\<rparr>"

definition demo_house :: "db \<Rightarrow> house" where
  "demo_house s = \<lparr>clock = 0, visitors = (\<lambda>_. demo_visitor), store = s\<rparr>"

definition demo_world :: outside where
  "demo_world = \<lparr>out_settings = \<lparr>site_fees = \<lparr>platform_fee_percent = 0, platform_fee_fixed_cents = 0\<rparr>, site_test_checkout = False\<rparr>,
     out_refund = (\<lambda>_ _. Some ''re_1''),
     out_events = demo_check, out_mail = (\<lambda>_ _. True),
     out_webhook_secret = ''whsec'', out_secret_key = ''k''\<rparr>"

definition demo_request :: "(string \<Rightarrow> string option) \<Rightarrow> string list \<Rightarrow> request" where
  "demo_request post seats = \<lparr>rq_org = roxy, rq_is_post = True, rq_post = post, rq_get = Map.empty, rq_seat_ids = seats,
     rq_user = None, rq_uuid = ''u''\<rparr>"

lemma demo_opening: "opening_night (demo_house demo)"
  by (simp add: opening_night_def demo_house_def demo_def ga_room_def)

lemma demo_buyer:
  assumes "dispatch (out_settings demo_world) a rq 0 demo_visitor s = (r, demo_visitor, s')"
  shows "house_step demo_world (demo_house s) (demo_house s')"
proof -
  have "house_step demo_world (demo_house s) ((demo_house s)\<lparr>visitors := (visitors (demo_house s))(''s1'' := demo_visitor), store := s'\<rparr>)"
    by (rule buyer) (use assms in \<open>simp add: demo_house_def\<close>)
  moreover have "(\<lambda>_. demo_visitor)(''s1'' := demo_visitor) = (\<lambda>_. demo_visitor)" by (simp add: fun_eq_iff)
  ultimately show ?thesis by (simp add: demo_house_def)
qed

lemma demo_payment:
  assumes "fulfill_checkout_session 1 demo_session 0 s = Inr (o', c, s')" and "db_orgs s = [roxy, lyric]"
  shows "house_step demo_world (demo_house s) (demo_house s')"
proof -
  have "filter (\<lambda>g. org_stripe_account_id g = ''acct_1'') (db_orgs s) = [roxy]"
    by (simp add: assms(2) roxy_def lyric_def)
  then have org: "org_for_account (Some ''acct_1'') s = Some roxy" "org_pk roxy = 1"
    by (simp_all add: org_for_account_def or_blank_def order_by_def roxy_def)
  have "stripe_webhook (out_events demo_world) (out_mail demo_world) (out_webhook_secret demo_world) ''{}'' ''t=1'' (clock (demo_house s)) (store (demo_house s)) =
      Inr (if c then ack\<lparr>answer_receipt := Some (order_pk o')\<rparr> else ack, s')"
    by (simp add: stripe_webhook_def demo_world_def demo_house_def demo_check_def time_defs org assms(1) del: One_nat_def)
  from stripe [OF this] show ?thesis by (simp add: demo_house_def)
qed

text \<open>The paid session of hold 100, whatever the hold is.\<close>

lemma demo_session_pays:
  assumes "filter (\<lambda>x. hold_organization x = 1 \<and> hold_pk x = 100) (db_holds s) = [x]" and "db_orders s = []"
    and "0 < hold_expires_at x" and "hold_grand_total x s = Inr amount" and "hold_organization x = 1"
    and "\<And>o' s2. db_tickets s2 = db_tickets s \<Longrightarrow> db_allocations s2 = db_allocations s \<Longrightarrow> db_hold_seats s2 = db_hold_seats s \<Longrightarrow>
       db_entropy s2 = db_entropy s \<Longrightarrow> db_next s2 = Suc (db_next s) \<Longrightarrow> \<exists>s3. fulfill_inventory x o' s2 = Inr s3"
  shows "\<exists>o' s'. fulfill_checkout_session 1 demo_session 0 s = Inr (o', True, s') \<and>
    fulfill_hold x '''' ''Ann'' ''pi_1'' ''stripe'' (Some ''cs_1'') False 0 s = Inr (o', s')"
proof -
  have ag: "attach_guest 1 '''' ''Ann'' False 0 s = (None, s)"
    by (simp add: attach_guest_def get_or_create_for_email_def normalize_email_def strip_def lower_def)
  let ?o = "(paid_order 1 (Some (hold_performance x)) '''' ''Ann'' None amount (Some ''cs_1''))
    \<lparr>order_promo_code_text := hold_promo_code_text x, order_discount_amount := hold_discount x\<rparr>"
  let ?o' = "?o\<lparr>order_pk := db_next s, order_token := db_entropy s (db_next s)\<rparr>"
  let ?s2 = "s\<lparr>db_orders := [?o'], db_next := Suc (db_next s)\<rparr>"
  have co: "create_order ?o s = Inr (?o', ?s2)" by (simp add: create_order_def Let_def assms(2))
  obtain s3 where "fulfill_inventory x ?o' ?s2 = Inr s3" using assms(6) [of ?s2 ?o'] by auto
  then obtain s' where f: "fulfill_hold x '''' ''Ann'' ''pi_1'' ''stripe'' (Some ''cs_1'') False 0 s = Inr (?o', s')"
    using assms(3-5) ag co by (simp add: fulfill_hold_def)
  have k: "parse_key ''100'' = Inr 100" by code_simp
  have "fulfill_checkout_session 1 demo_session 0 s = or_winner 1 ''cs_1'' (Some (FulfillErr AvailabilityChangedError)) s
      (fulfill_hold x '''' ''Ann'' ''pi_1'' ''stripe'' (Some ''cs_1'') False 0 s)"
    using assms(1-3)
    by (simp add: fulfill_checkout_session_def demo_session_def order_for_session_def Let_def or_blank_def show_nat_small
        fulfill_hold_session_def k payment_ref_of_def del: One_nat_def)
  with f show ?thesis by (auto simp: or_winner_def)
qed

lemma demo_selected:
  assumes "performance_in 1 pk demo = Some p" and "after_selection (demo_request post seats) p demo_visitor demo (Inr (x, s)) = a"
    and "hold_create pk (demo_request post seats) 0 demo_visitor demo = a" and "post ''buyer_email'' = None"
  shows "house_step demo_world (demo_house demo) (demo_house s)"
proof -
  have "a = (Redirect ToCart SelectionHeld, demo_visitor, s)"
    using assms(2,4) by (auto simp: after_selection_def demo_request_def or_blank_def normalize_email_def strip_def lower_def)
  with assms(3) show ?thesis by (intro demo_buyer [where a = "HoldCreate pk"]) simp
qed

definition ga_post :: "string \<Rightarrow> string option" where
  "ga_post = [''quantity'' \<mapsto> ''2'', ''price_tier'' \<mapsto> ''51'']"

lemma demo_numbers: "py_int ''2'' = Some 2" "py_int ''51'' = Some 51"
  by code_simp+

lemma two_held_step: "house_step demo_world (demo_house demo) (demo_house two_held)"
proof -
  obtain r where r: "set_ga_hold 1 ga_show ''s1'' None ga_tier (Some 2) 0 demo = Inr (r, two_held)" using hold_two by blast
  have p: "performance_in 1 31 demo = Some ga_show"
    by (simp add: performance_in_def demo_def ga_show_def matinee_def evening_def)
  have t: "ga_tier_at 1 ga_show (Some 51) demo = Some ga_tier"
    by (simp add: ga_tier_at_def demo_def ga_tier_def stalls_tier_def evening_tier_def ga_show_def)
  have o: "org_pk roxy = 1" "perf_seating_mode ga_show = GA" by (simp_all add: roxy_def ga_show_def)
  have "hold_create 31 (demo_request ga_post []) 0 demo_visitor demo =
      after_selection (demo_request ga_post []) ga_show demo_visitor demo (Inr (r, two_held))"
    using r by (simp add: hold_create_def demo_request_def o p parse_int_def lookup_key_def ga_post_def demo_numbers key_of_def t
        demo_visitor_def del: One_nat_def)
  from demo_selected [OF p refl this] show ?thesis by (simp add: ga_post_def)
qed

lemma demo_start: "reachable opening_night (house_step demo_world) (demo_house demo)"
  by (rule start) (rule demo_opening)

lemma demo_run:
  assumes "house_step demo_world (demo_house demo) h" and "house_step demo_world h h'"
  shows "reachable opening_night (house_step demo_world) h'"
proof -
  from demo_start assms(1) have "reachable opening_night (house_step demo_world) h" by (rule move)
  then show ?thesis using assms(2) by (rule move)
qed

lemma two_sold: "\<exists>h. reachable opening_night (house_step demo_world) h \<and> clock h = 0 \<and> ga_live 31 (store h) = 2 \<and>
  db_allocations (store h) = [ga_room\<lparr>alloc_sold := 2\<rparr>]"
proof -
  let ?x = "(new_hold 1 ga_show ''s1'' None 0)
     \<lparr>hold_pk := 100, hold_price_tier := Some 51, hold_quantity := Some 2, hold_ga_unit_amount := Some 2500\<rparr>"
  have x: "hold_organization ?x = 1" "hold_pk ?x = 100" "is_ga ?x" "ga_unit_amount ?x s = Inr 2500" "hold_performance ?x = 31"
    "hold_quantity ?x = Some 2" "hold_discount ?x = 0" "hold_donation ?x = 0" "0 < hold_expires_at ?x" for s
    by (simp_all add: new_hold_def is_ga_def ga_unit_amount_def ga_show_def hold_discount_def hold_donation_def
        default_hold_expiry_def time_defs)
  have room: "alloc_sold ga_room = 0" "alloc_capacity ga_room = 3" "alloc_pk ga_room = 61" by (simp_all add: ga_room_def)
  have "\<exists>s3. fulfill_inventory ?x o' s2 = Inr s3"
    if "db_tickets s2 = db_tickets two_held" "db_allocations s2 = db_allocations two_held"
      "db_entropy s2 = db_entropy two_held" "db_next s2 = Suc (db_next two_held)" for o' s2
  proof -
    have s2: "db_tickets s2 = []" "db_next s2 = 102" "db_entropy s2 = show_nat" "allocation_of 31 s2 = Some ga_room"
      using that demo_allocation by (simp_all add: two_held_def demo_def)
    show ?thesis
      by (simp add: fulfill_inventory_def fulfill_ga_def x s2 room numeral_2_eq_2 create_item_def
          create_ticket_def Let_def save_sold_def show_nat_small new_ticket_def same_live_seat_def del: One_nat_def)
  qed
  then obtain o' s' where s': "fulfill_checkout_session 1 demo_session 0 two_held = Inr (o', True, s')"
    and f: "fulfill_hold ?x '''' ''Ann'' ''pi_1'' ''stripe'' (Some ''cs_1'') False 0 two_held = Inr (o', s')"
    using demo_session_pays [of two_held ?x 5000] x
    by (auto simp: two_held_def demo_def hold_grand_total_def hold_total_def)
  have reach: "reachable opening_night (house_step demo_world) (demo_house s')"
    by (rule demo_run [OF two_held_step demo_payment [OF s']]) (simp add: two_held_def demo_def)
  from f obtain g s1 s2 s3 where g: "attach_guest 1 '''' ''Ann'' False 0 two_held = (g, s1)"
    and s2: "s2 = s1\<lparr>db_orders := db_orders s1 @ [o'], db_next := Suc (db_next s1)\<rparr>"
    and inv: "fulfill_inventory ?x o' s2 = Inr s3" and fin: "s' = finish_hold ?x o' 5000 ''stripe'' ''pi_1'' s3"
    by (rule fulfill_hold_Inr) (use x in \<open>auto simp: hold_grand_total_def hold_total_def\<close>)
  have a1: "db_allocations s1 = [ga_room]" "db_tickets s1 = []" by (rule trans [OF attach_guest_obs [OF g]], simp, simp add: two_held_def demo_def)+
  from inv obtain s4 where ap: "appended s2 (inventory_items ?x o' s2) (map (new_ticket ?x o') (inventory_seats ?x s2)) s4"
    and s3: "s3 = s4\<lparr>db_allocations := db_allocations s3\<rparr>"
    and al: "\<exists>a. allocation_of (hold_performance ?x) s2 = Some a \<and>
        alloc_sold a + the (hold_quantity ?x) \<le> alloc_capacity a \<and>
        db_allocations s3 = update_rows (\<lambda>y. alloc_pk y = alloc_pk a)
            (\<lambda>y. y\<lparr>alloc_sold := alloc_sold a + the (hold_quantity ?x)\<rparr>) (db_allocations s2)"
    by (rule inventory_split) (use x in auto)
  from al [unfolded x(5,6)] have alloc: "db_allocations s3 = [ga_room\<lparr>alloc_sold := 2\<rparr>]"
    using demo_allocation [of s2] by (simp add: s2 a1 update_rows_def room)
  have "db_allocations s' = db_allocations s3" by (simp add: fin finish_hold_effect)
  with alloc have al': "db_allocations s' = [ga_room\<lparr>alloc_sold := 2\<rparr>]" by simp
  have "sales_inv s'" using sales.reachable_inv [OF reach] by (simp add: demo_house_def)
  then have "int (ga_live 31 s') = 2" using al' by (simp add: sales_inv_def ledger_def sold_right_def ga_room_def)
  with reach al' show ?thesis by (intro exI [of _ "demo_house s'"]) (simp add: demo_house_def)
qed

text \<open>Seat 21 of the matinee, held and paid.\<close>

lemma seat_held_step: "house_step demo_world (demo_house demo) (demo_house seat_held_for_matinee)"
proof -
  have p: "performance_in 1 32 demo = Some matinee"
    by (simp add: performance_in_def demo_def ga_show_def matinee_def evening_def)
  have l: "lock_seats 1 matinee [21] demo = [demo_seat 21 ''1'']"
  proof -
    have "in_chart house_chart demo (demo_seat i n)" for i n
      by (simp add: in_chart_def section_of_def get_row_def fixture_defs)
    moreover have "get_seating_chart matinee demo = Some house_chart"
      by (simp add: get_seating_chart_def house_chart_def matinee_def demo_def)
    ultimately show ?thesis by (simp add: lock_seats_def) (simp add: demo_def, simp add: demo_seat_def)
  qed
  have r: "\<exists>r. set_reserved_hold 1 matinee ''s1'' None [21] 0 demo = Inr (r, seat_held_for_matinee)"
    by (simp add: set_reserved_hold_def l matinee_prices demo_untaken create_hold_effect ga_fields_together_def
        create_hold_seat_def clear_session_hold_def delete_holds_def delete_rows_def Let_def hold_seat_row_def tier_price_def
        del: One_nat_def)
      (simp add: new_hold_def seat_held_for_matinee_def demo_def stalls_tier_def)
  then obtain r where r: "set_reserved_hold 1 matinee ''s1'' None [21] 0 demo = Inr (r, seat_held_for_matinee)" by blast
  have ids: "seat_ids_of [''21''] = [21]" by code_simp
  have o: "org_pk roxy = 1" "perf_seating_mode matinee = RESERVED" by (simp_all add: roxy_def matinee_def)
  have "hold_create 32 (demo_request Map.empty [''21'']) 0 demo_visitor demo =
      after_selection (demo_request Map.empty [''21'']) matinee demo_visitor demo (Inr (r, seat_held_for_matinee))"
    using r by (simp add: hold_create_def demo_request_def o p ids demo_visitor_def del: One_nat_def)
  from demo_selected [OF p refl this] show ?thesis by simp
qed

lemma seat_sold: "\<exists>h. reachable opening_night (house_step demo_world) (demo_house seat_held_for_matinee) \<and>
  house_step demo_world (demo_house seat_held_for_matinee) h \<and> reachable opening_night (house_step demo_world) h \<and>
  sold_to (store h) (32, 21) = Some 102"
proof -
  let ?x = "(new_hold 1 matinee ''s1'' None 0)\<lparr>hold_pk := 100\<rparr>"
  let ?r = "\<lparr>hs_pk = 101, hs_organization = 1, hs_hold = 100, hs_seat = 21,
       hs_price_tier = Some 52, hs_pricing_zone = None, hs_unit_amount = 4000\<rparr>"
  have x: "hold_organization ?x = 1" "\<not> is_ga ?x" "hold_performance ?x = 32" "hold_pk ?x = 100"
    "hold_discount ?x = 0" "hold_donation ?x = 0" "0 < hold_expires_at ?x"
    by (simp_all add: new_hold_def is_ga_def matinee_def hold_discount_def hold_donation_def default_hold_expiry_def time_defs)
  have rows: "seats_of_hold ?x s2 = [?r]" if "db_hold_seats s2 = db_hold_seats seat_held_for_matinee" for s2
    using that x(4) by (simp add: seats_of_hold_def seat_held_for_matinee_def)
  have "\<exists>s3. fulfill_inventory ?x o' s2 = Inr s3"
    if "db_tickets s2 = db_tickets seat_held_for_matinee" "db_hold_seats s2 = db_hold_seats seat_held_for_matinee" for o' s2
  proof -
    have "db_tickets s2 = []" using that by (simp add: seat_held_for_matinee_def demo_def)
    then show ?thesis
      using x(2) rows [OF that(2)]
      by (simp add: fulfill_inventory_def fulfill_reserved_def order_by_def ticketed_ids_def List.map_filter_def create_ticket_def
          create_item_def Let_def)
  qed
  moreover have "filter (\<lambda>y. hold_organization y = 1 \<and> hold_pk y = 100) (db_holds seat_held_for_matinee) = [?x]"
    using x(1,4) by (simp add: seat_held_for_matinee_def)
  moreover have "hold_grand_total ?x seat_held_for_matinee = Inr 4000"
    using x rows [OF refl] by (simp add: hold_grand_total_def hold_total_def)
  moreover have "db_orders seat_held_for_matinee = []" by (simp add: seat_held_for_matinee_def demo_def)
  ultimately obtain o' s' where s': "fulfill_checkout_session 1 demo_session 0 seat_held_for_matinee = Inr (o', True, s')"
    and f: "fulfill_hold ?x '''' ''Ann'' ''pi_1'' ''stripe'' (Some ''cs_1'') False 0 seat_held_for_matinee = Inr (o', s')"
    using demo_session_pays [of seat_held_for_matinee ?x 4000] x(1,7) by blast
  have step: "house_step demo_world (demo_house seat_held_for_matinee) (demo_house s')"
    by (rule demo_payment [OF s']) (simp add: seat_held_for_matinee_def demo_def)
  have reach: "reachable opening_night (house_step demo_world) (demo_house s')" by (rule demo_run [OF seat_held_step step])
  have reach0: "reachable opening_night (house_step demo_world) (demo_house seat_held_for_matinee)"
    by (rule move [OF demo_start seat_held_step])
  have rw: "refs_wf seat_held_for_matinee" by (simp add: refs_wf_def seat_held_for_matinee_def demo_def well_keyed_def)
  have "map plain_ticket (tickets_of o' s') = map plain_ticket (map (new_ticket ?x o') (inventory_seats ?x seat_held_for_matinee))"
    by (rule fulfill_hold_rows(2) [OF f rw])
  moreover have "inventory_seats ?x seat_held_for_matinee = [Some 21]"
    using x(2) rows [OF refl] by (simp add: inventory_seats_def order_by_def)
  ultimately obtain t where t: "tickets_of o' s' = [t]" "plain_ticket t = plain_ticket (new_ticket ?x o' (Some 21))"
    by (auto simp: map_eq_Cons_conv)
  have tf: "live t" "tkt_performance t = 32" "tkt_seat t = Some 21" "tkt_order t = order_pk o'"
    using arg_cong [OF t(2), of live] arg_cong [OF t(2), of tkt_performance] arg_cong [OF t(2), of tkt_seat]
      arg_cong [OF t(2), of tkt_order] x(3) by (simp_all add: plain_ticket_def live_def new_ticket_def)
  have "t \<in> set (tickets_of o' s')" by (simp add: t(1))
  then have "t \<in> set (db_tickets s')" by (simp add: tickets_of_def)
  moreover have "seats_once s'" using sales.reachable_inv [OF reach] by (simp add: demo_house_def sales_inv_def)
  ultimately have "sold_to s' (32, 21) = Some (tkt_order t)" using tf by (intro sold_to_live)
  moreover have "order_pk o' = 102"
  proof -
    from f obtain t g s1 s2 s3 where g: "attach_guest 1 '''' ''Ann'' False 0 seat_held_for_matinee = (g, s1)"
      and o': "o' = (paid_order 1 (Some (hold_performance ?x)) '''' ''Ann'' g t (Some ''cs_1''))
        \<lparr>order_promo_code_text := hold_promo_code_text ?x, order_discount_amount := hold_discount ?x,
         order_pk := db_next s1, order_token := db_entropy s1 (db_next s1)\<rparr>"
      by (rule fulfill_hold_Inr) (use x in auto)
    have "s1 = seat_held_for_matinee"
      using g by (simp add: attach_guest_def get_or_create_for_email_def normalize_email_def strip_def lower_def)
    then show ?thesis by (simp add: o' seat_held_for_matinee_def)
  qed
  ultimately show ?thesis using reach reach0 step tf(4) by (intro exI [of _ "demo_house s'"]) (simp add: demo_house_def)
qed

end
