(* ===== verification/Catalogue.thy ===== *)
theory Catalogue
  imports ChartEditor PriceGrid ZoneEditor Inventory
begin

text \<open>
  The back office's forms (dashboard/forms.py) and the views that save them (dashboard/views.py):
  events, performances, general-admission prices, charts, sections, promo codes, passes and the
  donation settings. A form's record is its \<open>cleaned_data\<close>: a field Django rejected is none and is
  listed among the rejected ones; what follows is the program's own cleaning, the constraints
  Django checks of the assembled row, and the save. A foreign key posted to a form is looked up in
  the queryset the form gives the field. A violated constraint that no check foresaw is a crash.
\<close>

section \<open>Responses\<close>

datatype form_error =
    FieldRejected string
  | InvalidChoice string
  | CapacityRequired
  | CapacityBelowSold int
  | ChartOfOtherVenue
  | SectionNameTaken
  | PromoCodeTaken
  | PercentOutOfRange
  | FixedNotPositive
  | FlexNeedsCredits
  | SeasonHasCredits
  | PriceIsNegative
  | ShapeViolated
  | BadAmount string
  | AmountNotPositive string
  | NoAmounts

datatype form_response =
    FormNotFound
  | FormInvalid "form_error list"
  | FormSaved nat
  | FormCrash py_error

text \<open>A required field without a value was rejected; the record lists the optional ones that were.\<close>

definition missing :: "(string \<times> bool) list \<Rightarrow> string list" where
  "missing checks = map fst (filter snd checks)"

definition rejections :: "string list \<Rightarrow> form_error list" where
  "rejections = map FieldRejected"

section \<open>Events\<close>

record event_fields =
  ef_title :: "string option"
  ef_slug :: "string option"
  ef_status :: "event_status option"
  ef_rejected :: "string list"

definition event_errors :: "event_fields \<Rightarrow> form_error list" where
  "event_errors f = rejections (missing [(''title'', ef_title f = None), (''slug'', ef_slug f = None), (''status'', ef_status f = None)] @ ef_rejected f)"

text \<open>\<open>unique_event_slug_per_org\<close>; the form leaves the check to the database.\<close>

definition slug_taken :: "event \<Rightarrow> db \<Rightarrow> bool" where
  "slug_taken e s = qs_exists (\<lambda>x. event_pk x \<noteq> event_pk e \<and> event_organization x = event_organization e \<and>
      event_slug x = event_slug e) (db_events s)"

definition write_event :: "event_fields \<Rightarrow> event \<Rightarrow> event" where
  "write_event f e = e\<lparr>event_title := the (ef_title f), event_slug := the (ef_slug f), event_status := the (ef_status f)\<rparr>"

definition event_create :: "nat \<Rightarrow> event_fields \<Rightarrow> db \<Rightarrow> form_response \<times> db" where
  "event_create organization f s =
     (if event_errors f \<noteq> [] then (FormInvalid (event_errors f), s)
      else let e = write_event f \<lparr>event_pk = db_next s, event_organization = organization, event_title = '''',
                     event_slug = '''', event_status = EVENT_DRAFT\<rparr>
           in if slug_taken e s then (FormCrash (IntegrityError UniqueEventSlug), s)
              else (FormSaved (event_pk e), s\<lparr>db_events := db_events s @ [e], db_next := Suc (db_next s)\<rparr>))"

definition org_event :: "nat \<Rightarrow> nat \<Rightarrow> db \<Rightarrow> event option" where
  "org_event organization pk s = first_row (filter (\<lambda>e. event_pk e = pk \<and> event_organization e = organization) (db_events s))"

definition event_update :: "nat \<Rightarrow> nat \<Rightarrow> event_fields \<Rightarrow> db \<Rightarrow> form_response \<times> db" where
  "event_update organization pk f s =
     (case org_event organization pk s of
        None \<Rightarrow> (FormNotFound, s)
      | Some e \<Rightarrow>
          if event_errors f \<noteq> [] then (FormInvalid (event_errors f), s)
          else if slug_taken (write_event f e) s then (FormCrash (IntegrityError UniqueEventSlug), s)
          else (FormSaved pk, s\<lparr>db_events := update_rows (\<lambda>x. event_pk x = pk) (write_event f) (db_events s)\<rparr>))"

section \<open>Performances\<close>

record performance_fields =
  pf_venue :: "nat option"
  pf_starts_at :: "time option"
  pf_seating_mode :: "seating_mode option"
  pf_seating_chart :: "nat option"
  pf_status :: "performance_status option"
  pf_ga_capacity :: "int option"
  pf_rejected :: "string list"

definition org_venue :: "nat \<Rightarrow> nat \<Rightarrow> db \<Rightarrow> venue option" where
  "org_venue organization k s = first_row (filter (\<lambda>v. venue_pk v = k \<and> venue_organization v = organization) (db_venues s))"

definition org_chart :: "nat \<Rightarrow> nat \<Rightarrow> db \<Rightarrow> seating_chart option" where
  "org_chart organization k s = first_row (filter (\<lambda>c. chart_pk c = k \<and> chart_organization c = organization) (db_charts s))"

text \<open>\<open>IntegerField(min_value=0)\<close>: a negative number is rejected and not among the cleaned data.\<close>

definition cleaned_capacity :: "performance_fields \<Rightarrow> int option" where
  "cleaned_capacity f = (case pf_ga_capacity f of Some n \<Rightarrow> if n < 0 then None else Some n | None \<Rightarrow> None)"

definition negative_capacity :: "performance_fields \<Rightarrow> form_error list" where
  "negative_capacity f = (if cleaned_capacity f \<noteq> pf_ga_capacity f then [FieldRejected ''ga_capacity''] else [])"

text \<open>The choices the form offers: the theater's own venues and charts.\<close>

definition choice_errors :: "nat \<Rightarrow> performance_fields \<Rightarrow> db \<Rightarrow> form_error list" where
  "choice_errors organization f s =
     (case pf_venue f of None \<Rightarrow> [] | Some k \<Rightarrow> if org_venue organization k s = None then [InvalidChoice ''venue''] else []) @
     (case pf_seating_chart f of None \<Rightarrow> [] | Some k \<Rightarrow> if org_chart organization k s = None then [InvalidChoice ''seating_chart''] else [])"

definition capacity_errors :: "performance option \<Rightarrow> performance_fields \<Rightarrow> db \<Rightarrow> form_error list" where
  "capacity_errors inst f s =
     (if pf_seating_mode f = Some GA
      then (case cleaned_capacity f of
              None \<Rightarrow> [CapacityRequired]
            | Some capacity \<Rightarrow>
                (case inst of
                   None \<Rightarrow> []
                 | Some p \<Rightarrow>
                     (case allocation_of (perf_pk p) s of
                        None \<Rightarrow> []
                      | Some a \<Rightarrow> if capacity < alloc_sold a then [CapacityBelowSold (alloc_sold a)] else [])))
      else [])"

definition chart_errors :: "nat \<Rightarrow> performance_fields \<Rightarrow> db \<Rightarrow> form_error list" where
  "chart_errors organization f s =
     (case (pf_venue f, pf_seating_chart f) of
        (Some v, Some c) \<Rightarrow>
          (case (org_venue organization v s, org_chart organization c s) of
             (Some venue, Some chart) \<Rightarrow> if chart_venue chart \<noteq> venue_pk venue then [ChartOfOtherVenue] else []
           | _ \<Rightarrow> [])
      | _ \<Rightarrow> [])"

definition performance_errors :: "nat \<Rightarrow> performance option \<Rightarrow> performance_fields \<Rightarrow> db \<Rightarrow> form_error list" where
  "performance_errors organization inst f s =
     rejections (missing [(''venue'', pf_venue f = None), (''starts_at'', pf_starts_at f = None),
       (''seating_mode'', pf_seating_mode f = None), (''status'', pf_status f = None)] @ pf_rejected f) @ negative_capacity f @ choice_errors organization f s @ capacity_errors inst f s @ chart_errors organization f s"

text \<open>\<open>GAAllocation.objects.update_or_create\<close>: one allocation per performance.\<close>

definition put_allocation :: "nat \<Rightarrow> nat \<Rightarrow> int \<Rightarrow> db \<Rightarrow> error + db" where
  "put_allocation organization perf capacity s =
     (case first_row (filter (\<lambda>a. alloc_organization a = organization \<and> alloc_performance a = perf) (db_allocations s)) of
        Some a \<Rightarrow>
          if capacity < alloc_sold a then Inl (PyErr (IntegrityError GASoldLteCapacity))
          else Inr (s\<lparr>db_allocations := update_rows (\<lambda>x. alloc_pk x = alloc_pk a) (\<lambda>x. x\<lparr>alloc_capacity := capacity\<rparr>) (db_allocations s)\<rparr>)
      | None \<Rightarrow>
          if qs_exists (\<lambda>a. alloc_performance a = perf) (db_allocations s) then Inl (PyErr (IntegrityError OneAllocation))
          else Inr (s\<lparr>db_allocations := db_allocations s @
                 [\<lparr>alloc_pk = db_next s, alloc_organization = organization, alloc_performance = perf,
                   alloc_capacity = capacity, alloc_sold = 0\<rparr>], db_next := Suc (db_next s)\<rparr>))"

definition write_performance :: "nat \<Rightarrow> nat \<Rightarrow> performance_fields \<Rightarrow> performance \<Rightarrow> performance" where
  "write_performance organization event f p =
     p\<lparr>perf_organization := organization, perf_event := event, perf_venue := the (pf_venue f),
       perf_starts_at := the (pf_starts_at f), perf_seating_mode := the (pf_seating_mode f),
       perf_status := the (pf_status f), perf_seating_chart := pf_seating_chart f\<rparr>"

definition save_performance :: "nat \<Rightarrow> performance_fields \<Rightarrow> performance \<Rightarrow> db \<Rightarrow> form_response \<times> db" where
  "save_performance organization f p s =
     (if perf_seating_mode p \<noteq> GA then (FormSaved (perf_pk p), s)
      else case put_allocation organization (perf_pk p) (the (cleaned_capacity f)) s of
             Inr s' \<Rightarrow> (FormSaved (perf_pk p), s')
           | Inl (PyErr e) \<Rightarrow> (FormCrash e, s)
           | Inl _ \<Rightarrow> (FormCrash AttributeError, s))"

definition performance_create :: "nat \<Rightarrow> nat \<Rightarrow> performance_fields \<Rightarrow> db \<Rightarrow> form_response \<times> db" where
  "performance_create organization ev f s =
     (case org_event organization ev s of
        None \<Rightarrow> (FormNotFound, s)
      | Some e \<Rightarrow>
          let errors = performance_errors organization None f s
          in if errors \<noteq> [] then (FormInvalid errors, s)
             else let p = write_performance organization ev f
                        \<lparr>perf_pk = db_next s, perf_organization = organization, perf_event = ev, perf_venue = 0,
                          perf_starts_at = 0, perf_seating_mode = GA, perf_status = PERF_DRAFT, perf_seating_chart = None\<rparr>
                  in save_performance organization f p
                       (s\<lparr>db_performances := db_performances s @ [p], db_next := Suc (db_next s)\<rparr>))"

definition performance_update :: "nat \<Rightarrow> nat \<Rightarrow> performance_fields \<Rightarrow> db \<Rightarrow> form_response \<times> db" where
  "performance_update organization pk f s =
     (case org_performance organization pk s of
        None \<Rightarrow> (FormNotFound, s)
      | Some p \<Rightarrow>
          let errors = performance_errors organization (Some p) f s
          in if errors \<noteq> [] then (FormInvalid errors, s)
             else let p' = write_performance organization (perf_event p) f p
                  in save_performance organization f p'
                       (s\<lparr>db_performances := update_rows (\<lambda>x. perf_pk x = pk) (\<lambda>_. p') (db_performances s)\<rparr>))"
section \<open>General-admission prices\<close>

record tier_fields =
  tf_name :: "string option"
  tf_amount :: "cents option"
  tf_currency :: "string option"
  tf_section :: "nat option"
  tf_rejected :: "string list"

text \<open>The form drops the section for general admission, and requires one of the chart's otherwise.\<close>

definition tier_errors :: "nat \<Rightarrow> performance \<Rightarrow> tier_fields \<Rightarrow> db \<Rightarrow> form_error list" where
  "tier_errors organization performance f s =
     rejections (missing [(''name'', tf_name f = None), (''amount'', tf_amount f = None), (''currency'', tf_currency f = None)] @ tf_rejected f) @
     (if perf_seating_mode performance = GA then []
      else case tf_section f of
        None \<Rightarrow> [FieldRejected ''section'']
      | Some k \<Rightarrow>
          if qs_exists (\<lambda>x. section_pk x = k \<and> section_organization x = organization \<and>
                  Some (section_chart x) = map_option chart_pk (get_seating_chart performance s)) (db_sections s)
          then [] else [InvalidChoice ''section''])"

definition tier_row :: "nat \<Rightarrow> performance \<Rightarrow> tier_fields \<Rightarrow> nat \<Rightarrow> price_tier" where
  "tier_row organization performance f k =
     \<lparr>tier_pk = k, tier_organization = organization, tier_name = the (tf_name f), tier_amount = the (tf_amount f),
      tier_currency = the (tf_currency f),
      tier_performance = (if perf_seating_mode performance = GA then Some (perf_pk performance) else None),
      tier_section = (if perf_seating_mode performance = GA then None else tf_section f)\<rparr>"

text \<open>The post to \<open>performance_price_tiers\<close> of a general-admission performance.\<close>

definition ga_tier_create :: "nat \<Rightarrow> nat \<Rightarrow> tier_fields \<Rightarrow> db \<Rightarrow> form_response \<times> db" where
  "ga_tier_create organization pk f s =
     (case org_performance organization pk s of
        None \<Rightarrow> (FormNotFound, s)
      | Some p \<Rightarrow>
          if tier_errors organization p f s \<noteq> [] then (FormInvalid (tier_errors organization p f s), s)
          else (FormSaved (db_next s), s\<lparr>db_tiers := db_tiers s @ [tier_row organization p f (db_next s)], db_next := Suc (db_next s)\<rparr>))"

section \<open>Charts and sections\<close>

text \<open>The chart form has one field; \<open>unique_chart_name_per_venue\<close> is left to the database.\<close>

definition chart_clash :: "seating_chart \<Rightarrow> db \<Rightarrow> bool" where
  "chart_clash c s = qs_exists (\<lambda>x. chart_pk x \<noteq> chart_pk c \<and> chart_venue x = chart_venue c \<and> chart_name x = chart_name c) (db_charts s)"

definition chart_form_create :: "nat \<Rightarrow> nat \<Rightarrow> string option \<Rightarrow> db \<Rightarrow> form_response \<times> db" where
  "chart_form_create organization venue name s =
     (case (org_venue organization venue s, name) of
        (None, _) \<Rightarrow> (FormNotFound, s)
      | (Some v, None) \<Rightarrow> (FormInvalid [FieldRejected ''name''], s)
      | (Some v, Some nm) \<Rightarrow>
          let c = \<lparr>chart_pk = db_next s, chart_organization = organization, chart_venue = venue, chart_name = nm\<rparr>
          in if chart_clash c s then (FormCrash (IntegrityError UniqueChartNamePerVenue), s)
             else (FormSaved (db_next s), s\<lparr>db_charts := db_charts s @ [c], db_next := Suc (db_next s)\<rparr>))"

definition chart_form_update :: "nat \<Rightarrow> nat \<Rightarrow> string option \<Rightarrow> db \<Rightarrow> form_response \<times> db" where
  "chart_form_update organization pk name s =
     (case (org_chart organization pk s, name) of
        (None, _) \<Rightarrow> (FormNotFound, s)
      | (Some c, None) \<Rightarrow> (FormInvalid [FieldRejected ''name''], s)
      | (Some c, Some nm) \<Rightarrow>
          if chart_clash (c\<lparr>chart_name := nm\<rparr>) s then (FormCrash (IntegrityError UniqueChartNamePerVenue), s)
          else (FormSaved pk, s\<lparr>db_charts := update_rows (\<lambda>x. chart_pk x = pk) (\<lambda>x. x\<lparr>chart_name := nm\<rparr>) (db_charts s)\<rparr>))"

record section_fields =
  sf_name :: "string option"
  sf_tier :: string
  sf_numbering_scheme :: string
  sf_row_label_scheme :: string
  sf_row_label_start :: "nat option"
  sf_rejected :: "string list"

text \<open>\<open>clean_name\<close> does by hand what \<open>unique_section_name_per_chart\<close> would find.\<close>

definition section_errors :: "nat \<Rightarrow> nat \<Rightarrow> nat option \<Rightarrow> section_fields \<Rightarrow> db \<Rightarrow> form_error list" where
  "section_errors organization chart inst f s =
     rejections (missing [(''name'', sf_name f = None)] @ sf_rejected f) @
     (case sf_name f of
        None \<Rightarrow> []
      | Some nm \<Rightarrow>
          if nm \<noteq> [] \<and> qs_exists (\<lambda>x. section_organization x = organization \<and> section_chart x = chart \<and>
               section_name x = nm \<and> Some (section_pk x) \<noteq> inst) (db_sections s)
          then [SectionNameTaken] else [])"

definition clean_row_label_start :: "section_fields \<Rightarrow> nat" where
  "clean_row_label_start f = (case sf_row_label_start f of None \<Rightarrow> 0 | Some n \<Rightarrow> n)"

definition write_section :: "section_fields \<Rightarrow> section_layout \<Rightarrow> section_layout" where
  "write_section f sec =
     sec\<lparr>section_name := the (sf_name f), section_tier := sf_tier f, numbering_scheme := sf_numbering_scheme f,
       row_label_scheme := sf_row_label_scheme f, row_label_start := clean_row_label_start f\<rparr>"

text \<open>A new section: the model's defaults, placed to the right of and listed after the existing ones.\<close>

definition default_section :: "nat \<Rightarrow> nat \<Rightarrow> nat \<Rightarrow> section_layout" where
  "default_section organization chart existing =
     \<lparr>section_pk = 0, section_organization = organization, section_chart = chart, section_name = '''',
      section_ordering = int existing, section_tier = '''', origin_x = real existing * 12, origin_y = 0, rotation = 0,
      seat_pitch = 1, row_pitch = 1, row_x_offset = 0, offset_mode = ''repeated'', alt_row_seat_delta = 0,
      arc_radius = None, pivot_mode = ''center'', pivot_x = 0, pivot_y = 0, shape_rows = 4, seats_per_row = 8,
      removed_seats = [], accessible_seats = [], numbering_scheme = ''sequential'', row_label_scheme = ''skip_io'',
      row_label_start = 0\<rparr>"

definition section_count :: "nat \<Rightarrow> nat \<Rightarrow> db \<Rightarrow> nat" where
  "section_count organization chart s =
     length (filter (\<lambda>x. section_organization x = organization \<and> section_chart x = chart) (db_sections s))"

type_synonym chart_state = "section_layout list \<times> db"

definition section_create :: "nat \<Rightarrow> nat \<Rightarrow> section_fields \<Rightarrow> chart_state \<Rightarrow> form_response \<times> chart_state" where
  "section_create organization chart f st =
     (case org_chart organization chart (snd st) of
        None \<Rightarrow> (FormNotFound, st)
      | Some c \<Rightarrow>
          let errors = section_errors organization chart None f (snd st);
              sec = write_section f (default_section organization chart (section_count organization chart (snd st)))
          in if errors \<noteq> [] then (FormInvalid errors, st)
             else case create_section sec (snd st) of
                    Inr (sec', s') \<Rightarrow> (FormSaved (section_pk sec'), fst st @ [sec'], s')
                  | Inl _ \<Rightarrow> (FormCrash (IntegrityError UniqueSectionNamePerChart), st))"

definition section_update :: "nat \<Rightarrow> nat \<Rightarrow> nat \<Rightarrow> section_fields \<Rightarrow> chart_state \<Rightarrow> form_response \<times> chart_state" where
  "section_update organization chart pk f st =
     (case (org_chart organization chart (snd st),
            first_row (filter (\<lambda>x. section_pk x = pk \<and> section_organization x = organization \<and> section_chart x = chart) (fst st))) of
        (Some c, Some sec) \<Rightarrow>
          let errors = section_errors organization chart (Some pk) f (snd st)
          in if errors \<noteq> [] then (FormInvalid errors, st)
             else if qs_exists (\<lambda>x. section_pk x \<noteq> pk \<and> section_chart x = chart \<and> section_name x = the (sf_name f)) (db_sections (snd st))
               then (FormCrash (IntegrityError UniqueSectionNamePerChart), st)
             else (FormSaved pk,
                update_rows (\<lambda>x. section_pk x = pk) (write_section f) (fst st),
                (snd st)\<lparr>db_sections := update_rows (\<lambda>x. section_pk x = pk) (\<lambda>x. x\<lparr>section_name := the (sf_name f)\<rparr>)
                   (db_sections (snd st))\<rparr>)
      | _ \<Rightarrow> (FormNotFound, st))"

section \<open>The order of sections\<close>

datatype reorder_response = ReorderNotFound | BadDirection | Reordered "nat list" | ReorderCrash py_error

definition display_order :: "nat \<Rightarrow> db \<Rightarrow> section_row list" where
  "display_order chart s = order_by (\<lambda>x. (section_ordering x, section_name x)) (filter (\<lambda>x. section_chart x = chart) (db_sections s))"

definition set_ordering :: "nat \<Rightarrow> int \<Rightarrow> section_row list \<Rightarrow> section_row list" where
  "set_ordering pk n = update_rows (\<lambda>x. section_pk x = pk) (\<lambda>x. x\<lparr>section_ordering := n\<rparr>)"

text \<open>
  The section and its neighbour trade their \<open>ordering\<close>. The body is a decoded JSON value, none when it
  does not decode (the code goes on with an empty dictionary); a value without \<open>get\<close> is a crash.
\<close>

definition move_section :: "nat \<Rightarrow> nat \<Rightarrow> bool \<Rightarrow> db \<Rightarrow> db" where
  "move_section chart pk up s =
     (let secs = display_order chart s; i = length (takeWhile (\<lambda>x. section_pk x \<noteq> pk) secs);
          j = (if up then int i - 1 else int i + 1)
      in if i < length secs \<and> 0 \<le> j \<and> j < int (length secs)
         then s\<lparr>db_sections := set_ordering (section_pk (secs ! nat j)) (section_ordering (secs ! i))
                  (set_ordering pk (section_ordering (secs ! nat j)) (db_sections s))\<rparr>
         else s)"

definition section_reorder :: "nat \<Rightarrow> nat \<Rightarrow> nat \<Rightarrow> json option \<Rightarrow> db \<Rightarrow> reorder_response \<times> db" where
  "section_reorder organization chart pk body s =
     (if org_chart organization chart s = None \<or>
         \<not> qs_exists (\<lambda>x. section_pk x = pk \<and> section_organization x = organization \<and> section_chart x = chart) (db_sections s)
        then (ReorderNotFound, s)
      else case (case body of None \<Rightarrow> JDict [] | Some j \<Rightarrow> j) of
             JDict d \<Rightarrow>
               (let direction = dict_get ''direction'' d
                in if direction \<noteq> JStr ''up'' \<and> direction \<noteq> JStr ''down'' then (BadDirection, s)
                   else let s' = move_section chart pk (direction = JStr ''up'') s
                        in (Reordered (map section_pk (display_order chart s')), s'))
           | _ \<Rightarrow> (ReorderCrash AttributeError, s))"

section \<open>Promo codes\<close>

record promo_fields =
  prf_code :: "string option"
  prf_kind :: "promo_kind option"
  prf_value :: "int option"
  prf_currency :: string
  prf_starts_at :: "time option"
  prf_ends_at :: "time option"
  prf_max_redemptions :: "int option"
  prf_min_order_amount :: "cents option"
  prf_is_active :: bool
  prf_rejected :: "string list"

definition clean_code :: "nat \<Rightarrow> nat option \<Rightarrow> promo_fields \<Rightarrow> db \<Rightarrow> form_error list" where
  "clean_code organization inst f s =
     (case prf_code f of
        None \<Rightarrow> []
      | Some c \<Rightarrow>
          if normalize_code c \<noteq> [] \<and> qs_exists (\<lambda>p. promo_organization p = organization \<and>
               promo_code_text p = normalize_code c \<and> Some (promo_pk p) \<noteq> inst) (db_promos s)
          then [PromoCodeTaken] else [])"

definition clean_value :: "promo_fields \<Rightarrow> form_error list" where
  "clean_value f =
     (case prf_value f of
        None \<Rightarrow> []
      | Some v \<Rightarrow>
          if prf_kind f = Some PERCENT \<and> \<not> (0 \<le> v \<and> v \<le> 10000) then [PercentOutOfRange]
          else if prf_kind f = Some FIXED \<and> v \<le> 0 then [FixedNotPositive]
          else [])"

definition promo_errors :: "nat \<Rightarrow> nat option \<Rightarrow> promo_fields \<Rightarrow> db \<Rightarrow> form_error list" where
  "promo_errors organization inst f s =
     rejections (missing [(''code'', prf_code f = None), (''kind'', prf_kind f = None), (''value'', prf_value f = None)] @ prf_rejected f) @
     clean_code organization inst f s @ clean_value f"

definition write_promo :: "promo_fields \<Rightarrow> promo_code \<Rightarrow> promo_code" where
  "write_promo f p =
     p\<lparr>promo_code_text := normalize_code (the (prf_code f)), promo_kind := the (prf_kind f), promo_value := the (prf_value f),
       promo_currency := prf_currency f, promo_starts_at := prf_starts_at f, promo_ends_at := prf_ends_at f,
       promo_max_redemptions := prf_max_redemptions f, promo_min_order_amount := prf_min_order_amount f,
       promo_is_active := prf_is_active f\<rparr>"

definition promo_form_create :: "nat \<Rightarrow> promo_fields \<Rightarrow> db \<Rightarrow> form_response \<times> db" where
  "promo_form_create organization f s =
     (if promo_errors organization None f s \<noteq> [] then (FormInvalid (promo_errors organization None f s), s)
      else case create_promo (write_promo f \<lparr>promo_pk = 0, promo_organization = organization, promo_code_text = '''',
                  promo_kind = PERCENT, promo_value = 0, promo_currency = '''', promo_starts_at = None, promo_ends_at = None,
                  promo_max_redemptions = None, promo_redemption_count = 0, promo_min_order_amount = None,
                  promo_is_active = True\<rparr>) s of
             Inr (p, s') \<Rightarrow> (FormSaved (promo_pk p), s')
           | Inl (PyErr e) \<Rightarrow> (FormCrash e, s)
           | Inl _ \<Rightarrow> (FormCrash AttributeError, s))"

definition org_promo :: "nat \<Rightarrow> nat \<Rightarrow> db \<Rightarrow> promo_code option" where
  "org_promo organization pk s = first_row (filter (\<lambda>p. promo_pk p = pk \<and> promo_organization p = organization) (db_promos s))"

definition promo_form_update :: "nat \<Rightarrow> nat \<Rightarrow> promo_fields \<Rightarrow> db \<Rightarrow> form_response \<times> db" where
  "promo_form_update organization pk f s =
     (case org_promo organization pk s of
        None \<Rightarrow> (FormNotFound, s)
      | Some p \<Rightarrow>
          let p' = write_promo f p
          in if promo_errors organization (Some pk) f s \<noteq> [] then (FormInvalid (promo_errors organization (Some pk) f s), s)
             else if qs_exists (\<lambda>x. promo_pk x \<noteq> pk \<and> promo_organization x = organization \<and> promo_code_text x = promo_code_text p') (db_promos s)
               then (FormCrash (IntegrityError UniquePromoCode), s)
             else if promo_value p' < 0 then (FormCrash (IntegrityError PromoValueNonnegative), s)
             else (FormSaved pk, s\<lparr>db_promos := update_rows (\<lambda>x. promo_pk x = pk) (\<lambda>_. p') (db_promos s)\<rparr>))"

definition promo_deactivate :: "nat \<Rightarrow> nat \<Rightarrow> db \<Rightarrow> form_response \<times> db" where
  "promo_deactivate organization pk s =
     (case org_promo organization pk s of
        None \<Rightarrow> (FormNotFound, s)
      | Some p \<Rightarrow> (FormSaved pk, s\<lparr>db_promos := update_rows (\<lambda>x. promo_pk x = pk)
             (\<lambda>x. x\<lparr>promo_is_active := \<not> promo_is_active p\<rparr>) (db_promos s)\<rparr>))"

section \<open>Passes\<close>

record product_fields =
  paf_name :: "string option"
  paf_kind :: "pass_kind option"
  paf_price :: "cents option"
  paf_credit_count :: "int option"
  paf_valid_from :: "time option"
  paf_valid_until :: "time option"
  paf_events :: "nat list"
  paf_is_active :: bool
  paf_rejected :: "string list"

definition clean_product :: "product_fields \<Rightarrow> form_error list" where
  "clean_product f =
     (if paf_kind f = Some FLEX
      then (case paf_credit_count f of None \<Rightarrow> [FlexNeedsCredits] | Some n \<Rightarrow> if n \<le> 0 then [FlexNeedsCredits] else [])
      else if paf_kind f = Some SEASON
      then (case paf_credit_count f of None \<Rightarrow> [] | Some n \<Rightarrow> if n \<noteq> 0 then [SeasonHasCredits] else [])
      else []) @
     (case paf_price f of None \<Rightarrow> [] | Some p \<Rightarrow> if p < 0 then [PriceIsNegative] else [])"

text \<open>\<open>passproduct_credit_shape\<close>; Django checks it of the row when neither field was rejected.\<close>

definition credit_shape :: "pass_kind \<Rightarrow> int option \<Rightarrow> bool" where
  "credit_shape kind n \<longleftrightarrow> (case (kind, n) of (FLEX, Some c) \<Rightarrow> 0 < c | (SEASON, None) \<Rightarrow> True | _ \<Rightarrow> False)"

definition shape_errors :: "product_fields \<Rightarrow> form_error list" where
  "shape_errors f =
     (case paf_kind f of
        None \<Rightarrow> []
      | Some kind \<Rightarrow>
          if ''credit_count'' \<in> set (paf_rejected f) \<or> FlexNeedsCredits \<in> set (clean_product f) \<or>
             SeasonHasCredits \<in> set (clean_product f) \<or> credit_shape kind (paf_credit_count f)
          then [] else [ShapeViolated])"

text \<open>The events offered are the theater's own.\<close>

definition event_choice_errors :: "nat \<Rightarrow> product_fields \<Rightarrow> db \<Rightarrow> form_error list" where
  "event_choice_errors organization f s =
     (if \<forall>k\<in>set (paf_events f). org_event organization k s \<noteq> None then [] else [InvalidChoice ''events''])"

definition product_errors :: "nat \<Rightarrow> product_fields \<Rightarrow> db \<Rightarrow> form_error list" where
  "product_errors organization f s =
     rejections (missing [(''name'', paf_name f = None), (''kind'', paf_kind f = None), (''price'', paf_price f = None)] @ paf_rejected f) @
     event_choice_errors organization f s @ clean_product f @ shape_errors f"

definition write_product :: "product_fields \<Rightarrow> pass_product \<Rightarrow> pass_product" where
  "write_product f p =
     p\<lparr>prod_name := the (paf_name f), prod_kind := the (paf_kind f), prod_price := the (paf_price f),
       prod_credit_count := paf_credit_count f, prod_valid_from := paf_valid_from f, prod_valid_until := paf_valid_until f,
       prod_events := fromkeys (paf_events f), prod_is_active := paf_is_active f\<rparr>"

definition product_create :: "nat \<Rightarrow> product_fields \<Rightarrow> db \<Rightarrow> form_response \<times> db" where
  "product_create organization f s =
     (if product_errors organization f s \<noteq> [] then (FormInvalid (product_errors organization f s), s)
      else let p = write_product f \<lparr>prod_pk = db_next s, prod_organization = organization, prod_name = '''', prod_kind = SEASON,
                     prod_price = 0, prod_credit_count = None, prod_valid_from = None, prod_valid_until = None,
                     prod_events = [], prod_is_active = True\<rparr>
           in if \<not> (credit_shape (prod_kind p) (prod_credit_count p) \<and> 0 \<le> prod_price p)
                then (FormCrash (IntegrityError PassProductShape), s)
              else (FormSaved (prod_pk p), s\<lparr>db_products := db_products s @ [p], db_next := Suc (db_next s)\<rparr>))"

definition org_product :: "nat \<Rightarrow> nat \<Rightarrow> db \<Rightarrow> pass_product option" where
  "org_product organization pk s = first_row (filter (\<lambda>p. prod_pk p = pk \<and> prod_organization p = organization) (db_products s))"

definition product_update :: "nat \<Rightarrow> nat \<Rightarrow> product_fields \<Rightarrow> db \<Rightarrow> form_response \<times> db" where
  "product_update organization pk f s =
     (case org_product organization pk s of
        None \<Rightarrow> (FormNotFound, s)
      | Some p0 \<Rightarrow>
          let p = write_product f p0
          in if product_errors organization f s \<noteq> [] then (FormInvalid (product_errors organization f s), s)
             else if \<not> (credit_shape (prod_kind p) (prod_credit_count p) \<and> 0 \<le> prod_price p)
               then (FormCrash (IntegrityError PassProductShape), s)
             else (FormSaved pk, s\<lparr>db_products := update_rows (\<lambda>x. prod_pk x = pk) (\<lambda>_. p) (db_products s)\<rparr>))"

definition pass_toggle :: "nat \<Rightarrow> nat \<Rightarrow> db \<Rightarrow> form_response \<times> db" where
  "pass_toggle organization pk s =
     (case org_product organization pk s of
        None \<Rightarrow> (FormNotFound, s)
      | Some p \<Rightarrow> (FormSaved pk, s\<lparr>db_products := update_rows (\<lambda>x. prod_pk x = pk)
             (\<lambda>x. x\<lparr>prod_is_active := \<not> prod_is_active p\<rparr>) (db_products s)\<rparr>))"

section \<open>Donation settings\<close>

text \<open>\<open>",".join\<close>, and \<open>clean_suggested_amounts\<close>: an exception that leaves the view, an error, or the cleaned value.\<close>

fun join_on :: "char \<Rightarrow> string list \<Rightarrow> string" where
  "join_on c [] = []"
| "join_on c [x] = x"
| "join_on c (x # y # ys) = x @ c # join_on c (y # ys)"

fun clean_amounts :: "string list \<Rightarrow> py_error + (form_error + string list)" where
  "clean_amounts [] = Inr (Inr [])"
| "clean_amounts (chunk # later) =
     (let c = strip chunk
      in if c = [] then clean_amounts later
         else case parse_decimal c of
                None \<Rightarrow> Inr (Inl (BadAmount c))
              | Some v \<Rightarrow>
                  (case decimal_positive v of
                     None \<Rightarrow> Inl InvalidOperation
                   | Some False \<Rightarrow> Inr (Inl (AmountNotPositive c))
                   | Some True \<Rightarrow> bindE (clean_amounts later) (\<lambda>r. Inr (bindE r (\<lambda>cs. Inr (c # cs))))))"

definition clean_suggested_amounts :: "string \<Rightarrow> py_error + (form_error + string)" where
  "clean_suggested_amounts raw =
     bindE (clean_amounts (split_on CHR '','' raw)) (\<lambda>r.
       Inr (bindE r (\<lambda>cs. if cs = [] then Inl NoAmounts else Inr (join_on CHR '','' cs))))"

record settings_fields =
  dsf_is_active :: bool
  dsf_name :: "string option"
  dsf_suggested_amounts :: "string option"
  dsf_acknowledgment :: string
  dsf_rejected :: "string list"

definition settings_missing :: "settings_fields \<Rightarrow> string list" where
  "settings_missing f = missing [(''name'', dsf_name f = None), (''suggested_amounts'', dsf_suggested_amounts f = None)] @ dsf_rejected f"

text \<open>The campaign is created on the first visit, before the form is looked at.\<close>

definition donation_settings :: "nat \<Rightarrow> settings_fields \<Rightarrow> time \<Rightarrow> db \<Rightarrow> form_response \<times> db" where
  "donation_settings organization f now s =
     (let (c, s1) = get_or_create_general_fund organization now s
      in case (case dsf_suggested_amounts f of None \<Rightarrow> Inr (Inr []) | Some raw \<Rightarrow> clean_suggested_amounts raw) of
           Inl e \<Rightarrow> (FormCrash e, s1)
         | Inr (Inl e) \<Rightarrow> (FormInvalid (rejections (settings_missing f) @ [e]), s1)
         | Inr (Inr amounts) \<Rightarrow>
             if settings_missing f \<noteq> [] then (FormInvalid (rejections (settings_missing f)), s1)
             else (FormSaved (camp_pk c), s1\<lparr>db_campaigns := update_rows (\<lambda>x. camp_pk x = camp_pk c)
                    (\<lambda>x. x\<lparr>camp_is_active := dsf_is_active f, camp_name := the (dsf_name f),
                           camp_suggested_amounts := amounts, camp_acknowledgment := dsf_acknowledgment f\<rparr>) (db_campaigns s1)\<rparr>))"

text \<open>The staff's tags of a guest (\<open>audience_detail\<close>); consent is not a field of the form.\<close>

definition save_guest_tags :: "nat \<Rightarrow> nat \<Rightarrow> string \<Rightarrow> db \<Rightarrow> form_response \<times> db" where
  "save_guest_tags organization pk tags s =
     (if \<not> qs_exists (\<lambda>g. guest_pk g = pk \<and> guest_organization g = organization) (db_guests s) then (FormNotFound, s)
      else (FormSaved pk, s\<lparr>db_guests := update_rows (\<lambda>g. guest_pk g = pk) (\<lambda>g. g\<lparr>guest_tags := tags\<rparr>) (db_guests s)\<rparr>))"

end
