(* ===== verification/CatalogueFacts.thy ===== *)
theory CatalogueFacts
  imports Catalogue
begin

text \<open>
  What the back office's forms promise: the checks made by hand foresee every constraint the
  database would raise, what is saved is what the public pages find, and the order of sections is
  moved one place. Two forms whose checks are missing are shown to crash.
\<close>

section \<open>Answers\<close>

text \<open>A post is answered when it is saved, or when nothing has changed and the form is shown again.\<close>

definition answered :: "'s \<Rightarrow> form_response \<times> 's \<Rightarrow> bool" where
  "answered s out = (case fst out of FormCrash e \<Rightarrow> False | FormSaved k \<Rightarrow> True | _ \<Rightarrow> snd out = s)"

lemma answered_simps [simp]:
  "answered s (FormNotFound, s)" "answered s (FormInvalid es, s)" "answered s (FormSaved k, s')" "\<not> answered s (FormCrash e, s')"
  by (simp_all add: answered_def)

text \<open>Rows refer to rows of their own theater, and to rows that exist.\<close>

definition rows_at_home :: "db \<Rightarrow> bool" where
  "rows_at_home s \<longleftrightarrow>
     (\<forall>a\<in>set (db_allocations s). alloc_performance a < db_next s \<and>
        (\<forall>p\<in>set (db_performances s). alloc_performance a = perf_pk p \<longrightarrow> alloc_organization a = perf_organization p)) \<and>
     (\<forall>x\<in>set (db_sections s). \<forall>c\<in>set (db_charts s). section_chart x = chart_pk c \<longrightarrow> section_organization x = chart_organization c)"

lemma no_missing: "rejections (missing checks @ rs) = [] \<longleftrightarrow> (\<forall>x\<in>set checks. \<not> snd x) \<and> rs = []"
  by (auto simp: rejections_def missing_def filter_empty_conv)

section \<open>Promo codes\<close>

lemma normalize_empty: "normalize_code c = [] \<longleftrightarrow> strip c = []"
  by (simp add: normalize_code_def upper_def)

lemma promo_clean:
  assumes "promo_errors g inst f s = []" and "\<forall>c. prf_code f = Some c \<longrightarrow> strip c \<noteq> []"
  shows "0 \<le> the (prf_value f)"
    and "\<forall>p\<in>set (db_promos s). promo_organization p = g \<longrightarrow> promo_code_text p = normalize_code (the (prf_code f)) \<longrightarrow> Some (promo_pk p) = inst"
proof -
  have "prf_code f \<noteq> None" "prf_kind f \<noteq> None" "prf_value f \<noteq> None"
    using assms(1) by (simp_all add: promo_errors_def no_missing)
  then obtain c k v where f: "prf_code f = Some c" "prf_kind f = Some k" "prf_value f = Some v" by auto
  have cv: "clean_code g inst f s = []" "clean_value f = []" using assms(1) by (simp_all add: promo_errors_def)
  show "0 \<le> the (prf_value f)" using cv(2) f by (cases k) (simp_all add: clean_value_def split: if_splits)
  have "normalize_code c \<noteq> []" using assms(2) f(1) by (simp add: normalize_empty)
  with cv(1) f(1) show "\<forall>p\<in>set (db_promos s). promo_organization p = g \<longrightarrow> promo_code_text p = normalize_code (the (prf_code f)) \<longrightarrow> Some (promo_pk p) = inst"
    by (auto simp: clean_code_def qs_exists_def list_ex_iff split: if_splits)
qed

lemma promo_create_answered:
  assumes "\<forall>c. prf_code f = Some c \<longrightarrow> strip c \<noteq> []"
  shows "answered s (promo_form_create g f s)"
proof (cases "promo_errors g None f s = []")
  case True
  from promo_clean [OF True assms] show ?thesis by (auto simp: promo_form_create_def create_promo_def Let_def write_promo_def)
qed (simp add: promo_form_create_def)

lemma promo_update_answered:
  assumes "\<forall>c. prf_code f = Some c \<longrightarrow> strip c \<noteq> []"
  shows "answered s (promo_form_update g k f s)"
proof (cases "promo_errors g (Some k) f s = []")
  case True
  from promo_clean [OF True assms] show ?thesis
    by (auto simp: promo_form_update_def Let_def write_promo_def qs_exists_def list_ex_iff split: option.split)
qed (simp add: promo_form_update_def Let_def split: option.split)

section \<open>Passes\<close>

lemma product_clean:
  assumes "product_errors g f s = []"
  shows "credit_shape (the (paf_kind f)) (paf_credit_count f)" "0 \<le> the (paf_price f)"
proof -
  have f: "paf_kind f \<noteq> None" "paf_price f \<noteq> None" "paf_rejected f = []" "clean_product f = []" "shape_errors f = []"
    using assms by (simp_all add: product_errors_def no_missing)
  then show "credit_shape (the (paf_kind f)) (paf_credit_count f)" by (auto simp: shape_errors_def split: if_splits)
  from f(2,4) show "0 \<le> the (paf_price f)" by (auto simp: clean_product_def split: if_splits)
qed

lemma products_answered: "answered s (product_create g f s)" "answered s (product_update g k f s)"
  using product_clean by (auto simp: product_create_def product_update_def Let_def write_product_def split: option.split)

section \<open>Performances\<close>

lemma put_allocation_fits:
  assumes "\<And>a. a \<in> set (db_allocations s) \<Longrightarrow> alloc_performance a = k \<Longrightarrow> alloc_organization a = g"
    and "\<And>a. allocation_of k s = Some a \<Longrightarrow> alloc_sold a \<le> n"
  shows "\<exists>s'. put_allocation g k n s = Inr s'"
proof -
  have "filter (\<lambda>a. alloc_organization a = g \<and> alloc_performance a = k) (db_allocations s) =
      filter (\<lambda>a. alloc_performance a = k) (db_allocations s)"
    using assms(1) by (intro filter_cong refl) auto
  then show ?thesis using assms(2)
    by (auto simp: put_allocation_def allocation_of_def qs_exists_def list_ex_iff filter_empty_conv split: option.split)
qed

lemma capacity_clean:
  assumes "performance_errors g inst f s = []" and "inst = Some p" and "pf_seating_mode f = Some GA" and "allocation_of (perf_pk p) s = Some a"
  shows "alloc_sold a \<le> the (cleaned_capacity f)"
  using assms by (auto simp: performance_errors_def capacity_errors_def split: option.splits if_splits)

lemma performance_create_answered:
  assumes "rows_at_home s"
  shows "answered s (performance_create g ev f s)"
proof (cases "org_event g ev s = None \<or> performance_errors g None f s \<noteq> []")
  case True
  then show ?thesis by (auto simp: performance_create_def Let_def split: option.split)
next
  case False
  define s1 where "s1 p = s\<lparr>db_performances := db_performances s @ [p], db_next := Suc (db_next s)\<rparr>" for p
  have fresh: "alloc_performance a \<noteq> db_next s" if "a \<in> set (db_allocations s)" for a
    using assms that by (auto simp: rows_at_home_def)
  have "\<exists>s'. put_allocation g (db_next s) n (s1 p) = Inr s'" for n p
    by (rule put_allocation_fits) (use fresh in \<open>auto simp: s1_def allocation_of_def dest!: first_row_Some\<close>)
  then have "answered s (save_performance g f p (s1 p))" if "perf_pk p = db_next s" for p
    using that by (auto simp: save_performance_def split: sum.split) (metis sum.distinct(1) that)
  with False show ?thesis by (auto simp: performance_create_def Let_def s1_def write_performance_def)
qed

lemma performance_update_answered:
  assumes "rows_at_home s"
  shows "answered s (performance_update g k f s)"
proof (cases "org_performance g k s")
  case (Some p)
  show ?thesis
  proof (cases "performance_errors g (Some p) f s = []")
    case True
    let ?p = "write_performance g (perf_event p) f p"
    let ?s = "s\<lparr>db_performances := update_rows (\<lambda>x. perf_pk x = k) (\<lambda>_. ?p) (db_performances s)\<rparr>"
    have p: "p \<in> set (db_performances s)" "perf_pk p = k" "perf_organization p = g"
      using Some by (auto simp: org_performance_def dest!: first_row_Some)
    have "\<exists>s'. put_allocation g k (the (cleaned_capacity f)) ?s = Inr s'" if "pf_seating_mode f = Some GA"
      using assms p capacity_clean [OF True refl that]
      by (intro put_allocation_fits) (auto simp: rows_at_home_def allocation_of_def)
    moreover have "perf_seating_mode ?p = the (pf_seating_mode f)" "perf_pk ?p = k" "pf_seating_mode f \<noteq> None"
      using True p by (simp_all add: write_performance_def performance_errors_def no_missing)
    ultimately have "answered s (save_performance g f ?p ?s)" by (auto simp: save_performance_def)
    with Some True show ?thesis by (simp add: performance_update_def Let_def)
  qed (simp add: performance_update_def Some Let_def)
qed (simp add: performance_update_def)

section \<open>Sections\<close>

lemma section_clean:
  assumes "section_errors g c inst f s = []" and "\<forall>n. sf_name f = Some n \<longrightarrow> n \<noteq> []" and "rows_at_home s" and "org_chart g c s \<noteq> None"
  shows "\<forall>x\<in>set (db_sections s). section_chart x = c \<longrightarrow> section_name x = the (sf_name f) \<longrightarrow> Some (section_pk x) = inst"
proof -
  obtain n where n: "sf_name f = Some n" using assms(1) by (auto simp: section_errors_def no_missing)
  obtain ch where ch: "ch \<in> set (db_charts s)" "chart_pk ch = c" "chart_organization ch = g"
    using assms(4) by (auto simp: org_chart_def filter_empty_conv)
  have "section_organization x = g" if "x \<in> set (db_sections s)" "section_chart x = c" for x
    using assms(3) ch that by (auto simp: rows_at_home_def)
  moreover have "n \<noteq> []" using assms(2) n by simp
  ultimately show ?thesis using assms(1) n by (auto simp: section_errors_def no_missing qs_exists_def list_ex_iff split: if_splits)
qed

lemma sections_answered:
  assumes "\<forall>n. sf_name f = Some n \<longrightarrow> n \<noteq> []" and "rows_at_home (snd st)"
  shows "answered st (section_create g c f st)" "answered st (section_update g c k f st)"
proof -
  show "answered st (section_create g c f st)"
  proof (cases "org_chart g c (snd st) = None \<or> section_errors g c None f (snd st) \<noteq> []")
    case False
    with section_clean [OF _ assms, of g c None] have
      "\<forall>x\<in>set (db_sections (snd st)). section_chart x = c \<longrightarrow> section_name x \<noteq> the (sf_name f)" by fastforce
    with False show ?thesis
      by (auto simp: section_create_def Let_def create_section_def write_section_def default_section_def)
  qed (auto simp: section_create_def Let_def split: option.split)
  show "answered st (section_update g c k f st)"
  proof (cases "org_chart g c (snd st) = None \<or> section_errors g c (Some k) f (snd st) \<noteq> []")
    case False
    with section_clean [OF _ assms, of g c "Some k"] have
      "\<forall>x\<in>set (db_sections (snd st)). section_chart x = c \<longrightarrow> section_name x = the (sf_name f) \<longrightarrow> section_pk x = k" by fastforce
    with False show ?thesis
      by (auto simp: section_update_def Let_def qs_exists_def list_ex_iff split: option.split)
  qed (auto simp: section_update_def Let_def split: option.split)
qed

section \<open>Codes and the buyers who type them\<close>

lemma promo_form_saved:
  assumes "promo_form_create g f s = (FormSaved k, s')"
  shows "\<exists>p. promo_pk p = k \<and> promo_organization p = g \<and> promo_code_text p = normalize_code (the (prf_code f)) \<and> promo_value p = the (prf_value f) \<and>
     promo_kind p = the (prf_kind f) \<and> db_promos s' = db_promos s @ [p] \<and>
     (\<forall>x\<in>set (db_promos s). \<not> (promo_organization x = g \<and> promo_code_text x = promo_code_text p))"
  using assms by (auto simp: promo_form_create_def create_promo_def Let_def write_promo_def split: if_splits)

section \<open>Suggested amounts\<close>

lemma split_on_chunks: "x \<in> set (split_on c t) \<Longrightarrow> c \<notin> set x"
  by (induction t arbitrary: x) (auto split: if_splits list.splits)

lemma set_strip: "set (strip t) \<subseteq> set t"
  by (auto simp: strip_def dest!: set_dropWhileD)

lemma split_join: "cs \<noteq> [] \<Longrightarrow> \<forall>x\<in>set cs. c \<notin> set x \<Longrightarrow> split_on c (join_on c cs) = cs"
  by (induction c cs rule: join_on.induct) (simp_all add: split_on_no_sep split_on_append)

text \<open>What the form accepts is the list of the non-blank chunks, each the text of a positive number.\<close>

definition wanted :: "string \<Rightarrow> bool" where
  "wanted c \<longleftrightarrow> (\<exists>v. parse_decimal c = Some v \<and> decimal_positive v = Some True)"

lemma clean_amounts_ok:
  "clean_amounts parts = Inr (Inr cs) \<Longrightarrow> cs = filter (\<lambda>c. c \<noteq> []) (map strip parts) \<and> (\<forall>c\<in>set cs. wanted c)"
proof (induction parts arbitrary: cs)
  case (Cons chunk later)
  show ?case
  proof (cases "strip chunk = []")
    case False
    then obtain v where v: "parse_decimal (strip chunk) = Some v" using Cons.prems by (auto simp: Let_def split: option.splits)
    then have p: "decimal_positive v = Some True" using Cons.prems False by (auto simp: Let_def split: option.splits bool.splits)
    then obtain ds where "clean_amounts later = Inr (Inr ds)" "cs = strip chunk # ds"
      using Cons.prems False v by (auto)
    with Cons.IH False v p show ?thesis by (auto simp: wanted_def)
  qed (use Cons in auto)
qed simp

lemma suggested_all: "\<forall>c\<in>set cs. wanted c \<and> strip c = c \<and> c \<noteq> [] \<Longrightarrow> suggested_loop cs = Inr (map (\<lambda>c. the (parse_decimal c)) cs)"
  by (induction cs) (auto simp: wanted_def or_raise_def)

lemma clean_suggested_ok:
  assumes "clean_suggested_amounts raw = Inr (Inr amounts)"
  shows "\<exists>cs. cs = filter (\<lambda>c. c \<noteq> []) (map strip (split_on CHR '','' raw)) \<and> cs \<noteq> [] \<and> (\<forall>c\<in>set cs. wanted c) \<and>
     suggested_loop (split_on CHR '','' amounts) = Inr (map (\<lambda>c. the (parse_decimal c)) cs)"
proof -
  from assms obtain cs where c: "clean_amounts (split_on CHR '','' raw) = Inr (Inr cs)" and ne: "cs \<noteq> []"
    and a: "amounts = join_on CHR '','' cs"
    by (auto simp: clean_suggested_amounts_def split: if_splits)
  from clean_amounts_ok [OF c] have cs: "cs = filter (\<lambda>c. c \<noteq> []) (map strip (split_on CHR '','' raw))" "\<forall>c\<in>set cs. wanted c" by auto
  have "\<forall>x\<in>set cs. CHR '','' \<notin> set x" unfolding cs(1) using split_on_chunks set_strip by fastforce
  with a ne have "split_on CHR '','' amounts = cs" by (simp add: split_join)
  moreover have "\<forall>c\<in>set cs. wanted c \<and> strip c = c \<and> c \<noteq> []" using cs by auto
  ultimately show ?thesis using cs ne suggested_all by blast
qed

section \<open>Moving sections\<close>

lemma sorted_wrt_strict:
  fixes f :: "'a \<Rightarrow> 'b::linorder"
  assumes "sorted_wrt P xs" and "distinct xs" and "inj_on f (set xs)" and "\<And>x y. P x y \<Longrightarrow> f x \<le> f y"
  shows "sorted_wrt (\<lambda>x y. f x < f y) xs"
  using assms(1-3)
proof (induction xs)
  case (Cons x xs)
  have "f x < f y" if y: "y \<in> set xs" for y
  proof -
    have "f x \<le> f y" using Cons.prems(1) y assms(4) by simp
    moreover have "f x \<noteq> f y" using Cons.prems(2,3) y by (auto simp: inj_on_def)
    ultimately show ?thesis by simp
  qed
  with Cons show ?case by simp
qed simp

lemma sorted_wrt_less_inj:
  fixes f :: "'a \<Rightarrow> 'b::linorder"
  shows "sorted_wrt (\<lambda>x y. f x < f y) xs \<Longrightarrow> inj_on f (set xs)"
proof (induction xs)
  case (Cons x xs)
  then have "f x \<notin> f ` set xs" and "inj_on f (set xs)" by auto
  then show ?case by auto
qed simp

lemma neighbours_distinct:
  assumes "distinct (map f (xs @ a # b # ys))"
  shows "f a \<noteq> f b" "\<forall>x\<in>set (xs @ ys). f x \<noteq> f a \<and> f x \<noteq> f b" "distinct (xs @ a # b # ys)"
proof -
  show "f a \<noteq> f b" using assms by simp
  have "f a \<notin> f ` set (xs @ ys)" "f b \<notin> f ` set (xs @ ys)" using assms by auto
  then show "\<forall>x\<in>set (xs @ ys). f x \<noteq> f a \<and> f x \<noteq> f b" by (metis image_eqI)
  show "distinct (xs @ a # b # ys)" using assms unfolding distinct_map by (rule conjunct1)
qed

lemma display_order_rows:
  assumes "display_order c s = rows"
  shows "mset (filter (\<lambda>x. section_chart x = c) (db_sections s)) = mset rows"
    and "set rows = {x \<in> set (db_sections s). section_chart x = c}"
    and "distinct (map section_pk (db_sections s)) \<Longrightarrow> distinct (map section_pk rows)"
proof -
  show m: "mset (filter (\<lambda>x. section_chart x = c) (db_sections s)) = mset rows"
    unfolding assms [symmetric] display_order_def order_by_def by simp
  show "set rows = {x \<in> set (db_sections s). section_chart x = c}" using mset_eq_setD [OF m] by simp
  assume "distinct (map section_pk (db_sections s))"
  then have "distinct (map section_pk (filter (\<lambda>x. section_chart x = c) (db_sections s)))" by (rule distinct_map_filter)
  then show "distinct (map section_pk rows)" using m by (metis mset_map mset_eq_imp_distinct_iff)
qed

lemma display_order_move:
  assumes keys: "distinct (map section_pk (db_sections s))"
    and own: "inj_on section_ordering {x \<in> set (db_sections s). section_chart x = c}"
    and o: "display_order c s = xs @ a # b # ys"
    and s': "s' = s\<lparr>db_sections := map (\<lambda>x. if section_pk x = section_pk a then x\<lparr>section_ordering := section_ordering b\<rparr>
        else if section_pk x = section_pk b then x\<lparr>section_ordering := section_ordering a\<rparr> else x) (db_sections s)\<rparr>"
  shows "display_order c s' = xs @ b\<lparr>section_ordering := section_ordering a\<rparr> # a\<lparr>section_ordering := section_ordering b\<rparr> # ys"
proof -
  let ?k = "\<lambda>x. (section_ordering x, section_name x)"
  let ?mine = "filter (\<lambda>x. section_chart x = c) (db_sections s)"
  define f where "f x = (if section_pk x = section_pk a then x\<lparr>section_ordering := section_ordering b\<rparr>
      else if section_pk x = section_pk b then x\<lparr>section_ordering := section_ordering a\<rparr> else x)" for x :: section_row
  note m = display_order_rows(1) [OF o] and sub = display_order_rows(2) [OF o]
    and pks = neighbours_distinct(1,2) [OF display_order_rows(3) [OF o keys]] and d = neighbours_distinct(3) [OF display_order_rows(3) [OF o keys]]
  have "sorted (map ?k (xs @ a # b # ys))" using o by (metis display_order_def order_by_def sorted_sort_key)
  then have "sorted_wrt (\<lambda>x y. ?k x \<le> ?k y) (xs @ a # b # ys)" by (simp only: sorted_map)
  moreover have "inj_on section_ordering (set (xs @ a # b # ys))" unfolding sub by (rule own)
  ultimately have less: "sorted_wrt (\<lambda>x y. section_ordering x < section_ordering y) (xs @ a # b # ys)"
    by (rule sorted_wrt_strict [OF _ d]) (auto simp: less_eq_prod_def)
  have fs: "f a = a\<lparr>section_ordering := section_ordering b\<rparr>" "f b = b\<lparr>section_ordering := section_ordering a\<rparr>"
    "\<forall>x\<in>set (xs @ ys). f x = x" using pks by (auto simp: f_def)
  let ?new = "xs @ f b # f a # ys"
  have new: "?new = map f (xs @ b # a # ys)" using fs(3) by (auto intro: map_idI [symmetric])
  have "filter (\<lambda>x. section_chart x = c) (map f (db_sections s)) = map f ?mine"
    by (simp add: filter_map o_def f_def if_distrib cong: if_cong)
  then have "display_order c s' = sort_key ?k (map f ?mine)"
    unfolding display_order_def s' order_by_def by (simp add: f_def [abs_def])
  also have "\<dots> = ?new"
  proof (rule sort_key_inj_key_eq)
    show "mset (map f ?mine) = mset ?new" unfolding new using m by (simp add: mset_map)
    have lt: "sorted_wrt (\<lambda>x y. section_ordering x < section_ordering y) ?new" using less fs by (auto simp: sorted_wrt_append)
    then show "sorted (map ?k ?new)" by (simp only: sorted_map less_eq_prod_def, elim sorted_wrt_mono_rel [rotated], simp)
    have "inj_on section_ordering (set ?new)" using lt by (rule sorted_wrt_less_inj)
    then have "inj_on ?k (set ?new)" by (auto simp: inj_on_def)
    then show "inj_on ?k (set (map f ?mine))" using \<open>mset (map f ?mine) = mset ?new\<close> by (metis mset_eq_setD)
  qed
  finally show ?thesis by (simp add: fs)
qed

lemma set_orderings:
  assumes "section_pk b \<noteq> section_pk a"
  shows "set_ordering (section_pk a) n (set_ordering (section_pk b) m rows) =
     map (\<lambda>x. if section_pk x = section_pk a then x\<lparr>section_ordering := n\<rparr>
        else if section_pk x = section_pk b then x\<lparr>section_ordering := m\<rparr> else x) rows"
  using assms by (auto simp: set_ordering_def update_rows_def)

text \<open>The neighbours in the list of sections, whichever of the two is moved.\<close>

lemma move_section_eq:
  assumes "display_order c s = xs @ a # b # ys" and "distinct (map section_pk (xs @ a # b # ys))"
  shows "move_section c (section_pk b) True s = s\<lparr>db_sections := map (\<lambda>x. if section_pk x = section_pk a then x\<lparr>section_ordering := section_ordering b\<rparr>
        else if section_pk x = section_pk b then x\<lparr>section_ordering := section_ordering a\<rparr> else x) (db_sections s)\<rparr>"
    and "move_section c (section_pk a) False s = move_section c (section_pk b) True s"
proof -
  let ?P = "\<lambda>k x. section_pk x \<noteq> k"
  note ne = neighbours_distinct(1,2) [OF assms(2)]
  have idx: "length (takeWhile (?P (section_pk a)) (xs @ a # b # ys)) = length xs"
    "length (takeWhile (?P (section_pk b)) (xs @ a # b # ys)) = Suc (length xs)"
    using ne by (simp_all add: takeWhile_append)
  have up: "move_section c (section_pk b) True s =
      s\<lparr>db_sections := set_ordering (section_pk a) (section_ordering b) (set_ordering (section_pk b) (section_ordering a) (db_sections s))\<rparr>"
    and down: "move_section c (section_pk a) False s =
      s\<lparr>db_sections := set_ordering (section_pk b) (section_ordering a) (set_ordering (section_pk a) (section_ordering b) (db_sections s))\<rparr>"
    unfolding move_section_def assms(1) Let_def idx by (simp_all add: nth_append nat_add_distrib)
  show "move_section c (section_pk b) True s = s\<lparr>db_sections := map (\<lambda>x. if section_pk x = section_pk a then x\<lparr>section_ordering := section_ordering b\<rparr>
        else if section_pk x = section_pk b then x\<lparr>section_ordering := section_ordering a\<rparr> else x) (db_sections s)\<rparr>"
    unfolding up by (subst set_orderings) (use ne in simp_all)
  show "move_section c (section_pk a) False s = move_section c (section_pk b) True s"
    unfolding up down using ne(1) by (auto simp: set_ordering_def update_rows_def)
qed

text \<open>Moving the pair back restores the table.\<close>

lemma move_section_back:
  assumes keys: "distinct (map section_pk (db_sections s))"
    and own: "inj_on section_ordering {x \<in> set (db_sections s). section_chart x = c}"
    and o: "display_order c s = xs @ a # b # ys" and s': "s' = move_section c (section_pk b) True s"
  shows "map section_pk (display_order c s') = map section_pk (xs @ b # a # ys)" and "move_section c (section_pk b) False s' = s"
proof -
  note d = display_order_rows(3) [OF o keys]
  have "{a, b} \<subseteq> set (xs @ a # b # ys)" by simp
  then have ab: "a \<in> set (db_sections s)" "b \<in> set (db_sections s)" unfolding display_order_rows(2) [OF o] by simp_all
  note up = move_section_eq(1) [OF o d]
  let ?a = "a\<lparr>section_ordering := section_ordering b\<rparr>" and ?b = "b\<lparr>section_ordering := section_ordering a\<rparr>"
  have o': "display_order c s' = xs @ ?b # ?a # ys" by (rule display_order_move [OF keys own o]) (simp add: s' up)
  show "map section_pk (display_order c s') = map section_pk (xs @ b # a # ys)" by (simp add: o')
  have d': "distinct (map section_pk (xs @ ?b # ?a # ys))" using d by auto
  define f where "f x = (if section_pk x = section_pk a then x\<lparr>section_ordering := section_ordering b\<rparr>
      else if section_pk x = section_pk b then x\<lparr>section_ordering := section_ordering a\<rparr> else x)" for x :: section_row
  define g where "g x = (if section_pk x = section_pk ?b then x\<lparr>section_ordering := section_ordering ?a\<rparr>
      else if section_pk x = section_pk ?a then x\<lparr>section_ordering := section_ordering ?b\<rparr> else x)" for x :: section_row
  have "move_section c (section_pk ?b) False s' = move_section c (section_pk ?a) True s'" by (rule move_section_eq(2) [OF o' d'])
  also have "\<dots> = s\<lparr>db_sections := map (g \<circ> f) (db_sections s)\<rparr>"
    unfolding move_section_eq(1) [OF o' d'] unfolding s' up by (simp add: f_def [abs_def] g_def [abs_def])
  also have "map (g \<circ> f) (db_sections s) = db_sections s"
  proof (rule map_idI)
    fix x assume "x \<in> set (db_sections s)"
    then have "section_pk x = section_pk a \<Longrightarrow> x = a" "section_pk x = section_pk b \<Longrightarrow> x = b"
      using inj_onD [OF distinct_map [THEN iffD1, OF keys, THEN conjunct2]] ab by blast+
    then show "(g \<circ> f) x = x" using neighbours_distinct(1) [OF d] by (auto simp: f_def g_def)
  qed
  finally show "move_section c (section_pk b) False s' = s" by simp
qed

section \<open>Properties\<close>

text \<open>
  Property C26. The forms' own checks foresee the database: whatever is posted to create or change a promo
  code, a pass, a performance or a section, the post is saved or changes nothing and is answered
  with the errors (or with a 404). No unique or check constraint is left to raise.
\<close>

theorem valid_forms_are_saved:
  assumes "rows_at_home s" and "\<forall>c. prf_code prf = Some c \<longrightarrow> strip c \<noteq> []" and "\<forall>n. sf_name sf = Some n \<longrightarrow> n \<noteq> []"
  shows "answered s (promo_form_create g prf s) \<and> answered s (promo_form_update g k prf s) \<and>
    answered s (product_create g paf s) \<and> answered s (product_update g k paf s) \<and>
    answered s (performance_create g ev pf s) \<and> answered s (performance_update g k pf s) \<and>
    answered (lays, s) (section_create g c sf (lays, s)) \<and> answered (lays, s) (section_update g c k sf (lays, s))"
  by (intro conjI promo_create_answered promo_update_answered products_answered performance_create_answered
      performance_update_answered sections_answered) (use assms in simp_all)

text \<open>
  A code a manager saves is the code a buyer finds, however the buyer capitalizes it or pads
  it with blanks: the lookup of the checkout returns the row the form made.
\<close>

theorem saved_code_is_found:
  assumes "promo_form_create g f s = (FormSaved k, s')" and "normalize_code typed = normalize_code (the (prf_code f))" and "strip typed \<noteq> []"
  shows "\<exists>p. get_usable_code g typed s' = Some p \<and> promo_pk p = k \<and> promo_value p = the (prf_value f) \<and> promo_kind p = the (prf_kind f)"
proof -
  from promo_form_saved [OF assms(1)] obtain p where p: "promo_pk p = k" "promo_organization p = g"
      "promo_code_text p = normalize_code (the (prf_code f))" "promo_value p = the (prf_value f)" "promo_kind p = the (prf_kind f)"
    and s': "db_promos s' = db_promos s @ [p]"
    and new: "\<forall>x\<in>set (db_promos s). \<not> (promo_organization x = g \<and> promo_code_text x = promo_code_text p)" by blast
  have "filter (\<lambda>x. promo_organization x = g \<and> promo_code_text x = promo_code_text p) (db_promos s) = []"
    using new by (simp add: filter_empty_conv)
  moreover have "normalize_code typed = promo_code_text p" "promo_code_text p \<noteq> []"
    using assms(2,3) p(3) normalize_empty [of typed] by simp_all
  ultimately have "get_usable_code g typed s' = Some p" using p(2) by (simp add: get_usable_code_def s')
  with p show ?thesis by blast
qed

text \<open>
  What a manager enters as suggested amounts is what donors are offered: after the settings
  are saved, the campaign's list is, in order, the numbers written between the commas, blanks
  skipped; there is at least one, each is positive, and reading the list raises nothing.
\<close>

theorem saved_suggestions_are_all_shown:
  assumes "donation_settings g f now s = (FormSaved k, s')"
  shows "\<exists>c texts. get_row camp_pk k (db_campaigns s') = Some c \<and>
    texts = filter (\<lambda>t. t \<noteq> []) (map strip (split_on CHR '','' (the (dsf_suggested_amounts f)))) \<and> texts \<noteq> [] \<and>
    suggested_amount_list c = Inr (map (\<lambda>t. the (parse_decimal t)) texts) \<and>
    list_all (\<lambda>t. map_option decimal_positive (parse_decimal t) = Some (Some True)) texts"
proof -
  obtain c s1 where f: "get_or_create_general_fund g now s = (c, s1)" by (cases "get_or_create_general_fund g now s")
  have c: "c \<in> set (db_campaigns s1)"
    using f by (auto simp: get_or_create_general_fund_def campaigns_of_def order_by_def Let_def dest!: first_row_Some split: option.splits)
  obtain raw amounts where raw: "dsf_suggested_amounts f = Some raw" and a: "clean_suggested_amounts raw = Inr (Inr amounts)"
    and k: "k = camp_pk c"
    and s': "s' = s1\<lparr>db_campaigns := update_rows (\<lambda>x. camp_pk x = camp_pk c)
        (\<lambda>x. x\<lparr>camp_is_active := dsf_is_active f, camp_name := the (dsf_name f),
               camp_suggested_amounts := amounts, camp_acknowledgment := dsf_acknowledgment f\<rparr>) (db_campaigns s1)\<rparr>"
    using assms f by (auto simp: donation_settings_def settings_missing_def missing_def split: sum.splits option.splits if_splits)
  from clean_suggested_ok [OF a] obtain cs where cs: "cs = filter (\<lambda>c. c \<noteq> []) (map strip (split_on CHR '','' raw))" "cs \<noteq> []"
    "\<forall>c\<in>set cs. wanted c" "suggested_loop (split_on CHR '','' amounts) = Inr (map (\<lambda>c. the (parse_decimal c)) cs)" by blast
  obtain d where d: "get_row camp_pk k (db_campaigns s') = Some d" "camp_suggested_amounts d = amounts"
  proof (cases "get_row camp_pk k (db_campaigns s')")
    case None
    then have "k \<notin> set (map camp_pk (db_campaigns s'))" by (auto simp: get_row_def filter_empty_conv)
    moreover have "map camp_pk (db_campaigns s') = map camp_pk (db_campaigns s1)" by (simp add: s' update_rows_def)
    ultimately show ?thesis using c k by simp
  next
    case (Some d)
    then have "d \<in> set (db_campaigns s')" "camp_pk d = k" by (auto simp: get_row_def dest!: first_row_Some)
    then have "camp_suggested_amounts d = amounts" by (auto simp: s' k update_rows_def split: if_splits)
    with Some that show ?thesis by blast
  qed
  have "list_all (\<lambda>t. map_option decimal_positive (parse_decimal t) = Some (Some True)) cs"
    using cs(3) by (auto simp: list_all_iff wanted_def)
  with d cs raw show ?thesis by (intro exI [of _ d] exI [of _ cs]) (simp add: suggested_amount_list_def)
qed

text \<open>
  Moving a section up or down changes places with its neighbour: in a chart whose sections
  have different positions, sending the second of two neighbours up and sending the first down
  do the same, the answer is the old list with the two exchanged, and moving back restores every row.
\<close>

theorem section_moves_one_place:
  assumes "org_chart g c s \<noteq> None" and "\<forall>x\<in>set (db_sections s). section_chart x = c \<longrightarrow> section_organization x = g"
    and "distinct (map section_pk (db_sections s))" and "inj_on section_ordering {x \<in> set (db_sections s). section_chart x = c}"
    and "display_order c s = xs @ a # b # ys"
    and "up = Some (JDict [(''direction'', JStr ''up'')])" and "down = Some (JDict [(''direction'', JStr ''down'')])"
  shows "\<exists>s'. section_reorder g c (section_pk b) up s = (Reordered (map section_pk (xs @ b # a # ys)), s') \<and>
    section_reorder g c (section_pk a) down s = (Reordered (map section_pk (xs @ b # a # ys)), s') \<and>
    section_reorder g c (section_pk b) down s' = (Reordered (map section_pk (xs @ a # b # ys)), s)"
proof -
  let ?t = "move_section c (section_pk b) True s"
  note m = display_order_rows(2) [OF assms(5)] and d = display_order_rows(3) [OF assms(5,3)]
  have found: "qs_exists (\<lambda>x. section_pk x = section_pk r \<and> section_organization x = g \<and> section_chart x = c) (db_sections s)" if "r \<in> {a, b}" for r
  proof -
    have "r \<in> set (xs @ a # b # ys)" using that by auto
    then have "r \<in> set (db_sections s)" "section_chart r = c" unfolding m by simp_all
    with assms(2) show ?thesis unfolding qs_exists_def list_ex_iff by blast
  qed
  have same: "qs_exists (\<lambda>x. section_pk x = section_pk b \<and> section_organization x = g \<and> section_chart x = c) (db_sections ?t)"
  proof -
    have "b \<in> set (xs @ a # b # ys)" by simp
    then have b: "b \<in> set (db_sections s)" "section_chart b = c" unfolding m by simp_all
    let ?f = "\<lambda>x. if section_pk x = section_pk a then x\<lparr>section_ordering := section_ordering b\<rparr>
        else if section_pk x = section_pk b then x\<lparr>section_ordering := section_ordering a\<rparr> else x"
    have "set (db_sections ?t) = ?f ` set (db_sections s)" unfolding move_section_eq(1) [OF assms(5) d] by simp
    moreover have "?f b \<in> ?f ` set (db_sections s)" using b(1) by (rule imageI)
    ultimately have "?f b \<in> set (db_sections ?t)" by (simp only:)
    moreover have "section_pk (?f b) = section_pk b" "section_organization (?f b) = g" "section_chart (?f b) = c" using b assms(2) by simp_all
    ultimately show ?thesis unfolding qs_exists_def list_ex_iff by blast
  qed
  have ch: "org_chart g c ?t = org_chart g c s" by (simp add: move_section_eq(1) [OF assms(5) d] org_chart_def)
  note mb = move_section_back [OF assms(3,4,5) refl]
  have "section_reorder g c (section_pk b) up s = (Reordered (map section_pk (xs @ b # a # ys)), ?t)"
    "section_reorder g c (section_pk a) down s = (Reordered (map section_pk (xs @ b # a # ys)), ?t)"
    using assms(1,6,7) found [of a, simplified] found [of b, simplified] mb(1) move_section_eq(2) [OF assms(5) d] by (simp_all add: section_reorder_def Let_def)
  moreover have "section_reorder g c (section_pk b) down ?t = (Reordered (map section_pk (xs @ a # b # ys)), s)"
    using assms(1,5,7) same ch mb(2) by (simp add: section_reorder_def Let_def)
  ultimately show ?thesis by blast
qed

section \<open>Witnesses\<close>

definition demo_promo_form :: promo_fields where
  "demo_promo_form = \<lparr>prf_code = Some ''fall '', prf_kind = Some FIXED, prf_value = Some 300, prf_currency = ''USD'', prf_starts_at = None,
     prf_ends_at = None, prf_max_redemptions = None, prf_min_order_amount = None, prf_is_active = True, prf_rejected = []\<rparr>"

definition demo_room_form :: performance_fields where
  "demo_room_form = \<lparr>pf_venue = Some 5, pf_starts_at = Some 0, pf_seating_mode = Some GA, pf_seating_chart = None,
     pf_status = Some PERF_PUBLISHED, pf_ga_capacity = Some 1, pf_rejected = []\<rparr>"

definition demo_section_form :: section_fields where
  "demo_section_form = \<lparr>sf_name = Some ''Stalls'', sf_tier = [], sf_numbering_scheme = ''sequential'', sf_row_label_scheme = ''skip_io'',
     sf_row_label_start = None, sf_rejected = []\<rparr>"

definition demo_pass_form :: product_fields where
  "demo_pass_form = \<lparr>paf_name = Some ''Flex'', paf_kind = Some FLEX, paf_price = Some 100, paf_credit_count = None, paf_valid_from = None,
     paf_valid_until = None, paf_events = [], paf_is_active = True, paf_rejected = []\<rparr>"

lemmas demo_forms = demo_promo_form_def demo_room_form_def demo_section_form_def demo_pass_form_def

text \<open>Two tickets are sold: a capacity of one is refused by the form, not by the database.\<close>

definition half_sold :: db where
  "half_sold = demo\<lparr>db_allocations := [ga_room\<lparr>alloc_sold := 2\<rparr>]\<rparr>"

lemma demo_at_home: "rows_at_home half_sold"
  by (simp add: rows_at_home_def half_sold_def demo_def ga_room_def ga_show_def matinee_def evening_def stalls_def house_chart_def)

theorem valid_forms_are_saved_witness:
  "answered half_sold (performance_update 1 31 demo_room_form half_sold) \<and>
   fst (performance_update 1 31 demo_room_form half_sold) = FormInvalid [CapacityBelowSold 2]"
proof -
  have "\<forall>c. prf_code demo_promo_form = Some c \<longrightarrow> strip c \<noteq> []" by (simp add: demo_promo_form_def) code_simp
  moreover have "\<forall>n. sf_name demo_section_form = Some n \<longrightarrow> n \<noteq> []" by (simp add: demo_section_form_def)
  ultimately have "answered half_sold (performance_update 1 31 demo_room_form half_sold)"
    using valid_forms_are_saved [OF demo_at_home] by blast
  moreover have "performance_errors 1 (Some ga_show) demo_room_form half_sold = [CapacityBelowSold 2]"
    by (simp add: performance_errors_def rejections_def missing_def negative_capacity_def cleaned_capacity_def choice_errors_def
        capacity_errors_def chart_errors_def demo_room_form_def allocation_of_def half_sold_def ga_room_def ga_show_def org_venue_def
        demo_def main_hall_def)
  moreover have "org_performance 1 31 half_sold = Some ga_show"
    by (simp add: org_performance_def half_sold_def demo_def ga_show_def matinee_def evening_def)
  ultimately show ?thesis by (simp add: performance_update_def Let_def)
qed

theorem saved_code_is_found_witness:
  "\<exists>p s'. promo_form_create 1 demo_promo_form demo = (FormSaved 100, s') \<and> get_usable_code 1 '' Fall'' s' = Some p \<and> promo_value p = 300"
proof -
  have n: "normalize_code ''fall '' = ''FALL''" "normalize_code '' Fall'' = ''FALL''" "normalize_code ''FALL'' = ''FALL''" "strip '' Fall'' \<noteq> []" by code_simp+
  have "promo_errors 1 None demo_promo_form demo = []"
    by (simp add: promo_errors_def rejections_def missing_def clean_code_def clean_value_def demo_promo_form_def n qs_exists_def demo_def ten_percent_def)
  then obtain s' where s': "promo_form_create 1 demo_promo_form demo = (FormSaved 100, s')"
    by (simp add: promo_form_create_def create_promo_def write_promo_def demo_promo_form_def n Let_def demo_def ten_percent_def del: One_nat_def)
  have "normalize_code '' Fall'' = normalize_code (the (prf_code demo_promo_form))" by (simp add: n demo_promo_form_def)
  from saved_code_is_found [OF s' this n(4)] s' show ?thesis by (auto simp: demo_promo_form_def)
qed

definition demo_settings :: settings_fields where
  "demo_settings = \<lparr>dsf_is_active = True, dsf_name = Some ''Fund'', dsf_suggested_amounts = Some ''5, ,12.50'', dsf_acknowledgment = [], dsf_rejected = []\<rparr>"

theorem saved_suggestions_are_all_shown_witness:
  "\<exists>s' c. donation_settings 1 demo_settings 0 demo = (FormSaved 81, s') \<and> get_row camp_pk 81 (db_campaigns s') = Some c \<and>
     suggested_amount_list c = Inr [Fin 5 0, Fin 1250 (-2)]"
proof -
  have fund: "get_or_create_general_fund 1 0 demo = (general_fund, demo)"
    by (simp add: get_or_create_general_fund_def campaigns_of_def order_by_def demo_def general_fund_def)
  have "clean_suggested_amounts ''5, ,12.50'' = Inr (Inr ''5,12.50'')" by code_simp
  then obtain s' where s': "donation_settings 1 demo_settings 0 demo = (FormSaved 81, s')"
    by (simp add: donation_settings_def fund demo_settings_def settings_missing_def missing_def del: One_nat_def) (simp add: general_fund_def)
  have "map (\<lambda>t. the (parse_decimal t)) (filter (\<lambda>t. t \<noteq> []) (map strip (split_on CHR '','' ''5, ,12.50''))) = [Fin 5 0, Fin 1250 (-2)]"
    by code_simp
  with saved_suggestions_are_all_shown [OF s'] s' show ?thesis by (auto simp: demo_settings_def)
qed

definition balcony :: section_row where
  "balcony = \<lparr>section_pk = 12, section_organization = 1, section_chart = 10, section_name = ''Balcony'', section_ordering = 1\<rparr>"

theorem section_moves_one_place_witness:
  "fst (section_reorder 1 10 12 (Some (JDict [(''direction'', JStr ''up'')])) (demo\<lparr>db_sections := [stalls, balcony]\<rparr>)) = Reordered [12, 11]"
proof -
  let ?s = "demo\<lparr>db_sections := [stalls, balcony]\<rparr>"
  have "org_chart 1 10 ?s \<noteq> None" by (simp add: org_chart_def demo_def house_chart_def)
  moreover have "\<forall>x\<in>set (db_sections ?s). section_chart x = 10 \<longrightarrow> section_organization x = 1" by (simp add: stalls_def balcony_def)
  moreover have "distinct (map section_pk (db_sections ?s))" by (simp add: stalls_def balcony_def)
  moreover have "inj_on section_ordering {x \<in> set (db_sections ?s). section_chart x = 10}"
    by (auto simp: inj_on_def stalls_def balcony_def)
  moreover have "display_order 10 ?s = [] @ stalls # balcony # []" by (simp add: display_order_def order_by_def stalls_def balcony_def)
  ultimately have "\<exists>s'. section_reorder 1 10 (section_pk balcony) (Some (JDict [(''direction'', JStr ''up'')])) ?s =
      (Reordered (map section_pk ([] @ balcony # stalls # [])), s')"
    using section_moves_one_place [of 1 10 ?s "[]" stalls balcony "[]", OF _ _ _ _ _ refl refl] by blast
  then show ?thesis by (auto simp: stalls_def balcony_def)
qed

section \<open>What the forms do not foresee\<close>

text \<open>A second event of the same slug, or a second chart of the same name in a venue, passes its form and crashes in the database.\<close>

lemma duplicate_slug_crashes:
  "event_create 1 \<lparr>ef_title = Some ''Hamlet 2'', ef_slug = Some ''hamlet'', ef_status = Some EVENT_DRAFT, ef_rejected = []\<rparr> demo =
     (FormCrash (IntegrityError UniqueEventSlug), demo)"
  by (simp add: event_create_def event_errors_def rejections_def missing_def slug_taken_def write_event_def qs_exists_def Let_def
      demo_def hamlet_def macbeth_def del: One_nat_def)

lemma duplicate_chart_crashes: "chart_form_create 1 5 (Some ''Main'') demo = (FormCrash (IntegrityError UniqueChartNamePerVenue), demo)"
  by (simp add: chart_form_create_def org_venue_def chart_clash_def qs_exists_def Let_def demo_def main_hall_def house_chart_def)

text \<open>A general-admission price may be negative; the reserved grid refuses that.\<close>

lemma negative_ga_price_is_saved:
  "\<exists>s'. ga_tier_create 1 31 \<lparr>tf_name = Some ''Child'', tf_amount = Some (- 500), tf_currency = Some ''USD'', tf_section = None, tf_rejected = []\<rparr> demo =
     (FormSaved 100, s')"
  by (simp add: ga_tier_create_def org_performance_def tier_errors_def rejections_def missing_def demo_def ga_show_def matinee_def evening_def)

text \<open>Sections whose positions are equal do not move: the swap exchanges equal numbers.\<close>

lemma tied_sections_stay:
  "section_reorder 1 10 11 (Some (JDict [(''direction'', JStr ''up'')])) (demo\<lparr>db_sections := [stalls, balcony\<lparr>section_ordering := 0\<rparr>]\<rparr>) =
     (Reordered [12, 11], demo\<lparr>db_sections := [stalls, balcony\<lparr>section_ordering := 0\<rparr>]\<rparr>)"
proof -
  have "''Balcony'' < ''Stalls''" by code_simp
  then have o: "display_order 10 (demo\<lparr>db_sections := [stalls, balcony\<lparr>section_ordering := 0\<rparr>]\<rparr>) = [balcony\<lparr>section_ordering := 0\<rparr>, stalls]"
    by (simp add: display_order_def order_by_def stalls_def balcony_def less_eq_prod_def)
  have "move_section 10 11 True (demo\<lparr>db_sections := [stalls, balcony\<lparr>section_ordering := 0\<rparr>]\<rparr>) =
      demo\<lparr>db_sections := [stalls, balcony\<lparr>section_ordering := 0\<rparr>]\<rparr>"
    unfolding move_section_def o by (simp add: stalls_def balcony_def set_ordering_def update_rows_def Let_def)
  then show ?thesis
    by (simp add: section_reorder_def org_chart_def qs_exists_def o Let_def) (simp add: demo_def house_chart_def stalls_def balcony_def)
qed

lemma list_body_crashes_reorder: "fst (section_reorder 1 10 11 (Some (JList [])) demo) = ReorderCrash AttributeError"
  by (simp add: section_reorder_def org_chart_def qs_exists_def demo_def house_chart_def stalls_def)

end
