(* ===== verification/Access.thy ===== *)
theory Access
  imports Fixture
begin

text \<open>
  Who may come in: the tenant a host name stands for (tenants/middleware.py), the staff gate
  (accounts/permissions.py, accounts/views.py) and the team handlers that hand out roles
  (accounts/models.py, accounts/invites.py, dashboard/views.py). The accounts are a state of their
  own: users, shared by all theaters, and memberships. What Django checks (passwords, the form's
  email syntax) is a parameter.
\<close>

section \<open>The tenant of a host\<close>

datatype tenant_error = UnknownTenant | InactiveTenant

definition subdomain_from_host :: "string \<Rightarrow> string \<Rightarrow> string" where
  "subdomain_from_host base host0 =
     (let host = lower (takeWhile (\<lambda>c. c \<noteq> CHR '':'') host0); base_domain = lower base;
          suffix = CHR ''.'' # base_domain
      in if host = base_domain then ''''
         else if length suffix \<le> length host \<and> drop (length host - length suffix) host = suffix
           then take (length host - length suffix) host
         else '''')"

text \<open>\<open>override\<close> is the query parameter or header of a development request, blank when there is none.\<close>

definition dev_override_subdomain :: "bool \<Rightarrow> string \<Rightarrow> string option" where
  "dev_override_subdomain debug override = (if \<not> debug \<or> override = '''' then None else Some override)"

definition resolve_tenant ::
    "string \<Rightarrow> string set \<Rightarrow> bool \<Rightarrow> string \<Rightarrow> string \<Rightarrow> organization list \<Rightarrow> tenant_error + organization option" where
  "resolve_tenant base reserved debug override host orgs =
     (let subdomain = (case dev_override_subdomain debug override of
            Some x \<Rightarrow> x | None \<Rightarrow> subdomain_from_host base host)
      in if subdomain = '''' \<or> subdomain \<in> reserved then Inr None
         else bindE (or_raise (first_row (filter (\<lambda>g. org_subdomain g = subdomain) orgs)) UnknownTenant) (\<lambda>organization.
              bindE (guardE (org_is_active organization) InactiveTenant) (\<lambda>_. Inr (Some organization))))"

section \<open>Roles\<close>

datatype staff_role = OWNER | MANAGER | BOX_OFFICE | SCANNER

text \<open>The cumulative order of the roles, as the library's linear order: owner on top.\<close>

fun role_rank :: "staff_role \<Rightarrow> nat" where
  "role_rank OWNER = 3"
| "role_rank MANAGER = 2"
| "role_rank BOX_OFFICE = 1"
| "role_rank SCANNER = 0"

lemma role_rank_inj: "role_rank a = role_rank b \<Longrightarrow> a = b"
  by (cases a; cases b) simp_all

instantiation staff_role :: linorder
begin

definition less_eq_staff_role :: "staff_role \<Rightarrow> staff_role \<Rightarrow> bool" where
  "less_eq_staff_role a b \<longleftrightarrow> role_rank a \<le> role_rank b"

definition less_staff_role :: "staff_role \<Rightarrow> staff_role \<Rightarrow> bool" where
  "less_staff_role a b \<longleftrightarrow> role_rank a < role_rank b"

instance
  by standard (auto simp: less_eq_staff_role_def less_staff_role_def intro: role_rank_inj)

end

record user_account =
  user_pk :: nat
  user_email :: string
  user_has_password :: bool

record membership =
  mem_pk :: nat
  mem_user :: nat
  mem_organization :: nat
  mem_role :: staff_role

record accounts =
  acc_next :: nat
  acc_users :: "user_account list"
  acc_members :: "membership list"

definition is_owner :: "membership \<Rightarrow> bool" where
  "is_owner m \<longleftrightarrow> mem_role m = OWNER"

definition is_manager_or_above :: "membership \<Rightarrow> bool" where
  "is_manager_or_above m \<longleftrightarrow> mem_role m \<in> {OWNER, MANAGER}"

definition is_box_office_or_above :: "membership \<Rightarrow> bool" where
  "is_box_office_or_above m \<longleftrightarrow> mem_role m \<in> {OWNER, MANAGER, BOX_OFFICE}"

definition can_scan :: "membership \<Rightarrow> bool" where
  "can_scan m \<longleftrightarrow> mem_role m \<in> {OWNER, MANAGER, BOX_OFFICE, SCANNER}"

definition can_manage_events :: "membership \<Rightarrow> bool" where
  "can_manage_events = is_manager_or_above"

definition can_manage_billing :: "membership \<Rightarrow> bool" where
  "can_manage_billing = is_owner"

definition can_sell_tickets :: "membership \<Rightarrow> bool" where
  "can_sell_tickets = is_box_office_or_above"

definition can_manage_team :: "membership \<Rightarrow> bool" where
  "can_manage_team = is_manager_or_above"

section \<open>The staff gate\<close>

datatype access_error = NoStaffArea | LoginNeeded | NoMembership | RoleTooLow

record staff_request =
  req_organization :: "nat option"
  req_user :: "nat option"

definition get_membership :: "staff_request \<Rightarrow> accounts \<Rightarrow> membership option" where
  "get_membership request st =
     (case (req_organization request, req_user request) of
        (Some g, Some u) \<Rightarrow> first_row (filter (\<lambda>m. mem_user m = u \<and> mem_organization m = g) (acc_members st))
      | _ \<Rightarrow> None)"

definition resolve_staff_membership ::
    "staff_request \<Rightarrow> (membership \<Rightarrow> bool) \<Rightarrow> accounts \<Rightarrow> access_error + membership" where
  "resolve_staff_membership request role_check st =
     bindE (guardE (req_organization request \<noteq> None) NoStaffArea) (\<lambda>_.
     bindE (guardE (req_user request \<noteq> None) LoginNeeded) (\<lambda>_.
     bindE (or_raise (get_membership request st) NoMembership) (\<lambda>m.
     bindE (guardE (role_check m) RoleTooLow) (\<lambda>_. Inr m))))"

section \<open>Signing in\<close>

datatype login_outcome = SignedIn nat | LockedOut | BadCredentials | NoAccessHere

text \<open>\<open>authenticate\<close> stands for Django's; \<open>locked_out\<close> is the throttle's answer for the client.\<close>

definition login_view ::
    "(string \<Rightarrow> string \<Rightarrow> nat option) \<Rightarrow> bool \<Rightarrow> nat \<Rightarrow> string \<Rightarrow> string \<Rightarrow> accounts \<Rightarrow> login_outcome" where
  "login_view authenticate locked_out organization email password st =
     (if locked_out then LockedOut
      else (case authenticate email password of
              None \<Rightarrow> BadCredentials
            | Some u \<Rightarrow>
                (if qs_exists (\<lambda>m. mem_user m = u \<and> mem_organization m = organization) (acc_members st)
                 then SignedIn u else NoAccessHere)))"

section \<open>The team\<close>

datatype team_reply =
    Invited | AddedExisting | AlreadyOnTeam | FormInvalid | CannotAssign | UnknownRole | OwnRole
  | OwnerOnly | OnlyOwner | RoleUpdated | RoleKept | SelfRemoval | MemberRemoved | NoSuchMember
  | GateClosed access_error

definition assignable_roles :: "membership \<Rightarrow> staff_role list" where
  "assignable_roles m = (if is_owner m then [OWNER] else []) @ [MANAGER, BOX_OFFICE, SCANNER]"

definition owner_count :: "nat \<Rightarrow> accounts \<Rightarrow> nat" where
  "owner_count organization st =
     length (filter (\<lambda>m. mem_organization m = organization \<and> mem_role m = OWNER) (acc_members st))"

text \<open>\<open>normalize_email(email).lower()\<close> of an email the form has stripped.\<close>

definition add_member :: "nat \<Rightarrow> string \<Rightarrow> staff_role \<Rightarrow> accounts \<Rightarrow> team_reply \<times> accounts" where
  "add_member organization email0 role st =
     (let email = lower email0;
          user = first_row (filter (\<lambda>u. lower (user_email u) = email) (acc_users st))
      in case user of
           Some u \<Rightarrow>
             (if qs_exists (\<lambda>m. mem_user m = user_pk u \<and> mem_organization m = organization) (acc_members st)
              then (AlreadyOnTeam, st)
              else (AddedExisting,
                st\<lparr>acc_members := acc_members st @ [\<lparr>mem_pk = acc_next st, mem_user = user_pk u,
                     mem_organization = organization, mem_role = role\<rparr>], acc_next := Suc (acc_next st)\<rparr>))
         | None \<Rightarrow> (Invited,
             st\<lparr>acc_users := acc_users st @ [\<lparr>user_pk = acc_next st, user_email = email, user_has_password = False\<rparr>],
                acc_members := acc_members st @ [\<lparr>mem_pk = Suc (acc_next st), mem_user = acc_next st,
                  mem_organization = organization, mem_role = role\<rparr>],
                acc_next := Suc (Suc (acc_next st))\<rparr>))"

text \<open>
  The three handlers behind the manager gate. A posted role is \<open>None\<close> when it names no role; the
  form's email check is the parameter \<open>email_ok\<close>.
\<close>

definition team_add ::
    "(string \<Rightarrow> bool) \<Rightarrow> nat \<Rightarrow> membership \<Rightarrow> string \<Rightarrow> staff_role option \<Rightarrow> accounts \<Rightarrow> team_reply \<times> accounts" where
  "team_add email_ok organization actor email role st =
     (let assignable = assignable_roles actor; email1 = strip email
      in case role of
           None \<Rightarrow> (FormInvalid, st)
         | Some r \<Rightarrow>
             (if \<not> email_ok email1 \<or> r \<notin> set assignable then (FormInvalid, st)
              else if r \<notin> set assignable then (CannotAssign, st)
              else add_member organization email1 r st))"

definition member_at :: "nat \<Rightarrow> nat \<Rightarrow> accounts \<Rightarrow> membership option" where
  "member_at organization pk st =
     first_row (filter (\<lambda>m. mem_pk m = pk \<and> mem_organization m = organization) (acc_members st))"

definition set_role :: "nat \<Rightarrow> staff_role \<Rightarrow> accounts \<Rightarrow> accounts" where
  "set_role pk role st =
     st\<lparr>acc_members := update_rows (\<lambda>m. mem_pk m = pk) (\<lambda>m. m\<lparr>mem_role := role\<rparr>) (acc_members st)\<rparr>"

definition team_update_role ::
    "nat \<Rightarrow> membership \<Rightarrow> nat \<Rightarrow> staff_role option \<Rightarrow> accounts \<Rightarrow> team_reply \<times> accounts" where
  "team_update_role organization actor pk role st =
     (case member_at organization pk st of
        None \<Rightarrow> (NoSuchMember, st)
      | Some target \<Rightarrow>
          (case role of
             None \<Rightarrow> (UnknownRole, st)
           | Some new_role \<Rightarrow>
               (let touches_owner = (is_owner target \<or> new_role = OWNER)
                in if mem_pk target = mem_pk actor then (OwnRole, st)
                   else if touches_owner \<and> \<not> is_owner actor then (OwnerOnly, st)
                   else if is_owner target \<and> new_role \<noteq> OWNER \<and> owner_count organization st \<le> 1 then (OnlyOwner, st)
                   else if mem_role target \<noteq> new_role then (RoleUpdated, set_role (mem_pk target) new_role st)
                   else (RoleKept, st))))"

definition team_remove :: "nat \<Rightarrow> membership \<Rightarrow> nat \<Rightarrow> accounts \<Rightarrow> team_reply \<times> accounts" where
  "team_remove organization actor pk st =
     (case member_at organization pk st of
        None \<Rightarrow> (NoSuchMember, st)
      | Some target \<Rightarrow>
          (if mem_pk target = mem_pk actor then (SelfRemoval, st)
           else if is_owner target \<and> \<not> is_owner actor then (OwnerOnly, st)
           else if is_owner target \<and> owner_count organization st \<le> 1 then (OnlyOwner, st)
           else (MemberRemoved,
             st\<lparr>acc_members := delete_rows (\<lambda>m. mem_pk m = mem_pk target) (acc_members st)\<rparr>)))"

datatype team_action = AddMember string "staff_role option" | UpdateRole nat "staff_role option" | RemoveMember nat

definition team_post :: "(string \<Rightarrow> bool) \<Rightarrow> staff_request \<Rightarrow> team_action \<Rightarrow> accounts \<Rightarrow> team_reply \<times> accounts" where
  "team_post email_ok request action st =
     (case resolve_staff_membership request can_manage_events st of
        Inl e \<Rightarrow> (GateClosed e, st)
      | Inr actor \<Rightarrow>
          (let organization = the (req_organization request)
           in case action of
                AddMember email role \<Rightarrow> team_add email_ok organization actor email role st
              | UpdateRole pk role \<Rightarrow> team_update_role organization actor pk role st
              | RemoveMember pk \<Rightarrow> team_remove organization actor pk st))"

text \<open>Any request with any action may come next.\<close>

inductive team_step :: "(string \<Rightarrow> bool) \<Rightarrow> accounts \<Rightarrow> accounts \<Rightarrow> bool" for email_ok where
  post: "team_post email_ok request action st = (reply, st') \<Longrightarrow> team_step email_ok st st'"

inductive_cases team_stepE: "team_step email_ok st st'"

section \<open>Lemmas\<close>

lemma role_order:
  "is_owner m \<longleftrightarrow> OWNER \<le> mem_role m" "is_manager_or_above m \<longleftrightarrow> MANAGER \<le> mem_role m"
  "is_box_office_or_above m \<longleftrightarrow> BOX_OFFICE \<le> mem_role m" "can_scan m \<longleftrightarrow> SCANNER \<le> mem_role m"
  by (cases "mem_role m"; simp add: is_owner_def is_manager_or_above_def is_box_office_or_above_def can_scan_def
      less_eq_staff_role_def)+

definition accounts_wf :: "accounts \<Rightarrow> bool" where
  "accounts_wf st \<longleftrightarrow> well_keyed mem_pk (acc_next st) (acc_members st) \<and> well_keyed user_pk (acc_next st) (acc_users st) \<and>
     distinct (map (\<lambda>m. (mem_user m, mem_organization m)) (acc_members st)) \<and>
     distinct (map (\<lambda>u. lower (user_email u)) (acc_users st)) \<and>
     (\<forall>m\<in>set (acc_members st). mem_user m < acc_next st)"

definition owners :: "nat \<Rightarrow> accounts \<Rightarrow> nat set" where
  "owners organization st = mem_user ` {m \<in> set (acc_members st). mem_organization m = organization \<and> mem_role m = OWNER}"

interpretation member_rows: model_table mem_pk "\<lambda>k m. m\<lparr>mem_pk := k\<rparr>"
  by unfold_locales simp

interpretation user_rows: model_table user_pk "\<lambda>k u. u\<lparr>user_pk := k\<rparr>"
  by unfold_locales simp

lemma resolve_Inr:
  assumes "resolve_staff_membership request check st = Inr m"
  obtains g u where "req_organization request = Some g" "req_user request = Some u" "m \<in> set (acc_members st)"
    "mem_user m = u" "mem_organization m = g" "check m"
proof -
  from assms obtain g u where "req_organization request = Some g" "req_user request = Some u"
    and f: "first_row (filter (\<lambda>m. mem_user m = u \<and> mem_organization m = g) (acc_members st)) = Some m" and "check m"
    by (auto simp: resolve_staff_membership_def get_membership_def)
  with first_row_Some [OF f] that show thesis by auto
qed

lemma member_at_Some: "member_at g pk st = Some t \<Longrightarrow> t \<in> set (acc_members st) \<and> mem_pk t = pk \<and> mem_organization t = g"
  by (auto simp: member_at_def dest: first_row_Some)

text \<open>What an action can do to the members, whoever acts.\<close>

lemma add_member_cases:
  assumes "add_member g e r st = (reply, st')"
  obtains (none) "st' = st"
  | (existing) u where "u \<in> set (acc_users st)" "lower (user_email u) = lower e"
      "\<forall>m\<in>set (acc_members st). mem_user m \<noteq> user_pk u \<or> mem_organization m \<noteq> g"
      "st' = st\<lparr>acc_members := acc_members st @ [\<lparr>mem_pk = acc_next st, mem_user = user_pk u,
                     mem_organization = g, mem_role = r\<rparr>], acc_next := Suc (acc_next st)\<rparr>"
  | (new) "\<forall>u\<in>set (acc_users st). lower (user_email u) \<noteq> lower e"
      "st' = st\<lparr>acc_users := acc_users st @ [\<lparr>user_pk = acc_next st, user_email = lower e, user_has_password = False\<rparr>],
                acc_members := acc_members st @ [\<lparr>mem_pk = Suc (acc_next st), mem_user = acc_next st,
                  mem_organization = g, mem_role = r\<rparr>],
                acc_next := Suc (Suc (acc_next st))\<rparr>"
proof (cases "first_row (filter (\<lambda>u. lower (user_email u) = lower e) (acc_users st))")
  case None
  with assms show ?thesis by (intro new) (auto simp: add_member_def Let_def filter_empty_conv)
next
  case (Some u)
  note u = first_row_Some [OF Some]
  show ?thesis
  proof (cases "qs_exists (\<lambda>m. mem_user m = user_pk u \<and> mem_organization m = g) (acc_members st)")
    case True
    with assms Some show ?thesis by (intro none) (simp add: add_member_def del: qs_exists_iff)
  next
    case False
    with assms Some u show ?thesis
      by (intro existing [of u]) (simp_all add: add_member_def del: qs_exists_iff, simp_all)
  qed
qed

lemma team_post_cases:
  assumes "team_post email_ok request action st = (reply, st')"
  obtains (none) "st' = st"
  | (add) actor g e r where "resolve_staff_membership request can_manage_events st = Inr actor" "mem_organization actor = g"
      "r = OWNER \<Longrightarrow> is_owner actor" "add_member g e r st = (reply, st')"
  | (role) actor g t r where "resolve_staff_membership request can_manage_events st = Inr actor" "mem_organization actor = g"
      "t \<in> set (acc_members st)" "mem_organization t = g" "mem_pk t \<noteq> mem_pk actor"
      "is_owner t \<or> r = OWNER \<Longrightarrow> is_owner actor" "st' = set_role (mem_pk t) r st"
  | (remove) actor g t where "resolve_staff_membership request can_manage_events st = Inr actor" "mem_organization actor = g"
      "t \<in> set (acc_members st)" "mem_organization t = g" "mem_pk t \<noteq> mem_pk actor" "is_owner t \<Longrightarrow> is_owner actor"
      "st' = st\<lparr>acc_members := delete_rows (\<lambda>m. mem_pk m = mem_pk t) (acc_members st)\<rparr>"
proof (cases "resolve_staff_membership request can_manage_events st")
  case (Inl e)
  with assms show ?thesis by (intro none) (simp add: team_post_def)
next
  case (Inr actor)
  then obtain g where g: "req_organization request = Some g" "mem_organization actor = g" by (rule resolve_Inr) blast
  show ?thesis
  proof (cases action)
    case (AddMember e r)
    with assms Inr g show ?thesis
      by (auto simp: team_post_def team_add_def Let_def assignable_roles_def split: option.splits if_splits
          intro: none add [OF Inr g(2)])
  next
    case (UpdateRole pk r)
    with assms Inr g have u: "team_update_role g actor pk r st = (reply, st')" by (simp add: team_post_def)
    show ?thesis
    proof (cases "member_at g pk st")
      case None
      with u show ?thesis by (intro none) (simp add: team_update_role_def)
    next
      case (Some t)
      from u Some show ?thesis
        using member_at_Some [OF Some]
        by (auto simp: team_update_role_def Let_def split: option.splits if_splits intro: none role [OF Inr g(2), of t])
    qed
  next
    case (RemoveMember pk)
    with assms Inr g have u: "team_remove g actor pk st = (reply, st')" by (simp add: team_post_def)
    show ?thesis
    proof (cases "member_at g pk st")
      case None
      with u show ?thesis by (intro none) (simp add: team_remove_def)
    next
      case (Some t)
      from u Some show ?thesis
        using member_at_Some [OF Some]
        by (auto simp: team_remove_def split: if_splits intro: none remove [OF Inr g(2), of t])
    qed
  qed
qed

lemma accounts_wf_add:
  assumes "accounts_wf st" and "add_member g e r st = (reply, st')"
  shows "accounts_wf st'"
  using assms(2)
proof (cases rule: add_member_cases)
  case none
  with assms(1) show ?thesis by simp
next
  case (existing u)
  from assms(1) existing(1) have u: "user_pk u < acc_next st" by (auto simp: accounts_wf_def well_keyed_def)
  from assms(1) have users: "well_keyed user_pk (Suc (acc_next st)) (acc_users st)"
    by (auto simp: accounts_wf_def intro: user_rows.keyed_mono)
  have "well_keyed mem_pk (Suc (acc_next st)) (acc_members st @ [\<lparr>mem_pk = acc_next st, mem_user = user_pk u, mem_organization = g, mem_role = r\<rparr>])"
    using member_rows.insert_keyed [of "acc_next st" "acc_members st" "\<lparr>mem_pk = 0, mem_user = user_pk u, mem_organization = g, mem_role = r\<rparr>"] assms(1)
    by (simp add: accounts_wf_def)
  with assms(1) users u existing(3) show ?thesis by (auto simp: existing(4) accounts_wf_def less_Suc_eq)
next
  case new
  have members: "well_keyed mem_pk (Suc (Suc (acc_next st)))
      (acc_members st @ [\<lparr>mem_pk = Suc (acc_next st), mem_user = acc_next st, mem_organization = g, mem_role = r\<rparr>])"
    using member_rows.insert_keyed [of "Suc (acc_next st)" "acc_members st" "\<lparr>mem_pk = 0, mem_user = acc_next st, mem_organization = g, mem_role = r\<rparr>"]
      member_rows.keyed_mono [of "acc_next st" "acc_members st" "Suc (acc_next st)"] assms(1)
    by (simp add: accounts_wf_def)
  have "well_keyed user_pk (Suc (acc_next st)) (acc_users st @ [\<lparr>user_pk = acc_next st, user_email = lower e, user_has_password = False\<rparr>])"
    using user_rows.insert_keyed [of "acc_next st" "acc_users st" "\<lparr>user_pk = 0, user_email = lower e, user_has_password = False\<rparr>"] assms(1)
    by (simp add: accounts_wf_def)
  then have users: "well_keyed user_pk (Suc (Suc (acc_next st))) (acc_users st @ [\<lparr>user_pk = acc_next st, user_email = lower e, user_has_password = False\<rparr>])"
    by (rule user_rows.keyed_mono) simp
  from assms(1) have "\<forall>m\<in>set (acc_members st). mem_user m < acc_next st" by (simp add: accounts_wf_def)
  with assms(1) members users new(1) show ?thesis
    by (force simp: new(2) accounts_wf_def less_Suc_eq)
qed

lemma accounts_wf_step:
  assumes "accounts_wf st" and "team_post email_ok request action st = (reply, st')"
  shows "accounts_wf st'"
  using assms(2)
proof (cases rule: team_post_cases)
  case none
  with assms(1) show ?thesis by simp
next
  case (add actor g e r)
  with assms(1) show ?thesis by (metis accounts_wf_add)
next
  case (role actor g t r)
  have "map (\<lambda>m. (mem_user m, mem_organization m)) (update_rows P (\<lambda>m. m\<lparr>mem_role := r\<rparr>) ms) =
      map (\<lambda>m. (mem_user m, mem_organization m)) ms" for P and ms :: "membership list" by (simp add: update_rows_def)
  then have "distinct (map (\<lambda>m. (mem_user m, mem_organization m)) (update_rows (\<lambda>m. mem_pk m = mem_pk t) (\<lambda>m. m\<lparr>mem_role := r\<rparr>) (acc_members st)))"
    using assms(1) by (simp only: accounts_wf_def)
  with assms(1) show ?thesis
    by (auto simp: role(7) set_role_def accounts_wf_def set_update_rows intro: member_rows.update_keyed)
next
  case (remove actor g t)
  have "well_keyed mem_pk (acc_next st) (delete_rows (\<lambda>m. mem_pk m = mem_pk t) (acc_members st))"
    by (rule member_rows.delete_keyed) (use assms(1) in \<open>simp add: accounts_wf_def\<close>)
  with assms(1) show ?thesis
    by (auto simp: remove(7) accounts_wf_def delete_rows_def distinct_map inj_on_def)
qed

text \<open>Memberships of a user at a theater are unique, so a gate lets in one row at most.\<close>

lemma unique_membership:
  assumes "accounts_wf st" and "m \<in> set (acc_members st)" and "x \<in> set (acc_members st)"
    and "mem_user x = mem_user m" and "mem_organization x = mem_organization m"
  shows "x = m"
  using assms by (auto simp: accounts_wf_def distinct_map dest: inj_onD)

lemma owner_remains:
  assumes "accounts_wf st" and "team_post email_ok request action st = (reply, st')" and "owners g st \<noteq> {}"
  shows "owners g st' \<noteq> {}"
proof -
  obtain o' where o': "o' \<in> set (acc_members st)" "mem_organization o' = g" "mem_role o' = OWNER"
    using assms(3) by (auto simp: owners_def)
  have wit: "owners g st' \<noteq> {}" if "x \<in> set (acc_members st')" "mem_organization x = g" "mem_role x = OWNER" for x
    using that by (auto simp: owners_def)
  note keyed = member_rows.keyed_inj [where n = "acc_next st" and rs = "acc_members st"]
  have k: "well_keyed mem_pk (acc_next st) (acc_members st)" using assms(1) by (simp add: accounts_wf_def)
  \<comment> \<open>an owner other than the target survives; when the target is an owner, that is the actor\<close>
  have survivor: "\<exists>x\<in>set (acc_members st). mem_organization x = g \<and> mem_role x = OWNER \<and> mem_pk x \<noteq> mem_pk t"
    if actor: "resolve_staff_membership request can_manage_events st = Inr actor" "mem_organization actor = mem_organization t"
      and t: "t \<in> set (acc_members st)" "mem_pk t \<noteq> mem_pk actor" "is_owner t \<Longrightarrow> is_owner actor" for actor t
  proof (cases "mem_pk o' = mem_pk t")
    case False
    with o' show ?thesis by blast
  next
    case True
    then have "o' = t" using keyed [OF k o'(1) t(1)] by simp
    then have "is_owner actor" "mem_organization actor = g" using t(3) actor(2) o' by (simp_all add: is_owner_def)
    moreover have "actor \<in> set (acc_members st)" using actor(1) by (rule resolve_Inr)
    ultimately show ?thesis using t(2) by (auto simp: is_owner_def intro!: bexI [of _ actor])
  qed
  from assms(2) show ?thesis
  proof (cases rule: team_post_cases)
    case none
    with assms(3) show ?thesis by simp
  next
    case (add actor h e r)
    from add(4) have "set (acc_members st) \<subseteq> set (acc_members st')"
      by (cases rule: add_member_cases) auto
    with o' show ?thesis by (intro wit [of o']) auto
  next
    case (role actor h t r)
    from role(2,4) have "mem_organization actor = mem_organization t" by simp
    then obtain x where "x \<in> set (acc_members st)" "mem_organization x = g" "mem_role x = OWNER" "mem_pk x \<noteq> mem_pk t"
      using survivor [OF role(1) _ role(3,5)] role(6) by auto
    moreover from this have "x \<in> set (acc_members st')"
      by (simp add: role(7) set_role_def update_rows_def image_iff)
    ultimately show ?thesis using wit by blast
  next
    case (remove actor h t)
    from remove(2,4) have "mem_organization actor = mem_organization t" by simp
    then obtain x where "x \<in> set (acc_members st)" "mem_organization x = g" "mem_role x = OWNER" "mem_pk x \<noteq> mem_pk t"
      using survivor [OF remove(1) _ remove(3,5)] remove(6) by auto
    then show ?thesis by (intro wit [of x]) (simp_all add: remove(7))
  qed
qed

interpretation team: inductive_invariant
    "\<lambda>st. accounts_wf st \<and> owners g st \<noteq> {}" "team_step email_ok" "\<lambda>st. accounts_wf st \<and> owners g st \<noteq> {}"
  for g email_ok
  by unfold_locales (auto elim!: team_stepE dest: accounts_wf_step owner_remains)

section \<open>Properties\<close>

text \<open>A theater with an owner and a manager, and a user who works at another theater only.\<close>

definition roxy_staff :: accounts where
  "roxy_staff = \<lparr>acc_next = 20,
     acc_users = [\<lparr>user_pk = 1, user_email = ''olga@roxy.example'', user_has_password = True\<rparr>,
       \<lparr>user_pk = 2, user_email = ''max@roxy.example'', user_has_password = True\<rparr>,
       \<lparr>user_pk = 3, user_email = ''lea@lyric.example'', user_has_password = True\<rparr>],
     acc_members = [\<lparr>mem_pk = 11, mem_user = 1, mem_organization = 1, mem_role = OWNER\<rparr>,
       \<lparr>mem_pk = 12, mem_user = 2, mem_organization = 1, mem_role = MANAGER\<rparr>,
       \<lparr>mem_pk = 13, mem_user = 3, mem_organization = 2, mem_role = OWNER\<rparr>]\<rparr>"

lemma roxy_staff_wf: "accounts_wf roxy_staff" "owners 1 roxy_staff = {1}"
proof -
  have "distinct [lower ''olga@roxy.example'', lower ''max@roxy.example'', lower ''lea@lyric.example'']" by code_simp
  then show "accounts_wf roxy_staff" by (simp add: accounts_wf_def roxy_staff_def well_keyed_def)
  show "owners 1 roxy_staff = {1}"
    by (auto simp: owners_def roxy_staff_def
        intro!: image_eqI [of _ _ "\<lparr>mem_pk = 11, mem_user = 1, mem_organization = 1, mem_role = OWNER\<rparr>"])
qed

definition as_max :: staff_request where
  "as_max = \<lparr>req_organization = Some 1, req_user = Some 2\<rparr>"

lemma max_gate: "resolve_staff_membership as_max can_manage_events roxy_staff =
    Inr \<lparr>mem_pk = 12, mem_user = 2, mem_organization = 1, mem_role = MANAGER\<rparr>"
  by (simp add: resolve_staff_membership_def get_membership_def as_max_def roxy_staff_def can_manage_events_def
      is_manager_or_above_def)

text \<open>
  Property C28. A theater is never left without an owner: whatever invitations, role changes and
  removals are posted, by whomever and in whatever order, from a sound state with an owner only sound
  states with an owner are reached.
\<close>

theorem team_keeps_an_owner:
  assumes "reachable (\<lambda>st. accounts_wf st \<and> owners g st \<noteq> {}) (team_step email_ok) st"
  shows "accounts_wf st \<and> owners g st \<noteq> {}"
  by (rule team.reachable_inv [OF assms])

lemma max_reaches:
  "reachable (\<lambda>st. accounts_wf st \<and> owners 1 st \<noteq> {}) (team_step (\<lambda>_. True))
     (snd (team_post (\<lambda>_. True) as_max (RemoveMember 11) roxy_staff))"
proof (rule reachable.move)
  show "reachable (\<lambda>st. accounts_wf st \<and> owners 1 st \<noteq> {}) (team_step (\<lambda>_. True)) roxy_staff"
    by (rule reachable.start) (simp add: roxy_staff_wf del: One_nat_def)
  show "team_step (\<lambda>_. True) roxy_staff (snd (team_post (\<lambda>_. True) as_max (RemoveMember 11) roxy_staff))"
    by (rule team_step.post [OF surjective_pairing])
qed

theorem team_keeps_an_owner_witness:
  "owners 1 (snd (team_post (\<lambda>_. True) as_max (RemoveMember 11) roxy_staff)) \<noteq> {}"
  using team_keeps_an_owner [OF max_reaches] by blast

text \<open>
  Only an owner can make or unmake an owner: whatever a staff member who is no owner
  posts, the owners of every theater stay the same, and so do all memberships of other theaters.
\<close>

theorem only_owners_change_owners:
  assumes "team_post email_ok request action st = (reply, st')"
    and "resolve_staff_membership request can_manage_events st = Inr actor" and "mem_role actor \<noteq> OWNER"
    and "accounts_wf st"
  shows "owners g st' = owners g st \<and>
    (g \<noteq> mem_organization actor \<longrightarrow>
       filter (\<lambda>m. mem_organization m = g) (acc_members st') = filter (\<lambda>m. mem_organization m = g) (acc_members st))"
proof -
  have no: "\<not> is_owner a" if "resolve_staff_membership request can_manage_events st = Inr a" for a
    using that assms(2,3) by (simp add: is_owner_def)
  have k: "well_keyed mem_pk (acc_next st) (acc_members st)" using assms(4) by (simp add: accounts_wf_def)
  from assms(1) show ?thesis
  proof (cases rule: team_post_cases)
    case none
    then show ?thesis by simp
  next
    case (add a h e r)
    then have "r \<noteq> OWNER" "h = mem_organization actor" using no assms(2) by auto
    with add(4) show ?thesis by (cases rule: add_member_cases) (auto simp: owners_def)
  next
    case (role a h t r)
    then have r: "r \<noteq> OWNER" "mem_role t \<noteq> OWNER" "mem_organization t = mem_organization actor"
      using no assms(2) by (auto simp: is_owner_def)
    have at: "x = t" if "x \<in> set (acc_members st)" "mem_pk x = mem_pk t" for x
      using member_rows.keyed_inj [OF k that(1) role(3) that(2)] .
    have "owners g st' = owners g st"
    proof -
      have "(x \<in> set (acc_members st') \<and> mem_organization x = g \<and> mem_role x = OWNER) \<longleftrightarrow>
          (x \<in> set (acc_members st) \<and> mem_organization x = g \<and> mem_role x = OWNER)" for x
        using r at by (auto simp: role(7) set_role_def update_rows_def image_iff)
      then show ?thesis by (simp add: owners_def)
    qed
    moreover have "filter (\<lambda>m. mem_organization m = g) (update_rows (\<lambda>m. mem_pk m = mem_pk t) (\<lambda>m. m\<lparr>mem_role := r\<rparr>) ms) =
        filter (\<lambda>m. mem_organization m = g) ms" if "g \<noteq> mem_organization actor" "set ms \<subseteq> set (acc_members st)" for ms
      using that(2) by (induction ms) (use that(1) r at in \<open>auto simp: update_rows_def\<close>)
    ultimately show ?thesis by (simp add: role(7) set_role_def)
  next
    case (remove a h t)
    then have r: "mem_role t \<noteq> OWNER" "mem_organization t = mem_organization actor"
      using no assms(2) by (auto simp: is_owner_def)
    have at: "x = t" if "x \<in> set (acc_members st)" "mem_pk x = mem_pk t" for x
      using member_rows.keyed_inj [OF k that(1) remove(3) that(2)] .
    have "owners g st' = owners g st"
      using r at by (auto simp: remove(7) owners_def)
    moreover have "filter (\<lambda>m. mem_organization m = g) (acc_members st') = filter (\<lambda>m. mem_organization m = g) (acc_members st)"
      if "g \<noteq> mem_organization actor"
      using that r at by (auto simp: remove(7) delete_rows_def intro!: filter_cong)
    ultimately show ?thesis by blast
  qed
qed

theorem only_owners_change_owners_witness:
  "owners 2 (snd (team_post (\<lambda>_. True) as_max (UpdateRole 11 (Some SCANNER)) roxy_staff)) = owners 2 roxy_staff"
  using only_owners_change_owners [OF surjective_pairing max_gate _ roxy_staff_wf(1), where email_ok = "\<lambda>_. True"
      and action = "UpdateRole 11 (Some SCANNER)" and g = 2]
  by simp

text \<open>
  The staff gate is exact: it lets a request in with a membership just when that is the
  signed-in user's membership of the theater in the host name and its role passes the check; and the
  checks are thresholds in one order of roles, so who passes a gate passes every lower one.
\<close>

theorem staff_gate_is_exact:
  assumes "accounts_wf st"
  shows "(resolve_staff_membership request check st = Inr m \<longleftrightarrow>
      m \<in> set (acc_members st) \<and> req_organization request = Some (mem_organization m) \<and>
      req_user request = Some (mem_user m) \<and> check m) \<and>
    (can_manage_billing m \<longleftrightarrow> OWNER \<le> mem_role m) \<and> (can_manage_events m \<longleftrightarrow> MANAGER \<le> mem_role m) \<and>
    (can_sell_tickets m \<longleftrightarrow> BOX_OFFICE \<le> mem_role m) \<and> (can_scan m \<longleftrightarrow> SCANNER \<le> mem_role m)"
proof -
  have "resolve_staff_membership request check st = Inr m"
    if m: "m \<in> set (acc_members st)" "req_organization request = Some (mem_organization m)"
      "req_user request = Some (mem_user m)" "check m"
  proof -
    let ?f = "filter (\<lambda>x. mem_user x = mem_user m \<and> mem_organization x = mem_organization m) (acc_members st)"
    have "m \<in> set ?f" using m(1) by simp
    then obtain y where y: "first_row ?f = Some y" by (cases "first_row ?f") (auto simp: filter_empty_conv)
    then have "y = m" using first_row_Some [OF y] unique_membership [OF assms m(1)] by simp
    with y m show ?thesis by (simp add: resolve_staff_membership_def get_membership_def)
  qed
  then show ?thesis
    by (auto elim!: resolve_Inr simp: can_manage_billing_def can_manage_events_def can_sell_tickets_def role_order)
qed

theorem staff_gate_is_exact_witness:
  "resolve_staff_membership as_max can_manage_events roxy_staff =
     Inr \<lparr>mem_pk = 12, mem_user = 2, mem_organization = 1, mem_role = MANAGER\<rparr>"
  using staff_gate_is_exact [OF roxy_staff_wf(1), of as_max can_manage_events "\<lparr>mem_pk = 12, mem_user = 2, mem_organization = 1, mem_role = MANAGER\<rparr>"]
  by (simp add: as_max_def roxy_staff_def can_manage_events_def is_manager_or_above_def)

lemma subdomain_from_host_Some:
  assumes "subdomain_from_host base host = d" and "d \<noteq> ''''"
  shows "lower (takeWhile (\<lambda>c. c \<noteq> CHR '':'') host) = d @ CHR ''.'' # lower base"
proof -
  let ?h = "lower (takeWhile (\<lambda>c. c \<noteq> CHR '':'') host)" and ?s = "CHR ''.'' # lower base"
  have "drop (length ?h - length ?s) ?h = ?s" "take (length ?h - length ?s) ?h = d"
    using assms by (auto simp: subdomain_from_host_def Let_def split: if_splits)
  then show ?thesis by (metis append_take_drop_id)
qed

text \<open>
  A host name stands for one theater: outside development a request is served as a theater
  only if its host is that theater's subdomain under the base domain, in any letter case and with any
  port, and the theater is active; and every active theater with a proper, unreserved subdomain is
  reached that way.
\<close>

theorem host_stands_for_one_theater:
  assumes "distinct (map org_subdomain orgs)"
  shows "(resolve_tenant base reserved False override host orgs = Inr (Some g) \<longrightarrow>
       g \<in> set orgs \<and> org_is_active g \<and> org_subdomain g \<notin> reserved \<and>
       lower (takeWhile (\<lambda>c. c \<noteq> CHR '':'') host) = org_subdomain g @ CHR ''.'' # lower base) \<and>
     (g \<in> set orgs \<and> org_is_active g \<and> org_subdomain g \<notin> reserved \<and> org_subdomain g \<noteq> '''' \<and>
       lower (takeWhile (\<lambda>c. c \<noteq> CHR '':'') host) = org_subdomain g @ CHR ''.'' # lower base \<longrightarrow>
       resolve_tenant base reserved False override host orgs = Inr (Some g))"
proof (intro conjI impI)
  let ?d = "subdomain_from_host base host"
  have res: "resolve_tenant base reserved False override host orgs =
      (if ?d = '''' \<or> ?d \<in> reserved then Inr None
       else bindE (or_raise (first_row (filter (\<lambda>g. org_subdomain g = ?d) orgs)) UnknownTenant) (\<lambda>organization.
            bindE (guardE (org_is_active organization) InactiveTenant) (\<lambda>_. Inr (Some organization))))"
    by (simp add: resolve_tenant_def dev_override_subdomain_def)
  { assume r: "resolve_tenant base reserved False override host orgs = Inr (Some g)"
    with res have d: "?d \<noteq> ''''" "?d \<notin> reserved" "first_row (filter (\<lambda>g. org_subdomain g = ?d) orgs) = Some g" "org_is_active g"
      by (auto simp: Inr_eq_bindE split: if_splits)
    from first_row_Some [OF d(3)] have g: "g \<in> set orgs" "org_subdomain g = ?d" by auto
    show "g \<in> set orgs" "org_is_active g" using g d by auto
    show "org_subdomain g \<notin> reserved" using g d by simp
    show "lower (takeWhile (\<lambda>c. c \<noteq> CHR '':'') host) = org_subdomain g @ CHR ''.'' # lower base"
      using subdomain_from_host_Some [of base host ?d] g d by simp }
  { assume g: "g \<in> set orgs \<and> org_is_active g \<and> org_subdomain g \<notin> reserved \<and> org_subdomain g \<noteq> '''' \<and>
       lower (takeWhile (\<lambda>c. c \<noteq> CHR '':'') host) = org_subdomain g @ CHR ''.'' # lower base"
    have d: "?d = org_subdomain g" using g by (simp add: subdomain_from_host_def Let_def)
    have "g \<in> set (filter (\<lambda>x. org_subdomain x = org_subdomain g) orgs)" using g by simp
    then obtain y where y: "first_row (filter (\<lambda>x. org_subdomain x = org_subdomain g) orgs) = Some y"
      by (cases "first_row (filter (\<lambda>x. org_subdomain x = org_subdomain g) orgs)") (auto simp: filter_empty_conv)
    have "y = g" using first_row_Some [OF y] g assms by (auto simp: distinct_map dest: inj_onD)
    with y g show "resolve_tenant base reserved False override host orgs = Inr (Some g)" by (simp add: res d) }
qed

theorem host_stands_for_one_theater_witness:
  "resolve_tenant ''boxo.show'' {''www''} False '''' ''ROXY.boxo.show:8000'' [roxy, lyric] = Inr (Some roxy)"
proof -
  have "lower (takeWhile (\<lambda>c. c \<noteq> CHR '':'') ''ROXY.boxo.show:8000'') = ''roxy'' @ CHR ''.'' # lower ''boxo.show''"
    by code_simp
  then show ?thesis
    using host_stands_for_one_theater [of "[roxy, lyric]" "''boxo.show''" "{''www''}" "''''" "''ROXY.boxo.show:8000''" roxy]
    by (simp add: roxy_def lyric_def)
qed

end
