(* ===== verification/Campaigns.thy ===== *)
theory Campaigns
  imports Portal
begin

text \<open>
  Email marketing: the campaign and its delivery log (campaigns/models.py), the segment query and the
  trigger (campaigns/services.py), the message (campaigns/emails.py), the cron batch sender
  (campaigns/management/commands/send_campaign_emails.py) and the staff endpoints (dashboard/views.py).
  The two tables stand beside the database. Template rendering, \<open>linebreaks\<close>, the stored logo and Django's
  signing are parameters (record \<open>mail_kit\<close>); \<open>deliver\<close> is the mail transport: the text of the exception
  it raised, or none.
\<close>

section \<open>Tables\<close>

datatype campaign_status = CampaignDraft | CampaignSending | CampaignSent | CampaignCancelled

datatype segment_kind = SegmentAll | SegmentEvent | SegmentMinSpend

record email_campaign =
  ec_pk :: nat
  ec_organization :: nat
  ec_name :: string
  ec_subject :: string
  ec_body :: string
  ec_segment_kind :: segment_kind
  ec_segment_event :: "nat option"
  ec_segment_min_spend :: "cents option"
  ec_status :: campaign_status
  ec_created_by :: "nat option"
  ec_recipient_count :: nat
  ec_sent_at :: "time option"

datatype send_status = SendPending | SendSending | SendSent | SendFailed | SendSkipped

record campaign_send =
  cs_pk :: nat
  cs_organization :: nat
  cs_campaign :: nat
  cs_guest :: nat
  cs_email :: string
  cs_status :: send_status
  cs_error :: string
  cs_sent_at :: "time option"

record mailing =
  ml_campaigns :: "email_campaign list"
  ml_sends :: "campaign_send list"
  ml_next :: nat

section \<open>The segment\<close>

datatype campaign_error = CampaignMissing | CampaignStateError campaign_status | NoneQueryValue

definition paid_orders :: "guest_account \<Rightarrow> db \<Rightarrow> order list" where
  "paid_orders g s = filter (\<lambda>x. order_guest x = Some (guest_pk g) \<and> order_status x = PAID) (db_orders s)"

definition order_event :: "order \<Rightarrow> db \<Rightarrow> nat option" where
  "order_event x s =
     (case order_performance x of
        None \<Rightarrow> None
      | Some k \<Rightarrow> map_option perf_event (get_row perf_pk k (db_performances s)))"

text \<open>\<open>Sum("orders__total", filter=...)\<close>: null when there is nothing to add.\<close>

definition paid_total :: "guest_account \<Rightarrow> db \<Rightarrow> cents option" where
  "paid_total g s = (if paid_orders g s = [] then None else Some (sum_list (map order_total (paid_orders g s))))"

definition mailable :: "nat \<Rightarrow> db \<Rightarrow> guest_account list" where
  "mailable organization s =
     filter (\<lambda>g. guest_organization g = organization \<and> guest_marketing_opt_in g \<and> guest_email g \<noteq> []) (db_guests s)"

text \<open>A null event parameter turns the lookup into \<open>IS NULL\<close>; a null spend raises \<open>ValueError\<close>.\<close>

definition segment_guests :: "email_campaign \<Rightarrow> db \<Rightarrow> campaign_error + guest_account list" where
  "segment_guests campaign s =
     (let base = mailable (ec_organization campaign) s in
      case ec_segment_kind campaign of
        SegmentEvent \<Rightarrow> Inr (filter (\<lambda>g. \<exists>x\<in>set (paid_orders g s). order_event x s = ec_segment_event campaign) base)
      | SegmentMinSpend \<Rightarrow>
          (case ec_segment_min_spend campaign of
             None \<Rightarrow> Inl NoneQueryValue
           | Some least \<Rightarrow> Inr (filter (\<lambda>g. case paid_total g s of None \<Rightarrow> False | Some t \<Rightarrow> t \<ge> least) base))
      | SegmentAll \<Rightarrow> Inr base)"

definition segment_recipient_count :: "email_campaign \<Rightarrow> db \<Rightarrow> campaign_error + nat" where
  "segment_recipient_count campaign s = bindE (segment_guests campaign s) (\<lambda>gs. Inr (length gs))"

section \<open>The trigger\<close>

text \<open>\<open>bulk_create(..., ignore_conflicts=True)\<close>: a guest already queued for the campaign is skipped.\<close>

definition queue_send :: "email_campaign \<Rightarrow> guest_account \<Rightarrow> mailing \<Rightarrow> mailing" where
  "queue_send campaign g m =
     (if qs_exists (\<lambda>r. cs_campaign r = ec_pk campaign \<and> cs_guest r = guest_pk g) (ml_sends m) then m
      else m\<lparr>ml_sends := ml_sends m @
          [\<lparr>cs_pk = ml_next m, cs_organization = ec_organization campaign, cs_campaign = ec_pk campaign,
            cs_guest = guest_pk g, cs_email = guest_email g, cs_status = SendPending, cs_error = '''', cs_sent_at = None\<rparr>],
        ml_next := Suc (ml_next m)\<rparr>)"

definition save_campaign :: "nat \<Rightarrow> (email_campaign \<Rightarrow> email_campaign) \<Rightarrow> mailing \<Rightarrow> mailing" where
  "save_campaign k f m = m\<lparr>ml_campaigns := update_rows (\<lambda>c. ec_pk c = k) f (ml_campaigns m)\<rparr>"

definition start_campaign :: "nat \<Rightarrow> time \<Rightarrow> db \<Rightarrow> mailing \<Rightarrow> campaign_error + (nat \<times> mailing)" where
  "start_campaign k now s m =
     (case get_row ec_pk k (ml_campaigns m) of
        None \<Rightarrow> Inl CampaignMissing
      | Some locked \<Rightarrow>
          if ec_status locked \<noteq> CampaignDraft then Inl (CampaignStateError (ec_status locked))
          else bindE (segment_guests locked s) (\<lambda>guests.
            let m1 = fold (queue_send locked) guests m; n = length guests
            in Inr (n,
                 if n = 0
                 then save_campaign k (\<lambda>c. c\<lparr>ec_recipient_count := n, ec_status := CampaignSent, ec_sent_at := Some now\<rparr>) m1
                 else save_campaign k (\<lambda>c. c\<lparr>ec_recipient_count := n, ec_status := CampaignSending\<rparr>) m1)))"

section \<open>The message\<close>

record email_context =
  cx_organization :: organization
  cx_logo_url :: string
  cx_campaign :: email_campaign
  cx_guest :: guest_account
  cx_body :: string
  cx_unsubscribe_url :: string

record campaign_mail =
  cm_subject :: string
  cm_text :: string
  cm_html :: string
  cm_from :: string
  cm_to :: string
  cm_headers :: "(string \<times> string) list"

record mail_kit =
  mk_render :: "string \<Rightarrow> email_context \<Rightarrow> string"
  mk_linebreaks :: "string \<Rightarrow> string"
  mk_logo :: "nat \<Rightarrow> string option"
  mk_dumps :: signer
  mk_base_domain :: string
  mk_default_from :: string

definition starts_with :: "string \<Rightarrow> string \<Rightarrow> bool" where
  "starts_with p t = (take (length p) t = p)"

definition tenant_base_url :: "mail_kit \<Rightarrow> organization \<Rightarrow> string" where
  "tenant_base_url kit organization =
     (let base_domain = (if mk_base_domain kit = [] then ''localhost'' else mk_base_domain kit);
          scheme = (if starts_with ''localhost'' base_domain \<or> starts_with ''127.'' base_domain then ''http'' else ''https'')
      in scheme @ ''://'' @ org_subdomain organization @ ''.'' @ base_domain)"

definition render_campaign ::
  "mail_kit \<Rightarrow> organization \<Rightarrow> email_campaign \<Rightarrow> guest_account \<Rightarrow> string \<Rightarrow> string \<times> string \<times> string" where
  "render_campaign kit organization campaign guest unsubscribe_url =
     (let base_url = tenant_base_url kit organization;
          logo_url = (case mk_logo kit (org_pk organization) of None \<Rightarrow> '''' | Some u \<Rightarrow> base_url @ u);
          cx = \<lparr>cx_organization = organization, cx_logo_url = logo_url, cx_campaign = campaign, cx_guest = guest,
                cx_body = ec_body campaign, cx_unsubscribe_url = unsubscribe_url\<rparr>
      in (ec_subject campaign, mk_render kit ''campaigns/email/campaign.txt'' cx,
          mk_render kit ''campaigns/email/campaign.html'' (cx\<lparr>cx_body := mk_linebreaks kit (ec_body campaign)\<rparr>)))"

definition unsubscribe_headers :: "string \<Rightarrow> (string \<times> string) list" where
  "unsubscribe_headers url =
     [(''List-Unsubscribe'', ''<'' @ url @ ''>''), (''List-Unsubscribe-Post'', ''List-Unsubscribe=One-Click'')]"

definition campaign_message ::
  "mail_kit \<Rightarrow> organization \<Rightarrow> email_campaign \<Rightarrow> guest_account \<Rightarrow> string \<Rightarrow> string \<Rightarrow> campaign_mail" where
  "campaign_message kit organization campaign guest to url =
     (case render_campaign kit organization campaign guest url of (subject, text, html) \<Rightarrow>
        \<lparr>cm_subject = subject, cm_text = text, cm_html = html, cm_from = mk_default_from kit, cm_to = to,
         cm_headers = unsubscribe_headers url\<rparr>)"

definition unsubscribe_url :: "mail_kit \<Rightarrow> organization \<Rightarrow> guest_account \<Rightarrow> time \<Rightarrow> string" where
  "unsubscribe_url kit organization g now =
     tenant_base_url kit organization @ ''/account/unsubscribe/'' @ ''?token='' @ make_unsubscribe_token (mk_dumps kit) g now"

text \<open>The preview mail: the first guest of the segment or a made-up one, and a link that opts out nobody.\<close>

definition sample_guest :: "nat \<Rightarrow> string \<Rightarrow> guest_account" where
  "sample_guest organization to_email =
     \<lparr>guest_pk = 0, guest_organization = organization, guest_email = to_email, guest_name = ''Sample Subscriber'',
      guest_marketing_opt_in = False, guest_marketing_opt_in_at = None, guest_tags = ''''\<rparr>"

definition test_campaign_message :: "mail_kit \<Rightarrow> organization \<Rightarrow> email_campaign \<Rightarrow> string \<Rightarrow> db \<Rightarrow> campaign_error + campaign_mail" where
  "test_campaign_message kit organization campaign to_email s =
     bindE (segment_guests campaign s) (\<lambda>guests.
       let guest = (case first_row (order_by guest_pk guests) of
                      Some g \<Rightarrow> g | None \<Rightarrow> sample_guest (ec_organization campaign) to_email);
           m = campaign_message kit organization campaign guest to_email
                 (tenant_base_url kit organization @ ''/account/unsubscribe/'')
       in Inr (m\<lparr>cm_subject := ''[TEST] '' @ cm_subject m\<rparr>))"

section \<open>Is mail wired up? (guests/services.py)\<close>

definition email_delivery_configured :: "string \<Rightarrow> string \<Rightarrow> bool" where
  "email_delivery_configured backend host =
     (if starts_with (rev ''smtp.EmailBackend'') (rev backend) then host \<noteq> [] else True)"

section \<open>The batch sender\<close>

text \<open>\<open>select_related\<close>: each row of the batch with its campaign, guest and theater as of the query.\<close>

record batch_item =
  bi_send :: campaign_send
  bi_campaign :: email_campaign
  bi_guest :: guest_account
  bi_organization :: organization

definition batch_item_of :: "db \<Rightarrow> mailing \<Rightarrow> campaign_send \<Rightarrow> batch_item option" where
  "batch_item_of s m r =
     (case (get_row ec_pk (cs_campaign r) (ml_campaigns m), get_row guest_pk (cs_guest r) (db_guests s),
            org_at (cs_organization r) s) of
        (Some c, Some g, Some o') \<Rightarrow>
          (if cs_status r = SendPending \<and> ec_status c = CampaignSending
           then Some \<lparr>bi_send = r, bi_campaign = c, bi_guest = g, bi_organization = o'\<rparr> else None)
      | _ \<Rightarrow> None)"

definition pending_batch :: "nat \<Rightarrow> db \<Rightarrow> mailing \<Rightarrow> batch_item list" where
  "pending_batch batch_size s m = take batch_size (List.map_filter (batch_item_of s m) (order_by cs_pk (ml_sends m)))"

definition save_send :: "nat \<Rightarrow> (campaign_send \<Rightarrow> campaign_send) \<Rightarrow> mailing \<Rightarrow> mailing" where
  "save_send k f m = m\<lparr>ml_sends := update_rows (\<lambda>r. cs_pk r = k) f (ml_sends m)\<rparr>"

text \<open>The conditional update of the claim: whether a row changed, and the table after it.\<close>

definition claim_send :: "nat \<Rightarrow> mailing \<Rightarrow> bool \<times> mailing" where
  "claim_send k m =
     (qs_exists (\<lambda>r. cs_pk r = k \<and> cs_status r = SendPending) (ml_sends m),
      m\<lparr>ml_sends := update_rows (\<lambda>r. cs_pk r = k \<and> cs_status r = SendPending) (\<lambda>r. r\<lparr>cs_status := SendSending\<rparr>) (ml_sends m)\<rparr>)"

definition still_opted_in :: "nat \<Rightarrow> db \<Rightarrow> guest_account option" where
  "still_opted_in k s =
     (case get_row guest_pk k (db_guests s) of
        None \<Rightarrow> None | Some g \<Rightarrow> if guest_marketing_opt_in g then Some g else None)"

definition item_message :: "mail_kit \<Rightarrow> batch_item \<Rightarrow> guest_account \<Rightarrow> time \<Rightarrow> campaign_mail" where
  "item_message kit i guest now =
     campaign_message kit (bi_organization i) (bi_campaign i) (bi_guest i) (cs_email (bi_send i))
       (unsubscribe_url kit (bi_organization i) guest now)"

datatype item_outcome = NotClaimed | ItemSkipped | ItemFailed | ItemSent campaign_mail

definition process_item ::
  "mail_kit \<Rightarrow> (campaign_mail \<Rightarrow> string option) \<Rightarrow> time \<Rightarrow> db \<Rightarrow> batch_item \<Rightarrow> mailing \<Rightarrow> item_outcome \<times> mailing" where
  "process_item kit deliver now s i m =
     (let k = cs_pk (bi_send i); (claimed, m1) = claim_send k m in
      if \<not> claimed then (NotClaimed, m1)
      else case still_opted_in (cs_guest (bi_send i)) s of
        None \<Rightarrow> (ItemSkipped, save_send k (\<lambda>r. r\<lparr>cs_status := SendSkipped\<rparr>) m1)
      | Some guest \<Rightarrow>
          let mail = item_message kit i guest now in
          case deliver mail of
            Some exc \<Rightarrow> (ItemFailed, save_send k (\<lambda>r. r\<lparr>cs_status := SendFailed, cs_error := take 2000 exc\<rparr>) m1)
          | None \<Rightarrow> (ItemSent mail, save_send k (\<lambda>r. r\<lparr>cs_status := SendSent, cs_sent_at := Some now\<rparr>) m1))"

fun process_batch ::
  "mail_kit \<Rightarrow> (campaign_mail \<Rightarrow> string option) \<Rightarrow> time \<Rightarrow> db \<Rightarrow> batch_item list \<Rightarrow> mailing \<Rightarrow> item_outcome list \<times> mailing" where
  "process_batch kit deliver now s [] m = ([], m)"
| "process_batch kit deliver now s (i # is) m =
     (let (out, m1) = process_item kit deliver now s i m; (outs, m2) = process_batch kit deliver now s is m1
      in (out # outs, m2))"

definition unfinished :: "nat \<Rightarrow> mailing \<Rightarrow> bool" where
  "unfinished k m = qs_exists (\<lambda>r. cs_campaign r = k \<and> (cs_status r = SendPending \<or> cs_status r = SendSending)) (ml_sends m)"

definition finish_campaign :: "time \<Rightarrow> nat \<Rightarrow> mailing \<Rightarrow> mailing" where
  "finish_campaign now k m =
     (if unfinished k m then m
      else save_campaign k (\<lambda>c. if ec_status c = CampaignSending then c\<lparr>ec_status := CampaignSent, ec_sent_at := Some now\<rparr> else c) m)"

definition touched :: "batch_item list \<Rightarrow> nat list" where
  "touched items = fromkeys (map (\<lambda>i. cs_campaign (bi_send i)) items)"

datatype tick_report = NotConfigured | NothingQueued | Drained "item_outcome list"

text \<open>One run of the command; \<open>smtp\<close> is \<open>email_delivery_configured\<close>.\<close>

definition send_campaign_emails ::
  "mail_kit \<Rightarrow> bool \<Rightarrow> nat \<Rightarrow> (campaign_mail \<Rightarrow> string option) \<Rightarrow> time \<Rightarrow> db \<Rightarrow> mailing \<Rightarrow> tick_report \<times> mailing" where
  "send_campaign_emails kit smtp batch_size deliver now s m =
     (if \<not> smtp then (NotConfigured, m)
      else let items = pending_batch batch_size s m in
        if items = [] then (NothingQueued, m)
        else let (outs, m1) = process_batch kit deliver now s items m
             in (Drained outs, fold (finish_campaign now) (touched items) m1))"

section \<open>Staff endpoints (dashboard/views.py, dashboard/forms.py)\<close>

text \<open>The fields of the form once Django has cleaned them one by one; a zero spend is falsy.\<close>

record campaign_fields =
  cf_name :: string
  cf_subject :: string
  cf_body :: string
  cf_segment_kind :: segment_kind
  cf_segment_event :: "nat option"
  cf_segment_min_spend :: "cents option"

datatype campaign_form_error = ChooseEvent | EnterMinSpend

definition clean_campaign_form :: "campaign_fields \<Rightarrow> campaign_form_error list" where
  "clean_campaign_form f =
     (if cf_segment_kind f = SegmentEvent \<and> cf_segment_event f = None then [ChooseEvent] else []) @
     (if cf_segment_kind f = SegmentMinSpend \<and> (cf_segment_min_spend f = None \<or> cf_segment_min_spend f = Some 0)
      then [EnterMinSpend] else [])"

definition create_campaign :: "nat \<Rightarrow> nat \<Rightarrow> campaign_fields \<Rightarrow> mailing \<Rightarrow> campaign_form_error list + mailing" where
  "create_campaign organization user f m =
     (if clean_campaign_form f \<noteq> [] then Inl (clean_campaign_form f)
      else Inr (m\<lparr>ml_campaigns := ml_campaigns m @
          [\<lparr>ec_pk = ml_next m, ec_organization = organization, ec_name = cf_name f, ec_subject = cf_subject f,
            ec_body = cf_body f, ec_segment_kind = cf_segment_kind f, ec_segment_event = cf_segment_event f,
            ec_segment_min_spend = cf_segment_min_spend f, ec_status = CampaignDraft, ec_created_by = Some user,
            ec_recipient_count = 0, ec_sent_at = None\<rparr>],
        ml_next := Suc (ml_next m)\<rparr>))"

datatype campaign_response =
    CampaignNotFound
  | CampaignInvalid "campaign_form_error list"
  | CampaignSaved
  | CampaignCrash campaign_error
  | CampaignRefused campaign_status
  | CampaignQueued nat
  | CampaignCount nat

definition org_campaign :: "nat \<Rightarrow> nat \<Rightarrow> mailing \<Rightarrow> email_campaign option" where
  "org_campaign organization k m = first_row (filter (\<lambda>c. ec_pk c = k \<and> ec_organization c = organization) (ml_campaigns m))"

definition update_campaign ::
  "nat \<Rightarrow> nat \<Rightarrow> campaign_fields \<Rightarrow> mailing \<Rightarrow> campaign_response \<times> mailing" where
  "update_campaign organization k f m =
     (case org_campaign organization k m of
        None \<Rightarrow> (CampaignNotFound, m)
      | Some c \<Rightarrow>
          if ec_status c \<noteq> CampaignDraft then (CampaignNotFound, m)
          else if clean_campaign_form f \<noteq> [] then (CampaignInvalid (clean_campaign_form f), m)
          else (CampaignSaved, save_campaign k (\<lambda>x. x\<lparr>ec_name := cf_name f, ec_subject := cf_subject f, ec_body := cf_body f,
                  ec_segment_kind := cf_segment_kind f, ec_segment_event := cf_segment_event f,
                  ec_segment_min_spend := cf_segment_min_spend f\<rparr>) m))"

definition campaign_send_view :: "nat \<Rightarrow> nat \<Rightarrow> time \<Rightarrow> db \<Rightarrow> mailing \<Rightarrow> campaign_response \<times> mailing" where
  "campaign_send_view organization k now s m =
     (case org_campaign organization k m of
        None \<Rightarrow> (CampaignNotFound, m)
      | Some c \<Rightarrow>
          (case start_campaign k now s m of
             Inl (CampaignStateError st) \<Rightarrow> (CampaignRefused st, m)
           | Inl e \<Rightarrow> (CampaignCrash e, m)
           | Inr (n, m') \<Rightarrow> (CampaignQueued n, m')))"

definition campaign_preview :: "nat \<Rightarrow> nat \<Rightarrow> db \<Rightarrow> mailing \<Rightarrow> campaign_response" where
  "campaign_preview organization k s m =
     (case org_campaign organization k m of
        None \<Rightarrow> CampaignNotFound
      | Some c \<Rightarrow> (case segment_recipient_count c s of Inl e \<Rightarrow> CampaignCrash e | Inr n \<Rightarrow> CampaignCount n))"

text \<open>\<open>campaign_detail\<close>: the counts of the summary and, for a draft, the preview.\<close>

record campaign_counts =
  cc_sent :: nat
  cc_failed :: nat
  cc_skipped :: nat
  cc_pending :: nat
  cc_preview :: "nat option"

definition sends_of :: "nat \<Rightarrow> mailing \<Rightarrow> campaign_send list" where
  "sends_of k m = filter (\<lambda>r. cs_campaign r = k) (ml_sends m)"

definition count_status :: "send_status list \<Rightarrow> campaign_send list \<Rightarrow> nat" where
  "count_status sts rs = length (filter (\<lambda>r. cs_status r \<in> set sts) rs)"

definition campaign_detail :: "nat \<Rightarrow> nat \<Rightarrow> db \<Rightarrow> mailing \<Rightarrow> campaign_error + campaign_counts" where
  "campaign_detail organization k s m =
     (case org_campaign organization k m of
        None \<Rightarrow> Inl CampaignMissing
      | Some c \<Rightarrow>
          let rs = sends_of k m;
              counts = (\<lambda>pv. \<lparr>cc_sent = count_status [SendSent] rs, cc_failed = count_status [SendFailed] rs,
                              cc_skipped = count_status [SendSkipped] rs,
                              cc_pending = count_status [SendPending, SendSending] rs, cc_preview = pv\<rparr>)
          in if ec_status c = CampaignDraft then bindE (segment_recipient_count c s) (\<lambda>n. Inr (counts (Some n)))
             else Inr (counts None))"

section \<open>The audience\<close>

record audience_row =
  ar_guest :: guest_account
  ar_order_count :: nat
  ar_ltv :: "cents option"

definition icontains :: "string \<Rightarrow> string \<Rightarrow> bool" where
  "icontains text t = (\<exists>i\<in>set [0..<Suc (length text)]. starts_with (lower t) (drop i (lower text)))"

definition ltv_key :: "cents option \<Rightarrow> nat \<times> int" where
  "ltv_key v = (case v of None \<Rightarrow> (1, 0) | Some t \<Rightarrow> (0, - t))"

definition audience_queryset :: "nat \<Rightarrow> string \<Rightarrow> bool option \<Rightarrow> string \<Rightarrow> db \<Rightarrow> audience_row list" where
  "audience_queryset organization search opt_in tag s =
     order_by (\<lambda>r. (ltv_key (ar_ltv r), guest_email (ar_guest r)))
       (map (\<lambda>g. \<lparr>ar_guest = g, ar_order_count = length (paid_orders g s), ar_ltv = paid_total g s\<rparr>)
         (filter (\<lambda>g. guest_organization g = organization \<and>
                      (search = [] \<or> icontains (guest_email g) search \<or> icontains (guest_name g) search) \<and>
                      (case opt_in of None \<Rightarrow> True | Some b \<Rightarrow> guest_marketing_opt_in g = b) \<and>
                      (tag = [] \<or> icontains (guest_tags g) tag)) (db_guests s)))"

text \<open>The parameters of the page, and the rows of its CSV export.\<close>

definition audience_list :: "nat \<Rightarrow> (string \<rightharpoonup> string) \<Rightarrow> db \<Rightarrow> audience_row list" where
  "audience_list organization get s =
     (let param = (\<lambda>k. strip (or_blank (get k)));
          opt_in = (if param ''opt_in'' = ''1'' then Some True else if param ''opt_in'' = ''0'' then Some False else None)
      in audience_queryset organization (param ''search'') opt_in (param ''tag'') s)"

definition audience_csv_row :: "audience_row \<Rightarrow> string list" where
  "audience_csv_row r =
     [guest_email (ar_guest r), guest_name (ar_guest r), if guest_marketing_opt_in (ar_guest r) then ''yes'' else ''no'',
      show_nat (ar_order_count r), show_cents (case ar_ltv r of None \<Rightarrow> 0 | Some t \<Rightarrow> t), guest_tags (ar_guest r)]"

definition audience_csv :: "nat \<Rightarrow> (string \<rightharpoonup> string) \<Rightarrow> db \<Rightarrow> string list list" where
  "audience_csv organization get s =
     [''Email'', ''Name'', ''Opted in'', ''Orders'', ''Lifetime value'', ''Tags''] #
     map audience_csv_row (audience_list organization get s)"

end
