(* ===== verification/Reports.thy ===== *)
theory Reports
  imports Access Campaigns ZoneEditor Inventory
begin

text \<open>
  What the staff see (dashboard/views.py): the overview with its set-up checklist and revenue
  tables, the page of one performance, the donation and pass reports, the order list and the
  order page. The creation time of an order, which only these pages read, is the argument
  \<open>created\<close> (the \<open>auto_now_add\<close> column, by primary key); \<open>parse_date\<close> is Django's reading of a date.
\<close>

section \<open>The overview\<close>

definition org_paid_orders :: "nat \<Rightarrow> db \<Rightarrow> order list" where
  "org_paid_orders organization s = filter (\<lambda>x. order_organization x = organization \<and> order_status x = PAID) (db_orders s)"

definition ticketed_orders :: "nat \<Rightarrow> db \<Rightarrow> order list" where
  "ticketed_orders organization s = filter (\<lambda>x. order_performance x \<noteq> None) (org_paid_orders organization s)"

definition revenue :: "order list \<Rightarrow> cents" where
  "revenue os = sum_list (map order_total os)"

definition gross_revenue :: "nat \<Rightarrow> db \<Rightarrow> cents" where
  "gross_revenue organization s = revenue (org_paid_orders organization s)"

definition revenue_by_performance :: "nat \<Rightarrow> db \<Rightarrow> nat \<rightharpoonup> cents" where
  "revenue_by_performance organization s =
     (\<lambda>k. let os = filter (\<lambda>x. order_performance x = Some k) (ticketed_orders organization s)
          in if os = [] then None else Some (revenue os))"

definition event_of_order :: "db \<Rightarrow> order \<Rightarrow> nat option" where
  "event_of_order s x =
     (case order_performance x of None \<Rightarrow> None | Some k \<Rightarrow> map_option perf_event (get_row perf_pk k (db_performances s)))"

record event_revenue_row =
  er_title :: "string option"
  er_orders :: nat
  er_revenue :: cents

text \<open>Grouped by the event (and its title, which the event determines), the largest revenue first.\<close>

definition event_revenue_row_of :: "nat \<Rightarrow> db \<Rightarrow> nat option \<Rightarrow> event_revenue_row" where
  "event_revenue_row_of organization s ev =
     (let os = filter (\<lambda>x. event_of_order s x = ev) (ticketed_orders organization s)
      in \<lparr>er_title = (case ev of None \<Rightarrow> None | Some k \<Rightarrow> map_option event_title (get_row event_pk k (db_events s))),
          er_orders = length os, er_revenue = revenue os\<rparr>)"

definition event_revenue_rows :: "nat \<Rightarrow> db \<Rightarrow> event_revenue_row list" where
  "event_revenue_rows organization s =
     order_by (\<lambda>r. - er_revenue r)
       (map (event_revenue_row_of organization s) (fromkeys (map (event_of_order s) (ticketed_orders organization s))))"

definition tickets_sold :: "nat \<Rightarrow> db \<Rightarrow> nat" where
  "tickets_sold organization s = length (filter (\<lambda>t. tkt_organization t = organization \<and> live t) (db_tickets s))"

definition live_of_performance :: "nat \<Rightarrow> performance \<Rightarrow> db \<Rightarrow> ticket list" where
  "live_of_performance organization p s =
     filter (\<lambda>t. tkt_organization t = organization \<and> tkt_performance t = perf_pk p \<and> live t) (db_tickets s)"

text \<open>The capacity shown: the allocation's, none without one, or the number of seats of the chart.\<close>

definition capacity_of :: "performance \<Rightarrow> db \<Rightarrow> int option" where
  "capacity_of p s =
     (if perf_seating_mode p = GA then map_option alloc_capacity (allocation_of (perf_pk p) s)
      else Some (int (length (performance_seats p s))))"

record performance_row =
  pr_performance :: performance
  pr_sold :: nat
  pr_capacity :: "int option"
  pr_revenue :: cents

definition performance_row_of :: "nat \<Rightarrow> bool \<Rightarrow> db \<Rightarrow> performance \<Rightarrow> performance_row" where
  "performance_row_of organization show_revenue s p =
     \<lparr>pr_performance = p, pr_sold = length (live_of_performance organization p s), pr_capacity = capacity_of p s,
      pr_revenue = (if show_revenue then case revenue_by_performance organization s (perf_pk p) of None \<Rightarrow> 0 | Some a \<Rightarrow> a else 0)\<rparr>"

definition performance_rows :: "nat \<Rightarrow> bool \<Rightarrow> db \<Rightarrow> performance_row list" where
  "performance_rows organization show_revenue s =
     map (performance_row_of organization show_revenue s)
       (take 25 (order_by (\<lambda>p. - perf_starts_at p) (filter (\<lambda>p. perf_organization p = organization) (db_performances s))))"

definition upcoming_performances :: "nat \<Rightarrow> time \<Rightarrow> db \<Rightarrow> performance list" where
  "upcoming_performances organization now s =
     take 10 (order_by perf_starts_at (filter (\<lambda>p. perf_organization p = organization \<and> now \<le> perf_starts_at p) (db_performances s)))"

text \<open>The checklist, by the keys of its steps; \<open>logo\<close> says whether the theater has a logo.\<close>

definition onboarding_steps :: "organization \<Rightarrow> bool \<Rightarrow> accounts \<Rightarrow> db \<Rightarrow> (string \<times> bool) list" where
  "onboarding_steps org logo st s =
     (let g = org_pk org
      in [(''stripe'', org_stripe_charges_enabled org),
          (''venue'', qs_exists (\<lambda>v. venue_organization v = g) (db_venues s)),
          (''seating_chart'', qs_exists (\<lambda>c. chart_organization c = g) (db_charts s)),
          (''event'', qs_exists (\<lambda>e. event_organization e = g) (db_events s)),
          (''publish_event'', qs_exists (\<lambda>e. event_organization e = g \<and> event_status e = EVENT_PUBLISHED) (db_events s)),
          (''price_tier'', qs_exists (\<lambda>t. tier_organization t = g) (db_tiers s) \<or>
                           qs_exists (\<lambda>z. zone_organization z = g) (db_zones s)),
          (''performance_on_sale'', qs_exists (\<lambda>p. perf_organization p = g \<and> perf_status p = PERF_PUBLISHED) (db_performances s)),
          (''teammate'', qs_exists (\<lambda>m. mem_organization m = g \<and> mem_role m \<noteq> OWNER) (acc_members st)),
          (''branding'', logo),
          (''first_sale'', qs_exists (\<lambda>x. order_organization x = g \<and> order_status x = PAID) (db_orders s))])"

record overview_page =
  ov_upcoming :: "performance list"
  ov_tickets_sold :: nat
  ov_show_revenue :: bool
  ov_gross_revenue :: cents
  ov_event_rows :: "event_revenue_row list"
  ov_performance_rows :: "performance_row list"
  ov_show_onboarding :: bool
  ov_onboarding :: "(string \<times> bool) list"

text \<open>A scanner is sent to the door (none).\<close>

definition overview :: "organization \<Rightarrow> bool \<Rightarrow> accounts \<Rightarrow> membership \<Rightarrow> time \<Rightarrow> db \<Rightarrow> overview_page option" where
  "overview org logo st m now s =
     (if \<not> can_sell_tickets m then None
      else let g = org_pk org; show_revenue = can_manage_events m;
               steps = (if show_revenue then onboarding_steps org logo st s else [])
           in Some \<lparr>ov_upcoming = upcoming_performances g now s, ov_tickets_sold = tickets_sold g s,
                ov_show_revenue = show_revenue,
                ov_gross_revenue = (if show_revenue then gross_revenue g s else 0),
                ov_event_rows = (if show_revenue then event_revenue_rows g s else []),
                ov_performance_rows = performance_rows g show_revenue s,
                ov_show_onboarding = (show_revenue \<and> \<not> (length (filter snd steps) = length steps)),
                ov_onboarding = steps\<rparr>)"

section \<open>The page of a performance\<close>

datatype house_seat = SeatUsed string | SeatSold string | SeatBlocked | SeatAvailable

definition order_of_ticket :: "ticket \<Rightarrow> db \<Rightarrow> order option" where
  "order_of_ticket t s = get_row order_pk (tkt_order t) (db_orders s)"

text \<open>The name in the tooltip: the holder's, else the buyer's, else the buyer's email.\<close>

definition shown_holder :: "ticket \<Rightarrow> db \<Rightarrow> string" where
  "shown_holder t s =
     (if tkt_holder_name t \<noteq> [] then tkt_holder_name t
      else case order_of_ticket t s of
             None \<Rightarrow> []
           | Some x \<Rightarrow> if order_buyer_name x \<noteq> [] then order_buyer_name x else order_buyer_email x)"

text \<open>Later tickets overwrite earlier ones in the dictionary of a seat's ticket.\<close>

definition page_ticket_key :: "db \<Rightarrow> ticket \<Rightarrow> int \<times> string \<times> string \<times> nat" where
  "page_ticket_key s t =
     (case tkt_seat t of
        None \<Rightarrow> (0, [], [], tkt_pk t)
      | Some k \<Rightarrow>
          (case get_row seat_pk k (db_seats s) of
             None \<Rightarrow> (0, [], [], tkt_pk t)
           | Some r \<Rightarrow> (case seat_sort_key s r of (o', l, n) \<Rightarrow> (o', l, n, tkt_pk t))))"

definition page_tickets :: "nat \<Rightarrow> performance \<Rightarrow> db \<Rightarrow> ticket list" where
  "page_tickets organization p s =
     order_by (page_ticket_key s) (filter (\<lambda>t. tkt_organization t = organization \<and> tkt_performance t = perf_pk p) (db_tickets s))"

definition seat_ticket :: "ticket list \<Rightarrow> nat \<rightharpoonup> ticket" where
  "seat_ticket ts = foldl (\<lambda>m t. case tkt_seat t of None \<Rightarrow> m | Some k \<Rightarrow> m(k \<mapsto> t)) Map.empty ts"

definition house_seat_of :: "nat \<Rightarrow> performance \<Rightarrow> db \<Rightarrow> seat \<Rightarrow> house_seat" where
  "house_seat_of organization p s r =
     (case seat_ticket (filter live (page_tickets organization p s)) (seat_pk r) of
        Some t \<Rightarrow> if tkt_status t = USED then SeatUsed (shown_holder t s) else SeatSold (shown_holder t s)
      | None \<Rightarrow> if seat_pk r \<in> blocked_ids (perf_pk p) s then SeatBlocked else SeatAvailable)"

definition matches_ticket :: "string \<Rightarrow> db \<Rightarrow> ticket \<Rightarrow> bool" where
  "matches_ticket q s t \<longleftrightarrow>
     icontains (tkt_holder_name t) q \<or> tkt_token t = q \<or>
     (case order_of_ticket t s of
        None \<Rightarrow> False
      | Some x \<Rightarrow> icontains (order_buyer_name x) q \<or> icontains (order_buyer_email x) q \<or> order_token x = q)"

record performance_page =
  sp_sold :: nat
  sp_checked_in :: nat
  sp_capacity :: "int option"
  sp_revenue :: "cents option"
  sp_results :: "ticket list option"
  sp_ga_seats :: "seat list option"
  sp_seats :: "(seat \<times> house_seat) list option"

definition staff_performance :: "membership \<Rightarrow> nat \<Rightarrow> nat \<Rightarrow> string \<Rightarrow> db \<Rightarrow> performance_page option" where
  "staff_performance m organization pk q s =
     (case org_performance organization pk s of
        None \<Rightarrow> None
      | Some p \<Rightarrow>
          let ts = page_tickets organization p s; live_tickets = filter live ts; query = strip q
          in Some \<lparr>sp_sold = length live_tickets, sp_checked_in = length (filter (\<lambda>t. tkt_status t = USED) live_tickets),
               sp_capacity = capacity_of p s,
               sp_revenue = (if can_manage_events m
                  then Some (revenue (filter (\<lambda>x. order_performance x = Some pk) (org_paid_orders organization s))) else None),
               sp_results = (if query = [] then None else Some (filter (matches_ticket query s) ts)),
               sp_ga_seats = (if perf_seating_mode p = GA then Some (performance_seats p s) else None),
               sp_seats = (if perf_seating_mode p = GA then None
                  else Some (map (\<lambda>r. (r, house_seat_of organization p s r)) (performance_seats p s)))\<rparr>)"

section \<open>The reports\<close>

datatype report_response = ReportCrash | ReportPage "order_item list" cents | ReportCsv "string list list"

record report_kit =
  rk_created :: "nat \<Rightarrow> time"
  rk_date :: "time \<Rightarrow> int"
  rk_stamp :: "time \<Rightarrow> string"
  rk_parse_date :: "string \<Rightarrow> int option"

definition order_of_item :: "order_item \<Rightarrow> db \<Rightarrow> order option" where
  "order_of_item i s = get_row order_pk (item_order i) (db_orders s)"

definition item_created :: "report_kit \<Rightarrow> order_item \<Rightarrow> time" where
  "item_created kit i = rk_created kit (item_order i)"

text \<open>Paid items of a kind, the latest order first.\<close>

definition paid_items :: "report_kit \<Rightarrow> nat \<Rightarrow> item_kind \<Rightarrow> db \<Rightarrow> order_item list" where
  "paid_items kit organization kind s =
     order_by (\<lambda>i. - item_created kit i)
       (filter (\<lambda>i. item_organization i = organization \<and> item_kind i = kind \<and>
          (case order_of_item i s of None \<Rightarrow> False | Some x \<Rightarrow> order_status x = PAID)) (db_items s))"

text \<open>A bound that is no date raises; an empty one does not filter.\<close>

definition date_filter :: "report_kit \<Rightarrow> bool \<Rightarrow> string \<Rightarrow> order_item list \<Rightarrow> order_item list option" where
  "date_filter kit from_below bound is =
     (if bound = [] then Some is
      else map_option (\<lambda>d. filter (\<lambda>i. if from_below then d \<le> rk_date kit (item_created kit i) else rk_date kit (item_created kit i) \<le> d) is)
             (rk_parse_date kit bound))"

definition items_between :: "report_kit \<Rightarrow> (string \<rightharpoonup> string) \<Rightarrow> order_item list \<Rightarrow> order_item list option" where
  "items_between kit get is =
     (case date_filter kit True (strip (or_blank (get ''start''))) is of
        None \<Rightarrow> None
      | Some js \<Rightarrow> date_filter kit False (strip (or_blank (get ''end''))) js)"

definition items_total :: "order_item list \<Rightarrow> cents" where
  "items_total is = sum_list (map item_unit_amount is)"

definition buyer_cells :: "(order \<Rightarrow> string) \<Rightarrow> order_item \<Rightarrow> db \<Rightarrow> string" where
  "buyer_cells f i s = (case order_of_item i s of None \<Rightarrow> [] | Some x \<Rightarrow> f x)"

definition donation_csv_row :: "report_kit \<Rightarrow> db \<Rightarrow> order_item \<Rightarrow> string list" where
  "donation_csv_row kit s i =
     [rk_stamp kit (item_created kit i), buyer_cells order_token i s, buyer_cells order_buyer_email i s,
      buyer_cells order_buyer_name i s,
      (case item_donation_campaign i of None \<Rightarrow> [] | Some k \<Rightarrow> (case get_row camp_pk k (db_campaigns s) of None \<Rightarrow> [] | Some c \<Rightarrow> camp_name c)),
      show_cents (item_unit_amount i)]"

definition donations_report :: "report_kit \<Rightarrow> nat \<Rightarrow> (string \<rightharpoonup> string) \<Rightarrow> db \<Rightarrow> report_response" where
  "donations_report kit organization get s =
     (case items_between kit get (paid_items kit organization DONATION s) of
        None \<Rightarrow> ReportCrash
      | Some is \<Rightarrow>
          if get ''format'' = Some ''csv''
          then ReportCsv ([''Date'', ''Order token'', ''Buyer email'', ''Buyer name'', ''Campaign'', ''Amount''] #
                 map (donation_csv_row kit s) is)
          else ReportPage is (items_total is))"

definition pass_csv_row :: "report_kit \<Rightarrow> db \<Rightarrow> order_item \<Rightarrow> string list" where
  "pass_csv_row kit s i =
     [rk_stamp kit (item_created kit i), buyer_cells order_token i s, buyer_cells order_buyer_email i s,
      (case item_pass_product i of None \<Rightarrow> [] | Some k \<Rightarrow> (case get_row prod_pk k (db_products s) of None \<Rightarrow> [] | Some c \<Rightarrow> prod_name c)),
      show_cents (item_unit_amount i)]"

text \<open>What the theater still owes its pass holders.\<close>

record liability =
  li_flex_credits :: int
  li_flex_value :: cents
  li_season_admissions :: int
  li_unbounded_season :: nat

text \<open>
  Decimal arithmetic at the context's precision of 28 digits, on numbers \<open>c * 10 ^ e\<close> with \<open>c\<close> not
  negative: a result is rounded half to even, and a quotient is exact or rounded.
\<close>

type_synonym dec = "int \<times> int"

definition digit_count :: "int \<Rightarrow> int" where
  "digit_count n = int (length (show_nat (nat n)))"

definition scale10 :: "int \<Rightarrow> int \<Rightarrow> int \<times> int" where
  "scale10 k d = (if 0 \<le> k then (10 ^ nat k, d) else (1, d * 10 ^ nat (- k)))"

definition dec_quotient :: "int \<Rightarrow> int \<Rightarrow> dec" where
  "dec_quotient n d =
     (if n = 0 then (0, 0)
      else let k0 = 28 - (digit_count n - digit_count d); (m0, d0) = scale10 k0 d;
               k = (if n * m0 < 10 ^ 28 * d0 then k0 else k0 - 1); (m, d1) = scale10 k d
           in (round_half_even (n * m) d1, - k))"

definition dec_round :: "dec \<Rightarrow> dec" where
  "dec_round x = (case x of (c, e) \<Rightarrow>
     if c < 10 ^ 28 then (c, e) else (let k = digit_count c - 28 in (round_half_even c (10 ^ nat k), e + k)))"

definition dec_times :: "dec \<Rightarrow> int \<Rightarrow> dec" where
  "dec_times x n = (case x of (c, e) \<Rightarrow> dec_round (c * n, e))"

definition dec_plus :: "dec \<Rightarrow> dec \<Rightarrow> dec" where
  "dec_plus x y = (case (x, y) of ((c, e), (c', e')) \<Rightarrow>
     dec_round (c * 10 ^ nat (e - min e e') + c' * 10 ^ nat (e' - min e e'), min e e'))"

definition dec_cents :: "dec \<Rightarrow> cents" where
  "dec_cents x = (case x of (c, e) \<Rightarrow> if -2 \<le> e then c * 10 ^ nat (e + 2) else round_half_even c (10 ^ nat (- 2 - e)))"

definition flex_value :: "db \<Rightarrow> pass_purchase \<Rightarrow> dec" where
  "flex_value s pp =
     (case (pp_credit_count pp, pp_credits_remaining pp) of
        (Some n, Some left) \<Rightarrow>
          if n = 0 \<or> left = 0 then (0, 0)
          else (let price_paid = (case get_row order_pk (pp_order pp) (db_orders s) of None \<Rightarrow> 0 | Some x \<Rightarrow> order_total x);
                    (c, e) = dec_quotient price_paid n
                in dec_times (c, e - 2) left)
      | _ \<Rightarrow> (0, 0))"

definition count_purchase :: "db \<Rightarrow> pass_purchase \<Rightarrow> int \<times> dec \<times> int \<times> nat \<Rightarrow> int \<times> dec \<times> int \<times> nat" where
  "count_purchase s pp acc =
     (case acc of (credits, v, admissions, unbounded) \<Rightarrow>
        if pp_kind pp = FLEX
        then (credits + (case pp_credits_remaining pp of None \<Rightarrow> 0 | Some c \<Rightarrow> c), dec_plus v (flex_value s pp), admissions, unbounded)
        else (case remaining_admissions pp s of
                None \<Rightarrow> (credits, v, admissions, Suc unbounded)
              | Some n \<Rightarrow> (credits, v, admissions + n, unbounded)))"

definition active_purchases :: "nat \<Rightarrow> db \<Rightarrow> pass_purchase list" where
  "active_purchases organization s =
     filter (\<lambda>p. pp_organization p = organization \<and> pp_status p = PASS_ACTIVE) (db_purchases s)"

definition pass_liability :: "nat \<Rightarrow> db \<Rightarrow> liability" where
  "pass_liability organization s =
     (case fold (count_purchase s) (active_purchases organization s) (0, (0, 0), 0, 0) of
        (credits, v, admissions, unbounded) \<Rightarrow>
          \<lparr>li_flex_credits = credits, li_flex_value = dec_cents v, li_season_admissions = admissions, li_unbounded_season = unbounded\<rparr>)"

definition pass_report :: "report_kit \<Rightarrow> nat \<Rightarrow> (string \<rightharpoonup> string) \<Rightarrow> db \<Rightarrow> report_response \<times> liability option" where
  "pass_report kit organization get s =
     (case items_between kit get (paid_items kit organization PASS s) of
        None \<Rightarrow> (ReportCrash, None)
      | Some is \<Rightarrow>
          if get ''format'' = Some ''csv''
          then (ReportCsv ([''Date'', ''Order token'', ''Buyer email'', ''Product'', ''Amount''] # map (pass_csv_row kit s) is), None)
          else (ReportPage is (items_total is), Some (pass_liability organization s)))"

section \<open>Orders\<close>

definition order_list :: "report_kit \<Rightarrow> nat \<Rightarrow> string \<Rightarrow> db \<Rightarrow> order list" where
  "order_list kit organization q s =
     (let query = strip q
      in order_by (\<lambda>x. - rk_created kit (order_pk x))
           (filter (\<lambda>x. order_organization x = organization \<and>
              (query = [] \<or> icontains (order_buyer_email x) query \<or> icontains (order_buyer_name x) query \<or> order_token x = query))
             (db_orders s)))"

record redemption_group =
  rg_product :: nat
  rg_count :: nat
  rg_credits :: int

definition redemption_group_of :: "pass_redemption list \<Rightarrow> db \<Rightarrow> nat \<Rightarrow> redemption_group" where
  "redemption_group_of rs s k =
     (let mine = filter (\<lambda>r. red_pass_purchase r = k) rs
      in \<lparr>rg_product = (case get_row pp_pk k (db_purchases s) of None \<Rightarrow> 0 | Some p \<Rightarrow> pp_product p),
          rg_count = length mine, rg_credits = sum_list (map red_credits_used mine)\<rparr>)"

record order_page =
  op_order :: order
  op_tickets :: "ticket list"
  op_items :: "order_item list"
  op_redemptions :: "redemption_group list"

definition org_order :: "nat \<Rightarrow> string \<Rightarrow> db \<Rightarrow> order option" where
  "org_order organization token s =
     first_row (filter (\<lambda>x. order_organization x = organization \<and> order_token x = token) (db_orders s))"

definition order_detail :: "nat \<Rightarrow> string \<Rightarrow> db \<Rightarrow> order_page option" where
  "order_detail organization token s =
     map_option (\<lambda>x. let rs = filter (\<lambda>r. red_order r = order_pk x) (db_redemptions s)
        in \<lparr>op_order = x, op_tickets = tickets_of x s, op_items = items_of x s,
            op_redemptions = map (redemption_group_of rs s) (fromkeys (map red_pass_purchase rs))\<rparr>)
       (org_order organization token s)"

end
