(* ===== verification/ReportFacts.thy ===== *)
theory ReportFacts
  imports Reports
begin

text \<open>
  What the staff's pages promise: the revenue tables add up to the gross, the seat map of a
  performance agrees with what the storefront sells, and a filter that is no date is a crash.
\<close>

section \<open>Grouping\<close>

text \<open>Summing group by group is summing everything.\<close>

lemma group_sum:
  fixes g :: "'a \<Rightarrow> 'b::comm_monoid_add"
  assumes "distinct ks" and "f ` set xs \<subseteq> set ks"
  shows "(\<Sum>k\<leftarrow>ks. \<Sum>x\<leftarrow>filter (\<lambda>x. f x = k) xs. g x) = (\<Sum>x\<leftarrow>xs. g x)"
  using assms(2)
proof (induction xs)
  case (Cons x xs)
  have "(\<Sum>k\<leftarrow>ks. \<Sum>y\<leftarrow>filter (\<lambda>y. f y = k) (x # xs). g y) =
      (\<Sum>k\<leftarrow>ks. (if f x = k then g x else 0) + (\<Sum>y\<leftarrow>filter (\<lambda>y. f y = k) xs. g y))"
    by (intro arg_cong [of _ _ sum_list] map_cong) auto
  also have "\<dots> = (\<Sum>k\<leftarrow>ks. if f x = k then g x else 0) + (\<Sum>y\<leftarrow>xs. g y)"
    using Cons by (simp add: sum_list_addf)
  also have "(\<Sum>k\<leftarrow>ks. if f x = k then g x else 0) = g x"
    using assms(1) Cons.prems by (simp add: sum_list_distinct_conv_sum_set)
  finally show ?case by simp
qed simp

lemma group_sum_keys:
  fixes g :: "'a \<Rightarrow> 'b::comm_monoid_add"
  shows "(\<Sum>k\<leftarrow>fromkeys (map f xs). \<Sum>x\<leftarrow>filter (\<lambda>x. f x = k) xs. g x) = (\<Sum>x\<leftarrow>xs. g x)"
  by (rule group_sum) simp_all

lemma sum_list_order_by_any:
  fixes f :: "'a \<Rightarrow> 'b::comm_monoid_add"
  shows "(\<Sum>x\<leftarrow>order_by k xs. f x) = (\<Sum>x\<leftarrow>xs. f x)"
proof -
  have "mset (map f (order_by k xs)) = mset (map f xs)" by (simp add: order_by_def)
  then show ?thesis by (metis sum_mset_sum_list)
qed

lemma length_as_sum: "(\<Sum>x\<leftarrow>xs. Suc 0) = length xs"
  by (induction xs) auto

lemma event_rows_add_up:
  "(\<Sum>r\<leftarrow>event_revenue_rows g s. er_revenue r) = revenue (ticketed_orders g s)"
  "(\<Sum>r\<leftarrow>event_revenue_rows g s. er_orders r) = length (ticketed_orders g s)"
proof -
  let ?os = "ticketed_orders g s" let ?ks = "fromkeys (map (event_of_order s) ?os)"
  have "(\<Sum>r\<leftarrow>event_revenue_rows g s. er_revenue r) = (\<Sum>k\<leftarrow>?ks. \<Sum>x\<leftarrow>filter (\<lambda>x. event_of_order s x = k) ?os. order_total x)"
    by (simp add: event_revenue_rows_def sum_list_order_by_any o_def event_revenue_row_of_def Let_def revenue_def)
  also have "\<dots> = revenue ?os" by (simp add: group_sum_keys revenue_def)
  finally show "(\<Sum>r\<leftarrow>event_revenue_rows g s. er_revenue r) = revenue ?os" .
  have "(\<Sum>r\<leftarrow>event_revenue_rows g s. er_orders r) = (\<Sum>k\<leftarrow>?ks. \<Sum>x\<leftarrow>filter (\<lambda>x. event_of_order s x = k) ?os. Suc 0)"
    by (simp add: event_revenue_rows_def sum_list_order_by_any o_def event_revenue_row_of_def Let_def length_as_sum)
  also have "\<dots> = (\<Sum>x\<leftarrow>?os. Suc 0)" by (rule group_sum_keys)
  also have "\<dots> = length ?os" by (rule length_as_sum)
  finally show "(\<Sum>r\<leftarrow>event_revenue_rows g s. er_orders r) = length ?os" .
qed

lemma revenue_split: "revenue os = revenue (filter P os) + revenue (filter (\<lambda>x. \<not> P x) os)"
  by (induction os) (auto simp: revenue_def)

lemma performance_revenue_row:
  "(case revenue_by_performance g s k of None \<Rightarrow> 0 | Some a \<Rightarrow> a) = revenue (filter (\<lambda>x. order_performance x = Some k) (org_paid_orders g s))"
proof -
  have "filter (\<lambda>x. order_performance x = Some k) (ticketed_orders g s) = filter (\<lambda>x. order_performance x = Some k) (org_paid_orders g s)"
    by (auto simp: ticketed_orders_def intro: filter_cong)
  then show ?thesis by (simp add: revenue_by_performance_def Let_def revenue_def)
qed

section \<open>The seat map\<close>

lemma seat_ticket_upd: "seat_ticket (ts @ [t]) = (case tkt_seat t of None \<Rightarrow> seat_ticket ts | Some k \<Rightarrow> (seat_ticket ts)(k \<mapsto> t))"
  by (simp add: seat_ticket_def split: option.split)

lemma seat_ticket_Some: "seat_ticket ts k = Some t \<Longrightarrow> t \<in> set ts \<and> tkt_seat t = Some k"
  by (induction ts rule: rev_induct) (auto simp: seat_ticket_upd split: option.splits if_splits, simp add: seat_ticket_def)

lemma seat_ticket_None: "seat_ticket ts k = None \<longleftrightarrow> (\<forall>t\<in>set ts. tkt_seat t \<noteq> Some k)"
  by (induction ts rule: rev_induct) (auto simp: seat_ticket_upd split: option.splits, simp add: seat_ticket_def)

lemma house_seat_free:
  assumes "\<forall>t\<in>set (db_tickets s). tkt_performance t = perf_pk p \<longrightarrow> tkt_organization t = g"
  shows "seat_ticket (filter live (page_tickets g p s)) k = None \<longleftrightarrow> k \<notin> ticketed_ids (perf_pk p) s"
proof -
  have "set (filter live (page_tickets g p s)) = {t \<in> set (db_tickets s). tkt_performance t = perf_pk p \<and> live t}"
    using assms by (auto simp: page_tickets_def order_by_def)
  then show ?thesis unfolding seat_ticket_None ticketed_ids_def by (auto simp: List.map_filter_def image_iff)
qed

section \<open>Properties\<close>

text \<open>
  The overview reconciles: the gross of a manager's overview is the sum of the revenue by
  event and of the paid orders that belong to no performance; every paid ticket order is counted in
  exactly one event's row; and the revenue beside a performance is that of its paid orders.
\<close>

theorem overview_revenue_reconciles:
  assumes "overview org logo st m now s = Some page" and "can_manage_events m"
  shows "ov_gross_revenue page = (\<Sum>r\<leftarrow>ov_event_rows page. er_revenue r) +
      revenue (filter (\<lambda>x. order_performance x = None) (org_paid_orders (org_pk org) s)) \<and>
    (\<Sum>r\<leftarrow>ov_event_rows page. er_orders r) = length (filter (\<lambda>x. order_performance x \<noteq> None) (org_paid_orders (org_pk org) s)) \<and>
    list_all (\<lambda>r. pr_revenue r = revenue (filter (\<lambda>x. order_performance x = Some (perf_pk (pr_performance r)))
      (org_paid_orders (org_pk org) s))) (ov_performance_rows page)"
proof -
  let ?g = "org_pk org"
  from assms have page: "ov_gross_revenue page = gross_revenue ?g s" "ov_event_rows page = event_revenue_rows ?g s"
    "ov_performance_rows page = performance_rows ?g True s"
    by (auto simp: overview_def Let_def split: if_splits)
  have "gross_revenue ?g s = revenue (ticketed_orders ?g s) + revenue (filter (\<lambda>x. order_performance x = None) (org_paid_orders ?g s))"
    unfolding gross_revenue_def ticketed_orders_def
    by (subst revenue_split [of _ "\<lambda>x. order_performance x \<noteq> None"]) simp
  moreover have "list_all (\<lambda>r. pr_revenue r = revenue (filter (\<lambda>x. order_performance x = Some (perf_pk (pr_performance r)))
      (org_paid_orders ?g s))) (performance_rows ?g True s)"
    by (simp add: performance_rows_def list.pred_map o_def performance_row_of_def performance_revenue_row list.pred_True)
  ultimately show ?thesis by (simp add: page event_rows_add_up) (simp add: ticketed_orders_def)
qed

text \<open>
  Property C27. The staff's map and the storefront's map of a house agree: a visitor can choose a seat
  exactly when the staff see it available and nobody else holds it; a seat the staff see sold or
  used is never offered.
\<close>

theorem house_map_agrees_with_storefront:
  assumes "\<forall>t\<in>set (db_tickets s). tkt_performance t = perf_pk p \<longrightarrow> tkt_organization t = g"
    and "(seat_pk r, st) \<in> set (reserved_seat_states p (Some sk) now s)"
  shows "(selectable st \<longleftrightarrow> house_seat_of g p s r = SeatAvailable \<and> seat_pk r \<notin> held_ids (perf_pk p) (\<lambda>k. Some sk \<noteq> Some k) now s) \<and>
    ((\<exists>n. house_seat_of g p s r = SeatSold n \<or> house_seat_of g p s r = SeatUsed n) \<longleftrightarrow> seat_pk r \<in> ticketed_ids (perf_pk p) s)"
proof -
  let ?k = "seat_pk r" let ?m = "seat_ticket (filter live (page_tickets g p s)) ?k"
  have m: "?m = None \<longleftrightarrow> ?k \<notin> ticketed_ids (perf_pk p) s" by (rule house_seat_free [OF assms(1)])
  have st: "st = (if ?k \<in> blocked_ids (perf_pk p) s then BLOCKED
      else if ?k \<in> ticketed_ids (perf_pk p) s \<or> ?k \<in> held_ids (perf_pk p) (\<lambda>k. Some sk \<noteq> Some k) now s then UNAVAILABLE
      else if ?k \<in> held_ids (perf_pk p) (\<lambda>k. Some sk = Some k) now s then HELD_BY_YOU else AVAILABLE)"
    using assms(2) unfolding reserved_seat_states_def Let_def by (auto simp only: set_map image_iff prod.inject)
  show ?thesis
  proof (cases ?m)
    case None
    then have h: "house_seat_of g p s r = (if ?k \<in> blocked_ids (perf_pk p) s then SeatBlocked else SeatAvailable)"
      by (simp add: house_seat_of_def)
    from None m have "?k \<notin> ticketed_ids (perf_pk p) s" by blast
    then show ?thesis unfolding st h by (simp add: selectable_def)
  next
    case (Some t)
    then have h: "house_seat_of g p s r = (if tkt_status t = USED then SeatUsed (shown_holder t s) else SeatSold (shown_holder t s))"
      by (simp add: house_seat_of_def)
    from Some m have "?k \<in> ticketed_ids (perf_pk p) s" by simp
    then show ?thesis unfolding st h by (simp add: selectable_def)
  qed
qed

section \<open>Witnesses\<close>

definition demo_sale :: order where
  "demo_sale = \<lparr>order_pk = 90, order_organization = 1, order_performance = Some 32, order_buyer_email = ''ann@x.example'', order_buyer_name = ''Ann'',
     order_guest = None, order_promo_code_text = [], order_discount_amount = 0, order_total = 4000, order_status = PAID,
     order_token = ''AAAA'', order_stripe_checkout_session_id = None\<rparr>"

definition demo_gift :: order where
  "demo_gift = demo_sale\<lparr>order_pk := 91, order_performance := None, order_total := 1000\<rparr>"

definition demo_seat_sold :: ticket where
  "demo_seat_sold = \<lparr>tkt_pk = 92, tkt_organization = 1, tkt_order = 90, tkt_performance = 32, tkt_seat = Some 21, tkt_holder_name = [],
     tkt_token = ''BBBB'', tkt_status = VALID, tkt_used_at = None, tkt_scanned_by = None\<rparr>"

definition seat_sold_demo :: db where
  "seat_sold_demo = demo\<lparr>db_orders := [demo_sale, demo_gift], db_tickets := [demo_seat_sold]\<rparr>"

definition demo_manager :: membership where
  "demo_manager = \<lparr>mem_pk = 1, mem_user = 1, mem_organization = 1, mem_role = MANAGER\<rparr>"

theorem overview_revenue_reconciles_witness:
  "\<exists>page. overview roxy True \<lparr>acc_next = 2, acc_users = [], acc_members = [demo_manager]\<rparr> demo_manager 0 seat_sold_demo = Some page \<and>
     (\<Sum>r\<leftarrow>ov_event_rows page. er_revenue r) = ov_gross_revenue page - 1000"
proof -
  have m: "can_manage_events demo_manager" "can_sell_tickets demo_manager"
    by (simp_all add: can_manage_events_def can_sell_tickets_def is_manager_or_above_def is_box_office_or_above_def demo_manager_def)
  then obtain page where page: "overview roxy True \<lparr>acc_next = 2, acc_users = [], acc_members = [demo_manager]\<rparr> demo_manager 0 seat_sold_demo = Some page"
    by (auto simp: overview_def Let_def)
  have "revenue (filter (\<lambda>x. order_performance x = None) (org_paid_orders (org_pk roxy) seat_sold_demo)) = 1000"
    by (simp add: org_paid_orders_def revenue_def seat_sold_demo_def demo_sale_def demo_gift_def roxy_def)
  with overview_revenue_reconciles [OF page m(1)] page show ?thesis by auto
qed

theorem house_map_agrees_with_storefront_witness:
  "(21, UNAVAILABLE) \<in> set (reserved_seat_states matinee (Some ''s1'') 0 seat_sold_demo) \<and>
   house_seat_of 1 matinee seat_sold_demo (demo_seat 21 ''1'') \<noteq> SeatAvailable"
proof -
  have "held_ids 32 m 0 seat_sold_demo = {}" "ticketed_ids 32 seat_sold_demo = {21}" "blocked_ids 32 seat_sold_demo = {}" for m
    by (simp_all add: held_ids_def ticketed_ids_def blocked_ids_def seat_sold_demo_def demo_def demo_seat_sold_def live_def List.map_filter_def)
  moreover have "performance_seats matinee seat_sold_demo = [demo_seat 21 ''1'', demo_seat 22 ''2'', demo_seat 23 ''3'']"
    by (rule matinee_seats) (simp_all add: seat_sold_demo_def demo_def)
  ultimately have st: "(seat_pk (demo_seat 21 ''1''), UNAVAILABLE) \<in> set (reserved_seat_states matinee (Some ''s1'') 0 seat_sold_demo)"
    and none: "seat_pk (demo_seat 21 ''1'') \<notin> held_ids 32 (\<lambda>k. Some ''s1'' \<noteq> Some k) 0 seat_sold_demo"
    by (simp_all add: reserved_seat_states_def Let_def demo_seat_def matinee_def)
  have "\<forall>t\<in>set (db_tickets seat_sold_demo). tkt_performance t = perf_pk matinee \<longrightarrow> tkt_organization t = 1"
    by (simp add: seat_sold_demo_def demo_seat_sold_def)
  from house_map_agrees_with_storefront [OF this st] none st show ?thesis by (auto simp: selectable_def matinee_def demo_seat_def)
qed

section \<open>A filter that is no date\<close>

text \<open>
  Comparing a date lookup with text that does not parse raises Django's validation error, which
  neither report catches.
\<close>

lemma bad_date_crashes_reports:
  assumes "get ''start'' = Some bound" and "strip bound \<noteq> []" and "rk_parse_date kit (strip bound) = None"
  shows "donations_report kit g get s = ReportCrash \<and> pass_report kit g get s = (ReportCrash, None)"
  using assms by (simp add: donations_report_def pass_report_def items_between_def date_filter_def or_blank_def)

end
