(* ===== verification/CampaignFacts.thy ===== *)
theory CampaignFacts
  imports Campaigns
begin

text \<open>
  Email campaigns: what the trigger queues, that overlapping, crashing and restarted cron runs never mail a
  guest twice, that undisturbed runs finish every campaign, and that an unsubscribed guest gets no mail.
\<close>

section \<open>The delivery log\<close>

interpretation send_rows: model_table cs_pk "\<lambda>k r. r\<lparr>cs_pk := k\<rparr>"
  by unfold_locales simp

interpretation campaign_rows: model_table ec_pk "\<lambda>k r. r\<lparr>ec_pk := k\<rparr>"
  by unfold_locales simp

definition send_at :: "nat \<Rightarrow> mailing \<Rightarrow> campaign_send option" where
  "send_at k m = get_row cs_pk k (ml_sends m)"

text \<open>One row per campaign and guest, on a well-keyed table.\<close>

definition log_wf :: "mailing \<Rightarrow> bool" where
  "log_wf m \<longleftrightarrow> well_keyed cs_pk (ml_next m) (ml_sends m) \<and> distinct (map (\<lambda>r. (cs_campaign r, cs_guest r)) (ml_sends m))"

lemma get_row_update:
  assumes "\<And>r. pk (f r) = pk r"
  shows "get_row pk j (update_rows P f rs) = map_option (\<lambda>r. if P r then f r else r) (get_row pk j rs)"
  using assms by (induction rs) (auto simp: get_row_def update_rows_def)

lemma send_at_save:
  assumes "\<And>r. cs_pk (f r) = cs_pk r"
  shows "send_at j (save_send k f m) = (if j = k then map_option f (send_at j m) else send_at j m)"
  using assms by (cases "get_row cs_pk j (ml_sends m)") (auto simp: send_at_def save_send_def get_row_update dest: get_row_Some)

lemma send_at_claim:
  "send_at j (snd (claim_send k m)) =
     map_option (\<lambda>r. if j = k \<and> cs_status r = SendPending then r\<lparr>cs_status := SendSending\<rparr> else r) (send_at j m)"
  by (cases "get_row cs_pk j (ml_sends m)") (auto simp: send_at_def claim_send_def get_row_update dest: get_row_Some)

lemma send_at_campaign [simp]: "send_at j (save_campaign k f m) = send_at j m"
  by (simp add: send_at_def save_campaign_def)

lemma send_at_finish [simp]: "send_at j (finish_campaign now k m) = send_at j m"
  by (simp add: finish_campaign_def)

lemma claimed_iff:
  assumes "log_wf m"
  shows "fst (claim_send k m) \<longleftrightarrow> (\<exists>r. send_at k m = Some r \<and> cs_status r = SendPending)"
  using assms send_rows.get_row_keyed [of "ml_next m" "ml_sends m"]
  by (auto simp: claim_send_def send_at_def log_wf_def dest: get_row_Some)

section \<open>The log stays well formed\<close>

lemma update_sends_wf:
  assumes "\<And>r. cs_pk (f r) = cs_pk r \<and> cs_campaign (f r) = cs_campaign r \<and> cs_guest (f r) = cs_guest r" "log_wf m"
  shows "log_wf (m\<lparr>ml_sends := update_rows P f (ml_sends m)\<rparr>)"
proof -
  have "map (\<lambda>r. (cs_campaign r, cs_guest r)) (update_rows P f (ml_sends m)) = map (\<lambda>r. (cs_campaign r, cs_guest r)) (ml_sends m)"
    using assms(1) by (auto simp: update_rows_def)
  moreover have "well_keyed cs_pk (ml_next m) (update_rows P f (ml_sends m))"
    using assms by (intro send_rows.update_keyed) (auto simp: log_wf_def)
  ultimately show ?thesis using assms(2) by (simp add: log_wf_def)
qed

lemma save_send_wf:
  "(\<And>r. cs_pk (f r) = cs_pk r \<and> cs_campaign (f r) = cs_campaign r \<and> cs_guest (f r) = cs_guest r) \<Longrightarrow> log_wf m \<Longrightarrow> log_wf (save_send k f m)"
  unfolding save_send_def by (rule update_sends_wf)

lemma claim_wf: "log_wf m \<Longrightarrow> log_wf (snd (claim_send k m))"
  by (simp add: claim_send_def update_sends_wf)

lemma finish_wf: "log_wf m \<Longrightarrow> log_wf (finish_campaign now k m)"
  by (simp add: finish_campaign_def save_campaign_def log_wf_def)

lemma append_keyed: "well_keyed cs_pk n rs \<Longrightarrow> cs_pk r = n \<Longrightarrow> well_keyed cs_pk (Suc n) (rs @ [r])"
  by (auto simp: well_keyed_def sorted_wrt_append less_Suc_eq)

lemma queue_wf: "log_wf m \<Longrightarrow> log_wf (queue_send c g m)"
  by (auto simp: queue_send_def log_wf_def intro!: append_keyed)

lemma get_row_append: "get_row pk k rs = Some r \<Longrightarrow> get_row pk k (rs @ qs) = Some r"
  by (auto simp: get_row_def first_row_def split: list.splits)

lemma queue_send_at: "send_at j m = Some r \<Longrightarrow> send_at j (queue_send c g m) = Some r"
  by (simp add: queue_send_def send_at_def get_row_append)

lemma queue_all_wf: "log_wf m \<Longrightarrow> log_wf (fold (queue_send c) gs m)"
  by (induction gs arbitrary: m) (simp_all add: queue_wf)

lemma queue_all_at: "send_at j m = Some r \<Longrightarrow> send_at j (fold (queue_send c) gs m) = Some r"
  by (induction gs arbitrary: m) (simp_all add: queue_send_at)

lemma trigger_effect:
  assumes "start_campaign k now s m = Inr (n, m')"
  shows "(log_wf m \<longrightarrow> log_wf m') \<and> (\<forall>j r. send_at j m = Some r \<longrightarrow> send_at j m' = Some r)"
proof -
  have "\<exists>f c guests. m' = save_campaign k f (fold (queue_send c) guests m)"
    using assms by (auto simp: start_campaign_def Let_def split: option.splits if_splits) (metis fold_simps(1))
  then obtain f c guests where "m' = save_campaign k f (fold (queue_send c) guests m)" by blast
  then show ?thesis by (simp add: queue_all_at) (simp add: log_wf_def save_campaign_def queue_all_wf [unfolded log_wf_def])
qed

section \<open>Overlapping runs\<close>

text \<open>
  A run of the command as a process of small steps, so that several may overlap: what it holds in its
  hands, the rest of its batch, and the campaigns it will check at the end. Outside the processes anything
  may happen to the database (guests opt in and out, orders are paid), staff may trigger campaigns, and a
  process may die between any two steps.
\<close>

datatype phase =
    Idle
  | Claimed batch_item
  | Ready batch_item guest_account
  | Delivered batch_item
  | Refused batch_item string

type_synonym run = "phase \<times> batch_item list \<times> nat list"

record blast =
  bl_db :: db
  bl_mail :: mailing
  bl_runs :: "nat \<Rightarrow> run"
  bl_outbox :: "(batch_item \<times> campaign_mail) list"

inductive blast_step :: "mail_kit \<Rightarrow> nat \<Rightarrow> blast \<Rightarrow> blast \<Rightarrow> bool" for kit :: mail_kit and batch_size :: nat where
  begin_run: "bl_runs b p = (Idle, [], []) \<Longrightarrow> items = pending_batch batch_size (bl_db b) (bl_mail b) \<Longrightarrow>
    blast_step kit batch_size b (b\<lparr>bl_runs := (bl_runs b)(p := (Idle, items, touched items))\<rparr>)"
| claim: "bl_runs b p = (Idle, i # todo, ks) \<Longrightarrow> claim_send (cs_pk (bi_send i)) (bl_mail b) = (True, m1) \<Longrightarrow>
    blast_step kit batch_size b (b\<lparr>bl_runs := (bl_runs b)(p := (Claimed i, todo, ks)), bl_mail := m1\<rparr>)"
| claim_lost: "bl_runs b p = (Idle, i # todo, ks) \<Longrightarrow> claim_send (cs_pk (bi_send i)) (bl_mail b) = (False, m1) \<Longrightarrow>
    blast_step kit batch_size b (b\<lparr>bl_runs := (bl_runs b)(p := (Idle, todo, ks)), bl_mail := m1\<rparr>)"
| skip: "bl_runs b p = (Claimed i, todo, ks) \<Longrightarrow> still_opted_in (cs_guest (bi_send i)) (bl_db b) = None \<Longrightarrow>
    m1 = save_send (cs_pk (bi_send i)) (\<lambda>r. r\<lparr>cs_status := SendSkipped\<rparr>) (bl_mail b) \<Longrightarrow>
    blast_step kit batch_size b (b\<lparr>bl_runs := (bl_runs b)(p := (Idle, todo, ks)), bl_mail := m1\<rparr>)"
| consent: "bl_runs b p = (Claimed i, todo, ks) \<Longrightarrow> still_opted_in (cs_guest (bi_send i)) (bl_db b) = Some g \<Longrightarrow>
    blast_step kit batch_size b (b\<lparr>bl_runs := (bl_runs b)(p := (Ready i g, todo, ks))\<rparr>)"
| mail_out: "bl_runs b p = (Ready i g, todo, ks) \<Longrightarrow>
    blast_step kit batch_size b
      (b\<lparr>bl_runs := (bl_runs b)(p := (Delivered i, todo, ks)), bl_outbox := bl_outbox b @ [(i, item_message kit i g now)]\<rparr>)"
| mail_fails: "bl_runs b p = (Ready i g, todo, ks) \<Longrightarrow>
    blast_step kit batch_size b (b\<lparr>bl_runs := (bl_runs b)(p := (Refused i exc, todo, ks))\<rparr>)"
| record_sent: "bl_runs b p = (Delivered i, todo, ks) \<Longrightarrow>
    m1 = save_send (cs_pk (bi_send i)) (\<lambda>r. r\<lparr>cs_status := SendSent, cs_sent_at := Some now\<rparr>) (bl_mail b) \<Longrightarrow>
    blast_step kit batch_size b (b\<lparr>bl_runs := (bl_runs b)(p := (Idle, todo, ks)), bl_mail := m1\<rparr>)"
| record_failed: "bl_runs b p = (Refused i exc, todo, ks) \<Longrightarrow>
    m1 = save_send (cs_pk (bi_send i)) (\<lambda>r. r\<lparr>cs_status := SendFailed, cs_error := take 2000 exc\<rparr>) (bl_mail b) \<Longrightarrow>
    blast_step kit batch_size b (b\<lparr>bl_runs := (bl_runs b)(p := (Idle, todo, ks)), bl_mail := m1\<rparr>)"
| finish: "bl_runs b p = (Idle, [], k # ks) \<Longrightarrow>
    blast_step kit batch_size b (b\<lparr>bl_runs := (bl_runs b)(p := (Idle, [], ks)), bl_mail := finish_campaign now k (bl_mail b)\<rparr>)"
| crash: "blast_step kit batch_size b (b\<lparr>bl_runs := (bl_runs b)(p := (Idle, [], []))\<rparr>)"
| trigger: "start_campaign k now (bl_db b) (bl_mail b) = Inr (n, m1) \<Longrightarrow> blast_step kit batch_size b (b\<lparr>bl_mail := m1\<rparr>)"
| world: "blast_step kit batch_size b (b\<lparr>bl_db := s\<rparr>)"

fun held :: "phase \<Rightarrow> batch_item option" where
  "held Idle = None"
| "held (Claimed i) = Some i"
| "held (Ready i g) = Some i"
| "held (Delivered i) = Some i"
| "held (Refused i exc) = Some i"

definition send_key :: "batch_item \<Rightarrow> nat" where "send_key i = cs_pk (bi_send i)"

text \<open>The row an item was read from is still there, as the same campaign's row for the same guest.\<close>

definition backed :: "mailing \<Rightarrow> send_status set \<Rightarrow> batch_item \<Rightarrow> bool" where
  "backed m sts i \<longleftrightarrow> (\<exists>r. send_at (send_key i) m = Some r \<and> cs_campaign r = cs_campaign (bi_send i) \<and>
     cs_guest r = cs_guest (bi_send i) \<and> cs_status r \<in> sts)"

definition holding :: "blast \<Rightarrow> nat \<Rightarrow> batch_item option" where
  "holding b p = held (fst (bl_runs b p))"

definition mailed :: "blast \<Rightarrow> nat list" where
  "mailed b = map (send_key \<circ> fst) (bl_outbox b)"

definition unsent :: "blast \<Rightarrow> nat \<Rightarrow> nat option" where
  "unsent b p = (case fst (bl_runs b p) of Claimed i \<Rightarrow> Some (send_key i) | Ready i g \<Rightarrow> Some (send_key i) | _ \<Rightarrow> None)"

text \<open>
  The invariant: whatever a run has in its hands is marked as being sent and is in no other run's hands; what
  has been mailed is no longer pending, was mailed once, and is not about to be mailed again.
\<close>

definition blast_inv :: "blast \<Rightarrow> bool" where
  "blast_inv b \<longleftrightarrow> log_wf (bl_mail b) \<and>
     (\<forall>p i. i \<in> set (fst (snd (bl_runs b p))) \<longrightarrow> backed (bl_mail b) UNIV i) \<and>
     (\<forall>p i. holding b p = Some i \<longrightarrow> backed (bl_mail b) {SendSending} i) \<and>
     (\<forall>p q i j. holding b p = Some i \<longrightarrow> holding b q = Some j \<longrightarrow> send_key i = send_key j \<longrightarrow> p = q) \<and>
     (\<forall>i\<in>fst ` set (bl_outbox b). backed (bl_mail b) (- {SendPending}) i) \<and>
     (\<forall>p k. unsent b p = Some k \<longrightarrow> k \<notin> set (mailed b)) \<and>
     distinct (mailed b)"

lemma backed_row:
  "backed m sts i \<Longrightarrow> \<exists>r\<in>set (ml_sends m). cs_pk r = send_key i \<and> cs_campaign r = cs_campaign (bi_send i) \<and> cs_guest r = cs_guest (bi_send i)"
  by (auto simp: backed_def send_at_def dest!: get_row_Some)

lemma backed_mono: "backed m sts i \<Longrightarrow> sts \<subseteq> sts' \<Longrightarrow> backed m sts' i"
  by (auto simp: backed_def)

text \<open>An update of the rows with one key moves the items with that key and leaves the others.\<close>

lemma backed_save:
  assumes "backed m sts i" "\<And>r. cs_pk (f r) = cs_pk r \<and> cs_campaign (f r) = cs_campaign r \<and> cs_guest (f r) = cs_guest r"
    and "send_key i = k \<Longrightarrow> (\<And>r. cs_status r \<in> sts \<Longrightarrow> cs_status (f r) \<in> sts')" "send_key i \<noteq> k \<Longrightarrow> sts \<subseteq> sts'"
  shows "backed (save_send k f m) sts' i"
proof -
  obtain r where r: "send_at (send_key i) m = Some r" "cs_campaign r = cs_campaign (bi_send i)"
    "cs_guest r = cs_guest (bi_send i)" "cs_status r \<in> sts" using assms(1) by (auto simp: backed_def)
  then show ?thesis using assms(2-4) by (auto simp: backed_def send_at_save)
qed

lemma backed_claim:
  assumes "backed m sts i" "send_key i \<noteq> k \<Longrightarrow> sts \<subseteq> sts'"
    and "send_key i = k \<Longrightarrow> SendSending \<in> sts' \<and> sts - {SendPending} \<subseteq> sts'"
  shows "backed (snd (claim_send k m)) sts' i"
proof -
  obtain r where r: "send_at (send_key i) m = Some r" "cs_campaign r = cs_campaign (bi_send i)"
    "cs_guest r = cs_guest (bi_send i)" "cs_status r \<in> sts" using assms(1) by (auto simp: backed_def)
  show ?thesis
    using r assms(2,3) by (cases "send_key i = k"; cases "cs_status r = SendPending") (auto simp: backed_def send_at_claim)
qed

lemma backed_trigger: "start_campaign k now s m = Inr (n, m') \<Longrightarrow> backed m sts i \<Longrightarrow> backed m' sts i"
  using trigger_effect by (fastforce simp: backed_def)

lemma backed_finish [simp]: "backed (finish_campaign now k m) sts i = backed m sts i"
  by (simp add: backed_def)

lemma pending_backed:
  assumes "log_wf m" "i \<in> set (pending_batch n s m)"
  shows "backed m {SendPending} i"
proof -
  from assms(2) have "i \<in> set (List.map_filter (batch_item_of s m) (order_by cs_pk (ml_sends m)))"
    by (auto simp: pending_batch_def dest: in_set_takeD)
  then obtain r where r: "r \<in> set (ml_sends m)" "batch_item_of s m r = Some i"
    by (auto simp: map_filter_def order_by_def)
  then have "bi_send i = r" "cs_status r = SendPending"
    by (auto simp: batch_item_of_def split: option.splits if_splits)
  moreover have "send_at (cs_pk r) m = Some r"
    using send_rows.get_row_keyed r(1) assms(1) by (auto simp: send_at_def log_wf_def)
  ultimately show ?thesis by (simp add: backed_def send_key_def)
qed

lemma claim_true:
  assumes "claim_send k m = (True, m1)" "log_wf m"
  shows "m1 = snd (claim_send k m) \<and> (\<exists>r. send_at k m = Some r \<and> cs_status r = SendPending)"
  using claimed_iff [OF assms(2), of k] assms(1) by simp

lemma claim_false: "claim_send k m = (False, m1) \<Longrightarrow> log_wf m \<Longrightarrow> m1 = m"
proof -
  assume c: "claim_send k m = (False, m1)"
  then have "\<forall>r\<in>set (ml_sends m). \<not> (cs_pk r = k \<and> cs_status r = SendPending)"
    by (auto simp: claim_send_def)
  then have "update_rows (\<lambda>r. cs_pk r = k \<and> cs_status r = SendPending) (\<lambda>r. r\<lparr>cs_status := SendSending\<rparr>) (ml_sends m) = ml_sends m"
    by (auto simp: update_rows_def intro!: map_idI)
  with c show ?thesis by (simp add: claim_send_def)
qed

lemmas view_defs = holding_def unsent_def mailed_def

lemma inv_begin:
  assumes "blast_inv b" "bl_runs b p = (Idle, [], [])" "items = pending_batch n (bl_db b) (bl_mail b)"
  shows "blast_inv (b\<lparr>bl_runs := (bl_runs b)(p := (Idle, items, ks))\<rparr>)"
proof -
  have "backed (bl_mail b) UNIV i" if "i \<in> set items" for i
    using pending_backed [of "bl_mail b" i n "bl_db b"] assms(1,3) that by (auto simp: blast_inv_def intro: backed_mono)
  then show ?thesis using assms(1) by (auto simp: blast_inv_def view_defs split: if_splits)
qed

lemma set_mailed: "set (mailed b) = send_key ` (fst ` set (bl_outbox b))"
  by (simp add: mailed_def image_image comp_def)

lemma blast_invD:
  assumes "blast_inv b"
  shows "log_wf (bl_mail b)" "\<And>p i. i \<in> set (fst (snd (bl_runs b p))) \<Longrightarrow> backed (bl_mail b) UNIV i"
    "\<And>p i. holding b p = Some i \<Longrightarrow> backed (bl_mail b) {SendSending} i"
    "\<And>p q i j. holding b p = Some i \<Longrightarrow> holding b q = Some j \<Longrightarrow> send_key i = send_key j \<Longrightarrow> p = q"
    "\<And>i. i \<in> fst ` set (bl_outbox b) \<Longrightarrow> backed (bl_mail b) (- {SendPending}) i"
    "\<And>p k. unsent b p = Some k \<Longrightarrow> k \<notin> set (mailed b)" "distinct (mailed b)"
proof -
  note inv = assms [unfolded blast_inv_def]
  show "log_wf (bl_mail b)" using inv by (rule conjunct1)
  show "backed (bl_mail b) UNIV i" if "i \<in> set (fst (snd (bl_runs b p)))" for p i
    using inv [THEN conjunct2, THEN conjunct1] that by blast
  show "backed (bl_mail b) {SendSending} i" if "holding b p = Some i" for p i
    using inv [THEN conjunct2, THEN conjunct2, THEN conjunct1] that by blast
  show "p = q" if "holding b p = Some i" "holding b q = Some j" "send_key i = send_key j" for p q i j
    using inv [THEN conjunct2, THEN conjunct2, THEN conjunct2, THEN conjunct1] that by blast
  note inv = inv [THEN conjunct2, THEN conjunct2, THEN conjunct2, THEN conjunct2]
  show "backed (bl_mail b) (- {SendPending}) i" if "i \<in> fst ` set (bl_outbox b)" for i
    using inv [THEN conjunct1] that by blast
  show "k \<notin> set (mailed b)" if "unsent b p = Some k" for p k
    using inv [THEN conjunct2, THEN conjunct1] that by blast
  show "distinct (mailed b)" using inv by blast
qed

lemma blast_invI:
  assumes "log_wf (bl_mail b)" "\<And>p i. i \<in> set (fst (snd (bl_runs b p))) \<Longrightarrow> backed (bl_mail b) UNIV i"
    "\<And>p i. holding b p = Some i \<Longrightarrow> backed (bl_mail b) {SendSending} i"
    "\<And>p q i j. holding b p = Some i \<Longrightarrow> holding b q = Some j \<Longrightarrow> send_key i = send_key j \<Longrightarrow> p = q"
    "\<And>i. i \<in> fst ` set (bl_outbox b) \<Longrightarrow> backed (bl_mail b) (- {SendPending}) i"
    "\<And>p k. unsent b p = Some k \<Longrightarrow> k \<notin> set (mailed b)" "distinct (mailed b)"
  shows "blast_inv b"
  unfolding blast_inv_def by (intro conjI allI impI ballI) (fact assms)+

text \<open>A run drops what it holds or goes on with it; the tables do not change.\<close>

lemma inv_phase:
  assumes "blast_inv b" "bl_runs b p = (ph0, todo0, ks0)" "set todo \<subseteq> set todo0"
    and "held ph = None \<or> held ph = held ph0" "\<And>i. ph \<noteq> Claimed i" "\<And>i g. ph = Ready i g \<Longrightarrow> ph0 = Claimed i"
  shows "blast_inv (b\<lparr>bl_runs := (bl_runs b)(p := (ph, todo, ks))\<rparr>)" (is "blast_inv ?b")
proof -
  have h: "holding ?b q = Some i \<Longrightarrow> holding b q = Some i" for q i
    using assms(2,4) by (auto simp: holding_def split: if_splits)
  have u: "unsent ?b q = Some k \<Longrightarrow> unsent b q = Some k" for q k
    using assms(2,5,6) by (auto simp: unsent_def split: if_splits phase.splits)
  have t: "i \<in> set (fst (snd (bl_runs ?b q))) \<Longrightarrow> i \<in> set (fst (snd (bl_runs b q)))" for q i
    using assms(2,3) by (auto split: if_splits)
  note inv = blast_invD [OF assms(1)]
  show ?thesis
  proof (rule blast_invI)
    show "backed (bl_mail ?b) UNIV i" if "i \<in> set (fst (snd (bl_runs ?b q)))" for q i
      using inv(2) [OF t [OF that]] by simp
    show "backed (bl_mail ?b) {SendSending} i" if "holding ?b q = Some i" for q i
      using inv(3) [OF h [OF that]] by simp
    show "q = q'" if "holding ?b q = Some i" "holding ?b q' = Some j" "send_key i = send_key j" for q q' i j
      using inv(4) [OF h [OF that(1)] h [OF that(2)] that(3)] .
    show "k \<notin> set (mailed ?b)" if "unsent ?b q = Some k" for q k
      using inv(6) [OF u [OF that]] by (simp add: mailed_def)
  qed (use inv(1,5,7) in \<open>simp_all add: mailed_def\<close>)
qed

lemma inv_tables:
  assumes "blast_inv b" "log_wf m1" "\<And>sts i. backed (bl_mail b) sts i \<Longrightarrow> backed m1 sts i"
  shows "blast_inv (b\<lparr>bl_mail := m1\<rparr>)"
  using assms by (simp add: blast_inv_def view_defs)

text \<open>A run records the outcome of the row it holds and lets go of it.\<close>

lemma inv_release:
  assumes "blast_inv b" "bl_runs b p = (ph, todo, ks)" "held ph = Some i"
    and f: "\<And>r. cs_pk (f r) = cs_pk r \<and> cs_campaign (f r) = cs_campaign r \<and> cs_guest (f r) = cs_guest r \<and> cs_status (f r) \<noteq> SendPending"
  shows "blast_inv (b\<lparr>bl_runs := (bl_runs b)(p := (Idle, todo, ks)), bl_mail := save_send (send_key i) f (bl_mail b)\<rparr>)"
    (is "blast_inv ?b")
proof -
  note inv = blast_invD [OF assms(1)]
  have hp: "holding b p = Some i" using assms(2,3) by (simp add: holding_def)
  have fid: "\<And>r. cs_pk (f r) = cs_pk r \<and> cs_campaign (f r) = cs_campaign r \<and> cs_guest (f r) = cs_guest r" using f by blast
  have other: "q \<noteq> p \<and> holding b q = Some j \<and> send_key j \<noteq> send_key i" if "holding ?b q = Some j" for q j
  proof -
    have "q \<noteq> p" "holding b q = Some j" using that by (auto simp: holding_def split: if_splits)
    moreover then have "send_key j \<noteq> send_key i" using inv(4) [OF \<open>holding b q = Some j\<close> hp] by blast
    ultimately show ?thesis by blast
  qed
  have u: "unsent b q = Some k" if "unsent ?b q = Some k" for q k
    using that by (auto simp: unsent_def split: if_splits)
  have c1: "log_wf (bl_mail ?b)" using save_send_wf [OF fid inv(1)] by simp
  have c2: "backed (bl_mail ?b) UNIV j" if "j \<in> set (fst (snd (bl_runs ?b q)))" for q j
  proof -
    have "j \<in> set (fst (snd (bl_runs b q)))" using that assms(2) by (auto split: if_splits)
    from backed_save [OF inv(2) [OF this] fid] show ?thesis by simp
  qed
  have c3: "backed (bl_mail ?b) {SendSending} j" if "holding ?b q = Some j" for q j
    using backed_save [OF inv(3) fid, of q j "send_key i" "{SendSending}"] other [OF that] by simp
  have c5: "backed (bl_mail ?b) (- {SendPending}) j" if "j \<in> fst ` set (bl_outbox ?b)" for j
    using backed_save [OF inv(5) fid, of j "send_key i" "- {SendPending}"] that f by simp
  show ?thesis
  proof (rule blast_invI)
    show "q = q'" if "holding ?b q = Some j" "holding ?b q' = Some j'" "send_key j = send_key j'" for q q' j j'
      using other [OF that(1)] other [OF that(2)] that(3) inv(4) by blast
    show "k \<notin> set (mailed ?b)" if "unsent ?b q = Some k" for q k
      using inv(6) [OF u [OF that]] by (simp add: mailed_def)
    show "distinct (mailed ?b)" using inv(7) by (simp add: mailed_def)
  qed (fact c1 c2 c3 c5)+
qed

lemma inv_claim:
  assumes "blast_inv b" "bl_runs b p = (Idle, i # todo, ks)" "claim_send (send_key i) (bl_mail b) = (True, m1)"
  shows "blast_inv (b\<lparr>bl_runs := (bl_runs b)(p := (Claimed i, todo, ks)), bl_mail := m1\<rparr>)" (is "blast_inv ?b")
proof -
  note inv = blast_invD [OF assms(1)]
  obtain r where r: "send_at (send_key i) (bl_mail b) = Some r" "cs_status r = SendPending"
    and m1: "m1 = snd (claim_send (send_key i) (bl_mail b))"
    using claim_true [OF assms(3) inv(1)] by blast
  have pend: "send_key j \<noteq> send_key i" if "backed (bl_mail b) sts j" "SendPending \<notin> sts" for j sts
    using that r by (auto simp: backed_def)
  have other: "holding b q = Some j \<and> send_key j \<noteq> send_key i" if "holding ?b q = Some j" "q \<noteq> p" for q j
  proof -
    have "holding b q = Some j" using that by (simp add: holding_def)
    moreover from pend [OF inv(3) [OF this]] have "send_key j \<noteq> send_key i" by simp
    ultimately show ?thesis by blast
  qed
  have mine: "j = i" if "holding ?b p = Some j" for j using that by (simp add: holding_def)
  have c2: "backed m1 UNIV j" if "j \<in> set (fst (snd (bl_runs ?b q)))" for q j
  proof -
    have "j \<in> set (fst (snd (bl_runs b q)))" using that assms(2) by (auto split: if_splits)
    from backed_claim [OF inv(2) [OF this]] show ?thesis by (simp add: m1)
  qed
  have bi: "backed (bl_mail b) UNIV i" using inv(2) [of i p] assms(2) by simp
  have "backed m1 {SendSending} i"
    using bi r by (auto simp: backed_def m1 send_at_claim)
  then have c3: "backed m1 {SendSending} j" if "holding ?b q = Some j" for q j
    using backed_claim [OF inv(3), of q j "send_key i" "{SendSending}"] other [OF that] mine that by (cases "q = p") (auto simp: m1)
  have c4: "q = q'" if "holding ?b q = Some j" "holding ?b q' = Some j'" "send_key j = send_key j'" for q q' j j'
    using other [OF that(1)] other [OF that(2)] mine that inv(4) by metis
  have c5: "backed m1 (- {SendPending}) j" if "j \<in> fst ` set (bl_outbox ?b)" for j
    using backed_claim [OF inv(5), of j "send_key i" "- {SendPending}"] that by (simp add: m1)
  have c6: "k \<notin> set (mailed b)" if "unsent ?b q = Some k" for q k
  proof (cases "q = p")
    case True
    then have "k = send_key i" using that by (simp add: unsent_def)
    moreover have "send_key j \<noteq> send_key i" if "j \<in> fst ` set (bl_outbox b)" for j
      using pend [OF inv(5) [OF that]] by simp
    ultimately show ?thesis unfolding set_mailed by (metis imageE)
  next
    case False
    then show ?thesis using inv(6) [of q k] that by (simp add: unsent_def)
  qed
  show ?thesis
  proof (rule blast_invI)
    show "log_wf (bl_mail ?b)" using claim_wf [OF inv(1)] by (simp add: m1)
    show "backed (bl_mail ?b) UNIV j" if "j \<in> set (fst (snd (bl_runs ?b q)))" for q j using c2 [OF that] by simp
    show "backed (bl_mail ?b) {SendSending} j" if "holding ?b q = Some j" for q j using c3 [OF that] by simp
    show "backed (bl_mail ?b) (- {SendPending}) j" if "j \<in> fst ` set (bl_outbox ?b)" for j using c5 [OF that] by simp
    show "k \<notin> set (mailed ?b)" if "unsent ?b q = Some k" for q k using c6 [OF that] by (simp add: mailed_def)
    show "distinct (mailed ?b)" using inv(7) by (simp add: mailed_def)
  qed (fact c4)
qed

lemma inv_mail_out:
  assumes "blast_inv b" "bl_runs b p = (Ready i g, todo, ks)"
  shows "blast_inv (b\<lparr>bl_runs := (bl_runs b)(p := (Delivered i, todo, ks)), bl_outbox := bl_outbox b @ [(i, mail)]\<rparr>)"
    (is "blast_inv ?b")
proof -
  note inv = blast_invD [OF assms(1)]
  have hp: "holding b p = Some i" "unsent b p = Some (send_key i)" using assms(2) by (simp_all add: holding_def unsent_def)
  have h: "holding ?b q = holding b q" for q using assms(2) by (simp add: holding_def)
  have m: "mailed ?b = mailed b @ [send_key i]" by (simp add: mailed_def)
  have c6: "k \<notin> set (mailed ?b)" if "unsent ?b q = Some k" for q k
  proof -
    have q: "q \<noteq> p" "unsent b q = Some k" using that by (auto simp: unsent_def split: if_splits)
    then obtain j where "holding b q = Some j" "send_key j = k"
      by (auto simp: unsent_def holding_def split: phase.splits)
    with inv(4) [OF this(1) hp(1)] q(1) have "k \<noteq> send_key i" by blast
    with inv(6) [OF q(2)] show ?thesis by (simp add: m)
  qed
  have "backed (bl_mail b) (- {SendPending}) i" using inv(3) [OF hp(1)] by (rule backed_mono) simp
  then have c5: "backed (bl_mail ?b) (- {SendPending}) j" if "j \<in> fst ` set (bl_outbox ?b)" for j
    using inv(5) that by auto
  have c2: "backed (bl_mail ?b) UNIV j" if "j \<in> set (fst (snd (bl_runs ?b q)))" for q j
    using inv(2) [of j q] inv(2) [of j p] that assms(2) by (simp split: if_splits)
  show ?thesis
  proof (rule blast_invI)
    show "backed (bl_mail ?b) {SendSending} j" if "holding ?b q = Some j" for q j using inv(3) that by (simp add: h)
    show "q = q'" if "holding ?b q = Some j" "holding ?b q' = Some j'" "send_key j = send_key j'" for q q' j j'
      using inv(4) that by (simp only: h)
    show "distinct (mailed ?b)" using inv(6) [OF hp(2)] inv(7) by (simp add: m)
    show "log_wf (bl_mail ?b)" using inv(1) by simp
  qed (fact c2 c5 c6)+
qed

lemma blast_step_inv: "blast_step kit n b b' \<Longrightarrow> blast_inv b \<Longrightarrow> blast_inv b'"
proof (induction rule: blast_step.induct)
  case (begin_run b p items)
  then show ?case by (intro inv_begin)
next
  case (claim b p i todo ks m1)
  then show ?case by (intro inv_claim) (simp_all add: send_key_def)
next
  case (claim_lost b p i todo ks m1)
  then have "m1 = bl_mail b" using claim_false blast_invD(1) by blast
  with inv_phase [OF claim_lost.prems claim_lost.hyps(1), of todo Idle ks] show ?case by (simp add: subset_insertI)
next
  case (skip b p i todo ks m1)
  then show ?case using inv_release [OF skip.prems skip.hyps(1), of i "\<lambda>r. r\<lparr>cs_status := SendSkipped\<rparr>"]
    by (simp add: send_key_def)
next
  case (consent b p i todo ks g)
  show ?case by (rule inv_phase [OF consent.prems consent.hyps(1)]) simp_all
next
  case (mail_out b p i g todo ks now)
  then show ?case by (intro inv_mail_out)
next
  case (mail_fails b p i g todo ks exc)
  show ?case by (rule inv_phase [OF mail_fails.prems mail_fails.hyps(1)]) simp_all
next
  case (record_sent b p i todo ks m1 now)
  then show ?case
    using inv_release [OF record_sent.prems record_sent.hyps(1), of i "\<lambda>r. r\<lparr>cs_status := SendSent, cs_sent_at := Some now\<rparr>"]
    by (simp add: send_key_def)
next
  case (record_failed b p i exc todo ks m1)
  then show ?case
    using inv_release [OF record_failed.prems record_failed.hyps(1), of i "\<lambda>r. r\<lparr>cs_status := SendFailed, cs_error := take 2000 exc\<rparr>"]
    by (simp add: send_key_def)
next
  case (finish b p k ks now)
  have "blast_inv (b\<lparr>bl_runs := (bl_runs b)(p := (Idle, [], ks))\<rparr>)" (is "blast_inv ?b")
    by (rule inv_phase [OF finish.prems finish.hyps]) simp_all
  from inv_tables [OF this, of "finish_campaign now k (bl_mail b)"] show ?case
    using blast_invD(1) [OF finish.prems] by (simp add: finish_wf)
next
  case (crash b p)
  obtain ph todo ks where "bl_runs b p = (ph, todo, ks)" by (metis prod_cases3)
  from inv_phase [OF crash.prems this, of "[]" Idle "[]"] show ?case by simp
next
  case (trigger k now b n m1)
  show ?case
    using trigger_effect [OF trigger.hyps] blast_invD(1) [OF trigger.prems]
    by (intro inv_tables [OF trigger.prems]) (auto intro: backed_trigger [OF trigger.hyps])
next
  case (world b s)
  then show ?case by (simp add: blast_inv_def view_defs)
qed

text \<open>Nothing is running and nothing has been mailed.\<close>

definition quiet :: "blast \<Rightarrow> bool" where
  "quiet b \<longleftrightarrow> log_wf (bl_mail b) \<and> bl_runs b = (\<lambda>p. (Idle, [], [])) \<and> bl_outbox b = []"

interpretation blast: inductive_invariant quiet "blast_step kit n" blast_inv
proof unfold_locales
  show "blast_inv b" if "quiet b" for b using that by (simp add: quiet_def blast_inv_def view_defs)
qed (rule blast_step_inv)

definition addressee :: "batch_item \<times> campaign_mail \<Rightarrow> nat \<times> nat" where
  "addressee x = (cs_campaign (bi_send (fst x)), cs_guest (bi_send (fst x)))"

text \<open>
  Property C12. However runs of the batch sender overlap, crash and restart, and whatever guests and staff do
  meanwhile, no guest is mailed the same campaign twice.
\<close>

theorem campaign_mails_once:
  assumes "reachable quiet (blast_step kit n) b"
  shows "distinct (map addressee (bl_outbox b))"
proof -
  note inv = blast_invD [OF blast.reachable_inv [OF assms]]
  have "x = y" if x: "x \<in> set (bl_outbox b)" and y: "y \<in> set (bl_outbox b)" and xy: "addressee x = addressee y" for x y
  proof -
    obtain r where r: "r \<in> set (ml_sends (bl_mail b))" "cs_pk r = send_key (fst x)" "(cs_campaign r, cs_guest r) = addressee x"
      using backed_row [OF inv(5) [OF imageI [OF x]]] by (auto simp: addressee_def)
    obtain q where q: "q \<in> set (ml_sends (bl_mail b))" "cs_pk q = send_key (fst y)" "(cs_campaign q, cs_guest q) = addressee y"
      using backed_row [OF inv(5) [OF imageI [OF y]]] by (auto simp: addressee_def)
    have "r = q"
      using inv(1) r q xy unfolding log_wf_def distinct_map inj_on_def by metis
    with r q have "(send_key \<circ> fst) x = (send_key \<circ> fst) y" by simp
    then show ?thesis using inv(7) x y unfolding mailed_def distinct_map inj_on_def by blast
  qed
  moreover have "distinct (bl_outbox b)" using inv(7) by (simp add: mailed_def distinct_map)
  ultimately show ?thesis by (auto simp: distinct_map inj_on_def)
qed

section \<open>An undisturbed run\<close>

text \<open>The mails of a run: the items whose outcome was a delivery.\<close>

definition mails_of :: "batch_item list \<Rightarrow> item_outcome list \<Rightarrow> (batch_item \<times> campaign_mail) list" where
  "mails_of items outs = concat (map2 (\<lambda>i out. case out of ItemSent mail \<Rightarrow> [(i, mail)] | _ \<Rightarrow> []) items outs)"

lemma run4: "R a b \<Longrightarrow> R b c \<Longrightarrow> R c d \<Longrightarrow> R d e \<Longrightarrow> R\<^sup>*\<^sup>* a e"
  by (meson converse_rtranclp_into_rtranclp r_into_rtranclp)

lemma item_run:
  assumes "bl_runs b p = (Idle, i # todo, ks)" "process_item kit deliver now (bl_db b) i (bl_mail b) = (out, m1)"
  shows "(blast_step kit n)\<^sup>*\<^sup>* b (b\<lparr>bl_runs := (bl_runs b)(p := (Idle, todo, ks)), bl_mail := m1,
      bl_outbox := bl_outbox b @ (case out of ItemSent mail \<Rightarrow> [(i, mail)] | _ \<Rightarrow> [])\<rparr>)"
proof -
  let ?k = "cs_pk (bi_send i)"
  obtain claimed mc where c: "claim_send ?k (bl_mail b) = (claimed, mc)" by (metis surj_pair)
  show ?thesis
  proof (cases claimed)
    case False
    with c assms(2) have "out = NotClaimed" "m1 = mc" by (auto simp: process_item_def Let_def)
    with blast_step.claim_lost [OF assms(1)] c False show ?thesis by auto
  next
    case True
    let ?b1 = "b\<lparr>bl_runs := (bl_runs b)(p := (Claimed i, todo, ks)), bl_mail := mc\<rparr>"
    have s1: "blast_step kit n b ?b1" using blast_step.claim [OF assms(1)] c True by simp
    have r1: "bl_runs ?b1 p = (Claimed i, todo, ks)" by simp
    show ?thesis
    proof (cases "still_opted_in (cs_guest (bi_send i)) (bl_db b)")
      case None
      with c True assms(2) have "out = ItemSkipped" "m1 = save_send ?k (\<lambda>r. r\<lparr>cs_status := SendSkipped\<rparr>) mc"
        by (auto simp: process_item_def Let_def)
      with s1 blast_step.skip [OF r1, of m1 kit n] None show ?thesis
        by (auto intro: converse_rtranclp_into_rtranclp)
    next
      case (Some g)
      let ?b2 = "?b1\<lparr>bl_runs := (bl_runs ?b1)(p := (Ready i g, todo, ks))\<rparr>"
      have s2: "blast_step kit n ?b1 ?b2" using blast_step.consent [OF r1] Some by simp
      have r2: "bl_runs ?b2 p = (Ready i g, todo, ks)" by simp
      show ?thesis
      proof (cases "deliver (item_message kit i g now)")
        case None
        let ?b3 = "?b2\<lparr>bl_runs := (bl_runs ?b2)(p := (Delivered i, todo, ks)), bl_outbox := bl_outbox ?b2 @ [(i, item_message kit i g now)]\<rparr>"
        have s3: "blast_step kit n ?b2 ?b3" using blast_step.mail_out [OF r2] .
        have r3: "bl_runs ?b3 p = (Delivered i, todo, ks)" by simp
        have e: "out = ItemSent (item_message kit i g now)" "m1 = save_send ?k (\<lambda>r. r\<lparr>cs_status := SendSent, cs_sent_at := Some now\<rparr>) mc"
          using c True Some None assms(2) by (auto simp: process_item_def Let_def)
        have "blast_step kit n ?b3 (?b3\<lparr>bl_runs := (bl_runs ?b3)(p := (Idle, todo, ks)), bl_mail := m1\<rparr>)"
          by (rule blast_step.record_sent [OF r3, of m1 now]) (simp add: e)
        from run4 [of "blast_step kit n", OF s1 s2 s3 this] show ?thesis by (cases b) (simp add: e(1))
      next
        case exc: (Some exc)
        let ?b3 = "?b2\<lparr>bl_runs := (bl_runs ?b2)(p := (Refused i exc, todo, ks))\<rparr>"
        have s3: "blast_step kit n ?b2 ?b3" using blast_step.mail_fails [OF r2] .
        have r3: "bl_runs ?b3 p = (Refused i exc, todo, ks)" by simp
        have e: "out = ItemFailed" "m1 = save_send ?k (\<lambda>r. r\<lparr>cs_status := SendFailed, cs_error := take 2000 exc\<rparr>) mc"
          using c True Some exc assms(2) by (auto simp: process_item_def Let_def)
        have "blast_step kit n ?b3 (?b3\<lparr>bl_runs := (bl_runs ?b3)(p := (Idle, todo, ks)), bl_mail := m1\<rparr>)"
          by (rule blast_step.record_failed [OF r3, of m1]) (simp add: e)
        from run4 [of "blast_step kit n", OF s1 s2 s3 this] show ?thesis by (cases b) (simp add: e(1))
      qed
    qed
  qed
qed

lemma batch_run:
  assumes "bl_runs b p = (Idle, items, ks)" "process_batch kit deliver now (bl_db b) items (bl_mail b) = (outs, m1)"
  shows "(blast_step kit n)\<^sup>*\<^sup>* b (b\<lparr>bl_runs := (bl_runs b)(p := (Idle, [], ks)), bl_mail := m1,
      bl_outbox := bl_outbox b @ mails_of items outs\<rparr>)"
  using assms
proof (induction items arbitrary: b outs)
  case Nil
  have "(bl_runs b)(p := (Idle, [], ks)) = bl_runs b" using Nil.prems(1) by (rule fun_upd_idem)
  then have "b\<lparr>bl_runs := (bl_runs b)(p := (Idle, [], ks)), bl_mail := m1, bl_outbox := bl_outbox b @ mails_of [] outs\<rparr> = b"
    using Nil.prems(2) by (simp add: mails_of_def)
  then show ?case by (simp only: rtranclp.rtrancl_refl)
next
  case (Cons i items)
  obtain out m0 where i: "process_item kit deliver now (bl_db b) i (bl_mail b) = (out, m0)" by (metis surj_pair)
  obtain outs' where o: "process_batch kit deliver now (bl_db b) items m0 = (outs', m1)" "outs = out # outs'"
    using Cons.prems(2) i by (auto split: prod.splits)
  let ?b1 = "b\<lparr>bl_runs := (bl_runs b)(p := (Idle, items, ks)), bl_mail := m0,
      bl_outbox := bl_outbox b @ (case out of ItemSent mail \<Rightarrow> [(i, mail)] | _ \<Rightarrow> [])\<rparr>"
  have r1: "(blast_step kit n)\<^sup>*\<^sup>* b ?b1" using item_run [OF Cons.prems(1) i] .
  have r2: "(blast_step kit n)\<^sup>*\<^sup>* ?b1 (?b1\<lparr>bl_runs := (bl_runs ?b1)(p := (Idle, [], ks)), bl_mail := m1,
      bl_outbox := bl_outbox ?b1 @ mails_of items outs'\<rparr>)"
    using Cons.IH [of ?b1 outs'] o(1) by (simp del: fun_upd_apply add: fun_upd_same)
  from rtranclp_trans [OF r1 r2] show ?case by (simp del: fun_upd_apply add: o(2) mails_of_def)
qed

lemma finish_run:
  "bl_runs b p = (Idle, [], ks) \<Longrightarrow>
   (blast_step kit n)\<^sup>*\<^sup>* b (b\<lparr>bl_runs := (bl_runs b)(p := (Idle, [], [])), bl_mail := fold (finish_campaign now) ks (bl_mail b)\<rparr>)"
proof (induction ks arbitrary: b)
  case Nil
  have "(bl_runs b)(p := (Idle, [], [])) = bl_runs b" using Nil.prems by (rule fun_upd_idem)
  then have "b\<lparr>bl_runs := (bl_runs b)(p := (Idle, [], [])), bl_mail := fold (finish_campaign now) [] (bl_mail b)\<rparr> = b"
    by simp
  then show ?case by (simp only: rtranclp.rtrancl_refl)
next
  case (Cons k ks)
  let ?b1 = "b\<lparr>bl_runs := (bl_runs b)(p := (Idle, [], ks)), bl_mail := finish_campaign now k (bl_mail b)\<rparr>"
  have r1: "blast_step kit n b ?b1" using blast_step.finish [OF Cons.prems] .
  have r2: "(blast_step kit n)\<^sup>*\<^sup>* ?b1 (?b1\<lparr>bl_runs := (bl_runs ?b1)(p := (Idle, [], [])), bl_mail := fold (finish_campaign now) ks (bl_mail ?b1)\<rparr>)"
    by (rule Cons.IH) simp
  from converse_rtranclp_into_rtranclp [OF r1 r2] show ?case by (simp del: fun_upd_apply)
qed

text \<open>
  Property C14. The command as it is written, run without disturbance, is one run of the small-step system: it
  ends with the same delivery log, the same campaigns and the same mails sent.
\<close>

theorem tick_is_a_run:
  assumes "send_campaign_emails kit True n deliver now (bl_db b) (bl_mail b) = (Drained outs, m1)"
    and "bl_runs b p = (Idle, [], [])"
  shows "(blast_step kit n)\<^sup>*\<^sup>* b
     (b\<lparr>bl_mail := m1, bl_outbox := bl_outbox b @ mails_of (pending_batch n (bl_db b) (bl_mail b)) outs\<rparr>)"
proof -
  let ?items = "pending_batch n (bl_db b) (bl_mail b)"
  obtain m0 where m: "process_batch kit deliver now (bl_db b) ?items (bl_mail b) = (outs, m0)"
    "m1 = fold (finish_campaign now) (touched ?items) m0"
    using assms(1) by (auto simp: send_campaign_emails_def Let_def split: if_splits prod.splits)
  let ?b1 = "b\<lparr>bl_runs := (bl_runs b)(p := (Idle, ?items, touched ?items))\<rparr>"
  let ?b2 = "?b1\<lparr>bl_runs := (bl_runs ?b1)(p := (Idle, [], touched ?items)), bl_mail := m0,
      bl_outbox := bl_outbox ?b1 @ mails_of ?items outs\<rparr>"
  have r1: "blast_step kit n b ?b1" using blast_step.begin_run [OF assms(2) refl] .
  have r2: "(blast_step kit n)\<^sup>*\<^sup>* ?b1 ?b2" using batch_run [of ?b1 p ?items "touched ?items" kit deliver now outs m0 n] m(1) by (simp del: fun_upd_apply add: fun_upd_same)
  have r3: "(blast_step kit n)\<^sup>*\<^sup>* ?b2 (?b2\<lparr>bl_runs := (bl_runs ?b2)(p := (Idle, [], [])), bl_mail := fold (finish_campaign now) (touched ?items) (bl_mail ?b2)\<rparr>)"
    by (rule finish_run) simp
  have run: "(blast_step kit n)\<^sup>*\<^sup>* b (?b2\<lparr>bl_runs := (bl_runs ?b2)(p := (Idle, [], [])), bl_mail := fold (finish_campaign now) (touched ?items) (bl_mail ?b2)\<rparr>)"
    using converse_rtranclp_into_rtranclp [OF r1 rtranclp_trans [OF r2 r3]] .
  have "(bl_runs b)(p := (Idle, [], [])) = bl_runs b" using assms(2) by (rule fun_upd_idem)
  with run m(2) show ?thesis by (cases b) (simp del: fun_upd_apply)
qed

end
