(* ===== verification/CampaignProgress.thy ===== *)
theory CampaignProgress
  imports CampaignFacts
begin

text \<open>
  What campaigns achieve: the trigger queues exactly the previewed segment, undisturbed runs of the cron job
  finish every campaign, and whoever used the unsubscribe link gets no further mail.
\<close>

section \<open>The trigger queues the segment\<close>

lemma segment_filter: "segment_guests c s = Inr gs \<Longrightarrow> \<exists>P. gs = filter P (mailable (ec_organization c) s)"
  by (auto simp: segment_guests_def Let_def split: segment_kind.splits option.splits) (rule exI [of _ "\<lambda>_. True"], simp)

lemma segment_opted_in: "segment_guests c s = Inr gs \<Longrightarrow> list_all guest_marketing_opt_in gs"
  by (auto simp: mailable_def list_all_iff dest!: segment_filter)

lemma segment_distinct: "segment_guests c s = Inr gs \<Longrightarrow> distinct (map guest_pk (db_guests s)) \<Longrightarrow> distinct (map guest_pk gs)"
  by (auto simp: mailable_def distinct_map_filter dest!: segment_filter)

lemma queue_all_sends:
  assumes "distinct (map guest_pk gs)" "\<forall>r\<in>set (ml_sends m). cs_campaign r = ec_pk c \<longrightarrow> cs_guest r \<notin> guest_pk ` set gs"
  shows "map (\<lambda>r. (cs_guest r, cs_email r, cs_status r)) (sends_of (ec_pk c) (fold (queue_send c) gs m)) =
     map (\<lambda>r. (cs_guest r, cs_email r, cs_status r)) (sends_of (ec_pk c) m) @ map (\<lambda>g. (guest_pk g, guest_email g, SendPending)) gs"
  using assms
proof (induction gs arbitrary: m)
  case (Cons g gs)
  let ?m = "queue_send c g m"
  have new: "ml_sends ?m = ml_sends m @ [\<lparr>cs_pk = ml_next m, cs_organization = ec_organization c, cs_campaign = ec_pk c,
      cs_guest = guest_pk g, cs_email = guest_email g, cs_status = SendPending, cs_error = '''', cs_sent_at = None\<rparr>]"
    using Cons.prems(2) by (auto simp: queue_send_def)
  have "\<forall>r\<in>set (ml_sends ?m). cs_campaign r = ec_pk c \<longrightarrow> cs_guest r \<notin> guest_pk ` set gs"
    using Cons.prems by (auto simp: new)
  from Cons.IH [OF _ this] Cons.prems(1) show ?case by (simp add: sends_of_def new)
qed simp

text \<open>
  The composer's preview is the fan-out: triggering a draft with no sends yet reports the
  previewed number and queues exactly the guests of the segment, each with the email it has now, all of them
  opted in; a second trigger is refused.
\<close>

theorem trigger_queues_the_preview:
  assumes "get_row ec_pk k (ml_campaigns m) = Some c" "start_campaign k now s m = Inr (n, m')"
    and "sends_of k m = []" "distinct (map guest_pk (db_guests s))"
  shows "segment_recipient_count c s = Inr n \<and>
     (\<exists>gs. segment_guests c s = Inr gs \<and> list_all guest_marketing_opt_in gs \<and>
        map (\<lambda>r. (cs_guest r, cs_email r, cs_status r)) (sends_of k m') = map (\<lambda>g. (guest_pk g, guest_email g, SendPending)) gs) \<and>
     (\<exists>st. start_campaign k now s m' = Inl (CampaignStateError st))"
proof -
  have k: "ec_pk c = k" using get_row_Some [OF assms(1)] by simp
  have draft: "ec_status c = CampaignDraft" using assms(1,2) by (simp add: start_campaign_def split: if_splits)
  obtain gs where gs: "segment_guests c s = Inr gs"
    using assms(1,2) draft by (cases "segment_guests c s") (simp_all add: start_campaign_def)
  let ?m = "fold (queue_send c) gs m"
  obtain f st where m': "m' = save_campaign k f ?m" "\<And>c. ec_status (f c) = st \<and> ec_pk (f c) = ec_pk c" "st \<noteq> CampaignDraft"
    and n: "n = length gs"
    using assms(1,2) draft gs by (cases "gs = []") (auto simp: start_campaign_def Let_def)
  have none: "\<forall>r\<in>set (ml_sends m). cs_campaign r = ec_pk c \<longrightarrow> cs_guest r \<notin> guest_pk ` set gs"
    using assms(3) k by (auto simp: sends_of_def filter_empty_conv)
  have sends: "sends_of k m' = sends_of k (fold (queue_send c) gs m)"
    by (simp add: m'(1) sends_of_def save_campaign_def)
  have camps: "ml_campaigns (fold (queue_send c) gs m) = ml_campaigns m" for gs
    by (induction gs arbitrary: m) (simp_all add: queue_send_def)
  have "map (\<lambda>r. (cs_guest r, cs_email r, cs_status r)) (sends_of k m') = map (\<lambda>g. (guest_pk g, guest_email g, SendPending)) gs"
    using queue_all_sends [OF segment_distinct [OF gs assms(4)] none] assms(3) by (simp add: sends k)
  moreover have "list_all guest_marketing_opt_in gs" using gs by (rule segment_opted_in)
  moreover have "\<exists>st. start_campaign k now s m' = Inl (CampaignStateError st)"
    using assms(1) m'(2,3) by (simp add: start_campaign_def m'(1) save_campaign_def get_row_update camps k)
  ultimately show ?thesis using gs n by (simp add: segment_recipient_count_def)
qed

section \<open>Every campaign finishes\<close>

definition done_status :: "send_status \<Rightarrow> bool" where
  "done_status st \<longleftrightarrow> st \<noteq> SendPending \<and> st \<noteq> SendSending"

text \<open>The log between two runs: no row is left half sent (no run has died in between).\<close>

definition none_half_sent :: "mailing \<Rightarrow> bool" where
  "none_half_sent m \<longleftrightarrow> (\<forall>r\<in>set (ml_sends m). cs_status r \<noteq> SendSending)"

text \<open>Foreign keys of the rows.\<close>

definition log_refs :: "db \<Rightarrow> mailing \<Rightarrow> bool" where
  "log_refs s m \<longleftrightarrow> (\<forall>r\<in>set (ml_sends m). get_row ec_pk (cs_campaign r) (ml_campaigns m) \<noteq> None \<and>
     get_row guest_pk (cs_guest r) (db_guests s) \<noteq> None \<and> org_at (cs_organization r) s \<noteq> None)"

definition pending_count :: "mailing \<Rightarrow> nat" where
  "pending_count m = length (filter (\<lambda>r. cs_status r = SendPending) (ml_sends m))"

text \<open>Processing one item of the batch rewrites its row, if it is pending, to a final status and nothing else.\<close>

definition finished_row :: "campaign_send \<Rightarrow> campaign_send \<Rightarrow> bool" where
  "finished_row r r' \<longleftrightarrow> cs_pk r' = cs_pk r \<and> cs_campaign r' = cs_campaign r \<and> cs_guest r' = cs_guest r \<and>
     cs_organization r' = cs_organization r \<and> (r' = r \<or> done_status (cs_status r'))"

lemma update_twice:
  assumes "\<And>r. cs_pk (g r) = cs_pk r"
  shows "update_rows (\<lambda>r. cs_pk r = k) f (update_rows (\<lambda>r. cs_pk r = k \<and> Q r) g rs) =
     map (\<lambda>r. if cs_pk r = k then f (if Q r then g r else r) else r) rs"
  using assms by (auto simp: update_rows_def)

lemma process_item_rows:
  assumes "process_item kit deliver now s i m = (out, m')" "log_wf m"
  shows "ml_campaigns m' = ml_campaigns m \<and> ml_next m' = ml_next m \<and> list_all2 finished_row (ml_sends m) (ml_sends m') \<and>
     (\<forall>r. send_at (send_key i) m' = Some r \<longrightarrow> cs_status r \<noteq> SendPending) \<and>
     (\<forall>k. k \<noteq> send_key i \<longrightarrow> send_at k m' = send_at k m)"
proof (cases "fst (claim_send (send_key i) m)")
  case False
  then have "claim_send (send_key i) m = (False, snd (claim_send (send_key i) m))" by (metis prod.collapse)
  then have "snd (claim_send (send_key i) m) = m" using claim_false [OF _ assms(2)] by simp
  moreover have "m' = snd (claim_send (send_key i) m)"
    using assms(1) False by (simp add: process_item_def Let_def send_key_def case_prod_unfold)
  ultimately have m': "m' = m" by simp
  with False show ?thesis using claimed_iff [OF assms(2)]
    by (auto simp: finished_row_def intro: list_all2_refl)
next
  case True
  obtain f where m': "m' = save_send (send_key i) f (snd (claim_send (send_key i) m))"
    and f: "\<And>r. finished_row r (f r) \<and> done_status (cs_status (f r))"
    using assms(1) True
    by (auto simp: process_item_def Let_def send_key_def finished_row_def done_status_def split: option.splits prod.splits)
  obtain r0 where r0: "send_at (send_key i) m = Some r0" "cs_status r0 = SendPending"
    using True claimed_iff [OF assms(2)] by blast
  have pend: "r = r0" if "r \<in> set (ml_sends m)" "cs_pk r = send_key i" for r
    using that r0 send_rows.get_row_keyed assms(2) by (fastforce simp: send_at_def log_wf_def)
  have "ml_sends m' = map (\<lambda>r. if cs_pk r = send_key i
      then f (if cs_status r = SendPending then r\<lparr>cs_status := SendSending\<rparr> else r) else r) (ml_sends m)"
    by (simp add: m' save_send_def claim_send_def update_twice)
  moreover have "finished_row r (f (r\<lparr>cs_status := SendSending\<rparr>))" for r
    using f [of "r\<lparr>cs_status := SendSending\<rparr>"] by (simp add: finished_row_def)
  moreover have "finished_row r (f r)" "finished_row r r" for r using f by (simp_all add: finished_row_def)
  ultimately have "list_all2 finished_row (ml_sends m) (ml_sends m')"
    by (simp only: list_all2_map2 list_all2_same) (simp split: if_split)
  moreover have "\<forall>r. send_at (send_key i) m' = Some r \<longrightarrow> cs_status r \<noteq> SendPending"
  proof (intro allI impI)
    fix r assume r: "send_at (send_key i) m' = Some r"
    have pk: "cs_pk (f q) = cs_pk q" for q using f [of q] by (simp add: finished_row_def)
    have "\<exists>q. r = f q"
      using r unfolding m' by (simp only: send_at_save [of f, OF pk] simp_thms if_True map_option_eq_Some) blast
    then obtain q where "r = f q" by blast
    then show "cs_status r \<noteq> SendPending" using conjunct2 [OF f [of q]] by (simp add: done_status_def)
  qed
  moreover have "\<forall>k. k \<noteq> send_key i \<longrightarrow> send_at k m' = send_at k m"
  proof (intro allI impI)
    fix k assume k: "k \<noteq> send_key i"
    have pk: "cs_pk (f q) = cs_pk q" for q using f [of q] by (simp add: finished_row_def)
    show "send_at k m' = send_at k m"
      unfolding m' by (simp add: send_at_save [of f, OF pk] send_at_claim k option.map_ident)
  qed
  moreover have "ml_campaigns m' = ml_campaigns m" "ml_next m' = ml_next m"
    by (simp_all add: m' save_send_def claim_send_def)
  ultimately show ?thesis by (intro conjI)
qed

lemma finished_trans: "finished_row r q \<Longrightarrow> finished_row q t \<Longrightarrow> finished_row r t"
  by (auto simp: finished_row_def)

lemma rows_at:
  assumes "list_all2 finished_row (ml_sends m) (ml_sends m')" "send_at k m' = Some r'"
  shows "\<exists>r. send_at k m = Some r \<and> finished_row r r'"
proof -
  have "list_all2 finished_row rs qs \<Longrightarrow> get_row cs_pk k qs = Some r' \<Longrightarrow> \<exists>r. get_row cs_pk k rs = Some r \<and> finished_row r r'" for rs qs
    by (induction rs qs rule: list_all2_induct) (auto simp: get_row_def finished_row_def split: if_splits)
  with assms show ?thesis by (simp add: send_at_def)
qed

lemma rows_wf:
  assumes "list_all2 finished_row (ml_sends m) (ml_sends m')" "ml_next m' = ml_next m" "log_wf m"
  shows "log_wf m'"
proof -
  have "list_all2 finished_row rs qs \<Longrightarrow> map cs_pk qs = map cs_pk rs \<and>
      map (\<lambda>r. (cs_campaign r, cs_guest r)) qs = map (\<lambda>r. (cs_campaign r, cs_guest r)) rs" for rs qs
    by (induction rs qs rule: list_all2_induct) (auto simp: finished_row_def)
  note same = this [OF assms(1)]
  have "cs_pk ` set (ml_sends m') = cs_pk ` set (ml_sends m)" using conjunct1 [OF same] by (metis list.set_map)
  then have "\<forall>r\<in>set (ml_sends m'). cs_pk r < ml_next m"
  proof (intro ballI)
    fix r assume "r \<in> set (ml_sends m')"
    with \<open>cs_pk ` set (ml_sends m') = cs_pk ` set (ml_sends m)\<close> obtain q where "q \<in> set (ml_sends m)" "cs_pk q = cs_pk r"
      by (metis imageE imageI)
    with assms(3) show "cs_pk r < ml_next m" by (auto simp: log_wf_def well_keyed_def)
  qed
  then show ?thesis using same assms(2,3) by (simp add: log_wf_def well_keyed_def)
qed

lemma process_batch_rows:
  assumes "process_batch kit deliver now s is m = (outs, m')" "log_wf m"
  shows "ml_campaigns m' = ml_campaigns m \<and> ml_next m' = ml_next m \<and> list_all2 finished_row (ml_sends m) (ml_sends m') \<and>
     (\<forall>i\<in>set is. \<forall>r. send_at (send_key i) m' = Some r \<longrightarrow> cs_status r \<noteq> SendPending) \<and>
     (\<forall>k. k \<notin> send_key ` set is \<longrightarrow> send_at k m' = send_at k m)"
  using assms
proof (induction "is" arbitrary: m outs)
  case (Cons i "is")
  obtain out m1 where i: "process_item kit deliver now s i m = (out, m1)" by (metis surj_pair)
  obtain outs' where o: "process_batch kit deliver now s is m1 = (outs', m')"
    using Cons.prems(1) i by (auto split: prod.splits)
  note e = process_item_rows [OF i Cons.prems(2)]
  have "log_wf m1" by (rule rows_wf [of m]) (use e Cons.prems(2) in blast)+
  note IH = Cons.IH [OF o this]
  have "list_all2 finished_row (ml_sends m) (ml_sends m')"
    by (rule list_all2_trans [of finished_row finished_row finished_row]) (use finished_trans e IH in blast)+
  moreover have "cs_status r \<noteq> SendPending" if r: "send_at (send_key i) m' = Some r" for r
  proof -
    obtain q where "send_at (send_key i) m1 = Some q" "finished_row q r" using rows_at [OF _ r] IH by blast
    with e show ?thesis by (auto simp: finished_row_def done_status_def)
  qed
  ultimately show ?case using e IH by auto
qed (auto simp: finished_row_def intro: list_all2_refl)

lemma finish_all:
  "ml_sends (fold (finish_campaign now) ks m) = ml_sends m \<and> ml_next (fold (finish_campaign now) ks m) = ml_next m \<and>
   get_row ec_pk k (ml_campaigns (fold (finish_campaign now) ks m)) =
     map_option (\<lambda>c. if k \<in> set ks \<and> \<not> unfinished k m \<and> ec_status c = CampaignSending
                     then c\<lparr>ec_status := CampaignSent, ec_sent_at := Some now\<rparr> else c) (get_row ec_pk k (ml_campaigns m))"
proof (induction ks arbitrary: m)
  case (Cons j ks)
  have one: "ml_sends (finish_campaign now j m) = ml_sends m" "ml_next (finish_campaign now j m) = ml_next m"
    "get_row ec_pk k (ml_campaigns (finish_campaign now j m)) =
       map_option (\<lambda>c. if k = j \<and> \<not> unfinished k m \<and> ec_status c = CampaignSending
                       then c\<lparr>ec_status := CampaignSent, ec_sent_at := Some now\<rparr> else c) (get_row ec_pk k (ml_campaigns m))"
    by (cases "get_row ec_pk k (ml_campaigns m)"; auto simp: finish_campaign_def save_campaign_def get_row_update dest: get_row_Some)+
  have "unfinished k (finish_campaign now j m) = unfinished k m" by (simp add: unfinished_def one)
  then show ?case using Cons.IH [of "finish_campaign now j m"] one
    by (cases "get_row ec_pk k (ml_campaigns m)") auto
qed (simp add: option.map_ident)

definition progress :: "db \<Rightarrow> nat \<Rightarrow> mailing \<Rightarrow> bool" where
  "progress s k m \<longleftrightarrow> log_wf m \<and> none_half_sent m \<and> log_refs s m \<and>
     (\<exists>c. get_row ec_pk k (ml_campaigns m) = Some c \<and>
        (ec_status c = CampaignSending \<and> unfinished k m \<or> ec_status c = CampaignSent \<and> \<not> unfinished k m))"

lemma unfinished_iff: "unfinished k m \<longleftrightarrow> (\<exists>r\<in>set (ml_sends m). cs_campaign r = k \<and> \<not> done_status (cs_status r))"
  by (auto simp: unfinished_def done_status_def)

lemma send_at_in: "log_wf m \<Longrightarrow> r \<in> set (ml_sends m) \<longleftrightarrow> send_at (cs_pk r) m = Some r"
  using send_rows.get_row_keyed by (auto simp: log_wf_def send_at_def dest: get_row_Some)

lemma row_from: "list_all2 finished_row rs qs \<Longrightarrow> q \<in> set qs \<Longrightarrow> \<exists>r\<in>set rs. finished_row r q"
  by (induction rs qs rule: list_all2_induct) auto

lemma rows_half_sent:
  assumes "list_all2 finished_row (ml_sends m) (ml_sends m')" "none_half_sent m"
  shows "none_half_sent m'"
  unfolding none_half_sent_def
proof
  fix q assume "q \<in> set (ml_sends m')"
  from row_from [OF assms(1) this] assms(2) show "cs_status q \<noteq> SendSending"
    by (auto simp: none_half_sent_def finished_row_def done_status_def)
qed

lemma rows_finished:
  assumes "list_all2 finished_row (ml_sends m) (ml_sends m')" "\<not> unfinished k m"
  shows "\<not> unfinished k m'"
proof
  assume "unfinished k m'"
  then obtain q where q: "q \<in> set (ml_sends m')" "cs_campaign q = k" "\<not> done_status (cs_status q)" by (auto simp: unfinished_iff)
  from row_from [OF assms(1) q(1)] q(2,3) assms(2) show False by (auto simp: unfinished_iff finished_row_def)
qed

lemma pending_le:
  "list_all2 finished_row rs qs \<Longrightarrow>
   length (filter (\<lambda>r. cs_status r = SendPending) qs) \<le> length (filter (\<lambda>r. cs_status r = SendPending) rs)"
  by (induction rs qs rule: list_all2_induct) (auto simp: finished_row_def done_status_def)

lemma pending_less:
  assumes "list_all2 finished_row rs qs" "r \<in> set rs" "cs_status r = SendPending" "\<forall>q\<in>set qs. cs_pk q = cs_pk r \<longrightarrow> cs_status q \<noteq> SendPending"
  shows "length (filter (\<lambda>r. cs_status r = SendPending) qs) < length (filter (\<lambda>r. cs_status r = SendPending) rs)"
  using assms
proof (induction rs qs rule: list_all2_induct)
  case (Cons x xs y ys)
  show ?case
  proof (cases "r = x")
    case True
    with Cons.prems Cons.hyps(1) have "cs_status y \<noteq> SendPending" by (auto simp: finished_row_def)
    with pending_le [OF Cons.hyps(2)] True Cons.prems show ?thesis by simp
  next
    case False
    with Cons show ?thesis by (auto simp: finished_row_def done_status_def)
  qed
qed simp

lemma pending_item:
  assumes "log_wf m" "i \<in> set (pending_batch n s m)"
  shows "bi_send i \<in> set (ml_sends m) \<and> cs_status (bi_send i) = SendPending"
proof -
  from assms(2) have "i \<in> set (List.map_filter (batch_item_of s m) (order_by cs_pk (ml_sends m)))"
    by (auto simp: pending_batch_def dest: in_set_takeD)
  then show ?thesis by (auto simp: map_filter_def order_by_def batch_item_of_def split: option.splits if_splits)
qed

lemma tick_keeps_finished:
  assumes "progress s k m" "\<not> unfinished k m"
  shows "\<not> unfinished k (snd (send_campaign_emails kit True n deliver now s m))"
proof -
  obtain outs m1 where b: "process_batch kit deliver now s (pending_batch n s m) m = (outs, m1)" by (metis surj_pair)
  have "\<not> unfinished k m1"
    by (rule rows_finished [OF _ assms(2)]) (use process_batch_rows [OF b] assms(1) in \<open>simp add: progress_def\<close>)
  then have "\<not> unfinished k (fold (finish_campaign now) (touched (pending_batch n s m)) m1)"
    using finish_all [of now "touched (pending_batch n s m)" m1] by (simp add: unfinished_def)
  then show ?thesis using assms(2) by (simp add: send_campaign_emails_def Let_def b)
qed

lemma tick_progress:
  assumes "progress s k m" "n > 0" "m' = snd (send_campaign_emails kit True n deliver now s m)"
  shows "progress s k m' \<and> (unfinished k m \<longrightarrow> pending_count m' < pending_count m)"
proof -
  have wf: "log_wf m" "none_half_sent m" "log_refs s m" using assms(1) by (simp_all add: progress_def)
  obtain c where c: "get_row ec_pk k (ml_campaigns m) = Some c"
    "ec_status c = CampaignSending \<and> unfinished k m \<or> ec_status c = CampaignSent \<and> \<not> unfinished k m"
    using assms(1) by (auto simp: progress_def)
  let ?items = "pending_batch n s m"
  have queued: "\<exists>r\<in>set (ml_sends m). cs_campaign r = k \<and> cs_status r = SendPending \<and> batch_item_of s m r \<noteq> None"
    if u: "unfinished k m"
  proof -
    obtain r where r: "r \<in> set (ml_sends m)" "cs_campaign r = k" "cs_status r = SendPending"
      using u wf(2) by (auto simp: unfinished_def none_half_sent_def)
    moreover have "ec_status c = CampaignSending" using c(2) u by blast
    ultimately show ?thesis using wf(3) c(1) by (fastforce simp: batch_item_of_def log_refs_def)
  qed
  show ?thesis
  proof (cases "?items = []")
    case True
    have "\<not> unfinished k m"
    proof
      assume "unfinished k m"
      from queued [OF this] have "List.map_filter (batch_item_of s m) (order_by cs_pk (ml_sends m)) \<noteq> []"
        by (auto simp: map_filter_def order_by_def filter_empty_conv)
      with True assms(2) show False by (simp add: pending_batch_def)
    qed
    with True assms(1,3) show ?thesis by (simp add: send_campaign_emails_def)
  next
    case False
    obtain outs m1 where b: "process_batch kit deliver now s ?items m = (outs, m1)" by (metis surj_pair)
    note e = process_batch_rows [OF b wf(1)]
    have m': "m' = fold (finish_campaign now) (touched ?items) m1"
      using False b assms(3) by (simp add: send_campaign_emails_def)
    note f = finish_all [of now "touched ?items" m1, folded m']
    have wf1: "log_wf m1" by (rule rows_wf [of m]) (use e wf(1) in blast)+
    have rows: "list_all2 finished_row (ml_sends m) (ml_sends m')" using e f by simp
    have wf': "log_wf m'" "none_half_sent m'"
      using rows_wf [OF rows _ wf(1)] rows_half_sent [OF rows wf(2)] e f by simp_all
    have less: "pending_count m' < pending_count m"
    proof -
      obtain i where i: "i \<in> set ?items" using False by (cases ?items) auto
      note p = pending_item [OF wf(1) i]
      have "\<forall>q\<in>set (ml_sends m1). cs_pk q = cs_pk (bi_send i) \<longrightarrow> cs_status q \<noteq> SendPending"
        using e i wf1 by (auto simp: send_at_in send_key_def)
      then show ?thesis using pending_less [OF rows, of "bi_send i"] p f by (simp add: pending_count_def)
    qed
    have refs: "log_refs s m'"
    proof -
      have "get_row ec_pk j (ml_campaigns m') \<noteq> None \<longleftrightarrow> get_row ec_pk j (ml_campaigns m) \<noteq> None" for j
        using finish_all [of now "touched ?items" m1 j, folded m'] e by simp
      then show ?thesis using wf(3) row_from [OF rows] by (fastforce simp: log_refs_def finished_row_def)
    qed
    have touch: "k \<in> set (touched ?items)" if was: "unfinished k m" and now: "\<not> unfinished k m1"
    proof -
      obtain r where r: "r \<in> set (ml_sends m)" "cs_campaign r = k" "cs_status r = SendPending" using queued [OF was] by blast
      have "cs_pk r \<in> send_key ` set ?items"
      proof (rule ccontr)
        assume "cs_pk r \<notin> send_key ` set ?items"
        with e r(1) wf(1) wf1 have "r \<in> set (ml_sends m1)" by (simp add: send_at_in)
        with r(2,3) now show False by (auto simp: unfinished_def)
      qed
      then obtain i where i: "i \<in> set ?items" "cs_pk r = cs_pk (bi_send i)" by (auto simp: send_key_def)
      have "bi_send i = r" using pending_item [OF wf(1) i(1)] r(1) i(2) wf(1) by (simp add: send_at_in)
      with i(1) r(2) show ?thesis by (auto simp: touched_def)
    qed
    have u: "unfinished k m' = unfinished k m1" using f by (simp add: unfinished_def)
    have "\<exists>c. get_row ec_pk k (ml_campaigns m') = Some c \<and>
        (ec_status c = CampaignSending \<and> unfinished k m' \<or> ec_status c = CampaignSent \<and> \<not> unfinished k m')"
      using f [of k] c e touch u rows_finished [of m m1 k] by (cases "unfinished k m"; cases "unfinished k m1") auto
    then show ?thesis using wf' refs less by (simp add: progress_def)
  qed
qed

text \<open>The job run at the given times, one run after the other.\<close>

fun run_ticks :: "mail_kit \<Rightarrow> nat \<Rightarrow> (campaign_mail \<Rightarrow> string option) \<Rightarrow> time list \<Rightarrow> db \<Rightarrow> mailing \<Rightarrow> mailing" where
  "run_ticks kit n deliver [] s m = m"
| "run_ticks kit n deliver (now # nows) s m = run_ticks kit n deliver nows s (snd (send_campaign_emails kit True n deliver now s m))"

lemma run_ticks_progress:
  "progress s k m \<Longrightarrow> n > 0 \<Longrightarrow> pending_count m \<le> length nows \<Longrightarrow>
   progress s k (run_ticks kit n deliver nows s m) \<and> \<not> unfinished k (run_ticks kit n deliver nows s m)"
proof (induction nows arbitrary: m)
  case Nil
  then have "\<not> unfinished k m"
    by (auto simp: pending_count_def filter_empty_conv progress_def none_half_sent_def unfinished_def)
  with Nil show ?case by simp
next
  case (Cons now nows)
  let ?m = "snd (send_campaign_emails kit True n deliver now s m)"
  note t = tick_progress [OF Cons.prems(1,2), of ?m kit deliver now, OF refl]
  show ?case
  proof (cases "unfinished k m")
    case True
    with t Cons.prems(3) have "pending_count ?m \<le> length nows" by simp
    with Cons.IH [OF _ Cons.prems(2)] t show ?thesis by simp
  next
    case False
    have stays: "progress s k (run_ticks kit n deliver nows s m) \<and> \<not> unfinished k (run_ticks kit n deliver nows s m)"
      if "progress s k m" "\<not> unfinished k m" for m nows
      using that
    proof (induction nows arbitrary: m)
      case (Cons now nows)
      let ?m = "snd (send_campaign_emails kit True n deliver now s m)"
      have p: "progress s k ?m" using tick_progress [OF Cons.prems(1) \<open>n > 0\<close> refl] by blast
      moreover have "\<not> unfinished k ?m"
        using tick_keeps_finished [OF Cons.prems(1)] Cons.prems(2) by blast
      ultimately show ?case using Cons.IH by simp
    qed simp
    show ?thesis using stays [OF Cons.prems(1) False, of "now # nows"] .
  qed
qed

text \<open>
  Property C13. Run often enough without dying, the cron job finishes every campaign that is being sent: it is
  marked as sent and each of its recipients has a final outcome (sent, failed or skipped), whatever the mail
  transport answers.
\<close>

theorem campaign_finishes:
  assumes "get_row ec_pk k (ml_campaigns m) = Some c" "ec_status c = CampaignSending" "unfinished k m"
    and "log_wf m" "none_half_sent m" "log_refs s m" "n > 0" "pending_count m \<le> length nows"
  shows "\<exists>c'. get_row ec_pk k (ml_campaigns (run_ticks kit n deliver nows s m)) = Some c' \<and> ec_status c' = CampaignSent \<and>
     list_all (\<lambda>r. done_status (cs_status r)) (sends_of k (run_ticks kit n deliver nows s m))"
proof -
  have "progress s k m" using assms by (simp add: progress_def)
  from run_ticks_progress [OF this assms(7,8), of kit deliver] show ?thesis
    by (auto simp: progress_def sends_of_def list_all_iff unfinished_iff)
qed

section \<open>Unsubscribing\<close>

lemma mailed_opted_in:
  assumes "process_batch kit deliver now s is m = (outs, m')" "(i, mail) \<in> set (mails_of is outs)"
  shows "still_opted_in (cs_guest (bi_send i)) s \<noteq> None"
  using assms
proof (induction "is" arbitrary: m outs)
  case (Cons j "is")
  obtain out m1 outs' where j: "process_item kit deliver now s j m = (out, m1)" "process_batch kit deliver now s is m1 = (outs', m')"
    "outs = out # outs'" using Cons.prems(1) by (auto split: prod.splits)
  have "still_opted_in (cs_guest (bi_send j)) s \<noteq> None" if "out = ItemSent mail'" for mail'
    using j(1) that by (auto simp: process_item_def Let_def split: prod.splits if_splits option.splits)
  with Cons.IH [OF j(2)] Cons.prems(2) j(3) show ?case
    by (auto simp: mails_of_def split: item_outcome.splits)
qed (simp add: mails_of_def)

lemma opted_out:
  assumes "well_keyed guest_pk (db_next s) (db_guests s)" "g \<in> set (db_guests s)"
  shows "still_opted_in (guest_pk g) (set_marketing_opt_in (Some g) False now s) = None"
proof -
  have g: "get_row guest_pk (guest_pk g) (db_guests s) = Some g"
    using guest_rows.get_row_keyed [OF assms] .
  show ?thesis
    by (cases "guest_marketing_opt_in g")
      (simp_all add: still_opted_in_def set_marketing_opt_in_def save_guest_def get_row_update g)
qed

text \<open>
  Property C15. Once the link of a campaign email has been used (the one-click POST of a mail program or the
  page), no run of the job, not even one that had fetched its batch before, mails that guest again.
\<close>

theorem unsubscribe_link_stops_mail:
  assumes "signing_laws dumps loads" "well_keyed guest_pk (db_next s) (db_guests s)" "g \<in> set (db_guests s)"
    and "query ''token'' = Some (make_unsubscribe_token dumps g t)" "make_unsubscribe_token dumps g t \<noteq> []"
    and "post ''action'' \<noteq> Some ''resubscribe''"
    and "s' = snd (guest_unsubscribe loads (guest_organization g) is_post post query now s)"
    and "process_batch kit deliver later s' items m = (outs, m')"
  shows "list_all (\<lambda>(i, mail). cs_guest (bi_send i) \<noteq> guest_pk g) (mails_of items outs)"
proof -
  have "guest_by_key (guest_organization g) (read_unsubscribe_token loads (make_unsubscribe_token dumps g t) (guest_organization g) now) s = Some g"
    using login_token_reads(3) [OF assms(1)] guest_by_key_found [OF assms(2,3)] by simp
  then have s': "s' = set_marketing_opt_in (Some g) False now s"
    using assms(4-7) by (simp add: guest_unsubscribe_def Let_def or_blank_def)
  have "still_opted_in (guest_pk g) s' = None" unfolding s' by (rule opted_out [OF assms(2,3)])
  then have "cs_guest (bi_send (fst x)) \<noteq> guest_pk g" if "x \<in> set (mails_of items outs)" for x
    using mailed_opted_in [OF assms(8), of "fst x" "snd x"] that by (metis prod.collapse)
  then show ?thesis by (simp add: list_all_iff case_prod_unfold)
qed

section \<open>A small campaign\<close>

text \<open>A guest who opted in, a draft to everybody, and the log after its trigger.\<close>

definition bea :: guest_account where
  "bea = \<lparr>guest_pk = 90, guest_organization = 1, guest_email = ''bea@x.org'', guest_name = ''Bea'',
     guest_marketing_opt_in = True, guest_marketing_opt_in_at = Some 0, guest_tags = ''vip''\<rparr>"

definition with_bea :: db where "with_bea = demo\<lparr>db_guests := [bea]\<rparr>"

definition spring_news :: email_campaign where
  "spring_news = \<lparr>ec_pk = 5, ec_organization = 1, ec_name = ''Spring'', ec_subject = ''Spring news'', ec_body = ''Hello'',
     ec_segment_kind = SegmentAll, ec_segment_event = None, ec_segment_min_spend = None, ec_status = CampaignDraft,
     ec_created_by = None, ec_recipient_count = 0, ec_sent_at = None\<rparr>"

definition drafts :: mailing where
  "drafts = \<lparr>ml_campaigns = [spring_news], ml_sends = [], ml_next = 6\<rparr>"

definition bea_send :: campaign_send where
  "bea_send = \<lparr>cs_pk = 6, cs_organization = 1, cs_campaign = 5, cs_guest = 90, cs_email = ''bea@x.org'',
     cs_status = SendPending, cs_error = '''', cs_sent_at = None\<rparr>"

definition queued :: mailing where
  "queued = \<lparr>ml_campaigns = [spring_news\<lparr>ec_recipient_count := 1, ec_status := CampaignSending\<rparr>], ml_sends = [bea_send], ml_next = 7\<rparr>"

definition plain_kit :: mail_kit where
  "plain_kit = \<lparr>mk_render = (\<lambda>name cx. cx_body cx @ cx_unsubscribe_url cx), mk_linebreaks = id, mk_logo = (\<lambda>_. None),
     mk_dumps = demo_dumps, mk_base_domain = ''boxo.show'', mk_default_from = ''noreply@boxo.show''\<rparr>"

lemmas campaign_fixture = bea_def with_bea_def spring_news_def drafts_def bea_send_def queued_def

lemma draft_row: "get_row ec_pk 5 (ml_campaigns drafts) = Some spring_news"
  by (simp add: campaign_fixture get_row_def)

lemma bea_mailable: "mailable 1 with_bea = [bea]"
  by (simp add: mailable_def campaign_fixture)

lemma trigger_spring: "start_campaign 5 0 with_bea drafts = Inr (1, queued)"
proof -
  have "segment_guests spring_news with_bea = Inr [bea]"
    using bea_mailable by (simp add: segment_guests_def spring_news_def)
  then show ?thesis
    by (simp add: start_campaign_def draft_row) (simp add: queue_send_def save_campaign_def update_rows_def campaign_fixture)
qed

theorem trigger_queues_the_preview_witness:
  "segment_recipient_count spring_news with_bea = Inr 1 \<and> (\<exists>st. start_campaign 5 0 with_bea queued = Inl (CampaignStateError st))"
proof -
  have "sends_of 5 drafts = []" "distinct (map guest_pk (db_guests with_bea))" by (simp_all add: sends_of_def campaign_fixture)
  from trigger_queues_the_preview [OF draft_row trigger_spring this] show ?thesis by blast
qed

lemma queued_wf: "log_wf queued" "none_half_sent queued" "log_refs with_bea queued" "unfinished 5 queued" "pending_count queued = 1"
proof -
  show "log_refs with_bea queued" by (simp add: log_refs_def campaign_fixture get_row_def org_at_def demo_def roxy_def)
qed (simp_all add: log_wf_def none_half_sent_def unfinished_def pending_count_def well_keyed_def queued_def bea_send_def)

lemma queued_row: "get_row ec_pk 5 (ml_campaigns queued) = Some (spring_news\<lparr>ec_recipient_count := 1, ec_status := CampaignSending\<rparr>)"
  by (simp add: queued_def spring_news_def get_row_def)

theorem campaign_finishes_witness:
  "\<exists>c'. get_row ec_pk 5 (ml_campaigns (run_ticks plain_kit 50 (\<lambda>_. Some ''refused'') [minutes 1] with_bea queued)) = Some c' \<and>
     ec_status c' = CampaignSent \<and>
     list_all (\<lambda>r. done_status (cs_status r)) (sends_of 5 (run_ticks plain_kit 50 (\<lambda>_. Some ''refused'') [minutes 1] with_bea queued))"
  by (rule campaign_finishes [OF queued_row _ queued_wf(4) queued_wf(1-3)]) (simp_all add: queued_wf(5))

definition bea_item :: batch_item where
  "bea_item = \<lparr>bi_send = bea_send, bi_campaign = spring_news\<lparr>ec_recipient_count := 1, ec_status := CampaignSending\<rparr>,
     bi_guest = bea, bi_organization = roxy\<rparr>"

lemma queued_batch: "pending_batch 50 with_bea queued = [bea_item]"
  by (simp add: pending_batch_def order_by_def map_filter_simps batch_item_of_def bea_item_def campaign_fixture get_row_def
      org_at_def demo_def roxy_def)

definition spring_blast :: blast where
  "spring_blast = \<lparr>bl_db = with_bea, bl_mail = queued, bl_runs = (\<lambda>p. (Idle, [], [])), bl_outbox = []\<rparr>"

lemma spring_tick:
  "\<exists>m1. send_campaign_emails plain_kit True 50 (\<lambda>_. None) 0 with_bea queued =
      (Drained [ItemSent (item_message plain_kit bea_item bea 0)], m1)"
proof -
  have "fst (claim_send 6 queued)" "still_opted_in 90 with_bea = Some bea"
    by (simp_all add: claim_send_def still_opted_in_def campaign_fixture get_row_def)
  then have "\<exists>m1. process_item plain_kit (\<lambda>_. None) 0 with_bea bea_item queued = (ItemSent (item_message plain_kit bea_item bea 0), m1)"
    by (simp add: process_item_def Let_def case_prod_unfold) (simp add: bea_item_def bea_send_def)
  then show ?thesis by (auto simp: send_campaign_emails_def queued_batch)
qed

text \<open>The undisturbed run, seen as small steps, mails the guest.\<close>

theorem tick_is_a_run_witness:
  "\<exists>m1. (blast_step plain_kit 50)\<^sup>*\<^sup>* spring_blast
     (spring_blast\<lparr>bl_mail := m1, bl_outbox := [(bea_item, item_message plain_kit bea_item bea 0)]\<rparr>)"
proof -
  obtain m1 where m1: "send_campaign_emails plain_kit True 50 (\<lambda>_. None) 0 (bl_db spring_blast) (bl_mail spring_blast) =
      (Drained [ItemSent (item_message plain_kit bea_item bea 0)], m1)"
    using spring_tick by (auto simp: spring_blast_def)
  from tick_is_a_run [OF m1, of 0] show ?thesis
    by (auto simp: spring_blast_def queued_batch mails_of_def)
qed

lemma reachable_run: "reachable init step s \<Longrightarrow> step\<^sup>*\<^sup>* s t \<Longrightarrow> reachable init step t"
  by (erule rtranclp_induct [rotated]) (auto intro: reachable.move)

lemma spring_mailed:
  "\<exists>b. reachable quiet (blast_step plain_kit 50) b \<and> bl_outbox b = [(bea_item, item_message plain_kit bea_item bea 0)]"
proof -
  let ?b1 = "spring_blast\<lparr>bl_runs := (bl_runs spring_blast)(0 := (Idle, [bea_item], [5]))\<rparr>"
  have "quiet spring_blast" using queued_wf(1) by (simp add: quiet_def spring_blast_def)
  then have "reachable quiet (blast_step plain_kit 50) spring_blast" by (rule reachable.start)
  moreover have "blast_step plain_kit 50 spring_blast ?b1"
  proof -
    have "blast_step plain_kit 50 spring_blast
       (spring_blast\<lparr>bl_runs := (bl_runs spring_blast)(0 := (Idle, [bea_item], touched [bea_item]))\<rparr>)"
      by (rule blast_step.begin_run) (simp_all add: spring_blast_def queued_batch)
    moreover have "touched [bea_item] = [5]" by (simp add: touched_def bea_item_def bea_send_def)
    ultimately show ?thesis by simp
  qed
  ultimately have r: "reachable quiet (blast_step plain_kit 50) ?b1" by (rule reachable.move)
  have "fst (claim_send 6 queued)" "still_opted_in 90 with_bea = Some bea"
    by (simp_all add: claim_send_def still_opted_in_def campaign_fixture get_row_def)
  then obtain m1 where "process_item plain_kit (\<lambda>_. None) 0 with_bea bea_item queued = (ItemSent (item_message plain_kit bea_item bea 0), m1)"
    by (simp add: process_item_def Let_def case_prod_unfold) (simp add: bea_item_def bea_send_def)
  then have "process_item plain_kit (\<lambda>_. None) 0 (bl_db ?b1) bea_item (bl_mail ?b1) = (ItemSent (item_message plain_kit bea_item bea 0), m1)"
    by (simp add: spring_blast_def)
  from reachable_run [OF r item_run [OF _ this, of 0 "[]" "[5]" 50]] show ?thesis by (auto simp: spring_blast_def)
qed

theorem campaign_mails_once_witness:
  "\<exists>b. reachable quiet (blast_step plain_kit 50) b \<and> bl_outbox b = [(bea_item, item_message plain_kit bea_item bea 0)] \<and>
     distinct (map addressee (bl_outbox b))"
  using spring_mailed campaign_mails_once by blast

theorem unsubscribe_link_stops_mail_witness:
  "list_all (\<lambda>(i, mail). cs_guest (bi_send i) \<noteq> 90)
     (mails_of [bea_item] (fst (process_batch plain_kit (\<lambda>_. None) (hours 3)
        (snd (guest_unsubscribe demo_loads 1 True [''List-Unsubscribe'' \<mapsto> ''One-Click'']
          [''token'' \<mapsto> make_unsubscribe_token demo_dumps bea 0] (hours 2) with_bea)) [bea_item] queued)))"
proof -
  have g: "well_keyed guest_pk (db_next with_bea) (db_guests with_bea)" "bea \<in> set (db_guests with_bea)"
    by (simp_all add: with_bea_def bea_def demo_def well_keyed_def)
  have org: "guest_organization bea = 1" "guest_pk bea = 90" by (simp_all add: bea_def)
  have tok: "make_unsubscribe_token demo_dumps bea 0 \<noteq> []"
    by (simp add: make_unsubscribe_token_def demo_dumps_def guest_payload_def)
  show ?thesis
    using unsubscribe_link_stops_mail [where query = "[''token'' \<mapsto> make_unsubscribe_token demo_dumps bea 0]" and
        post = "[''List-Unsubscribe'' \<mapsto> ''One-Click'']" and is_post = True and now = "hours 2" and kit = plain_kit and
        later = "hours 3" and items = "[bea_item]" and deliver = "\<lambda>_. None" and m = queued,
        OF demo_signing g _ tok _ refl surjective_pairing]
    by (simp add: org)
qed

section \<open>Two surprises\<close>

text \<open>
  A run that dies between its claim and the outcome leaves the row half sent; no later run takes it up, and
  the campaign stays in the sending state for ever.
\<close>

lemma dead_run_strands_the_row:
  assumes "log_wf m" "get_row ec_pk k (ml_campaigns m) = Some c" "ec_status c = CampaignSending"
    and "send_at j m = Some r" "cs_campaign r = k" "cs_status r = SendSending"
  shows "send_at j (run_ticks kit n deliver nows s m) = Some r \<and>
     (\<exists>c'. get_row ec_pk k (ml_campaigns (run_ticks kit n deliver nows s m)) = Some c' \<and> ec_status c' = CampaignSending)"
  using assms
proof (induction nows arbitrary: m c)
  case (Cons now nows)
  obtain outs m1 where b: "process_batch kit deliver now s (pending_batch n s m) m = (outs, m1)" by (metis surj_pair)
  let ?m = "if pending_batch n s m = [] then m else fold (finish_campaign now) (touched (pending_batch n s m)) m1"
  have m: "snd (send_campaign_emails kit True n deliver now s m) = ?m"
    by (simp add: send_campaign_emails_def b)
  note e = process_batch_rows [OF b Cons.prems(1)]
  note f = finish_all [of now "touched (pending_batch n s m)" m1]
  have "j \<notin> send_key ` set (pending_batch n s m)"
  proof
    assume "j \<in> send_key ` set (pending_batch n s m)"
    then obtain i where i: "i \<in> set (pending_batch n s m)" "j = cs_pk (bi_send i)" by (auto simp: send_key_def)
    with pending_item [OF Cons.prems(1) i(1)] Cons.prems(1,4,6) show False by (simp add: send_at_in)
  qed
  with e Cons.prems(4) have j: "send_at j m1 = Some r" by simp
  then have "r \<in> set (ml_sends m1)" by (auto simp: send_at_def dest: get_row_Some)
  then have "unfinished k m1" using Cons.prems(5,6) by (auto simp: unfinished_def)
  with e f [of k] Cons.prems(2,3) have c: "\<exists>c'. get_row ec_pk k (ml_campaigns ?m) = Some c' \<and> ec_status c' = CampaignSending"
    by auto
  have "log_wf m1" by (rule rows_wf [of m]) (use e Cons.prems(1) in blast)+
  then have "log_wf ?m" using f Cons.prems(1) by (simp add: log_wf_def)
  moreover have "send_at j ?m = Some r" using j f Cons.prems(4) by (simp add: send_at_def)
  ultimately show ?case using Cons.IH [of ?m] c Cons.prems(5,6) m by auto
qed simp

text \<open>
  When the event a campaign targets is deleted, its reference becomes null, and the segment then selects the
  guests with a paid order that has no performance at all: buyers of passes and donors.
\<close>

lemma deleted_event_selects_donors:
  assumes "ec_segment_kind c = SegmentEvent" "ec_segment_event c = None" "segment_guests c s = Inr gs"
    and "g \<in> set (mailable (ec_organization c) s)" "x \<in> set (paid_orders g s)" "order_performance x = None"
  shows "g \<in> set gs"
proof -
  have "order_event x s = None" using assms(6) by (simp add: order_event_def)
  with assms show ?thesis by (auto simp: segment_guests_def Let_def)
qed

end
