(* ===== verification/Receipts.thy ===== *)
theory Receipts
  imports Inventory
begin

text \<open>
  What a buyer gets (orders/emails.py, orders/pdf.py) and the box office's actions on an order
  (dashboard/views.py): the receipt that fits what was bought, the PDF of the tickets as the list
  of its drawing calls, resending, cancelling and refunding. What the request, the QR library
  and the time zone database give is the record \<open>receipt_kit\<close>; the characters of the texts that
  are not ASCII are part of it.
\<close>

record receipt_kit =
  kt_secret :: string
  kt_uri :: "string \<Rightarrow> string"
  kt_logo :: "nat \<Rightarrow> string option"
  kt_qr_uri :: "string \<Rightarrow> string"
  kt_qr_png :: "string \<Rightarrow> string option"
  kt_zone :: "string \<Rightarrow> (time \<Rightarrow> string) option"
  kt_active_zone :: "time \<Rightarrow> string"
  kt_dash :: char
  kt_dot :: char
  kt_ellipsis :: char

section \<open>The receipt\<close>

record receipt_head =
  rh_subject :: string
  rh_to :: string
  rh_logo_url :: "string option"

datatype receipt =
    TicketReceipt receipt_head "(ticket \<times> string) list" string "order_item option"
  | PassReceipt receipt_head string cents "pass_purchase option" string
  | DonationReceipt receipt_head "donation_campaign option" cents string

definition order_org :: "order \<Rightarrow> db \<Rightarrow> organization option" where
  "order_org x s = get_row org_pk (order_organization x) (db_orgs s)"

definition receipt_head_of :: "receipt_kit \<Rightarrow> order \<Rightarrow> string \<Rightarrow> receipt_head" where
  "receipt_head_of kit x subject =
     \<lparr>rh_subject = subject, rh_to = order_buyer_email x,
      rh_logo_url = map_option (kt_uri kit) (kt_logo kit (order_organization x))\<rparr>"

definition dashed :: "receipt_kit \<Rightarrow> string \<Rightarrow> string \<Rightarrow> string" where
  "dashed kit a b = a @ '' '' @ kt_dash kit # '' '' @ b"

definition order_url :: "receipt_kit \<Rightarrow> order \<Rightarrow> string" where
  "order_url kit x = kt_uri kit (''/tickets/'' @ order_token x @ ''/'')"

definition order_performance_row :: "order \<Rightarrow> db \<Rightarrow> py_error + performance" where
  "order_performance_row x s =
     (case order_performance x of
        None \<Rightarrow> Inl AttributeError
      | Some k \<Rightarrow> (case get_row perf_pk k (db_performances s) of None \<Rightarrow> Inl DoesNotExist | Some p \<Rightarrow> Inr p))"

definition event_of_performance :: "performance \<Rightarrow> db \<Rightarrow> py_error + event" where
  "event_of_performance p s = (case get_row event_pk (perf_event p) (db_events s) of None \<Rightarrow> Inl DoesNotExist | Some e \<Rightarrow> Inr e)"

definition send_ticket_email :: "receipt_kit \<Rightarrow> organization \<Rightarrow> order \<Rightarrow> db \<Rightarrow> py_error + receipt" where
  "send_ticket_email kit org x s =
     bindE (order_performance_row x s) (\<lambda>p.
     bindE (event_of_performance p s) (\<lambda>e.
       Inr (TicketReceipt (receipt_head_of kit x (dashed kit (''Your tickets for '' @ event_title e) (org_name org)))
              (map (\<lambda>t. (t, kt_qr_uri kit (scan_code (kt_secret kit) t))) (order_by tkt_pk (tickets_of x s)))
              (order_url kit x) (first_item DONATION x s))))"

definition item_campaign :: "order_item option \<Rightarrow> db \<Rightarrow> donation_campaign option" where
  "item_campaign i s =
     (case i of None \<Rightarrow> None
      | Some i \<Rightarrow> (case item_donation_campaign i of None \<Rightarrow> None | Some k \<Rightarrow> get_row camp_pk k (db_campaigns s)))"

definition item_amount :: "order_item option \<Rightarrow> order \<Rightarrow> cents" where
  "item_amount i x = (case i of None \<Rightarrow> order_total x | Some i \<Rightarrow> item_unit_amount i)"

definition send_donation_receipt_email :: "receipt_kit \<Rightarrow> organization \<Rightarrow> order \<Rightarrow> db \<Rightarrow> receipt" where
  "send_donation_receipt_email kit org x s =
     (let i = first_item DONATION x s
      in DonationReceipt (receipt_head_of kit x (dashed kit ''Thank you for your donation'' (org_name org)))
           (item_campaign i s) (item_amount i x) (order_url kit x))"

text \<open>The product of the line, else of the purchase, else the bare word.\<close>

definition receipt_product_name :: "order \<Rightarrow> db \<Rightarrow> string" where
  "receipt_product_name x s =
     (case (case first_item PASS x s of None \<Rightarrow> None
            | Some i \<Rightarrow> (case item_pass_product i of None \<Rightarrow> None | Some k \<Rightarrow> get_row prod_pk k (db_products s))) of
        Some p \<Rightarrow> prod_name p
      | None \<Rightarrow>
          (case first_row (purchases_of x s) of
             None \<Rightarrow> ''Pass''
           | Some pp \<Rightarrow> (case get_row prod_pk (pp_product pp) (db_products s) of None \<Rightarrow> ''Pass'' | Some p \<Rightarrow> prod_name p)))"

definition send_pass_purchase_email :: "receipt_kit \<Rightarrow> organization \<Rightarrow> order \<Rightarrow> db \<Rightarrow> receipt" where
  "send_pass_purchase_email kit org x s =
     PassReceipt (receipt_head_of kit x (dashed kit (''Your '' @ receipt_product_name x s) (org_name org)))
       (receipt_product_name x s) (item_amount (first_item PASS x s) x) (first_row (purchases_of x s)) (kt_uri kit ''/account/'')"

text \<open>Tickets first, then a pass, then the gift.\<close>

definition send_order_receipt :: "receipt_kit \<Rightarrow> order \<Rightarrow> db \<Rightarrow> py_error + receipt" where
  "send_order_receipt kit x s =
     bindE (or_raise (order_org x s) DoesNotExist) (\<lambda>org.
       if tickets_of x s \<noteq> [] then send_ticket_email kit org x s
       else if sold_a_pass x s then Inr (send_pass_purchase_email kit org x s)
       else Inr (send_donation_receipt_email kit org x s))"

section \<open>The actions on an order\<close>

datatype order_notice =
    NoEmailOnFile | SendFailed | Resent string | AlreadyCancelled | CancelledOrder nat
  | RefundRejected | RefundDone | NotRefundable

datatype action_response = OrderMissing | ToOrder order_notice | ActionCrash error

definition order_at_token :: "nat \<Rightarrow> string \<Rightarrow> db \<Rightarrow> order option" where
  "order_at_token organization token s =
     first_row (filter (\<lambda>x. order_organization x = organization \<and> order_token x = token) (db_orders s))"

text \<open>\<open>transport\<close> says whether the mail goes out; whatever the sender raises is caught.\<close>

definition order_resend :: "receipt_kit \<Rightarrow> (receipt \<Rightarrow> bool) \<Rightarrow> nat \<Rightarrow> string \<Rightarrow> db \<Rightarrow> action_response \<times> receipt option" where
  "order_resend kit transport organization token s =
     (case order_at_token organization token s of
        None \<Rightarrow> (OrderMissing, None)
      | Some x \<Rightarrow>
          if order_buyer_email x = [] then (ToOrder NoEmailOnFile, None)
          else (case send_order_receipt kit x s of
                  Inl e \<Rightarrow> (ToOrder SendFailed, None)
                | Inr r \<Rightarrow> if transport r then (ToOrder (Resent (order_buyer_email x)), Some r) else (ToOrder SendFailed, None)))"

definition order_cancel_view :: "nat \<Rightarrow> string \<Rightarrow> db \<Rightarrow> action_response \<times> db" where
  "order_cancel_view organization token s =
     (case order_at_token organization token s of
        None \<Rightarrow> (OrderMissing, s)
      | Some x \<Rightarrow>
          (case order_cancel x s of
             Inl e \<Rightarrow> (ActionCrash e, s)
           | Inr (None, s') \<Rightarrow> (ToOrder AlreadyCancelled, s')
           | Inr (Some n, s') \<Rightarrow> (ToOrder (CancelledOrder n), s')))"

definition order_refund_view ::
    "(string \<Rightarrow> string \<Rightarrow> string option) \<Rightarrow> nat \<Rightarrow> string \<Rightarrow> db \<Rightarrow> action_response \<times> db" where
  "order_refund_view stripe_refund organization token s =
     (case order_at_token organization token s of
        None \<Rightarrow> (OrderMissing, s)
      | Some x \<Rightarrow>
          (case refund_order stripe_refund (order_pk x) s of
             Inl (RefundErr e) \<Rightarrow> (ToOrder RefundRejected, s)
           | Inl e \<Rightarrow> (ActionCrash e, s)
           | Inr (True, s') \<Rightarrow> (ToOrder RefundDone, s')
           | Inr (False, s') \<Rightarrow> (ToOrder NotRefundable, s')))"

section \<open>The PDF\<close>

datatype sheet_op =
    Fill string
  | Font string real
  | WriteAt real real string
  | PlaceImage string real real real real
  | NextPage

record sheet =
  sh_inch :: real
  sh_width :: real
  sh_height :: real

text \<open>A blank or unknown zone falls back to the active one.\<close>

definition in_venue_tz :: "receipt_kit \<Rightarrow> time \<Rightarrow> string \<Rightarrow> string" where
  "in_venue_tz kit t tz_name =
     (case (if tz_name = [] then None else kt_zone kit tz_name) of Some f \<Rightarrow> f t | None \<Rightarrow> kt_active_zone kit t)"

definition truncate_text :: "receipt_kit \<Rightarrow> string \<Rightarrow> nat \<Rightarrow> string" where
  "truncate_text kit text limit = (if length text \<le> limit then text else take (limit - 1) text @ [kt_ellipsis kit])"

definition seat_label :: "receipt_kit \<Rightarrow> ticket \<Rightarrow> db \<Rightarrow> string" where
  "seat_label kit t s =
     (case Option.bind (tkt_seat t) (\<lambda>k. get_row seat_pk k (db_seats s)) of
        None \<Rightarrow> ''General Admission''
      | Some r \<Rightarrow>
          dashed kit (case section_of r s of None \<Rightarrow> [] | Some c \<Rightarrow> section_name c)
            (''Row '' @ seat_row_label r @ '', Seat '' @ seat_number r))"

fun status_display :: "ticket_status \<Rightarrow> string" where
  "status_display VALID = ''Valid''"
| "status_display USED = ''Used''"
| "status_display VOID = ''Void''"

definition page_margin :: "sheet \<Rightarrow> real" where "page_margin sh = 6 / 10 * sh_inch sh"
definition qr_size :: "sheet \<Rightarrow> real" where "qr_size sh = 16 / 10 * sh_inch sh"
definition card_height :: "sheet \<Rightarrow> real" where "card_height sh = qr_size sh + 5 / 10 * sh_inch sh"

definition header_ops :: "receipt_kit \<Rightarrow> sheet \<Rightarrow> string \<Rightarrow> string \<Rightarrow> string \<Rightarrow> string \<Rightarrow> sheet_op list" where
  "header_ops kit sh title date venue order_line =
     (let y = sh_height sh - page_margin sh; m = page_margin sh
      in [Fill ''black'', Font ''Helvetica-Bold'' 18, WriteAt m y (truncate_text kit title 60),
          Font ''Helvetica'' 11, WriteAt m (y - 22) date, WriteAt m (y - 22 - 16) venue,
          Fill ''#6b7280'', WriteAt m (y - 22 - 16 - 16) order_line])"

text \<open>A code the library cannot draw leaves a gap.\<close>

definition card_ops :: "receipt_kit \<Rightarrow> sheet \<Rightarrow> nat \<Rightarrow> ticket \<Rightarrow> db \<Rightarrow> real \<Rightarrow> sheet_op list" where
  "card_ops kit sh index t s y =
     (let x = page_margin sh + qr_size sh + 3 / 10 * sh_inch sh; ty = y - 2 / 10 * sh_inch sh
      in (case kt_qr_png kit (scan_code (kt_secret kit) t) of
            None \<Rightarrow> []
          | Some png \<Rightarrow> [PlaceImage png (page_margin sh) (y - qr_size sh) (qr_size sh) (qr_size sh)]) @
         [Fill ''black'', Font ''Helvetica-Bold'' 13, WriteAt x ty (''Ticket '' @ show_nat index),
          Font ''Helvetica'' 11, WriteAt x (ty - 18) (seat_label kit t s),
          Fill ''#6b7280'', Font ''Helvetica'' 9, WriteAt x (ty - 18 - 16) (''Status: '' @ status_display (tkt_status t)),
          WriteAt x (ty - 18 - 16 - 13) (tkt_token t)])"

fun cards :: "receipt_kit \<Rightarrow> sheet \<Rightarrow> db \<Rightarrow> nat \<Rightarrow> real \<Rightarrow> ticket list \<Rightarrow> sheet_op list" where
  "cards kit sh s index y [] = [NextPage]"
| "cards kit sh s index y (t # ts) =
     (if y - card_height sh < page_margin sh
      then let y' = sh_height sh - page_margin sh
           in NextPage # card_ops kit sh index t s y' @ cards kit sh s (index + 1) (y' - card_height sh) ts
      else card_ops kit sh index t s y @ cards kit sh s (index + 1) (y - card_height sh) ts)"

definition first_card_top :: "sheet \<Rightarrow> real" where
  "first_card_top sh = sh_height sh - page_margin sh - 22 - 16 - 16 - 5 / 10 * sh_inch sh"

definition render_order_pdf :: "receipt_kit \<Rightarrow> sheet \<Rightarrow> order \<Rightarrow> db \<Rightarrow> py_error + sheet_op list" where
  "render_order_pdf kit sh x s =
     bindE (order_performance_row x s) (\<lambda>p.
     bindE (event_of_performance p s) (\<lambda>e.
     bindE (or_raise (get_row venue_pk (perf_venue p) (db_venues s)) DoesNotExist) (\<lambda>v.
     bindE (or_raise (order_org x s) DoesNotExist) (\<lambda>org.
       Inr (header_ops kit sh (event_title e) (in_venue_tz kit (perf_starts_at p) (venue_timezone v)) (venue_name v)
              (org_name org @ '' '' @ kt_dot kit # '' Order '' @ order_token x) @
            cards kit sh s 1 (first_card_top sh) (order_by (ticket_sort_key s) (tickets_of x s)))))))"

end
