(* ===== verification/ReceiptFacts.thy ===== *)
theory ReceiptFacts
  imports Receipts
begin

text \<open>
  The receipt fits the purchase, and the PDF shows every ticket on its pages. Where a text ends depends on
  the font, which is not modelled: the lemmas bound where texts start, and say exactly what they are.
\<close>

section \<open>What a sale leaves for its receipt\<close>

text \<open>A gift or a pass is one line of an order without tickets.\<close>

lemma fresh_order:
  assumes "refs_wf s" and "attach_guest org e n opt now s = (g, s1)" and "create_order r s1 = Inr (x, s2)"
  shows "tickets_of x s2 = []" "items_of x s2 = []" "purchases_of x s2 = []" "order_org x s2 = get_row org_pk (order_organization r) (db_orgs s)"
proof -
  have le: "db_next s \<le> db_next s1" using attach_guest_frame [OF assms(2)] by simp
  have same: "db_tickets s1 = db_tickets s" "db_items s1 = db_items s" "db_purchases s1 = db_purchases s" "db_orgs s1 = db_orgs s"
    by (rule attach_guest_obs [OF assms(2)], simp)+
  from assms(3) have x: "order_pk x = db_next s1" "order_organization x = order_organization r"
    and s2: "db_tickets s2 = db_tickets s1" "db_items s2 = db_items s1" "db_purchases s2 = db_purchases s1" "db_orgs s2 = db_orgs s1"
    by (auto simp: create_order_def Let_def split: if_splits)
  have old: "k \<noteq> order_pk x" if "k < db_next s" for k using that le x by simp
  show "tickets_of x s2 = []" "items_of x s2 = []" "purchases_of x s2 = []"
    using assms(1) old by (auto simp: tickets_of_def items_of_def purchases_of_def s2 same refs_wf_def filter_empty_conv)
  show "order_org x s2 = get_row org_pk (order_organization r) (db_orgs s)" by (simp add: order_org_def x s2 same)
qed

lemma donation_receipt:
  assumes "fulfill_donation org a camp e n prov ref sid opt now s = Inr (x, s')" and "refs_wf s" and "get_row org_pk org (db_orgs s) = Some g"
  shows "\<exists>hd c. send_order_receipt kit x s' = Inr (DonationReceipt hd c a (order_url kit x)) \<and> rh_to hd = e"
proof -
  obtain gu s1 where gu: "attach_guest org e n opt now s = (gu, s1)" by (cases "attach_guest org e n opt now s")
  with assms(1) obtain s2 where o: "create_order (paid_order org None e n gu a sid) s1 = Inr (x, s2)"
    and s': "s' = create_payment (payment_row x prov a ''succeeded'' ref)
             (create_item ((blank_item x DONATION 1 a)\<lparr>item_donation_campaign := camp\<rparr>) s2)"
    by (auto simp: fulfill_donation_def)
  note f = fresh_order [OF assms(2) gu o]
  have "order_buyer_email x = e" using o by (auto simp: create_order_def Let_def paid_order_def split: if_splits)
  moreover have "tickets_of x s' = []" "items_of x s' = [(blank_item x DONATION 1 a)\<lparr>item_donation_campaign := camp, item_pk := db_next s2\<rparr>]"
    using f(1,2) by (simp_all add: s' create_payment_def create_item_def tickets_of_def items_of_def blank_item_def)
  moreover have "order_org x s' = Some g"
    using f(4) assms(3) by (simp add: s' create_payment_def create_item_def order_org_def paid_order_def)
  ultimately show ?thesis
    by (simp add: send_order_receipt_def or_raise_def sold_a_pass_def qs_exists_def send_donation_receipt_email_def first_item_def
        item_amount_def blank_item_def receipt_head_of_def Let_def)
qed

lemma pass_receipt:
  assumes "fulfill_pass_purchase org p e n prov ref sid opt now s = Inr (x, s')" and "refs_wf s" and "get_row org_pk org (db_orgs s) = Some g"
    and "get_row prod_pk (prod_pk p) (db_products s) = Some p"
  shows "\<exists>hd pp. send_order_receipt kit x s' = Inr (PassReceipt hd (prod_name p) (prod_price p) (Some pp) (kt_uri kit ''/account/'')) \<and>
     rh_to hd = e \<and> pp_order pp = order_pk x \<and> pp_product pp = prod_pk p"
proof -
  obtain gu s1 where gu: "attach_guest org e n opt now s = (gu, s1)" by (cases "attach_guest org e n opt now s")
  with assms(1) obtain s2 where o: "create_order (paid_order org None e n gu (prod_price p) sid) s1 = Inr (x, s2)"
    and s': "s' = create_payment (payment_row x prov (prod_price p) ''succeeded'' ref)
            (create_purchase p gu x (create_item ((blank_item x PASS 1 (prod_price p))\<lparr>item_pass_product := Some (prod_pk p)\<rparr>) s2))"
    by (auto simp: fulfill_pass_purchase_def)
  note f = fresh_order [OF assms(2) gu o]
  have e: "order_buyer_email x = e" using o by (auto simp: create_order_def Let_def paid_order_def split: if_splits)
  have "db_products s1 = db_products s" by (rule attach_guest_obs [OF gu]) simp
  with o have prods: "db_products s' = db_products s"
    by (auto simp: s' create_payment_def create_purchase_def create_item_def create_order_def Let_def split: if_splits)
  have t: "tickets_of x s' = []" and i: "items_of x s' = [(blank_item x PASS 1 (prod_price p))\<lparr>item_pass_product := Some (prod_pk p), item_pk := db_next s2\<rparr>]"
    using f(1,2) by (simp_all add: s' create_payment_def create_purchase_def create_item_def tickets_of_def items_of_def blank_item_def)
  obtain pp where pp: "purchases_of x s' = [pp]" "pp_order pp = order_pk x" "pp_product pp = prod_pk p"
    using f(3) by (simp add: s' create_payment_def create_purchase_def create_item_def purchases_of_def)
  have org: "order_org x s' = Some g"
    using f(4) assms(3) by (simp add: s' create_payment_def create_purchase_def create_item_def order_org_def paid_order_def)
  have "receipt_product_name x s' = prod_name p" "item_amount (first_item PASS x s') x = prod_price p" "sold_a_pass x s'"
    using assms(4) by (simp_all add: receipt_product_name_def first_item_def i blank_item_def prods item_amount_def sold_a_pass_def qs_exists_def)
  then show ?thesis
    using org t e pp by (simp add: send_order_receipt_def or_raise_def send_pass_purchase_email_def receipt_head_of_def)
qed

lemma ticket_receipt:
  assumes "fulfill_hold h e n ref prov sid opt now s = Inr (x, s')" and "refs_wf s" and "inventory_seats h s \<noteq> []"
    and "order_org x s' = Some g" and "order_performance_row x s' = Inr p" and "event_of_performance p s' = Inr ev"
  shows "\<exists>hd rows gift. send_order_receipt kit x s' = Inr (TicketReceipt hd rows (order_url kit x) gift) \<and> rh_to hd = order_buyer_email x \<and>
     mset (map (tkt_seat \<circ> fst) rows) = mset (inventory_seats h s) \<and> (\<forall>(t, qr)\<in>set rows. qr = kt_qr_uri kit (scan_code (kt_secret kit) t))"
proof -
  have "map tkt_seat (tickets_of x s') = map tkt_seat (map (new_ticket h x) (inventory_seats h s))"
    by (rule plain_ticket_obs [OF fulfill_hold_rows(2) [OF assms(1,2)]]) (simp add: plain_ticket_def)
  then have seats: "map tkt_seat (tickets_of x s') = inventory_seats h s" by (simp add: o_def new_ticket_def)
  then have ne: "tickets_of x s' \<noteq> []" using assms(3) by auto
  let ?rows = "map (\<lambda>t. (t, kt_qr_uri kit (scan_code (kt_secret kit) t))) (order_by tkt_pk (tickets_of x s'))"
  have "mset (map (tkt_seat \<circ> fst) ?rows) = mset (map tkt_seat (order_by tkt_pk (tickets_of x s')))" by (simp add: o_def)
  also have "\<dots> = mset (inventory_seats h s)" by (simp add: order_by_def flip: seats)
  finally have "mset (map (tkt_seat \<circ> fst) ?rows) = mset (inventory_seats h s)" .
  moreover have "\<forall>(t, qr)\<in>set ?rows. qr = kt_qr_uri kit (scan_code (kt_secret kit) t)" by auto
  moreover have "\<exists>hd. send_order_receipt kit x s' = Inr (TicketReceipt hd ?rows (order_url kit x) (first_item DONATION x s')) \<and> rh_to hd = order_buyer_email x"
    using ne assms(4-6) by (simp add: send_order_receipt_def or_raise_def send_ticket_email_def receipt_head_of_def)
  ultimately show ?thesis by blast
qed

section \<open>The pages\<close>

text \<open>The codes and texts drawn, where the codes are, and the number of pages.\<close>

definition drawn_texts :: "sheet_op list \<Rightarrow> string list" where
  "drawn_texts ops = List.map_filter (\<lambda>p. case p of WriteAt x y t \<Rightarrow> Some t | _ \<Rightarrow> None) ops"

definition drawn_codes :: "sheet_op list \<Rightarrow> string list" where
  "drawn_codes ops = List.map_filter (\<lambda>p. case p of PlaceImage png x y w h \<Rightarrow> Some png | _ \<Rightarrow> None) ops"

definition page_count :: "sheet_op list \<Rightarrow> nat" where
  "page_count ops = length (filter (\<lambda>p. p = NextPage) ops)"

fun places :: "nat \<Rightarrow> sheet_op list \<Rightarrow> (nat \<times> real) list" where
  "places k [] = []"
| "places k (NextPage # ops) = places (Suc k) ops"
| "places k (PlaceImage png x y w h # ops) = (k, y) # places k ops"
| "places k (p # ops) = places k ops"

text \<open>A code lies within the margins; a text starts within them.\<close>

definition on_sheet :: "sheet \<Rightarrow> sheet_op \<Rightarrow> bool" where
  "on_sheet sh p \<longleftrightarrow> (case p of
      PlaceImage png x y w h \<Rightarrow> page_margin sh \<le> x \<and> x + w \<le> sh_width sh - page_margin sh \<and>
        page_margin sh \<le> y \<and> y + h \<le> sh_height sh - page_margin sh
    | WriteAt x y t \<Rightarrow> page_margin sh \<le> x \<and> page_margin sh \<le> y \<and> y \<le> sh_height sh - page_margin sh
    | _ \<Rightarrow> True)"

definition letter_sheet :: "sheet \<Rightarrow> bool" where
  "letter_sheet sh \<longleftrightarrow> sh_inch sh = 72 \<and> sh_width sh = 612 \<and> sh_height sh = 792"

lemmas sheet_sizes = letter_sheet_def page_margin_def qr_size_def card_height_def

lemma drawn_codes_simps [simp]:
  "drawn_codes [] = []" "drawn_codes (NextPage # ops) = drawn_codes ops" "drawn_codes (ops @ ops') = drawn_codes ops @ drawn_codes ops'"
  by (simp_all add: drawn_codes_def map_filter_simps List.map_filter_def)

lemma drawn_texts_simps [simp]:
  "drawn_texts [] = []" "drawn_texts (NextPage # ops) = drawn_texts ops" "drawn_texts (ops @ ops') = drawn_texts ops @ drawn_texts ops'"
  by (simp_all add: drawn_texts_def map_filter_simps List.map_filter_def)

lemma page_count_simps [simp]:
  "page_count [] = 0" "page_count (NextPage # ops) = Suc (page_count ops)" "page_count (ops @ ops') = page_count ops + page_count ops'"
  by (simp_all add: page_count_def)

lemma card_facts:
  "drawn_codes (card_ops kit sh i t s y) = (case kt_qr_png kit (scan_code (kt_secret kit) t) of None \<Rightarrow> [] | Some png \<Rightarrow> [png])"
  "page_count (card_ops kit sh i t s y) = 0"
  "places k (card_ops kit sh i t s y @ ops) =
     (if kt_qr_png kit (scan_code (kt_secret kit) t) = None then [] else [(k, y - qr_size sh)]) @ places k ops"
  by (simp_all add: card_ops_def drawn_codes_def page_count_def List.map_filter_def Let_def split: option.split)

text \<open>What a card says.\<close>

definition card_texts :: "receipt_kit \<Rightarrow> db \<Rightarrow> nat \<times> ticket \<Rightarrow> string list" where
  "card_texts kit s it = (case it of (i, t) \<Rightarrow>
     [''Ticket '' @ show_nat i, seat_label kit t s, ''Status: '' @ status_display (tkt_status t), tkt_token t])"

lemma cards_texts: "drawn_texts (cards kit sh s i y ts) = concat (map (card_texts kit s) (enumerate i ts))"
proof (induction ts arbitrary: i y)
  case (Cons t ts)
  have "drawn_texts (card_ops kit sh i t s z) = card_texts kit s (i, t)" for z
    by (simp add: card_ops_def drawn_texts_def List.map_filter_def Let_def card_texts_def split: option.split)
  with Cons.IH show ?case by (simp add: Let_def)
qed simp

lemma cards_codes: "drawn_codes (cards kit sh s i y ts) = List.map_filter (\<lambda>t. kt_qr_png kit (scan_code (kt_secret kit) t)) ts"
  by (induction kit sh s i y ts rule: cards.induct) (auto simp: card_facts Let_def List.map_filter_def split: option.splits)

lemma card_on_sheet:
  assumes "letter_sheet sh" and "y \<le> sh_height sh - page_margin sh" and "page_margin sh \<le> y - card_height sh"
  shows "list_all (on_sheet sh) (card_ops kit sh i t s y)"
  using assms by (auto simp: card_ops_def on_sheet_def sheet_sizes Let_def split: option.split)

lemma cards_on_sheet:
  assumes "letter_sheet sh" and "y \<le> sh_height sh - page_margin sh"
  shows "list_all (on_sheet sh) (cards kit sh s i y ts)"
  using assms
proof (induction ts arbitrary: i y)
  case (Cons t ts)
  let ?y = "sh_height sh - page_margin sh"
  have fits: "page_margin sh \<le> ?y - card_height sh" using Cons.prems(1) by (simp add: sheet_sizes)
  have "card_height sh > 0" using Cons.prems(1) by (simp add: sheet_sizes)
  then have "list_all (on_sheet sh) (cards kit sh s (i + 1) (?y - card_height sh) ts)"
    "list_all (on_sheet sh) (cards kit sh s (i + 1) (y - card_height sh) ts)"
    using Cons.IH Cons.prems by simp_all
  moreover have "on_sheet sh NextPage" by (simp add: on_sheet_def)
  ultimately show ?case
    using card_on_sheet [OF Cons.prems(1) order_refl fits] card_on_sheet [OF Cons.prems] by (simp add: Let_def not_less)
qed (simp add: on_sheet_def)

text \<open>Four cards fit on a page: with room for \<open>j\<close> more, the rest needs a page for every four beyond.\<close>

lemma cards_pages:
  assumes "letter_sheet sh" and "real j * card_height sh \<le> y - page_margin sh" and "y - page_margin sh < real (Suc j) * card_height sh"
  shows "page_count (cards kit sh s i y ts) = Suc ((length ts - j + 3) div 4)"
  using assms(2,3)
proof (induction ts arbitrary: i y j)
  case (Cons t ts)
  let ?c = "card_height sh" and ?m = "page_margin sh" and ?y = "sh_height sh - page_margin sh"
  have top: "real 3 * ?c \<le> ?y - ?c - ?m" "?y - ?c - ?m < real (Suc 3) * ?c" using assms(1) by (simp_all add: sheet_sizes)
  show ?case
  proof (cases j)
    case 0
    then have "y - ?c < ?m" using Cons.prems(2) by simp
    then show ?thesis using Cons.IH [OF top] 0 by (simp add: card_facts Let_def)
  next
    case (Suc j')
    have "0 \<le> real j' * ?c" using assms(1) by (simp add: sheet_sizes)
    with Suc have "\<not> y - ?c < ?m" using Cons.prems(1) by (simp add: distrib_right)
    moreover have "page_count (cards kit sh s (i + 1) (y - ?c) ts) = Suc ((length ts - j' + 3) div 4)"
      by (rule Cons.IH) (use Cons.prems Suc in \<open>simp_all add: distrib_right\<close>)
    ultimately show ?thesis using Suc by (simp add: card_facts)
  qed
qed simp

text \<open>On a page the codes go down in steps of a card; pages follow each other.\<close>

definition below :: "sheet \<Rightarrow> nat \<times> real \<Rightarrow> nat \<times> real \<Rightarrow> bool" where
  "below sh a b \<longleftrightarrow> fst a < fst b \<or> fst a = fst b \<and> snd b + qr_size sh \<le> snd a"

lemma cards_places:
  assumes "letter_sheet sh"
  shows "sorted_wrt (below sh) (places k (cards kit sh s i y ts)) \<and>
     (\<forall>b\<in>set (places k (cards kit sh s i y ts)). k < fst b \<or> k = fst b \<and> snd b + qr_size sh \<le> y)"
proof (induction ts arbitrary: i y k)
  case (Cons t ts)
  let ?c = "card_height sh" and ?y = "sh_height sh - page_margin sh"
  have c: "qr_size sh \<le> ?c" "0 \<le> ?c" using assms by (simp_all add: sheet_sizes)
  have join: "sorted_wrt (below sh) (pre @ rest) \<and> (\<forall>b\<in>set (pre @ rest). k' < fst b \<or> k' = fst b \<and> snd b + qr_size sh \<le> y')"
    if "sorted_wrt (below sh) rest" "\<forall>b\<in>set rest. k' < fst b \<or> k' = fst b \<and> snd b + qr_size sh \<le> y' - ?c"
      "pre = [] \<or> pre = [(k', y' - qr_size sh)]" for k' y' pre rest
    using that c by (force simp: below_def)
  show ?case
  proof (cases "y - ?c < page_margin sh")
    case True
    let ?rest = "places (Suc k) (cards kit sh s (i + 1) (?y - ?c) ts)"
    let ?pre = "if kt_qr_png kit (scan_code (kt_secret kit) t) = None then [] else [(Suc k, ?y - qr_size sh)]"
    have e: "places k (cards kit sh s i y (t # ts)) = ?pre @ ?rest" using True by (simp add: card_facts Let_def)
    have "sorted_wrt (below sh) (?pre @ ?rest) \<and> (\<forall>b\<in>set (?pre @ ?rest). Suc k < fst b \<or> Suc k = fst b \<and> snd b + qr_size sh \<le> ?y)"
      by (rule join) (use Cons.IH [where k = "Suc k" and i = "i + 1" and y = "?y - ?c"] in auto)
    moreover from this have "\<forall>b\<in>set (?pre @ ?rest). k < fst b" by (metis Suc_lessD lessI)
    ultimately show ?thesis unfolding e by blast
  next
    case False
    let ?rest = "places k (cards kit sh s (i + 1) (y - ?c) ts)"
    let ?pre = "if kt_qr_png kit (scan_code (kt_secret kit) t) = None then [] else [(k, y - qr_size sh)]"
    have e: "places k (cards kit sh s i y (t # ts)) = ?pre @ ?rest" using False by (simp add: card_facts)
    show ?thesis unfolding e by (rule join) (use Cons.IH [where k = k and i = "i + 1" and y = "y - ?c"] in auto)
  qed
qed simp

lemma header_facts:
  "drawn_codes (header_ops kit sh a b c d) = []" "page_count (header_ops kit sh a b c d) = 0"
  "places k (header_ops kit sh a b c d @ ops) = places k ops"
  "letter_sheet sh \<Longrightarrow> list_all (on_sheet sh) (header_ops kit sh a b c d)"
  by (simp_all add: header_ops_def drawn_codes_def page_count_def List.map_filter_def Let_def on_sheet_def sheet_sizes)

lemma first_top: "letter_sheet sh \<Longrightarrow> first_card_top sh = 3294 / 5"
  by (simp add: first_card_top_def sheet_sizes)

section \<open>Properties\<close>

text \<open>
  Property C29. A buyer is sent the receipt of what was bought: a paid hold gives the ticket mail with one
  row per seat or place of the hold, each with the code the doors accept; a gift gives the
  donation receipt over its amount; a pass gives the pass receipt with its name and price and the
  purchase just made. Each goes to the address of the order.
\<close>

theorem receipt_fits_the_purchase:
  assumes "refs_wf s" and "get_row org_pk org (db_orgs s) = Some g"
  shows "(fulfill_hold h e n ref prov sid opt now s = Inr (x, s') \<and> inventory_seats h s \<noteq> [] \<and> order_org x s' = Some g \<and>
        order_performance_row x s' = Inr p \<and> event_of_performance p s' = Inr ev \<longrightarrow>
      (\<exists>hd rows gift. send_order_receipt kit x s' = Inr (TicketReceipt hd rows (order_url kit x) gift) \<and> rh_to hd = order_buyer_email x \<and>
        mset (map (tkt_seat \<circ> fst) rows) = mset (inventory_seats h s) \<and>
        (\<forall>(t, qr)\<in>set rows. qr = kt_qr_uri kit (scan_code (kt_secret kit) t)))) \<and>
    (fulfill_donation org a camp e n prov ref sid opt now s = Inr (x, s') \<longrightarrow>
      (\<exists>hd c. send_order_receipt kit x s' = Inr (DonationReceipt hd c a (order_url kit x)) \<and> rh_to hd = e)) \<and>
    (fulfill_pass_purchase org pass e n prov ref sid opt now s = Inr (x, s') \<and> get_row prod_pk (prod_pk pass) (db_products s) = Some pass \<longrightarrow>
      (\<exists>hd pp. send_order_receipt kit x s' = Inr (PassReceipt hd (prod_name pass) (prod_price pass) (Some pp) (kt_uri kit ''/account/'')) \<and>
        rh_to hd = e \<and> pp_order pp = order_pk x \<and> pp_product pp = prod_pk pass))"
proof (intro conjI impI; (elim conjE)?)
qed (rule ticket_receipt donation_receipt pass_receipt; (assumption | rule assms))+

text \<open>
  Property C30. The PDF shows every ticket: on letter paper, with a library that draws every code, each
  ticket's code appears exactly once, in the order of the seats, wholly within the margins, and no two codes of a
  page overlap; the texts are the event's title cut to 60 characters, the time at the venue, the venue and the order, and for each
  ticket its number, its seat, its status and its token, all starting within the margins; there is a page for
  every four tickets begun.
\<close>

theorem tickets_pdf_shows_every_ticket:
  assumes "render_order_pdf kit sh x s = Inr ops" and "letter_sheet sh" and "\<forall>c. kt_qr_png kit c = Some (png c)" and "tickets_of x s \<noteq> []"
  shows "drawn_codes ops = map (\<lambda>t. png (scan_code (kt_secret kit) t)) (order_by (ticket_sort_key s) (tickets_of x s)) \<and>
    (\<exists>p e v org. order_performance_row x s = Inr p \<and> event_of_performance p s = Inr e \<and>
       get_row venue_pk (perf_venue p) (db_venues s) = Some v \<and> order_org x s = Some org \<and>
       drawn_texts ops =
         [if length (event_title e) \<le> 60 then event_title e else take 59 (event_title e) @ [kt_ellipsis kit],
          in_venue_tz kit (perf_starts_at p) (venue_timezone v), venue_name v,
          org_name org @ '' '' @ kt_dot kit # '' Order '' @ order_token x] @
         concat (map (\<lambda>(i, t). [''Ticket '' @ show_nat i, seat_label kit t s, ''Status: '' @ status_display (tkt_status t), tkt_token t])
           (enumerate 1 (order_by (ticket_sort_key s) (tickets_of x s))))) \<and>
    list_all (on_sheet sh) ops \<and> sorted_wrt (below sh) (places 1 ops) \<and> page_count ops = (length (tickets_of x s) + 3) div 4"
proof -
  let ?ts = "order_by (ticket_sort_key s) (tickets_of x s)"
  from assms(1) obtain p e v org where rows: "order_performance_row x s = Inr p" "event_of_performance p s = Inr e"
      "get_row venue_pk (perf_venue p) (db_venues s) = Some v" "order_org x s = Some org"
    and drawn: "ops = header_ops kit sh (event_title e) (in_venue_tz kit (perf_starts_at p) (venue_timezone v)) (venue_name v)
        (org_name org @ '' '' @ kt_dot kit # '' Order '' @ order_token x) @ cards kit sh s 1 (first_card_top sh) ?ts"
    by (auto simp: render_order_pdf_def or_raise_def split: option.splits)
  have "card_texts kit s = (\<lambda>(i, t). [''Ticket '' @ show_nat i, seat_label kit t s, ''Status: '' @ status_display (tkt_status t), tkt_token t])"
    by (simp add: fun_eq_iff card_texts_def)
  then have texts: "drawn_texts ops =
      [if length (event_title e) \<le> 60 then event_title e else take 59 (event_title e) @ [kt_ellipsis kit],
       in_venue_tz kit (perf_starts_at p) (venue_timezone v), venue_name v,
       org_name org @ '' '' @ kt_dot kit # '' Order '' @ order_token x] @
      concat (map (\<lambda>(i, t). [''Ticket '' @ show_nat i, seat_label kit t s, ''Status: '' @ status_display (tkt_status t), tkt_token t])
        (enumerate 1 ?ts))"
    by (simp add: drawn cards_texts) (simp add: header_ops_def drawn_texts_def List.map_filter_def Let_def truncate_text_def)
  obtain a b c d where ops: "ops = header_ops kit sh a b c d @ cards kit sh s 1 (first_card_top sh) ?ts" using drawn by blast
  have codes: "drawn_codes ops = map (\<lambda>t. png (scan_code (kt_secret kit) t)) ?ts"
    using assms(3) by (simp add: ops header_facts cards_codes List.map_filter_def)
  have top: "first_card_top sh \<le> sh_height sh - page_margin sh" "real 4 * card_height sh \<le> first_card_top sh - page_margin sh"
    "first_card_top sh - page_margin sh < real (Suc 4) * card_height sh"
    using assms(2) by (simp_all add: first_top) (simp_all add: sheet_sizes)
  have "length ?ts = length (tickets_of x s)" by (simp add: order_by_def)
  then have "page_count ops = Suc ((length (tickets_of x s) - 4 + 3) div 4)"
    by (simp add: ops header_facts cards_pages [OF assms(2) top(2,3)])
  moreover have "Suc ((n - 4 + 3) div 4) = (n + 3) div 4" if "n \<noteq> 0" for n :: nat
  proof (cases "n \<le> 4")
    case True
    then have "(n + 3) div 4 = 1" using that by (intro div_nat_eqI) auto
    with True show ?thesis by simp
  next
    case False
    then obtain m where "n = m + 4" by (metis add.commute le_iff_add linorder_le_cases)
    then show ?thesis by simp
  qed
  moreover have "list_all (on_sheet sh) ops" using cards_on_sheet [OF assms(2) top(1)] header_facts(4) [OF assms(2)] by (simp add: ops)
  moreover have "sorted_wrt (below sh) (places 1 ops)" using cards_places [OF assms(2)] by (simp add: ops header_facts)
  ultimately have rest: "list_all (on_sheet sh) ops \<and> sorted_wrt (below sh) (places 1 ops) \<and> page_count ops = (length (tickets_of x s) + 3) div 4"
    using assms(4) by simp
  show ?thesis using codes rows texts rest by blast
qed

text \<open>
  The cut at 60 characters does not keep a title on the paper: at 10 points a character, and an 18-point bold capital
  is wider, 60 characters run over the right edge.
\<close>

lemma wide_title_runs_off_the_sheet:
  assumes "render_order_pdf kit sh x s = Inr ops" and "letter_sheet sh"
    and "order_performance_row x s = Inr p" and "event_of_performance p s = Inr e" and "60 \<le> length (event_title e)"
    and "\<forall>t. 10 * real (length t) \<le> width t"
  shows "\<exists>x y t. WriteAt x y t \<in> set ops \<and> sh_width sh < x + width t"
proof -
  let ?t = "truncate_text kit (event_title e) 60"
  have "length ?t = 60" using assms(5) by (simp add: truncate_text_def)
  moreover have "10 * real (length ?t) \<le> width ?t" using assms(6) by blast
  ultimately have "600 \<le> width ?t" by simp
  then have "sh_width sh < page_margin sh + width ?t" using assms(2) by (simp add: sheet_sizes)
  moreover have "\<exists>y. WriteAt (page_margin sh) y ?t \<in> set ops"
    using assms(1,3,4) by (auto simp: render_order_pdf_def or_raise_def header_ops_def Let_def split: option.splits)
  ultimately show ?thesis by blast
qed

section \<open>Witnesses\<close>

definition desk_kit :: receipt_kit where
  "desk_kit = \<lparr>kt_secret = ''k'', kt_uri = (\<lambda>p. ''https://roxy.example'' @ p), kt_logo = (\<lambda>_. None), kt_qr_uri = (\<lambda>c. ''data:'' @ c),
     kt_qr_png = (\<lambda>c. Some c), kt_zone = (\<lambda>_. None), kt_active_zone = (\<lambda>_. ''8 PM''), kt_dash = CHR ''-'', kt_dot = CHR ''.'', kt_ellipsis = CHR ''~''\<rparr>"

theorem receipt_fits_the_purchase_witness:
  "\<exists>x s' hd c. fulfill_donation 1 500 (Some 81) ''ann@x.example'' ''Ann'' ''stripe'' ''pi_1'' (Some ''cs_1'') False 0 demo = Inr (x, s') \<and>
     send_order_receipt desk_kit x s' = Inr (DonationReceipt hd c 500 (order_url desk_kit x)) \<and> rh_to hd = ''ann@x.example''"
proof -
  have wf: "refs_wf demo" by (simp add: refs_wf_def demo_def well_keyed_def)
  have org: "get_row org_pk 1 (db_orgs demo) = Some roxy" by (simp add: get_row_def demo_def roxy_def lyric_def)
  obtain gu s1 where gu: "attach_guest 1 ''ann@x.example'' ''Ann'' False 0 demo = (gu, s1)"
    by (cases "attach_guest 1 ''ann@x.example'' ''Ann'' False 0 demo")
  have "db_orders s1 = db_orders demo" by (rule attach_guest_obs [OF gu]) simp
  then have "db_orders s1 = []" by (simp add: demo_def)
  then have "\<exists>x s2. create_order (paid_order 1 None ''ann@x.example'' ''Ann'' gu 500 (Some ''cs_1'')) s1 = Inr (x, s2)"
    by (simp add: create_order_def Let_def)
  then obtain x s' where r: "fulfill_donation 1 500 (Some 81) ''ann@x.example'' ''Ann'' ''stripe'' ''pi_1'' (Some ''cs_1'') False 0 demo = Inr (x, s')"
    using gu by (auto simp: fulfill_donation_def)
  have "\<exists>hd c. send_order_receipt desk_kit x s' = Inr (DonationReceipt hd c 500 (order_url desk_kit x)) \<and> rh_to hd = ''ann@x.example''"
    using receipt_fits_the_purchase [OF wf org] r by blast
  with r show ?thesis by blast
qed

definition five_orders :: db where
  "five_orders = demo\<lparr>db_tickets := map (\<lambda>k. \<lparr>tkt_pk = k, tkt_organization = 1, tkt_order = 90, tkt_performance = 31, tkt_seat = None,
     tkt_holder_name = [], tkt_token = show_nat k, tkt_status = VALID, tkt_used_at = None, tkt_scanned_by = None\<rparr>) [91, 92, 93, 94, 95]\<rparr>"

definition group_order :: order where
  "group_order = \<lparr>order_pk = 90, order_organization = 1, order_performance = Some 31, order_buyer_email = ''ann@x.example'', order_buyer_name = ''Ann'',
     order_guest = None, order_promo_code_text = [], order_discount_amount = 0, order_total = 12500, order_status = PAID,
     order_token = ''AAAA'', order_stripe_checkout_session_id = None\<rparr>"

theorem tickets_pdf_shows_every_ticket_witness:
  "\<exists>ops. render_order_pdf desk_kit \<lparr>sh_inch = 72, sh_width = 612, sh_height = 792\<rparr> group_order five_orders = Inr ops \<and>
     page_count ops = 2 \<and> length (drawn_codes ops) = 5 \<and>
     take 4 (drawn_texts ops) = [''Hamlet'', ''8 PM'', ''Main hall'', ''Roxy . Order AAAA'']"
proof -
  let ?sh = "\<lparr>sh_inch = 72, sh_width = 612, sh_height = 792\<rparr>"
  have sh: "letter_sheet ?sh" by (simp add: letter_sheet_def)
  have t: "length (tickets_of group_order five_orders) = 5" by (simp add: tickets_of_def group_order_def five_orders_def)
  then have ne: "tickets_of group_order five_orders \<noteq> []" by auto
  have p: "order_performance_row group_order five_orders = Inr ga_show" "event_of_performance ga_show five_orders = Inr hamlet"
    "get_row venue_pk (perf_venue ga_show) (db_venues five_orders) = Some main_hall" "order_org group_order five_orders = Some roxy"
    by (simp_all add: order_performance_row_def event_of_performance_def order_org_def get_row_def five_orders_def group_order_def demo_def
        ga_show_def matinee_def evening_def hamlet_def macbeth_def main_hall_def roxy_def lyric_def)
  obtain ops where r: "render_order_pdf desk_kit ?sh group_order five_orders = Inr ops"
    by (simp add: render_order_pdf_def p or_raise_def)
  have png: "\<forall>c. kt_qr_png desk_kit c = Some (id c)" by (simp add: desk_kit_def)
  note f = tickets_pdf_shows_every_ticket [OF r sh png ne]
  have "length (drawn_codes ops) = length (tickets_of group_order five_orders)"
    using f by (simp add: order_by_def)
  moreover have "take 4 (drawn_texts ops) = [''Hamlet'', ''8 PM'', ''Main hall'', ''Roxy . Order AAAA'']"
    using f p by (auto simp: hamlet_def main_hall_def roxy_def group_order_def in_venue_tz_def desk_kit_def)
  ultimately show ?thesis using f t r by auto
qed

end
