(* ===== verification/HelpCenter.thy ===== *)
theory HelpCenter
  imports Access
begin

text \<open>
  The help center (helpcenter/models.py, forms.py, views.py, builtins.py): articles with a visibility,
  the slug an article gets when its author leaves it blank, who reads what, and the merge with the
  built-in articles. \<open>slugify\<close> stands for Django's; the bodies of the built-in texts are left out.
\<close>

section \<open>Articles\<close>

datatype visibility = VisPublic | VisStaff | VisBoxOffice | VisManager | VisOwner

datatype category = CatGeneral | CatVenueRules | CatShowInfo | CatPolicies | CatHowTo

definition category_choices :: "category list" where
  "category_choices = [CatGeneral, CatVenueRules, CatShowInfo, CatPolicies, CatHowTo]"

text \<open>The stored value, by which a query sorts.\<close>

fun category_value :: "category \<Rightarrow> string" where
  "category_value CatGeneral = ''general''"
| "category_value CatVenueRules = ''venue_rules''"
| "category_value CatShowInfo = ''show_info''"
| "category_value CatPolicies = ''policies''"
| "category_value CatHowTo = ''how_to''"

record help_article =
  art_pk :: nat
  art_organization :: nat
  art_title :: string
  art_slug :: string
  art_summary :: string
  art_body :: string
  art_category :: category
  art_visibility :: visibility
  art_is_published :: bool
  art_position :: nat
  art_created_by :: "nat option"

record help_state =
  help_next :: nat
  help_articles :: "help_article list"

definition visibilities_readable_by :: "membership \<Rightarrow> visibility set" where
  "visibilities_readable_by m =
     {VisPublic, VisStaff} \<union> (if is_box_office_or_above m then {VisBoxOffice} else {}) \<union>
     (if is_manager_or_above m then {VisManager} else {}) \<union> (if is_owner m then {VisOwner} else {})"

definition article_order :: "help_article \<Rightarrow> string \<times> nat \<times> string" where
  "article_order a = (category_value (art_category a), art_position a, art_title a)"

definition readable_by :: "nat \<Rightarrow> membership \<Rightarrow> help_state \<Rightarrow> help_article list" where
  "readable_by organization m st =
     order_by article_order (filter (\<lambda>a. art_organization a = organization \<and> art_is_published a \<and>
       art_visibility a \<in> visibilities_readable_by m) (help_articles st))"

definition public_articles :: "nat \<Rightarrow> help_state \<Rightarrow> help_article list" where
  "public_articles organization st =
     order_by article_order (filter (\<lambda>a. art_organization a = organization \<and> art_is_published a \<and>
       art_visibility a = VisPublic) (help_articles st))"

section \<open>The slug of an article\<close>

definition numbered_slug :: "string \<Rightarrow> nat \<Rightarrow> string" where
  "numbered_slug base n = base @ ''-'' @ show_nat n"

text \<open>The numbers from \<open>n\<close> on that are taken: the loop passes each of them once.\<close>

definition slug_clashes :: "string list \<Rightarrow> string \<Rightarrow> nat \<Rightarrow> nat set" where
  "slug_clashes taken base n = {k. n \<le> k \<and> numbered_slug base k \<in> set taken}"

lemma numbered_slug_inj: "numbered_slug base k = numbered_slug base n \<longleftrightarrow> k = n"
  by (simp add: numbered_slug_def show_nat_inj)

lemma slug_clashes_card: "finite (slug_clashes taken base n) \<and> card (slug_clashes taken base n) \<le> length taken"
proof -
  have inj: "inj_on (numbered_slug base) (slug_clashes taken base n)" by (simp add: inj_on_def numbered_slug_inj)
  have sub: "numbered_slug base ` slug_clashes taken base n \<subseteq> set taken" by (auto simp: slug_clashes_def)
  then have "finite (slug_clashes taken base n)" using inj finite_imageD infinite_super by blast
  moreover have "card (slug_clashes taken base n) \<le> card (set taken)"
    using card_mono [OF _ sub] inj by (simp add: card_image)
  ultimately show ?thesis using card_length [of taken] by linarith
qed

lemma slug_clashes_Suc:
  "slug_clashes taken base n = (if numbered_slug base n \<in> set taken then insert n (slug_clashes taken base (Suc n)) else slug_clashes taken base (Suc n))"
  by (auto simp: slug_clashes_def Suc_le_eq le_less)

function unique_slug_loop :: "string list \<Rightarrow> string \<Rightarrow> nat \<Rightarrow> string \<Rightarrow> string" where
  "unique_slug_loop taken base n candidate =
     (if candidate \<in> set taken then unique_slug_loop taken base (Suc n) (numbered_slug base n) else candidate)"
  by pat_completeness auto

termination
proof (relation "measure (\<lambda>(taken, base, n, candidate).
    card (slug_clashes taken base n) + (if candidate \<in> set taken then 1 else 0))")
  fix taken :: "string list" and base candidate :: string and n :: nat
  assume "candidate \<in> set taken"
  moreover have "n \<notin> slug_clashes taken base (Suc n)" by (simp add: slug_clashes_def)
  ultimately show "((taken, base, Suc n, numbered_slug base n), taken, base, n, candidate)
      \<in> measure (\<lambda>(taken, base, n, candidate). card (slug_clashes taken base n) + (if candidate \<in> set taken then 1 else 0))"
    using slug_clashes_Suc [of taken base n] slug_clashes_card [of taken base "Suc n"] by simp
qed simp

declare unique_slug_loop.simps [simp del]

text \<open>The slugs of the theater's other articles.\<close>

definition sibling_slugs :: "nat \<Rightarrow> nat option \<Rightarrow> help_state \<Rightarrow> string list" where
  "sibling_slugs organization pk st =
     map art_slug (filter (\<lambda>a. art_organization a = organization \<and> Some (art_pk a) \<noteq> pk) (help_articles st))"

definition unique_slug :: "(string \<Rightarrow> string) \<Rightarrow> nat \<Rightarrow> nat option \<Rightarrow> string \<Rightarrow> help_state \<Rightarrow> string" where
  "unique_slug slugify organization pk title st =
     (let base = (if slugify title = [] then ''article'' else slugify title)
      in unique_slug_loop (sibling_slugs organization pk st) base 2 base)"

section \<open>Authoring\<close>

record help_fields =
  hf_title :: "string option"
  hf_slug :: "string option"
  hf_summary :: string
  hf_body :: "string option"
  hf_category :: "category option"
  hf_visibility :: "visibility option"
  hf_position :: "nat option"
  hf_is_published :: bool

datatype help_error = HelpFieldMissing | HelpSlugTaken

datatype help_response = HelpGate access_error | HelpMissing | HelpInvalid "help_error list" | HelpSaved nat | HelpDeleted | HelpCrash db_constraint

text \<open>\<open>clean_slug\<close>: a slug given is slugified and must be free; none (a rejected one) or a blank one passes.\<close>

definition clean_slug :: "(string \<Rightarrow> string) \<Rightarrow> nat \<Rightarrow> nat option \<Rightarrow> help_fields \<Rightarrow> help_state \<Rightarrow> help_error + string" where
  "clean_slug slugify organization pk f st =
     (case hf_slug f of
        None \<Rightarrow> Inl HelpFieldMissing
      | Some raw \<Rightarrow>
          if raw = [] then Inr []
          else if slugify raw \<in> set (sibling_slugs organization pk st) then Inl HelpSlugTaken
          else Inr (slugify raw))"

definition help_errors :: "(string \<Rightarrow> string) \<Rightarrow> nat \<Rightarrow> nat option \<Rightarrow> help_fields \<Rightarrow> help_state \<Rightarrow> help_error list" where
  "help_errors slugify organization pk f st =
     (if hf_title f = None \<or> hf_body f = None \<or> hf_category f = None \<or> hf_visibility f = None \<or> hf_position f = None
      then [HelpFieldMissing] else []) @
     (case clean_slug slugify organization pk f st of Inl e \<Rightarrow> [e] | Inr slug \<Rightarrow> [])"

text \<open>\<open>HelpArticle.save\<close> derives the slug that is blank.\<close>

definition saved_slug :: "(string \<Rightarrow> string) \<Rightarrow> nat \<Rightarrow> nat option \<Rightarrow> help_fields \<Rightarrow> help_state \<Rightarrow> string" where
  "saved_slug slugify organization pk f st =
     (case clean_slug slugify organization pk f st of
        Inr slug \<Rightarrow> if slug = [] then unique_slug slugify organization pk (the (hf_title f)) st else slug
      | Inl e \<Rightarrow> [])"

definition write_article :: "nat \<Rightarrow> help_fields \<Rightarrow> string \<Rightarrow> help_article \<Rightarrow> help_article" where
  "write_article organization f slug a =
     a\<lparr>art_organization := organization, art_title := the (hf_title f), art_slug := slug, art_summary := hf_summary f,
       art_body := the (hf_body f), art_category := the (hf_category f), art_visibility := the (hf_visibility f),
       art_is_published := hf_is_published f, art_position := the (hf_position f)\<rparr>"

definition help_slug_clash :: "help_article \<Rightarrow> help_state \<Rightarrow> bool" where
  "help_slug_clash a st = qs_exists (\<lambda>x. art_pk x \<noteq> art_pk a \<and> art_organization x = art_organization a \<and> art_slug x = art_slug a) (help_articles st)"

definition help_create :: "(string \<Rightarrow> string) \<Rightarrow> staff_request \<Rightarrow> accounts \<Rightarrow> help_fields \<Rightarrow> help_state \<Rightarrow> help_response \<times> help_state" where
  "help_create slugify rq acc f st =
     (case resolve_staff_membership rq can_manage_events acc of
        Inl e \<Rightarrow> (HelpGate e, st)
      | Inr m \<Rightarrow>
          let g = mem_organization m; errors = help_errors slugify g None f st;
              a = write_article g f (saved_slug slugify g None f st)
                    \<lparr>art_pk = help_next st, art_organization = g, art_title = [], art_slug = [], art_summary = [], art_body = [],
                     art_category = CatGeneral, art_visibility = VisStaff, art_is_published = True, art_position = 0,
                     art_created_by = req_user rq\<rparr>
          in if errors \<noteq> [] then (HelpInvalid errors, st)
             else if help_slug_clash a st then (HelpCrash UniqueHelpSlug, st)
             else (HelpSaved (art_pk a), st\<lparr>help_articles := help_articles st @ [a], help_next := Suc (help_next st)\<rparr>))"

definition article_at :: "nat \<Rightarrow> nat \<Rightarrow> help_state \<Rightarrow> help_article option" where
  "article_at organization pk st =
     first_row (filter (\<lambda>a. art_pk a = pk \<and> art_organization a = organization) (help_articles st))"

definition help_update ::
    "(string \<Rightarrow> string) \<Rightarrow> staff_request \<Rightarrow> accounts \<Rightarrow> nat \<Rightarrow> help_fields \<Rightarrow> help_state \<Rightarrow> help_response \<times> help_state" where
  "help_update slugify rq acc pk f st =
     (case resolve_staff_membership rq can_manage_events acc of
        Inl e \<Rightarrow> (HelpGate e, st)
      | Inr m \<Rightarrow>
          (case article_at (mem_organization m) pk st of
             None \<Rightarrow> (HelpMissing, st)
           | Some a0 \<Rightarrow>
               let g = mem_organization m; errors = help_errors slugify g (Some pk) f st;
                   a = write_article g f (saved_slug slugify g (Some pk) f st) a0
               in if errors \<noteq> [] then (HelpInvalid errors, st)
                  else if help_slug_clash a st then (HelpCrash UniqueHelpSlug, st)
                  else (HelpSaved pk, st\<lparr>help_articles := update_rows (\<lambda>x. art_pk x = pk) (\<lambda>_. a) (help_articles st)\<rparr>)))"

definition help_delete :: "staff_request \<Rightarrow> accounts \<Rightarrow> nat \<Rightarrow> help_state \<Rightarrow> help_response \<times> help_state" where
  "help_delete rq acc pk st =
     (case resolve_staff_membership rq can_manage_events acc of
        Inl e \<Rightarrow> (HelpGate e, st)
      | Inr m \<Rightarrow>
          (case article_at (mem_organization m) pk st of
             None \<Rightarrow> (HelpMissing, st)
           | Some a \<Rightarrow> (HelpDeleted, st\<lparr>help_articles := delete_rows (\<lambda>x. art_pk x = pk) (help_articles st)\<rparr>)))"

definition help_manage :: "staff_request \<Rightarrow> accounts \<Rightarrow> help_state \<Rightarrow> access_error + help_article list" where
  "help_manage rq acc st =
     bindE (resolve_staff_membership rq can_manage_events acc) (\<lambda>m.
       Inr (order_by article_order (filter (\<lambda>a. art_organization a = mem_organization m) (help_articles st))))"

section \<open>Reading\<close>

record builtin_article =
  bi_slug :: string
  bi_title :: string
  bi_category :: category
  bi_visibility :: visibility

definition BUILTIN_ARTICLES :: "builtin_article list" where
  "BUILTIN_ARTICLES =
     [\<lparr>bi_slug = ''welcome'', bi_title = ''Welcome to your box office'', bi_category = CatHowTo, bi_visibility = VisStaff\<rparr>,
      \<lparr>bi_slug = ''getting-your-box-office-set-up'', bi_title = ''Getting your box office set up'', bi_category = CatHowTo, bi_visibility = VisManager\<rparr>,
      \<lparr>bi_slug = ''selling-and-refunds'', bi_title = ''Selling tickets and issuing refunds'', bi_category = CatHowTo, bi_visibility = VisBoxOffice\<rparr>,
      \<lparr>bi_slug = ''discounts-and-promo-codes'', bi_title = ''Discounts & promo codes'', bi_category = CatHowTo, bi_visibility = VisManager\<rparr>,
      \<lparr>bi_slug = ''donations'', bi_title = ''Donations'', bi_category = CatHowTo, bi_visibility = VisManager\<rparr>,
      \<lparr>bi_slug = ''season-and-flex-passes'', bi_title = ''Season & flex passes'', bi_category = CatHowTo, bi_visibility = VisManager\<rparr>,
      \<lparr>bi_slug = ''working-the-door'', bi_title = ''Working the door: scanning tickets'', bi_category = CatHowTo, bi_visibility = VisStaff\<rparr>,
      \<lparr>bi_slug = ''events-and-performances'', bi_title = ''Creating events and performances'', bi_category = CatHowTo, bi_visibility = VisManager\<rparr>,
      \<lparr>bi_slug = ''team-and-roles'', bi_title = ''Your team and what each role can do'', bi_category = CatHowTo, bi_visibility = VisManager\<rparr>,
      \<lparr>bi_slug = ''email-marketing-and-your-audience'', bi_title = ''Email marketing & your audience'', bi_category = CatHowTo, bi_visibility = VisManager\<rparr>,
      \<lparr>bi_slug = ''buyer-faq'', bi_title = ''Ticket buyer FAQ'', bi_category = CatGeneral, bi_visibility = VisPublic\<rparr>,
      \<lparr>bi_slug = ''venue-policies'', bi_title = ''Venue rules & accessibility'', bi_category = CatVenueRules, bi_visibility = VisPublic\<rparr>]"

definition builtins_readable_by :: "membership \<Rightarrow> builtin_article list" where
  "builtins_readable_by m = filter (\<lambda>b. bi_visibility b \<in> visibilities_readable_by m) BUILTIN_ARTICLES"

definition builtins_public :: "builtin_article list" where
  "builtins_public = filter (\<lambda>b. bi_visibility b = VisPublic) BUILTIN_ARTICLES"

datatype help_item = Own help_article | Shipped builtin_article

fun item_category :: "help_item \<Rightarrow> category" where
  "item_category (Own a) = art_category a"
| "item_category (Shipped b) = bi_category b"

text \<open>\<open>setdefault(...).append(...)\<close>, then the categories in the order of the choices.\<close>

definition group_by_category :: "help_article list \<Rightarrow> builtin_article list \<Rightarrow> (category \<times> help_item list) list" where
  "group_by_category articles shipped =
     (let add = (\<lambda>d i. d(item_category i := d (item_category i) @ [i]));
          by_category = foldl add (foldl add (\<lambda>_. []) (map Own articles)) (map Shipped shipped)
      in filter (\<lambda>(c, is). is \<noteq> []) (map (\<lambda>c. (c, by_category c)) category_choices))"

definition help_index :: "staff_request \<Rightarrow> accounts \<Rightarrow> help_state \<Rightarrow> access_error + ((category \<times> help_item list) list \<times> bool)" where
  "help_index rq acc st =
     bindE (resolve_staff_membership rq (\<lambda>_. True) acc) (\<lambda>m.
       Inr (group_by_category (readable_by (mem_organization m) m st) (builtins_readable_by m), can_manage_events m))"

text \<open>The storefront's page; none on the platform's own host.\<close>

definition public_faq :: "nat option \<Rightarrow> help_state \<Rightarrow> (category \<times> help_item list) list option" where
  "public_faq organization st =
     map_option (\<lambda>g. group_by_category (public_articles g st) builtins_public) organization"

end
