(* ===== verification/HelpFacts.thy ===== *)
theory HelpFacts
  imports HelpCenter
begin

text \<open>
  What the help center promises: a slug is always found, the authors' posts never meet the database's
  constraint, and a reader sees exactly the articles of the theater that are meant for the role.
\<close>

section \<open>Slugs\<close>

text \<open>The loop passes taken candidates only and stops at the first free one.\<close>

lemma unique_slug_loop_first:
  "unique_slug_loop taken base n candidate \<notin> set taken \<and>
   (unique_slug_loop taken base n candidate = candidate \<or>
    candidate \<in> set taken \<and>
    (\<exists>k\<ge>n. unique_slug_loop taken base n candidate = numbered_slug base k \<and>
           (\<forall>j. n \<le> j \<and> j < k \<longrightarrow> numbered_slug base j \<in> set taken)))"
proof (induction taken base n candidate rule: unique_slug_loop.induct)
  case (1 taken base n candidate)
  show ?case
  proof (cases "candidate \<in> set taken")
    case True
    let ?r = "unique_slug_loop taken base (Suc n) (numbered_slug base n)"
    have r: "unique_slug_loop taken base n candidate = ?r"
      using True by (subst unique_slug_loop.simps) simp
    have free: "?r \<notin> set taken" using 1 [OF True] by blast
    have "\<exists>k\<ge>n. ?r = numbered_slug base k \<and> (\<forall>j. n \<le> j \<and> j < k \<longrightarrow> numbered_slug base j \<in> set taken)"
    proof (cases "?r = numbered_slug base n")
      case here: True
      then show ?thesis by (intro exI [of _ n]) auto
    next
      case False
      with 1 [OF True] obtain k where n: "numbered_slug base n \<in> set taken" and k: "Suc n \<le> k"
        and rk: "?r = numbered_slug base k" and all: "\<forall>j. Suc n \<le> j \<and> j < k \<longrightarrow> numbered_slug base j \<in> set taken"
        by blast
      have "numbered_slug base j \<in> set taken" if "n \<le> j" "j < k" for j
        using n all that by (cases "j = n") auto
      then show ?thesis using k rk by (intro exI [of _ k]) auto
    qed
    with True free show ?thesis by (simp only: r) blast
  next
    case False
    then have "unique_slug_loop taken base n candidate = candidate"
      by (subst unique_slug_loop.simps) simp
    with False show ?thesis by simp
  qed
qed

lemma numbered_slug_other: "numbered_slug base k \<noteq> base"
  by (simp add: numbered_slug_def)

text \<open>Taken from 2 to \<open>k - 1\<close>, and the bare name too: that many articles there are.\<close>

lemma taken_run_bound:
  assumes "base \<in> set taken" and "\<forall>j. 2 \<le> j \<and> j < k \<longrightarrow> numbered_slug base j \<in> set taken"
  shows "k \<le> Suc (length taken)"
proof -
  have "insert base (numbered_slug base ` {2..<k}) \<subseteq> set taken" using assms by auto
  then have "card (insert base (numbered_slug base ` {2..<k})) \<le> card (set taken)" by (intro card_mono) auto
  moreover have "card (numbered_slug base ` {2..<k}) = k - 2"
    by (subst card_image) (auto simp: inj_on_def numbered_slug_inj)
  moreover have "base \<notin> numbered_slug base ` {2..<k}" using numbered_slug_other by (metis imageE)
  ultimately have "Suc (k - 2) \<le> card (set taken)" by simp
  with card_length [of taken] show ?thesis by linarith
qed

text \<open>
  Property C32. An article without a slug is given one: the slug of its title (or "article"), or that
  name with the least number from 2 on that no other article of the theater has; the search ends within
  as many numbers as the theater has articles, and the slug found is free.
\<close>

theorem blank_slug_is_derived:
  "let base = (if slugify title = [] then ''article'' else slugify title);
       taken = sibling_slugs organization pk st;
       slug = unique_slug slugify organization pk title st
   in slug \<notin> set taken \<and>
      (slug = base \<or>
       base \<in> set taken \<and>
       (\<exists>k. 2 \<le> k \<and> k \<le> Suc (length taken) \<and> slug = numbered_slug base k \<and>
            (\<forall>j. 2 \<le> j \<and> j < k \<longrightarrow> numbered_slug base j \<in> set taken)))"
proof -
  define base where "base = (if slugify title = [] then ''article'' else slugify title)"
  let ?taken = "sibling_slugs organization pk st"
  have slug: "unique_slug slugify organization pk title st = unique_slug_loop ?taken base 2 base"
    by (simp add: unique_slug_def base_def Let_def)
  have "k \<le> Suc (length ?taken)"
    if "base \<in> set ?taken" "\<forall>j. 2 \<le> j \<and> j < k \<longrightarrow> numbered_slug base j \<in> set ?taken" for k
    using taken_run_bound [OF that] .
  with unique_slug_loop_first [of ?taken base 2 base] show ?thesis
    unfolding Let_def base_def [symmetric] slug by blast
qed

text \<open>Articles named alike, a title that is one more: \<open>slugify\<close> here lowers letters.\<close>

definition parking_help :: help_state where
  "parking_help = \<lparr>help_next = 4, help_articles =
     map (\<lambda>(k, s). \<lparr>art_pk = k, art_organization = 1, art_title = ''Parking'', art_slug = s, art_summary = [], art_body = ''x'',
            art_category = CatGeneral, art_visibility = VisPublic, art_is_published = True, art_position = 0, art_created_by = None\<rparr>)
       [(1, ''parking''), (2, ''parking-2''), (3, ''parking-4'')]\<rparr>"

lemma parking_slugs: "set (sibling_slugs 1 None parking_help) = {''parking'', ''parking-2'', ''parking-4''}"
  by (auto simp: parking_help_def sibling_slugs_def)

lemma blank_slug_is_derived_witness: "unique_slug lower 1 None ''Parking'' parking_help = ''parking-3''"
proof -
  let ?slug = "unique_slug lower 1 None ''Parking'' parking_help"
  have base: "lower ''Parking'' = ''parking''" by code_simp
  have n: "numbered_slug ''parking'' 2 = ''parking-2''" "numbered_slug ''parking'' 3 = ''parking-3''" by code_simp+
  have t: "?slug \<notin> {''parking'', ''parking-2'', ''parking-4''} \<and>
      (?slug = ''parking'' \<or> (\<exists>k\<ge>2. ?slug = numbered_slug ''parking'' k \<and>
        (\<forall>j. 2 \<le> j \<and> j < k \<longrightarrow> numbered_slug ''parking'' j \<in> {''parking'', ''parking-2'', ''parking-4''})))"
    using blank_slug_is_derived [of lower "''Parking''" 1 None parking_help]
    unfolding base Let_def parking_slugs by auto
  then obtain k where k: "2 \<le> k" "?slug = numbered_slug ''parking'' k"
    and all: "\<forall>j. 2 \<le> j \<and> j < k \<longrightarrow> numbered_slug ''parking'' j \<in> {''parking'', ''parking-2'', ''parking-4''}" by auto
  have "k \<noteq> 2"
  proof
    assume "k = 2"
    then have "?slug = ''parking-2''" using k(2) n(1) by simp
    with t show False by simp
  qed
  moreover have "\<not> 3 < k"
  proof
    assume "3 < k"
    then have "numbered_slug ''parking'' 3 \<in> {''parking'', ''parking-2'', ''parking-4''}" using all by simp
    then show False unfolding n by simp
  qed
  ultimately have "k = 3" using k(1) by linarith
  with k n show ?thesis by simp
qed

section \<open>The authors' posts\<close>

text \<open>
  No two articles of a theater share a slug, and no slug is blank.
\<close>

definition slugs_apart :: "help_article list \<Rightarrow> bool" where
  "slugs_apart rows \<longleftrightarrow> (\<forall>a\<in>set rows. art_slug a \<noteq> []) \<and>
     (\<forall>a\<in>set rows. \<forall>b\<in>set rows. art_organization a = art_organization b \<and> art_slug a = art_slug b \<longrightarrow> art_pk a = art_pk b)"

definition help_wf :: "help_state \<Rightarrow> bool" where
  "help_wf st \<longleftrightarrow> well_keyed art_pk (help_next st) (help_articles st) \<and> slugs_apart (help_articles st)"

lemma slugs_apart_subset: "slugs_apart rows \<Longrightarrow> set rows' \<subseteq> set rows \<Longrightarrow> slugs_apart rows'"
  unfolding slugs_apart_def by blast

lemma slugs_apart_with:
  assumes "slugs_apart rows" and "set rows' \<subseteq> insert a {b \<in> set rows. art_pk b \<noteq> art_pk a}" and "art_slug a \<noteq> []"
    and "\<forall>b\<in>set rows. art_organization b = art_organization a \<and> art_pk b \<noteq> art_pk a \<longrightarrow> art_slug b \<noteq> art_slug a"
  shows "slugs_apart rows'"
proof -
  have mem: "b = a \<or> b \<in> set rows \<and> art_pk b \<noteq> art_pk a" if "b \<in> set rows'" for b
    using assms(2) that by blast
  have "art_slug b \<noteq> []" if "b \<in> set rows'" for b
    using mem [OF that] assms(1,3) unfolding slugs_apart_def by blast
  moreover have "art_pk b = art_pk c"
    if b: "b \<in> set rows'" and c: "c \<in> set rows'" and eq: "art_organization b = art_organization c" "art_slug b = art_slug c" for b c
  proof -
    have "b \<in> set rows \<and> c \<in> set rows \<or> b = a \<and> c = a"
      using mem [OF b] mem [OF c] eq assms(4) by metis
    then show ?thesis using assms(1) eq unfolding slugs_apart_def by blast
  qed
  ultimately show ?thesis unfolding slugs_apart_def by blast
qed

inductive help_step :: "(string \<Rightarrow> string) \<Rightarrow> help_state \<Rightarrow> help_state \<Rightarrow> bool" for slugify where
  create: "help_create slugify rq acc f st = (r, st') \<Longrightarrow> help_step slugify st st'"
| update: "help_update slugify rq acc pk f st = (r, st') \<Longrightarrow> help_step slugify st st'"
| delete: "help_delete rq acc pk st = (r, st') \<Longrightarrow> help_step slugify st st'"

inductive_cases help_stepE: "help_step slugify st st'"

definition no_articles :: "help_state \<Rightarrow> bool" where
  "no_articles st \<longleftrightarrow> help_articles st = []"

interpretation article_rows: model_table art_pk "\<lambda>k a. a\<lparr>art_pk := k\<rparr>"
  by unfold_locales simp

lemma saved_slug_free:
  assumes "help_errors slugify g pk f st = []"
  shows "saved_slug slugify g pk f st \<noteq> [] \<and> saved_slug slugify g pk f st \<notin> set (sibling_slugs g pk st)"
proof -
  let ?title = "the (hf_title f)"
  let ?base = "if slugify ?title = [] then ''article'' else slugify ?title"
  have u: "unique_slug slugify g pk ?title st \<notin> set (sibling_slugs g pk st)"
    using unique_slug_loop_first [of "sibling_slugs g pk st" ?base 2 ?base] by (simp add: unique_slug_def Let_def)
  have "unique_slug slugify g pk ?title st = ?base \<or> (\<exists>k. unique_slug slugify g pk ?title st = numbered_slug ?base k)"
    using unique_slug_loop_first [of "sibling_slugs g pk st" ?base 2 ?base] by (auto simp: unique_slug_def Let_def)
  then have n: "unique_slug slugify g pk ?title st \<noteq> []" by (auto simp: numbered_slug_def split: if_splits)
  obtain slug where c: "clean_slug slugify g pk f st = Inr slug"
    using assms by (auto simp: help_errors_def split: sum.splits)
  then have "slug = [] \<or> slug \<notin> set (sibling_slugs g pk st)"
    by (auto simp: clean_slug_def split: option.splits if_splits)
  with u n c show ?thesis by (auto simp: saved_slug_def)
qed

lemma sibling_slugs_iff:
  "s \<in> set (sibling_slugs g pk st) \<longleftrightarrow>
   (\<exists>a\<in>set (help_articles st). art_organization a = g \<and> Some (art_pk a) \<noteq> pk \<and> art_slug a = s)"
  by (auto simp: sibling_slugs_def)

lemma write_article_simps [simp]:
  "art_pk (write_article g f slug a) = art_pk a" "art_organization (write_article g f slug a) = g"
  "art_slug (write_article g f slug a) = slug" "art_is_published (write_article g f slug a) = hf_is_published f"
  by (simp_all add: write_article_def)

lemma article_at_Some:
  "article_at g pk st = Some a \<Longrightarrow> a \<in> set (help_articles st) \<and> art_pk a = pk \<and> art_organization a = g"
  by (auto simp: article_at_def dest: first_row_Some)

lemma help_wf_add:
  assumes "help_wf st" and "art_pk a = help_next st" and "art_slug a \<noteq> []"
    and free: "\<forall>b\<in>set (help_articles st). art_organization b = art_organization a \<longrightarrow> art_slug b \<noteq> art_slug a"
  shows "help_wf (st\<lparr>help_articles := help_articles st @ [a], help_next := Suc (help_next st)\<rparr>)"
proof -
  have stamped: "a\<lparr>art_pk := help_next st\<rparr> = a" using assms(2) by (cases a) simp
  have "well_keyed art_pk (Suc (help_next st)) (help_articles st @ [a])"
    using article_rows.insert_keyed [of "help_next st" "help_articles st" a] assms(1) stamped by (simp add: help_wf_def)
  moreover have "slugs_apart (help_articles st @ [a])"
    by (rule slugs_apart_with [of "help_articles st" _ a]) (use assms in \<open>auto simp: help_wf_def well_keyed_def\<close>)
  ultimately show ?thesis by (simp add: help_wf_def)
qed

lemma help_wf_replace:
  assumes "help_wf st" and "art_slug a \<noteq> []"
    and free: "\<forall>b\<in>set (help_articles st). art_organization b = art_organization a \<and> art_pk b \<noteq> art_pk a \<longrightarrow> art_slug b \<noteq> art_slug a"
  shows "help_wf (st\<lparr>help_articles := update_rows (\<lambda>x. art_pk x = art_pk a) (\<lambda>_. a) (help_articles st)\<rparr>)"
proof -
  let ?rows = "update_rows (\<lambda>x. art_pk x = art_pk a) (\<lambda>_. a) (help_articles st)"
  have same: "?rows = update_rows (\<lambda>x. art_pk x = art_pk a) (\<lambda>x. a\<lparr>art_pk := art_pk x\<rparr>) (help_articles st)"
    by (simp add: update_rows_def)
  have k: "well_keyed art_pk (help_next st) ?rows"
    unfolding same by (rule article_rows.update_keyed) (use assms(1) in \<open>simp_all add: help_wf_def\<close>)
  have "slugs_apart ?rows"
    by (rule slugs_apart_with [of "help_articles st" _ a]) (use assms in \<open>auto simp: help_wf_def set_update_rows\<close>)
  with k show ?thesis by (simp add: help_wf_def)
qed

lemma help_create_saves:
  assumes wf: "help_wf st" and post: "help_create slugify rq acc f st = (r, st')"
  shows "help_wf st' \<and> r \<noteq> HelpCrash c"
proof (cases "resolve_staff_membership rq can_manage_events acc")
  case (Inl e)
  with post wf show ?thesis by (auto simp: help_create_def)
next
  case (Inr m)
  let ?g = "mem_organization m"
  let ?slug = "saved_slug slugify ?g None f st"
  let ?a = "write_article ?g f ?slug
    \<lparr>art_pk = help_next st, art_organization = ?g, art_title = [], art_slug = [], art_summary = [], art_body = [],
     art_category = CatGeneral, art_visibility = VisStaff, art_is_published = True, art_position = 0, art_created_by = req_user rq\<rparr>"
  have keyed: "well_keyed art_pk (help_next st) (help_articles st)" using wf by (simp add: help_wf_def)
  show ?thesis
  proof (cases "help_errors slugify ?g None f st = []")
    case False
    with post wf Inr show ?thesis by (auto simp: help_create_def Let_def)
  next
    case True
    from saved_slug_free [OF True] have s: "?slug \<noteq> []"
      and free: "\<forall>a\<in>set (help_articles st). art_organization a = ?g \<longrightarrow> art_slug a \<noteq> ?slug"
      by (auto simp: sibling_slugs_iff)
    have nc: "\<not> help_slug_clash ?a st" using free by (auto simp: help_slug_clash_def)
    have res: "r = HelpSaved (help_next st)"
      "st' = st\<lparr>help_articles := help_articles st @ [?a], help_next := Suc (help_next st)\<rparr>"
      using post Inr True nc by (auto simp: help_create_def Let_def)
    show ?thesis unfolding res(2) using res(1) help_wf_add [OF wf, of ?a] s free by simp
  qed
qed

lemma help_update_saves:
  assumes wf: "help_wf st" and post: "help_update slugify rq acc pk f st = (r, st')"
  shows "help_wf st' \<and> r \<noteq> HelpCrash c"
proof (cases "resolve_staff_membership rq can_manage_events acc")
  case (Inl e)
  with post wf show ?thesis by (auto simp: help_update_def)
next
  case (Inr m)
  let ?g = "mem_organization m"
  let ?slug = "saved_slug slugify ?g (Some pk) f st"
  show ?thesis
  proof (cases "article_at ?g pk st")
    case None
    with post wf Inr show ?thesis by (auto simp: help_update_def)
  next
    case (Some a0)
    from article_at_Some [OF Some] have a0: "art_pk a0 = pk" by simp
    show ?thesis
    proof (cases "help_errors slugify ?g (Some pk) f st = []")
      case False
      with post wf Inr Some show ?thesis by (auto simp: help_update_def Let_def)
    next
      case True
      let ?a = "write_article ?g f ?slug a0"
      from saved_slug_free [OF True] have s: "?slug \<noteq> []"
        and free: "\<forall>a\<in>set (help_articles st). art_organization a = ?g \<and> art_pk a \<noteq> pk \<longrightarrow> art_slug a \<noteq> ?slug"
        by (auto simp: sibling_slugs_iff)
      have nc: "\<not> help_slug_clash ?a st" using free a0 by (auto simp: help_slug_clash_def)
      have res: "r = HelpSaved pk"
        "st' = st\<lparr>help_articles := update_rows (\<lambda>x. art_pk x = art_pk ?a) (\<lambda>_. ?a) (help_articles st)\<rparr>"
        using post Inr Some True nc a0 by (simp_all add: help_update_def Let_def)
      show ?thesis unfolding res(2) using res(1) help_wf_replace [OF wf, of ?a] s free a0 by simp
    qed
  qed
qed

lemma help_delete_keeps:
  assumes wf: "help_wf st" and post: "help_delete rq acc pk st = (r, st')"
  shows "help_wf st'"
proof -
  have out: "st' = st \<or> st' = st\<lparr>help_articles := delete_rows (\<lambda>x. art_pk x = pk) (help_articles st)\<rparr>"
    using post by (auto simp: help_delete_def split: sum.splits option.splits)
  have "well_keyed art_pk (help_next st) (delete_rows (\<lambda>x. art_pk x = pk) (help_articles st))"
    using wf by (simp add: help_wf_def article_rows.delete_keyed)
  moreover have "slugs_apart (delete_rows (\<lambda>x. art_pk x = pk) (help_articles st))"
    by (rule slugs_apart_subset [of "help_articles st"]) (use wf in \<open>auto simp: help_wf_def\<close>)
  ultimately have "help_wf (st\<lparr>help_articles := delete_rows (\<lambda>x. art_pk x = pk) (help_articles st)\<rparr>)"
    by (simp add: help_wf_def)
  with out wf show ?thesis by auto
qed

interpretation help_inv: inductive_invariant no_articles "help_step slugify" help_wf for slugify
proof unfold_locales
  show "help_wf st" if "no_articles st" for st
    using that by (simp add: no_articles_def help_wf_def well_keyed_def slugs_apart_def)
  show "help_wf t" if "help_wf s" "help_step slugify s t" for s t
    using that(2,1)
  proof (cases rule: help_step.cases)
    case (create rq acc f r)
    with that(1) show ?thesis using help_create_saves by blast
  next
    case (update rq acc pk f r)
    with that(1) show ?thesis using help_update_saves by blast
  next
    case (delete rq acc pk r)
    with that(1) show ?thesis using help_delete_keeps by blast
  qed
qed

text \<open>
  Whatever articles the authors create, change and delete, no two articles of a theater
  share a slug and none is blank, and every next post is answered by a page or a form with its errors:
  none meets the database's constraint on slugs.
\<close>

theorem help_posts_keep_slugs_apart:
  assumes "reachable no_articles (help_step slugify) st"
  shows "slugs_apart (help_articles st) \<and> fst (help_create slugify rq acc f st) \<noteq> HelpCrash c \<and>
     fst (help_update slugify rq acc pk f st) \<noteq> HelpCrash c"
proof -
  have wf: "help_wf st" using help_inv.reachable_inv [OF assms] .
  moreover have "fst (help_create slugify rq acc f st) \<noteq> HelpCrash c"
    using help_create_saves [OF wf, of slugify rq acc f] by (metis prod.collapse)
  moreover have "fst (help_update slugify rq acc pk f st) \<noteq> HelpCrash c"
    using help_update_saves [OF wf, of slugify rq acc pk f] by (metis prod.collapse)
  ultimately show ?thesis by (simp add: help_wf_def)
qed

text \<open>A manager posts the same untitled-slug form twice; the second article gets another slug.\<close>

definition parking_post :: help_fields where
  "parking_post = \<lparr>hf_title = Some ''Parking'', hf_slug = Some [], hf_summary = [], hf_body = Some ''Behind the house.'',
     hf_category = Some CatVenueRules, hf_visibility = Some VisPublic, hf_position = Some 0, hf_is_published = True\<rparr>"

definition after_posts :: help_state where
  "after_posts = snd (help_create lower as_max roxy_staff parking_post
     (snd (help_create lower as_max roxy_staff parking_post \<lparr>help_next = 1, help_articles = []\<rparr>)))"

lemma after_posts_reached: "reachable no_articles (help_step lower) after_posts"
  unfolding after_posts_def
  by (rule reachable.move [OF reachable.move [OF reachable.start]])
     (auto simp: no_articles_def intro!: help_step.create surjective_pairing)

lemma help_posts_keep_slugs_apart_witness:
  "slugs_apart (help_articles after_posts) \<and>
   fst (help_create lower as_max roxy_staff parking_post after_posts) \<noteq> HelpCrash UniqueHelpSlug"
  using help_posts_keep_slugs_apart [OF after_posts_reached, of as_max roxy_staff parking_post UniqueHelpSlug 1] by blast

section \<open>Readers\<close>

text \<open>Who a visibility is for.\<close>

fun meant_for :: "visibility \<Rightarrow> staff_role \<Rightarrow> bool" where
  "meant_for VisPublic r \<longleftrightarrow> True"
| "meant_for VisStaff r \<longleftrightarrow> True"
| "meant_for VisBoxOffice r \<longleftrightarrow> BOX_OFFICE \<le> r"
| "meant_for VisManager r \<longleftrightarrow> MANAGER \<le> r"
| "meant_for VisOwner r \<longleftrightarrow> OWNER \<le> r"

lemma readable_meant: "v \<in> visibilities_readable_by m \<longleftrightarrow> meant_for v (mem_role m)"
  by (cases v) (simp_all add: visibilities_readable_by_def role_order)

lemma foldl_groups:
  "foldl (\<lambda>d i. d(item_category i := d (item_category i) @ [i])) d items c = d c @ filter (\<lambda>i. item_category i = c) items"
  by (induction items arbitrary: d) simp_all

definition category_items :: "help_item list \<Rightarrow> category \<Rightarrow> help_item list" where
  "category_items items c = filter (\<lambda>i. item_category i = c) items"

lemma group_by_category_filter:
  "group_by_category own shipped =
     filter (\<lambda>(c, is). is \<noteq> []) (map (\<lambda>c. (c, category_items (map Own own @ map Shipped shipped) c)) category_choices)"
  unfolding group_by_category_def Let_def foldl_groups category_items_def by simp

lemma category_items_set:
  "set (concat (map snd (filter (\<lambda>(c, is). is \<noteq> []) (map (\<lambda>c. (c, category_items items c)) cs)))) =
   {i \<in> set items. item_category i \<in> set cs}"
  by (induction cs) (auto simp: category_items_def filter_empty_conv)

lemma grouped_set: "set (concat (map snd (group_by_category own shipped))) = Own ` set own \<union> Shipped ` set shipped"
proof -
  have "c \<in> set category_choices" for c by (cases c) (simp_all add: category_choices_def)
  then show ?thesis unfolding group_by_category_filter category_items_set by auto
qed

lemma distinct_grouped:
  assumes "distinct items" and "distinct cs"
  shows "distinct (concat (map snd (filter (\<lambda>(c, is). is \<noteq> []) (map (\<lambda>c. (c, category_items items c)) cs))))"
  using assms(2)
proof (induction cs)
  case (Cons c cs)
  have "set (category_items items c) \<inter> set (concat (map snd (filter (\<lambda>(c, is). is \<noteq> []) (map (\<lambda>c. (c, category_items items c)) cs)))) = {}"
    using Cons.prems by (auto simp: category_items_def)
  with Cons assms(1) show ?case by (auto simp: category_items_def)
qed simp

lemma shipped_distinct: "distinct (map Shipped BUILTIN_ARTICLES)"
proof -
  have "distinct (map bi_slug BUILTIN_ARTICLES)" by code_simp
  then show ?thesis by (auto simp: distinct_map inj_on_def)
qed

lemma items_distinct:
  assumes "well_keyed art_pk n rows"
  shows "distinct (map Own (order_by k (filter P rows)) @ map Shipped (filter Q BUILTIN_ARTICLES))"
proof -
  have "distinct rows" using article_rows.keyed_distinct [OF assms] distinct_map by blast
  moreover have "distinct BUILTIN_ARTICLES" using shipped_distinct distinct_map by blast
  ultimately show ?thesis by (auto simp: distinct_map inj_on_def order_by_def)
qed

text \<open>
  A member of staff who opens the help section sees the theater's published articles that
  are meant for the role and the built-in ones that are, each once and under its own category, and
  nothing of another theater, no draft, nothing meant for a higher role; the public questions page of
  the theater shows a part of that.
\<close>

theorem staff_read_what_is_meant_for_them:
  assumes "reachable no_articles (help_step slugify) st"
    and "resolve_staff_membership rq (\<lambda>_. True) acc = Inr m"
    and "help_index rq acc st = Inr (groups, can)"
    and "public_faq (Some (mem_organization m)) st = Some faq"
  shows "set (concat (map snd groups)) =
       Own ` {a \<in> set (help_articles st). art_organization a = mem_organization m \<and> art_is_published a \<and>
                meant_for (art_visibility a) (mem_role m)} \<union>
       Shipped ` {b \<in> set BUILTIN_ARTICLES. meant_for (bi_visibility b) (mem_role m)} \<and>
     distinct (concat (map snd groups)) \<and>
     (\<forall>(c, is)\<in>set groups. \<forall>i\<in>set is. item_category i = c) \<and>
     set (concat (map snd faq)) \<subseteq> set (concat (map snd groups))"
proof -
  have wf: "well_keyed art_pk (help_next st) (help_articles st)"
    using help_inv.reachable_inv [OF assms(1)] by (simp add: help_wf_def)
  have g: "groups = group_by_category (readable_by (mem_organization m) m st) (builtins_readable_by m)"
    using assms(2,3) by (simp add: help_index_def)
  have f: "faq = group_by_category (public_articles (mem_organization m) st) builtins_public"
    using assms(4) by (simp add: public_faq_def)
  have d: "distinct (concat (map snd groups))"
    unfolding g group_by_category_filter readable_by_def builtins_readable_by_def
    by (rule distinct_grouped [OF items_distinct [OF wf]]) (simp add: category_choices_def)
  have c: "\<forall>(c, is)\<in>set groups. \<forall>i\<in>set is. item_category i = c"
    unfolding g group_by_category_filter by (auto simp: category_items_def)
  have s: "set (concat (map snd groups)) =
       Own ` {a \<in> set (help_articles st). art_organization a = mem_organization m \<and> art_is_published a \<and>
                meant_for (art_visibility a) (mem_role m)} \<union>
       Shipped ` {b \<in> set BUILTIN_ARTICLES. meant_for (bi_visibility b) (mem_role m)}"
    unfolding g grouped_set by (simp add: readable_by_def builtins_readable_by_def order_by_def readable_meant)
  have "set (concat (map snd faq)) \<subseteq> set (concat (map snd groups))"
    unfolding s f grouped_set by (auto simp: public_articles_def builtins_public_def order_by_def)
  with s d c show ?thesis by blast
qed

text \<open>Max, the manager, after his two posts.\<close>

lemma staff_read_what_is_meant_for_them_witness:
  "\<exists>groups can. help_index as_max roxy_staff after_posts = Inr (groups, can) \<and>
     Shipped ` {b \<in> set BUILTIN_ARTICLES. meant_for (bi_visibility b) MANAGER} \<subseteq> set (concat (map snd groups)) \<and>
     distinct (concat (map snd groups))"
proof -
  let ?m = "\<lparr>mem_pk = 12, mem_user = 2, mem_organization = 1, mem_role = MANAGER\<rparr>"
  have m: "resolve_staff_membership as_max (\<lambda>_. True) roxy_staff = Inr ?m"
    by (simp add: resolve_staff_membership_def get_membership_def as_max_def roxy_staff_def)
  obtain groups can where i: "help_index as_max roxy_staff after_posts = Inr (groups, can)"
    using m by (simp add: help_index_def)
  obtain faq where "public_faq (Some (mem_organization ?m)) after_posts = Some faq" by (simp add: public_faq_def)
  from staff_read_what_is_meant_for_them [OF after_posts_reached m i this] i show ?thesis by auto
qed

end
