(* ===== verification/PublicSite.thy ===== *)
theory PublicSite
  imports Portal
begin

text \<open>
  The public pages of a host: tenants/views.py (robots, sitemap, home, the contact form of the
  platform's landing page), tenants/forms.py, tenants/emails.py and events/views.py (the page of an
  event). \<open>site\<close> is the scheme and host that \<open>build_absolute_uri\<close> puts before a path; \<open>deliver\<close> is the
  mail transport, true when it takes the message.
\<close>

section \<open>What is on\<close>

text \<open>Events are ordered by creation, the newest first; performances by their start.\<close>

definition published_events :: "nat \<Rightarrow> db \<Rightarrow> event list" where
  "published_events organization s =
     rev (filter (\<lambda>e. event_organization e = organization \<and> event_status e = EVENT_PUBLISHED) (db_events s))"

definition performances_all :: "event \<Rightarrow> db \<Rightarrow> performance list" where
  "performances_all e s = order_by perf_starts_at (filter (\<lambda>p. perf_event p = event_pk e) (db_performances s))"

definition upcoming :: "time \<Rightarrow> performance \<Rightarrow> bool" where
  "upcoming now p \<longleftrightarrow> perf_status p = PERF_PUBLISHED \<and> now \<le> perf_starts_at p"

definition published_upcoming_events :: "nat \<Rightarrow> time \<Rightarrow> db \<Rightarrow> event list" where
  "published_upcoming_events organization now s =
     filter (\<lambda>e. list_ex (upcoming now) (performances_all e s)) (published_events organization s)"

section \<open>Crawlers\<close>

definition robots_txt :: "string \<Rightarrow> string list" where
  "robots_txt site =
     [''User-agent: *'', ''Disallow: /dashboard/'', ''Disallow: /scan/'', ''Disallow: /S/'', ''Disallow: /cart/'',
      ''Disallow: /checkout/'', ''Disallow: /account/'', ''Disallow: /admin/'', ''Disallow: /login/'',
      ''Sitemap: '' @ site @ ''/sitemap.xml'']"

text \<open>\<open>reverse\<close> of the route \<open>events/<slug:slug>/\<close>: none (\<open>NoReverseMatch\<close>) when the slug does not fit the route.\<close>

definition slug_char :: "char \<Rightarrow> bool" where
  "slug_char c \<longleftrightarrow> c = CHR ''-'' \<or> c = CHR ''_'' \<or> is_digit c \<or> 65 \<le> code_pt c \<and> code_pt c \<le> 90 \<or> 97 \<le> code_pt c \<and> code_pt c \<le> 122"

definition fits_slug_route :: "string \<Rightarrow> bool" where
  "fits_slug_route slug \<longleftrightarrow> slug \<noteq> [] \<and> list_all slug_char slug"

definition event_path :: "string \<Rightarrow> string option" where
  "event_path slug = (if fits_slug_route slug then Some (''/events/'' @ slug @ ''/'') else None)"

fun event_urls :: "string \<Rightarrow> event list \<Rightarrow> string list option" where
  "event_urls site [] = Some []"
| "event_urls site (e # es) =
     (case event_path (event_slug e) of
        None \<Rightarrow> None
      | Some p \<Rightarrow> map_option (\<lambda>us. (site @ p) # us) (event_urls site es))"

definition sitemap_urls :: "string \<Rightarrow> nat option \<Rightarrow> time \<Rightarrow> db \<Rightarrow> string list option" where
  "sitemap_urls site organization now s =
     (case organization of
        None \<Rightarrow> Some [site @ ''/'']
      | Some g \<Rightarrow>
          map_option (\<lambda>us. (site @ ''/'') # (site @ ''/faq/'') # us) (event_urls site (published_upcoming_events g now s)))"

definition sitemap_xml :: "string \<Rightarrow> nat option \<Rightarrow> time \<Rightarrow> db \<Rightarrow> string list option" where
  "sitemap_xml site organization now s =
     map_option (\<lambda>urls.
       [''<?xml version=\"1.0\" encoding=\"UTF-8\"?>'',
        ''<urlset xmlns=\"http://www.sitemaps.org/schemas/sitemap/0.9\">''] @
       map (\<lambda>url. ''  <url><loc>'' @ url @ ''</loc></url>'') urls @ [''</urlset>''])
       (sitemap_urls site organization now s)"

section \<open>The home page\<close>

definition least_amount :: "cents list \<Rightarrow> cents option" where
  "least_amount xs = (case xs of [] \<Rightarrow> None | x # r \<Rightarrow> Some (foldl min x r))"

definition performance_available :: "performance \<Rightarrow> time \<Rightarrow> db \<Rightarrow> int" where
  "performance_available p now s =
     (if perf_seating_mode p = GA then ga_available p None now s else int (reserved_available_count p now s))"

definition card_pricing_and_availability :: "performance \<Rightarrow> time \<Rightarrow> db \<Rightarrow> cents option \<times> int" where
  "card_pricing_and_availability p now s =
     (let tiers = (if perf_seating_mode p = GA then filter (\<lambda>t. tier_performance t = Some (perf_pk p)) (db_tiers s)
                   else List.map_filter (price_tiers_by_section p s) (map section_pk (db_sections s)))
      in (least_amount (map tier_amount tiers), performance_available p now s))"

record home_card =
  hc_event :: event
  hc_performances :: "performance list"
  hc_min_price :: "cents option"
  hc_available :: int

datatype home_page = PlatformLanding bool | StorefrontHome "home_card list"

text \<open>The card of an event, if anything of it is still to come.\<close>

definition card_of :: "time \<Rightarrow> db \<Rightarrow> event \<Rightarrow> home_card option" where
  "card_of now s e =
     (case order_by perf_starts_at (filter (upcoming now) (performances_all e s)) of
        [] \<Rightarrow> None
      | p # ps \<Rightarrow>
          (let (price, available) = card_pricing_and_availability p now s
           in Some \<lparr>hc_event = e, hc_performances = p # ps, hc_min_price = price, hc_available = available\<rparr>))"

definition home_cards :: "nat \<Rightarrow> time \<Rightarrow> db \<Rightarrow> home_card list" where
  "home_cards organization now s =
     order_by (\<lambda>card. perf_starts_at (hd (hc_performances card)))
       (List.map_filter (card_of now s) (published_events organization s))"

definition home :: "nat option \<Rightarrow> (string \<Rightarrow> string option) \<Rightarrow> time \<Rightarrow> db \<Rightarrow> home_page" where
  "home organization query now s =
     (case organization of
        None \<Rightarrow> PlatformLanding (query ''sent'' = Some ''1'')
      | Some g \<Rightarrow> StorefrontHome (home_cards g now s))"

section \<open>The page of an event\<close>

datatype event_page = EventMissing | EventPage event "(performance \<times> int) list"

definition event_detail :: "nat option \<Rightarrow> string \<Rightarrow> time \<Rightarrow> db \<Rightarrow> event_page" where
  "event_detail organization slug now s =
     (case organization of
        None \<Rightarrow> EventMissing
      | Some g \<Rightarrow>
          (case first_row (filter (\<lambda>e. event_organization e = g \<and> event_slug e = slug \<and> event_status e = EVENT_PUBLISHED) (db_events s)) of
             None \<Rightarrow> EventMissing
           | Some e \<Rightarrow>
               EventPage e (map (\<lambda>p. (p, performance_available p now s))
                 (order_by perf_starts_at (filter (\<lambda>p. perf_organization p = g \<and> perf_event p = event_pk e \<and>
                    perf_status p = PERF_PUBLISHED \<and> now \<le> perf_starts_at p) (db_performances s))))))"

section \<open>The contact form\<close>

record contact_fields =
  cf_name :: "string option"
  cf_email :: "string option"
  cf_venue :: "string option"
  cf_message :: "string option"
  cf_website :: "string option"

record contact_inquiry =
  ci_pk :: nat
  ci_name :: string
  ci_email :: string
  ci_venue :: string
  ci_message :: string
  ci_is_handled :: bool

record contact_box =
  cb_next :: nat
  cb_inquiries :: "contact_inquiry list"
  cb_cache :: cache

record contact_settings =
  cs_throttle :: throttle_settings
  cs_smtp :: bool
  cs_from_email :: string
  cs_platform_email :: string

record contact_mail =
  cm_subject :: string
  cm_body :: "string list"
  cm_from :: string
  cm_to :: string
  cm_reply_to :: string

text \<open>Every field's cleaning is Django's: a field it rejects has no value (an optional blank one has the empty text).\<close>

definition contact_form_is_valid :: "contact_fields \<Rightarrow> bool" where
  "contact_form_is_valid f \<longleftrightarrow> cf_name f \<noteq> None \<and> cf_email f \<noteq> None \<and> cf_venue f \<noteq> None \<and> cf_message f \<noteq> None \<and> cf_website f \<noteq> None"

definition is_spam :: "contact_fields \<Rightarrow> bool" where
  "is_spam f \<longleftrightarrow> or_blank (cf_website f) \<noteq> []"

definition inquiry_of :: "nat \<Rightarrow> contact_fields \<Rightarrow> contact_inquiry" where
  "inquiry_of k f = \<lparr>ci_pk = k, ci_name = the (cf_name f), ci_email = the (cf_email f), ci_venue = the (cf_venue f),
     ci_message = the (cf_message f), ci_is_handled = False\<rparr>"

definition inquiry_mail :: "contact_settings \<Rightarrow> contact_inquiry \<Rightarrow> contact_mail" where
  "inquiry_mail cfg i =
     \<lparr>cm_subject = ''New contact inquiry from '' @ ci_name i,
      cm_body = [''Name:  '' @ ci_name i, ''Email: '' @ ci_email i] @
        (if ci_venue i \<noteq> [] then [''Venue: '' @ ci_venue i] else []) @
        [[], ci_message i, [], ''Review and mark handled in /admin.''],
      cm_from = cs_from_email cfg, cm_to = cs_platform_email cfg, cm_reply_to = ci_email i\<rparr>"

text \<open>The mail that goes out, if one does: an exception of the transport is logged and swallowed.\<close>

definition notify_contact_inquiry :: "contact_settings \<Rightarrow> (contact_mail \<Rightarrow> bool) \<Rightarrow> contact_inquiry \<Rightarrow> contact_mail option" where
  "notify_contact_inquiry cfg deliver i =
     (if \<not> cs_smtp cfg then None
      else if deliver (inquiry_mail cfg i) then Some (inquiry_mail cfg i) else None)"

datatype contact_response = ContactMissing | ToContactSection | LandingWithErrors | LandingTooMany | ThankYou

definition contact ::
    "contact_settings \<Rightarrow> (contact_mail \<Rightarrow> bool) \<Rightarrow> nat option \<Rightarrow> bool \<Rightarrow> contact_fields \<Rightarrow> string \<Rightarrow> time \<Rightarrow> contact_box \<Rightarrow>
       contact_response \<times> contact_box \<times> contact_mail option" where
  "contact cfg deliver organization is_post f ip now box =
     (if organization \<noteq> None then (ContactMissing, box, None)
      else if \<not> is_post then (ToContactSection, box, None)
      else if \<not> contact_form_is_valid f then (LandingWithErrors, box, None)
      else if is_spam f then (ThankYou, box, None)
      else if is_locked_out (cs_throttle cfg) ''platform-contact'' ip (cb_cache box) now then (LandingTooMany, box, None)
      else
        (let i = inquiry_of (cb_next box) f
         in (ThankYou,
             \<lparr>cb_next = Suc (cb_next box), cb_inquiries = cb_inquiries box @ [i],
              cb_cache = snd (register_failure (cs_throttle cfg) ''platform-contact'' ip (cb_cache box) now)\<rparr>,
             notify_contact_inquiry cfg deliver i)))"

end
