(* ===== verification/PublicFacts.thy ===== *)
theory PublicFacts
  imports PublicSite
begin

text \<open>
  What the public pages promise: the home page, the sitemap and the event pages of a theater tell the
  same story, and the contact form keeps a bounded number of messages per address.
\<close>

section \<open>The house's pages\<close>

lemma order_by_filter_again: "order_by k (filter P (order_by k xs)) = order_by k (filter P xs)"
  by (simp add: order_by_def filter_sort sort_key_id_if_sorted)

lemma card_of_Some:
  assumes "card_of now s e = Some c"
  shows "hc_event c = e \<and> hc_performances c = order_by perf_starts_at (filter (upcoming now) (performances_all e s)) \<and>
     hc_performances c \<noteq> [] \<and> hc_available c = performance_available (hd (hc_performances c)) now s"
  using assms by (auto simp: card_of_def card_pricing_and_availability_def Let_def split: list.splits)

lemma card_of_None: "card_of now s e = None \<longleftrightarrow> \<not> list_ex (upcoming now) (performances_all e s)"
proof -
  have "card_of now s e = None \<longleftrightarrow> order_by perf_starts_at (filter (upcoming now) (performances_all e s)) = []"
    by (auto simp: card_of_def card_pricing_and_availability_def Let_def split: list.splits)
  also have "\<dots> \<longleftrightarrow> filter (upcoming now) (performances_all e s) = []"
    unfolding order_by_def by (metis length_0_conv length_sort)
  finally show ?thesis by (auto simp: filter_empty_conv list_ex_iff)
qed

lemma set_home_cards: "set (home_cards g now s) = {c. \<exists>e\<in>set (published_events g s). card_of now s e = Some c}"
  unfolding home_cards_def order_by_def by (force simp: List.map_filter_def image_iff)

lemma home_events: "hc_event ` set (home_cards g now s) = set (published_upcoming_events g now s)"
proof
  show "hc_event ` set (home_cards g now s) \<subseteq> set (published_upcoming_events g now s)"
  proof
    fix e assume "e \<in> hc_event ` set (home_cards g now s)"
    then obtain c where c: "c \<in> set (home_cards g now s)" and e: "e = hc_event c" by blast
    then obtain e' where e': "e' \<in> set (published_events g s)" "card_of now s e' = Some c" by (auto simp: set_home_cards)
    have "hc_event c = e'" using card_of_Some [OF e'(2)] by simp
    moreover have "list_ex (upcoming now) (performances_all e' s)" using e'(2) card_of_None [of now s e'] by auto
    ultimately show "e \<in> set (published_upcoming_events g now s)" using e e'(1) by (simp add: published_upcoming_events_def)
  qed
  show "set (published_upcoming_events g now s) \<subseteq> hc_event ` set (home_cards g now s)"
  proof
    fix e assume "e \<in> set (published_upcoming_events g now s)"
    then have e: "e \<in> set (published_events g s)" and "list_ex (upcoming now) (performances_all e s)"
      by (auto simp: published_upcoming_events_def)
    then obtain c where c: "card_of now s e = Some c" using card_of_None [of now s e] by (cases "card_of now s e") auto
    then have "c \<in> set (home_cards g now s)" using e by (auto simp: set_home_cards)
    moreover have "hc_event c = e" using card_of_Some [OF c] by simp
    ultimately show "e \<in> hc_event ` set (home_cards g now s)" by blast
  qed
qed

lemma event_urls_fit:
  "\<forall>e\<in>set es. fits_slug_route (event_slug e) \<Longrightarrow>
   event_urls site es = Some (map (\<lambda>e. site @ ''/events/'' @ event_slug e @ ''/'') es)"
  by (induction es) (simp_all add: event_path_def)

lemma event_found:
  assumes "distinct (map (\<lambda>e. (event_organization e, event_slug e)) rows)" and "e \<in> set rows"
    and "event_organization e = g" and "event_status e = EVENT_PUBLISHED"
  shows "first_row (filter (\<lambda>x. event_organization x = g \<and> event_slug x = event_slug e \<and> event_status x = EVENT_PUBLISHED) rows) = Some e"
proof (cases "first_row (filter (\<lambda>x. event_organization x = g \<and> event_slug x = event_slug e \<and> event_status x = EVENT_PUBLISHED) rows)")
  case None
  with assms(2-4) show ?thesis by (auto simp: filter_empty_conv)
next
  case (Some x)
  then have x: "x \<in> set rows" "event_organization x = g" "event_slug x = event_slug e" by (auto dest: first_row_Some)
  have "inj_on (\<lambda>e. (event_organization e, event_slug e)) (set rows)" using assms(1) by (simp add: distinct_map)
  then have "x = e" using x assms(2,3) by (auto dest: inj_onD)
  with Some show ?thesis by simp
qed

lemma card_page:
  assumes house: "\<forall>p\<in>set (db_performances s). \<forall>e\<in>set (db_events s). perf_event p = event_pk e \<longrightarrow> perf_organization p = event_organization e"
    and slugs: "distinct (map (\<lambda>e. (event_organization e, event_slug e)) (db_events s))"
    and c: "c \<in> set (home_cards g now s)"
  shows "event_organization (hc_event c) = g \<and>
     event_detail (Some g) (event_slug (hc_event c)) now s =
       EventPage (hc_event c) (map (\<lambda>p. (p, performance_available p now s)) (hc_performances c)) \<and>
     hc_performances c \<noteq> [] \<and> hc_available c = performance_available (hd (hc_performances c)) now s"
proof -
  obtain e where e: "e \<in> set (published_events g s)" and ce: "card_of now s e = Some c" using c by (auto simp: set_home_cards)
  then have row: "e \<in> set (db_events s)" "event_organization e = g" "event_status e = EVENT_PUBLISHED"
    by (auto simp: published_events_def)
  note facts = card_of_Some [OF ce]
  have "hc_performances c = order_by perf_starts_at (filter (upcoming now) (filter (\<lambda>p. perf_event p = event_pk e) (db_performances s)))"
    using facts by (simp add: performances_all_def order_by_filter_again)
  also have "filter (upcoming now) (filter (\<lambda>p. perf_event p = event_pk e) (db_performances s)) =
      filter (\<lambda>p. perf_organization p = g \<and> perf_event p = event_pk e \<and> perf_status p = PERF_PUBLISHED \<and> now \<le> perf_starts_at p) (db_performances s)"
    unfolding filter_filter using house row by (intro filter_cong) (auto simp: upcoming_def)
  finally have "event_detail (Some g) (event_slug e) now s = EventPage e (map (\<lambda>p. (p, performance_available p now s)) (hc_performances c))"
    using event_found [OF slugs row(1-3)] by (simp add: event_detail_def)
  with facts row(2) show ?thesis by metis
qed

text \<open>
  A theater's public pages agree: the sitemap lists the home page, the questions page and
  exactly the events that have a card on the home page; each of these events is the theater's own, its
  page opens and lists the card's performances, and the card's availability is that of the first of
  them; the cards come soonest first. (The hypotheses are the slug constraint of the events, slugs that
  fit the route, and that a performance belongs to the theater of its event.)
\<close>

theorem public_pages_agree:
  assumes "\<forall>p\<in>set (db_performances s). \<forall>e\<in>set (db_events s). perf_event p = event_pk e \<longrightarrow> perf_organization p = event_organization e"
    and "distinct (map (\<lambda>e. (event_organization e, event_slug e)) (db_events s))"
    and "\<forall>e\<in>set (db_events s). fits_slug_route (event_slug e)"
    and "home (Some g) query now s = StorefrontHome cards"
  shows "(\<exists>urls. sitemap_urls site (Some g) now s = Some urls \<and>
       set urls = {site @ ''/'', site @ ''/faq/''} \<union> (\<lambda>c. site @ ''/events/'' @ event_slug (hc_event c) @ ''/'') ` set cards) \<and>
     (\<forall>c\<in>set cards. event_organization (hc_event c) = g \<and>
       (\<exists>rows. event_detail (Some g) (event_slug (hc_event c)) now s = EventPage (hc_event c) rows \<and> rows \<noteq> [] \<and>
         map fst rows = hc_performances c \<and> snd (hd rows) = hc_available c)) \<and>
     sorted (map (\<lambda>c. perf_starts_at (hd (hc_performances c))) cards)"
proof -
  have cards: "cards = home_cards g now s" using assms(4) by (simp add: home_def)
  have "\<forall>e\<in>set (published_upcoming_events g now s). fits_slug_route (event_slug e)"
    using assms(3) by (auto simp: published_upcoming_events_def published_events_def)
  from event_urls_fit [OF this, of site]
  have urls: "sitemap_urls site (Some g) now s = Some ((site @ ''/'') # (site @ ''/faq/'') #
      map (\<lambda>e. site @ ''/events/'' @ event_slug e @ ''/'') (published_upcoming_events g now s))"
    by (simp add: sitemap_urls_def)
  have same: "(\<lambda>c. site @ ''/events/'' @ event_slug (hc_event c) @ ''/'') ` set cards =
      (\<lambda>e. site @ ''/events/'' @ event_slug e @ ''/'') ` set (published_upcoming_events g now s)"
    unfolding cards home_events [symmetric] image_image ..
  have page: "event_organization (hc_event c) = g \<and>
       (\<exists>rows. event_detail (Some g) (event_slug (hc_event c)) now s = EventPage (hc_event c) rows \<and> rows \<noteq> [] \<and>
         map fst rows = hc_performances c \<and> snd (hd rows) = hc_available c)" if "c \<in> set cards" for c
    using card_page [OF assms(1,2), of c g now] that by (simp add: cards comp_def hd_map)
  have "sorted (map (\<lambda>c. perf_starts_at (hd (hc_performances c))) cards)"
    unfolding cards home_cards_def order_by_def by simp
  with page show ?thesis unfolding urls same by auto
qed

text \<open>The demo house as it opens: two events, the second with a matinee and an evening.\<close>

lemma public_pages_agree_witness:
  "\<exists>cards. home (Some 1) (\<lambda>_. None) 0 demo = StorefrontHome cards \<and> hc_event ` set cards = {hamlet, macbeth} \<and>
     (\<exists>urls. sitemap_urls ''https://roxy'' (Some 1) 0 demo = Some urls \<and> ''https://roxy'' @ ''/events/macbeth/'' \<in> set urls)"
proof -
  have house: "\<forall>p\<in>set (db_performances demo). \<forall>e\<in>set (db_events demo). perf_event p = event_pk e \<longrightarrow> perf_organization p = event_organization e"
    by (simp add: demo_def ga_show_def matinee_def evening_def hamlet_def macbeth_def)
  have slugs: "distinct (map (\<lambda>e. (event_organization e, event_slug e)) (db_events demo))"
    by (simp add: demo_def hamlet_def macbeth_def)
  have "fits_slug_route ''hamlet''" "fits_slug_route ''macbeth''" by code_simp+
  then have fit: "\<forall>e\<in>set (db_events demo). fits_slug_route (event_slug e)" by (simp add: demo_def hamlet_def macbeth_def)
  have home: "home (Some 1) (\<lambda>_. None) 0 demo = StorefrontHome (home_cards 1 0 demo)" by (simp add: home_def)
  have "set (published_upcoming_events 1 0 demo) = {hamlet, macbeth}"
    by (auto simp: published_upcoming_events_def published_events_def performances_all_def order_by_def upcoming_def list_ex_iff
        demo_def hamlet_def macbeth_def ga_show_def matinee_def evening_def time_defs)
  then have events: "hc_event ` set (home_cards 1 0 demo) = {hamlet, macbeth}" by (simp add: home_events)
  have "macbeth \<in> hc_event ` set (home_cards 1 0 demo)" unfolding events by simp
  then obtain c where "c \<in> set (home_cards 1 0 demo)" "hc_event c = macbeth" by (metis imageE)
  moreover have "event_slug macbeth = ''macbeth''" by (simp add: macbeth_def)
  ultimately have "''https://roxy'' @ ''/events/macbeth/'' \<in> (\<lambda>c. ''https://roxy'' @ ''/events/'' @ event_slug (hc_event c) @ ''/'') ` set (home_cards 1 0 demo)"
    by (intro image_eqI [of _ _ c]) simp_all
  with public_pages_agree [OF house slugs fit home, of "''https://roxy''"] home events show ?thesis by blast
qed

text \<open>
  The card's "from" price looks at the sections' tiers only: with a seat painted into a cheaper zone the
  home page still announces the tier's price.
\<close>

definition bargain :: db where
  "bargain = demo\<lparr>db_zones := [gold_zone 100 2500], db_next := 103, db_zone_seats := [gold_seat 101 100 21]\<rparr>"

lemma from_price_ignores_zones:
  "fst (card_pricing_and_availability matinee 0 bargain) = Some 4000 \<and>
   map_option rp_amount (resolve_reserved_prices matinee bargain 21) = Some 2500"
proof -
  have chart: "get_seating_chart matinee bargain = Some house_chart"
    by (simp add: get_seating_chart_def get_row_def fixture_defs bargain_def)
  then have seats: "performance_seats matinee bargain = [demo_seat 21 ''1'', demo_seat 22 ''2'', demo_seat 23 ''3'']"
    by (rule demo_performance_seats) (simp_all add: matinee_def bargain_def)
  have zones: "zones_by_seat_id matinee bargain = [21 \<mapsto> gold_zone 100 2500]"
    by (simp add: zones_by_seat_id_def zones_of_def order_by_def bargain_def zone_seat_ids_def gold_seat_def gold_zone_def
        matinee_def demo_def fun_eq_iff)
  have "resolve_seat_tier matinee 11 bargain = Inr stalls_tier"
    by (simp add: resolve_seat_tier_def order_by_def bargain_def fixture_defs)
  moreover have "filter (\<lambda>sec. section_organization sec = perf_organization matinee \<and> section_chart sec = chart_pk house_chart)
      (db_sections bargain) = [stalls]" "section_pk stalls = 11"
    by (simp_all add: bargain_def fixture_defs)
  ultimately have tiers: "price_tiers_by_section matinee bargain = [11 \<mapsto> stalls_tier]"
    by (simp add: price_tiers_by_section_def chart)
  have seat: "seat_pk (demo_seat k n) = k" "seat_section (demo_seat k n) = 11" for k n by (simp_all add: demo_seat_def)
  have "map section_pk (db_sections bargain) = [11]" by (simp add: bargain_def demo_def stalls_def)
  then have "fst (card_pricing_and_availability matinee 0 bargain) = Some 4000"
    by (simp add: card_pricing_and_availability_def tiers List.map_filter_def least_amount_def stalls_tier_def) (simp add: matinee_def)
  moreover have "map_option rp_amount (resolve_reserved_prices matinee bargain 21) = Some 2500"
    by (simp add: resolve_reserved_prices_def seats zones tiers seat zone_price_def gold_zone_def)
  ultimately show ?thesis by blast
qed

section \<open>The contact form\<close>

text \<open>The posts that reach the form, in order, with what they stored: the address, the time and the fields of each.\<close>

record contact_post =
  cp_ip :: string
  cp_time :: time
  cp_fields :: contact_fields

fun contact_run :: "contact_settings \<Rightarrow> (contact_mail \<Rightarrow> bool) \<Rightarrow> contact_post list \<Rightarrow> contact_box \<Rightarrow> (string \<times> bool) list \<times> contact_box" where
  "contact_run cfg deliver [] box = ([], box)"
| "contact_run cfg deliver (p # ps) box =
     (let box1 = fst (snd (contact cfg deliver None True (cp_fields p) (cp_ip p) (cp_time p) box));
          (kept, box2) = contact_run cfg deliver ps box1
      in ((cp_ip p, cb_inquiries box1 \<noteq> cb_inquiries box) # kept, box2))"

definition stored_from :: "string \<Rightarrow> (string \<times> bool) list \<Rightarrow> nat" where
  "stored_from ip kept = length (filter (\<lambda>(a, stored). a = ip \<and> stored) kept)"

lemma contact_stores:
  assumes "fst (snd (contact cfg deliver g is_post f ip now box)) = box1"
  obtains (nothing) "box1 = box"
  | (stored) "g = None" "is_post" "contact_form_is_valid f" "\<not> is_spam f"
      "\<not> is_locked_out (cs_throttle cfg) ''platform-contact'' ip (cb_cache box) now"
      "cb_inquiries box1 = cb_inquiries box @ [inquiry_of (cb_next box) f]"
      "cb_cache box1 = snd (register_failure (cs_throttle cfg) ''platform-contact'' ip (cb_cache box) now)"
  using assms by (auto simp: contact_def Let_def split: if_splits)

lemma stored_step:
  "stored_from ip (fst (contact_run cfg deliver (p # ps) box)) =
   (if cp_ip p = ip \<and> cb_inquiries (fst (snd (contact cfg deliver None True (cp_fields p) (cp_ip p) (cp_time p) box))) \<noteq> cb_inquiries box
    then 1 else 0) +
   stored_from ip (fst (contact_run cfg deliver ps (fst (snd (contact cfg deliver None True (cp_fields p) (cp_ip p) (cp_time p) box)))))"
  by (auto simp: stored_from_def Let_def split_beta)

lemma throttle_key_inj: "throttle_key scope a = throttle_key scope b \<longleftrightarrow> a = b"
  by (simp add: throttle_key_def)

lemma other_address:
  "ip \<noteq> other \<Longrightarrow> snd (register_failure cfg scope other c now) (throttle_key scope ip) = c (throttle_key scope ip)"
  by (auto simp: register_failure_def Let_def throttle_key_inj split: option.splits)

text \<open>Once a window is open, what is left of it bounds what the address can store.\<close>

lemma open_window_stores:
  assumes "cb_cache box (throttle_key ''platform-contact'' ip) = Some (n, until)" and "stop \<le> until"
    and "\<forall>p\<in>set ps. start \<le> cp_time p \<and> cp_time p < stop"
    and "0 < max_attempts (cs_throttle cfg)" and "\<forall>d. incr_timeout (cs_throttle cfg) = Some d \<longrightarrow> stop \<le> start + d"
  shows "int (stored_from ip (fst (contact_run cfg deliver ps box))) \<le> max (max_attempts (cs_throttle cfg) - n) 0"
  using assms(1-3)
proof (induction ps arbitrary: box n until)
  case Nil
  then show ?case by (simp add: stored_from_def)
next
  case (Cons p ps)
  define box1 where "box1 = fst (snd (contact cfg deliver None True (cp_fields p) (cp_ip p) (cp_time p) box))"
  have step: "stored_from ip (fst (contact_run cfg deliver (p # ps) box)) =
      (if cp_ip p = ip \<and> cb_inquiries box1 \<noteq> cb_inquiries box then 1 else 0) + stored_from ip (fst (contact_run cfg deliver ps box1))"
    unfolding box1_def by (rule stored_step)
  have get: "cache_get (cb_cache box) (throttle_key ''platform-contact'' ip) (cp_time p) = Some n"
    using Cons.prems by (simp add: cache_get_def)
  consider (same) "box1 = box" | (other) "cp_ip p \<noteq> ip" "cb_cache box1 (throttle_key ''platform-contact'' ip) = Some (n, until)"
    | (mine) until' where "cp_ip p = ip" "n < max_attempts (cs_throttle cfg)" "stop \<le> until'"
        "cb_cache box1 (throttle_key ''platform-contact'' ip) = Some (n + 1, until')"
  proof (cases rule: contact_stores [OF box1_def [symmetric], case_names nothing stored])
    case nothing
    then show ?thesis using same by simp
  next
    case stored
    show ?thesis
    proof (cases "cp_ip p = ip")
      case True
      let ?until = "case incr_timeout (cs_throttle cfg) of None \<Rightarrow> until | Some d \<Rightarrow> cp_time p + d"
      from True stored get assms(4) Cons.prems(1) have "n < max_attempts (cs_throttle cfg)"
        "cb_cache box1 (throttle_key ''platform-contact'' ip) = Some (n + 1, ?until)"
        by (cases "incr_timeout (cs_throttle cfg)"; auto simp: is_locked_out_def register_failure_def Let_def)+
      moreover have "stop \<le> ?until" using assms(5) Cons.prems(2,3) by (force split: option.split)
      ultimately show ?thesis using True mine by blast
    next
      case False
      then have "cb_cache box1 (throttle_key ''platform-contact'' ip) = Some (n, until)"
        using stored(7) Cons.prems(1) other_address [of ip "cp_ip p"] by simp
      with False other show ?thesis by blast
    qed
  qed
  then show ?case
  proof cases
    case same
    with Cons.IH [of box n until] Cons.prems show ?thesis unfolding step by simp
  next
    case other
    with Cons.IH [of box1 n until] Cons.prems show ?thesis unfolding step by simp
  next
    case mine
    with Cons.IH [of box1 "n + 1" until'] Cons.prems(3) show ?thesis unfolding step by auto
  qed
qed

lemma closed_window_stores:
  assumes "\<forall>u\<ge>t. cache_get (cb_cache box) (throttle_key ''platform-contact'' ip) u = None"
    and "\<forall>p\<in>set ps. t \<le> cp_time p \<and> cp_time p < t + sure_window (cs_throttle cfg)"
    and "0 < max_attempts (cs_throttle cfg)"
  shows "int (stored_from ip (fst (contact_run cfg deliver ps box))) \<le> max_attempts (cs_throttle cfg)"
  using assms(1,2)
proof (induction ps arbitrary: box)
  case Nil
  with assms(3) show ?case by (simp add: stored_from_def)
next
  case (Cons p ps)
  define box1 where "box1 = fst (snd (contact cfg deliver None True (cp_fields p) (cp_ip p) (cp_time p) box))"
  have step: "stored_from ip (fst (contact_run cfg deliver (p # ps) box)) =
      (if cp_ip p = ip \<and> cb_inquiries box1 \<noteq> cb_inquiries box then 1 else 0) + stored_from ip (fst (contact_run cfg deliver ps box1))"
    unfolding box1_def by (rule stored_step)
  have later: "\<forall>q\<in>set ps. t \<le> cp_time q \<and> cp_time q < t + sure_window (cs_throttle cfg)" using Cons.prems(2) by simp
  consider (same) "box1 = box"
    | (other) "cp_ip p \<noteq> ip" "cb_cache box1 (throttle_key ''platform-contact'' ip) = cb_cache box (throttle_key ''platform-contact'' ip)"
    | (mine) "cp_ip p = ip" "cb_cache box1 (throttle_key ''platform-contact'' ip) = Some (1, cp_time p + window (cs_throttle cfg))"
  proof (cases rule: contact_stores [OF box1_def [symmetric], case_names nothing stored])
    case nothing
    then show ?thesis using same by simp
  next
    case stored
    show ?thesis
    proof (cases "cp_ip p = ip")
      case True
      with stored(7) assms(3) Cons.prems have "cb_cache box1 (throttle_key ''platform-contact'' ip) = Some (1, cp_time p + window (cs_throttle cfg))"
        by (simp add: register_failure_def Let_def)
      with True mine show ?thesis by blast
    next
      case False
      with stored(7) other_address [of ip "cp_ip p"] other show ?thesis by simp
    qed
  qed
  then show ?case
  proof cases
    case same
    with Cons.IH [of box] Cons.prems(1) later show ?thesis unfolding step by simp
  next
    case other
    with Cons.prems(1) have "\<forall>u\<ge>t. cache_get (cb_cache box1) (throttle_key ''platform-contact'' ip) u = None"
      by (simp add: cache_get_def)
    with Cons.IH [of box1] later other(1) show ?thesis unfolding step by simp
  next
    case mine
    have "\<forall>q\<in>set ps. t \<le> cp_time q \<and> cp_time q < t + sure_window (cs_throttle cfg)" by (rule later)
    moreover have "t + sure_window (cs_throttle cfg) \<le> cp_time p + window (cs_throttle cfg)"
      using Cons.prems(2) by (auto simp: sure_window_def split: option.split)
    moreover have "\<forall>d. incr_timeout (cs_throttle cfg) = Some d \<longrightarrow> t + sure_window (cs_throttle cfg) \<le> t + d"
      by (simp add: sure_window_def)
    ultimately have "int (stored_from ip (fst (contact_run cfg deliver ps box1))) \<le> max (max_attempts (cs_throttle cfg) - 1) 0"
      by (intro open_window_stores [OF mine(2) _ _ assms(3)])
    with assms(3) show ?thesis unfolding step by auto
  qed
qed

text \<open>
  Property C31. The contact form keeps what a person writes and not more than the limit: a post stores
  nothing unless it is one to the platform's own host whose fields are valid, whose trap field is empty
  and whose address is not locked out, and then it stores that one message and thanks; and of all the
  posts of one address within one window, between any posts of others, at most the configured number is
  stored. The window is the configured one where the cache keeps an entry's expiry on \<open>incr\<close>, and the
  shorter of it and the cache's default timeout where \<open>incr\<close> sets the entry anew, as the file cache does.
\<close>

theorem contact_messages_are_bounded:
  assumes "0 < max_attempts (cs_throttle cfg)"
    and "cache_get (cb_cache box) (throttle_key ''platform-contact'' ip) t = None"
    and "\<forall>p\<in>set ps. t \<le> cp_time p \<and> cp_time p < t +
      (case incr_timeout (cs_throttle cfg) of None \<Rightarrow> window (cs_throttle cfg) | Some d \<Rightarrow> min d (window (cs_throttle cfg)))"
  shows "int (stored_from ip (fst (contact_run cfg deliver ps box))) \<le> max_attempts (cs_throttle cfg) \<and>
     cb_inquiries (fst (snd (contact cfg deliver g is_post f a now b))) =
       cb_inquiries b @ (if g = None \<and> is_post \<and> contact_form_is_valid f \<and> \<not> is_spam f \<and>
           \<not> is_locked_out (cs_throttle cfg) ''platform-contact'' a (cb_cache b) now
         then [inquiry_of (cb_next b) f] else []) \<and>
     (fst (contact cfg deliver g is_post f a now b) = ThankYou \<longleftrightarrow>
        g = None \<and> is_post \<and> contact_form_is_valid f \<and>
        (is_spam f \<or> \<not> is_locked_out (cs_throttle cfg) ''platform-contact'' a (cb_cache b) now))"
proof -
  have "cache_get (cb_cache box) (throttle_key ''platform-contact'' ip) u = None" if "t \<le> u" for u
    using assms(2) that by (auto simp: cache_get_def split: option.splits if_splits)
  then have "int (stored_from ip (fst (contact_run cfg deliver ps box))) \<le> max_attempts (cs_throttle cfg)"
    using closed_window_stores [OF _ assms(3) [folded sure_window_def] assms(1)] by blast
  then show ?thesis by (simp add: contact_def Let_def)
qed

text \<open>Three posts of one address where two are allowed.\<close>

definition alex_writes :: contact_fields where
  "alex_writes = \<lparr>cf_name = Some ''Alex'', cf_email = Some ''alex@example.com'', cf_venue = Some [], cf_message = Some ''Hello'',
     cf_website = Some []\<rparr>"

definition two_per_window :: contact_settings where
  "two_per_window = \<lparr>cs_throttle = \<lparr>max_attempts = 2, window = minutes 15, incr_timeout = Some (minutes 5)\<rparr>, cs_smtp = False, cs_from_email = ''no-reply@boxo'',
     cs_platform_email = ''hello@boxo''\<rparr>"

lemma contact_messages_are_bounded_witness:
  "int (stored_from ''10.0.0.1'' (fst (contact_run two_per_window (\<lambda>_. True)
     [\<lparr>cp_ip = ''10.0.0.1'', cp_time = 0, cp_fields = alex_writes\<rparr>, \<lparr>cp_ip = ''10.0.0.1'', cp_time = minutes 1, cp_fields = alex_writes\<rparr>,
      \<lparr>cp_ip = ''10.0.0.1'', cp_time = minutes 2, cp_fields = alex_writes\<rparr>] \<lparr>cb_next = 1, cb_inquiries = [], cb_cache = Map.empty\<rparr>))) \<le> 2 \<and>
   cb_inquiries (fst (snd (contact two_per_window (\<lambda>_. True) None True alex_writes ''10.0.0.1'' 0
     \<lparr>cb_next = 1, cb_inquiries = [], cb_cache = Map.empty\<rparr>))) = [inquiry_of 1 alex_writes]"
proof -
  have v: "contact_form_is_valid alex_writes" "\<not> is_spam alex_writes"
    by (simp_all add: contact_form_is_valid_def is_spam_def alex_writes_def or_blank_def)
  show ?thesis
    using contact_messages_are_bounded
      [where cfg = two_per_window and deliver = "\<lambda>_. True" and ip = "''10.0.0.1''" and t = 0
         and box = "\<lparr>cb_next = 1, cb_inquiries = [], cb_cache = Map.empty\<rparr>" and g = None and is_post = True and f = alex_writes
         and a = "''10.0.0.1''" and now = 0 and b = "\<lparr>cb_next = 1, cb_inquiries = [], cb_cache = Map.empty\<rparr>"
         and ps = "[\<lparr>cp_ip = ''10.0.0.1'', cp_time = 0, cp_fields = alex_writes\<rparr>, \<lparr>cp_ip = ''10.0.0.1'', cp_time = minutes 1, cp_fields = alex_writes\<rparr>,
            \<lparr>cp_ip = ''10.0.0.1'', cp_time = minutes 2, cp_fields = alex_writes\<rparr>]"] v
    by (simp add: two_per_window_def cache_get_def is_locked_out_def time_defs del: contact_run.simps)
qed

end
