(* ===== verification/Tenancy.thy ===== *)
theory Tenancy
  imports Access Json
begin

text \<open>
  A theater comes and goes: the commands that create and retire one
  (tenants/management/commands/provision_tenant.py, remove_tenant.py), the admin's action that queues
  its infrastructure (tenants/admin.py) and the worker that sets it up
  (provision_pending_tenants.py). \<open>slugify\<close> stands for Django's; the slug column, which no other code
  reads, is the argument \<open>slug_of\<close>; what the operating tool answers is the argument \<open>run\<close>.
\<close>

section \<open>Creating a theater\<close>

datatype command_error = InvalidLabel | ReservedLabel | NoSuchTheater

text \<open>\<open>str.title\<close>: a letter is a capital when the character before it is no letter.\<close>

definition is_letter :: "char \<Rightarrow> bool" where
  "is_letter c \<longleftrightarrow> upper_char c \<noteq> lower_char c"

fun title_from :: "bool \<Rightarrow> string \<Rightarrow> string" where
  "title_from after_letter [] = []"
| "title_from after_letter (c # cs) = (if after_letter then lower_char c else upper_char c) # title_from (is_letter c) cs"

definition theater_display_name :: "string \<Rightarrow> string" where
  "theater_display_name subdomain = title_from False (map (\<lambda>c. if c = CHR ''-'' then CHR '' '' else c) subdomain)"

definition slug_in_use :: "(nat \<Rightarrow> string) \<Rightarrow> string \<Rightarrow> db \<Rightarrow> bool" where
  "slug_in_use slug_of slug s = qs_exists (\<lambda>g. slug_of (org_pk g) = slug) (db_orgs s)"

definition org_by_subdomain :: "string \<Rightarrow> db \<Rightarrow> organization option" where
  "org_by_subdomain subdomain s = first_row (filter (\<lambda>g. org_subdomain g = subdomain) (db_orgs s))"

definition new_organization :: "nat \<Rightarrow> string \<Rightarrow> string \<Rightarrow> string \<Rightarrow> organization" where
  "new_organization k name subdomain email =
     \<lparr>org_pk = k, org_name = name, org_subdomain = subdomain, org_timezone = ''UTC'', org_currency = ''USD'',
      org_stripe_account_id = [], org_stripe_charges_enabled = False, org_stripe_details_submitted = False,
      org_platform_fee_percent = None, org_contact_email = email, org_is_active = True\<rparr>"

text \<open>\<open>options[...] or default\<close>.\<close>

definition given_or :: "string option \<Rightarrow> string \<Rightarrow> string" where
  "given_or value fallback = (case value of None \<Rightarrow> fallback | Some t \<Rightarrow> if t = [] then fallback else t)"

text \<open>The last outcome is the \<open>IntegrityError\<close> of a slug that another theater has.\<close>

datatype provision_result = Created organization | Existing organization | Refused command_error | SlugClash

definition provision_tenant ::
    "string set \<Rightarrow> string \<Rightarrow> (string \<Rightarrow> string) \<Rightarrow> (nat \<Rightarrow> string) \<Rightarrow> string \<Rightarrow> string option \<Rightarrow> string option \<Rightarrow> db \<Rightarrow>
       provision_result \<times> db" where
  "provision_tenant reserved base slugify slug_of label name0 email0 s =
     (let subdomain = lower (strip label)
      in if subdomain = [] \<or> subdomain \<noteq> slugify subdomain then (Refused InvalidLabel, s)
         else if subdomain \<in> reserved then (Refused ReservedLabel, s)
         else (case org_by_subdomain subdomain s of
             Some g \<Rightarrow> (Existing g, s)
           | None \<Rightarrow>
               if slug_in_use slug_of subdomain s then (SlugClash, s)
               else let g = new_organization (db_next s) (given_or name0 (theater_display_name subdomain)) subdomain
                              (given_or email0 (''boxoffice@'' @ subdomain @ CHR ''.'' # base))
                    in (Created g, s\<lparr>db_orgs := db_orgs s @ [g], db_next := Suc (db_next s)\<rparr>)))"

section \<open>Retiring a theater\<close>

text \<open>
  What keeps a theater's rows from a cascade: the deletion collects every row of the theater and stops
  when one of them is the target of a reference that protects it, whoever owns the referring row
  (Performance.venue, Order.performance, HoldSeat and OrderItem to tiers and seats, PassPurchase.product
  and order, PassRedemption to purchase, performance and event).
\<close>

definition purge_protected :: "nat \<Rightarrow> db \<Rightarrow> bool" where
  "purge_protected g s \<longleftrightarrow>
     qs_exists (\<lambda>p. qs_exists (\<lambda>v. venue_pk v = perf_venue p \<and> venue_organization v = g) (db_venues s)) (db_performances s) \<or>
     qs_exists (\<lambda>x. qs_exists (\<lambda>p. order_performance x = Some (perf_pk p) \<and> perf_organization p = g) (db_performances s)) (db_orders s) \<or>
     qs_exists (\<lambda>r. qs_exists (\<lambda>t. hs_price_tier r = Some (tier_pk t) \<and> tier_organization t = g) (db_tiers s)) (db_hold_seats s) \<or>
     qs_exists (\<lambda>i. qs_exists (\<lambda>t. item_price_tier i = Some (tier_pk t) \<and> tier_organization t = g) (db_tiers s) \<or>
                    qs_exists (\<lambda>z. item_seat i = Some (seat_pk z) \<and> seat_organization z = g) (db_seats s)) (db_items s) \<or>
     qs_exists (\<lambda>pp. qs_exists (\<lambda>p. pp_product pp = prod_pk p \<and> prod_organization p = g) (db_products s) \<or>
                     qs_exists (\<lambda>x. pp_order pp = order_pk x \<and> order_organization x = g) (db_orders s)) (db_purchases s) \<or>
     qs_exists (\<lambda>r. qs_exists (\<lambda>pp. red_pass_purchase r = pp_pk pp \<and> pp_organization pp = g) (db_purchases s) \<or>
                    qs_exists (\<lambda>p. red_performance r = perf_pk p \<and> perf_organization p = g) (db_performances s) \<or>
                    qs_exists (\<lambda>e. red_event r = event_pk e \<and> event_organization e = g) (db_events s)) (db_redemptions s)"

text \<open>The cascade over the rows a theater can have when nothing protects them.\<close>

definition cascade_organization :: "nat \<Rightarrow> db \<Rightarrow> db" where
  "cascade_organization g s =
     s\<lparr>db_orgs := delete_rows (\<lambda>x. org_pk x = g) (db_orgs s),
       db_venues := delete_rows (\<lambda>x. venue_organization x = g) (db_venues s),
       db_charts := delete_rows (\<lambda>x. chart_organization x = g) (db_charts s),
       db_sections := delete_rows (\<lambda>x. section_organization x = g) (db_sections s),
       db_seats := delete_rows (\<lambda>x. seat_organization x = g) (db_seats s),
       db_events := delete_rows (\<lambda>x. event_organization x = g) (db_events s),
       db_performances := delete_rows (\<lambda>x. perf_organization x = g) (db_performances s),
       db_tiers := delete_rows (\<lambda>x. tier_organization x = g) (db_tiers s),
       db_allocations := delete_rows (\<lambda>x. alloc_organization x = g) (db_allocations s),
       db_templates := delete_rows (\<lambda>x. ztpl_organization x = g) (db_templates s),
       db_zones := delete_rows (\<lambda>x. zone_organization x = g) (db_zones s),
       db_zone_seats := delete_rows (\<lambda>x. pzs_organization x = g) (db_zone_seats s),
       db_holds := delete_rows (\<lambda>x. hold_organization x = g) (db_holds s),
       db_hold_seats := delete_rows (\<lambda>x. hs_organization x = g) (db_hold_seats s),
       db_blocks := delete_rows (\<lambda>x. block_organization x = g) (db_blocks s),
       db_orders := delete_rows (\<lambda>x. order_organization x = g) (db_orders s),
       db_items := delete_rows (\<lambda>x. item_organization x = g) (db_items s),
       db_tickets := delete_rows (\<lambda>x. tkt_organization x = g) (db_tickets s),
       db_payments := delete_rows (\<lambda>x. pay_organization x = g) (db_payments s),
       db_promos := delete_rows (\<lambda>x. promo_organization x = g) (db_promos s),
       db_campaigns := delete_rows (\<lambda>x. camp_organization x = g) (db_campaigns s),
       db_guests := delete_rows (\<lambda>x. guest_organization x = g) (db_guests s),
       db_products := delete_rows (\<lambda>x. prod_organization x = g) (db_products s),
       db_purchases := delete_rows (\<lambda>x. pp_organization x = g) (db_purchases s),
       db_redemptions := delete_rows (\<lambda>x. red_organization x = g) (db_redemptions s)\<rparr>"

datatype remove_result = Purged | Deactivated | AlreadyInactive | Unknown | PurgeRefused

definition remove_tenant :: "string \<Rightarrow> bool \<Rightarrow> db \<Rightarrow> remove_result \<times> db" where
  "remove_tenant label purge s =
     (case org_by_subdomain (lower (strip label)) s of
        None \<Rightarrow> (Unknown, s)
      | Some g \<Rightarrow>
          if purge then (if purge_protected (org_pk g) s then (PurgeRefused, s) else (Purged, cascade_organization (org_pk g) s))
          else if \<not> org_is_active g then (AlreadyInactive, s)
          else (Deactivated, s\<lparr>db_orgs := update_rows (\<lambda>x. org_pk x = org_pk g) (\<lambda>x. x\<lparr>org_is_active := False\<rparr>) (db_orgs s)\<rparr>))"

section \<open>Infrastructure\<close>

datatype infra_status = InfraNone | InfraPending | InfraProvisioning | InfraProvisioned | InfraFailed

record infra_row =
  inf_pk :: nat
  inf_subdomain :: string
  inf_status :: infra_status
  inf_message :: string

text \<open>The admin's action on the rows selected: how many were queued, how many were queued already.\<close>

definition provision_infrastructure :: "(nat \<Rightarrow> bool) \<Rightarrow> infra_row list \<Rightarrow> nat \<times> nat \<times> infra_row list" where
  "provision_infrastructure selected rows =
     (let already = length (filter (\<lambda>r. selected (inf_pk r) \<and> inf_status r = InfraPending) rows);
          queue = (\<lambda>r. selected (inf_pk r) \<and> inf_status r \<noteq> InfraPending)
      in (length (filter queue rows), already,
          update_rows queue (\<lambda>r. r\<lparr>inf_status := InfraPending, inf_message := ''Queued from admin.''\<rparr>) rows))"

text \<open>What the operating tool answers: its exit code and output, no answer in time, or that it could not be started.\<close>

datatype job_outcome = Exited int string | TimedOut | SpawnFailed string

definition message_limit :: nat where "message_limit = 4000"

definition tail_of :: "string \<Rightarrow> string" where
  "tail_of text = (let t = strip text in if message_limit < length t then drop (length t - message_limit) t else t)"

definition claim_infra :: "nat \<Rightarrow> infra_row list \<Rightarrow> bool \<times> infra_row list" where
  "claim_infra k rows =
     (qs_exists (\<lambda>r. inf_pk r = k \<and> inf_status r = InfraPending) rows,
      update_rows (\<lambda>r. inf_pk r = k \<and> inf_status r = InfraPending) (\<lambda>r. r\<lparr>inf_status := InfraProvisioning\<rparr>) rows)"

definition finish_infra :: "nat \<Rightarrow> infra_status \<Rightarrow> string \<Rightarrow> infra_row list \<Rightarrow> infra_row list" where
  "finish_infra k st message rows = update_rows (\<lambda>r. inf_pk r = k) (\<lambda>r. r\<lparr>inf_status := st, inf_message := message\<rparr>) rows"

definition reserved_message :: "string \<Rightarrow> string" where
  "reserved_message subdomain = CHR 0x27 # subdomain @ CHR 0x27 # '' is a reserved subdomain; refusing to provision.''"

fun settle :: "job_outcome \<Rightarrow> infra_status \<times> string" where
  "settle TimedOut = (InfraFailed, ''add-tenant timed out after 600s (DNS still propagating?). Re-queue to retry.'')"
| "settle (SpawnFailed e) = (InfraFailed, ''failed to run add-tenant: '' @ e)"
| "settle (Exited code output) =
     (let out = tail_of output
      in if code = 0 then (InfraProvisioned, if out \<noteq> [] then out else ''Provisioned.'')
         else (InfraFailed, if out \<noteq> [] then out else ''add-tenant exited '' @ show_int code @ ''.''))"

text \<open>The loop over the rows the run listed; it returns the subdomain it ran the tool for, if it did.\<close>

fun provision_loop :: "string set \<Rightarrow> (string \<Rightarrow> job_outcome) \<Rightarrow> infra_row list \<Rightarrow> infra_row list \<Rightarrow> string option \<times> infra_row list" where
  "provision_loop reserved run [] rows = (None, rows)"
| "provision_loop reserved run (g # pending) rows =
     (let (claimed, rows1) = claim_infra (inf_pk g) rows
      in if \<not> claimed then provision_loop reserved run pending rows
         else if inf_subdomain g \<in> reserved
         then provision_loop reserved run pending (finish_infra (inf_pk g) InfraFailed (reserved_message (inf_subdomain g)) rows1)
         else let (st, message) = settle (run (inf_subdomain g))
              in (Some (inf_subdomain g), finish_infra (inf_pk g) st message rows1))"

definition pending_infra :: "infra_row list \<Rightarrow> infra_row list" where
  "pending_infra rows = order_by inf_pk (filter (\<lambda>r. inf_status r = InfraPending) rows)"

text \<open>One run of the command; \<open>able\<close> says whether it runs as root and finds the tool.\<close>

definition provision_pending_tenants :: "string set \<Rightarrow> bool \<Rightarrow> (string \<Rightarrow> job_outcome) \<Rightarrow> infra_row list \<Rightarrow> string option \<times> infra_row list" where
  "provision_pending_tenants reserved able run rows =
     (if pending_infra rows = [] then (None, rows)
      else if \<not> able then (None, rows)
      else provision_loop reserved run (pending_infra rows) rows)"

section \<open>Overlapping runs\<close>

text \<open>
  Runs of the worker, queueing by the admin and new theaters, in any order. Between its statements a run
  is idle, goes through the rows it listed, is about to record a refusal, or waits for the tool. A \<open>calm\<close>
  admin does not queue a row that is being set up.
\<close>

datatype worker = WIdle | WScan "infra_row list" | WRefuse infra_row "infra_row list" | WRunning infra_row

record provisioning =
  pv_rows :: "infra_row list"
  pv_workers :: "nat \<Rightarrow> worker"

definition set_worker :: "nat \<Rightarrow> worker \<Rightarrow> provisioning \<Rightarrow> provisioning" where
  "set_worker w x p = p\<lparr>pv_workers := (pv_workers p)(w := x)\<rparr>"

inductive infra_step :: "string set \<Rightarrow> bool \<Rightarrow> provisioning \<Rightarrow> provisioning \<Rightarrow> bool" for reserved calm where
  tick: "pv_workers p w = WIdle \<Longrightarrow> infra_step reserved calm p (set_worker w (WScan (pending_infra (pv_rows p))) p)"
| scanned: "pv_workers p w = WScan [] \<Longrightarrow> infra_step reserved calm p (set_worker w WIdle p)"
| skip: "pv_workers p w = WScan (g # gs) \<Longrightarrow> \<not> fst (claim_infra (inf_pk g) (pv_rows p)) \<Longrightarrow>
    infra_step reserved calm p (set_worker w (WScan gs) p)"
| refuse: "pv_workers p w = WScan (g # gs) \<Longrightarrow> fst (claim_infra (inf_pk g) (pv_rows p)) \<Longrightarrow> inf_subdomain g \<in> reserved \<Longrightarrow>
    infra_step reserved calm p (set_worker w (WRefuse g gs) (p\<lparr>pv_rows := snd (claim_infra (inf_pk g) (pv_rows p))\<rparr>))"
| refused: "pv_workers p w = WRefuse g gs \<Longrightarrow>
    infra_step reserved calm p (set_worker w (WScan gs)
      (p\<lparr>pv_rows := finish_infra (inf_pk g) InfraFailed (reserved_message (inf_subdomain g)) (pv_rows p)\<rparr>))"
| spawn: "pv_workers p w = WScan (g # gs) \<Longrightarrow> fst (claim_infra (inf_pk g) (pv_rows p)) \<Longrightarrow> inf_subdomain g \<notin> reserved \<Longrightarrow>
    infra_step reserved calm p (set_worker w (WRunning g) (p\<lparr>pv_rows := snd (claim_infra (inf_pk g) (pv_rows p))\<rparr>))"
| answered: "pv_workers p w = WRunning g \<Longrightarrow> settle outcome = (st, message) \<Longrightarrow>
    infra_step reserved calm p (set_worker w WIdle (p\<lparr>pv_rows := finish_infra (inf_pk g) st message (pv_rows p)\<rparr>))"
| crash: "infra_step reserved calm p (set_worker w WIdle p)"
| queue: "calm \<longrightarrow> (\<forall>r\<in>set (pv_rows p). selected (inf_pk r) \<longrightarrow> inf_status r \<noteq> InfraProvisioning) \<Longrightarrow>
    infra_step reserved calm p (p\<lparr>pv_rows := snd (snd (provision_infrastructure selected (pv_rows p)))\<rparr>)"
| created: "inf_status r = InfraNone \<Longrightarrow> inf_pk r \<notin> inf_pk ` set (pv_rows p) \<Longrightarrow>
    infra_step reserved calm p (p\<lparr>pv_rows := pv_rows p @ [r]\<rparr>)"

inductive_cases infra_stepE: "infra_step reserved calm p q"

definition all_idle :: "provisioning \<Rightarrow> bool" where
  "all_idle p \<longleftrightarrow> distinct (map inf_pk (pv_rows p)) \<and> pv_workers p = (\<lambda>_. WIdle)"

end
