(* ===== verification/TenancyFacts.thy ===== *)
theory TenancyFacts
  imports Tenancy
begin

text \<open>
  What the life of a theater promises: a created theater answers under its name until it is retired,
  the queue of set-ups drains in order, and overlapping runs do not set up a theater twice.
\<close>

section \<open>The queue drains\<close>

definition waiting :: "infra_row \<Rightarrow> bool" where
  "waiting r \<longleftrightarrow> inf_status r = InfraPending"

lemma settle_not_waiting: "settle outcome = (st, m) \<Longrightarrow> st = InfraProvisioned \<or> st = InfraFailed"
  by (cases outcome) (auto simp: Let_def split: if_splits)

lemma claim_taken: "fst (claim_infra k rows) \<longleftrightarrow> (\<exists>r\<in>set rows. inf_pk r = k \<and> waiting r)"
  by (auto simp: claim_infra_def waiting_def)

text \<open>Claiming a row and recording its outcome takes it out of the queue and touches no other row.\<close>

lemma claim_finish:
  assumes "st \<noteq> InfraPending"
  shows "filter waiting (finish_infra k st m (snd (claim_infra k rows))) = filter (\<lambda>r. waiting r \<and> inf_pk r \<noteq> k) rows"
    "k \<in> K \<Longrightarrow> filter (\<lambda>r. inf_pk r \<notin> K) (finish_infra k st m (snd (claim_infra k rows))) = filter (\<lambda>r. inf_pk r \<notin> K) rows"
  using assms by (induction rows) (auto simp: finish_infra_def claim_infra_def update_rows_def waiting_def)

text \<open>What one run settles: the reserved names at the head of the queue and the first proper one.\<close>

definition settled :: "string set \<Rightarrow> infra_row list \<Rightarrow> infra_row list" where
  "settled reserved pending =
     takeWhile (\<lambda>r. inf_subdomain r \<in> reserved) pending @ take 1 (dropWhile (\<lambda>r. inf_subdomain r \<in> reserved) pending)"

definition first_proper :: "string set \<Rightarrow> infra_row list \<Rightarrow> string option" where
  "first_proper reserved pending = map_option inf_subdomain (first_row (filter (\<lambda>r. inf_subdomain r \<notin> reserved) pending))"

lemma settled_Cons:
  "inf_subdomain g \<in> reserved \<Longrightarrow> settled reserved (g # gs) = g # settled reserved gs"
  "inf_subdomain g \<notin> reserved \<Longrightarrow> settled reserved (g # gs) = [g]"
  by (simp_all add: settled_def)

lemma first_proper_Cons:
  "first_proper reserved (g # gs) = (if inf_subdomain g \<in> reserved then first_proper reserved gs else Some (inf_subdomain g))"
  by (simp add: first_proper_def)

definition untouched :: "nat set \<Rightarrow> infra_row list \<Rightarrow> infra_row list" where
  "untouched K rows = filter (\<lambda>r. inf_pk r \<notin> K) rows"

lemma untouched_insert: "untouched (insert k K) rows = untouched {k} (untouched K rows)"
  by (auto simp: untouched_def intro: filter_cong)

lemma claim_finish_untouched:
  assumes "st \<noteq> InfraPending"
  shows "filter waiting (finish_infra k st m (snd (claim_infra k rows))) = untouched {k} (filter waiting rows)"
    "untouched {k} (finish_infra k st m (snd (claim_infra k rows))) = untouched {k} rows"
  using claim_finish(1) [OF assms, of k m rows] claim_finish(2) [OF assms, of k "{k}" m rows]
  by (auto simp: untouched_def intro: filter_cong)

lemma untouched_waiting: "untouched K (filter waiting rows) = filter waiting (untouched K rows)"
  by (auto simp: untouched_def intro: filter_cong)

lemma provision_loop_settles:
  assumes "set pending \<subseteq> set (filter waiting rows)" and "distinct (map inf_pk pending)"
  shows "fst (provision_loop reserved run pending rows) = first_proper reserved pending \<and>
    filter waiting (snd (provision_loop reserved run pending rows)) =
      untouched (inf_pk ` set (settled reserved pending)) (filter waiting rows) \<and>
    untouched (inf_pk ` set (settled reserved pending)) (snd (provision_loop reserved run pending rows)) =
      untouched (inf_pk ` set (settled reserved pending)) rows"
  using assms
proof (induction pending arbitrary: rows)
  case Nil
  show ?case by (simp add: first_proper_def settled_def untouched_def)
next
  case (Cons g gs)
  let ?k = "inf_pk g"
  have claimed: "fst (claim_infra ?k rows)" using Cons.prems(1) by (auto simp: claim_taken)
  show ?case
  proof (cases "inf_subdomain g \<in> reserved")
    case False
    obtain st m where o: "settle (run (inf_subdomain g)) = (st, m)" by (metis surj_pair)
    then have st: "st \<noteq> InfraPending" using settle_not_waiting by blast
    have "provision_loop reserved run (g # gs) rows =
        (Some (inf_subdomain g), finish_infra ?k st m (snd (claim_infra ?k rows)))"
      using claimed False o by (simp add: split_beta)
    with False claim_finish_untouched [OF st, of ?k m rows] show ?thesis
      by (simp add: settled_Cons first_proper_Cons)
  next
    case True
    define rows2 where "rows2 = finish_infra ?k InfraFailed (reserved_message (inf_subdomain g)) (snd (claim_infra ?k rows))"
    let ?K = "inf_pk ` set (settled reserved gs)"
    have eq: "provision_loop reserved run (g # gs) rows = provision_loop reserved run gs rows2"
      using claimed True by (simp add: split_beta rows2_def)
    have w: "filter waiting rows2 = untouched {?k} (filter waiting rows)" and u: "untouched {?k} rows2 = untouched {?k} rows"
      unfolding rows2_def by (simp_all add: claim_finish_untouched)
    have "set gs \<subseteq> set (filter waiting rows2)"
      unfolding w using Cons.prems by (auto simp: untouched_def) (metis image_eqI)
    from Cons.IH [OF this] Cons.prems(2)
    have ih: "fst (provision_loop reserved run gs rows2) = first_proper reserved gs"
      "filter waiting (snd (provision_loop reserved run gs rows2)) = untouched ?K (filter waiting rows2)"
      "untouched ?K (snd (provision_loop reserved run gs rows2)) = untouched ?K rows2" by simp_all
    have swap: "untouched ?K (untouched {?k} xs) = untouched {?k} (untouched ?K xs)" for xs
      by (auto simp: untouched_def conj_commute intro: filter_cong)
    have K: "inf_pk ` set (settled reserved (g # gs)) = insert ?k ?K" using True by (simp add: settled_Cons)
    show ?thesis
      unfolding eq K untouched_insert [of ?k ?K] using ih True by (simp add: first_proper_Cons w u swap [symmetric])
  qed
qed

lemma pending_infra_waiting: "pending_infra rows = order_by inf_pk (filter waiting rows)"
  by (simp add: pending_infra_def waiting_def [abs_def])

lemma pending_keys: "distinct (map inf_pk rows) \<Longrightarrow> distinct (map inf_pk (pending_infra rows))"
  by (simp add: pending_infra_def order_by_def distinct_map inj_on_def)

lemma settled_prefix: "pending = settled reserved pending @ drop (length (settled reserved pending)) pending"
  by (induction pending) (auto simp: settled_def)

lemma untouched_prefix:
  assumes "distinct (map inf_pk (xs @ ys))"
  shows "untouched (inf_pk ` set xs) (xs @ ys) = ys"
proof -
  have "untouched (inf_pk ` set xs) xs = []" by (auto simp: untouched_def filter_empty_conv)
  moreover have "untouched (inf_pk ` set xs) ys = ys" unfolding untouched_def using assms by (intro filter_True) auto
  ultimately show ?thesis by (simp add: untouched_def)
qed

lemma first_proper_settled:
  "filter (\<lambda>r. inf_subdomain r \<notin> reserved) pending =
   filter (\<lambda>r. inf_subdomain r \<notin> reserved) (settled reserved pending) @
   filter (\<lambda>r. inf_subdomain r \<notin> reserved) (drop (length (settled reserved pending)) pending)"
  using settled_prefix [of pending reserved] by (metis filter_append)

lemma settled_proper:
  "map inf_subdomain (filter (\<lambda>r. inf_subdomain r \<notin> reserved) (settled reserved pending)) =
   (case first_proper reserved pending of None \<Rightarrow> [] | Some d \<Rightarrow> [d])"
  by (induction pending) (auto simp: settled_def first_proper_def)

lemma settled_nonempty: "pending \<noteq> [] \<Longrightarrow> settled reserved pending \<noteq> []"
  by (cases pending) (auto simp: settled_def)

text \<open>One run, as what it does to the queue.\<close>

lemma one_run:
  assumes "distinct (map inf_pk rows)" and "provision_pending_tenants reserved True run rows = (job, rows')"
  shows "job = first_proper reserved (pending_infra rows) \<and>
    pending_infra rows' = drop (length (settled reserved (pending_infra rows))) (pending_infra rows) \<and>
    untouched (inf_pk ` set (pending_infra rows)) rows' = untouched (inf_pk ` set (pending_infra rows)) rows"
proof (cases "pending_infra rows = []")
  case True
  with assms(2) show ?thesis by (simp add: provision_pending_tenants_def first_proper_def)
next
  case False
  let ?P = "pending_infra rows" and ?K = "inf_pk ` set (settled reserved (pending_infra rows))"
  have d: "distinct (map inf_pk ?P)" using pending_keys [OF assms(1)] .
  have "set ?P \<subseteq> set (filter waiting rows)" by (simp add: pending_infra_waiting order_by_def)
  from provision_loop_settles [OF this d, of reserved run] False assms(2)
  have l: "job = first_proper reserved ?P" "filter waiting rows' = untouched ?K (filter waiting rows)" "untouched ?K rows' = untouched ?K rows"
    by (simp_all add: provision_pending_tenants_def)
  have "pending_infra rows' = untouched ?K ?P"
    unfolding pending_infra_waiting l(2) by (simp add: untouched_def order_by_def filter_sort)
  also have "\<dots> = drop (length (settled reserved ?P)) ?P"
    using untouched_prefix [of "settled reserved ?P" "drop (length (settled reserved ?P)) ?P"] settled_prefix [of ?P reserved] d by metis
  finally have q: "pending_infra rows' = drop (length (settled reserved ?P)) ?P" .
  have "set (settled reserved ?P) \<subseteq> set ?P" using settled_prefix [of ?P reserved] by (metis Un_upper1 set_append)
  then have "untouched (inf_pk ` set ?P) xs = untouched (inf_pk ` set ?P) (untouched ?K xs)" for xs
    by (auto simp: untouched_def intro!: filter_cong)
  with l(1,3) q show ?thesis by metis
qed

fun drain :: "string set \<Rightarrow> (string \<Rightarrow> job_outcome) list \<Rightarrow> infra_row list \<Rightarrow> string list \<times> infra_row list" where
  "drain reserved [] rows = ([], rows)"
| "drain reserved (run # runs) rows =
     (let (job, rows1) = provision_pending_tenants reserved True run rows; (jobs, rows2) = drain reserved runs rows1
      in ((case job of None \<Rightarrow> [] | Some d \<Rightarrow> [d]) @ jobs, rows2))"

lemma one_run_keys: "provision_pending_tenants reserved able run rows = (job, rows') \<Longrightarrow> map inf_pk rows' = map inf_pk rows"
proof -
  have c: "map inf_pk (snd (claim_infra k rs)) = map inf_pk rs" "map inf_pk (finish_infra k st m rs) = map inf_pk rs" for k st m rs
    by (auto simp: claim_infra_def finish_infra_def update_rows_def)
  have "map inf_pk (snd (provision_loop reserved run pending rs)) = map inf_pk rs" for pending rs
    by (induction pending arbitrary: rs) (auto simp: split_beta c)
  moreover assume "provision_pending_tenants reserved able run rows = (job, rows')"
  ultimately show ?thesis by (auto simp: provision_pending_tenants_def split: if_splits) (metis snd_conv)
qed

text \<open>
  Property C33. The queue of set-ups drains: as many runs of the worker as there are theaters queued, of
  which each runs the tool at most once, have run it for exactly the queued theaters with a proper name,
  each once and the oldest row first, whatever the tool answered; none is left in the queue, no
  reserved name was set up, and no theater that was not queued has changed.
\<close>

theorem infra_queue_drains:
  assumes "distinct (map inf_pk rows)" and "length (pending_infra rows) \<le> length runs"
    and "drain reserved runs rows = (jobs, rows')"
  shows "jobs = map inf_subdomain (filter (\<lambda>r. inf_subdomain r \<notin> reserved) (pending_infra rows)) \<and>
    pending_infra rows' = [] \<and>
    untouched (inf_pk ` set (pending_infra rows)) rows' = untouched (inf_pk ` set (pending_infra rows)) rows"
  using assms
proof (induction runs arbitrary: rows jobs rows')
  case Nil
  then show ?case by simp
next
  case (Cons run runs)
  let ?P = "pending_infra rows"
  obtain job rows1 where r: "provision_pending_tenants reserved True run rows = (job, rows1)" by (metis surj_pair)
  obtain jobs2 where d: "drain reserved runs rows1 = (jobs2, rows')"
    and j: "jobs = (case job of None \<Rightarrow> [] | Some d \<Rightarrow> [d]) @ jobs2"
    using Cons.prems(3) r by (auto split: prod.splits)
  note o = one_run [OF Cons.prems(1) r]
  have keys: "distinct (map inf_pk rows1)" using Cons.prems(1) by (simp only: one_run_keys [OF r])
  have P: "pending_infra rows1 = drop (length (settled reserved ?P)) ?P" using o by simp
  have "length (pending_infra rows1) \<le> length runs"
  proof (cases "?P = []")
    case True
    then show ?thesis by (simp add: P)
  next
    case False
    then have "settled reserved ?P \<noteq> []" by (rule settled_nonempty)
    then show ?thesis using Cons.prems(2) by (cases "settled reserved ?P") (simp_all add: P)
  qed
  note ih = Cons.IH [OF keys this d]
  have "jobs = map inf_subdomain (filter (\<lambda>r. inf_subdomain r \<notin> reserved) ?P)"
    using ih o settled_proper [of reserved ?P] first_proper_settled [of reserved ?P] by (simp add: j P)
  moreover have "set (pending_infra rows1) \<subseteq> set ?P" unfolding P by (rule set_drop_subset)
  then have "untouched (inf_pk ` set ?P) xs = untouched (inf_pk ` set ?P) (untouched (inf_pk ` set (pending_infra rows1)) xs)" for xs
    by (auto simp: untouched_def intro!: filter_cong)
  then have "untouched (inf_pk ` set ?P) rows' = untouched (inf_pk ` set ?P) rows" using ih o by metis
  ultimately show ?case using ih by blast
qed

text \<open>Two theaters and a reserved name in the queue; the tool fails for the first.\<close>

definition infra_queue :: "infra_row list" where
  "infra_queue =
     [\<lparr>inf_pk = 1, inf_subdomain = ''roxy'', inf_status = InfraPending, inf_message = []\<rparr>,
      \<lparr>inf_pk = 2, inf_subdomain = ''beta'', inf_status = InfraPending, inf_message = []\<rparr>,
      \<lparr>inf_pk = 3, inf_subdomain = ''lyric'', inf_status = InfraPending, inf_message = []\<rparr>,
      \<lparr>inf_pk = 4, inf_subdomain = ''odeon'', inf_status = InfraProvisioned, inf_message = ''Provisioned.''\<rparr>]"

lemma infra_queue_drains_witness:
  "fst (drain {''beta''} [\<lambda>_. TimedOut, \<lambda>_. Exited 0 [], \<lambda>_. Exited 0 []] infra_queue) = [''roxy'', ''lyric''] \<and>
   pending_infra (snd (drain {''beta''} [\<lambda>_. TimedOut, \<lambda>_. Exited 0 [], \<lambda>_. Exited 0 []] infra_queue)) = []"
proof -
  have p: "map inf_subdomain (pending_infra infra_queue) = [''roxy'', ''beta'', ''lyric'']"
    by (simp add: pending_infra_def infra_queue_def order_by_def)
  then have l: "length (pending_infra infra_queue) = 3" using length_map [of inf_subdomain "pending_infra infra_queue"] by simp
  have "map inf_subdomain (filter (\<lambda>r. inf_subdomain r \<notin> {''beta''}) (pending_infra infra_queue)) = [''roxy'', ''lyric'']"
    using p by (auto simp: pending_infra_def infra_queue_def order_by_def)
  moreover have "distinct (map inf_pk infra_queue)" by (simp add: infra_queue_def)
  ultimately show ?thesis
    using infra_queue_drains [of infra_queue "[\<lambda>_. TimedOut, \<lambda>_. Exited 0 [], \<lambda>_. Exited 0 []]" "{''beta''}"] l
    by (metis (no_types, lifting) length_Cons list.size(3) numeral_3_eq_3 order_refl prod.collapse)
qed

section \<open>Overlapping runs\<close>

text \<open>The row a run has claimed and not yet reported on.\<close>

fun claimed_by :: "worker \<Rightarrow> nat option" where
  "claimed_by (WRefuse g gs) = Some (inf_pk g)"
| "claimed_by (WRunning g) = Some (inf_pk g)"
| "claimed_by w = None"

definition marked :: "nat \<Rightarrow> infra_row list \<Rightarrow> bool" where
  "marked k rows \<longleftrightarrow> (\<exists>r\<in>set rows. inf_pk r = k \<and> inf_status r = InfraProvisioning)"

text \<open>A claimed row is marked, no two runs have claimed one, and the tool runs for proper names only.\<close>

definition claims_apart :: "string set \<Rightarrow> provisioning \<Rightarrow> bool" where
  "claims_apart reserved p \<longleftrightarrow> distinct (map inf_pk (pv_rows p)) \<and>
     (\<forall>w k. claimed_by (pv_workers p w) = Some k \<longrightarrow> marked k (pv_rows p)) \<and>
     (\<forall>v w k. claimed_by (pv_workers p v) = Some k \<and> claimed_by (pv_workers p w) = Some k \<longrightarrow> v = w) \<and>
     (\<forall>w g. pv_workers p w = WRunning g \<longrightarrow> inf_subdomain g \<notin> reserved)"

lemma status_of_key:
  "distinct (map inf_pk rows) \<Longrightarrow> r \<in> set rows \<Longrightarrow> r' \<in> set rows \<Longrightarrow> inf_pk r = inf_pk r' \<Longrightarrow> r = r'"
  by (meson distinct_map inj_onD)

lemma marked_list [simp]: "marked k [] \<longleftrightarrow> False" "marked k (r # rows) \<longleftrightarrow> inf_pk r = k \<and> inf_status r = InfraProvisioning \<or> marked k rows"
  by (auto simp: marked_def)

lemma marked_finish: "marked k (finish_infra j st m rows) \<longleftrightarrow> (if k = j then st = InfraProvisioning \<and> j \<in> inf_pk ` set rows else marked k rows)"
  by (induction rows) (auto simp: finish_infra_def update_rows_def)

lemma marked_claim: "marked k (snd (claim_infra j rows)) \<longleftrightarrow> marked k rows \<or> k = j \<and> fst (claim_infra j rows)"
  by (induction rows) (auto simp: claim_infra_def update_rows_def)

lemma keys_after [simp]:
  "map inf_pk (finish_infra j st m rows) = map inf_pk rows" "map inf_pk (snd (claim_infra j rows)) = map inf_pk rows"
  "map inf_pk (snd (snd (provision_infrastructure selected rows))) = map inf_pk rows"
  by (auto simp: finish_infra_def claim_infra_def provision_infrastructure_def update_rows_def Let_def)

lemma free_to_claim: "distinct (map inf_pk rows) \<Longrightarrow> fst (claim_infra k rows) \<Longrightarrow> \<not> marked k rows"
  by (induction rows) (auto simp: claim_infra_def marked_def image_iff)

lemma marked_queued:
  "\<forall>r\<in>set rows. selected (inf_pk r) \<longrightarrow> inf_status r \<noteq> InfraProvisioning \<Longrightarrow> marked k rows \<Longrightarrow>
   marked k (snd (snd (provision_infrastructure selected rows)))"
  by (induction rows) (auto simp: provision_infrastructure_def update_rows_def Let_def)

lemma set_worker_simps [simp]:
  "pv_rows (set_worker w x p) = pv_rows p" "pv_workers (set_worker w x p) = (pv_workers p)(w := x)"
  by (simp_all add: set_worker_def)

lemma set_worker_rows:
  "pv_rows (set_worker w x (p\<lparr>pv_rows := rows\<rparr>)) = rows" "pv_workers (set_worker w x (p\<lparr>pv_rows := rows\<rparr>)) = (pv_workers p)(w := x)"
  by (simp_all add: set_worker_def)

text \<open>The three ways a step can move a run's claim: it drops it, it takes a free row, or it goes on without one.\<close>

lemma claims_move:
  assumes p: "claims_apart reserved p" and d: "distinct (map inf_pk rows)"
    and x: "claimed_by x = None \<or> (\<exists>k. claimed_by x = Some k \<and> marked k rows \<and> \<not> marked k (pv_rows p))"
    and others: "\<And>v k. v \<noteq> w \<Longrightarrow> claimed_by (pv_workers p v) = Some k \<Longrightarrow> marked k (pv_rows p) \<Longrightarrow> marked k rows"
    and run: "\<And>g. x = WRunning g \<Longrightarrow> inf_subdomain g \<notin> reserved"
  shows "claims_apart reserved (set_worker w x (p\<lparr>pv_rows := rows\<rparr>))"
proof -
  have m: "marked k (pv_rows p)" if "claimed_by (pv_workers p v) = Some k" for v k using p that by (auto simp: claims_apart_def)
  have "marked k rows" if "claimed_by (((pv_workers p)(w := x)) v) = Some k" for v k
    using that x others m by (auto split: if_splits)
  moreover have "v = v'" if "claimed_by (((pv_workers p)(w := x)) v) = Some k" "claimed_by (((pv_workers p)(w := x)) v') = Some k" for v v' k
  proof -
    have "u = u'" if "claimed_by (pv_workers p u) = Some k" "claimed_by (pv_workers p u') = Some k" for u u'
      using p that by (auto simp: claims_apart_def)
    with that x m show ?thesis by (auto split: if_splits)
  qed
  moreover have "inf_subdomain g \<notin> reserved" if "((pv_workers p)(w := x)) v = WRunning g" for v g
    using that run p by (auto simp: claims_apart_def split: if_splits)
  ultimately show ?thesis using d by (simp only: claims_apart_def set_worker_rows) blast
qed

lemma claims_apart_step:
  assumes p: "claims_apart reserved p" and step: "infra_step reserved True p q"
  shows "claims_apart reserved q"
proof -
  have d: "distinct (map inf_pk (pv_rows p))" using p by (simp add: claims_apart_def)
  have same: "p\<lparr>pv_rows := pv_rows p\<rparr> = p" by simp
  have idle: "claims_apart reserved (set_worker w x p)" if "claimed_by x = None" "\<And>g. x \<noteq> WRunning g" for w x
    using claims_move [OF p d, of x w] that by simp
  have ends: "claims_apart reserved (set_worker w x (p\<lparr>pv_rows := finish_infra k st m (pv_rows p)\<rparr>))"
    if "claimed_by (pv_workers p w) = Some k" "claimed_by x = None" "\<And>g. x \<noteq> WRunning g" for w x k st m
  proof (rule claims_move [OF p])
    fix v j assume "v \<noteq> w" "claimed_by (pv_workers p v) = Some j" "marked j (pv_rows p)"
    moreover from this that(1) have "j \<noteq> k" using p unfolding claims_apart_def by blast
    ultimately show "marked j (finish_infra k st m (pv_rows p))" by (simp add: marked_finish)
  qed (use d that in simp_all)
  have take: "claims_apart reserved (set_worker w x (p\<lparr>pv_rows := snd (claim_infra k (pv_rows p))\<rparr>))"
    if "fst (claim_infra k (pv_rows p))" "claimed_by x = Some k" "\<And>g. x = WRunning g \<Longrightarrow> inf_subdomain g \<notin> reserved" for w x k
    by (rule claims_move [OF p]) (use d that free_to_claim [OF d that(1)] in \<open>simp_all add: marked_claim\<close>)
  from step show ?thesis
  proof (cases rule: infra_step.cases)
    case (queue selected)
    then show ?thesis using p marked_queued by (auto simp: claims_apart_def)
  next
    case (created r)
    then show ?thesis using p by (auto simp: claims_apart_def marked_def)
  next
    case (refuse w g gs)
    then show ?thesis using take [of "inf_pk g" "WRefuse g gs" w] by simp
  next
    case (spawn w g gs)
    then show ?thesis using take [of "inf_pk g" "WRunning g" w] by simp
  qed (use idle ends in \<open>simp_all\<close>)
qed

interpretation infra_inv: inductive_invariant all_idle "infra_step reserved True" "claims_apart reserved" for reserved
  by unfold_locales (simp add: all_idle_def claims_apart_def, rule claims_apart_step)

text \<open>
  Property C34. While the admin queues no theater that is being set up, overlapping, crashing and
  restarted runs of the worker never run the tool for one theater at the same time; a theater for which
  it runs is marked as being set up, and it never runs for a reserved name.
\<close>

theorem no_theater_is_set_up_twice:
  assumes "reachable all_idle (infra_step reserved True) p"
    and "pv_workers p v = WRunning g" and "pv_workers p w = WRunning h"
  shows "(inf_pk g = inf_pk h \<longrightarrow> v = w) \<and> marked (inf_pk g) (pv_rows p) \<and> inf_subdomain g \<notin> reserved"
proof -
  have c: "claims_apart reserved p" using infra_inv.reachable_inv [OF assms(1)] .
  have "claimed_by (pv_workers p v) = Some (inf_pk g)" "claimed_by (pv_workers p w) = Some (inf_pk h)"
    using assms(2,3) by simp_all
  with c assms(2) show ?thesis unfolding claims_apart_def by metis
qed

definition one_queued :: infra_row where
  "one_queued = \<lparr>inf_pk = 1, inf_subdomain = ''roxy'', inf_status = InfraPending, inf_message = []\<rparr>"

definition first_run :: provisioning where
  "first_run = \<lparr>pv_rows = [one_queued\<lparr>inf_status := InfraProvisioning\<rparr>], pv_workers = (\<lambda>_. WIdle)(0 := WRunning one_queued)\<rparr>"

lemma claim_one: "claim_infra 1 [one_queued] = (True, [one_queued\<lparr>inf_status := InfraProvisioning\<rparr>])"
  by (simp add: claim_infra_def update_rows_def one_queued_def)

lemma pending_one: "pending_infra [one_queued] = [one_queued]"
  by (simp add: pending_infra_def order_by_def one_queued_def)

text \<open>Any run that finds the row queued comes to wait for the tool.\<close>

lemma run_spawns:
  assumes "reachable all_idle (infra_step {} calm) \<lparr>pv_rows = [r], pv_workers = ws\<rparr>" and "ws w = WIdle"
    and "inf_status r = InfraPending"
  shows "reachable all_idle (infra_step {} calm) \<lparr>pv_rows = [r\<lparr>inf_status := InfraProvisioning\<rparr>], pv_workers = ws(w := WRunning r)\<rparr>"
proof -
  let ?p = "\<lparr>pv_rows = [r], pv_workers = ws\<rparr>"
  let ?q = "set_worker w (WScan [r]) ?p"
  have pend: "pending_infra [r] = [r]" using assms(3) by (simp add: pending_infra_def order_by_def)
  have claim: "claim_infra (inf_pk r) [r] = (True, [r\<lparr>inf_status := InfraProvisioning\<rparr>])"
    using assms(3) by (simp add: claim_infra_def update_rows_def)
  have "infra_step {} calm ?p ?q" using infra_step.tick [of ?p w "{}" calm] assms(2) pend by simp
  with assms(1) have q: "reachable all_idle (infra_step {} calm) ?q" by (rule reachable.move)
  have "infra_step {} calm ?q (set_worker w (WRunning r) (?q\<lparr>pv_rows := [r\<lparr>inf_status := InfraProvisioning\<rparr>]\<rparr>))"
    using infra_step.spawn [of ?q w r "[]" "{}" calm] claim by simp
  with q have "reachable all_idle (infra_step {} calm) (set_worker w (WRunning r) (?q\<lparr>pv_rows := [r\<lparr>inf_status := InfraProvisioning\<rparr>]\<rparr>))"
    by (rule reachable.move)
  then show ?thesis by (simp add: set_worker_def)
qed

lemma first_run_reached: "reachable all_idle (infra_step {} calm) first_run"
proof -
  have "reachable all_idle (infra_step {} calm) \<lparr>pv_rows = [one_queued], pv_workers = \<lambda>_. WIdle\<rparr>"
    by (rule reachable.start) (simp add: all_idle_def)
  from run_spawns [OF this, of 0] show ?thesis by (simp add: first_run_def one_queued_def)
qed

lemma no_theater_is_set_up_twice_witness: "marked 1 (pv_rows first_run)"
  using no_theater_is_set_up_twice [OF first_run_reached, of 0 one_queued 0 one_queued]
  by (simp add: first_run_def one_queued_def)

text \<open>
  The admin may queue a theater that is being set up (to recover one whose run died). If its run is
  alive, the next run of the worker runs the tool for the same theater at the same time.
\<close>

lemma requeued_theater_is_set_up_twice:
  "\<exists>p g h. reachable all_idle (infra_step {} False) p \<and> pv_workers p 0 = WRunning g \<and> pv_workers p 1 = WRunning h \<and> inf_pk g = inf_pk h"
proof -
  let ?again = "one_queued\<lparr>inf_message := ''Queued from admin.''\<rparr>"
  have "infra_step {} False first_run (first_run\<lparr>pv_rows := snd (snd (provision_infrastructure (\<lambda>_. True) (pv_rows first_run)))\<rparr>)"
    by (rule infra_step.queue) simp
  then have "infra_step {} False first_run \<lparr>pv_rows = [?again], pv_workers = (\<lambda>_. WIdle)(0 := WRunning one_queued)\<rparr>"
    by (simp add: first_run_def provision_infrastructure_def update_rows_def Let_def one_queued_def)
  with first_run_reached have "reachable all_idle (infra_step {} False) \<lparr>pv_rows = [?again], pv_workers = (\<lambda>_. WIdle)(0 := WRunning one_queued)\<rparr>"
    by (rule reachable.move)
  from run_spawns [OF this, of 1] show ?thesis
    by (intro exI [of _ "\<lparr>pv_rows = [?again\<lparr>inf_status := InfraProvisioning\<rparr>], pv_workers = ((\<lambda>_. WIdle)(0 := WRunning one_queued))(1 := WRunning ?again)\<rparr>"]
        exI [of _ one_queued] exI [of _ ?again]) (simp add: one_queued_def)
qed

text \<open>And what the admin queued while a run was alive is forgotten when that run reports.\<close>

lemma requeued_request_is_lost:
  "pending_infra (finish_infra 1 InfraProvisioned m
     (snd (snd (provision_infrastructure (\<lambda>_. True) [one_queued\<lparr>inf_status := InfraProvisioning\<rparr>])))) = []"
  by (simp add: pending_infra_def order_by_def finish_infra_def provision_infrastructure_def update_rows_def Let_def one_queued_def)

section \<open>A theater under its name\<close>

lemma resolve_by_subdomain:
  "resolve_tenant base reserved False override host orgs =
     (let d = subdomain_from_host base host
      in if d = [] \<or> d \<in> reserved then Inr None
         else (case first_row (filter (\<lambda>g. org_subdomain g = d) orgs) of
             None \<Rightarrow> Inl UnknownTenant
           | Some g \<Rightarrow> if org_is_active g then Inr (Some g) else Inl InactiveTenant))"
  by (auto simp: resolve_tenant_def dev_override_subdomain_def Let_def or_raise_def guardE_def split: option.splits)

lemma subdomain_of_own_host:
  assumes "lower (takeWhile (\<lambda>c. c \<noteq> CHR '':'') host) = d @ CHR ''.'' # lower base" and "d \<noteq> []"
  shows "subdomain_from_host base host = d"
  using assms by (simp add: subdomain_from_host_def Let_def)

lemma no_other_row: "org_by_subdomain d s = None \<Longrightarrow> filter (\<lambda>g. org_subdomain g = d) (db_orgs s) = []"
  by (simp add: org_by_subdomain_def)

lemma provision_creates:
  assumes "provision_tenant reserved base slugify slug_of label name email s = (Created g, s')"
  shows "lower (strip label) \<noteq> []" "lower (strip label) \<notin> reserved" "lower (strip label) = slugify (lower (strip label))"
    "org_by_subdomain (lower (strip label)) s = None" "org_subdomain g = lower (strip label)" "org_is_active g" "org_pk g = db_next s"
    "s' = s\<lparr>db_orgs := db_orgs s @ [g], db_next := Suc (db_next s)\<rparr>"
  using assms by (auto simp: provision_tenant_def Let_def new_organization_def split: if_splits option.splits)

text \<open>
  Property C35. A theater that is created answers under its name and no other theater's answer changes;
  creating it again finds it and changes nothing; when it is retired its name answers that it is not
  active, and every other name answers what it did before it was created.
\<close>

theorem created_theater_answers:
  assumes "provision_tenant reserved base slugify slug_of label name email s = (Created g, s1)"
    and "\<forall>x\<in>set (db_orgs s). org_pk x < db_next s"
    and "lower (takeWhile (\<lambda>c. c \<noteq> CHR '':'') host) = lower (strip label) @ CHR ''.'' # lower base"
    and "subdomain_from_host base other \<noteq> lower (strip label)"
    and "remove_tenant label False s1 = (r, s2)"
  shows "resolve_tenant base reserved False o1 host (db_orgs s1) = Inr (Some g) \<and>
    resolve_tenant base reserved False o2 other (db_orgs s1) = resolve_tenant base reserved False o2 other (db_orgs s) \<and>
    provision_tenant reserved base slugify slug_of label name2 email2 s1 = (Existing g, s1) \<and>
    r = Deactivated \<and> resolve_tenant base reserved False o3 host (db_orgs s2) = Inl InactiveTenant \<and>
    resolve_tenant base reserved False o4 other (db_orgs s2) = resolve_tenant base reserved False o4 other (db_orgs s)"
proof -
  let ?d = "lower (strip label)"
  note c = provision_creates [OF assms(1)]
  have d: "subdomain_from_host base host = ?d" by (rule subdomain_of_own_host [OF assms(3) c(1)])
  have none: "filter (\<lambda>x. org_subdomain x = ?d) (db_orgs s) = []" using no_other_row [OF c(4)] .
  have s1: "db_orgs s1 = db_orgs s @ [g]" by (simp add: c(8))
  then have f1: "org_by_subdomain ?d s1 = Some g" using none c(5) by (simp add: org_by_subdomain_def)
  have r: "r = Deactivated" "s2 = s1\<lparr>db_orgs := update_rows (\<lambda>x. org_pk x = org_pk g) (\<lambda>x. x\<lparr>org_is_active := False\<rparr>) (db_orgs s1)\<rparr>"
    using assms(5) f1 c(6) by (auto simp: remove_tenant_def)
  have "update_rows (\<lambda>x. org_pk x = org_pk g) f (db_orgs s) = db_orgs s" for f
    using assms(2) c(7) by (auto simp: update_rows_def intro!: map_idI)
  then have s2: "db_orgs s2 = db_orgs s @ [g\<lparr>org_is_active := False\<rparr>]"
    by (simp add: r(2) s1 update_rows_def)
  then have f2: "org_by_subdomain ?d s2 = Some (g\<lparr>org_is_active := False\<rparr>)" using none c(5) by (simp add: org_by_subdomain_def)
  have neq: "lower (strip label) \<noteq> subdomain_from_host base other" using assms(4) by simp
  have others: "resolve_tenant base reserved False ov other (db_orgs s1) = resolve_tenant base reserved False ov other (db_orgs s)"
    "resolve_tenant base reserved False ov other (db_orgs s2) = resolve_tenant base reserved False ov other (db_orgs s)" for ov
    by (simp_all add: resolve_by_subdomain s1 s2 c(5) neq Let_def)
  have "resolve_tenant base reserved False o1 host (db_orgs s1) = Inr (Some g)"
    "resolve_tenant base reserved False o3 host (db_orgs s2) = Inl InactiveTenant"
    using c f1 f2 by (simp_all add: resolve_by_subdomain d org_by_subdomain_def)
  moreover have "provision_tenant reserved base slugify slug_of label name2 email2 s1 = (Existing g, s1)"
    using c(1,2) f1 c(3) [symmetric] by (simp_all add: provision_tenant_def Let_def)
  ultimately show ?thesis using others r(1) by blast
qed

lemma created_theater_answers_witness:
  "\<exists>g s1. provision_tenant {''www''} ''boxo.show'' lower (\<lambda>k. if k = 1 then ''roxy'' else ''lyric'') '' Odeon'' None None demo = (Created g, s1) \<and>
     resolve_tenant ''boxo.show'' {''www''} False [] ''ODEON.boxo.show'' (db_orgs s1) = Inr (Some g) \<and>
     fst (remove_tenant '' Odeon'' False s1) = Deactivated"
proof -
  have l: "lower (strip '' Odeon'') = ''odeon''" "lower ''odeon'' = ''odeon''" by code_simp+
  have orgs: "db_orgs demo = [roxy, lyric]" "org_subdomain roxy = ''roxy''" "org_subdomain lyric = ''lyric''" "org_pk roxy = 1" "org_pk lyric = 2"
    by (simp_all add: demo_def roxy_def lyric_def)
  obtain g s1 where p: "provision_tenant {''www''} ''boxo.show'' lower (\<lambda>k. if k = 1 then ''roxy'' else ''lyric'') '' Odeon'' None None demo = (Created g, s1)"
    by (simp add: provision_tenant_def l Let_def org_by_subdomain_def slug_in_use_def orgs)
  have pks: "\<forall>x\<in>set (db_orgs demo). org_pk x < db_next demo" by (simp add: orgs demo_def)
  have host: "lower (takeWhile (\<lambda>c. c \<noteq> CHR '':'') ''ODEON.boxo.show'') = lower (strip '' Odeon'') @ CHR ''.'' # lower ''boxo.show''"
    by code_simp
  have "subdomain_from_host ''boxo.show'' ''roxy.boxo.show'' = ''roxy''" by code_simp
  then have other: "subdomain_from_host ''boxo.show'' ''roxy.boxo.show'' \<noteq> lower (strip '' Odeon'')" by (simp add: l)
  obtain r s2 where rm: "remove_tenant '' Odeon'' False s1 = (r, s2)" by (metis surj_pair)
  from created_theater_answers [OF p pks host other rm] p rm show ?thesis by (intro exI [of _ g] exI [of _ s1]) (metis fst_conv)
qed

text \<open>
  The message of a deactivation offers \<open>provision_tenant\<close> to bring the theater back: the command finds a
  retired theater and leaves it retired.
\<close>

lemma retired_theater_stays_retired:
  assumes "lower (strip label) \<noteq> []" "lower (strip label) \<notin> reserved" "slugify (lower (strip label)) = lower (strip label)"
    and "org_by_subdomain (lower (strip label)) s = Some g"
    and "remove_tenant label False s = (r, s')"
  shows "\<exists>g'. provision_tenant reserved base slugify slug_of label name email s' = (Existing g', s') \<and> \<not> org_is_active g'"
proof -
  have sub: "org_subdomain g = lower (strip label)" using first_row_Some [OF assms(4) [unfolded org_by_subdomain_def]] by simp
  have "\<exists>g'. org_by_subdomain (lower (strip label)) s' = Some g' \<and> \<not> org_is_active g'"
  proof (cases "org_is_active g")
    case False
    with assms(4,5) show ?thesis by (auto simp: remove_tenant_def)
  next
    case True
    then have s': "db_orgs s' = update_rows (\<lambda>x. org_pk x = org_pk g) (\<lambda>x. x\<lparr>org_is_active := False\<rparr>) (db_orgs s)"
      using assms(4,5) by (auto simp: remove_tenant_def)
    obtain rest where "filter (\<lambda>x. org_subdomain x = lower (strip label)) (db_orgs s) = g # rest"
      using assms(4) by (cases "filter (\<lambda>x. org_subdomain x = lower (strip label)) (db_orgs s)") (auto simp: org_by_subdomain_def)
    then show ?thesis
      by (simp add: org_by_subdomain_def s' update_rows_def filter_map comp_def if_distrib [of org_subdomain] cong: if_cong)
  qed
  then obtain g' where "org_by_subdomain (lower (strip label)) s' = Some g'" "\<not> org_is_active g'" by blast
  with assms(1-3) show ?thesis by (simp add: provision_tenant_def Let_def)
qed

text \<open>A theater that has a performance cannot be purged: its venue is protected.\<close>

lemma purge_is_refused: "remove_tenant ''roxy'' True demo = (PurgeRefused, demo)"
proof -
  have l: "lower (strip ''roxy'') = ''roxy''" by code_simp
  have "org_by_subdomain ''roxy'' demo = Some roxy" "org_pk roxy = 1"
    by (simp_all add: org_by_subdomain_def demo_def roxy_def)
  moreover have "purge_protected 1 demo"
    by (simp add: purge_protected_def demo_def main_hall_def ga_show_def)
  ultimately show ?thesis by (simp add: remove_tenant_def l)
qed

text \<open>The admin accepts capitals in a subdomain; hosts are lowered before the lookup, so such a theater is never served.\<close>

lemma capital_subdomain_is_unreachable:
  assumes "lower (org_subdomain g) \<noteq> org_subdomain g"
  shows "resolve_tenant base reserved False override host orgs \<noteq> Inr (Some g)"
proof
  assume "resolve_tenant base reserved False override host orgs = Inr (Some g)"
  then have g: "org_subdomain g = subdomain_from_host base host" "subdomain_from_host base host \<noteq> []"
    by (auto simp: resolve_by_subdomain Let_def split: if_splits option.splits dest: first_row_Some)
  have "lower (subdomain_from_host base host) = subdomain_from_host base host"
    by (auto simp: subdomain_from_host_def Let_def lower_def take_map [symmetric] comp_def)
  with g assms show False by simp
qed

end
