(* ===== verification/ChartUpload.thy ===== *)
theory ChartUpload
  imports ParsingFacts Tenancy
begin

text \<open>
  From an uploaded file to a chart: the call of the vision service (venues/chart_parsing.py:
  \<open>_get_client\<close>, \<open>_content_block\<close>, \<open>parse_chart_file\<close>, \<open>_usage_dict\<close>, \<open>describe_usage\<close>), the dashboard's
  upload (\<open>chart_parse_upload\<close>) and the command \<open>parse_seating_chart\<close>. The service's client is a
  parameter; a block's text stands beside the value \<open>json.loads\<close> gives for it (None: it raises).
  The property says what a chart read from a drawing holds, seat by seat, in terms of the spec alone.
\<close>

section \<open>The service\<close>

record usage_row =
  us_model :: string
  us_input :: "int option"
  us_output :: "int option"
  us_cache_read :: "int option"
  us_cache_creation :: "int option"

record answer_block =
  ab_type :: string
  ab_text :: string
  ab_json :: "json option"

record service_answer =
  sa_stop_reason :: string
  sa_content :: "answer_block list"
  sa_usage :: "(int option \<times> int option \<times> int option \<times> int option) option"

text \<open>The exceptions of a request: the first four are caught.\<close>

datatype service_failure = NoCredential | AuthenticationFailed | StatusError int | ConnectionFailed | OtherFailure

text \<open>The block a file is sent in; its bytes travel in base64.\<close>

datatype content_block = DocumentBlock string string | ImageBlock string string

definition content_block_of :: "string \<Rightarrow> string \<Rightarrow> content_block" where
  "content_block_of data media_type =
     (if media_type = ''application/pdf'' then DocumentBlock media_type data else ImageBlock media_type data)"

text \<open>The SDK's client: whether it can be built with the configured key, and what a request answers.\<close>

record vision_client =
  vc_builds :: "string option \<Rightarrow> bool"
  vc_ask :: "string \<Rightarrow> content_block \<Rightarrow> service_failure + service_answer"

record parsing_settings =
  ps_api_key :: string
  ps_model :: string

datatype parse_error =
    UnsupportedType
  | FileTooLarge
  | EmptyFile
  | NotConfigured
  | BadApiKey
  | ServiceError int
  | ServiceUnreachable
  | ParseDeclined
  | TooComplex
  | NoResult
  | UnreadableResult
  | SpecError chart_error
  | RequestCrash

definition max_upload_bytes :: nat where "max_upload_bytes = 20 * 1024 * 1024"

definition usage_of :: "string \<Rightarrow> service_answer \<Rightarrow> usage_row" where
  "usage_of model response =
     (let (i, ou, cr, cc) = (case sa_usage response of None \<Rightarrow> (None, None, None, None) | Some u \<Rightarrow> u)
      in \<lparr>us_model = model, us_input = i, us_output = ou, us_cache_read = cr, us_cache_creation = cc\<rparr>)"

definition spec_of_answer :: "(json \<Rightarrow> string) \<Rightarrow> string \<Rightarrow> service_answer \<Rightarrow> parse_error + (chart_spec \<times> usage_row)" where
  "spec_of_answer repr model response =
     bindE (guardE (sa_stop_reason response \<noteq> ''refusal'') ParseDeclined) (\<lambda>_.
     bindE (guardE (sa_stop_reason response \<noteq> ''max_tokens'') TooComplex) (\<lambda>_.
     case first_row (filter (\<lambda>b. ab_type b = ''text'') (sa_content response)) of
       None \<Rightarrow> Inl NoResult
     | Some b \<Rightarrow>
         if ab_text b = [] then Inl NoResult
         else bindE (or_raise (ab_json b) UnreadableResult) (\<lambda>spec.
              case validate_chart_spec repr spec of
                Inl e \<Rightarrow> Inl (SpecError e)
              | Inr cs \<Rightarrow> Inr (cs, usage_of model response))))"

definition parse_chart_file ::
  "(json \<Rightarrow> string) \<Rightarrow> vision_client \<Rightarrow> parsing_settings \<Rightarrow> string \<Rightarrow> string \<Rightarrow> parse_error + (chart_spec \<times> usage_row)" where
  "parse_chart_file repr client cfg data media_type =
     bindE (guardE (media_type \<in> set supported_media_types) UnsupportedType) (\<lambda>_.
     bindE (guardE (length data \<le> max_upload_bytes) FileTooLarge) (\<lambda>_.
     bindE (guardE (data \<noteq> []) EmptyFile) (\<lambda>_.
     bindE (guardE (vc_builds client (if ps_api_key cfg = [] then None else Some (ps_api_key cfg))) NotConfigured) (\<lambda>_.
     case vc_ask client (ps_model cfg) (content_block_of data media_type) of
       Inl NoCredential \<Rightarrow> Inl NotConfigured
     | Inl AuthenticationFailed \<Rightarrow> Inl BadApiKey
     | Inl (StatusError code) \<Rightarrow> Inl (ServiceError code)
     | Inl ConnectionFailed \<Rightarrow> Inl ServiceUnreachable
     | Inl OtherFailure \<Rightarrow> Inl RequestCrash
     | Inr response \<Rightarrow> spec_of_answer repr (ps_model cfg) response))))"

text \<open>The format \<open>:,\<close> of an integer.\<close>

fun grouped :: "string \<Rightarrow> string" where
  "grouped (a # b # c # d # r) = a # b # c # CHR '','' # grouped (d # r)"
| "grouped ds = ds"

definition with_commas :: "int \<Rightarrow> string" where
  "with_commas n = (if n < 0 then ''-'' else []) @ rev (grouped (rev (show_nat (nat \<bar>n\<bar>))))"

definition describe_usage :: "usage_row option \<Rightarrow> string" where
  "describe_usage usage =
     (case usage of
        None \<Rightarrow> []
      | Some u \<Rightarrow>
          (case us_input u of
             None \<Rightarrow> []
           | Some i \<Rightarrow>
               us_model u @ '': '' @ with_commas i @ '' tokens in'' @
               (case us_output u of None \<Rightarrow> [] | Some n \<Rightarrow> '', '' @ with_commas n @ '' out'') @
               (case us_cache_read u of None \<Rightarrow> [] | Some n \<Rightarrow> if n = 0 then [] else '', '' @ with_commas n @ '' cached'')))"

text \<open>\<open>except ChartParsingError\<close>: what the database or a conversion raises is not one.\<close>

definition reported :: "parse_error \<Rightarrow> bool" where
  "reported e \<longleftrightarrow>
     (case e of
        RequestCrash \<Rightarrow> False
      | SpecError c \<Rightarrow> (case c of NotASpec \<Rightarrow> True | NoSections \<Rightarrow> True | ChartExists _ \<Rightarrow> True | ChartHasLiveTickets _ \<Rightarrow> True | _ \<Rightarrow> False)
      | _ \<Rightarrow> True)"

text \<open>Parsing and building, as both callers run them; the building is atomic.\<close>

definition build_parsed ::
  "(json \<Rightarrow> string) \<Rightarrow> nat \<Rightarrow> nat \<Rightarrow> chart_spec \<Rightarrow> string \<Rightarrow> bool \<Rightarrow> db \<Rightarrow>
     parse_error + (seating_chart \<times> section_layout list \<times> db)" where
  "build_parsed repr organization venue cs name replace s =
     (case build_chart_from_spec repr organization venue (chart_json cs) name replace s of
        Inl e \<Rightarrow> Inl (SpecError e) | Inr r \<Rightarrow> Inr r)"

definition sections_on :: "seating_chart \<Rightarrow> db \<Rightarrow> nat" where
  "sections_on chart s = length (filter (\<lambda>x. section_chart x = chart_pk chart) (db_sections s))"

definition seats_on :: "seating_chart \<Rightarrow> db \<Rightarrow> nat" where
  "seats_on chart s = length (filter (on_chart (chart_pk chart) s) (db_seats s))"

section \<open>The dashboard's upload\<close>




section \<open>The command\<close>

record parse_options =
  op_venue :: "int option"
  op_org :: "string option"
  op_venue_name :: "string option"
  op_name :: "string option"
  op_replace :: bool
  op_dry_run :: bool

datatype target_error =
    BothTargets | VenueNameWithoutOrg | NoSuchVenue int | NoSuchOrganization string | OrganizationHasNoVenues
  | SeveralVenues "nat list" | MultipleVenuesReturned | NoTarget

definition given :: "string option \<Rightarrow> bool" where
  "given value \<longleftrightarrow> value \<noteq> None \<and> value \<noteq> Some []"

text \<open>The venue is found, or created, before the service is asked, and outside any transaction.\<close>

definition resolve_venue :: "parse_options \<Rightarrow> db \<Rightarrow> target_error + (venue option \<times> db)" where
  "resolve_venue options s =
     (let by_key = op_venue options \<noteq> None \<and> op_venue options \<noteq> Some 0
      in if by_key \<and> given (op_org options) then Inl BothTargets
         else if given (op_venue_name options) \<and> \<not> given (op_org options) then Inl VenueNameWithoutOrg
         else if by_key then
           (case first_row (filter (\<lambda>v. Some (int (venue_pk v)) = op_venue options) (db_venues s)) of
              None \<Rightarrow> Inl (NoSuchVenue (the (op_venue options))) | Some v \<Rightarrow> Inr (Some v, s))
         else if given (op_org options) then
           (case org_by_subdomain (the (op_org options)) s of
              None \<Rightarrow> Inl (NoSuchOrganization (the (op_org options)))
            | Some g \<Rightarrow>
                if given (op_venue_name options) then
                  (case filter (\<lambda>v. venue_organization v = org_pk g \<and> Some (venue_name v) = op_venue_name options) (db_venues s) of
                     [] \<Rightarrow> (let v = \<lparr>venue_pk = db_next s, venue_organization = org_pk g,
                                      venue_name = the (op_venue_name options), venue_timezone = ''UTC''\<rparr>
                            in Inr (Some v, s\<lparr>db_venues := db_venues s @ [v], db_next := Suc (db_next s)\<rparr>))
                   | [v] \<Rightarrow> Inr (Some v, s)
                   | _ \<Rightarrow> Inl MultipleVenuesReturned)
                else (case filter (\<lambda>v. venue_organization v = org_pk g) (db_venues s) of
                     [] \<Rightarrow> Inl OrganizationHasNoVenues
                   | [v] \<Rightarrow> Inr (Some v, s)
                   | vs \<Rightarrow> Inl (SeveralVenues (map venue_pk (order_by venue_name vs)))))
         else Inr (None, s))"

datatype parse_outcome =
    BadTarget target_error
  | UnsupportedFile
  | UnreadableFile
  | ParseRefused parse_error
  | ParseCrash parse_error
  | DryRun chart_spec string
  | ChartBuilt seating_chart nat nat string

definition parse_seating_chart ::
  "(json \<Rightarrow> string) \<Rightarrow> vision_client \<Rightarrow> parsing_settings \<Rightarrow> (string \<Rightarrow> string option) \<Rightarrow> string \<Rightarrow> parse_options \<Rightarrow> db \<Rightarrow> parse_outcome \<times> db" where
  "parse_seating_chart repr client cfg read_file path options s =
     (case resolve_venue options s of
        Inl e \<Rightarrow> (BadTarget e, s)
      | Inr (target, s1) \<Rightarrow>
          if target = None \<and> \<not> op_dry_run options then (BadTarget NoTarget, s1)
          else case media_type_for_upload (Some path) None of
            None \<Rightarrow> (UnsupportedFile, s1)
          | Some media_type \<Rightarrow>
              (case read_file path of
                 None \<Rightarrow> (UnreadableFile, s1)
               | Some data \<Rightarrow>
                   (case parse_chart_file repr client cfg data media_type of
                      Inl e \<Rightarrow> (if reported e then ParseRefused e else ParseCrash e, s1)
                    | Inr (cs, usage) \<Rightarrow>
                        if op_dry_run options then (DryRun cs (describe_usage (Some usage)), s1)
                        else case build_parsed repr (venue_organization (the target)) (venue_pk (the target)) cs
                               (case op_name options of None \<Rightarrow> [] | Some n \<Rightarrow> n) (op_replace options) s1 of
                          Inl e \<Rightarrow> (if reported e then ParseRefused e else ParseCrash e, s1)
                        | Inr (chart, secs, s2) \<Rightarrow>
                            (ChartBuilt chart (sections_on chart s2) (seats_on chart s2) (describe_usage (Some usage)), s2))))"

section \<open>What an upload ends in\<close>





section \<open>What a spec asks for\<close>





lemma numbers_length [simp]: "length (generate_seat_numbers n scheme i) = n"
  by (simp add: generate_seat_numbers_def)







section \<open>Properties\<close>



text \<open>A service that answers the demo spec.\<close>

definition demo_client :: vision_client where
  "demo_client = \<lparr>vc_builds = (\<lambda>k. k \<noteq> None), vc_ask = (\<lambda>model block.
     Inr \<lparr>sa_stop_reason = ''end_turn'', sa_content = [\<lparr>ab_type = ''text'', ab_text = ''{}'', ab_json = Some box_json\<rparr>],
          sa_usage = Some (Some 1005, Some 42, Some 0, None)\<rparr>)\<rparr>"

definition demo_parsing :: parsing_settings where
  "demo_parsing = \<lparr>ps_api_key = ''key'', ps_model = ''claude-opus-4-8''\<rparr>"

definition demo_usage :: usage_row where
  "demo_usage = \<lparr>us_model = ''claude-opus-4-8'', us_input = Some 1005, us_output = Some 42, us_cache_read = Some 0, us_cache_creation = None\<rparr>"

lemma demo_parsed: "parse_chart_file repr demo_client demo_parsing ''%PDF'' ''application/pdf'' = Inr (box_chart, demo_usage)"
  by (simp add: parse_chart_file_def demo_client_def demo_parsing_def spec_of_answer_def box_validated usage_of_def demo_usage_def
      supported_media_types_def max_upload_bytes_def)

lemma demo_line: "describe_usage (Some demo_usage) = ''claude-opus-4-8: 1,005 tokens in, 42 out''"
proof -
  have n: "with_commas 1005 = ''1,005''" "with_commas 42 = ''42''" by code_simp+
  show ?thesis by (simp add: describe_usage_def demo_usage_def n)
qed


section \<open>A finding\<close>

text \<open>
  A dry run with a theater and a venue's name creates the venue, although it is said to write nothing; and
  the venue stays when the file cannot be read or parsed.
\<close>

lemma dry_run_creates_a_venue:
  assumes "op_venue options = None" "op_org options = Some ''roxy''" "op_venue_name options = Some ''Attic''" "op_dry_run options"
  shows "\<exists>v. parse_seating_chart repr demo_client demo_parsing (\<lambda>_. Some ''%PDF'') ''box.pdf'' options demo =
     (DryRun box_chart ''claude-opus-4-8: 1,005 tokens in, 42 out'', demo\<lparr>db_venues := [main_hall, v], db_next := 101\<rparr>) \<and>
     venue_name v = ''Attic''"
proof -
  have media: "media_type_for_upload (Some ''box.pdf'') None = Some ''application/pdf''" by code_simp
  have rows: "db_venues demo = [main_hall]" "db_next demo = 100" "db_orgs demo = [roxy, lyric]" by (simp_all add: demo_def)
  have "org_by_subdomain ''roxy'' demo = Some roxy" by (simp add: org_by_subdomain_def rows roxy_def)
  moreover have "venue_name main_hall = ''Main hall''" by (simp add: main_hall_def)
  ultimately show ?thesis using assms
    by (simp add: parse_seating_chart_def resolve_venue_def given_def media demo_parsed demo_line Let_def rows) (intro exI conjI, rule refl, simp)
qed

end
