(* ===== verification/Numerals.thy ===== *)
theory Numerals
  imports Money
begin

text \<open>Reading back a printed number: keys in paths, in JSON objects and in signed links.\<close>

lemma int_digits_all: "list_all is_digit t \<Longrightarrow> t \<noteq> [] \<Longrightarrow> int_digits t"
  by (induction t rule: int_digits.induct) (auto simp: is_digit_def code_pt_def)

lemma int_shown [simp]: "py_int (show_nat n) = Some (int n)"
proof -
  have d: "list_all is_digit (show_nat n)" "show_nat n \<noteq> []" using show_nat_digits by auto
  have "is_digit c \<Longrightarrow> plain c" for c by (simp add: plain_def)
  then have p: "list_all plain (show_nat n)" using d(1) by (simp add: list_all_iff)
  then have "strip (show_nat n) = show_nat n" using plain_char by (intro strip_no_space) (auto simp: list_all_iff)
  moreover have "take 1 (show_nat n) \<noteq> ''-''" "take 1 (show_nat n) \<noteq> ''+''"
    using p plain_char d(2) by (cases "show_nat n"; force)+
  moreover have "filter is_digit (show_nat n) = show_nat n" using d(1) by (simp add: list_all_iff filter_id_conv)
  ultimately show ?thesis using d int_digits_all digits_val_show_nat by (simp add: py_int_def Let_def)
qed

end
