(* ===== verification/EditorPage.thy ===== *)
theory EditorPage
  imports ChartEditor Numerals
begin

text \<open>
  The chart editor's page (dashboard/views.py: \<open>_section_color\<close>, \<open>_section_json\<close>, \<open>chart_editor\<close>): the
  JSON of every section, from which the browser draws the chart. A section posted back as the page gave
  it is stored as it was, provided its layout is within what the editor accepts.
\<close>

section \<open>The code\<close>

definition section_palette :: "string list" where
  "section_palette =
     [''#e11d48'', ''#2563eb'', ''#059669'', ''#d97706'', ''#7c3aed'', ''#0891b2'', ''#db2777'', ''#65a30d'', ''#4f46e5'', ''#dc2626'']"

definition section_color :: "nat \<Rightarrow> string" where
  "section_color index = section_palette ! (index mod length section_palette)"

text \<open>\<open>getattr(section, field)\<close> for the fields both views go through.\<close>

definition param_json :: "section_layout \<Rightarrow> string \<Rightarrow> json" where
  "param_json sec field =
     (if field = ''origin_x'' then JFloat (Num (origin_x sec))
      else if field = ''origin_y'' then JFloat (Num (origin_y sec))
      else if field = ''rotation'' then JFloat (Num (rotation sec))
      else if field = ''seat_pitch'' then JFloat (Num (seat_pitch sec))
      else if field = ''row_pitch'' then JFloat (Num (row_pitch sec))
      else if field = ''row_x_offset'' then JFloat (Num (row_x_offset sec))
      else if field = ''arc_radius'' then (case arc_radius sec of None \<Rightarrow> JNull | Some x \<Rightarrow> JFloat (Num x))
      else if field = ''offset_mode'' then JStr (offset_mode sec)
      else if field = ''alt_row_seat_delta'' then JInt (alt_row_seat_delta sec)
      else if field = ''rows'' then JInt (int (shape_rows sec))
      else if field = ''seats_per_row'' then JInt (int (seats_per_row sec))
      else if field = ''numbering_scheme'' then JStr (numbering_scheme sec)
      else if field = ''row_label_scheme'' then JStr (row_label_scheme sec)
      else if field = ''row_label_start'' then JInt (int (row_label_start sec))
      else if field = ''pivot_mode'' then JStr (pivot_mode sec)
      else if field = ''pivot_x'' then JFloat (Num (pivot_x sec))
      else JFloat (Num (pivot_y sec)))"

definition pairs_json :: "identity list \<Rightarrow> json" where
  "pairs_json ids = JList (map (\<lambda>(label, number). JList [JStr label, JStr number]) ids)"

definition section_url :: "nat \<Rightarrow> nat \<Rightarrow> string \<Rightarrow> string" where
  "section_url chart_key k tail = ''/dashboard/charts/'' @ show_nat chart_key @ ''/sections/'' @ show_nat k @ tail"

definition editor_json :: "section_layout \<Rightarrow> string \<Rightarrow> nat \<Rightarrow> (string \<times> json) list" where
  "editor_json sec color chart_key =
     [(''id'', JInt (int (section_pk sec))), (''name'', JStr (section_name sec)), (''tier'', JStr (section_tier sec)),
      (''color'', JStr color), (''edit_url'', JStr (section_url chart_key (section_pk sec) ''/edit/'')),
      (''reorder_url'', JStr (section_url chart_key (section_pk sec) ''/reorder/''))] @
     map (\<lambda>field. (field, param_json sec field)) section_param_fields @
     [(''removed_seats'', pairs_json (removed_seats sec)), (''accessible_seats'', pairs_json (accessible_seats sec))]"

record editor_page =
  ed_sections :: "section_layout list"
  ed_json :: "(string \<times> json) list list"
  ed_selected :: "int option"

text \<open>An id that does not parse, or is of no section of the chart, selects nothing.\<close>

definition chart_editor :: "nat \<Rightarrow> nat \<Rightarrow> string option \<Rightarrow> section_layout list \<times> db \<Rightarrow> editor_page option" where
  "chart_editor organization chart_key selected_param st =
     (if \<not> qs_exists (\<lambda>c. chart_pk c = chart_key \<and> chart_organization c = organization) (db_charts (snd st)) then None
      else let secs = order_by (\<lambda>x. (section_ordering x, section_name x)) (filter (\<lambda>x. section_chart x = chart_key) (fst st));
               wanted = (case selected_param of None \<Rightarrow> None | Some t \<Rightarrow> if t = [] then None else py_int t)
           in Some \<lparr>ed_sections = secs,
                ed_json = map (\<lambda>(i, sec). editor_json sec (section_color i) chart_key) (enumerate 0 secs),
                ed_selected = (case wanted of None \<Rightarrow> None
                  | Some k \<Rightarrow> if qs_exists (\<lambda>x. int (section_pk x) = k) secs then Some k else None)\<rparr>)"

section \<open>Posting the page back\<close>

text \<open>A browser writes a whole float without its fraction, so \<open>5.0\<close> comes back as \<open>5\<close>.\<close>

definition same_value :: "json \<Rightarrow> json \<Rightarrow> bool" where
  "same_value shown posted \<longleftrightarrow>
     posted = shown \<or> (\<exists>n. shown = JFloat (Num (of_int n)) \<and> posted = JInt n \<and> \<not> too_large (of_int n))"

definition same_pairs :: "json \<Rightarrow> json \<Rightarrow> bool" where
  "same_pairs shown posted \<longleftrightarrow>
     (\<exists>ids ids'. shown = pairs_json ids \<and> posted = pairs_json ids' \<and> set ids' = set ids)"

text \<open>What the browser posts of a section the user did not touch; the override lists go under other names.\<close>

definition posted_unchanged :: "(string \<times> json) list \<Rightarrow> (string \<times> json) list \<Rightarrow> bool" where
  "posted_unchanged shown posted \<longleftrightarrow>
     (\<forall>field\<in>set section_param_fields. \<exists>v. map_of posted field = Some v \<and> same_value (dict_get field shown) v) \<and>
     same_pairs (dict_get ''removed_seats'' shown) (dict_get ''removed'' posted) \<and>
     same_pairs (dict_get ''accessible_seats'' shown) (dict_get ''accessible'' posted)"

text \<open>The layouts a save can store.\<close>

definition editor_range :: "section_layout \<Rightarrow> bool" where
  "editor_range sec \<longleftrightarrow>
     -1 \<le> alt_row_seat_delta sec \<and> alt_row_seat_delta sec \<le> 1 \<and> -2 \<le> row_x_offset sec \<and> row_x_offset sec \<le> 2 \<and>
     1 \<le> shape_rows sec \<and> 1 \<le> seats_per_row sec \<and> arc_radius sec \<noteq> Some 0 \<and>
     sort (remdups (removed_seats sec)) = removed_seats sec \<and> sort (remdups (accessible_seats sec)) = accessible_seats sec \<and>
     list_all (\<lambda>p. fst p \<noteq> []) (removed_seats sec) \<and> list_all (\<lambda>p. fst p \<noteq> []) (accessible_seats sec)"

lemma shown_param: "field \<in> set section_param_fields \<Longrightarrow> dict_get field (editor_json sec color k) = param_json sec field"
proof -
  assume f: "field \<in> set section_param_fields"
  have "list_all (\<lambda>f. f \<notin> {''id'', ''name'', ''tier'', ''color'', ''edit_url'', ''reorder_url'', ''removed_seats'', ''accessible_seats''})
      section_param_fields" by (simp add: section_param_fields_def)
  with f have "field \<noteq> ''id''" "field \<noteq> ''name''" "field \<noteq> ''tier''" "field \<noteq> ''color''" "field \<noteq> ''edit_url''" "field \<noteq> ''reorder_url''"
    "field \<noteq> ''removed_seats''" "field \<noteq> ''accessible_seats''" by (auto simp only: list_all_iff insert_iff)
  with f show ?thesis
    by (simp add: editor_json_def dict_get_def map_add_def map_of_map_restrict restrict_map_def)
qed

lemma shown_pairs:
  "dict_get ''removed_seats'' (editor_json sec color k) = pairs_json (removed_seats sec)"
  "dict_get ''accessible_seats'' (editor_json sec color k) = pairs_json (accessible_seats sec)"
  by (simp_all add: section_param_fields_def editor_json_def dict_get_def)

lemma finite_same: "same_value (JFloat (Num x)) v \<Longrightarrow> finite_arg v = Inr x \<and> float_arg v = Inr (Num x)"
  by (auto simp: same_value_def finite_arg_def float_arg_def finite_part_def)

lemma same_exact [simp]: "same_value (JInt n) v \<longleftrightarrow> v = JInt n" "same_value (JStr t) v \<longleftrightarrow> v = JStr t" "same_value JNull v \<longleftrightarrow> v = JNull"
  by (auto simp: same_value_def)

lemma radius_kept: "same_value (JFloat (Num x)) v \<Longrightarrow> x \<noteq> 0 \<Longrightarrow> \<not> blank_radius v"
  by (auto simp: same_value_def blank_radius_def)

lemma stored_fields [simp]:
  "sec\<lparr>origin_x := origin_x sec\<rparr> = sec" "sec\<lparr>origin_y := origin_y sec\<rparr> = sec" "sec\<lparr>rotation := rotation sec\<rparr> = sec"
  "sec\<lparr>seat_pitch := seat_pitch sec\<rparr> = sec" "sec\<lparr>row_pitch := row_pitch sec\<rparr> = sec"
  "sec\<lparr>row_x_offset := row_x_offset sec\<rparr> = sec" "sec\<lparr>offset_mode := offset_mode sec\<rparr> = sec"
  "sec\<lparr>alt_row_seat_delta := alt_row_seat_delta sec\<rparr> = sec" "sec\<lparr>shape_rows := shape_rows sec\<rparr> = sec"
  "sec\<lparr>seats_per_row := seats_per_row sec\<rparr> = sec" "sec\<lparr>numbering_scheme := numbering_scheme sec\<rparr> = sec"
  "sec\<lparr>row_label_scheme := row_label_scheme sec\<rparr> = sec" "sec\<lparr>row_label_start := row_label_start sec\<rparr> = sec"
  "sec\<lparr>pivot_mode := pivot_mode sec\<rparr> = sec" "sec\<lparr>pivot_x := pivot_x sec\<rparr> = sec" "sec\<lparr>pivot_y := pivot_y sec\<rparr> = sec"
  "sec\<lparr>removed_seats := removed_seats sec, accessible_seats := accessible_seats sec\<rparr> = sec"
  by simp_all

lemma stored_radius: "arc_radius sec = r \<Longrightarrow> sec\<lparr>arc_radius := r\<rparr> = sec"
  by auto

lemma radius_untouched:
  assumes "same_value (param_json sec ''arc_radius'') v" "arc_radius sec \<noteq> Some 0"
  shows "apply_field repr ''arc_radius'' v sec = Inr sec"
proof (cases "arc_radius sec")
  case None
  with assms(1) have "v = JNull" by (simp add: param_json_def)
  with stored_radius [OF None] show ?thesis by (simp add: apply_field_def blank_radius_def)
next
  case (Some x)
  with assms have "same_value (JFloat (Num x)) v" "x \<noteq> 0" by (simp_all add: param_json_def)
  with finite_same [of x v] radius_kept [of x v] stored_radius [OF Some] show ?thesis by (simp add: apply_field_def)
qed

lemma param_groups:
  assumes "field \<in> set section_param_fields" "field \<noteq> ''arc_radius''"
  shows "field \<in> {''origin_x'', ''origin_y'', ''rotation'', ''seat_pitch'', ''row_pitch'', ''row_x_offset'', ''pivot_x'', ''pivot_y''} \<or>
     field \<in> {''offset_mode'', ''numbering_scheme'', ''row_label_scheme'', ''pivot_mode''} \<or>
     field \<in> {''alt_row_seat_delta'', ''rows'', ''seats_per_row'', ''row_label_start''}"
  using assms unfolding section_param_fields_def list.set insert_iff empty_iff by (elim disjE) simp_all

lemma field_untouched:
  assumes "field \<in> set section_param_fields" "same_value (param_json sec field) v" "editor_range sec"
  shows "apply_field repr field v sec = Inr sec"
proof (cases "field = ''arc_radius''")
  case True
  with assms radius_untouched show ?thesis by (simp add: editor_range_def)
next
  case False
  note range = assms(3) [unfolded editor_range_def]
  from param_groups [OF assms(1) False] show ?thesis
  proof (elim disjE)
    assume "field \<in> {''origin_x'', ''origin_y'', ''rotation'', ''seat_pitch'', ''row_pitch'', ''row_x_offset'', ''pivot_x'', ''pivot_y''}"
    with assms(2) range show ?thesis
      unfolding insert_iff empty_iff
      apply (elim disjE)
      apply (simp_all add: param_json_def)
      apply (drule finite_same, simp add: apply_field_def set_float_field_def cap_offset_def)+
      done
  next
    assume "field \<in> {''offset_mode'', ''numbering_scheme'', ''row_label_scheme'', ''pivot_mode''}"
    with assms(2) show ?thesis
      unfolding insert_iff empty_iff
      apply (elim disjE)
      apply (simp_all add: param_json_def)
      apply (simp_all add: apply_field_def set_choice_field_def)
      done
  next
    assume "field \<in> {''alt_row_seat_delta'', ''rows'', ''seats_per_row'', ''row_label_start''}"
    with assms(2) range show ?thesis
      unfolding insert_iff empty_iff
      apply (elim disjE)
      apply (simp_all add: param_json_def)
      apply (simp_all add: apply_field_def int_arg_def)
      done
  qed
qed

lemma fields_untouched:
  assumes "set names \<subseteq> set section_param_fields" "editor_range sec"
    and "\<forall>field\<in>set section_param_fields. \<exists>v. map_of posted field = Some v \<and> same_value (param_json sec field) v"
  shows "apply_fields repr names posted sec = (sec, None)"
  using assms(1)
proof (induction names)
  case (Cons field names)
  with assms(3) obtain v where "map_of posted field = Some v" "same_value (param_json sec field) v" by auto
  with Cons field_untouched [OF _ this(2) assms(2)] show ?case by simp
qed simp

lemma clean_pairs: "list_all (\<lambda>p. fst p \<noteq> []) ids \<Longrightarrow> clean_identity_pairs repr (pairs_json ids) = ids"
  unfolding clean_identity_pairs_def pairs_json_def by (induction ids) auto

lemma pairs_inj: "pairs_json a = pairs_json b \<Longrightarrow> a = b"
proof -
  have "inj (\<lambda>(label, number). JList [JStr label, JStr number])" by (auto simp: inj_def)
  then show "pairs_json a = pairs_json b \<Longrightarrow> a = b" by (simp add: pairs_json_def inj_map_eq_map)
qed

lemma pairs_untouched:
  assumes "same_pairs (pairs_json ids) v" "list_all (\<lambda>p. fst p \<noteq> []) ids"
  shows "set (clean_identity_pairs repr v) = set ids"
proof -
  from assms(1) obtain ids' where "v = pairs_json ids'" "set ids' = set ids" by (auto simp: same_pairs_def dest: pairs_inj)
  with assms(2) clean_pairs [of ids' repr] show ?thesis by (simp add: list_all_iff)
qed

text \<open>Moving the seats of a drawn section to where its layout puts them moves none.\<close>

lemma drawn_in_place:
  assumes "drawn sec s" "set rm = set (removed_seats sec)" "set ids = set (accessible_seats sec)"
  shows "reposition_seats sec (layout_counts sec) rm ids s = Inr (section_seats sec s, s)"
proof -
  let ?ps = "build_seats sec (layout_counts sec) (\<lambda>_. []) rm ids"
  have ps: "build_seats sec (layout_counts sec) (\<lambda>_. []) (removed_seats sec) (accessible_seats sec) = ?ps"
    using build_seats_overrides [OF assms(2,3), where sec = sec and a = "removed_seats sec" and b = "accessible_seats sec"]
    by simp
  have d: "map placement (section_seats sec s) = sort_key fst (map placement ?ps)" using assms(1) by (simp add: drawn_def ps)
  have places: "placement ` set (section_seats sec s) = placement ` set ?ps"
    using arg_cong [OF d, of set] by simp
  have "fst \<circ> placement = seat_identity" by (auto simp: placement_def)
  then have ids: "seat_identity ` set ?ps = seat_identity ` set (section_seats sec s)"
    using arg_cong [OF places, of "image fst"] by (simp add: image_image placement_def)
  have "moved ?ps r = r" if "in_section sec r" "r \<in> set (db_seats s)" for r
  proof -
    have r: "r \<in> set (section_seats sec s)" using that by (simp add: section_seats_def order_by_def)
    then have "placement r \<in> placement ` set ?ps" using places by blast
    then obtain t where t: "t \<in> set ?ps" "placement t = placement r" by auto
    have "seat_identity r \<in> seat_identity ` set ?ps" using r ids by simp
    from find_seat_ex [OF this] obtain u where u: "find_seat (seat_identity r) ?ps = Some u" by blast
    with find_seat_Some [OF u] t build_identities [of sec "layout_counts sec" "\<lambda>_. []" rm ids]
    have "u = t" by (auto simp: placement_def distinct_map inj_on_def)
    with t u show ?thesis by (simp add: moved_def move_to_def placement_def)
  qed
  then have "update_rows (in_section sec) (moved ?ps) (db_seats s) = db_seats s"
    by (auto simp: update_rows_def intro: map_idI)
  then show ?thesis using ids by (simp add: reposition_Inr Let_def)
qed

lemma save_untouched:
  assumes "editor_range sec" "drawn sec s" "set rm = set (removed_seats sec)" "set ids = set (accessible_seats sec)"
  shows "save_layout sec rm ids s = Inr (sec, s)"
proof -
  have "sort (remdups rm) = removed_seats sec" "sort (remdups ids) = accessible_seats sec"
    using assms(1,3,4) by (simp_all add: editor_range_def flip: sorted_list_of_set_sort_remdups)
  then show ?thesis using drawn_in_place [OF assms(2-4)] by (simp add: save_layout_def)
qed

lemma put_same: "distinct (map section_pk xs) \<Longrightarrow> sec \<in> set xs \<Longrightarrow> put_section sec xs = xs"
  by (auto simp: put_section_def distinct_map inj_on_def intro: map_idI)

text \<open>What the whole page posts: an entry per section, in any order.\<close>

definition posted_back :: "editor_page \<Rightarrow> (string \<times> json) list \<Rightarrow> bool" where
  "posted_back page payload \<longleftrightarrow>
     (\<forall>p\<in>set payload. \<exists>(sec, shown)\<in>set (zip (ed_sections page) (ed_json page)).
        fst p = show_nat (section_pk sec) \<and> (\<exists>d. snd p = JDict d \<and> posted_unchanged shown d)) \<and>
     fst ` set payload = (\<lambda>sec. show_nat (section_pk sec)) ` set (ed_sections page)"

text \<open>One section of the page as it comes back: kept, and nothing written.\<close>

definition comes_back :: "section_layout \<Rightarrow> string \<times> json \<Rightarrow> bool" where
  "comes_back sec p \<longleftrightarrow> fst p = show_nat (section_pk sec) \<and>
     (\<exists>d. snd p = JDict d \<and>
        (\<forall>field\<in>set section_param_fields. \<exists>v. map_of d field = Some v \<and> same_value (param_json sec field) v) \<and>
        same_pairs (pairs_json (removed_seats sec)) (dict_get ''removed'' d) \<and>
        same_pairs (pairs_json (accessible_seats sec)) (dict_get ''accessible'' d))"

lemma save_one_untouched:
  assumes "comes_back sec p" "editor_range sec" "drawn sec s" "sec \<in> set objs" "distinct (map section_pk objs)"
  shows "save_one repr (fst p) (snd p) objs s = Stored sec s"
proof -
  from assms(1) obtain d where p: "fst p = show_nat (section_pk sec)" "snd p = JDict d"
    and d: "\<forall>field\<in>set section_param_fields. \<exists>v. map_of d field = Some v \<and> same_value (param_json sec field) v"
    "same_pairs (pairs_json (removed_seats sec)) (dict_get ''removed'' d)"
    "same_pairs (pairs_json (accessible_seats sec)) (dict_get ''accessible'' d)"
    by (auto simp: comes_back_def)
  have labels: "list_all (\<lambda>p. fst p \<noteq> []) (removed_seats sec)" "list_all (\<lambda>p. fst p \<noteq> []) (accessible_seats sec)"
    using assms(2) by (simp_all add: editor_range_def)
  have found: "first_row (filter (\<lambda>x. py_int (fst p) = Some (int (section_pk x))) objs) = Some sec"
  proof (cases "first_row (filter (\<lambda>x. py_int (fst p) = Some (int (section_pk x))) objs)")
    case None
    with assms(4) show ?thesis by (auto simp: filter_empty_conv p int_shown)
  next
    case (Some x)
    from first_row_Some [OF Some] assms(4,5) have "x = sec" by (auto simp: p int_shown distinct_map inj_on_def)
    with Some show ?thesis by simp
  qed
  note saved = save_untouched [OF assms(2,3) pairs_untouched [OF d(2) labels(1)] pairs_untouched [OF d(3) labels(2)]]
  show ?thesis
    using fields_untouched [OF order_refl assms(2) d(1)] saved unfolding save_one_def found p(2) by simp
qed

lemma save_sections_untouched:
  assumes "\<forall>p\<in>set payload. \<exists>sec\<in>set objs. comes_back sec p"
    and "\<forall>sec\<in>set objs. editor_range sec \<and> drawn sec s \<and> sec \<in> set lays"
    and "distinct (map section_pk objs)" "distinct (map section_pk lays)"
  shows "\<exists>saved'. save_sections repr payload objs saved errors lays s = (EditorSaved (saved @ saved') errors, lays, s) \<and>
     map show_nat saved' = map fst payload"
  using assms(1)
proof (induction payload arbitrary: saved)
  case (Cons p payload)
  then obtain sec where sec: "sec \<in> set objs" "comes_back sec p" by auto
  with assms(2) have "editor_range sec" "drawn sec s" "sec \<in> set lays" by auto
  with save_one_untouched [OF sec(2) _ _ sec(1) assms(3), of s repr] put_same [OF assms(3) sec(1)] put_same [OF assms(4)]
    Cons.IH [of "saved @ [section_pk sec]"] Cons.prems sec(2)
  show ?case by (cases p) (auto simp: comes_back_def)
qed simp

text \<open>What a page holds, and that each entry of an untouched post is one of its sections coming back.\<close>

lemma editor_page_holds:
  assumes "chart_editor organization k selected (lays, s) = Some page"
  shows "\<exists>c\<in>set (db_charts s). chart_pk c = k \<and> chart_organization c = organization"
    and "set (ed_sections page) = set (filter (\<lambda>x. section_chart x = k) lays)"
    and "ed_json page = map (\<lambda>(i, sec). editor_json sec (section_color i) k) (enumerate 0 (ed_sections page))"
  using assms by (auto simp: chart_editor_def Let_def order_by_def split: if_splits)

lemma untouched_entry:
  assumes "chart_editor organization k selected (lays, s) = Some page" and "posted_back page payload" and "p \<in> set payload"
  shows "\<exists>sec\<in>set (ed_sections page). comes_back sec p"
proof -
  from assms(2,3) obtain sec sh d where z: "(sec, sh) \<in> set (zip (ed_sections page) (ed_json page))"
    "fst p = show_nat (section_pk sec)" "snd p = JDict d" "posted_unchanged sh d"
    unfolding posted_back_def by fast
  from z(1) obtain i where "sh = editor_json sec (section_color i) k"
    by (auto simp: editor_page_holds(3) [OF assms(1)] in_set_zip nth_enumerate_eq)
  with z show ?thesis
    by (intro bexI [of _ sec]) (auto simp: comes_back_def posted_unchanged_def shown_param shown_pairs dest: set_zip_leftD)
qed

lemma posted_sections:
  assumes "fst ` set payload = (\<lambda>sec. show_nat (section_pk sec)) ` S"
    and "S = {x \<in> set lays. section_chart x = k}" and "\<forall>sec\<in>S. section_organization sec = organization"
  shows "set (filter (\<lambda>x. section_organization x = organization \<and> section_chart x = k \<and>
      (\<exists>p\<in>set payload. py_int (fst p) = Some (int (section_pk x)))) lays) = S"
proof -
  have "\<exists>p\<in>set payload. py_int (fst p) = Some (int (section_pk x))" if "x \<in> S" for x
  proof -
    from that assms(1) have "show_nat (section_pk x) \<in> fst ` set payload" by auto
    then obtain p where "p \<in> set payload" "fst p = show_nat (section_pk x)" by auto
    then show ?thesis by (intro bexI [of _ p]) (simp_all add: int_shown)
  qed
  with assms(2,3) show ?thesis by auto
qed

section \<open>Properties\<close>

text \<open>
  Property C37. Saving the chart editor's page untouched changes nothing: whatever order the browser posts
  the sections in, and even though it writes a whole number without its fraction, every section is reported
  as saved and no layout, no seat and no other row changes, provided the layouts are in the editor's range
  and each section's seats are already the ones its layout draws, as they are after a save of the editor. A section just
  created, or imported from a file without its layout, is not such a section: its first save does redraw its seats.
\<close>

theorem untouched_chart_saves_nothing:
  assumes "chart_editor organization k selected (lays, s) = Some page" and "posted_back page payload"
    and "ed_sections page \<noteq> []" and "distinct (map section_pk lays)"
    and "\<forall>sec\<in>set (ed_sections page). section_organization sec = organization \<and> editor_range sec \<and> drawn sec s"
  shows "\<exists>saved. chart_editor_save repr organization k (Some (JDict [(''sections'', JDict payload)])) (lays, s) =
       (EditorSaved saved [], lays, s) \<and> set saved = section_pk ` set (ed_sections page)"
proof -
  note page = editor_page_holds [OF assms(1)]
  have keys: "fst ` set payload = (\<lambda>sec. show_nat (section_pk sec)) ` set (ed_sections page)"
    using assms(2) by (simp add: posted_back_def)
  let ?objs = "filter (\<lambda>x. section_organization x = organization \<and> section_chart x = k \<and>
      (\<exists>p\<in>set payload. py_int (fst p) = Some (int (section_pk x)))) lays"
  note entry = untouched_entry [OF assms(1,2)]
  have objs: "set ?objs = set (ed_sections page)"
    using posted_sections [OF keys, of lays k organization] assms(5) by (simp add: page(2))
  have parsed: "\<not> list_ex (\<lambda>p. py_int (fst p) = None) payload"
    using entry by (force simp: list_ex_iff comes_back_def int_shown)
  have some: "payload \<noteq> []" using keys assms(3) by auto
  have entries: "\<forall>p\<in>set payload. \<exists>sec\<in>set ?objs. comes_back sec p" unfolding objs using entry by blast
  have sound: "\<forall>sec\<in>set ?objs. editor_range sec \<and> drawn sec s \<and> sec \<in> set lays"
    unfolding objs using assms(5) by (auto simp: page(2))
  from save_sections_untouched [OF entries sound distinct_map_filter [OF assms(4)] assms(4), of repr "[]" "[]"]
  obtain saved where run: "save_sections repr payload ?objs [] [] lays s = (EditorSaved saved [], lays, s)"
    and names: "map show_nat saved = map fst payload" by auto
  have "show_nat ` set saved = show_nat ` section_pk ` set (ed_sections page)"
    using arg_cong [OF names, of set] keys by (simp add: image_image)
  then have "set saved = section_pk ` set (ed_sections page)"
    using inj_image_eq_iff [of show_nat] by (simp add: inj_def)
  with run page(1) some parsed show ?thesis
    by (simp add: chart_editor_save_def dict_get_def)
qed

text \<open>The demo chart's one section, with its seats where the layout draws them.\<close>

definition shown_params :: "section_layout \<Rightarrow> (string \<times> json) list" where
  "shown_params sec = map (\<lambda>field. (field, param_json sec field)) section_param_fields @
     [(''removed'', pairs_json (removed_seats sec)), (''accessible'', pairs_json (accessible_seats sec))]"

lemma shown_params_get:
  "field \<in> set section_param_fields \<Longrightarrow> map_of (shown_params sec) field = Some (param_json sec field)"
  "dict_get ''removed'' (shown_params sec) = pairs_json (removed_seats sec)"
  "dict_get ''accessible'' (shown_params sec) = pairs_json (accessible_seats sec)"
    apply (simp add: shown_params_def map_add_def map_of_map_restrict restrict_map_def)
   apply (simp_all add: shown_params_def section_param_fields_def dict_get_def)
  done

lemma stalls_in_place: "\<exists>s. save_layout stalls_layout [] [] demo = Inr (stalls_layout, s) \<and> db_charts s = [house_chart]"
proof -
  have counts: "layout_counts stalls_layout = [3]"
    by (simp add: layout_counts_def stalls_layout_def compute_row_counts_def)
  have "seat_identity ` set (build_seats stalls_layout [3] (\<lambda>_. []) [] []) = {(''A'', ''1''), (''A'', ''2''), (''A'', ''3'')}"
    using stalls_built [of "[]"] by (metis (no_types) list.set(1) list.simps(15) set_map)
  moreover have "seat_identity ` set (section_seats stalls_layout demo) = {(''A'', ''1''), (''A'', ''2''), (''A'', ''3'')}"
    unfolding section_seats_def order_by_def stalls_rows by (simp add: demo_def demo_seat_def seat_identity_def)
  ultimately have "\<exists>rs s. reposition_seats stalls_layout [3] [] [] demo = Inr (rs, s) \<and> db_charts s = db_charts demo"
    by (simp add: reposition_seats_def Let_def)
  then obtain rs s where "reposition_seats stalls_layout [3] [] [] demo = Inr (rs, s)" "db_charts s = db_charts demo" by blast
  moreover have "stalls_layout\<lparr>removed_seats := [], accessible_seats := []\<rparr> = stalls_layout" by (simp add: stalls_layout_def)
  ultimately show ?thesis by (simp add: save_layout_def counts demo_def)
qed

theorem untouched_chart_saves_nothing_witness:
  "\<exists>s saved. drawn stalls_layout s \<and>
     chart_editor_save (\<lambda>_. '''') 1 10 (Some (JDict [(''sections'', JDict [(''11'', JDict (shown_params stalls_layout))])]))
       ([stalls_layout], s) = (EditorSaved saved [], [stalls_layout], s) \<and> set saved = {11}"
proof -
  obtain s where s: "save_layout stalls_layout [] [] demo = Inr (stalls_layout, s)" "db_charts s = [house_chart]"
    using stalls_in_place by blast
  have drawn: "drawn stalls_layout s" using save_layout_drawn [OF s(1) demo_unique_seats] by simp
  let ?page = "\<lparr>ed_sections = [stalls_layout], ed_json = [editor_json stalls_layout (section_color 0) 10], ed_selected = None\<rparr>"
  let ?payload = "[(''11'', JDict (shown_params stalls_layout))]"
  have page: "chart_editor 1 10 None ([stalls_layout], s) = Some ?page"
    by (simp add: chart_editor_def s(2) house_chart_def order_by_def stalls_layout_def)
  have eleven: "''11'' = show_nat (section_pk stalls_layout)" by code_simp
  have same: "same_pairs (pairs_json ids) (pairs_json ids)" for ids by (auto simp: same_pairs_def)
  have posted: "posted_back ?page ?payload"
    unfolding posted_back_def posted_unchanged_def
    by (simp add: eleven shown_params_get shown_param shown_pairs same same_value_def)
  have range: "\<forall>sec\<in>set (ed_sections ?page). section_organization sec = 1 \<and> editor_range sec \<and> drawn sec s"
    using drawn by (simp add: stalls_layout_def editor_range_def)
  obtain saved where run: "chart_editor_save (\<lambda>_. '''') 1 10 (Some (JDict [(''sections'', JDict ?payload)])) ([stalls_layout], s) =
      (EditorSaved saved [], [stalls_layout], s)" "set saved = {11}"
    using untouched_chart_saves_nothing [OF page posted _ _ range, of "\<lambda>_. ''''"] by (auto simp: stalls_layout_def)
  with run drawn show ?thesis by blast
qed

section \<open>A finding\<close>

text \<open>
  The chart parser stores any row offset and alternation, the editor cuts them to two and to
  one: of a section with more, the page as it came back has another layout, so the first save of the chart
  moves or removes seats nobody touched.
\<close>

lemma first_save_cuts_a_parsed_layout:
  "2 < row_x_offset sec \<Longrightarrow>
     apply_field repr ''row_x_offset'' (param_json sec ''row_x_offset'') sec = Inr (sec\<lparr>row_x_offset := 2\<rparr>)"
  "1 < alt_row_seat_delta sec \<Longrightarrow>
     apply_field repr ''alt_row_seat_delta'' (param_json sec ''alt_row_seat_delta'') sec = Inr (sec\<lparr>alt_row_seat_delta := 1\<rparr>)"
  by (simp_all add: param_json_def apply_field_def float_arg_def int_arg_def cap_offset_def)

end
