(* ===== verification/StaffAccounts.thy ===== *)
theory StaffAccounts
  imports Access Portal Numerals
begin

text \<open>
  Signing in with a password (accounts/views.py, accounts/forms.py), the invitation's link (accounts/invites.py) and the
  operator's command (accounts/management/commands/create_staff_user.py). Passwords stand beside the accounts of
  theory Access; a stored password stands for its hash. Django's authentication backend, its token
  generator, the coding of a key in a link, the check of a redirect's host, the check and the normalization of an email and
  the password validators are parameters.
\<close>

section \<open>The state\<close>

record staff_state =
  sf_accounts :: accounts
  sf_passwords :: "nat \<rightharpoonup> string"
  sf_cache :: cache

definition user_at :: "nat \<Rightarrow> staff_state \<Rightarrow> user_account option" where
  "user_at k st = first_row (filter (\<lambda>u. user_pk u = k) (acc_users (sf_accounts st)))"

definition put_password :: "nat \<Rightarrow> string \<Rightarrow> staff_state \<Rightarrow> staff_state" where
  "put_password k password st =
     st\<lparr>sf_passwords := (sf_passwords st)(k \<mapsto> password),
        sf_accounts := (sf_accounts st)\<lparr>acc_users :=
          update_rows (\<lambda>u. user_pk u = k) (\<lambda>u. u\<lparr>user_has_password := True\<rparr>) (acc_users (sf_accounts st))\<rparr>\<rparr>"

section \<open>The login page\<close>

text \<open>
  What accounts/forms.py makes of the posted fields: both are stripped, as Django's text fields are unless told
  otherwise, and both are required. \<open>email_ok\<close> is the email field's check. (A posted text with a NUL character, which
  every form refuses, is not considered.)
\<close>

definition staff_login_form :: "(string \<Rightarrow> bool) \<Rightarrow> string option \<Rightarrow> string option \<Rightarrow> (string \<times> string) option" where
  "staff_login_form email_ok email password =
     (let e = strip (or_blank email); p = strip (or_blank password)
      in if email_ok e \<and> p \<noteq> [] then Some (e, p) else None)"

text \<open>A visitor without a membership here has no role that could keep it off the overview.\<close>

definition default_landing :: "nat \<Rightarrow> nat \<Rightarrow> accounts \<Rightarrow> string" where
  "default_landing organization user st =
     (case first_row (filter (\<lambda>m. mem_user m = user \<and> mem_organization m = organization) (acc_members st)) of
        Some m \<Rightarrow> if \<not> can_sell_tickets m then ''/scan/'' else ''/dashboard/''
      | None \<Rightarrow> ''/dashboard/'')"

definition safe_next :: "(string \<Rightarrow> bool) \<Rightarrow> nat \<Rightarrow> nat \<Rightarrow> accounts \<Rightarrow> string option \<Rightarrow> string" where
  "safe_next allowed organization user st next_url =
     (case next_url of
        Some t \<Rightarrow> if t \<noteq> [] \<and> allowed t then t else default_landing organization user st
      | None \<Rightarrow> default_landing organization user st)"

record login_request =
  lr_organization :: nat
  lr_user :: "nat option"
  lr_is_post :: bool
  lr_get_next :: "string option"
  lr_post_next :: "string option"
  lr_post_email :: "string option"
  lr_post_password :: "string option"
  lr_ip :: string

datatype login_answer = GoTo string | ShowLogin "login_outcome option" "string option"

text \<open>The page's answer, the session's user and the state; a form that is not valid shows no error of its own.\<close>

definition login_page ::
  "(staff_state \<Rightarrow> string \<Rightarrow> string \<Rightarrow> nat option) \<Rightarrow> (string \<Rightarrow> bool) \<Rightarrow> throttle_settings \<Rightarrow> (string \<Rightarrow> bool) \<Rightarrow> login_request \<Rightarrow>
     time \<Rightarrow> staff_state \<Rightarrow> login_answer \<times> nat option \<times> staff_state" where
  "login_page authenticate email_ok cfg allowed rq now st =
     (let acc = sf_accounts st; organization = lr_organization rq;
          member = (\<lambda>u. qs_exists (\<lambda>m. mem_user m = u \<and> mem_organization m = organization) (acc_members acc));
          failed = st\<lparr>sf_cache := snd (register_failure cfg ''staff-login'' (lr_ip rq) (sf_cache st) now)\<rparr>
      in case (case lr_user rq of None \<Rightarrow> None | Some u \<Rightarrow> if member u then Some u else None) of
           Some u \<Rightarrow> (GoTo (safe_next allowed organization u acc (lr_get_next rq)), lr_user rq, st)
         | None \<Rightarrow>
             if \<not> lr_is_post rq then (ShowLogin None (lr_get_next rq), lr_user rq, st)
             else let next_url = Some (case lr_post_next rq of None \<Rightarrow> [] | Some t \<Rightarrow> t);
                      locked = is_locked_out cfg ''staff-login'' (lr_ip rq) (sf_cache st) now
                  in if locked then (ShowLogin (Some LockedOut) next_url, lr_user rq, st)
                     else case staff_login_form email_ok (lr_post_email rq) (lr_post_password rq) of
                       None \<Rightarrow> (ShowLogin None next_url, lr_user rq, st)
                     | Some (email, password) \<Rightarrow>
                         (case login_view (authenticate st) locked organization email password acc of
                            login_outcome.SignedIn u \<Rightarrow>
                              (GoTo (safe_next allowed organization u acc next_url), Some u,
                               st\<lparr>sf_cache := clear_throttle cfg ''staff-login'' (lr_ip rq) (sf_cache st)\<rparr>)
                          | outcome \<Rightarrow> (ShowLogin (Some outcome) next_url, lr_user rq, failed)))"

definition logout_view :: "nat option \<Rightarrow> string \<times> nat option" where
  "logout_view session = (''/login/'', None)"

section \<open>The invitation's link\<close>

text \<open>
  A token is made from the user and the stored password at a time; a link carries the user's key and the
  token. \<open>fresh\<close> is the generator's check.
\<close>

record token_kit =
  tk_make :: "user_account \<Rightarrow> string option \<Rightarrow> time \<Rightarrow> string"
  tk_check :: "user_account \<Rightarrow> string option \<Rightarrow> string \<Rightarrow> time \<Rightarrow> bool"
  tk_encode :: "string \<Rightarrow> string"
  tk_decode :: "string \<Rightarrow> string option"

definition invite_link :: "token_kit \<Rightarrow> user_account \<Rightarrow> time \<Rightarrow> staff_state \<Rightarrow> string \<times> string" where
  "invite_link kit u now st = (tk_encode kit (show_nat (user_pk u)), tk_make kit u (sf_passwords st (user_pk u)) now)"

definition user_from_uid :: "token_kit \<Rightarrow> string \<Rightarrow> staff_state \<Rightarrow> user_account option" where
  "user_from_uid kit uidb64 st =
     (case Option.bind (tk_decode kit uidb64) py_int of
        None \<Rightarrow> None
      | Some k \<Rightarrow> first_row (filter (\<lambda>u. int (user_pk u) = k) (acc_users (sf_accounts st))))"

datatype password_page = InvalidLink | PasswordForm string | PasswordRefused string | PasswordSet

text \<open>The form wants the password twice and the validators' consent; it does not strip what is typed.\<close>

definition set_password_view ::
  "token_kit \<Rightarrow> (user_account \<Rightarrow> string \<Rightarrow> bool) \<Rightarrow> string \<times> string \<Rightarrow> (string \<times> string) option \<Rightarrow> time \<Rightarrow> staff_state \<Rightarrow>
     password_page \<times> staff_state" where
  "set_password_view kit strong link posted now st =
     (case user_from_uid kit (fst link) st of
        None \<Rightarrow> (InvalidLink, st)
      | Some u \<Rightarrow>
          if \<not> tk_check kit u (sf_passwords st (user_pk u)) (snd link) now then (InvalidLink, st)
          else case posted of
            None \<Rightarrow> (PasswordForm (user_email u), st)
          | Some (p1, p2) \<Rightarrow>
              if p1 \<noteq> [] \<and> p1 = p2 \<and> strong u p1 then (PasswordSet, put_password (user_pk u) p1 st)
              else (PasswordRefused (user_email u), st))"

section \<open>The operator's command\<close>

datatype staff_command = StaffOrgUnknown | StaffCreated membership | StaffPasswordReset membership | StaffExisted membership

definition create_staff_user ::
  "(string \<Rightarrow> string) \<Rightarrow> (string \<Rightarrow> nat option) \<Rightarrow> string \<Rightarrow> string \<Rightarrow> string \<Rightarrow> staff_role \<Rightarrow> bool \<Rightarrow> staff_state \<Rightarrow> staff_command \<times> staff_state" where
  "create_staff_user lowered org_of email0 password subdomain role reset st =
     (case org_of subdomain of
        None \<Rightarrow> (StaffOrgUnknown, st)
      | Some organization \<Rightarrow>
          (let email = lowered email0; acc = sf_accounts st;
               found = first_row (filter (\<lambda>u. user_email u = email) (acc_users acc));
               k = (case found of Some u \<Rightarrow> user_pk u | None \<Rightarrow> acc_next acc);
               st1 = (if found = None
                      then st\<lparr>sf_accounts := acc\<lparr>acc_users := acc_users acc @ [\<lparr>user_pk = k, user_email = email, user_has_password = False\<rparr>],
                                acc_next := Suc (acc_next acc)\<rparr>\<rparr>
                      else st);
               st2 = (if found = None \<or> reset then put_password k password st1 else st1);
               acc2 = sf_accounts st2;
               (m, acc3) = (case first_row (filter (\<lambda>m. mem_user m = k \<and> mem_organization m = organization) (acc_members acc2)) of
                  Some m \<Rightarrow> (m\<lparr>mem_role := role\<rparr>,
                    acc2\<lparr>acc_members := update_rows (\<lambda>x. mem_pk x = mem_pk m) (\<lambda>x. x\<lparr>mem_role := role\<rparr>) (acc_members acc2)\<rparr>)
                | None \<Rightarrow>
                    (let m = \<lparr>mem_pk = acc_next acc2, mem_user = k, mem_organization = organization, mem_role = role\<rparr>
                     in (m, acc2\<lparr>acc_members := acc_members acc2 @ [m], acc_next := Suc (acc_next acc2)\<rparr>)))
           in (if found = None then StaffCreated m else if reset then StaffPasswordReset m else StaffExisted m,
               st2\<lparr>sf_accounts := acc3\<rparr>)))"

section \<open>Lemmas\<close>

definition staff_wf :: "staff_state \<Rightarrow> bool" where
  "staff_wf st \<longleftrightarrow> accounts_wf (sf_accounts st) \<and> (\<forall>k. sf_passwords st k \<noteq> None \<longrightarrow> k < acc_next (sf_accounts st))"

text \<open>Django's backend finds the user by the exact email; an unusable password matches nothing.\<close>

definition exact_backend :: "staff_state \<Rightarrow> string \<Rightarrow> string \<Rightarrow> nat option" where
  "exact_backend st email password =
     (case first_row (filter (\<lambda>u. user_email u = email) (acc_users (sf_accounts st))) of
        None \<Rightarrow> None
      | Some u \<Rightarrow> if sf_passwords st (user_pk u) = Some password then Some (user_pk u) else None)"

definition backend_ok :: "(staff_state \<Rightarrow> string \<Rightarrow> string \<Rightarrow> nat option) \<Rightarrow> bool" where
  "backend_ok auth \<longleftrightarrow>
     (\<forall>st email password k. auth st email password = Some k \<longrightarrow>
        (\<exists>u\<in>set (acc_users (sf_accounts st)). user_pk u = k \<and> user_email u = email) \<and> sf_passwords st k = Some password) \<and>
     (\<forall>st u password. u \<in> set (acc_users (sf_accounts st)) \<and> sf_passwords st (user_pk u) = Some password \<and>
        filter (\<lambda>x. user_email x = user_email u) (acc_users (sf_accounts st)) = [u] \<longrightarrow>
        auth st (user_email u) password = Some (user_pk u))"

lemma exact_backend_ok: "backend_ok exact_backend"
  unfolding backend_ok_def exact_backend_def
proof (intro conjI allI impI)
  fix st email password k
  assume "(case first_row (filter (\<lambda>u. user_email u = email) (acc_users (sf_accounts st))) of None \<Rightarrow> None
      | Some u \<Rightarrow> if sf_passwords st (user_pk u) = Some password then Some (user_pk u) else None) = Some k"
  then obtain u where "first_row (filter (\<lambda>u. user_email u = email) (acc_users (sf_accounts st))) = Some u"
    "user_pk u = k" "sf_passwords st k = Some password" by (auto split: option.splits if_splits)
  with first_row_Some [OF this(1)]
  show "(\<exists>u\<in>set (acc_users (sf_accounts st)). user_pk u = k \<and> user_email u = email)" "sf_passwords st k = Some password" by auto
qed auto

text \<open>What the library promises of a token: it passes until it is too old, and only for the password it was made from.\<close>

definition token_kit_ok :: "token_kit \<Rightarrow> time \<Rightarrow> bool" where
  "token_kit_ok kit lifetime \<longleftrightarrow>
     (\<forall>t. tk_decode kit (tk_encode kit t) = Some t) \<and>
     (\<forall>u w t now. t \<le> now \<and> now \<le> t + lifetime \<longrightarrow> tk_check kit u w (tk_make kit u w t) now) \<and>
     (\<forall>u u' w w' t now. tk_check kit u' w' (tk_make kit u w t) now \<longrightarrow> w' = w)"

lemma key_row:
  assumes "well_keyed pk n rs" "r \<in> set rs"
  shows "first_row (filter (\<lambda>x. pk x = pk r) rs) = Some r"
proof (cases "first_row (filter (\<lambda>x. pk x = pk r) rs)")
  case None
  with assms(2) show ?thesis by (auto simp: filter_empty_conv)
next
  case (Some x)
  have "distinct (map pk rs)" using assms(1) strict_sorted_iff [of "map pk rs"] by (simp add: well_keyed_def)
  with first_row_Some [OF Some] assms(2) have "x = r" by (auto simp: distinct_map inj_on_def)
  with Some show ?thesis by simp
qed

text \<open>The accounts after an invitation.\<close>

lemma invited_rows:
  assumes "team_add email_ok g actor email (Some r) acc = (Invited, acc1)"
  shows "\<forall>u\<in>set (acc_users acc). lower (user_email u) \<noteq> lower (strip email)"
    and "acc1 = acc\<lparr>acc_users := acc_users acc @ [\<lparr>user_pk = acc_next acc, user_email = lower (strip email), user_has_password = False\<rparr>],
       acc_members := acc_members acc @ [\<lparr>mem_pk = Suc (acc_next acc), mem_user = acc_next acc, mem_organization = g, mem_role = r\<rparr>],
       acc_next := Suc (Suc (acc_next acc))\<rparr>"
proof -
  from assms have a: "add_member g (strip email) r acc = (Invited, acc1)"
    by (auto simp: team_add_def Let_def split: if_splits)
  then have none: "first_row (filter (\<lambda>u. lower (user_email u) = lower (strip email)) (acc_users acc)) = None"
    by (auto simp: add_member_def Let_def split: option.splits if_splits)
  then show "\<forall>u\<in>set (acc_users acc). lower (user_email u) \<noteq> lower (strip email)" by (auto simp: filter_empty_conv)
  from a none show "acc1 = acc\<lparr>acc_users := acc_users acc @ [\<lparr>user_pk = acc_next acc, user_email = lower (strip email), user_has_password = False\<rparr>],
       acc_members := acc_members acc @ [\<lparr>mem_pk = Suc (acc_next acc), mem_user = acc_next acc, mem_organization = g, mem_role = r\<rparr>],
       acc_next := Suc (Suc (acc_next acc))\<rparr>"
    by (simp add: add_member_def Let_def)
qed

lemma old_keys:
  assumes "staff_wf st"
  shows "u \<in> set (acc_users (sf_accounts st)) \<Longrightarrow> user_pk u < acc_next (sf_accounts st)"
    and "m \<in> set (acc_members (sf_accounts st)) \<Longrightarrow> mem_user m < acc_next (sf_accounts st)"
    and "sf_passwords st (acc_next (sf_accounts st)) = None"
  using assms by (force simp: staff_wf_def accounts_wf_def well_keyed_def)+

text \<open>An invitation of a stranger, as rows: the account, the membership and the link that names the account.\<close>

lemma invited_account:
  assumes "staff_wf st" and "team_add email_ok g actor email (Some r) (sf_accounts st) = (Invited, acc1)"
    and "st1 = st\<lparr>sf_accounts := acc1\<rparr>" and "user_at (acc_next (sf_accounts st)) st1 = Some u"
  shows "u = \<lparr>user_pk = acc_next (sf_accounts st), user_email = lower (strip email), user_has_password = False\<rparr>"
    and "acc_users acc1 = acc_users (sf_accounts st) @ [u]"
    and "acc_members acc1 = acc_members (sf_accounts st) @
       [\<lparr>mem_pk = Suc (acc_next (sf_accounts st)), mem_user = acc_next (sf_accounts st), mem_organization = g, mem_role = r\<rparr>]"
    and "filter (\<lambda>u. user_pk u = acc_next (sf_accounts st)) (acc_users (sf_accounts st)) = []"
    and "filter (\<lambda>u. user_email u = lower (strip email)) (acc_users (sf_accounts st)) = []"
proof -
  note rows = invited_rows [OF assms(2)] and old = old_keys [OF assms(1)]
  show noold: "filter (\<lambda>u. user_pk u = acc_next (sf_accounts st)) (acc_users (sf_accounts st)) = []"
    using old(1) by (force simp: filter_empty_conv)
  show u: "u = \<lparr>user_pk = acc_next (sf_accounts st), user_email = lower (strip email), user_has_password = False\<rparr>"
    using assms(4) by (simp add: user_at_def assms(3) rows(2) noold)
  show "acc_users acc1 = acc_users (sf_accounts st) @ [u]"
    "acc_members acc1 = acc_members (sf_accounts st) @
       [\<lparr>mem_pk = Suc (acc_next (sf_accounts st)), mem_user = acc_next (sf_accounts st), mem_organization = g, mem_role = r\<rparr>]"
    by (simp_all add: rows(2) u)
  show "filter (\<lambda>u. user_email u = lower (strip email)) (acc_users (sf_accounts st)) = []"
    using rows(1) by (auto simp: filter_empty_conv)
qed

lemma link_sets_one_password:
  assumes "staff_wf st" and "token_kit_ok kit lifetime"
    and "team_add email_ok g actor email (Some r) (sf_accounts st) = (Invited, acc1)"
    and "st1 = st\<lparr>sf_accounts := acc1\<rparr>" and "user_at (acc_next (sf_accounts st)) st1 = Some u"
    and "link = invite_link kit u t st1" and "t \<le> now" and "now \<le> t + lifetime" and "p \<noteq> []" and "strong u p"
  shows "set_password_view kit strong link (Some (p, p)) now st1 = (PasswordSet, put_password (user_pk u) p st1)"
    and "set_password_view kit strong link posted later (put_password (user_pk u) p st1) = (InvalidLink, put_password (user_pk u) p st1)"
proof -
  note new = invited_account [OF assms(1,3,4,5)] and old = old_keys [OF assms(1)]
  have link: "fst link = tk_encode kit (show_nat (user_pk u))" "snd link = tk_make kit u None t"
    by (simp_all add: assms(6) invite_link_def assms(4) new(1) old(3))
  have kit: "tk_decode kit (fst link) = Some (show_nat (user_pk u))" "tk_check kit u None (snd link) now"
    using assms(2,7,8) by (simp_all add: token_kit_ok_def link)
  have used: "tk_check kit u' w (snd link) later \<Longrightarrow> w = None" for u' w later
    using assms(2) unfolding token_kit_ok_def link by blast
  have found: "user_from_uid kit (fst link) st1 = Some u"
    by (simp add: user_from_uid_def kit(1) assms(4) new(2,4)) (simp add: new(1,4))
  show "set_password_view kit strong link (Some (p, p)) now st1 = (PasswordSet, put_password (user_pk u) p st1)"
    using assms(9,10) kit(2) by (simp add: set_password_view_def found) (simp add: new(1) assms(4) old(3))
  have "user_from_uid kit (fst link) (put_password (user_pk u) p st1) = Some (u\<lparr>user_has_password := True\<rparr>)"
    by (simp add: user_from_uid_def kit(1) put_password_def assms(4) update_rows_def new(1,2,4) filter_map comp_def)
  moreover have "sf_passwords (put_password (user_pk u) p st1) (user_pk (u\<lparr>user_has_password := True\<rparr>)) = Some p"
    by (simp add: put_password_def)
  ultimately show "set_password_view kit strong link posted later (put_password (user_pk u) p st1) =
      (InvalidLink, put_password (user_pk u) p st1)" using used by (auto simp: set_password_view_def)
qed

lemma new_password_signs_in:
  assumes "staff_wf st" and "backend_ok auth"
    and "team_add email_ok g actor email (Some r) (sf_accounts st) = (Invited, acc1)"
    and "st1 = st\<lparr>sf_accounts := acc1\<rparr>" and "user_at (acc_next (sf_accounts st)) st1 = Some u"
    and "lr_user rq = None" "lr_is_post rq" "lr_post_email rq = Some e" "strip e = lower (strip email)" "lr_post_password rq = Some p"
    and "email_ok (lower (strip email))" "p \<noteq> []" "strip p = p"
    and "\<not> is_locked_out cfg ''staff-login'' (lr_ip rq) (sf_cache st) later"
  shows "fst (snd (login_page auth email_ok cfg allowed rq later (put_password (user_pk u) p st1))) =
    (if lr_organization rq = g then Some (user_pk u) else None)"
proof -
  let ?n = "acc_next (sf_accounts st)" and ?st2 = "put_password (user_pk u) p st1"
  let ?v = "u\<lparr>user_has_password := True\<rparr>"
  note new = invited_account [OF assms(1,3,4,5)] and old = old_keys [OF assms(1)]
  have u: "user_pk u = ?n" "user_email u = lower (strip email)" by (simp_all add: new(1))
  have accs: "acc_users (sf_accounts ?st2) = update_rows (\<lambda>u. user_pk u = ?n) (\<lambda>u. u\<lparr>user_has_password := True\<rparr>) (acc_users (sf_accounts st)) @ [?v]"
    by (simp add: put_password_def assms(4) new(2) update_rows_def u)
  have "filter (\<lambda>x. user_email x = user_email ?v) (acc_users (sf_accounts ?st2)) = [?v]"
    using new(5) unfolding accs by (auto simp: filter_empty_conv update_rows_def u)
  moreover have "?v \<in> set (acc_users (sf_accounts ?st2))" "sf_passwords ?st2 (user_pk ?v) = Some p"
    unfolding accs by (simp_all add: put_password_def)
  ultimately have "auth ?st2 (user_email ?v) p = Some (user_pk ?v)"
    using assms(2) unfolding backend_ok_def by blast
  then have auth: "auth ?st2 (lower (strip email)) p = Some ?n" by (simp add: u)
  have member: "qs_exists (\<lambda>m. mem_user m = ?n \<and> mem_organization m = h) (acc_members (sf_accounts ?st2)) \<longleftrightarrow> h = g" for h
    using old(2) by (force simp: put_password_def assms(4) new(3))
  have "sf_cache ?st2 = sf_cache st" by (simp add: put_password_def assms(4))
  moreover have "staff_login_form email_ok (lr_post_email rq) (lr_post_password rq) = Some (lower (strip email), p)"
    using assms(8-13) by (simp add: staff_login_form_def or_blank_def)
  ultimately show ?thesis using assms(6,7,14) member
    by (simp add: login_page_def Let_def login_view_def auth [unfolded u(1)] u del: qs_exists_iff)
qed

section \<open>Properties\<close>

text \<open>
  Property C36. An invitation's link sets one password, once: within its lifetime the link of a new member
  lets its holder choose a password; from then on the link is invalid, whatever is posted to it; and, when that
  password neither begins nor ends in whitespace, posting the email (in lower case) with it signs in at the inviting theater and at
  no other, unless the address is locked out.
\<close>

theorem invite_link_works_once:
  assumes "staff_wf st" and "token_kit_ok kit lifetime" and "backend_ok auth"
    and "team_add email_ok g actor email (Some r) (sf_accounts st) = (Invited, acc1)"
    and "st1 = st\<lparr>sf_accounts := acc1\<rparr>" and "user_at (acc_next (sf_accounts st)) st1 = Some u"
    and "link = invite_link kit u t st1" and "t \<le> now" and "now \<le> t + lifetime" and "p \<noteq> []" and "strong u p"
    and "email_ok (lower (strip email))"
  shows "\<exists>st2. set_password_view kit strong link (Some (p, p)) now st1 = (PasswordSet, st2) \<and>
     (\<forall>posted later. set_password_view kit strong link posted later st2 = (InvalidLink, st2)) \<and>
     (\<forall>rq e later. strip p = p \<and> lr_user rq = None \<and> lr_is_post rq \<and>
        lr_post_email rq = Some e \<and> strip e = lower (strip email) \<and> lr_post_password rq = Some p \<and>
        \<not> is_locked_out cfg ''staff-login'' (lr_ip rq) (sf_cache st) later \<longrightarrow>
        fst (snd (login_page auth email_ok cfg allowed rq later st2)) = (if lr_organization rq = g then Some (user_pk u) else None))"
proof (intro exI conjI allI impI)
  show "set_password_view kit strong link (Some (p, p)) now st1 = (PasswordSet, put_password (user_pk u) p st1)"
    by (rule link_sets_one_password [where strong = strong, OF assms(1,2,4-11)])
  show "set_password_view kit strong link posted later (put_password (user_pk u) p st1) =
      (InvalidLink, put_password (user_pk u) p st1)" for posted later
    by (rule link_sets_one_password [where strong = strong, OF assms(1,2,4-11)])
  show "fst (snd (login_page auth email_ok cfg allowed rq later (put_password (user_pk u) p st1))) =
      (if lr_organization rq = g then Some (user_pk u) else None)"
    if "strip p = p \<and> lr_user rq = None \<and> lr_is_post rq \<and>
        lr_post_email rq = Some e \<and> strip e = lower (strip email) \<and> lr_post_password rq = Some p \<and>
        \<not> is_locked_out cfg ''staff-login'' (lr_ip rq) (sf_cache st) later" for rq e later
    using that assms(10,12) by (intro new_password_signs_in [OF assms(1,3-6), where e = e]) auto
qed

definition plain_tokens :: token_kit where
  "plain_tokens = \<lparr>tk_make = (\<lambda>u w t. case w of None \<Rightarrow> ''new'' | Some p \<Rightarrow> ''old'' @ p),
     tk_check = (\<lambda>u w token now. token = (case w of None \<Rightarrow> ''new'' | Some p \<Rightarrow> ''old'' @ p)),
     tk_encode = id, tk_decode = Some\<rparr>"

lemma plain_tokens_ok: "token_kit_ok plain_tokens lifetime"
  by (auto simp: token_kit_ok_def plain_tokens_def split: option.splits)

definition roxy_door :: staff_state where
  "roxy_door = \<lparr>sf_accounts = roxy_staff, sf_passwords = [1 \<mapsto> ''owl'', 2 \<mapsto> ''fox'', 3 \<mapsto> ''elk''], sf_cache = Map.empty\<rparr>"

definition login_post :: "nat \<Rightarrow> string \<Rightarrow> string \<Rightarrow> login_request" where
  "login_post g email password = \<lparr>lr_organization = g, lr_user = None, lr_is_post = True, lr_get_next = None,
     lr_post_next = None, lr_post_email = Some email, lr_post_password = Some password, lr_ip = ''10.0.0.1''\<rparr>"

theorem invite_link_works_once_witness:
  "\<exists>acc1 st2. team_add (\<lambda>_. True) 1 \<lparr>mem_pk = 12, mem_user = 2, mem_organization = 1, mem_role = MANAGER\<rparr> ''ann@x.org''
       (Some SCANNER) roxy_staff = (Invited, acc1) \<and>
     set_password_view plain_tokens (\<lambda>_ _. True) (''20'', ''new'') (Some (''emu'', ''emu'')) 0 (roxy_door\<lparr>sf_accounts := acc1\<rparr>) =
       (PasswordSet, st2) \<and>
     fst (snd (login_page exact_backend (\<lambda>_. True) \<lparr>max_attempts = 5, window = 60, incr_timeout = None\<rparr> (\<lambda>_. False) (login_post 1 ''ann@x.org'' ''emu'') 0 st2)) = Some 20 \<and>
     fst (snd (login_page exact_backend (\<lambda>_. True) \<lparr>max_attempts = 5, window = 60, incr_timeout = None\<rparr> (\<lambda>_. False) (login_post 2 ''ann@x.org'' ''emu'') 0 st2)) = None"
proof -
  let ?max = "\<lparr>mem_pk = 12, mem_user = 2, mem_organization = 1, mem_role = MANAGER\<rparr>"
  have mail: "strip ''ann@x.org'' = ''ann@x.org''" "lower ''ann@x.org'' = ''ann@x.org''" "strip ''emu'' = ''emu''" by code_simp+
  have others: "lower ''olga@roxy.example'' \<noteq> ''ann@x.org''" "lower ''max@roxy.example'' \<noteq> ''ann@x.org''"
    "lower ''lea@lyric.example'' \<noteq> ''ann@x.org''" by code_simp+
  have "\<exists>acc1. team_add (\<lambda>_. True) 1 ?max ''ann@x.org'' (Some SCANNER) roxy_staff = (Invited, acc1)"
    by (simp add: team_add_def mail assignable_roles_def add_member_def others roxy_staff_def Let_def)
  then obtain acc1 where inv: "team_add (\<lambda>_. True) 1 ?max ''ann@x.org'' (Some SCANNER) roxy_staff = (Invited, acc1)" by blast
  let ?st1 = "roxy_door\<lparr>sf_accounts := acc1\<rparr>" and ?u = "\<lparr>user_pk = 20, user_email = ''ann@x.org'', user_has_password = False\<rparr>"
  have wf: "staff_wf roxy_door"
    using roxy_staff_wf(1) by (simp add: staff_wf_def roxy_door_def) (simp add: roxy_staff_def)
  have inv': "team_add (\<lambda>_. True) 1 ?max ''ann@x.org'' (Some SCANNER) (sf_accounts roxy_door) = (Invited, acc1)"
    using inv by (simp add: roxy_door_def)
  have user: "user_at (acc_next (sf_accounts roxy_door)) ?st1 = Some ?u"
    using invited_rows(2) [OF inv] by (simp add: user_at_def roxy_door_def roxy_staff_def mail)
  have twenty: "show_nat 20 = ''20''" by code_simp
  have link: "(''20'', ''new'') = invite_link plain_tokens ?u 0 ?st1"
    by (simp add: invite_link_def plain_tokens_def twenty roxy_door_def)
  have open1: "\<not> is_locked_out \<lparr>max_attempts = 5, window = 60, incr_timeout = None\<rparr> scope ip (sf_cache roxy_door) 0" for scope ip
    by (simp add: is_locked_out_def cache_get_def roxy_door_def)
  obtain st2 where st2: "set_password_view plain_tokens (\<lambda>_ _. True) (''20'', ''new'') (Some (''emu'', ''emu'')) 0 ?st1 = (PasswordSet, st2)"
    and login: "\<forall>rq e later. strip ''emu'' = ''emu'' \<and> lr_user rq = None \<and> lr_is_post rq \<and>
        lr_post_email rq = Some e \<and> strip e = lower (strip ''ann@x.org'') \<and> lr_post_password rq = Some ''emu'' \<and>
        \<not> is_locked_out \<lparr>max_attempts = 5, window = 60, incr_timeout = None\<rparr> ''staff-login'' (lr_ip rq) (sf_cache roxy_door) later \<longrightarrow>
        fst (snd (login_page exact_backend (\<lambda>_. True) \<lparr>max_attempts = 5, window = 60, incr_timeout = None\<rparr> (\<lambda>_. False) rq later st2)) = (if lr_organization rq = 1 then Some (user_pk ?u) else None)"
    using invite_link_works_once [OF wf plain_tokens_ok [of 5] exact_backend_ok inv' refl user link, of 0 "''emu''" "\<lambda>_ _. True"
        "\<lparr>max_attempts = 5, window = 60, incr_timeout = None\<rparr>" "\<lambda>_. False"] by auto
  have "fst (snd (login_page exact_backend (\<lambda>_. True) \<lparr>max_attempts = 5, window = 60, incr_timeout = None\<rparr> (\<lambda>_. False) (login_post g ''ann@x.org'' ''emu'') 0 st2)) =
      (if g = 1 then Some 20 else None)" for g
    using login [rule_format, of "login_post g ''ann@x.org'' ''emu''" "''ann@x.org''" 0] open1 by (simp add: login_post_def mail)
  with inv st2 show ?thesis by (intro exI [of _ acc1] exI [of _ st2]) simp
qed

section \<open>Findings\<close>

text \<open>
  The invitation stores the email in lower case and the login page compares it as typed: who was invited
  with a capital in the email is refused when signing in with that email.
\<close>

lemma invited_email_is_refused:
  assumes "backend_ok auth" "team_add email_ok g actor email (Some r) (sf_accounts st) = (Invited, acc1)" "lower (strip email) \<noteq> strip email"
  shows "auth (put_password k p (st\<lparr>sf_accounts := acc1\<rparr>)) (strip email) q = None"
proof (rule ccontr)
  note rows = invited_rows [OF assms(2)]
  assume "auth (put_password k p (st\<lparr>sf_accounts := acc1\<rparr>)) (strip email) q \<noteq> None"
  then obtain j where "auth (put_password k p (st\<lparr>sf_accounts := acc1\<rparr>)) (strip email) q = Some j" by auto
  with assms(1) obtain u where "u \<in> set (acc_users (sf_accounts (put_password k p (st\<lparr>sf_accounts := acc1\<rparr>))))"
    "user_email u = strip email" unfolding backend_ok_def by blast
  then obtain v where "v \<in> set (acc_users acc1)" "user_email v = strip email"
    by (auto simp: put_password_def set_update_rows split: if_splits)
  with rows(1) assms(3) show False by (auto simp: rows(2))
qed

text \<open>
  The page that sets the password keeps it as typed, the login form strips it: a password with a blank at
  either end is stored and never signs its owner in.
\<close>

lemma padded_password_is_refused:
  assumes "staff_wf st" and "backend_ok auth"
    and "team_add email_ok g actor email (Some r) (sf_accounts st) = (Invited, acc1)"
    and "st1 = st\<lparr>sf_accounts := acc1\<rparr>" and "user_at (acc_next (sf_accounts st)) st1 = Some u"
    and "strip p \<noteq> p" and "lr_user rq = None" and "lr_post_email rq = Some e" and "strip e = lower (strip email)"
    and "lr_post_password rq = Some p"
  shows "fst (snd (login_page auth email_ok cfg allowed rq later (put_password (user_pk u) p st1))) = None"
proof -
  let ?st2 = "put_password (user_pk u) p st1"
  note new = invited_account [OF assms(1,3,4,5)]
  have "auth ?st2 (strip e) (strip p) = None"
  proof (rule ccontr)
    assume "auth ?st2 (strip e) (strip p) \<noteq> None"
    then obtain k where "auth ?st2 (strip e) (strip p) = Some k" by auto
    with assms(2) obtain v where v: "v \<in> set (acc_users (sf_accounts ?st2))" "user_pk v = k" "user_email v = strip e"
        "sf_passwords ?st2 k = Some (strip p)" unfolding backend_ok_def by blast
    then have "k = user_pk u" using new(5) by (auto simp: put_password_def assms(4,9) new(2) set_update_rows new(1) filter_empty_conv split: if_splits)
    with v(4) assms(6) show False by (simp add: put_password_def)
  qed
  with assms(7,8,10) show ?thesis
    by (simp add: login_page_def Let_def staff_login_form_def or_blank_def login_view_def)
qed

text \<open>
  The operator's command looks the account up by the exact email, so with another capitalization of an
  invited member's email it makes a second account, and two accounts then differ in capitals only.
\<close>

lemma bootstrap_doubles_an_account:
  assumes "org_of subdomain = Some g" "u \<in> set (acc_users (sf_accounts st))"
    and "lower (user_email u) = lower (lowered email)"
    and "\<forall>x\<in>set (acc_users (sf_accounts st)). user_email x \<noteq> lowered email"
  shows "\<not> accounts_wf (sf_accounts (snd (create_staff_user lowered org_of email p subdomain role reset st)))"
proof -
  let ?acc = "sf_accounts (snd (create_staff_user lowered org_of email p subdomain role reset st))"
  have "first_row (filter (\<lambda>x. user_email x = lowered email) (acc_users (sf_accounts st))) = None"
    using assms(4) by (simp add: filter_empty_conv)
  then have emails: "map user_email (acc_users ?acc) = map user_email (acc_users (sf_accounts st)) @ [lowered email]"
    using assms(1)
    by (simp add: create_staff_user_def Let_def put_password_def update_rows_def comp_def if_distrib split: option.split)
  have "map (\<lambda>u. lower (user_email u)) (acc_users ?acc) = map lower (map user_email (acc_users ?acc))" by simp
  also have "\<dots> = map (\<lambda>u. lower (user_email u)) (acc_users (sf_accounts st)) @ [lower (lowered email)]"
    unfolding emails by simp
  finally have all: "map (\<lambda>u. lower (user_email u)) (acc_users ?acc) =
      map (\<lambda>u. lower (user_email u)) (acc_users (sf_accounts st)) @ [lower (lowered email)]" .
  have "lower (lowered email) \<in> set (map (\<lambda>u. lower (user_email u)) (acc_users (sf_accounts st)))"
    using assms(2,3) by force
  with all have "\<not> distinct (map (\<lambda>u. lower (user_email u)) (acc_users ?acc))" by simp
  then show ?thesis by (simp add: accounts_wf_def)
qed

end
