(* ===== verification/PassDisplay.thy ===== *)
theory PassDisplay
  imports PassFacts Inventory Json
begin

text \<open>
  What the storefront's pages show of passes (passes/context_processors.py, passes/templatetags/pass_tags.py):
  the switch, the pass the session redeems with, the button beside a held item and the label of the
  banner. All of it is advisory; the properties relate the button to what redeeming answers.
\<close>

section \<open>The code\<close>





definition pass_remaining_label :: "pass_purchase option \<Rightarrow> db \<Rightarrow> string" where
  "pass_remaining_label pass_purchase s =
     (case pass_purchase of
        None \<Rightarrow> ''''
      | Some pp \<Rightarrow>
          (case remaining_admissions pp s of
             None \<Rightarrow> ''unlimited shows''
           | Some n \<Rightarrow> show_int n @ '' '' @ (if pp_kind pp = FLEX then ''credit'' else ''show'') @
                       (if n = 1 then '''' else ''s'') @ '' remaining''))"

section \<open>What redeeming can refuse\<close>


text \<open>The errors the redeem page answers with a message; any other ends in a server error.\<close>

definition refuses_redemption :: "error \<Rightarrow> bool" where
  "refuses_redemption e \<longleftrightarrow> (\<exists>why. e = FulfillErr (PassRedemptionError why)) \<or> e = FulfillErr HoldGoneError"

lemma refuses_redemption_simps [simp]:
  "refuses_redemption (FulfillErr (PassRedemptionError why))" "refuses_redemption (FulfillErr HoldGoneError)"
  "\<not> refuses_redemption (PyErr p)" "\<not> refuses_redemption (FulfillErr AvailabilityChangedError)"
  by (simp_all add: refuses_redemption_def)
















section \<open>Properties\<close>








text \<open>
  The page catches the refusals and a hold that is gone, not the other error the service raises on purpose: when the
  places are gone at the moment of redeeming, the buyer gets a server error instead of the message.
\<close>

lemma gone_places_crash_the_redeem_page:
  assumes "current_guest rq v s = (Some g, v0)" "own_hold (rq_post rq ''hold_id'') rq now v0 s = Inr (Some h)"
    and "vs_redeeming v0 = Some k" "k \<noteq> 0" "pass_of_guest (org_pk (rq_org rq)) g (Some k) s = Some pp" "pp_pk pp = k"
    and "fulfill_hold_with_pass h k (guest_email g) (guest_name g) False now s = Inl (FulfillErr AvailabilityChangedError)"
  shows "pass_redeem rq now v s = (ServerError (FulfillErr AvailabilityChangedError), v0, s)"
  using assms by (simp add: pass_redeem_def with_hold_def)

end
