(* ===== verification/PriceGridPage.thy ===== *)
theory PriceGridPage
  imports PriceGrid
begin

text \<open>
  The page of the reserved-seating price grid (dashboard/views.py: \<open>_reserved_price_editor\<close>): one row per
  section of the chart with the two stored prices, or with what was typed when the post was refused.
  Posting the page back as it came leaves the database as it was.
\<close>

section \<open>The code\<close>

record price_row =
  pr_section :: section_row
  pr_default_value :: string
  pr_override_value :: string
  pr_has_default :: bool
  pr_has_override :: bool
  pr_default_error :: "price_error option"
  pr_override_error :: "price_error option"

text \<open>\<open>{t.section_id: t for t in ...}\<close>: the last tier of a section stays.\<close>

definition tier_by_section :: "performance \<Rightarrow> nat option \<Rightarrow> db \<Rightarrow> nat \<Rightarrow> price_tier option" where
  "tier_by_section performance perf s sect =
     first_row (rev (order_by tier_name (tiers_for (perf_organization performance) perf sect s)))"

definition stored_value :: "price_tier option \<Rightarrow> string" where
  "stored_value tier = (case tier of None \<Rightarrow> '''' | Some t \<Rightarrow> show_cents (tier_amount t))"

definition typed_value :: "(string \<rightharpoonup> string) \<Rightarrow> string \<Rightarrow> string" where
  "typed_value post field = strip (case post field of None \<Rightarrow> '''' | Some t \<Rightarrow> t)"

definition grid_row :: "performance \<Rightarrow> (string \<rightharpoonup> string) option \<Rightarrow> (string \<times> price_error) list \<Rightarrow> db \<Rightarrow> section_row \<Rightarrow> price_row" where
  "grid_row performance posted errors s sec =
     (let default_tier = tier_by_section performance None s (section_pk sec);
          override_tier = tier_by_section performance (Some (perf_pk performance)) s (section_pk sec)
      in \<lparr>pr_section = sec,
          pr_default_value = (case posted of None \<Rightarrow> stored_value default_tier | Some post \<Rightarrow> typed_value post (default_field sec)),
          pr_override_value = (case posted of None \<Rightarrow> stored_value override_tier | Some post \<Rightarrow> typed_value post (override_field sec)),
          pr_has_default = (default_tier \<noteq> None), pr_has_override = (override_tier \<noteq> None),
          pr_default_error = map_of errors (default_field sec), pr_override_error = map_of errors (override_field sec)\<rparr>)"

definition price_rows :: "performance \<Rightarrow> (string \<rightharpoonup> string) option \<Rightarrow> (string \<times> price_error) list \<Rightarrow> db \<Rightarrow> price_row list" where
  "price_rows performance posted errors s = map (grid_row performance posted errors s) (grid_sections performance s)"

datatype grid_answer = GridSaved | GridPage "price_row list" | GridCrash error

definition price_grid_view :: "performance \<Rightarrow> (string \<rightharpoonup> string) option \<Rightarrow> db \<Rightarrow> grid_answer \<times> db" where
  "price_grid_view performance posted s =
     (case posted of
        None \<Rightarrow> (GridPage (price_rows performance None [] s), s)
      | Some post \<Rightarrow>
          (case reserved_price_editor performance post s of
             Inl e \<Rightarrow> (GridCrash e, s)
           | Inr (errors, s') \<Rightarrow>
               if errors = [] then (GridSaved, s') else (GridPage (price_rows performance posted errors s'), s')))"

section \<open>Posting the page back\<close>

text \<open>The two fields of each row, as a browser submits the form untouched.\<close>

definition page_post :: "price_row list \<Rightarrow> string \<rightharpoonup> string" where
  "page_post rows = map_of (concat (map (\<lambda>r. [(default_field (pr_section r), pr_default_value r),
       (override_field (pr_section r), pr_override_value r)]) rows))"

lemma fields_apart [simp]:
  "default_field a \<noteq> override_field b" "override_field b \<noteq> default_field a"
  "default_field a = default_field b \<longleftrightarrow> section_pk a = section_pk b"
  "override_field a = override_field b \<longleftrightarrow> section_pk a = section_pk b"
  by (simp_all add: default_field_def override_field_def)

lemma page_post_row:
  assumes "distinct (map (section_pk \<circ> pr_section) rows)" "r \<in> set rows"
  shows "page_post rows (default_field (pr_section r)) = Some (pr_default_value r) \<and>
     page_post rows (override_field (pr_section r)) = Some (pr_override_value r)"
  using assms
proof (induction rows)
  case (Cons x rows)
  show ?case
  proof (cases "r = x")
    case False
    with Cons.prems have "r \<in> set rows" "section_pk (pr_section x) \<noteq> section_pk (pr_section r)" by auto
    with Cons show ?thesis by (simp add: page_post_def)
  qed (simp add: page_post_def)
qed simp

definition sound_amount :: "cents \<Rightarrow> bool" where
  "sound_amount a \<longleftrightarrow> 0 \<le> a \<and> fits_column a"

lemma parse_shown: "sound_amount a \<Longrightarrow> parse_price (Some (show_cents a)) = Inr (Inr (Some a))"
proof -
  assume a: "sound_amount a"
  then have shown: "parse_decimal (strip (show_cents a)) = Some (Fin a (-2))"
    using parse_show_cents [of a] by (simp add: sound_amount_def parse_decimal_def)
  moreover have "parse_decimal '''' = None" by code_simp
  ultimately have "strip (show_cents a) \<noteq> ''''" by auto
  with a shown show ?thesis
    by (auto simp: parse_price_def sound_amount_def fits_column_def quantize_cents_def Let_def)
qed

lemma put_stored:
  assumes "tiers_wf s" "\<forall>t\<in>set (db_tiers s). sound_amount (tier_amount t)"
  shows "\<exists>a. parse_price (Some (stored_value (tier_by_section performance perf s (section_pk sec)))) = Inr (Inr a) \<and>
     put_price (perf_organization performance) (perf, sec, a) s = Inr s"
proof -
  let ?here = "tiers_for (perf_organization performance) perf (section_pk sec) s"
  have one: "one_tier_per_cell s" and wk: "well_keyed tier_pk (db_next s) (db_tiers s)"
    using assms(1) by (simp_all add: tiers_wf_def)
  show ?thesis
  proof (cases "first_row ?here")
    case None
    then show ?thesis
      by (simp add: stored_value_def tier_by_section_def parse_price_def put_price_def order_by_def strip_def)
  next
    case (Some t)
    note here = tiers_for_first [OF one Some]
    then have t: "t \<in> set (db_tiers s)" by (auto simp: tiers_for_def filter_eq_Cons_iff)
    with assms(2) have a: "sound_amount (tier_amount t)" by blast
    have "x\<lparr>tier_amount := tier_amount t\<rparr> = x" if "x \<in> set (db_tiers s)" "tier_pk x = tier_pk t" for x
      using tier_rows.keyed_inj [OF wk that(1) t that(2)] by simp
    then have "update_rows (\<lambda>x. tier_pk x = tier_pk t) (\<lambda>x. x\<lparr>tier_amount := tier_amount t\<rparr>) (db_tiers s) = db_tiers s"
      by (auto simp: update_rows_def intro: map_idI)
    with a here show ?thesis
      by (simp add: stored_value_def tier_by_section_def put_price_def order_by_def parse_shown sound_amount_def)
  qed
qed

lemma price_plan_untouched:
  assumes "\<And>sec. sec \<in> set secs \<Longrightarrow>
      (\<exists>a. parse_price (post (default_field sec)) = Inr (Inr a) \<and> put_price org (None, sec, a) s = Inr s) \<and>
      (\<exists>a. parse_price (post (override_field sec)) = Inr (Inr a) \<and> put_price org (Some (perf_pk performance), sec, a) s = Inr s)"
  shows "\<exists>plan. price_plan performance post secs = Inr ([], plan) \<and> put_prices org plan s = Inr s"
  using assms
proof (induction secs)
  case (Cons sec secs)
  then obtain plan where "price_plan performance post secs = Inr ([], plan)" "put_prices org plan s = Inr s" by auto
  with Cons.prems [of sec] show ?case by (auto simp: plan_cell_def)
qed simp

section \<open>Properties\<close>

text \<open>
  Property C38. The price grid shows what is stored: a manager who opens the page and saves it without
  typing anything changes no row of any table.
\<close>

theorem untouched_grid_saves_nothing:
  assumes "price_grid_view performance None s = (GridPage rows, s)"
    and "tiers_wf s" and "\<forall>t\<in>set (db_tiers s). sound_amount (tier_amount t)"
    and "distinct (map section_pk (db_sections s))"
  shows "price_grid_view performance (Some (page_post rows)) s = (GridSaved, s)"
proof -
  let ?secs = "grid_sections performance s"
  from assms(1) have rows: "rows = price_rows performance None [] s" by (simp add: price_grid_view_def)
  have "distinct (map section_pk ?secs)"
    using assms(4) by (auto simp: grid_sections_def order_by_def distinct_map inj_on_def split: option.splits)
  then have d: "distinct (map (section_pk \<circ> pr_section) rows)" by (simp add: rows price_rows_def grid_row_def Let_def comp_def)
  have cell: "(\<exists>a. parse_price (page_post rows (default_field sec)) = Inr (Inr a) \<and>
        put_price (perf_organization performance) (None, sec, a) s = Inr s) \<and>
      (\<exists>a. parse_price (page_post rows (override_field sec)) = Inr (Inr a) \<and>
        put_price (perf_organization performance) (Some (perf_pk performance), sec, a) s = Inr s)"
    if sec: "sec \<in> set ?secs" for sec
  proof -
    let ?r = "grid_row performance None [] s sec"
    from sec have "?r \<in> set rows" by (simp add: rows price_rows_def)
    from page_post_row [OF d this] put_stored [OF assms(2,3)] show ?thesis by (simp add: grid_row_def Let_def)
  qed
  from price_plan_untouched [of ?secs, OF cell] show ?thesis
    by (auto simp: price_grid_view_def reserved_price_editor_def save_reserved_prices_def)
qed

theorem untouched_grid_saves_nothing_witness:
  "\<exists>rows. price_grid_view matinee None demo = (GridPage rows, demo) \<and> rows \<noteq> [] \<and>
     price_grid_view matinee (Some (page_post rows)) demo = (GridSaved, demo)"
proof -
  let ?rows = "price_rows matinee None [] demo"
  have page: "price_grid_view matinee None demo = (GridPage ?rows, demo)" by (simp add: price_grid_view_def)
  have "tiers_wf demo"
    by (auto simp: tiers_wf_def well_keyed_def one_tier_per_cell_def tiers_for_def fixture_defs)
  moreover have "\<forall>t\<in>set (db_tiers demo). sound_amount (tier_amount t)"
    by (simp add: fixture_defs sound_amount_def fits_column_def)
  moreover have "distinct (map section_pk (db_sections demo))" by (simp add: fixture_defs)
  moreover have "?rows \<noteq> []"
    by (simp add: price_rows_def grid_sections_def get_seating_chart_def order_by_def fixture_defs)
  ultimately show ?thesis using untouched_grid_saves_nothing [OF page] page by blast
qed

end
