(* ===== verification/Spec2Isabelle.thy ===== *)
theory Spec2Isabelle
  imports CheckoutFacts ScanFacts Portal ChartIO BackOffice CatalogueFacts ReportFacts CampaignProgress ReceiptFacts HelpFacts PublicFacts TenancyFacts ChartUpload EditorPage StaffAccounts PassDisplay PriceGridPage
begin

text \<open>
  Verification of the box office: a multi-tenant ticketing service (Django) for small theaters.

  THE PROGRAM. A request arrives under a host name, which stands for a theater (tenants). A visitor picks a
  performance of an event and puts inventory on hold: a number of general-admission places, or seats of a
  seating chart (events, venues, orders). The hold is the cart: it lives ten minutes, carries a promo code
  and a donation (promotions, donations) and fixes what will be charged. Checkout makes a payment page at Stripe;
  Stripe's webhook, or the return of the buyer, turns the hold into an order with tickets (payments). Season passes and
  flex passes are sold the same way and pay for later holds (passes). The door scans signed codes (scanning);
  the box office cancels and refunds. A buyer is a guest of the theater, known by email, who signs in with a
  mailed link (guests), gets receipts with a PDF (orders/emails.py, orders/pdf.py), and campaign mail as long as consent
  stands (campaigns). Members of the theater's staff, with four roles (accounts), edit all of it (dashboard):
  events, prices, charts in a visual editor or read from a drawing by a vision service, pricing zones, codes, passes,
  help articles (helpcenter). An operator creates, sets up and retires theaters (tenants/management).
  All components share one relational database; they call each other's service functions.

  WHICH THEORY MODELS WHAT. Paths are under src/.
  \<^item> Prelude: the error monad of the service functions, Python's list idioms, ASCII strings, tables
    (get, save, delete, insert), and the two interfaces described below. Money: Decimal amounts and rounding.
    Json: decoded JSON and Python's conversions of it. Hashing: SHA-256, HMAC, base32. Numerals: printed keys.
  \<^item> Schema: every model of every models.py that sales depend on as a record, the database \<open>db\<close> as the record of the
    tables, and what reading through a foreign key gives. Fixture: the small box office the witnesses run on.
  \<^item> Pricing (events/pricing.py), Zones (events/zones.py), Holds and SeatHolds (orders/services.py: holding, sweeping),
    Promotions, Donations, Cart (orders/services.py: the money of a hold), Guests, Passes, Tokens (orders/tokens.py).
  \<^item> Fulfillment (payments/services.py: from a paid session to an order, void_order of orders/services.py, refunds), Checkout
    (fees, line items, sessions), Webhook (payments/views.py, Connect accounts), with their facts in OrderFacts,
    PassFacts, CheckoutFacts. Scanning and ScanFacts (scanning).
  \<^item> Storefront (orders/views.py, donations/views.py, passes/views.py), PassDisplay (passes/context_processors.py,
    passes/templatetags/pass_tags.py), Portal (guests/views.py, guests/tokens.py, accounts/throttle.py).
  \<^item> Ledger: the invariant of the tables. BoxOffice: the storefront, the webhook, the sweeper, the door and
    the refund desk as one transition system. Inventory: what every reachable state satisfies.
    BackOffice: the same system with the managers' edits among its steps.
  \<^item> Seating and SeatingFacts (venues/generation.py), ChartParsing and ParsingFacts (venues/chart_parsing.py), ChartUpload
    (the vision service's call, the upload page, parse_seating_chart.py), ChartIO (venues/chart_io.py), ChartEditor and EditorPage
    (dashboard/views.py: the editor's save and its page).
  \<^item> PriceGrid and PriceGridPage (dashboard/views.py: the reserved price grid), ZoneMap (events/zone_export.py,
    events/seat_contrast.py), ZoneEditor (dashboard/views.py: zone endpoints), Catalogue and CatalogueFacts (dashboard/forms.py and
    the views that save its forms), Reports and ReportFacts (dashboard/views.py: overview, performance, orders, donations, passes).
  \<^item> Campaigns, CampaignFacts, CampaignProgress (campaigns and the composer of the dashboard). Receipts and
    ReceiptFacts (orders/emails.py, orders/pdf.py, the dashboard's order actions). HelpCenter and HelpFacts (helpcenter). PublicSite and
    PublicFacts (tenants/views.py, tenants/forms.py, events/views.py).
  \<^item> Access (tenants/middleware.py, accounts: roles, gate, team), StaffAccounts (login page, invitations, create_staff_user.py),
    Tenancy and TenancyFacts (provision_tenant.py, remove_tenant.py, provision_pending_tenants.py, tenants/admin.py).
  Records and fields carry the model's name with a prefix for the table (\<open>tkt_status\<close> is Ticket.status); a definition carries
  the name of the function, method or class it translates wherever Isabelle allows the name.

  HOW THE CODE IS READ.
  \<^item> A service function maps its arguments, the clock and the database to \<open>Inr\<close> of result and database, or to \<open>Inl\<close> of the
    exception. A function under transaction.atomic keeps no write when it raises: \<open>Inl\<close> carries no database. Views
    that are not atomic keep what was written before the exception; they answer 500 there, as a value.
  \<^item> A transaction is one step. Transactions interleave in any order in the systems of BoxOffice, BackOffice,
    Campaigns (the batch sender in small steps, several runs, crashes) and Tenancy (the worker likewise). An operation reads the
    clock once.
  \<^item> The database behaves as SQLite does, the database the settings name: no length limit on text columns. A foreign key is the
    key of a row; PROTECT, CASCADE, SET_NULL and the uniqueness constraints that code meets are written out. Keys of the sales
    tables come from one increasing sequence, so that a key names one row; campaigns, help articles, contact
    messages, set-up rows and accounts have sequences of their own. No code compares keys of different tables.
  \<^item> Money is an integer of hundredths (two stored decimals) with Python's rounding (half up, half even) written out; time is in
    microseconds. Python's integers are \<open>int\<close>, words occur in the hash functions only. A float is a real
    number: rounding errors are not modelled. Infinities and NaN occur where JSON can bring them
    (Json, ChartParsing) and are an explicit outcome where a layout stops being finite (Seating).
    A string is a list of ASCII characters; \<open>upper\<close>, \<open>strip\<close> and the like are the ASCII ones.
  \<^item> A form is the record of its \<open>cleaned_data\<close> (none: the field was rejected); checks the forms make themselves are
    translated. A page is the record of what the template is given; a drawing is the list of drawing calls.
    A stored password stands for its hash.

  WHAT IS A PARAMETER, because the code is not in the repository: Stripe (the answers to each call, and \<open>construct_event\<close>, the check of a
  delivery's signature, which sees the payload, the header, the secret and the time), the cache (what its \<open>incr\<close> does to the expiry of
  an entry: the backends differ, and config/settings/prod.py chooses the file cache), Django's signing
  (\<open>dumps\<close>, \<open>loads\<close>: \<open>signing_laws\<close> states that what was signed is read back under its salt within its age, and
  under the other salt never), its authentication backend (\<open>backend_ok\<close>) and token generator (\<open>token_kit_ok\<close>), its slugify and email check,
  template rendering and the mail transport (\<open>mail_kit\<close>, \<open>deliver\<close>, \<open>receipt_kit\<close>, \<open>send_receipt\<close>), the paper and the colours that reportlab
  reads (\<open>sheet\<close>, \<open>pdf_kit\<close>), the boxes of texts in Pillow's fonts, the
  date parser and formatter of reports (\<open>report_kit\<close>), Python's \<open>repr\<close> of a float, the entropy of a ticket code, the vision service
  (\<open>vision_client\<close>), the tool that sets up a host (its outcome per run), the secret key and the other settings. Each law is a
  named predicate, and a witness instantiates it with concrete functions.

  INTERFACES. \<open>model_table\<close> (Prelude) is a table whose rows carry a key: what get, save, insert and delete do to one another and
  that keys stay unique; it is interpreted at each table the operations write. \<open>inductive_invariant\<close> (Prelude) is a
  transition system with a predicate that holds at the start and is kept by each step; it is interpreted at the box office (\<open>sales\<close>), the box
  office with its back office (\<open>venue\<close>, \<open>venue_carts\<close>), the batch sender (\<open>blast\<close>), the team (\<open>team\<close>), the help center
  (\<open>help_inv\<close>) and the worker (\<open>infra_inv\<close>). Collections: \<open>effect\<close> and \<open>frame\<close> say what an operation writes and what it leaves alone,
  \<open>aside\<close> which edits leave the sales alone. Roles are an instance of \<open>linorder\<close>.

  WHAT IS PROVED, in the order of importance.
  \<^item> Inventory (BackOffice, Inventory, SeatHolds): no room is oversold and no seat sold twice in any reachable state; the system refines a
    book from seats to orders; carts left behind free what they held, so that the next request for it is granted; a seat hold is
    granted exactly when its seats can be had.
  \<^item> Money (OrderFacts, PassFacts, CheckoutFacts, Webhook, BackOffice): a session is fulfilled once, an order adds up and records what Stripe
    collects (where prices are whole minor units), redeeming a pass and refunding it is a round trip, a receipt goes out at most once
    however often Stripe delivers an event and whatever happens in between.
  \<^item> The door (Scanning, ScanFacts): a ticket admits once; a refunded one never.
  \<^item> Mail (CampaignFacts, CampaignProgress, Portal, ReceiptFacts): at most one mail per guest and campaign under overlapping and crashing
    runs, every campaign ends, unsubscribing stops it, a magic link signs in exactly its guest, the receipt fits the purchase and
    the PDF shows every ticket: codes within the margins, texts word for word (how wide a text is drawn is not modelled).
  \<^item> Charts and prices (SeatingFacts, ChartIO, ChartEditor, EditorPage, ChartUpload, Zones, ZoneEditor, ZoneMap, PriceGridPage): rosters are
    unique, repositioning is regeneration in place, saving keeps ticketed seats and stores what it shows, posting an untouched
    page changes nothing, what an export holds survives its import, a parsed chart is stored and seated as its spec asks, zones stay
    disjoint and set the price, and the map of them fits its panel on paper and on screen.
  \<^item> People and pages (Access, StaffAccounts, CatalogueFacts, ReportFacts, PassDisplay, PublicFacts, HelpFacts, TenancyFacts): a theater keeps an owner,
    an invitation works once, valid forms are saved, the seat map of the staff agrees with the storefront, buttons are honest,
    stored messages are bounded (for requests one after another, in the window the cache keeps), slugs are found, the set-up queue drains,
    oldest row first, and never serves a theater twice at a time.
  Behaviours that do not do what their comments promise are proved as lemmas on a concrete state, in the theory of the
  component (for example \<open>cross_performance_hold_blocks\<close>, \<open>clone_breaks_one_zone\<close>, \<open>purge_is_refused\<close>, \<open>first_save_cuts_a_parsed_layout\<close>,
  \<open>failed_receipt_is_lost\<close>, \<open>quota_renewed_inside_the_window\<close>, \<open>padded_password_is_refused\<close>, \<open>retired_theater_stays_retired\<close>).

  TERMINATION AND FUEL. Nothing runs on fuel. The two loops of the code that have no bound of their own, the search for a free section
  name (\<open>uniquify\<close>, ChartParsing) and for a free slug (\<open>unique_slug_loop\<close>, HelpCenter), are total functions: the number of taken
  names not yet tried decreases, since the suffixed candidates are distinct. What needs repetition says how
  much is enough: \<open>campaign_finishes\<close> and \<open>infra_queue_drains\<close> need no more runs than rows are waiting.

  NOT MODELLED. Migrations, settings, URL tables and start-up code; templates and browser scripts, except how the scanner page reads a
  code; the tool bin/boxoffice (nginx, certbot, DNS); demo and showcase data; argument parsing and printing of
  commands; the management commands that only wrap chart import, chart export and zone export; the three redirects around Stripe's
  onboarding; the pixels of the QR image and the bytes of PNG and PDF files; the width of a text in the PDFs; cache entries dropped before
  their time and increments at the same instant; the texts of the built-in help; columns
  that no modelled code reads (descriptions, images, colours).
\<close>

end
